(* ===== verification/Prelude.thy ===== *)
theory Prelude
  imports Main "HOL-Library.Sublist"
begin

text \<open>
  Shared vocabulary of the development.

  \<^item> Fallible code. A function that throws is a function into a sum: \<open>Inl\<close> carries the error,
    \<open>Inr\<close> the returned value. A validator of the source is a sequence of guards each of which
    throws; here it is a list of optional failures in the order of the source, of which the
    first one counts (\<open>first_error\<close>, \<open>check\<close>).
  \<^item> Arrays. The list functions of JavaScript the sources use: \<open>map\<close> with a throwing callback
    (\<open>map_result\<close>), \<open>slice\<close> from the end (\<open>last_n\<close>), the spread of a \<open>Set\<close> (\<open>js_unique\<close>).
  \<^item> Aggregates. The locales \<open>command_system\<close> and \<open>identified_system\<close> state what every stateful
    component promises (its commands keep validity, and keep the identity of the record), and
    prove once what follows for whole sequences of commands.
\<close>

named_theorems validity \<open>characterisations of a successful validation\<close>
named_theorems transition \<open>characterisations of a successful operation\<close>

subsection \<open>Results\<close>

definition bind_result :: "'e + 'a \<Rightarrow> ('a \<Rightarrow> 'e + 'b) \<Rightarrow> 'e + 'b" where
  "bind_result r k = (case r of Inl e \<Rightarrow> Inl e | Inr x \<Rightarrow> k x)"

definition map_error :: "('e \<Rightarrow> 'f) \<Rightarrow> 'e + 'a \<Rightarrow> 'f + 'a" where
  "map_error f r = (case r of Inl e \<Rightarrow> Inl (f e) | Inr x \<Rightarrow> Inr x)"

definition failure :: "'e + 'a \<Rightarrow> 'e option" where
  "failure r = (case r of Inl e \<Rightarrow> Some e | Inr _ \<Rightarrow> None)"

definition reject :: "bool \<Rightarrow> 'e \<Rightarrow> 'e option" where
  "reject c e = (if c then Some e else None)"

definition when_some :: "'a option \<Rightarrow> ('a \<Rightarrow> 'e option) \<Rightarrow> 'e option" where
  "when_some m f = (case m of None \<Rightarrow> None | Some x \<Rightarrow> f x)"

fun first_error :: "'e option list \<Rightarrow> 'e option" where
  "first_error [] = None"
| "first_error (Some e # fs) = Some e"
| "first_error (None # fs) = first_error fs"

definition check :: "'e option list \<Rightarrow> 'a \<Rightarrow> 'e + 'a" where
  "check fs x = (case first_error fs of None \<Rightarrow> Inr x | Some e \<Rightarrow> Inl e)"

fun map_result :: "('a \<Rightarrow> 'e + 'b) \<Rightarrow> 'a list \<Rightarrow> 'e + 'b list" where
  "map_result f [] = Inr []"
| "map_result f (x # xs) =
     bind_result (f x) (\<lambda>y. bind_result (map_result f xs) (\<lambda>ys. Inr (y # ys)))"

definition is_ok :: "'e + 'a \<Rightarrow> bool" where
  "is_ok r = (case r of Inl _ \<Rightarrow> False | Inr _ \<Rightarrow> True)"

subsection \<open>Arrays\<close>

definition optional_value :: "('a \<Rightarrow> 'e + 'b) \<Rightarrow> 'a option \<Rightarrow> 'e + 'b option" where
  "optional_value f v = (case v of None \<Rightarrow> Inr None | Some x \<Rightarrow> bind_result (f x) (\<lambda>y. Inr (Some y)))"

definition last_n :: "nat \<Rightarrow> 'a list \<Rightarrow> 'a list" where
  "last_n n xs = drop (length xs - n) xs"

fun js_unique_from :: "'a list \<Rightarrow> 'a list \<Rightarrow> 'a list" where
  "js_unique_from seen [] = []"
| "js_unique_from seen (x # xs) =
     (if x \<in> set seen then js_unique_from seen xs else x # js_unique_from (x # seen) xs)"

definition js_unique :: "'a list \<Rightarrow> 'a list" where
  "js_unique xs = js_unique_from [] xs"

fun duplicate_by :: "('a \<Rightarrow> 'k) \<Rightarrow> 'k list \<Rightarrow> 'a list \<Rightarrow> bool" where
  "duplicate_by key seen [] = False"
| "duplicate_by key seen (x # xs) = (key x \<in> set seen \<or> duplicate_by key (key x # seen) xs)"

subsection \<open>Facts about results\<close>

lemma bind_result_simps [simp]:
  "bind_result (Inl e) k = Inl e"
  "bind_result (Inr x) k = k x"
  by (simp_all add: bind_result_def)

lemma bind_result_Inr [transition]:
  "bind_result r k = Inr y \<longleftrightarrow> (\<exists>x. r = Inr x \<and> k x = Inr y)"
  by (cases r) auto

lemma bind_result_Inl:
  "bind_result r k = Inl e \<longleftrightarrow> r = Inl e \<or> (\<exists>x. r = Inr x \<and> k x = Inl e)"
  by (cases r) auto

lemma map_error_simps [simp]:
  "map_error f (Inl e) = Inl (f e)"
  "map_error f (Inr x) = Inr x"
  by (simp_all add: map_error_def)

lemma map_error_Inr [transition]: "map_error f r = Inr y \<longleftrightarrow> r = Inr y"
  by (cases r) auto

lemma failure_simps [simp]:
  "failure (Inl e) = Some e"
  "failure (Inr x) = None"
  by (simp_all add: failure_def)

lemma failure_None: "failure r = None \<longleftrightarrow> (\<exists>x. r = Inr x)"
  by (cases r) auto

lemma failure_map_error [simp]: "failure (map_error f r) = map_option f (failure r)"
  by (cases r) auto

lemma reject_simps [simp]:
  "reject True e = Some e"
  "reject False e = None"
  by (simp_all add: reject_def)

lemma reject_None [simp]: "reject c e = None \<longleftrightarrow> \<not> c"
  by (simp add: reject_def)

lemma when_some_simps [simp]:
  "when_some None f = None"
  "when_some (Some x) f = f x"
  by (simp_all add: when_some_def)

lemma when_some_None [simp]: "when_some m f = None \<longleftrightarrow> (\<forall>x. m = Some x \<longrightarrow> f x = None)"
  by (cases m) auto

lemma first_error_Cons_None [simp]:
  "first_error (f # fs) = None \<longleftrightarrow> f = None \<and> first_error fs = None"
  by (cases f) auto

lemma first_error_None: "first_error fs = None \<longleftrightarrow> (\<forall>f \<in> set fs. f = None)"
  by (induction fs) auto

lemma first_error_append [simp]:
  "first_error (fs @ gs) = None \<longleftrightarrow> first_error fs = None \<and> first_error gs = None"
  by (auto simp: first_error_None)

lemma first_error_append_eq:
  "first_error (fs @ gs) = (case first_error fs of None \<Rightarrow> first_error gs | Some e \<Rightarrow> Some e)"
  by (induction fs rule: first_error.induct) auto

lemma first_error_Some:
  "first_error fs = Some e \<Longrightarrow> \<exists>gs hs. fs = gs @ Some e # hs \<and> first_error gs = None"
proof (induction fs)
  case Nil
  then show ?case by simp
next
  case (Cons f fs)
  show ?case
  proof (cases f)
    case None
    with Cons obtain gs hs where "fs = gs @ Some e # hs" "first_error gs = None" by auto
    with None have "f # fs = (f # gs) @ Some e # hs \<and> first_error (f # gs) = None" by simp
    then show ?thesis by blast
  next
    case (Some a)
    with Cons.prems have "f # fs = [] @ Some e # fs \<and> first_error [] = (None :: 'a option)" by simp
    then show ?thesis by blast
  qed
qed

lemma check_Inr [transition]: "check fs x = Inr y \<longleftrightarrow> first_error fs = None \<and> y = x"
  by (auto simp: check_def split: option.splits)

lemma check_Inl: "check fs x = Inl e \<longleftrightarrow> first_error fs = Some e"
  by (auto simp: check_def split: option.splits)

lemma check_ok [simp]: "first_error fs = None \<Longrightarrow> check fs x = Inr x"
  by (simp add: check_def)

lemma failure_check [simp]: "failure (check fs x) = first_error fs"
  by (cases "first_error fs") (auto simp: check_def)

lemma map_result_Inr:
  "map_result f xs = Inr ys \<longleftrightarrow> list_all2 (\<lambda>x y. f x = Inr y) xs ys"
proof (induction xs arbitrary: ys)
  case Nil
  then show ?case by auto
next
  case (Cons x xs)
  then show ?case by (cases ys) (auto simp: bind_result_Inr)
qed

lemma map_result_length: "map_result f xs = Inr ys \<Longrightarrow> length ys = length xs"
  by (auto simp: map_result_Inr dest: list_all2_lengthD)

lemma map_result_id: "(\<And>x. x \<in> set xs \<Longrightarrow> f x = Inr x) \<Longrightarrow> map_result f xs = Inr xs"
  by (induction xs) auto

lemma map_result_ok_iff: "(\<exists>ys. map_result f xs = Inr ys) \<longleftrightarrow> (\<forall>x \<in> set xs. \<exists>y. f x = Inr y)"
  by (induction xs) (auto simp: bind_result_Inr)

lemma failure_map_result_None:
  "failure (map_result f xs) = None \<longleftrightarrow> (\<forall>x \<in> set xs. failure (f x) = None)"
  by (simp add: failure_None map_result_ok_iff)

lemma is_ok_iff [simp]: "is_ok r \<longleftrightarrow> (\<exists>x. r = Inr x)"
  by (cases r) (auto simp: is_ok_def)

subsection \<open>Facts about arrays\<close>

lemma length_last_n [simp]: "length (last_n n xs) = min n (length xs)"
  by (simp add: last_n_def)

lemma set_last_n: "set (last_n n xs) \<subseteq> set xs"
  by (simp add: last_n_def set_drop_subset)

lemma distinct_last_n: "distinct xs \<Longrightarrow> distinct (last_n n xs)"
  by (simp add: last_n_def)

lemma last_n_all [simp]: "length xs \<le> n \<Longrightarrow> last_n n xs = xs"
  by (simp add: last_n_def)

lemma suffix_last_n: "suffix (last_n n xs) xs"
  by (simp add: last_n_def suffix_drop)

lemma drop_eq_Cons:
  assumes "drop n xs = x # r"
  shows "n < length xs" "xs ! n = x" "drop (Suc n) xs = r"
proof -
  show lt: "n < length xs" using assms by (metis drop_all leI list.distinct(1))
  have "drop n xs = xs ! n # drop (Suc n) xs" using lt by (simp add: Cons_nth_drop_Suc)
  with assms show "xs ! n = x" "drop (Suc n) xs = r" by simp_all
qed

lemma set_js_unique_from: "set (js_unique_from seen xs) = set xs - set seen"
  by (induction xs arbitrary: seen) auto

lemma set_js_unique [simp]: "set (js_unique xs) = set xs"
  by (simp add: js_unique_def set_js_unique_from)

lemma distinct_js_unique_from: "distinct (js_unique_from seen xs)"
  by (induction xs arbitrary: seen) (auto simp: set_js_unique_from)

lemma distinct_js_unique [simp]: "distinct (js_unique xs)"
  by (simp add: js_unique_def distinct_js_unique_from)

lemma js_unique_from_distinct:
  "distinct xs \<Longrightarrow> set xs \<inter> set seen = {} \<Longrightarrow> js_unique_from seen xs = xs"
  by (induction xs arbitrary: seen) auto

lemma js_unique_distinct: "distinct xs \<Longrightarrow> js_unique xs = xs"
  by (simp add: js_unique_def js_unique_from_distinct)

lemma js_unique_idem [simp]: "js_unique (js_unique xs) = js_unique xs"
  by (simp add: js_unique_distinct)

lemma js_unique_from_cong: "set s1 = set s2 \<Longrightarrow> js_unique_from s1 xs = js_unique_from s2 xs"
proof (induction xs arbitrary: s1 s2)
  case Nil
  show ?case by simp
next
  case (Cons x xs)
  have "js_unique_from s1 xs = js_unique_from s2 xs"
    by (rule Cons.IH) (rule Cons.prems)
  moreover have "js_unique_from (x # s1) xs = js_unique_from (x # s2) xs"
    by (rule Cons.IH) (simp add: Cons.prems)
  ultimately show ?case by (simp add: Cons.prems)
qed

lemma js_unique_from_append:
  "js_unique_from seen (xs @ ys) = js_unique_from seen xs @ js_unique_from (rev xs @ seen) ys"
proof (induction xs arbitrary: seen)
  case Nil
  then show ?case by simp
next
  case (Cons x xs)
  have "set (rev xs @ seen) = set (rev (x # xs) @ seen)" if "x \<in> set seen"
    using that by auto
  then have "js_unique_from (rev xs @ seen) ys = js_unique_from (rev (x # xs) @ seen) ys"
    if "x \<in> set seen"
    using that by (blast intro: js_unique_from_cong)
  then show ?case using Cons.IH by simp
qed

lemma js_unique_append_absorb:
  assumes "set ys \<subseteq> set xs"
  shows "js_unique (xs @ ys) = js_unique xs"
proof -
  have "set (js_unique_from (rev xs) ys) = {}"
    using assms by (simp add: set_js_unique_from)
  then have "js_unique_from (rev xs) ys = []" by simp
  then show ?thesis by (simp add: js_unique_def js_unique_from_append)
qed

lemma duplicate_by_iff:
  "duplicate_by key seen xs \<longleftrightarrow> \<not> distinct (map key xs) \<or> set (map key xs) \<inter> set seen \<noteq> {}"
  by (induction xs arbitrary: seen) auto

lemma not_duplicate_by [simp]: "\<not> duplicate_by key [] xs \<longleftrightarrow> distinct (map key xs)"
  by (simp add: duplicate_by_iff)

lemma optional_value_Inr [transition]:
  "optional_value f v = Inr w \<longleftrightarrow> (case v of None \<Rightarrow> w = None | Some x \<Rightarrow> \<exists>y. f x = Inr y \<and> w = Some y)"
  by (auto simp: optional_value_def bind_result_Inr split: option.splits)

subsection \<open>Sequences of commands\<close>

text \<open>
  A component whose operations return either an error or the updated record: \<open>valid\<close> is its
  invariant, \<open>step c s\<close> one command. Running a list of commands stops at the first error, as the
  exception does.
\<close>

fun run_commands :: "('c \<Rightarrow> 's \<Rightarrow> 'e + 's) \<Rightarrow> 'c list \<Rightarrow> 's \<Rightarrow> 'e + 's" where
  "run_commands step [] s = Inr s"
| "run_commands step (c # cs) s = bind_result (step c s) (run_commands step cs)"

lemma run_commands_append:
  "run_commands step (cs @ ds) s = bind_result (run_commands step cs s) (run_commands step ds)"
  by (induction cs arbitrary: s) (auto simp: bind_result_def split: sum.splits)

locale command_system =
  fixes valid :: "'s \<Rightarrow> bool"
    and step :: "'c \<Rightarrow> 's \<Rightarrow> 'e + 's"
    and admissible :: "'c \<Rightarrow> bool"
  assumes step_valid: "valid s \<Longrightarrow> admissible c \<Longrightarrow> step c s = Inr t \<Longrightarrow> valid t"
begin

lemma run_valid:
  "valid s \<Longrightarrow> list_all admissible cs \<Longrightarrow> run_commands step cs s = Inr t \<Longrightarrow> valid t"
  by (induction cs arbitrary: s) (auto simp: bind_result_Inr intro: step_valid)

lemma run_prefix_valid:
  assumes "valid s" "list_all admissible (cs @ ds)" "run_commands step (cs @ ds) s = Inr t"
  shows "\<exists>u. run_commands step cs s = Inr u \<and> valid u \<and> run_commands step ds u = Inr t"
  using assms by (auto simp: run_commands_append bind_result_Inr intro: run_valid)

end

locale identified_system = command_system valid step admissible
  for valid :: "'s \<Rightarrow> bool" and step :: "'c \<Rightarrow> 's \<Rightarrow> 'e + 's" and admissible :: "'c \<Rightarrow> bool" +
  fixes identity :: "'s \<Rightarrow> 'i"
  assumes step_identity: "valid s \<Longrightarrow> admissible c \<Longrightarrow> step c s = Inr t \<Longrightarrow> identity t = identity s"
begin

lemma run_identity:
  "valid s \<Longrightarrow> list_all admissible cs \<Longrightarrow> run_commands step cs s = Inr t \<Longrightarrow>
    identity t = identity s"
proof (induction cs arbitrary: s)
  case Nil
  then show ?case by simp
next
  case (Cons c cs)
  from Cons.prems obtain u where u: "step c s = Inr u" "run_commands step cs u = Inr t"
    by (auto simp: bind_result_Inr)
  from Cons.prems u(1) have "valid u" and "identity u = identity s"
    by (auto intro: step_valid step_identity)
  with Cons.IH [of u] Cons.prems u(2) show ?case by simp
qed

end

locale ratchet_system = command_system valid step admissible
  for valid :: "'s \<Rightarrow> bool" and step :: "'c \<Rightarrow> 's \<Rightarrow> 'e + 's" and admissible :: "'c \<Rightarrow> bool" +
  fixes below :: "'s \<Rightarrow> 's \<Rightarrow> bool"
  assumes below_refl: "below s s"
    and below_trans: "below s t \<Longrightarrow> below t u \<Longrightarrow> below s u"
    and step_below: "valid s \<Longrightarrow> admissible c \<Longrightarrow> step c s = Inr t \<Longrightarrow> below s t"
begin

lemma run_below:
  "valid s \<Longrightarrow> list_all admissible cs \<Longrightarrow> run_commands step cs s = Inr t \<Longrightarrow> below s t"
proof (induction cs arbitrary: s)
  case Nil
  then show ?case by (simp add: below_refl)
next
  case (Cons c cs)
  from Cons.prems obtain u where u: "step c s = Inr u" "run_commands step cs u = Inr t"
    by (auto simp: bind_result_Inr)
  from Cons.prems u(1) have "valid u" and "below s u"
    by (auto intro: step_valid step_below)
  with Cons.IH [of u] Cons.prems u(2) show ?case by (auto intro: below_trans)
qed

end

end
