(* ===== verification/Keyed_Work_Queue.thy ===== *)
theory Keyed_Work_Queue
  imports Prelude "HOL-Library.AList"
begin

text \<open>
  The coalescing work queue of the Controller (\<open>src/src/coordination/keyedWorkQueue.ts\<close>).

  The class keeps a \<open>Map\<close> from keys to their phase, a FIFO array of ready keys and a FIFO array
  of consumers that wait in \<open>take()\<close>, both read through a head index that is reset when the array
  runs empty. A promise is modelled by the number of its waiter and by the log of resolutions the
  queue has performed (\<open>takeResults\<close>, \<open>drainResults\<close>, \<open>closeCompletion\<close>); a lease is the pair of
  its key and its token, and \<open>issued\<close> records every lease handed out. An exception is \<open>Inl\<close>.

  Every operation is a step of an \<open>inductive\<close> relation. The invariant \<open>queue_inv\<close> holds in every
  reachable state. It gives: the internal invariant errors are unreachable, a lease is active
  until it is completed exactly once, consumers never wait while work is ready, an accepted
  signal is never lost, and after a stop the close promise resolves as soon as the queue is idle.
\<close>

datatype key_state = Queued | Processing (dirty: bool) (token: nat)

datatype queue_error =
    Ready_key_not_queued | Lease_not_active | Already_completed

datatype close_state = Not_closing | Closing | Close_resolved

type_synonym 'k lease = "'k \<times> nat"

record 'k queue =
  states :: "('k \<times> key_state) list"
  ready :: "'k list"
  readyHead :: nat
  takeWaiters :: "nat list"
  takeWaiterHead :: nat
  drainWaiters :: "nat list"
  closed :: bool
  aborted :: bool
  closeCompletion :: close_state
  nextToken :: nat
  nextWaiter :: nat
  issued :: "'k lease list"
  completed :: "nat list"
  takeResults :: "(nat \<times> 'k lease option) list"
  drainResults :: "nat list"

definition new_queue :: "'k queue" where
  "new_queue = \<lparr>states = [], ready = [], readyHead = 0, takeWaiters = [], takeWaiterHead = 0,
     drainWaiters = [], closed = False, aborted = False, closeCompletion = Not_closing,
     nextToken = 0, nextWaiter = 0, issued = [], completed = [], takeResults = [],
     drainResults = []\<rparr>"

abbreviation state_of :: "'k queue \<Rightarrow> 'k \<Rightarrow> key_state option" where
  "state_of q \<equiv> map_of (states q)"

subsection \<open>Private methods\<close>

definition hasReadyWork :: "'k queue \<Rightarrow> bool" where
  "hasReadyWork q = (readyHead q < length (ready q))"

definition hasTakeWaiter :: "'k queue \<Rightarrow> bool" where
  "hasTakeWaiter q = (takeWaiterHead q < length (takeWaiters q))"

definition leaseReadyWork :: "'k queue \<Rightarrow> queue_error + ('k queue \<times> 'k lease)" where
  "leaseReadyWork q =
     (if \<not> hasReadyWork q then Inl Ready_key_not_queued else
      let key = ready q ! readyHead q;
          q1 = q\<lparr>readyHead := readyHead q + 1\<rparr>;
          q2 = (if \<not> hasReadyWork q1 then q1\<lparr>ready := [], readyHead := 0\<rparr> else q1)
      in case state_of q2 key of
           Some Queued \<Rightarrow>
             Inr (q2\<lparr>states := AList.update key (Processing False (nextToken q2)) (states q2),
                     nextToken := nextToken q2 + 1,
                     issued := issued q2 @ [(key, nextToken q2)]\<rparr>,
                  (key, nextToken q2))
         | _ \<Rightarrow> Inl Ready_key_not_queued)"

definition resetTakeWaiters :: "'k queue \<Rightarrow> 'k queue" where
  "resetTakeWaiters q =
     (if \<not> hasTakeWaiter q then q\<lparr>takeWaiters := [], takeWaiterHead := 0\<rparr> else q)"

lemma leaseReadyWork_waiters:
  "leaseReadyWork q = Inr (q', l) \<Longrightarrow>
     takeWaiters q' = takeWaiters q \<and> takeWaiterHead q' = takeWaiterHead q"
  by (auto simp: leaseReadyWork_def Let_def split: if_splits option.splits key_state.splits)

function dispatchLoop :: "'k queue \<Rightarrow> queue_error + 'k queue" where
  "dispatchLoop q =
     (if hasReadyWork q \<and> hasTakeWaiter q then
        (case leaseReadyWork (q\<lparr>takeWaiterHead := takeWaiterHead q + 1\<rparr>) of
           Inl e \<Rightarrow> Inl e
         | Inr (q', item) \<Rightarrow>
             dispatchLoop (q'\<lparr>takeResults :=
               takeResults q' @ [(takeWaiters q ! takeWaiterHead q, Some item)]\<rparr>))
      else Inr q)"
  by pat_completeness auto
termination
  by (relation "measure (\<lambda>q. length (takeWaiters q) - takeWaiterHead q)")
    (auto simp: hasTakeWaiter_def dest!: leaseReadyWork_waiters)

declare dispatchLoop.simps [simp del]

definition dispatchReadyWork :: "'k queue \<Rightarrow> queue_error + 'k queue" where
  "dispatchReadyWork q = bind_result (dispatchLoop q) (\<lambda>q'. Inr (resetTakeWaiters q'))"

text \<open>The loop of \<open>#resolveTakeWaiters\<close> answers every waiter from the head on with undefined.\<close>

definition resolveTakeWaiters :: "'k queue \<Rightarrow> 'k queue" where
  "resolveTakeWaiters q =
     q\<lparr>takeResults := takeResults q @ map (\<lambda>w. (w, None)) (drop (takeWaiterHead q) (takeWaiters q)),
       takeWaiters := [], takeWaiterHead := 0\<rparr>"

definition settleIdleWaiters :: "'k queue \<Rightarrow> 'k queue" where
  "settleIdleWaiters q =
     (if states q \<noteq> [] then q else
      let q1 = q\<lparr>drainResults := drainResults q @ drainWaiters q, drainWaiters := []\<rparr>
      in if \<not> closed q1 then q1 else
         let q2 = resolveTakeWaiters q1
         in (if closeCompletion q2 = Not_closing then q2
             else q2\<lparr>closeCompletion := Close_resolved\<rparr>))"

definition beginClose :: "'k queue \<Rightarrow> 'k queue" where
  "beginClose q =
     (if closeCompletion q = Not_closing then q\<lparr>closeCompletion := Closing, closed := True\<rparr> else q)"

definition completeLease :: "'k queue \<Rightarrow> 'k \<Rightarrow> nat \<Rightarrow> queue_error + 'k queue" where
  "completeLease q key tok =
     (case state_of q key of
        Some (Processing d t) \<Rightarrow>
          if t \<noteq> tok then Inl Lease_not_active
          else if d \<and> \<not> aborted q then
            dispatchReadyWork (q\<lparr>states := AList.update key Queued (states q),
                                 ready := ready q @ [key]\<rparr>)
          else Inr (settleIdleWaiters (q\<lparr>states := AList.delete key (states q)\<rparr>))
      | _ \<Rightarrow> Inl Lease_not_active)"

subsection \<open>Public methods\<close>

definition signal :: "'k queue \<Rightarrow> 'k \<Rightarrow> queue_error + ('k queue \<times> bool)" where
  "signal q key =
     (if closed q then Inr (q, False) else
      case state_of q key of
        None \<Rightarrow>
          bind_result (dispatchReadyWork (q\<lparr>states := AList.update key Queued (states q),
                                             ready := ready q @ [key]\<rparr>))
            (\<lambda>q'. Inr (q', True))
      | Some Queued \<Rightarrow> Inr (q, True)
      | Some (Processing d t) \<Rightarrow>
          Inr (q\<lparr>states := AList.update key (Processing True t) (states q)\<rparr>, True))"

datatype 'k taken = Taken "'k lease option" | Waiting nat

definition takeWork :: "'k queue \<Rightarrow> queue_error + ('k queue \<times> 'k taken)" where
  "takeWork q =
     (if aborted q then Inr (q, Taken None)
      else if hasReadyWork q then
        bind_result (leaseReadyWork q) (\<lambda>(q', item). Inr (q', Taken (Some item)))
      else if closed q \<and> states q = [] then Inr (q, Taken None)
      else Inr (q\<lparr>takeWaiters := takeWaiters q @ [nextWaiter q], nextWaiter := nextWaiter q + 1\<rparr>,
                Waiting (nextWaiter q)))"

definition drain :: "'k queue \<Rightarrow> 'k queue" where
  "drain q =
     (if states q = [] then q\<lparr>drainResults := drainResults q @ [nextWaiter q],
                               nextWaiter := nextWaiter q + 1\<rparr>
      else q\<lparr>drainWaiters := drainWaiters q @ [nextWaiter q], nextWaiter := nextWaiter q + 1\<rparr>)"

definition shutdown :: "'k queue \<Rightarrow> 'k queue" where
  "shutdown q = settleIdleWaiters (beginClose q)"

definition drop_pending :: "('k \<times> key_state) list \<Rightarrow> ('k \<times> key_state) list" where
  "drop_pending xs =
     concat (map (\<lambda>(k, s). case s of Queued \<Rightarrow> [] | Processing d t \<Rightarrow> [(k, Processing False t)]) xs)"

definition abortPending :: "'k queue \<Rightarrow> 'k queue" where
  "abortPending q =
     (let q1 = beginClose q in
      if aborted q1 then q1 else
      settleIdleWaiters (resolveTakeWaiters
        (q1\<lparr>aborted := True, states := drop_pending (states q1), ready := [], readyHead := 0\<rparr>)))"

text \<open>The \<open>done\<close> closure of a lease, with its own \<open>completed\<close> flag.\<close>

definition doneWork :: "'k queue \<Rightarrow> 'k lease \<Rightarrow> queue_error + 'k queue" where
  "doneWork q item =
     (if snd item \<in> set (completed q) then Inl Already_completed
      else completeLease (q\<lparr>completed := completed q @ [snd item]\<rparr>) (fst item) (snd item))"

subsection \<open>Steps and reachable states\<close>

inductive queue_step :: "'k queue \<Rightarrow> 'k queue \<Rightarrow> bool" where
  step_signal: "signal q k = Inr (q', b) \<Longrightarrow> queue_step q q'"
| step_take: "takeWork q = Inr (q', r) \<Longrightarrow> queue_step q q'"
| step_drain: "queue_step q (drain q)"
| step_shutdown: "queue_step q (shutdown q)"
| step_abort: "queue_step q (abortPending q)"
| step_done: "item \<in> set (issued q) \<Longrightarrow> doneWork q item = Inr q' \<Longrightarrow> queue_step q q'"

inductive queue_reachable :: "'k queue \<Rightarrow> bool" where
  queue_start: "queue_reachable new_queue"
| queue_next: "queue_reachable q \<Longrightarrow> queue_step q q' \<Longrightarrow> queue_reachable q'"

inductive_cases queue_stepE: "queue_step q q'"

subsection \<open>The invariant\<close>

definition pending_keys :: "'k queue \<Rightarrow> 'k list" where
  "pending_keys q = drop (readyHead q) (ready q)"

definition waiting :: "'k queue \<Rightarrow> nat list" where
  "waiting q = drop (takeWaiterHead q) (takeWaiters q)"

definition leases_inv :: "'k queue \<Rightarrow> bool" where
  "leases_inv q \<longleftrightarrow>
     (\<forall>k t. (k, t) \<in> set (issued q) \<and> t \<notin> set (completed q) \<longleftrightarrow>
            (\<exists>d. state_of q k = Some (Processing d t))) \<and>
     (\<forall>k t. (k, t) \<in> set (issued q) \<longrightarrow> t < nextToken q) \<and>
     distinct (map snd (issued q)) \<and> set (completed q) \<subseteq> snd ` set (issued q)"

definition core_inv :: "'k queue \<Rightarrow> bool" where
  "core_inv q \<longleftrightarrow>
     distinct (map fst (states q)) \<and> readyHead q \<le> length (ready q) \<and>
     takeWaiterHead q \<le> length (takeWaiters q) \<and> distinct (pending_keys q) \<and>
     (\<forall>k. k \<in> set (pending_keys q) \<longleftrightarrow> state_of q k = Some Queued) \<and> leases_inv q"

definition stop_inv :: "'k queue \<Rightarrow> bool" where
  "stop_inv q \<longleftrightarrow>
     (closed q \<longleftrightarrow> closeCompletion q \<noteq> Not_closing) \<and>
     (aborted q \<longrightarrow> closed q \<and> waiting q = [] \<and> pending_keys q = [] \<and>
        (\<forall>k t. state_of q k \<noteq> Some (Processing True t))) \<and>
     (states q \<noteq> [] \<longrightarrow> closeCompletion q \<noteq> Close_resolved)"

definition idle_settled :: "'k queue \<Rightarrow> bool" where
  "idle_settled q \<longleftrightarrow>
     (states q = [] \<longrightarrow> drainWaiters q = [] \<and>
        (closed q \<longrightarrow> closeCompletion q = Close_resolved \<and> waiting q = []))"

definition queue_inv :: "'k queue \<Rightarrow> bool" where
  "queue_inv q \<longleftrightarrow> core_inv q \<and> stop_inv q \<and> idle_settled q \<and> (pending_keys q = [] \<or> waiting q = [])"

definition frame :: "'k queue \<Rightarrow> _" where
  "frame q = (drainWaiters q, closed q, aborted q, closeCompletion q, completed q, nextWaiter q,
     map fst (states q))"

declare map_of_eq_Some_iff [simp del]

lemmas queue_defs = core_inv_def leases_inv_def stop_inv_def idle_settled_def pending_keys_def waiting_def

lemma hasReadyWork_iff: "hasReadyWork q \<longleftrightarrow> pending_keys q \<noteq> []"
  by (auto simp: hasReadyWork_def pending_keys_def)

lemma hasTakeWaiter_iff: "hasTakeWaiter q \<longleftrightarrow> waiting q \<noteq> []"
  by (auto simp: hasTakeWaiter_def waiting_def)

lemma states_Nil_iff: "states q = [] \<longleftrightarrow> (\<forall>k. state_of q k = None)"
  by (metis list.set(1) map_of_eq_None_iff image_is_empty set_empty all_not_in_conv)

subsection \<open>Leasing the head of the ready array\<close>

lemma leaseReadyWork_ok:
  assumes core: "core_inv q" and pend: "pending_keys q = k # r"
  obtains q' where "leaseReadyWork q = Inr (q', (k, nextToken q))" "core_inv q'"
    "pending_keys q' = r" "waiting q' = waiting q" "frame q' = frame q"
    "state_of q' = (state_of q)(k \<mapsto> Processing False (nextToken q))"
    "issued q' = issued q @ [(k, nextToken q)]" "takeResults q' = takeResults q"
    "drainResults q' = drainResults q"
proof -
  define h where "h = readyHead q"
  have lt: "h < length (ready q)" and key: "ready q ! h = k" and rest: "drop (Suc h) (ready q) = r"
    using drop_eq_Cons [OF pend [unfolded pending_keys_def]] by (simp_all add: h_def)
  have queued: "state_of q k = Some Queued"
    using core pend unfolding core_inv_def by (metis list.set_intros(1))
  define q2 where "q2 = (if \<not> Suc h < length (ready q) then q\<lparr>ready := [], readyHead := 0\<rparr>
    else q\<lparr>readyHead := Suc h\<rparr>)"
  define q' where "q' = q2\<lparr>states := AList.update k (Processing False (nextToken q)) (states q),
    nextToken := nextToken q + 1, issued := issued q @ [(k, nextToken q)]\<rparr>"
  have q2: "states q2 = states q" "nextToken q2 = nextToken q" "issued q2 = issued q"
    "takeWaiters q2 = takeWaiters q" "takeWaiterHead q2 = takeWaiterHead q" "closed q2 = closed q"
    "drainWaiters q2 = drainWaiters q" "aborted q2 = aborted q" "completed q2 = completed q"
    "closeCompletion q2 = closeCompletion q" "nextWaiter q2 = nextWaiter q"
    "takeResults q2 = takeResults q" "drainResults q2 = drainResults q"
    by (auto simp: q2_def)
  have run: "leaseReadyWork q = Inr (q', (k, nextToken q))"
    using lt queued key
    by (auto simp: leaseReadyWork_def hasReadyWork_def h_def [symmetric] Let_def q'_def q2_def)
  have pend': "pending_keys q' = r"
    using rest by (auto simp: pending_keys_def q'_def q2_def)
  have st: "state_of q' = (state_of q)(k \<mapsto> Processing False (nextToken q))"
    by (simp add: q'_def update_conv')
  have fresh: "(k', nextToken q) \<notin> set (issued q)" "nextToken q \<notin> set (completed q)" for k'
    using core by (fastforce simp: core_inv_def leases_inv_def)+
  have lin: "leases_inv q" using core by (simp add: core_inv_def)
  have "(k, t) \<notin> set (issued q) \<or> t \<in> set (completed q)" for t
    using lin queued unfolding leases_inv_def by (metis key_state.distinct(1) option.inject)
  then have "leases_inv q'"
    using lin fresh
    by (auto simp: leases_inv_def q'_def q2 update_conv' less_SucI image_iff)
  moreover have "readyHead q' \<le> length (ready q')" "takeWaiterHead q' \<le> length (takeWaiters q')"
    "distinct (map fst (states q'))"
    using core lt by (auto simp: q'_def q2 core_inv_def distinct_update) (simp add: q2_def h_def)
  moreover have "distinct r" "k \<notin> set r" "\<forall>k'. k' \<in> set (k # r) \<longleftrightarrow> state_of q k' = Some Queued"
    using core pend by (auto simp: core_inv_def)
  ultimately have core': "core_inv q'"
    unfolding core_inv_def pend' st by auto
  have "k \<in> set (map fst (states q))"
    using queued by (metis map_of_eq_None_iff option.distinct(1) set_map)
  then have "frame q' = frame q"
    by (simp add: frame_def q'_def q2 update_keys)
  moreover have "waiting q' = waiting q" by (simp add: waiting_def q'_def q2)
  ultimately show ?thesis
    using that [OF run core' pend'] st by (simp add: q'_def q2)
qed

subsection \<open>Dispatching ready work to waiting consumers\<close>

text \<open>
  The loop pairs the oldest waiting consumers with the oldest ready keys, in order, and stops
  when either side is empty.
\<close>

definition dispatched :: "'k queue \<Rightarrow> 'k lease list \<Rightarrow> nat list \<Rightarrow> 'k queue \<Rightarrow> bool" where
  "dispatched q ls ws q' \<longleftrightarrow>
     core_inv q' \<and> frame q' = frame q \<and> drainResults q' = drainResults q \<and>
     pending_keys q = map fst ls @ pending_keys q' \<and> waiting q = ws @ waiting q' \<and>
     length ls = length ws \<and> (pending_keys q' = [] \<or> waiting q' = []) \<and>
     issued q' = issued q @ ls \<and> takeResults q' = takeResults q @ zip ws (map Some ls) \<and>
     (\<forall>k t. (k, t) \<in> set ls \<longrightarrow> state_of q' k = Some (Processing False t)) \<and>
     (\<forall>k. k \<notin> fst ` set ls \<longrightarrow> state_of q' k = state_of q k)"

lemma dispatched_refl:
  "core_inv q \<Longrightarrow> pending_keys q = [] \<or> waiting q = [] \<Longrightarrow> dispatched q [] [] q"
  by (simp add: dispatched_def)

lemma dispatchLoop_ok:
  assumes "core_inv q"
  shows "\<exists>q' ls ws. dispatchLoop q = Inr q' \<and> dispatched q ls ws q'"
  using assms
proof (induction "length (waiting q)" arbitrary: q)
  case 0
  then have "waiting q = []" by simp
  moreover from this have "dispatchLoop q = Inr q"
    by (subst dispatchLoop.simps) (simp add: hasTakeWaiter_iff)
  ultimately show ?case using dispatched_refl [OF 0(2)] by blast
next
  case (Suc n)
  show ?case
  proof (cases "hasReadyWork q")
    case False
    then have "dispatchLoop q = Inr q" by (subst dispatchLoop.simps) simp
    with False show ?thesis using dispatched_refl [OF Suc.prems] by (auto simp: hasReadyWork_iff)
  next
    case True
    obtain w v where wait: "waiting q = w # v" using Suc.hyps(2) by (cases "waiting q") auto
    from True obtain k r where pend: "pending_keys q = k # r"
      by (auto simp: hasReadyWork_iff neq_Nil_conv)
    note wd = drop_eq_Cons [OF wait [unfolded waiting_def]]
    define q0 where "q0 = q\<lparr>takeWaiterHead := takeWaiterHead q + 1\<rparr>"
    have core0: "core_inv q0" and pend0: "pending_keys q0 = k # r" and wait0: "waiting q0 = v"
      and frame0: "frame q0 = frame q"
      using Suc.prems pend wd by (auto simp: q0_def queue_defs frame_def)
    obtain q1 where q1: "leaseReadyWork q0 = Inr (q1, (k, nextToken q0))" "core_inv q1"
      "pending_keys q1 = r" "waiting q1 = waiting q0" "frame q1 = frame q0"
      "state_of q1 = (state_of q0)(k \<mapsto> Processing False (nextToken q0))"
      "issued q1 = issued q0 @ [(k, nextToken q0)]" "takeResults q1 = takeResults q0"
      "drainResults q1 = drainResults q0"
      by (rule leaseReadyWork_ok [OF core0 pend0])
    define q2 where "q2 = q1\<lparr>takeResults := takeResults q1 @ [(w, Some (k, nextToken q))]\<rparr>"
    have step: "dispatchLoop q = dispatchLoop q2"
      using True q1(1) wd(2) wait by (subst dispatchLoop.simps)
        (simp add: hasTakeWaiter_iff q0_def q2_def)
    have core2: "core_inv q2" and q2: "pending_keys q2 = r" "waiting q2 = v" "frame q2 = frame q"
      "state_of q2 = (state_of q)(k \<mapsto> Processing False (nextToken q))"
      "issued q2 = issued q @ [(k, nextToken q)]" "drainResults q2 = drainResults q"
      "takeResults q2 = takeResults q @ [(w, Some (k, nextToken q))]"
      using q1 wait0 frame0 by (auto simp: q2_def queue_defs frame_def q0_def)
    from Suc.hyps(1) [of q2] Suc.hyps(2) core2 q2(2) wait obtain q' ls ws
      where r': "dispatchLoop q2 = Inr q'" "dispatched q2 ls ws q'" by auto
    have "k \<notin> set r" using Suc.prems pend by (simp add: core_inv_def)
    then have "k \<notin> fst ` set ls" using r'(2) q2(1) by (auto simp: dispatched_def)
    then have "dispatched q ((k, nextToken q) # ls) (w # ws) q'"
      using r'(2) q2 pend wait by (auto simp: dispatched_def fun_upd_apply)
    with r'(1) step show ?thesis by auto
  qed
qed

lemma resetTakeWaiters_simps [simp]:
  "states (resetTakeWaiters q) = states q" "frame (resetTakeWaiters q) = frame q"
  "pending_keys (resetTakeWaiters q) = pending_keys q" "waiting (resetTakeWaiters q) = waiting q"
  "issued (resetTakeWaiters q) = issued q" "takeResults (resetTakeWaiters q) = takeResults q"
  "drainResults (resetTakeWaiters q) = drainResults q"
  "core_inv q \<Longrightarrow> core_inv (resetTakeWaiters q)"
  by (simp_all add: resetTakeWaiters_def frame_def queue_defs hasTakeWaiter_def)

lemma resetTakeWaiters_ok:
  "dispatched q ls ws q' \<Longrightarrow> dispatched q ls ws (resetTakeWaiters q')"
  by (simp add: dispatched_def)

lemma dispatchReadyWork_ok:
  assumes "core_inv q"
  obtains q' ls ws where "dispatchReadyWork q = Inr q'" "dispatched q ls ws q'"
proof -
  from dispatchLoop_ok [OF assms] obtain q1 ls ws
    where "dispatchLoop q = Inr q1" "dispatched q ls ws q1" by blast
  then show ?thesis
    using that [of "resetTakeWaiters q1" ls ws]
    by (simp add: dispatchReadyWork_def resetTakeWaiters_ok)
qed

subsection \<open>Every operation keeps the invariant\<close>

lemma leases_release:
  assumes "leases_inv q" "state_of q k = Some (Processing d t)"
    and "issued q' = issued q" "completed q' = completed q @ [t]" "nextToken q' = nextToken q"
    and "\<And>k'. k' \<noteq> k \<Longrightarrow> state_of q' k' = state_of q k'"
    and "\<And>d' t'. state_of q' k \<noteq> Some (Processing d' t')"
  shows "leases_inv q'"
proof -
  have act: "(k', t') \<in> set (issued q) \<and> t' \<notin> set (completed q) \<longleftrightarrow>
      (\<exists>d. state_of q k' = Some (Processing d t'))" for k' t'
    using assms(1) by (simp add: leases_inv_def)
  have dist: "distinct (map snd (issued q))" using assms(1) by (simp add: leases_inv_def)
  have kt: "(k, t) \<in> set (issued q)" using act [of k t] assms(2) by blast
  have uniq: "k' = k" if "(k', t) \<in> set (issued q)" for k'
    using dist kt that by (metis inj_onD distinct_map snd_conv prod.inject)
  have "(k', t') \<in> set (issued q) \<and> t' \<notin> set (completed q @ [t]) \<longleftrightarrow>
      (\<exists>d. state_of q' k' = Some (Processing d t'))" for k' t'
  proof (cases "k' = k")
    case True
    then show ?thesis using act [of k t'] assms(2) assms(7) by auto
  next
    case False
    then show ?thesis using act [of k' t'] uniq assms(6) by auto
  qed
  moreover have "t \<in> snd ` set (issued q)" using kt by force
  ultimately show ?thesis
    using assms(1,3,4,5) by (simp add: leases_inv_def)
qed

lemma leases_same:
  assumes "leases_inv q" "issued q' = issued q" "completed q' = completed q" "nextToken q' = nextToken q"
    and "\<And>k t. (\<exists>d. state_of q' k = Some (Processing d t)) \<longleftrightarrow> (\<exists>d. state_of q k = Some (Processing d t))"
  shows "leases_inv q'"
  using assms by (simp add: leases_inv_def)

lemma pending_append [simp]:
  "readyHead q \<le> length (ready q) \<Longrightarrow>
     pending_keys (q\<lparr>states := s, ready := ready q @ [k]\<rparr>) = pending_keys q @ [k]"
  by (simp add: pending_keys_def)

lemma waiting_states [simp]:
  "waiting (q\<lparr>states := s\<rparr>) = waiting q" "waiting (q\<lparr>states := s, ready := r\<rparr>) = waiting q"
  "waiting (q\<lparr>completed := c\<rparr>) = waiting q"
  "pending_keys (q\<lparr>states := s\<rparr>) = pending_keys q" "pending_keys (q\<lparr>completed := c\<rparr>) = pending_keys q"
  by (simp_all add: waiting_def pending_keys_def)

lemma enqueue_core:
  assumes core: "core_inv q" and "state_of q k \<noteq> Some Queued"
    and "leases_inv (q\<lparr>completed := c, states := AList.update k Queued (states q), ready := ready q @ [k]\<rparr>)"
  shows "core_inv (q\<lparr>completed := c, states := AList.update k Queued (states q), ready := ready q @ [k]\<rparr>)"
proof -
  have "k \<notin> set (pending_keys q)" using assms(1,2) by (simp add: core_inv_def)
  moreover have "pending_keys (q\<lparr>completed := c, states := AList.update k Queued (states q),
      ready := ready q @ [k]\<rparr>) = pending_keys q @ [k]"
    using core by (simp add: core_inv_def pending_keys_def)
  ultimately show ?thesis
    using assms by (simp add: core_inv_def update_conv' distinct_update)
qed

lemma dispatched_inv:
  assumes "dispatched q ls ws q'" "states q \<noteq> []" "\<not> aborted q" "closeCompletion q \<noteq> Close_resolved"
    "closed q \<longleftrightarrow> closeCompletion q \<noteq> Not_closing"
  shows "queue_inv q'"
proof -
  have "aborted q' = aborted q" "closed q' = closed q" "closeCompletion q' = closeCompletion q"
    and "map fst (states q') = map fst (states q)"
    using assms(1) by (auto simp: dispatched_def frame_def)
  moreover from this(4) assms(2) have "states q' \<noteq> []" by auto
  ultimately show ?thesis
    using assms by (simp add: queue_inv_def stop_inv_def idle_settled_def dispatched_def)
qed

lemma core_inv_cong:
  assumes "core_inv q" "states q' = states q" "pending_keys q' = pending_keys q"
    "readyHead q' \<le> length (ready q')" "takeWaiterHead q' \<le> length (takeWaiters q')"
    "issued q' = issued q" "completed q' = completed q" "nextToken q' = nextToken q"
  shows "core_inv q'"
  using assms by (simp add: core_inv_def leases_inv_def)

lemma core_heads:
  "core_inv q \<Longrightarrow> readyHead q \<le> length (ready q) \<and> takeWaiterHead q \<le> length (takeWaiters q)"
  by (simp add: core_inv_def)

lemma settle_fields:
  "states (settleIdleWaiters q) = states q" "ready (settleIdleWaiters q) = ready q"
  "readyHead (settleIdleWaiters q) = readyHead q" "issued (settleIdleWaiters q) = issued q"
  "completed (settleIdleWaiters q) = completed q" "nextToken (settleIdleWaiters q) = nextToken q"
  "closed (settleIdleWaiters q) = closed q" "aborted (settleIdleWaiters q) = aborted q"
  "pending_keys (settleIdleWaiters q) = pending_keys q"
  "waiting (settleIdleWaiters q) = (if states q = [] \<and> closed q then [] else waiting q)"
  "drainWaiters (settleIdleWaiters q) = (if states q = [] then [] else drainWaiters q)"
  "closeCompletion (settleIdleWaiters q) =
     (if states q = [] \<and> closed q \<and> closeCompletion q \<noteq> Not_closing then Close_resolved
      else closeCompletion q)"
  "takeWaiterHead q \<le> length (takeWaiters q) \<Longrightarrow>
     takeWaiterHead (settleIdleWaiters q) \<le> length (takeWaiters (settleIdleWaiters q))"
  by (simp_all add: settleIdleWaiters_def resolveTakeWaiters_def Let_def waiting_def pending_keys_def)

lemma settle_inv:
  assumes "core_inv q" "stop_inv q" "pending_keys q = [] \<or> waiting q = []"
  shows "queue_inv (settleIdleWaiters q)"
proof -
  have "core_inv (settleIdleWaiters q)"
    using core_heads [OF assms(1)] by (intro core_inv_cong [OF assms(1)]) (simp_all add: settle_fields)
  moreover have "stop_inv (settleIdleWaiters q)"
    using assms(2) unfolding stop_inv_def settle_fields by (auto split: if_splits)
  moreover have "idle_settled (settleIdleWaiters q)"
    using assms(2) by (simp add: stop_inv_def idle_settled_def settle_fields)
  ultimately show ?thesis using assms(3) by (simp add: queue_inv_def settle_fields)
qed

lemma beginClose_fields:
  "pending_keys (beginClose q) = pending_keys q" "waiting (beginClose q) = waiting q"
  "states (beginClose q) = states q" "issued (beginClose q) = issued q"
  "aborted (beginClose q) = aborted q" "completed (beginClose q) = completed q"
  by (simp_all add: beginClose_def pending_keys_def waiting_def)

lemma beginClose_core: "core_inv q \<Longrightarrow> core_inv (beginClose q)"
  using core_heads [of q] by (rule_tac core_inv_cong [of q]) (simp_all add: beginClose_def pending_keys_def)

lemma beginClose_stop: "stop_inv q \<Longrightarrow> stop_inv (beginClose q)"
  by (auto simp: beginClose_def stop_inv_def waiting_def pending_keys_def)

lemma beginClose_closed: "stop_inv q \<Longrightarrow> closed (beginClose q)"
  by (auto simp: beginClose_def stop_inv_def)

lemma shutdown_inv: "queue_inv q \<Longrightarrow> queue_inv (shutdown q)"
  unfolding shutdown_def
  by (rule settle_inv) (auto simp: queue_inv_def beginClose_fields beginClose_core beginClose_stop)

lemma drain_fields:
  "states (drain q) = states q" "ready (drain q) = ready q" "readyHead (drain q) = readyHead q"
  "takeWaiters (drain q) = takeWaiters q" "takeWaiterHead (drain q) = takeWaiterHead q"
  "issued (drain q) = issued q" "completed (drain q) = completed q" "nextToken (drain q) = nextToken q"
  "closed (drain q) = closed q" "aborted (drain q) = aborted q"
  "closeCompletion (drain q) = closeCompletion q" "pending_keys (drain q) = pending_keys q"
  "waiting (drain q) = waiting q" "states q = [] \<Longrightarrow> drainWaiters (drain q) = drainWaiters q"
  by (simp_all add: drain_def pending_keys_def waiting_def)

lemma drain_inv:
  assumes "queue_inv q"
  shows "queue_inv (drain q)"
proof -
  have core: "core_inv q" using assms by (simp add: queue_inv_def)
  have "core_inv (drain q)"
    using core_heads [OF core] by (intro core_inv_cong [OF core]) (simp_all add: drain_fields)
  moreover have "stop_inv q \<Longrightarrow> stop_inv (drain q)" unfolding stop_inv_def drain_fields .
  moreover have "idle_settled q \<Longrightarrow> idle_settled (drain q)"
    unfolding idle_settled_def by (simp add: drain_fields)
  ultimately show ?thesis
    using assms by (simp add: queue_inv_def drain_fields)
qed

lemma map_of_drop_pending:
  "distinct (map fst xs) \<Longrightarrow> map_of (drop_pending xs) k =
     (case map_of xs k of Some (Processing d t) \<Rightarrow> Some (Processing False t) | _ \<Rightarrow> None)"
proof (induction xs)
  case Nil
  then show ?case by (simp add: drop_pending_def)
next
  case (Cons p xs)
  obtain a s where p: "p = (a, s)" by fastforce
  have "map_of xs a = None" using Cons.prems p by (simp add: map_of_eq_None_iff)
  then show ?case
    using Cons p by (cases s) (auto simp: drop_pending_def)
qed

lemma drop_pending_keys: "set (map fst (drop_pending xs)) \<subseteq> set (map fst xs)"
  by (force simp: drop_pending_def split: key_state.splits)

lemma distinct_drop_pending: "distinct (map fst xs) \<Longrightarrow> distinct (map fst (drop_pending xs))"
proof (induction xs)
  case Nil
  then show ?case by (simp add: drop_pending_def)
next
  case (Cons p xs)
  then have "fst p \<notin> set (map fst (drop_pending xs))"
    using drop_pending_keys [of xs] by auto
  with Cons show ?case by (cases p) (auto simp: drop_pending_def split: key_state.splits)
qed

lemma abort_core:
  assumes "core_inv q"
  shows "core_inv (q\<lparr>aborted := True, states := drop_pending (states q), ready := [], readyHead := 0\<rparr>)"
    (is "core_inv ?q")
proof -
  have dist: "distinct (map fst (states q))" using assms by (simp add: core_inv_def)
  have st: "state_of ?q k = (case state_of q k of Some (Processing d t) \<Rightarrow> Some (Processing False t) | _ \<Rightarrow> None)"
    for k by (simp add: map_of_drop_pending [OF dist])
  have "leases_inv ?q"
    by (rule leases_same [of q])
      (use assms st in \<open>auto simp: core_inv_def split: option.splits key_state.splits\<close>)
  moreover have "state_of ?q k \<noteq> Some Queued" for k
    unfolding st by (auto split: option.splits key_state.splits)
  ultimately show ?thesis
    using assms distinct_drop_pending [OF dist]
    by (simp add: core_inv_def pending_keys_def)
qed

lemma abortPending_inv:
  assumes "queue_inv q"
  shows "queue_inv (abortPending q)"
proof (cases "aborted q")
  case True
  then have "closeCompletion q \<noteq> Not_closing" using assms by (auto simp: queue_inv_def stop_inv_def)
  with True assms show ?thesis by (simp add: abortPending_def beginClose_def Let_def)
next
  case False
  define q1 where "q1 = beginClose q"
  define q2 where "q2 = q1\<lparr>aborted := True, states := drop_pending (states q1), ready := [], readyHead := 0\<rparr>"
  define q3 where "q3 = resolveTakeWaiters q2"
  have core1: "core_inv q1" and stop1: "stop_inv q1" and closed1: "closed q1"
    using assms beginClose_closed [of q]
    by (simp_all add: q1_def queue_inv_def beginClose_core beginClose_stop)
  have core2: "core_inv q2" unfolding q2_def by (rule abort_core [OF core1])
  have dist: "distinct (map fst (states q1))" using core1 by (simp add: core_inv_def)
  have clean: "state_of q2 k \<noteq> Some (Processing True t)" for k t
    by (auto simp: q2_def map_of_drop_pending [OF dist] split: option.splits key_state.splits)
  have core3: "core_inv q3"
    using core_heads [OF core2]
    by (intro core_inv_cong [OF core2]) (simp_all add: q3_def resolveTakeWaiters_def pending_keys_def)
  have "states q2 \<noteq> [] \<Longrightarrow> states q1 \<noteq> []" by (auto simp: q2_def drop_pending_def)
  then have "stop_inv q3"
    using stop1 closed1 clean
    by (simp add: stop_inv_def q3_def q2_def resolveTakeWaiters_def waiting_def pending_keys_def)
  moreover have "pending_keys q3 = []"
    by (simp add: q3_def q2_def resolveTakeWaiters_def pending_keys_def)
  ultimately have "queue_inv (settleIdleWaiters q3)" using core3 by (intro settle_inv) auto
  moreover have "abortPending q = settleIdleWaiters q3"
    using False by (simp add: abortPending_def q1_def [symmetric] q2_def q3_def)
      (simp add: q1_def beginClose_fields)
  ultimately show ?thesis by simp
qed

text \<open>An accepted signal adds the key, or marks its lease for replay; the caller is never failed.\<close>

lemma signal_ok:
  assumes inv: "queue_inv q"
  shows "\<exists>q'. signal q k = Inr (q', \<not> closed q) \<and> queue_inv q'"
proof (cases "closed q")
  case True
  then show ?thesis using inv by (simp add: signal_def)
next
  case open': False
  have core: "core_inv q" and stop: "stop_inv q" using inv by (simp_all add: queue_inv_def)
  have abo: "\<not> aborted q" "closeCompletion q = Not_closing" using stop open' by (auto simp: stop_inv_def)
  show ?thesis
  proof (cases "state_of q k")
    case None
    let ?q = "q\<lparr>states := AList.update k Queued (states q), ready := ready q @ [k]\<rparr>"
    have "leases_inv ?q"
      by (rule leases_same [of q]) (use core None in \<open>auto simp: core_inv_def update_conv'\<close>)
    then have "core_inv ?q" using enqueue_core [OF core, of k "completed q"] None by simp
    then obtain q' ls ws where "dispatchReadyWork ?q = Inr q'" "dispatched ?q ls ws q'"
      by (rule dispatchReadyWork_ok)
    moreover from this(2) have "queue_inv q'"
      by (rule dispatched_inv) (use abo open' in \<open>auto simp: update_nonempty\<close>)
    ultimately show ?thesis using open' None by (simp add: signal_def)
  next
    case (Some s)
    show ?thesis
    proof (cases s)
      case Queued
      then show ?thesis using inv open' Some by (simp add: signal_def)
    next
      case (Processing d t)
      let ?q = "q\<lparr>states := AList.update k (Processing True t) (states q)\<rparr>"
      have "leases_inv ?q"
        by (rule leases_same [of q]) (use core Some Processing in \<open>auto simp: core_inv_def update_conv'\<close>)
      then have "core_inv ?q"
        using core Some Processing by (auto simp: core_inv_def update_conv' distinct_update)
      then have "queue_inv ?q"
        using inv open' abo by (simp add: queue_inv_def stop_inv_def idle_settled_def update_nonempty)
      then show ?thesis using open' Some Processing by (simp add: signal_def)
    qed
  qed
qed

lemma takeWork_ok:
  assumes inv: "queue_inv q"
  shows "\<exists>q' r. takeWork q = Inr (q', r) \<and> queue_inv q'"
proof -
  have core: "core_inv q" and stop: "stop_inv q" using inv by (simp_all add: queue_inv_def)
  consider "aborted q" | "\<not> aborted q" "hasReadyWork q" | "\<not> aborted q" "\<not> hasReadyWork q" "closed q \<and> states q = []"
    | "\<not> aborted q" "\<not> hasReadyWork q" "\<not> (closed q \<and> states q = [])" by blast
  then show ?thesis
  proof cases
    case 2
    then obtain k r where pend: "pending_keys q = k # r" by (auto simp: hasReadyWork_iff neq_Nil_conv)
    obtain q' where q': "leaseReadyWork q = Inr (q', (k, nextToken q))" "core_inv q'"
      "pending_keys q' = r" "waiting q' = waiting q" "frame q' = frame q"
      by (rule leaseReadyWork_ok [OF core pend])
    have ne: "states q \<noteq> []"
      using core pend unfolding core_inv_def by (metis list.set_intros(1) map_of.simps(1) option.distinct(1))
    moreover have "map fst (states q') = map fst (states q)" using q'(5) by (simp add: frame_def)
    ultimately have "states q' \<noteq> []" by auto
    moreover have "waiting q = []" using inv pend by (simp add: queue_inv_def)
    ultimately have "queue_inv q'"
      using q' 2 stop ne by (simp add: queue_inv_def stop_inv_def idle_settled_def frame_def)
    then show ?thesis using q'(1) 2 by (simp add: takeWork_def)
  next
    case 4
    let ?q = "q\<lparr>takeWaiters := takeWaiters q @ [nextWaiter q], nextWaiter := nextWaiter q + 1\<rparr>"
    have "core_inv ?q"
      using core_heads [OF core] by (intro core_inv_cong [OF core]) (simp_all add: pending_keys_def)
    moreover have "pending_keys ?q = []" using 4(2) by (simp add: hasReadyWork_iff pending_keys_def)
    ultimately have "queue_inv ?q"
      using 4 stop inv by (auto simp: queue_inv_def stop_inv_def idle_settled_def)
    then show ?thesis using 4 by (auto simp: takeWork_def)
  qed (use inv in \<open>auto simp: takeWork_def\<close>)
qed

lemma doneWork_ok:
  assumes inv: "queue_inv q" and st: "state_of q k = Some (Processing d t)"
  shows "\<exists>q'. doneWork q (k, t) = Inr q' \<and> queue_inv q' \<and>
    (if d \<and> \<not> aborted q then
       \<exists>ls ws. dispatched (q\<lparr>completed := completed q @ [t],
           states := AList.update k Queued (states q), ready := ready q @ [k]\<rparr>) ls ws q'
     else q' = settleIdleWaiters (q\<lparr>completed := completed q @ [t], states := AList.delete k (states q)\<rparr>))"
proof -
  have core: "core_inv q" and stop: "stop_inv q" using inv by (simp_all add: queue_inv_def)
  have lin: "leases_inv q" using core by (simp add: core_inv_def)
  have act: "t \<notin> set (completed q)" using lin st unfolding leases_inv_def by blast
  have ne: "states q \<noteq> []" using st by auto
  then have cc: "closeCompletion q \<noteq> Close_resolved" "closed q \<longleftrightarrow> closeCompletion q \<noteq> Not_closing"
    using stop by (auto simp: stop_inv_def)
  show ?thesis
  proof (cases "d \<and> \<not> aborted q")
    case True
    let ?q = "q\<lparr>completed := completed q @ [t], states := AList.update k Queued (states q), ready := ready q @ [k]\<rparr>"
    have "leases_inv ?q" by (rule leases_release [OF lin st]) (simp_all add: update_conv')
    then have "core_inv ?q" using enqueue_core [OF core] st by simp
    then obtain q' ls ws where q': "dispatchReadyWork ?q = Inr q'" "dispatched ?q ls ws q'"
      by (rule dispatchReadyWork_ok)
    moreover from this(2) have "queue_inv q'" by (rule dispatched_inv) (use True cc in auto)
    ultimately show ?thesis using True st act by (auto simp: doneWork_def completeLease_def)
  next
    case False
    let ?q = "q\<lparr>completed := completed q @ [t], states := AList.delete k (states q)\<rparr>"
    have stq: "state_of ?q k' = (if k' = k then None else state_of q k')" for k'
      by (simp add: delete_conv')
    have "leases_inv ?q" by (rule leases_release [OF lin st]) (simp_all add: delete_conv')
    moreover have "k \<notin> set (pending_keys q)" using core st by (simp add: core_inv_def)
    ultimately have core': "core_inv ?q"
      using core stq by (auto simp: core_inv_def distinct_delete)
    have "stop_inv ?q"
      using stop cc stq unfolding stop_inv_def by simp
    then have "queue_inv (settleIdleWaiters ?q)"
      using core' inv by (intro settle_inv) (simp_all add: queue_inv_def)
    moreover have "doneWork q (k, t) = Inr (settleIdleWaiters ?q)"
      using False st act by (auto simp: doneWork_def completeLease_def)
    ultimately show ?thesis using False by auto
  qed
qed

lemma lease_active:
  assumes "queue_inv q" "(k, t) \<in> set (issued q)" "t \<notin> set (completed q)"
  obtains d where "state_of q k = Some (Processing d t)"
proof -
  have "leases_inv q" using assms(1) by (simp add: queue_inv_def core_inv_def)
  then show ?thesis using that assms(2,3) unfolding leases_inv_def by blast
qed

lemma queue_step_inv:
  assumes "queue_step q q'" "queue_inv q"
  shows "queue_inv q'"
  using assms(1)
proof (cases rule: queue_step.cases)
  case (step_signal k b)
  then show ?thesis using signal_ok [OF assms(2), of k] by auto
next
  case (step_take r)
  then show ?thesis using takeWork_ok [OF assms(2)] by auto
next
  case (step_done item)
  obtain k t where item: "item = (k, t)" by fastforce
  with step_done have "t \<notin> set (completed q)" by (auto simp: doneWork_def)
  with step_done item lease_active [OF assms(2), of k t] obtain d
    where "state_of q k = Some (Processing d t)" by auto
  from doneWork_ok [OF assms(2) this] step_done item show ?thesis by auto
qed (use assms(2) in \<open>simp_all add: drain_inv shutdown_inv abortPending_inv\<close>)

lemma new_queue_inv: "queue_inv new_queue"
  by (simp add: queue_inv_def queue_defs new_queue_def)

lemma queue_reachable_inv: "queue_reachable q \<Longrightarrow> queue_inv q"
  by (induction rule: queue_reachable.induct) (auto intro: new_queue_inv queue_step_inv)

subsection \<open>The order in which keys are accepted and leased\<close>

text \<open>
  \<open>accepted q\<close> is the sequence of keys that have entered the ready array, as far as it is still
  visible: those leased so far, then those still ready.
\<close>

definition accepted :: "'k queue \<Rightarrow> 'k list" where
  "accepted q = map fst (issued q) @ pending_keys q"

lemma dispatched_accepted: "dispatched q ls ws q' \<Longrightarrow> accepted q' = accepted q"
  by (simp add: dispatched_def accepted_def)

lemma enqueue_accepted:
  "core_inv q \<Longrightarrow> accepted (q\<lparr>states := s, ready := ready q @ [k]\<rparr>) = accepted q @ [k]"
  "core_inv q \<Longrightarrow> accepted (q\<lparr>completed := c, states := s, ready := ready q @ [k]\<rparr>) = accepted q @ [k]"
  by (simp_all add: accepted_def core_inv_def pending_keys_def)

lemma signal_accepted:
  assumes inv: "queue_inv q" and run: "signal q k = Inr (q', b)"
  shows "accepted q' = accepted q @ (if \<not> closed q \<and> state_of q k = None then [k] else [])"
proof (cases "\<not> closed q \<and> state_of q k = None")
  case True
  have core: "core_inv q" using inv by (simp add: queue_inv_def)
  let ?q = "q\<lparr>states := AList.update k Queued (states q), ready := ready q @ [k]\<rparr>"
  have "leases_inv ?q"
    by (rule leases_same [of q]) (use core True in \<open>auto simp: core_inv_def update_conv'\<close>)
  then have "core_inv ?q" using enqueue_core [OF core, of k "completed q"] True by simp
  then obtain q1 ls ws where "dispatchReadyWork ?q = Inr q1" "dispatched ?q ls ws q1"
    by (rule dispatchReadyWork_ok)
  with run True show ?thesis
    by (simp add: signal_def dispatched_accepted enqueue_accepted [OF core])
next
  case False
  then show ?thesis
    using run by (auto simp: signal_def accepted_def split: option.splits key_state.splits if_splits)
qed

lemma take_accepted:
  assumes inv: "queue_inv q" and run: "takeWork q = Inr (q', r)"
  shows "accepted q' = accepted q"
proof (cases "\<not> aborted q \<and> hasReadyWork q")
  case True
  have core: "core_inv q" using inv by (simp add: queue_inv_def)
  from True obtain k ks where pend: "pending_keys q = k # ks"
    by (auto simp: hasReadyWork_iff neq_Nil_conv)
  obtain q1 where "leaseReadyWork q = Inr (q1, (k, nextToken q))"
    "pending_keys q1 = ks" "issued q1 = issued q @ [(k, nextToken q)]"
    by (rule leaseReadyWork_ok [OF core pend])
  with run True pend show ?thesis by (simp add: takeWork_def accepted_def)
next
  case False
  then show ?thesis
    using run by (auto simp: takeWork_def accepted_def pending_keys_def split: if_splits)
qed

lemma done_accepted:
  assumes inv: "queue_inv q" and st: "state_of q k = Some (Processing d t)"
    and run: "doneWork q (k, t) = Inr q'"
  shows "accepted q' = accepted q @ (if d \<and> \<not> aborted q then [k] else [])"
proof (cases "d \<and> \<not> aborted q")
  case True
  have core: "core_inv q" using inv by (simp add: queue_inv_def)
  from doneWork_ok [OF inv st] True run obtain ls ws where
    "dispatched (q\<lparr>completed := completed q @ [t], states := AList.update k Queued (states q),
       ready := ready q @ [k]\<rparr>) ls ws q'" by auto
  then have "accepted q' = accepted (q\<lparr>completed := completed q @ [t],
      states := AList.update k Queued (states q), ready := ready q @ [k]\<rparr>)"
    by (rule dispatched_accepted)
  with True show ?thesis by (simp add: enqueue_accepted [OF core])
next
  case False
  from doneWork_ok [OF inv st] False run
  have "q' = settleIdleWaiters (q\<lparr>completed := completed q @ [t], states := AList.delete k (states q)\<rparr>)"
    by auto
  with False show ?thesis by (auto simp: accepted_def settle_fields)
qed

lemma stop_accepted:
  "accepted (drain q) = accepted q" "accepted (shutdown q) = accepted q"
  by (simp_all add: accepted_def drain_fields shutdown_def settle_fields beginClose_fields)

lemma abort_aborted: "aborted (abortPending q)"
  by (simp add: abortPending_def Let_def settle_fields resolveTakeWaiters_def)

subsection \<open>A concrete run\<close>

text \<open>
  A consumer waits, key 1 is signalled and handed to it, key 1 is signalled again while leased,
  and key 2 is signalled.
\<close>

definition demo_queue :: "nat queue" where
  "demo_queue = \<lparr>states = [(1, Processing True 0), (2, Queued)], ready = [2], readyHead = 0,
     takeWaiters = [], takeWaiterHead = 0, drainWaiters = [], closed = False, aborted = False,
     closeCompletion = Not_closing, nextToken = 1, nextWaiter = 1, issued = [(1, 0)],
     completed = [], takeResults = [(0, Some (1, 0))], drainResults = []\<rparr>"

lemma demo_queue_reachable: "queue_reachable demo_queue"
proof -
  obtain q1 where q1: "takeWork (new_queue :: nat queue) = Inr (q1, Waiting 0)" "waiting q1 = [0]"
    and d1: "q1 = new_queue\<lparr>takeWaiters := [0], nextWaiter := 1\<rparr>"
    by (simp add: takeWork_def new_queue_def hasReadyWork_def waiting_def)
  let ?q2 = "demo_queue\<lparr>states := [(1, Processing False 0)], ready := []\<rparr>"
  have d2: "signal q1 1 = Inr (?q2, True)"
    unfolding d1 new_queue_def demo_queue_def by code_simp
  have d3: "signal ?q2 1 = Inr (demo_queue\<lparr>states := [(1, Processing True 0)], ready := []\<rparr>, True)"
    unfolding demo_queue_def by code_simp
  have d4: "signal (demo_queue\<lparr>states := [(1, Processing True 0)], ready := []\<rparr>) 2 = Inr (demo_queue, True)"
    unfolding demo_queue_def by code_simp
  show ?thesis
    using queue_start queue_next step_take [OF q1(1)] step_signal [OF d2] step_signal [OF d3]
      step_signal [OF d4] by metis
qed

subsection \<open>Properties\<close>

text \<open>
  C1. The internal invariant errors of the queue are unreachable: in every reachable state a
  signal and a take return, a signal is accepted exactly while the queue is open, and completing
  a lease that was handed out succeeds exactly when that lease was not completed before (a second
  completion is the error \<open>already completed\<close>).
\<close>

theorem queue_operations_total:
  assumes "queue_reachable q"
  shows "(\<exists>q1. signal q k = Inr (q1, \<not> closed q)) \<and> (\<exists>q2 r. takeWork q = Inr (q2, r)) \<and>
    ((k, t) \<in> set (issued q) \<longrightarrow>
      (if t \<in> set (completed q) then doneWork q (k, t) = Inl Already_completed
       else \<exists>q3. doneWork q (k, t) = Inr q3))"
proof -
  have inv: "queue_inv q" using assms by (rule queue_reachable_inv)
  have "\<exists>q3. doneWork q (k, t) = Inr q3" if new: "(k, t) \<in> set (issued q)" "t \<notin> set (completed q)"
    by (rule lease_active [OF inv new]) (use doneWork_ok [OF inv] in blast)
  moreover have "doneWork q (k, t) = Inl Already_completed" if "t \<in> set (completed q)"
    using that by (simp add: doneWork_def)
  ultimately show ?thesis using signal_ok [OF inv, of k] takeWork_ok [OF inv] by auto
qed

lemma queue_operations_total_witness:
  "(\<exists>q1. signal demo_queue 7 = Inr (q1, True)) \<and> (\<exists>q3. doneWork demo_queue (1, 0) = Inr q3)"
  using queue_operations_total [OF demo_queue_reachable, of 7]
    queue_operations_total [OF demo_queue_reachable, of 1 0]
  by (simp add: demo_queue_def)

text \<open>
  C2. At most one lease per key is outstanding, whatever the order of signals, takes and
  completions, and a key that is ready is not leased.
\<close>

theorem queue_mutual_exclusion:
  assumes "queue_reachable q" "(k, t) \<in> set (issued q)" "t \<notin> set (completed q)"
  shows "k \<notin> set (pending_keys q) \<and>
    (\<forall>u. (k, u) \<in> set (issued q) \<and> u \<notin> set (completed q) \<longrightarrow> u = t)"
proof -
  have inv: "queue_inv q" using assms(1) by (rule queue_reachable_inv)
  obtain d where st: "state_of q k = Some (Processing d t)" by (rule lease_active [OF inv assms(2,3)])
  have "u = t" if u: "(k, u) \<in> set (issued q)" "u \<notin> set (completed q)" for u
    using lease_active [OF inv u] st by auto
  moreover have "k \<notin> set (pending_keys q)" using inv st by (simp add: queue_inv_def core_inv_def)
  ultimately show ?thesis by blast
qed

lemma queue_mutual_exclusion_witness: "1 \<notin> set (pending_keys demo_queue)"
  using queue_mutual_exclusion [OF demo_queue_reachable, of 1 0] by (simp add: demo_queue_def)

text \<open>
  C4. No consumer waits in \<open>take()\<close> while a key is ready, and once the queue is closed and idle no
  consumer and no drainer waits at all and the close promise has been resolved.
\<close>

theorem queue_no_starvation:
  assumes "queue_reachable q"
  shows "(pending_keys q = [] \<or> waiting q = []) \<and> (states q = [] \<longrightarrow> drainWaiters q = []) \<and>
    (closed q \<longrightarrow> (states q = [] \<longleftrightarrow> closeCompletion q = Close_resolved)) \<and>
    (closed q \<and> states q = [] \<longrightarrow> waiting q = [])"
  using queue_reachable_inv [OF assms]
  by (auto simp: queue_inv_def stop_inv_def idle_settled_def)

lemma queue_no_starvation_witness: "pending_keys demo_queue = [2] \<and> waiting demo_queue = []"
  using queue_no_starvation [OF demo_queue_reachable]
  by (simp add: demo_queue_def pending_keys_def waiting_def)

text \<open>
  First in, first out: as long as pending work has not been aborted, every operation extends
  the sequence of accepted keys (those leased so far followed by those still ready) by at most
  one key at its end, so keys are leased exactly in the order in which they became ready, and
  none is dropped, duplicated or overtaken.
\<close>

theorem queue_fifo:
  assumes "queue_reachable q" "queue_step q q'" "\<not> aborted q'"
  shows "\<exists>ks. length ks \<le> 1 \<and>
    map fst (issued q') @ pending_keys q' = (map fst (issued q) @ pending_keys q) @ ks"
proof -
  have inv: "queue_inv q" using assms(1) by (rule queue_reachable_inv)
  have "\<exists>ks. length ks \<le> 1 \<and> accepted q' = accepted q @ ks"
    using assms(2)
  proof (cases rule: queue_step.cases)
    case (step_signal k b)
    then show ?thesis using signal_accepted [OF inv] by fastforce
  next
    case (step_take r)
    then show ?thesis using take_accepted [OF inv] by fastforce
  next
    case (step_done item)
    obtain k t where item: "item = (k, t)" by fastforce
    with step_done have "t \<notin> set (completed q)" by (auto simp: doneWork_def)
    with step_done item lease_active [OF inv, of k t] obtain d
      where "state_of q k = Some (Processing d t)" by auto
    from done_accepted [OF inv this] step_done item show ?thesis by fastforce
  qed (use assms(3) abort_aborted [of q] in \<open>auto simp: stop_accepted\<close>)
  then show ?thesis by (simp add: accepted_def)
qed

lemma queue_fifo_witness:
  "\<exists>ks. length ks \<le> 1 \<and>
     map fst (issued (drain demo_queue)) @ pending_keys (drain demo_queue) = [1, 2] @ ks"
  using queue_fifo [OF demo_queue_reachable step_drain]
  by (simp add: demo_queue_def pending_keys_def drain_def)

text \<open>
  C3. A signal accepted by an open queue is never lost and never doubled: either its key enters
  the ready sequence now, or the key is already waiting there, or the key is leased and marked
  dirty, and then completing that lease puts it back exactly once, at the end of the sequence.
\<close>

theorem queue_signal_not_lost:
  assumes "queue_reachable q" "\<not> closed q" "signal q k = Inr (q', b)"
  shows "b \<and> (accepted q' = accepted q @ [k] \<or>
    accepted q' = accepted q \<and> (k \<in> set (pending_keys q') \<or>
      (\<exists>t q''. state_of q' k = Some (Processing True t) \<and> doneWork q' (k, t) = Inr q'' \<and>
         accepted q'' = accepted q @ [k])))"
proof -
  have inv: "queue_inv q" using assms(1) by (rule queue_reachable_inv)
  have inv': "queue_inv q'" and b: "b" using signal_ok [OF inv, of k] assms(2,3) by auto
  note acc = signal_accepted [OF inv assms(3)]
  have "\<not> aborted q" using inv assms(2) by (auto simp: queue_inv_def stop_inv_def)
  consider "state_of q k = None" | "state_of q k = Some Queued"
    | d t where "state_of q k = Some (Processing d t)"
    by (metis key_state.exhaust option.exhaust)
  then show ?thesis
  proof cases
    case 1
    then show ?thesis using acc b assms(2) by simp
  next
    case 2
    then have "q' = q" using assms(2,3) by (simp add: signal_def)
    then show ?thesis using 2 b inv by (simp add: queue_inv_def core_inv_def)
  next
    case (3 d t)
    then have st: "state_of q' k = Some (Processing True t)" and ab: "aborted q' = aborted q"
      using assms(2,3) by (auto simp: signal_def update_conv')
    obtain q'' where q'': "doneWork q' (k, t) = Inr q''" using doneWork_ok [OF inv' st] by blast
    show ?thesis using done_accepted [OF inv' st q''] \<open>\<not> aborted q\<close> ab acc 3 b st q'' by auto
  qed
qed

lemma queue_signal_not_lost_witness:
  "accepted demo_queue = [1, 2] \<and> (\<exists>q''. doneWork demo_queue (1, 0) = Inr q'' \<and> accepted q'' = [1, 2, 1])"
proof -
  have "signal demo_queue 1 = Inr (demo_queue, True)"
    by (simp add: signal_def demo_queue_def)
  from queue_signal_not_lost [OF demo_queue_reachable _ this]
  show ?thesis by (auto simp: demo_queue_def accepted_def pending_keys_def)
qed

end
