(* ===== verification/Js_Text.thy ===== *)
theory Js_Text
  imports Prelude "HOL-Library.Char_ord"
begin

text \<open>
  The part of the JavaScript string and number library that the modelled sources use.

  A JavaScript string is a list of UTF-16 code units. The development represents it by the HOL
  type \<open>string\<close>, whose characters are the code units 0 to 255; \<open>trim\<close> and \<open>toLowerCase\<close> are the
  ECMAScript functions restricted to those code units. Numbers that the sources use as counters
  are integers: the model keeps them as \<open>int\<close> and writes the test for the exactly representable
  range (\<open>Number.isSafeInteger\<close>) where the source has it.
\<close>

subsection \<open>Characters\<close>

definition unit_of :: "char \<Rightarrow> nat" where
  "unit_of c = of_char c"

definition is_space :: "char \<Rightarrow> bool" where
  "is_space c = (unit_of c \<in> set [9, 10, 11, 12, 13, 32, 160])"

definition is_digit :: "char \<Rightarrow> bool" where
  "is_digit c = (48 \<le> unit_of c \<and> unit_of c \<le> 57)"

definition is_hex :: "char \<Rightarrow> bool" where
  "is_hex c = (is_digit c \<or> (97 \<le> unit_of c \<and> unit_of c \<le> 102))"

definition lower_char :: "char \<Rightarrow> char" where
  "lower_char c =
     (let n = unit_of c in
      if (65 \<le> n \<and> n \<le> 90) \<or> (192 \<le> n \<and> n \<le> 222 \<and> n \<noteq> 215) then char_of (n + 32) else c)"

definition digit_value :: "char \<Rightarrow> nat" where
  "digit_value c = unit_of c - 48"

definition digit_char :: "nat \<Rightarrow> char" where
  "digit_char d = char_of (48 + d)"

subsection \<open>Strings\<close>

definition trim :: "string \<Rightarrow> string" where
  "trim s = rev (dropWhile is_space (rev (dropWhile is_space s)))"

definition toLowerCase :: "string \<Rightarrow> string" where
  "toLowerCase s = map lower_char s"

definition has_nul :: "string \<Rightarrow> bool" where
  "has_nul s = (CHR 0x00 \<in> set s)"

fun startsWith :: "string \<Rightarrow> string \<Rightarrow> bool" where
  "startsWith s [] = True"
| "startsWith [] (c # p) = False"
| "startsWith (a # s) (c # p) = (a = c \<and> startsWith s p)"

fun includes_text :: "string \<Rightarrow> string \<Rightarrow> bool" where
  "includes_text [] p = (p = [])"
| "includes_text (a # s) p = (startsWith (a # s) p \<or> includes_text s p)"

text \<open>The integer written in decimal, as a template literal does.\<close>

fun show_nat :: "nat \<Rightarrow> string" where
  "show_nat n = (if n < 10 then [digit_char n] else show_nat (n div 10) @ [digit_char (n mod 10)])"

declare show_nat.simps [simp del]

definition show_int :: "int \<Rightarrow> string" where
  "show_int i = (if i < 0 then CHR ''-'' # show_nat (nat (- i)) else show_nat (nat i))"

definition number_of_digits :: "string \<Rightarrow> nat" where
  "number_of_digits s = foldl (\<lambda>n c. 10 * n + digit_value c) 0 s"

text \<open>\<open>encodeURIComponent\<close>: every unit outside the unreserved set as its percent-encoded UTF-8 bytes.\<close>

definition unreserved :: "char \<Rightarrow> bool" where
  "unreserved c =
     (let n = unit_of c in
      (48 \<le> n \<and> n \<le> 57) \<or> (65 \<le> n \<and> n \<le> 90) \<or> (97 \<le> n \<and> n \<le> 122) \<or> c \<in> set ''-_.!~*()'' \<or> n = 39)"

definition hex_upper :: "nat \<Rightarrow> char" where
  "hex_upper d = char_of (if d < 10 then 48 + d else 55 + d)"

definition percent :: "nat \<Rightarrow> string" where
  "percent n = [CHR ''%'', hex_upper (n div 16), hex_upper (n mod 16)]"

definition encode_unit :: "char \<Rightarrow> string" where
  "encode_unit c =
     (let n = unit_of c in
      if unreserved c then [c]
      else if n < 128 then percent n
      else percent (192 + n div 64) @ percent (128 + n mod 64))"

definition encodeURIComponent :: "string \<Rightarrow> string" where
  "encodeURIComponent s = concat (map encode_unit s)"

subsection \<open>Numbers\<close>

definition max_safe_integer :: int where
  "max_safe_integer = 9007199254740991"

definition isSafeInteger :: "int \<Rightarrow> bool" where
  "isSafeInteger n = (- max_safe_integer \<le> n \<and> n \<le> max_safe_integer)"

subsection \<open>Facts about trimming\<close>

definition trimmed :: "string \<Rightarrow> bool" where
  "trimmed s = (s = [] \<or> (\<not> is_space (hd s) \<and> \<not> is_space (last s)))"

lemma hd_dropWhile_neg: "dropWhile P xs \<noteq> [] \<Longrightarrow> \<not> P (hd (dropWhile P xs))"
  by (rule hd_dropWhile)

lemma dropWhile_id: "xs = [] \<or> \<not> P (hd xs) \<Longrightarrow> dropWhile P xs = xs"
  by (cases xs) auto

lemma trim_id: "trimmed s \<Longrightarrow> trim s = s"
  by (auto simp: trimmed_def trim_def dropWhile_id hd_rev)

lemma last_rev_dropWhile_rev:
  "dropWhile P (rev xs) \<noteq> [] \<Longrightarrow> xs \<noteq> [] \<and> hd (rev (dropWhile P (rev xs))) = hd xs"
proof (induction xs rule: rev_induct)
  case Nil
  then show ?case by simp
next
  case (snoc x xs)
  then show ?case by (cases xs) (auto split: if_splits)
qed

lemma trimmed_trim [simp]: "trimmed (trim s)"
proof -
  let ?l = "dropWhile is_space s"
  let ?t = "dropWhile is_space (rev ?l)"
  show ?thesis
  proof (cases "?t = []")
    case True
    then show ?thesis by (simp add: trim_def trimmed_def)
  next
    case False
    then have "hd (rev ?t) = hd ?l" and "?l \<noteq> []"
      using last_rev_dropWhile_rev [of is_space ?l] by auto
    moreover have "\<not> is_space (hd ?l)"
      using \<open>?l \<noteq> []\<close> by (rule hd_dropWhile_neg)
    moreover have "\<not> is_space (last (rev ?t))"
      using False hd_dropWhile_neg [of is_space "rev ?l"] by (simp add: last_rev)
    ultimately show ?thesis by (simp add: trim_def trimmed_def)
  qed
qed

lemma trim_trim [simp]: "trim (trim s) = trim s"
  by (rule trim_id) simp

lemma trim_eq_iff: "trim s = s \<longleftrightarrow> trimmed s"
  by (metis trim_id trimmed_trim)

lemma trim_Nil [simp]: "trim [] = []"
  by (simp add: trim_def)

lemma set_trim: "set (trim s) \<subseteq> set s"
  by (auto simp: trim_def dest!: set_dropWhileD)

lemma has_nul_trim: "\<not> has_nul s \<Longrightarrow> \<not> has_nul (trim s)"
  using set_trim by (auto simp: has_nul_def)

subsection \<open>Facts about decimal numbers\<close>

lemma unit_of_digit_char: "d < 10 \<Longrightarrow> unit_of (digit_char d) = 48 + d"
  by (simp add: unit_of_def digit_char_def)

lemma digit_value_digit_char [simp]: "d < 10 \<Longrightarrow> digit_value (digit_char d) = d"
  by (simp add: digit_value_def unit_of_digit_char)

lemma is_digit_digit_char [simp]: "d < 10 \<Longrightarrow> is_digit (digit_char d)"
  by (simp add: is_digit_def unit_of_digit_char)

lemma number_of_digits_snoc [simp]:
  "number_of_digits (s @ [c]) = 10 * number_of_digits s + digit_value c"
  by (simp add: number_of_digits_def)

lemma number_of_digits_Nil [simp]: "number_of_digits [] = 0"
  by (simp add: number_of_digits_def)

lemma show_nat_ne [simp]: "show_nat n \<noteq> []"
  by (subst show_nat.simps) simp

lemma number_of_show_nat [simp]: "number_of_digits (show_nat n) = n"
proof (induction n rule: show_nat.induct)
  case (1 n)
  show ?case
  proof (cases "n < 10")
    case True
    then show ?thesis
      using number_of_digits_snoc [of "[]" "digit_char n"] by (simp add: show_nat.simps [of n])
  next
    case False
    with "1.IH" have "number_of_digits (show_nat (n div 10)) = n div 10" by simp
    with False show ?thesis by (simp add: show_nat.simps [of n])
  qed
qed

lemma show_nat_digits: "\<forall>c \<in> set (show_nat n). is_digit c"
proof (induction n rule: show_nat.induct)
  case (1 n)
  then show ?case by (cases "n < 10") (auto simp: show_nat.simps [of n])
qed

lemma show_nat_inject [simp]: "show_nat m = show_nat n \<longleftrightarrow> m = n"
  by (metis number_of_show_nat)

lemma hd_show_nat: "0 < n \<Longrightarrow> unit_of (hd (show_nat n)) \<noteq> 48"
proof (induction n rule: show_nat.induct)
  case (1 n)
  show ?case
  proof (cases "n < 10")
    case True
    with "1.prems" show ?thesis by (simp add: show_nat.simps [of n] unit_of_digit_char)
  next
    case False
    then have "0 < n div 10" by simp
    with "1.IH" False show ?thesis by (simp add: show_nat.simps [of n])
  qed
qed

lemma isSafeInteger_iff: "isSafeInteger n \<longleftrightarrow> \<bar>n\<bar> \<le> max_safe_integer"
  by (auto simp: isSafeInteger_def)

lemma startsWith_iff: "startsWith s p \<longleftrightarrow> prefix p s"
  by (induction s p rule: startsWith.induct) auto

lemma includes_text_iff: "includes_text s p \<longleftrightarrow> sublist p s"
  by (induction s) (auto simp: startsWith_iff sublist_Cons_right simp del: startsWith.simps)

subsection \<open>Percent encoding is injective\<close>

lemma hex_upper_inject: "a < 16 \<Longrightarrow> b < 16 \<Longrightarrow> hex_upper a = hex_upper b \<longleftrightarrow> a = b"
proof -
  assume "a < 16" "b < 16"
  then have "hex_upper a = hex_upper b \<longleftrightarrow>
      (of_char (hex_upper a) :: nat) = of_char (hex_upper b)" by simp
  also have "\<dots> \<longleftrightarrow> a = b"
    using \<open>a < 16\<close> \<open>b < 16\<close> by (auto simp: hex_upper_def simp del: of_char_eq_iff split: if_splits)
  finally show ?thesis .
qed

lemma percent_append:
  "n < 256 \<Longrightarrow> m < 256 \<Longrightarrow> percent n @ s = percent m @ t \<longleftrightarrow> n = m \<and> s = t"
proof -
  assume nm: "n < 256" "m < 256"
  have "n = m" if "n div 16 = m div 16" "n mod 16 = m mod 16" using that by (metis div_mult_mod_eq)
  moreover have "n div 16 < 16" "m div 16 < 16" using nm by auto
  ultimately show ?thesis
    by (auto simp: percent_def hex_upper_inject)
qed

lemma unit_of_less: "unit_of c < 256"
  by (simp add: unit_of_def)

lemma unit_of_inject: "unit_of c = unit_of d \<longleftrightarrow> c = d"
  by (simp add: unit_of_def)

lemma unreserved_percent: "\<not> unreserved CHR ''%''"
  by (simp add: unreserved_def unit_of_def)

lemma encode_unit_append:
  assumes "encode_unit c @ s = encode_unit d @ t"
  shows "c = d \<and> s = t"
proof -
  have enc: "encode_unit x = (if unreserved x then [x] else if unit_of x < 128 then percent (unit_of x)
      else percent (192 + unit_of x div 64) @ percent (128 + unit_of x mod 64))" for x
    by (simp add: encode_unit_def Let_def)
  have hd: "hd (encode_unit x @ r) = (if unreserved x then x else CHR ''%'')" for x r
    by (simp add: enc percent_def)
  have "unreserved c = unreserved d" using hd [of c s] hd [of d t] assms unreserved_percent by (auto split: if_splits)
  show ?thesis
  proof (cases "unreserved c")
    case True
    with \<open>unreserved c = unreserved d\<close> assms show ?thesis by (simp add: enc)
  next
    case False
    have lt: "192 + unit_of x div 64 < 256" "128 + unit_of x mod 64 < 256" for x
      using unit_of_less [of x] by auto
    have "unit_of c = unit_of d \<and> s = t"
    proof (cases "unit_of c < 128"; cases "unit_of d < 128")
      assume "unit_of c < 128" "unit_of d < 128"
      then show ?thesis using assms False \<open>unreserved c = unreserved d\<close>
        by (simp add: enc percent_append)
    next
      assume a: "\<not> unit_of c < 128" "\<not> unit_of d < 128"
      then have "192 + unit_of c div 64 = 192 + unit_of d div 64 \<and> 128 + unit_of c mod 64 = 128 + unit_of d mod 64 \<and> s = t"
        using assms False \<open>unreserved c = unreserved d\<close> lt by (simp add: enc percent_append)
      then have "unit_of c div 64 = unit_of d div 64" "unit_of c mod 64 = unit_of d mod 64" "s = t" by auto
      then show ?thesis by (metis div_mult_mod_eq)
    next
      assume a: "unit_of c < 128" "\<not> unit_of d < 128"
      then have "unit_of c = 192 + unit_of d div 64"
        using assms False \<open>unreserved c = unreserved d\<close> lt by (simp add: enc percent_append)
      then show ?thesis using a by simp
    next
      assume a: "\<not> unit_of c < 128" "unit_of d < 128"
      then have "192 + unit_of c div 64 = unit_of d"
        using assms False \<open>unreserved c = unreserved d\<close> lt by (simp add: enc percent_append)
      then show ?thesis using a by simp
    qed
    then show ?thesis by (simp add: unit_of_inject)
  qed
qed

lemma encode_unit_nonempty: "encode_unit c \<noteq> []"
  by (simp add: encode_unit_def Let_def percent_def)

lemma encodeURIComponent_inject: "encodeURIComponent s = encodeURIComponent t \<longleftrightarrow> s = t"
proof
  assume "encodeURIComponent s = encodeURIComponent t"
  then show "s = t"
  proof (induction s arbitrary: t)
    case Nil
    then show ?case by (cases t) (auto simp: encodeURIComponent_def encode_unit_nonempty)
  next
    case (Cons c s)
    show ?case
    proof (cases t)
      case Nil
      with Cons.prems show ?thesis by (simp add: encodeURIComponent_def encode_unit_nonempty)
    next
      case (Cons d r)
      then have "encode_unit c @ encodeURIComponent s = encode_unit d @ encodeURIComponent r"
        using Cons.prems by (simp add: encodeURIComponent_def)
      from encode_unit_append [OF this] show ?thesis using Cons.IH Cons by simp
    qed
  qed
qed simp

lemma hex_upper_char: "d < 16 \<Longrightarrow> hex_upper d \<noteq> CHR ''/''"
proof
  assume "d < 16" "hex_upper d = CHR ''/''"
  then have "of_char (hex_upper d) = (47 :: nat)" by simp
  with \<open>d < 16\<close> show False by (simp add: hex_upper_def split: if_splits)
qed

lemma encode_no_slash: "CHR ''/'' \<notin> set (encodeURIComponent s)"
proof -
  have p: "CHR ''/'' \<notin> set (percent n)" if "n < 256" for n
  proof -
    have "n div 16 < 16" using that by auto
    then show ?thesis
      using hex_upper_char [of "n div 16"] hex_upper_char [of "n mod 16"] by (auto simp: percent_def)
  qed
  have "CHR ''/'' \<notin> set (encode_unit c)" for c
  proof -
    have lt: "192 + unit_of c div 64 < 256" "128 + unit_of c mod 64 < 256" using unit_of_less [of c] by auto
    have "CHR ''/'' \<notin> set (percent (192 + unit_of c div 64))"
      "CHR ''/'' \<notin> set (percent (128 + unit_of c mod 64))" by (rule p [OF lt(1)], rule p [OF lt(2)])
    moreover have "\<not> unreserved CHR ''/''" by (simp add: unreserved_def unit_of_def)
    ultimately show ?thesis
      using p [OF unit_of_less [of c]] by (auto simp: encode_unit_def Let_def split: if_splits)
  qed
  then show ?thesis by (simp add: encodeURIComponent_def)
qed

end
