(* ===== verification/Js_Date.thy ===== *)
theory Js_Date
  imports Js_Text
begin

text \<open>
  \<open>Date\<close> objects and their textual form. A \<open>Date\<close> is its time value, an integer number of
  milliseconds since 1970-01-01T00:00:00Z of magnitude at most 8.64e15. \<open>toISOString\<close> and
  \<open>Date.parse\<close> follow the date-time string format of ECMA-262. For a text outside that format the
  standard leaves the result of \<open>Date.parse\<close> to the implementation; the model answers \<open>None\<close>
  (not a number). A date-time without offset is read in the zone of the host, here UTC.

  The main fact is the round trip \<open>Date_parse_toISOString\<close>: every timestamp a component writes
  is read back as the instant it was written at.
\<close>

type_synonym time = int

definition max_time :: int where
  "max_time = 8640000000000000"

definition valid_time :: "time \<Rightarrow> bool" where
  "valid_time t = (- max_time \<le> t \<and> t \<le> max_time)"

subsection \<open>The proleptic Gregorian calendar\<close>

text \<open>Years are counted from the first of March, so that the leap day is the last day of a year.\<close>

definition century :: "int \<Rightarrow> int" where
  "century doe = min 3 (doe div 36524)"

definition day_of_century :: "int \<Rightarrow> int" where
  "day_of_century doe = doe - 36524 * century doe"

definition day_of_olympiad :: "int \<Rightarrow> int" where
  "day_of_olympiad doe = day_of_century doe mod 1461"

definition year_of_olympiad :: "int \<Rightarrow> int" where
  "year_of_olympiad doe = min 3 (day_of_olympiad doe div 365)"

definition year_of_era :: "int \<Rightarrow> int" where
  "year_of_era doe =
     100 * century doe + 4 * (day_of_century doe div 1461) + year_of_olympiad doe"

definition day_of_year :: "int \<Rightarrow> int" where
  "day_of_year doe = day_of_olympiad doe - 365 * year_of_olympiad doe"

definition march_month :: "int \<Rightarrow> int" where
  "march_month doy = (5 * doy + 2) div 153"

definition month_of :: "int \<Rightarrow> int" where
  "month_of mp = (if mp < 10 then mp + 3 else mp - 9)"

definition era_of :: "int \<Rightarrow> int" where
  "era_of day = (day + 719468) div 146097"

definition day_of_era :: "int \<Rightarrow> int" where
  "day_of_era day = (day + 719468) mod 146097"

definition civil_of_days :: "int \<Rightarrow> int \<times> int \<times> int" where
  "civil_of_days day =
     (let doe = day_of_era day;
          doy = day_of_year doe;
          mp = march_month doy
      in (year_of_era doe + era_of day * 400 + (if month_of mp \<le> 2 then 1 else 0),
          month_of mp,
          doy - (153 * mp + 2) div 5 + 1))"

definition days_of_civil :: "int \<Rightarrow> int \<Rightarrow> int \<Rightarrow> int" where
  "days_of_civil y m d =
     (let y' = (if m \<le> 2 then y - 1 else y);
          era = y' div 400;
          yoe = y' mod 400;
          mp = (if m > 2 then m - 3 else m + 9);
          doy = (153 * mp + 2) div 5 + d - 1;
          doe = yoe * 365 + yoe div 4 - yoe div 100 + doy
      in era * 146097 + doe - 719468)"

subsection \<open>Printing\<close>

fun pad :: "nat \<Rightarrow> nat \<Rightarrow> string" where
  "pad 0 n = []"
| "pad (Suc w) n = pad w (n div 10) @ [digit_char (n mod 10)]"

definition show_year :: "int \<Rightarrow> string" where
  "show_year y =
     (if 0 \<le> y \<and> y \<le> 9999 then pad 4 (nat y)
      else if y < 0 then CHR ''-'' # pad 6 (nat (- y))
      else CHR ''+'' # pad 6 (nat y))"

definition toISOString :: "time \<Rightarrow> string" where
  "toISOString t =
     (let day = t div 86400000;
          ms = t mod 86400000;
          (y, m, d) = civil_of_days day
      in show_year y @ CHR ''-'' # pad 2 (nat m) @ CHR ''-'' # pad 2 (nat d)
         @ CHR ''T'' # pad 2 (nat (ms div 3600000))
         @ CHR '':'' # pad 2 (nat (ms div 60000 mod 60))
         @ CHR '':'' # pad 2 (nat (ms div 1000 mod 60))
         @ CHR ''.'' # pad 3 (nat (ms mod 1000)) @ ''Z'')"

subsection \<open>Parsing\<close>

fun take_digits :: "nat \<Rightarrow> nat \<Rightarrow> string \<Rightarrow> (nat \<times> string) option" where
  "take_digits 0 acc s = Some (acc, s)"
| "take_digits (Suc w) acc [] = None"
| "take_digits (Suc w) acc (c # s) =
     (if is_digit c then take_digits w (10 * acc + digit_value c) s else None)"

definition expect :: "char \<Rightarrow> string \<Rightarrow> string option" where
  "expect c s = (case s of [] \<Rightarrow> None | a # r \<Rightarrow> if a = c then Some r else None)"

definition parse_year :: "string \<Rightarrow> (int \<times> string) option" where
  "parse_year s =
     (case s of
        [] \<Rightarrow> None
      | c # r \<Rightarrow>
          if c = CHR ''+'' then map_option (\<lambda>(n, q). (int n, q)) (take_digits 6 0 r)
          else if c = CHR ''-'' then
            (case take_digits 6 0 r of
               None \<Rightarrow> None
             | Some (n, q) \<Rightarrow> if n = 0 then None else Some (- int n, q))
          else map_option (\<lambda>(n, q). (int n, q)) (take_digits 4 0 s))"

text \<open>The offset \<open>Z\<close> or \<open>+HH:mm\<close>, in minutes; nothing means the host's zone.\<close>

definition parse_offset :: "string \<Rightarrow> int option" where
  "parse_offset s =
     (case s of
        [] \<Rightarrow> Some 0
      | c # r \<Rightarrow>
          if c = CHR ''Z'' \<and> r = [] then Some 0
          else if c = CHR ''+'' \<or> c = CHR ''-'' then
            Option.bind (take_digits 2 0 r) (\<lambda>(h, r1).
            Option.bind (expect CHR '':'' r1) (\<lambda>r2.
            Option.bind (take_digits 2 0 r2) (\<lambda>(mi, r3).
              if r3 = [] \<and> h \<le> 23 \<and> mi \<le> 59
              then Some ((if c = CHR ''-'' then - 1 else 1) * (60 * int h + int mi)) else None)))
          else None)"

text \<open>Seconds and milliseconds are optional: \<open>HH:mm\<close>, \<open>HH:mm:ss\<close>, \<open>HH:mm:ss.sss\<close>.\<close>

definition parse_seconds :: "string \<Rightarrow> (nat \<times> nat \<times> string) option" where
  "parse_seconds s =
     (case expect CHR '':'' s of
        None \<Rightarrow> Some (0, 0, s)
      | Some r \<Rightarrow>
          Option.bind (take_digits 2 0 r) (\<lambda>(se, r1).
            case expect CHR ''.'' r1 of
              None \<Rightarrow> Some (se, 0, r1)
            | Some r2 \<Rightarrow> map_option (\<lambda>(ms, r3). (se, ms, r3)) (take_digits 3 0 r2)))"

definition parse_time :: "string \<Rightarrow> int option" where
  "parse_time s =
     Option.bind (take_digits 2 0 s) (\<lambda>(h, r1).
     Option.bind (expect CHR '':'' r1) (\<lambda>r2.
     Option.bind (take_digits 2 0 r2) (\<lambda>(mi, r3).
     Option.bind (parse_seconds r3) (\<lambda>(se, ms, r4).
     Option.bind (parse_offset r4) (\<lambda>off.
       if (h \<le> 23 \<and> mi \<le> 59 \<and> se \<le> 59) \<or> (h = 24 \<and> mi = 0 \<and> se = 0 \<and> ms = 0)
       then Some (3600000 * int h + 60000 * int mi + 1000 * int se + int ms - 60000 * off)
       else None)))))"

definition instant_of :: "int \<Rightarrow> nat \<Rightarrow> nat \<Rightarrow> int \<Rightarrow> time option" where
  "instant_of y m d ms =
     (if 1 \<le> m \<and> m \<le> 12 \<and> 1 \<le> d \<and> d \<le> 31 then
        (let t = 86400000 * days_of_civil y (int m) (int d) + ms
         in if valid_time t then Some t else None)
      else None)"

definition Date_parse :: "string \<Rightarrow> time option" where
  "Date_parse s =
     Option.bind (parse_year s) (\<lambda>(y, r1).
       if r1 = [] then instant_of y 1 1 0 else
       Option.bind (expect CHR ''-'' r1) (\<lambda>r2.
       Option.bind (take_digits 2 0 r2) (\<lambda>(m, r3).
       if r3 = [] then instant_of y m 1 0 else
       Option.bind (expect CHR ''-'' r3) (\<lambda>r4.
       Option.bind (take_digits 2 0 r4) (\<lambda>(d, r5).
       if r5 = [] then instant_of y m d 0 else
       Option.bind (expect CHR ''T'' r5) (\<lambda>r6.
       Option.bind (parse_time r6) (\<lambda>ms. instant_of y m d ms)))))))"

subsection \<open>Digits round trip\<close>

lemma take_digits_pad:
  "n < 10 ^ w \<Longrightarrow> take_digits (w + v) acc (pad w n @ s) = take_digits v (acc * 10 ^ w + n) s"
proof (induction w arbitrary: n v s)
  case 0
  then show ?case by simp
next
  case (Suc w)
  have lt: "n div 10 < 10 ^ w"
    using Suc.prems by (simp add: less_mult_imp_div_less mult.commute)
  have "take_digits (Suc w + v) acc (pad (Suc w) n @ s)
      = take_digits (w + Suc v) acc (pad w (n div 10) @ (digit_char (n mod 10) # s))"
    by simp
  also have "\<dots> = take_digits (Suc v) (acc * 10 ^ w + n div 10) (digit_char (n mod 10) # s)"
    by (rule Suc.IH) (rule lt)
  also have "\<dots> = take_digits v (10 * (acc * 10 ^ w + n div 10) + n mod 10) s"
    by simp
  also have "10 * (acc * 10 ^ w + n div 10) + n mod 10 = acc * 10 ^ Suc w + n"
    by (simp add: algebra_simps)
  finally show ?case .
qed

lemma take_digits_pad0 [simp]: "n < 10 ^ w \<Longrightarrow> take_digits w 0 (pad w n @ s) = Some (n, s)"
  using take_digits_pad [of n w 0 0 s] by simp

lemma expect_Cons [simp]: "expect c (c # s) = Some s"
  by (simp add: expect_def)

lemma pad_digits: "c \<in> set (pad w n) \<Longrightarrow> is_digit c"
  by (induction w arbitrary: n) auto

lemma pad_nonempty: "0 < w \<Longrightarrow> pad w n \<noteq> []"
  by (cases w) auto

lemma hd_pad_append: "0 < w \<Longrightarrow> \<exists>c r. pad w n @ s = c # r \<and> is_digit c"
proof -
  assume "0 < w"
  then have "pad w n \<noteq> []" by (rule pad_nonempty)
  then obtain c r where cr: "pad w n = c # r" by (cases "pad w n") auto
  then have "is_digit c" using pad_digits [of c w n] by simp
  with cr show ?thesis by auto
qed

lemma digit_not_sign: "is_digit c \<Longrightarrow> c \<noteq> CHR ''+'' \<and> c \<noteq> CHR ''-''"
  by (auto simp: is_digit_def unit_of_def)

lemma parse_year_show_year:
  assumes "- 1000000 < y" "y < 1000000"
  shows "parse_year (show_year y @ s) = Some (y, s)"
proof (cases "0 \<le> y \<and> y \<le> 9999")
  case True
  then have sy: "show_year y @ s = pad 4 (nat y) @ s" by (simp add: show_year_def)
  obtain c r where cr: "pad 4 (nat y) @ s = c # r" and "is_digit c"
    using hd_pad_append [of 4 "nat y" s] by auto
  then have "c \<noteq> CHR ''+''" "c \<noteq> CHR ''-''" by (auto dest: digit_not_sign)
  moreover have "take_digits 4 0 (c # r) = Some (nat y, s)"
    using True take_digits_pad0 [of "nat y" 4 s] cr by (simp add: nat_less_iff)
  ultimately show ?thesis
    using True unfolding sy cr by (simp add: parse_year_def)
next
  case False
  then show ?thesis using assms by (auto simp: show_year_def parse_year_def)
qed

subsection \<open>Calendar round trip\<close>

lemma century_bounds:
  assumes "0 \<le> doe" "doe < 146097"
  shows "0 \<le> century doe" "century doe \<le> 3" "0 \<le> day_of_century doe" "day_of_century doe < 36525"
  using assms by (auto simp: century_def day_of_century_def min_def)

lemma olympiad_bounds:
  "0 \<le> day_of_olympiad doe" "day_of_olympiad doe < 1461"
  "0 \<le> year_of_olympiad doe" "year_of_olympiad doe \<le> 3"
proof -
  show b: "0 \<le> day_of_olympiad doe" "day_of_olympiad doe < 1461"
    by (auto simp: day_of_olympiad_def)
  from b show "0 \<le> year_of_olympiad doe" "year_of_olympiad doe \<le> 3"
    by (auto simp: year_of_olympiad_def pos_imp_zdiv_nonneg_iff)
qed

lemma day_of_year_bounds: "0 \<le> day_of_year doe" "day_of_year doe \<le> 365"
  using olympiad_bounds [of doe] by (auto simp: day_of_year_def year_of_olympiad_def min_def)

lemma march_month_bounds:
  assumes "0 \<le> doy" "doy \<le> 365"
  shows "0 \<le> march_month doy" "march_month doy \<le> 11"
    "(153 * march_month doy + 2) div 5 \<le> doy" "doy \<le> (153 * march_month doy + 2) div 5 + 30"
  using assms by (auto simp: march_month_def)

lemma era_bounds: "0 \<le> day_of_era day" "day_of_era day < 146097"
  by (auto simp: day_of_era_def)

lemma year_of_era_bounds:
  assumes "0 \<le> doe" "doe < 146097"
  shows "0 \<le> year_of_era doe" "year_of_era doe < 400"
    "year_of_era doe div 4 = 25 * century doe + day_of_century doe div 1461"
    "year_of_era doe div 100 = century doe"
proof -
  have q: "0 \<le> day_of_century doe div 1461" "day_of_century doe div 1461 \<le> 24"
    using century_bounds [OF assms] by auto
  have n: "0 \<le> century doe" "century doe \<le> 3" using century_bounds [OF assms] by auto
  note o = olympiad_bounds(3,4) [of doe]
  show "0 \<le> year_of_era doe" "year_of_era doe < 400"
    using q n o by (auto simp: year_of_era_def)
  have "year_of_era doe = 4 * (25 * century doe + day_of_century doe div 1461) + year_of_olympiad doe"
    by (simp add: year_of_era_def)
  then show "year_of_era doe div 4 = 25 * century doe + day_of_century doe div 1461"
    using o by simp
  have "year_of_era doe = 100 * century doe + (4 * (day_of_century doe div 1461) + year_of_olympiad doe)"
    by (simp add: year_of_era_def)
  moreover have "(4 * (day_of_century doe div 1461) + year_of_olympiad doe) div 100 = 0"
    using q o by simp
  ultimately show "year_of_era doe div 100 = century doe" by simp
qed

lemma civil_ranges:
  assumes "civil_of_days day = (y, m, d)"
  shows "1 \<le> m \<and> m \<le> 12 \<and> 1 \<le> d \<and> d \<le> 31"
  using assms march_month_bounds [OF day_of_year_bounds, of "day_of_era day"]
  by (auto simp: civil_of_days_def Let_def month_of_def)

lemma day_of_era_eq:
  assumes "0 \<le> doe" "doe < 146097"
  shows "year_of_era doe * 365 + year_of_era doe div 4 - year_of_era doe div 100 + day_of_year doe = doe"
proof -
  have "day_of_olympiad doe = day_of_century doe - 1461 * (day_of_century doe div 1461)"
    by (simp add: day_of_olympiad_def minus_mult_div_eq_mod)
  then show ?thesis
    unfolding year_of_era_bounds(3,4) [OF assms]
    by (simp add: year_of_era_def day_of_year_def day_of_century_def)
qed

lemma days_of_civil_of_days:
  assumes "civil_of_days day = (y, m, d)"
  shows "days_of_civil y m d = day"
proof -
  define doe where "doe = day_of_era day"
  define doy where "doy = day_of_year doe"
  define mp where "mp = march_month doy"
  have doe: "0 \<le> doe" "doe < 146097" using era_bounds by (auto simp: doe_def)
  have mp: "0 \<le> mp" "mp \<le> 11"
    using march_month_bounds [OF day_of_year_bounds] by (auto simp: mp_def doy_def)
  have eqs: "m = month_of mp" "d = doy - (153 * mp + 2) div 5 + 1"
    "y = year_of_era doe + era_of day * 400 + (if m \<le> 2 then 1 else 0)"
    using assms by (auto simp: civil_of_days_def Let_def mp_def doy_def doe_def)
  have y': "(if m \<le> 2 then y - 1 else y) = year_of_era doe + era_of day * 400"
    using eqs(3) by simp
  have mp': "(if m > 2 then m - 3 else m + 9) = mp"
    using eqs(1) mp by (auto simp: month_of_def)
  have "(year_of_era doe + era_of day * 400) div 400 = era_of day"
    "(year_of_era doe + era_of day * 400) mod 400 = year_of_era doe"
    using year_of_era_bounds(1,2) [OF doe] by simp_all
  moreover have "era_of day * 146097 + doe = day + 719468"
    by (simp add: era_of_def doe_def day_of_era_def)
  ultimately show ?thesis
    unfolding days_of_civil_def Let_def y' mp'
    using eqs(2) day_of_era_eq [OF doe] by (simp add: doy_def)
qed

lemma year_bound:
  assumes "civil_of_days day = (y, m, d)" "- 100000001 \<le> day" "day \<le> 100000001"
  shows "- 1000000 < y \<and> y < 1000000"
proof -
  have "y = year_of_era (day_of_era day) + era_of day * 400 + (if m \<le> 2 then 1 else 0)"
    using assms(1) by (auto simp: civil_of_days_def Let_def)
  moreover have "- 700 \<le> era_of day" "era_of day \<le> 700"
    using assms(2,3) by (auto simp: era_of_def)
  ultimately show ?thesis
    using year_of_era_bounds(1,2) [OF era_bounds, of day] by auto
qed

subsection \<open>Timestamps round trip\<close>

lemma parse_time_pad:
  assumes "h \<le> 23" "mi \<le> 59" "se \<le> 59" "ml < 1000"
  shows "parse_time (pad 2 h @ CHR '':'' # pad 2 mi @ CHR '':'' # pad 2 se @ CHR ''.'' # pad 3 ml @ ''Z'')
    = Some (3600000 * int h + 60000 * int mi + 1000 * int se + int ml)"
proof -
  have b: "h < 10 ^ 2" "mi < 10 ^ 2" "se < 10 ^ 2" "ml < 10 ^ 3" using assms by simp_all
  have off: "parse_offset ''Z'' = Some 0" by (simp add: parse_offset_def)
  show ?thesis
    using assms by (simp add: parse_time_def parse_seconds_def off
        take_digits_pad0 [OF b(1)] take_digits_pad0 [OF b(2)] take_digits_pad0 [OF b(3)]
        take_digits_pad0 [OF b(4)])
qed

lemma parse_time_clock:
  assumes "0 \<le> ms" "ms < 86400000"
  shows "parse_time (pad 2 (nat (ms div 3600000))
         @ CHR '':'' # pad 2 (nat (ms div 60000 mod 60))
         @ CHR '':'' # pad 2 (nat (ms div 1000 mod 60))
         @ CHR ''.'' # pad 3 (nat (ms mod 1000)) @ ''Z'') = Some ms"
proof -
  have "ms div 3600000 \<le> 23" using assms(2) by simp
  then have le: "nat (ms div 3600000) \<le> 23" "nat (ms div 60000 mod 60) \<le> 59"
    "nat (ms div 1000 mod 60) \<le> 59" "nat (ms mod 1000) < 1000"
    by (simp_all add: nat_le_iff nat_less_iff)
  have nn: "int (nat (ms div 3600000)) = ms div 3600000"
    "int (nat (ms div 60000 mod 60)) = ms div 60000 mod 60"
    "int (nat (ms div 1000 mod 60)) = ms div 1000 mod 60" "int (nat (ms mod 1000)) = ms mod 1000"
    using assms(1) by (auto intro!: nat_0_le simp: pos_imp_zdiv_nonneg_iff)
  have quot: "ms div 60000 = ms div 1000 div 60" "ms div 3600000 = ms div 1000 div 60 div 60"
    by (simp_all add: zdiv_zmult2_eq [symmetric])
  have rem: "1000 * (ms div 1000) + ms mod 1000 = ms"
    "60 * (ms div 1000 div 60) + ms div 1000 mod 60 = ms div 1000"
    "60 * (ms div 1000 div 60 div 60) + ms div 1000 div 60 mod 60 = ms div 1000 div 60"
    by simp_all
  have lin: "3600000 * c + 60000 * u + 1000 * s + r = ms"
    if "1000 * a + r = ms" "60 * b + s = a" "60 * c + u = b" for a b c r s u :: int
    using that by simp
  have "3600000 * (ms div 3600000) + 60000 * (ms div 60000 mod 60)
      + 1000 * (ms div 1000 mod 60) + ms mod 1000 = ms"
    unfolding quot by (rule lin [OF rem])
  then have val: "3600000 * int (nat (ms div 3600000)) + 60000 * int (nat (ms div 60000 mod 60))
      + 1000 * int (nat (ms div 1000 mod 60)) + int (nat (ms mod 1000)) = ms"
    by (simp only: nn)
  show ?thesis
    unfolding parse_time_pad [OF le] val ..
qed

theorem Date_parse_toISOString [simp]:
  assumes "valid_time t"
  shows "Date_parse (toISOString t) = Some t"
proof -
  define day where "day = t div 86400000"
  define ms where "ms = t mod 86400000"
  obtain y m d where civ: "civil_of_days day = (y, m, d)"
    by (cases "civil_of_days day") auto
  have day: "- 100000001 \<le> day" "day \<le> 100000001"
    using assms by (auto simp: valid_time_def max_time_def day_def)
  have r: "1 \<le> m" "m \<le> 12" "1 \<le> d" "d \<le> 31" using civil_ranges [OF civ] by auto
  have y: "- 1000000 < y" "y < 1000000" using year_bound [OF civ day] by auto
  have b: "nat m < 10 ^ 2" "nat d < 10 ^ 2" using r by auto
  have t: "86400000 * day + ms = t" by (simp add: day_def ms_def)
  have dc: "days_of_civil y (int (nat m)) (int (nat d)) = day"
    using days_of_civil_of_days [OF civ] r by simp
  have inst: "instant_of y (nat m) (nat d) ms = Some t"
    unfolding instant_of_def dc using r assms by (simp add: Let_def t nat_le_iff le_nat_iff)
  have pt: "parse_time (pad 2 (nat (ms div 3600000))
         @ CHR '':'' # pad 2 (nat (ms div 60000 mod 60))
         @ CHR '':'' # pad 2 (nat (ms div 1000 mod 60))
         @ CHR ''.'' # pad 3 (nat (ms mod 1000)) @ ''Z'') = Some ms"
    by (rule parse_time_clock) (auto simp: ms_def)
  show ?thesis
    unfolding toISOString_def Let_def
    by (simp add: day_def [symmetric] ms_def [symmetric] civ Date_parse_def
        parse_year_show_year [OF y] take_digits_pad0 [OF b(1)] take_digits_pad0 [OF b(2)]
        pt inst)
qed

lemma Date_parse_valid: "Date_parse s = Some t \<Longrightarrow> valid_time t"
  by (auto simp: Date_parse_def instant_of_def Let_def bind_eq_Some_conv
      split: if_splits prod.splits)

lemma toISOString_inject:
  "valid_time s \<Longrightarrow> valid_time t \<Longrightarrow> toISOString s = toISOString t \<longleftrightarrow> s = t"
  by (metis Date_parse_toISOString option.inject)

end
