(* ===== verification/Validation.thy ===== *)
theory Validation
  imports Js_Date
begin

text \<open>
  The shared validators (\<open>src/src/domain/validation.ts\<close>) and the references between records of
  one Task (\<open>src/src/task/taskRecordReference.ts\<close>). Several files of the source carry private
  copies of \<open>requireText\<close>, \<open>requireIdentity\<close> and \<open>requireCommit\<close> with the same body; the theories
  of those components use the definitions of this one.

  A validator returns the normalised value. The lemmas give, for each, exactly when it succeeds
  and what it returns, and that a normalised value passes again unchanged; the reference format
  round trips.
\<close>

datatype field_error = Invalid | Required | Not_timestamp | Not_positive | Not_unique | Below_minimum

subsection \<open>Field validators\<close>

definition requireText :: "string \<Rightarrow> field_error + string" where
  "requireText value =
     (if has_nul value then Inl Invalid
      else if trim value = [] then Inl Required
      else Inr (trim value))"

definition reserved_identity :: "string \<Rightarrow> bool" where
  "reserved_identity s =
     (s \<in> set [''.'', ''..'', ''__proto__'', ''prototype'', ''constructor''])"

definition has_separator :: "string \<Rightarrow> bool" where
  "has_separator s = (\<exists>c \<in> set s. c = CHR ''/'' \<or> c = CHR 0x5C \<or> c = CHR 0x00)"

definition requireIdentity :: "string \<Rightarrow> field_error + string" where
  "requireIdentity value =
     bind_result (requireText value) (\<lambda>normalized.
       if reserved_identity normalized \<or> has_separator normalized then Inl Invalid
       else Inr normalized)"

definition optionalText :: "string option \<Rightarrow> field_error + string option" where
  "optionalText value =
     (case value of None \<Rightarrow> Inr None | Some v \<Rightarrow> bind_result (requireText v) (\<lambda>t. Inr (Some t)))"

definition requireTimestamp :: "string \<Rightarrow> field_error + string" where
  "requireTimestamp value =
     (case Date_parse value of None \<Rightarrow> Inl Not_timestamp | Some _ \<Rightarrow> Inr value)"

definition requirePositiveInteger :: "int \<Rightarrow> field_error + int" where
  "requirePositiveInteger value =
     (if \<not> isSafeInteger value \<or> value < 1 then Inl Not_positive else Inr value)"

definition normalizedUniqueText :: "string list \<Rightarrow> field_error + string list" where
  "normalizedUniqueText values =
     bind_result (map_result requireText values) (\<lambda>normalized.
       if \<not> distinct normalized then Inl Not_unique else Inr normalized)"

definition normalizedUniqueIdentities :: "string list \<Rightarrow> field_error + string list" where
  "normalizedUniqueIdentities values =
     bind_result (map_result requireIdentity values) (\<lambda>normalized.
       if \<not> distinct normalized then Inl Not_unique else Inr normalized)"

text \<open>A commit id: 40 or 64 lower-case hexadecimal digits, after trimming and lower-casing.\<close>

definition all_hex :: "string \<Rightarrow> bool" where
  "all_hex s = list_all is_hex s"

definition requireCommit :: "string \<Rightarrow> field_error + string" where
  "requireCommit value =
     bind_result (requireText value) (\<lambda>text.
       let normalized = toLowerCase text in
       if all_hex normalized \<and> (length normalized = 40 \<or> length normalized = 64)
       then Inr normalized else Inl Invalid)"

definition is_digest :: "string \<Rightarrow> bool" where
  "is_digest s = (all_hex s \<and> length s = 64)"

text \<open>\<open>isConcreteVersion\<close>: \<open>X.Y.Z\<close> with an optional pre-release or build suffix.\<close>

definition is_suffix_char :: "char \<Rightarrow> bool" where
  "is_suffix_char c =
     (let n = unit_of c in
      is_digit c \<or> (65 \<le> n \<and> n \<le> 90) \<or> (97 \<le> n \<and> n \<le> 122) \<or> c = CHR ''.'' \<or> c = CHR ''-'')"

definition take_number :: "string \<Rightarrow> string option" where
  "take_number s =
     (if takeWhile is_digit s = [] then None else Some (dropWhile is_digit s))"

definition version_suffix :: "string \<Rightarrow> bool" where
  "version_suffix s =
     (case s of
        [] \<Rightarrow> True
      | c # r \<Rightarrow> (c = CHR ''-'' \<or> c = CHR ''+'') \<and> r \<noteq> [] \<and> list_all is_suffix_char r)"

definition isConcreteVersion :: "string \<Rightarrow> bool" where
  "isConcreteVersion value =
     (case Option.bind (take_number (trim value)) (expect CHR ''.'') of
        None \<Rightarrow> False
      | Some r1 \<Rightarrow>
          (case Option.bind (take_number r1) (expect CHR ''.'') of
             None \<Rightarrow> False
           | Some r2 \<Rightarrow>
               (case take_number r2 of None \<Rightarrow> False | Some r3 \<Rightarrow> version_suffix r3)))"

subsection \<open>References between records of one Task\<close>

datatype task_record_kind =
    K_workItem | K_contextSnapshot | K_run | K_reviewRound | K_changeSet | K_integrationAttempt | K_durableJob
  | K_message | K_inputRequest | K_decision | K_milestone | K_event | K_capabilityGrant | K_releaseWorkflow
  | K_taskWake | K_publicationReference

fun task_record_id_prefix :: "task_record_kind \<Rightarrow> string" where
  "task_record_id_prefix K_workItem = ''work-item''"
| "task_record_id_prefix K_contextSnapshot = ''context-snapshot''"
| "task_record_id_prefix K_run = ''run''"
| "task_record_id_prefix K_reviewRound = ''review-round''"
| "task_record_id_prefix K_changeSet = ''change-set''"
| "task_record_id_prefix K_integrationAttempt = ''integration''"
| "task_record_id_prefix K_durableJob = ''job''"
| "task_record_id_prefix K_message = ''message''"
| "task_record_id_prefix K_inputRequest = ''input''"
| "task_record_id_prefix K_decision = ''decision''"
| "task_record_id_prefix K_milestone = ''milestone''"
| "task_record_id_prefix K_event = ''event''"
| "task_record_id_prefix K_capabilityGrant = ''capability-grant''"
| "task_record_id_prefix K_releaseWorkflow = ''release-workflow''"
| "task_record_id_prefix K_taskWake = ''wake''"
| "task_record_id_prefix K_publicationReference = ''publication''"

record task_record_reference =
  ref_taskId :: string
  ref_localId :: string

datatype reference_error =
    Ref_task field_error | Ref_local field_error | Ref_local_invalid
  | Ref_value field_error | Ref_not_normalized | Ref_no_context | Ref_shape

text \<open>The regular expression \<open>^prefix-([1-9]\d*)$\<close> and the number it captures.\<close>

definition record_number :: "string \<Rightarrow> string \<Rightarrow> nat option" where
  "record_number p s =
     (if startsWith s (p @ ''-'') then
        (let ds = drop (length p + 1) s in
         if ds \<noteq> [] \<and> list_all is_digit ds \<and> unit_of (hd ds) \<noteq> 48
         then Some (number_of_digits ds) else None)
      else None)"

definition local_number :: "task_record_kind \<Rightarrow> string \<Rightarrow> nat option" where
  "local_number kind s =
     (if kind = K_run then
        (case record_number ''run'' s of None \<Rightarrow> record_number ''turn'' s | Some n \<Rightarrow> Some n)
      else record_number (task_record_id_prefix kind) s)"

definition validateTaskRecordReference ::
  "task_record_reference \<Rightarrow> task_record_kind \<Rightarrow> reference_error + task_record_reference" where
  "validateTaskRecordReference value kind =
     bind_result (map_error Ref_task (requireIdentity (ref_taskId value))) (\<lambda>taskId.
     bind_result (map_error Ref_local (requireIdentity (ref_localId value))) (\<lambda>localId.
       case local_number kind localId of
         None \<Rightarrow> Inl Ref_local_invalid
       | Some n \<Rightarrow>
           if isSafeInteger (int n) then Inr \<lparr>ref_taskId = taskId, ref_localId = localId\<rparr>
           else Inl Ref_local_invalid))"

abbreviation task_reference :: "string \<Rightarrow> string \<Rightarrow> task_record_reference" where
  "task_reference t l \<equiv> \<lparr>ref_taskId = t, ref_localId = l\<rparr>"

definition formatTaskRecordReference ::
  "string \<Rightarrow> string \<Rightarrow> task_record_kind \<Rightarrow> reference_error + string" where
  "formatTaskRecordReference taskId localId kind =
     bind_result (validateTaskRecordReference (task_reference taskId localId) kind) (\<lambda>reference.
       Inr (ref_taskId reference @ ''/'' @ ref_localId reference))"

definition formatRunReceiptId :: "string \<Rightarrow> string \<Rightarrow> reference_error + string" where
  "formatRunReceiptId taskId runId =
     bind_result (formatTaskRecordReference taskId runId K_run) (\<lambda>r. Inr (''turn:'' @ r))"

definition formatInputRequestReceiptId :: "string \<Rightarrow> string \<Rightarrow> reference_error + string" where
  "formatInputRequestReceiptId taskId requestId =
     bind_result (formatTaskRecordReference taskId requestId K_inputRequest)
       (\<lambda>r. Inr (''input-request:'' @ r))"

definition normalizedReference :: "string \<Rightarrow> reference_error + string" where
  "normalizedReference value =
     (if has_nul value then Inl (Ref_value Invalid)
      else if trim value = [] then Inl (Ref_value Required)
      else if trim value \<noteq> value then Inl Ref_not_normalized
      else Inr (trim value))"

fun indexOf :: "'a \<Rightarrow> 'a list \<Rightarrow> nat option" where
  "indexOf c [] = None"
| "indexOf c (a # s) = (if a = c then Some 0 else map_option Suc (indexOf c s))"

definition resolveTaskRecordReference ::
  "string \<Rightarrow> task_record_kind \<Rightarrow> string option \<Rightarrow> reference_error + task_record_reference" where
  "resolveTaskRecordReference value kind contextTaskId =
     bind_result (normalizedReference value) (\<lambda>reference.
       case indexOf CHR ''/'' reference of
         None \<Rightarrow>
           (case contextTaskId of
              None \<Rightarrow> Inl Ref_no_context
            | Some t \<Rightarrow> validateTaskRecordReference (task_reference t reference) kind)
       | Some firstSeparator \<Rightarrow>
           if firstSeparator = 0 \<or> firstSeparator = length reference - 1
              \<or> indexOf CHR ''/'' (drop (firstSeparator + 1) reference) \<noteq> None
           then Inl Ref_shape
           else validateTaskRecordReference
                  (task_reference (take firstSeparator reference)
                     (drop (firstSeparator + 1) reference)) kind)"

subsection \<open>When a validator succeeds\<close>

lemma requireText_Inr [validity]:
  "requireText s = Inr t \<longleftrightarrow> \<not> has_nul s \<and> trim s \<noteq> [] \<and> t = trim s"
  by (auto simp: requireText_def)

lemma requireText_idem: "requireText s = Inr t \<Longrightarrow> requireText t = Inr t"
  by (auto simp: requireText_Inr has_nul_trim)

lemma requireIdentity_Inr [validity]:
  "requireIdentity s = Inr t \<longleftrightarrow>
     requireText s = Inr t \<and> \<not> reserved_identity t \<and> \<not> has_separator t"
  by (auto simp: requireIdentity_def bind_result_Inr)

lemma requireIdentity_idem: "requireIdentity s = Inr t \<Longrightarrow> requireIdentity t = Inr t"
  by (auto simp: requireIdentity_Inr dest: requireText_idem)

lemma requireTimestamp_Inr [validity]:
  "requireTimestamp s = Inr t \<longleftrightarrow> t = s \<and> Date_parse s \<noteq> None"
  by (auto simp: requireTimestamp_def split: option.splits)

lemma requireTimestamp_now [simp]: "valid_time t \<Longrightarrow> requireTimestamp (toISOString t) = Inr (toISOString t)"
  by (simp add: requireTimestamp_Inr)

lemma requirePositiveInteger_Inr [validity]:
  "requirePositiveInteger n = Inr m \<longleftrightarrow> m = n \<and> 1 \<le> n \<and> n \<le> max_safe_integer"
  by (auto simp: requirePositiveInteger_def isSafeInteger_def max_safe_integer_def)

lemma requireCommit_Inr [validity]:
  "requireCommit s = Inr t \<longleftrightarrow>
     (\<exists>x. requireText s = Inr x \<and> t = toLowerCase x \<and> all_hex t \<and> (length t = 40 \<or> length t = 64))"
  by (auto simp: requireCommit_def bind_result_Inr Let_def)

lemma is_hex_not_space: "is_hex c \<Longrightarrow> \<not> is_space c"
  by (auto simp: is_hex_def is_digit_def is_space_def)

lemma lower_char_hex: "is_hex c \<Longrightarrow> lower_char c = c"
  by (auto simp: is_hex_def is_digit_def lower_char_def Let_def)

lemma toLowerCase_hex: "all_hex s \<Longrightarrow> toLowerCase s = s"
  by (induction s) (auto simp: all_hex_def toLowerCase_def lower_char_hex)

lemma trimmed_hex: "all_hex s \<Longrightarrow> trimmed s"
  using hd_in_set [of s] last_in_set [of s]
  by (auto simp: all_hex_def trimmed_def list_all_iff dest: is_hex_not_space)

lemma nul_free_hex: "all_hex s \<Longrightarrow> \<not> has_nul s"
  by (auto simp: all_hex_def has_nul_def list_all_iff is_hex_def is_digit_def unit_of_def dest!: bspec)

lemma requireCommit_hex:
  "all_hex s \<Longrightarrow> length s = 40 \<or> length s = 64 \<Longrightarrow> requireCommit s = Inr s"
  by (auto simp: requireCommit_Inr requireText_Inr nul_free_hex trim_id trimmed_hex toLowerCase_hex)

lemma requireCommit_idem: "requireCommit s = Inr t \<Longrightarrow> requireCommit t = Inr t"
  by (auto simp: requireCommit_Inr intro: requireCommit_hex [unfolded requireCommit_Inr])

lemma map_result_idem:
  "(\<And>x y. f x = Inr y \<Longrightarrow> f y = Inr y) \<Longrightarrow> map_result f xs = Inr ys \<Longrightarrow> map_result f ys = Inr ys"
  by (auto simp: map_result_Inr list_all2_conv_all_nth)

lemma normalizedUniqueText_Inr [validity]:
  "normalizedUniqueText vs = Inr ws \<longleftrightarrow> map_result requireText vs = Inr ws \<and> distinct ws"
  by (auto simp: normalizedUniqueText_def bind_result_Inr)

lemma normalizedUniqueIdentities_Inr [validity]:
  "normalizedUniqueIdentities vs = Inr ws \<longleftrightarrow> map_result requireIdentity vs = Inr ws \<and> distinct ws"
  by (auto simp: normalizedUniqueIdentities_def bind_result_Inr)

lemma normalizedUniqueText_idem: "normalizedUniqueText vs = Inr ws \<Longrightarrow> normalizedUniqueText ws = Inr ws"
  unfolding normalizedUniqueText_Inr
  using map_result_idem [of requireText vs ws] requireText_idem by blast

lemma normalizedUniqueIdentities_idem:
  "normalizedUniqueIdentities vs = Inr ws \<Longrightarrow> normalizedUniqueIdentities ws = Inr ws"
  unfolding normalizedUniqueIdentities_Inr
  using map_result_idem [of requireIdentity vs ws] requireIdentity_idem by blast

lemmas normal_forms =
  requireText_idem requireIdentity_idem requireCommit_idem normalizedUniqueText_idem
  normalizedUniqueIdentities_idem

subsection \<open>Task record references round trip\<close>

lemma validateTaskRecordReference_Inr [validity]:
  "validateTaskRecordReference v k = Inr r \<longleftrightarrow>
     requireIdentity (ref_taskId v) = Inr (ref_taskId r) \<and>
     requireIdentity (ref_localId v) = Inr (ref_localId r) \<and>
     (\<exists>n. local_number k (ref_localId r) = Some n \<and> isSafeInteger (int n))"
proof (cases r)
  case (fields t l)
  show ?thesis
  proof (cases "requireIdentity (ref_taskId v)"; cases "requireIdentity (ref_localId v)")
    fix t' l'
    assume "requireIdentity (ref_taskId v) = Inr t'" "requireIdentity (ref_localId v) = Inr l'"
    then show ?thesis
      by (cases "local_number k l'") (auto simp: validateTaskRecordReference_def fields)
  qed (auto simp: validateTaskRecordReference_def)
qed

lemma validateTaskRecordReference_idem:
  "validateTaskRecordReference v k = Inr r \<Longrightarrow> validateTaskRecordReference r k = Inr r"
  using requireIdentity_idem by (simp add: validateTaskRecordReference_Inr) blast

lemma requireIdentity_normal:
  assumes "requireIdentity s = Inr t"
  shows "t \<noteq> []" "trimmed t" "\<not> has_nul t" "CHR ''/'' \<notin> set t"
  using assms by (auto simp: requireIdentity_Inr requireText_Inr has_nul_trim has_separator_def)

lemma indexOf_None: "indexOf c s = None \<longleftrightarrow> c \<notin> set s"
  by (induction s) auto

lemma indexOf_append: "c \<notin> set s \<Longrightarrow> indexOf c (s @ c # r) = Some (length s)"
  by (induction s) auto

lemma trimmed_append:
  "trimmed s \<Longrightarrow> trimmed r \<Longrightarrow> s \<noteq> [] \<Longrightarrow> r \<noteq> [] \<Longrightarrow> trimmed (s @ m @ r)"
  by (auto simp: trimmed_def)

lemma resolve_format:
  assumes "formatTaskRecordReference t l k = Inr s"
  shows "\<exists>r. validateTaskRecordReference (task_reference t l) k = Inr r
             \<and> resolveTaskRecordReference s k ctx = Inr r"
proof -
  from assms obtain r where v: "validateTaskRecordReference (task_reference t l) k = Inr r"
    and s: "s = ref_taskId r @ ''/'' @ ref_localId r"
    by (auto simp: formatTaskRecordReference_def bind_result_Inr)
  from v have rt: "requireIdentity t = Inr (ref_taskId r)"
    and rl: "requireIdentity l = Inr (ref_localId r)"
    by (auto simp: validateTaskRecordReference_Inr)
  note nt = requireIdentity_normal [OF rt] and nl = requireIdentity_normal [OF rl]
  have "trimmed s" unfolding s by (rule trimmed_append) (use nt nl in auto)
  moreover have "\<not> has_nul s" using nt nl by (simp add: s has_nul_def)
  moreover have "s \<noteq> []" by (simp add: s)
  ultimately have "normalizedReference s = Inr s"
    by (simp add: normalizedReference_def trim_id)
  moreover have "indexOf CHR ''/'' s = Some (length (ref_taskId r))"
    using nt by (simp add: s indexOf_append)
  moreover have "drop (length (ref_taskId r) + 1) s = ref_localId r"
    "take (length (ref_taskId r)) s = ref_taskId r" by (simp_all add: s)
  moreover have "length (ref_taskId r) \<noteq> 0" "length (ref_taskId r) \<noteq> length s - 1"
    using nt nl by (simp_all add: s)
  moreover have "validateTaskRecordReference (task_reference (ref_taskId r) (ref_localId r)) k = Inr r"
    using validateTaskRecordReference_idem [OF v] by (cases r) simp
  moreover have "indexOf CHR ''/'' (ref_localId r) = None" using nl by (simp add: indexOf_None)
  ultimately have "resolveTaskRecordReference s k ctx = Inr r"
    by (simp add: resolveTaskRecordReference_def)
  with v show ?thesis by blast
qed

text \<open>The local ids the store allocates, \<open>prefix-n\<close>, are the valid ones.\<close>

lemma record_number_prefix:
  "0 < n \<Longrightarrow> record_number p (p @ ''-'' @ show_nat n) = Some n"
  using show_nat_digits [of n] hd_show_nat [of n]
  by (auto simp: record_number_def startsWith_iff Let_def list_all_iff)

lemma local_number_prefix:
  "0 < n \<Longrightarrow> local_number k (task_record_id_prefix k @ ''-'' @ show_nat n) = Some n"
  using record_number_prefix [of n "task_record_id_prefix k"]
  by (cases "k = K_run") (simp_all add: local_number_def)

end
