(* ===== verification/Work_Mailbox.thy ===== *)
theory Work_Mailbox
  imports Validation
begin

text \<open>
  The durable wake-up mailbox (\<open>src/src/coordination/workMailbox.ts\<close>).

  A mailbox belongs to a target and holds at most one batch being processed, at most one pending
  batch, and the last 256 consumed dedupe keys. Every operation validates its input and its
  result. Records are typed, so the checks for unknown or missing fields (\<open>record\<close>, \<open>exact\<close>) have
  no counterpart; sequence numbers are integers, as \<open>Number.isInteger\<close> requires.

  \<open>mailbox_inv\<close> says that a mailbox is a fixed point of its validator (so every text is
  normalised) and that the batch in process precedes the pending one. Every operation keeps it,
  so a release never fails, a signal is recorded exactly once, and claiming and releasing a batch
  restores the mailbox.
\<close>

subsection \<open>Data\<close>

datatype mailbox_target =
    Task_target string
  | Role_target string string
  | Role_runtime_target string string
  | Global_role_runtime_target string
  | Operator_target

datatype root_entity = E_task | E_session | E_global_job_run

datatype scoped_entity = E_run | E_work_item | E_input | E_message | E_event

datatype entity_ref =
    Root_ref root_entity string
  | Scoped_ref scoped_entity string string

record work_signal =
  sig_reason :: string
  sig_refs :: "entity_ref list"
  sig_occurredAt :: string
  sig_source :: "string option"
  sig_dedupeKey :: "string option"
  sig_factRevision :: "int option"

record pending_batch =
  fromSequence :: int
  toSequence :: int
  reasons :: "string list"
  refs :: "entity_ref list"
  requestCount :: int
  firstQueuedAt :: string
  lastQueuedAt :: string
  sources :: "string list"
  dedupeKeys :: "string list"
  highestFactRevision :: "int option"

record processing_batch =
  batchId :: string
  proc_batch :: pending_batch
  owner :: string
  startedAt :: string
  executionRef :: "entity_ref option"

record work_mailbox =
  mailbox_target :: mailbox_target
  nextSequence :: int
  processing :: "processing_batch option"
  pending :: "pending_batch option"
  recentDedupeKeys :: "string list"

record claim_options =
  claim_batchId :: string
  claim_owner :: string
  claim_startedAt :: string

datatype mailbox_field =
    F_taskId | F_roleName | F_entityId | F_reason | F_occurredAt | F_source | F_dedupeKey
  | F_factRevision | F_nextSequence | F_fromSequence | F_toSequence | F_requestCount | F_reasons
  | F_firstQueuedAt | F_lastQueuedAt | F_sources | F_dedupeKeys | F_highestFactRevision
  | F_batchId | F_owner | F_startedAt | F_recentDedupeKeys

datatype mailbox_error =
    Mailbox_field mailbox_field field_error
  | Mailbox_ref reference_error
  | Count_exceeds_envelope | Reasons_empty | Refs_duplicate | Recent_keys_exceed_limit
  | Sequence_not_lower | Key_already_consumed | Already_processing | No_pending_work
  | No_processing_batch | Batch_id_mismatch | Consumed_prefix_mismatch

definition recent_dedupe_key_limit :: nat where
  "recent_dedupe_key_limit = 256"

subsection \<open>Field parsers\<close>

definition mailbox_text :: "mailbox_field \<Rightarrow> string \<Rightarrow> mailbox_error + string" where
  "mailbox_text label value = map_error (Mailbox_field label) (requireText value)"

definition mailbox_timestamp :: "mailbox_field \<Rightarrow> string \<Rightarrow> mailbox_error + string" where
  "mailbox_timestamp label value =
     bind_result (mailbox_text label value) (\<lambda>timestamp.
       if Date_parse timestamp = None then Inl (Mailbox_field label Not_timestamp)
       else Inr timestamp)"

definition requireInteger :: "mailbox_field \<Rightarrow> int \<Rightarrow> int \<Rightarrow> mailbox_error + int" where
  "requireInteger label minimum value =
     (if value < minimum then Inl (Mailbox_field label Below_minimum) else Inr value)"

definition requireStringArray :: "mailbox_field \<Rightarrow> string list \<Rightarrow> mailbox_error + string list" where
  "requireStringArray label value =
     bind_result (map_result (mailbox_text label) value) (\<lambda>result.
       if \<not> distinct result then Inl (Mailbox_field label Not_unique) else Inr result)"

fun appendUnique_from :: "('a \<Rightarrow> 'k) \<Rightarrow> 'k list \<Rightarrow> 'a list \<Rightarrow> 'a list" where
  "appendUnique_from keyOf keys [] = []"
| "appendUnique_from keyOf keys (v # vs) =
     (if keyOf v \<in> set keys then appendUnique_from keyOf keys vs
      else v # appendUnique_from keyOf (keyOf v # keys) vs)"

definition appendUnique :: "('a \<Rightarrow> 'k) \<Rightarrow> 'a list \<Rightarrow> 'a list \<Rightarrow> 'a list" where
  "appendUnique keyOf existing incoming =
     existing @ appendUnique_from keyOf (map keyOf existing) incoming"

subsection \<open>Targets and entity references\<close>

fun copyTarget :: "mailbox_target \<Rightarrow> mailbox_error + mailbox_target" where
  "copyTarget Operator_target = Inr Operator_target"
| "copyTarget (Task_target t) = bind_result (mailbox_text F_taskId t) (\<lambda>t. Inr (Task_target t))"
| "copyTarget (Role_target t r) =
     bind_result (mailbox_text F_taskId t) (\<lambda>t.
     bind_result (mailbox_text F_roleName r) (\<lambda>r. Inr (Role_target t r)))"
| "copyTarget (Role_runtime_target t r) =
     bind_result (mailbox_text F_taskId t) (\<lambda>t.
     bind_result (mailbox_text F_roleName r) (\<lambda>r. Inr (Role_runtime_target t r)))"
| "copyTarget (Global_role_runtime_target r) =
     bind_result (mailbox_text F_roleName r) (\<lambda>r. Inr (Global_role_runtime_target r))"

text \<open>\<open>parseTarget\<close> has the same cases over an untyped value; on typed targets they coincide.\<close>

definition parseTarget :: "mailbox_target \<Rightarrow> mailbox_error + mailbox_target" where
  "parseTarget t = copyTarget t"

fun mailboxTaskRecordKind :: "scoped_entity \<Rightarrow> task_record_kind" where
  "mailboxTaskRecordKind E_run = K_run"
| "mailboxTaskRecordKind E_work_item = K_workItem"
| "mailboxTaskRecordKind E_input = K_inputRequest"
| "mailboxTaskRecordKind E_message = K_message"
| "mailboxTaskRecordKind E_event = K_event"

fun copyRef :: "entity_ref \<Rightarrow> mailbox_error + entity_ref" where
  "copyRef (Root_ref ty i) = bind_result (mailbox_text F_entityId i) (\<lambda>i. Inr (Root_ref ty i))"
| "copyRef (Scoped_ref ty t i) =
     bind_result (map_error Mailbox_ref
       (validateTaskRecordReference (task_reference t i) (mailboxTaskRecordKind ty)))
       (\<lambda>v. Inr (Scoped_ref ty (ref_taskId v) (ref_localId v)))"

fun parseRef :: "entity_ref \<Rightarrow> mailbox_error + entity_ref" where
  "parseRef (Root_ref ty i) = bind_result (mailbox_text F_entityId i) (\<lambda>i. Inr (Root_ref ty i))"
| "parseRef (Scoped_ref ty t i) =
     bind_result (mailbox_text F_taskId t) (\<lambda>t.
     bind_result (mailbox_text F_entityId i) (\<lambda>i. copyRef (Scoped_ref ty t i)))"

fun root_entity_text :: "root_entity \<Rightarrow> string" where
  "root_entity_text E_task = ''task''"
| "root_entity_text E_session = ''session''"
| "root_entity_text E_global_job_run = ''global-job-run''"

fun scoped_entity_text :: "scoped_entity \<Rightarrow> string" where
  "scoped_entity_text E_run = ''run''"
| "scoped_entity_text E_work_item = ''work-item''"
| "scoped_entity_text E_input = ''input''"
| "scoped_entity_text E_message = ''message''"
| "scoped_entity_text E_event = ''event''"

fun mailboxEntityRefKey :: "entity_ref \<Rightarrow> string" where
  "mailboxEntityRefKey (Root_ref ty i) = root_entity_text ty @ [CHR 0x00] @ i"
| "mailboxEntityRefKey (Scoped_ref ty t i) =
     scoped_entity_text ty @ [CHR 0x00] @ t @ [CHR 0x00] @ i"

fun target_key :: "mailbox_target \<Rightarrow> string" where
  "target_key Operator_target = ''operator''"
| "target_key (Task_target t) = ''task/'' @ encodeURIComponent t"
| "target_key (Role_target t r) = ''role/'' @ encodeURIComponent t @ ''/'' @ encodeURIComponent r"
| "target_key (Role_runtime_target t r) =
     ''role-runtime/'' @ encodeURIComponent t @ ''/'' @ encodeURIComponent r"
| "target_key (Global_role_runtime_target r) = ''global-role-runtime/'' @ encodeURIComponent r"

definition mailboxTargetKey :: "mailbox_target \<Rightarrow> mailbox_error + string" where
  "mailboxTargetKey t = bind_result (copyTarget t) (\<lambda>t. Inr (target_key t))"

subsection \<open>Validation of batches and mailboxes\<close>

definition parseRefs :: "entity_ref list \<Rightarrow> mailbox_error + entity_ref list" where
  "parseRefs rs =
     bind_result (map_result parseRef rs) (\<lambda>rs.
       if \<not> distinct (map mailboxEntityRefKey rs) then Inl Refs_duplicate else Inr rs)"

definition parse_revision :: "mailbox_field \<Rightarrow> int option \<Rightarrow> mailbox_error + int option" where
  "parse_revision label v =
     (case v of None \<Rightarrow> Inr None
      | Some n \<Rightarrow> bind_result (requireInteger label 0 n) (\<lambda>n. Inr (Some n)))"

definition parseBatch :: "pending_batch \<Rightarrow> mailbox_error + pending_batch" where
  "parseBatch b =
     bind_result (requireInteger F_fromSequence 1 (fromSequence b)) (\<lambda>f.
     bind_result (requireInteger F_toSequence f (toSequence b)) (\<lambda>t.
     bind_result (requireInteger F_requestCount 1 (requestCount b)) (\<lambda>c.
     if c > t - f + 1 then Inl Count_exceeds_envelope else
     bind_result (requireStringArray F_reasons (reasons b)) (\<lambda>rs.
     if rs = [] then Inl Reasons_empty else
     bind_result (parseRefs (refs b)) (\<lambda>es.
     bind_result (mailbox_timestamp F_firstQueuedAt (firstQueuedAt b)) (\<lambda>fq.
     bind_result (mailbox_timestamp F_lastQueuedAt (lastQueuedAt b)) (\<lambda>lq.
     bind_result (requireStringArray F_sources (sources b)) (\<lambda>ss.
     bind_result (requireStringArray F_dedupeKeys (dedupeKeys b)) (\<lambda>ks.
     bind_result (parse_revision F_highestFactRevision (highestFactRevision b)) (\<lambda>h.
     Inr \<lparr>fromSequence = f, toSequence = t, reasons = rs, refs = es, requestCount = c,
          firstQueuedAt = fq, lastQueuedAt = lq, sources = ss, dedupeKeys = ks,
          highestFactRevision = h\<rparr>))))))))))"

definition parse_optional :: "('a \<Rightarrow> 'e + 'b) \<Rightarrow> 'a option \<Rightarrow> 'e + 'b option" where
  "parse_optional p v =
     (case v of None \<Rightarrow> Inr None | Some x \<Rightarrow> bind_result (p x) (\<lambda>y. Inr (Some y)))"

definition parseProcessing :: "processing_batch \<Rightarrow> mailbox_error + processing_batch" where
  "parseProcessing p =
     bind_result (mailbox_text F_batchId (batchId p)) (\<lambda>i.
     bind_result (parseBatch (proc_batch p)) (\<lambda>b.
     bind_result (mailbox_text F_owner (owner p)) (\<lambda>w.
     bind_result (mailbox_timestamp F_startedAt (startedAt p)) (\<lambda>s.
     bind_result (parse_optional parseRef (executionRef p)) (\<lambda>e.
     Inr \<lparr>batchId = i, proc_batch = b, owner = w, startedAt = s, executionRef = e\<rparr>)))))"

definition mailboxBatches :: "work_mailbox \<Rightarrow> pending_batch list" where
  "mailboxBatches m =
     (case processing m of None \<Rightarrow> [] | Some p \<Rightarrow> [proc_batch p]) @
     (case pending m of None \<Rightarrow> [] | Some b \<Rightarrow> [b])"

text \<open>The loop over the keys of one batch, and over the batches, with the set of active keys.\<close>

fun claim_keys :: "string list \<Rightarrow> string list \<Rightarrow> string list \<Rightarrow> mailbox_error + string list" where
  "claim_keys recent active [] = Inr active"
| "claim_keys recent active (k # ks) =
     (if k \<in> set active \<or> k \<in> set recent then Inl Key_already_consumed
      else claim_keys recent (k # active) ks)"

fun claim_batches ::
  "int \<Rightarrow> string list \<Rightarrow> string list \<Rightarrow> pending_batch list \<Rightarrow> mailbox_error + string list" where
  "claim_batches next recent active [] = Inr active"
| "claim_batches next recent active (b # bs) =
     (if toSequence b \<ge> next then Inl Sequence_not_lower
      else bind_result (claim_keys recent active (dedupeKeys b))
             (\<lambda>active. claim_batches next recent active bs))"

definition validateWorkMailbox :: "work_mailbox \<Rightarrow> mailbox_error + work_mailbox" where
  "validateWorkMailbox m =
     bind_result (parseTarget (mailbox_target m)) (\<lambda>t.
     bind_result (requireInteger F_nextSequence 1 (nextSequence m)) (\<lambda>n.
     bind_result (parse_optional parseProcessing (processing m)) (\<lambda>p.
     bind_result (parse_optional parseBatch (pending m)) (\<lambda>b.
     bind_result (requireStringArray F_recentDedupeKeys (recentDedupeKeys m)) (\<lambda>ks.
     if length ks > recent_dedupe_key_limit then Inl Recent_keys_exceed_limit else
     let r = \<lparr>mailbox_target = t, nextSequence = n, processing = p, pending = b, recentDedupeKeys = ks\<rparr>
     in bind_result (claim_batches n ks [] (mailboxBatches r)) (\<lambda>_. Inr r))))))"

subsection \<open>Operations\<close>

definition createWorkMailbox :: "mailbox_target \<Rightarrow> mailbox_error + work_mailbox" where
  "createWorkMailbox t =
     bind_result (copyTarget t) (\<lambda>t.
       Inr \<lparr>mailbox_target = t, nextSequence = 1, processing = None, pending = None,
            recentDedupeKeys = []\<rparr>)"

definition mailboxContainsDedupeKey :: "work_mailbox \<Rightarrow> string \<Rightarrow> bool" where
  "mailboxContainsDedupeKey m key =
     (key \<in> set (recentDedupeKeys m)
      \<or> (case pending m of None \<Rightarrow> False | Some b \<Rightarrow> key \<in> set (dedupeKeys b))
      \<or> (case processing m of None \<Rightarrow> False | Some p \<Rightarrow> key \<in> set (dedupeKeys (proc_batch p))))"

definition rememberDedupeKeys :: "string list \<Rightarrow> string list \<Rightarrow> string list" where
  "rememberDedupeKeys existing keys =
     last_n recent_dedupe_key_limit (appendUnique (\<lambda>v. v) existing keys)"

text \<open>\<open>Date.parse(a) \<le> Date.parse(b)\<close>, false when either is NaN.\<close>

definition date_le :: "string \<Rightarrow> string \<Rightarrow> bool" where
  "date_le a b =
     (case (Date_parse a, Date_parse b) of (Some x, Some y) \<Rightarrow> x \<le> y | _ \<Rightarrow> False)"

definition merge_revision :: "int option \<Rightarrow> int option \<Rightarrow> int option" where
  "merge_revision l r =
     (if l = None \<and> r = None then None
      else Some (max (case l of None \<Rightarrow> 0 | Some n \<Rightarrow> n) (case r of None \<Rightarrow> 0 | Some n \<Rightarrow> n)))"

definition mergeBatches :: "pending_batch \<Rightarrow> pending_batch \<Rightarrow> pending_batch" where
  "mergeBatches l r =
     \<lparr>fromSequence = min (fromSequence l) (fromSequence r),
      toSequence = max (toSequence l) (toSequence r),
      reasons = appendUnique (\<lambda>x. x) (reasons l) (reasons r),
      refs = appendUnique mailboxEntityRefKey (refs l) (refs r),
      requestCount = requestCount l + requestCount r,
      firstQueuedAt = (if date_le (firstQueuedAt l) (firstQueuedAt r) then firstQueuedAt l
                       else firstQueuedAt r),
      lastQueuedAt = (if date_le (lastQueuedAt r) (lastQueuedAt l) then lastQueuedAt l
                      else lastQueuedAt r),
      sources = appendUnique (\<lambda>x. x) (sources l) (sources r),
      dedupeKeys = appendUnique (\<lambda>x. x) (dedupeKeys l) (dedupeKeys r),
      highestFactRevision = merge_revision (highestFactRevision l) (highestFactRevision r)\<rparr>"

definition signal_key :: "int \<Rightarrow> work_signal \<Rightarrow> mailbox_error + string" where
  "signal_key sequence s =
     (case sig_dedupeKey s of
        None \<Rightarrow> Inr (''sequence:'' @ show_int sequence)
      | Some k \<Rightarrow> mailbox_text F_dedupeKey k)"

definition incoming_batch ::
  "int \<Rightarrow> string \<Rightarrow> entity_ref list \<Rightarrow> string \<Rightarrow> string \<Rightarrow> string \<Rightarrow> int option \<Rightarrow> pending_batch" where
  "incoming_batch sequence reason es occurredAt source key revision =
     \<lparr>fromSequence = sequence, toSequence = sequence, reasons = [reason],
      refs = appendUnique mailboxEntityRefKey [] es, requestCount = 1, firstQueuedAt = occurredAt,
      lastQueuedAt = occurredAt, sources = [source], dedupeKeys = [key],
      highestFactRevision = revision\<rparr>"

definition merge_pending :: "pending_batch option \<Rightarrow> pending_batch \<Rightarrow> pending_batch" where
  "merge_pending p incoming = (case p of None \<Rightarrow> incoming | Some b \<Rightarrow> mergeBatches b incoming)"

definition queue_incoming :: "work_mailbox \<Rightarrow> pending_batch \<Rightarrow> work_mailbox" where
  "queue_incoming m inc =
     m\<lparr>nextSequence := nextSequence m + 1, pending := Some (merge_pending (pending m) inc)\<rparr>"

definition enqueueSignal :: "work_mailbox \<Rightarrow> work_signal \<Rightarrow> mailbox_error + work_mailbox" where
  "enqueueSignal m s =
     bind_result (validateWorkMailbox m) (\<lambda>_.
     bind_result (mailbox_text F_reason (sig_reason s)) (\<lambda>reason.
     bind_result (mailbox_timestamp F_occurredAt (sig_occurredAt s)) (\<lambda>occurredAt.
     bind_result (mailbox_text F_source (case sig_source s of None \<Rightarrow> ''yui'' | Some v \<Rightarrow> v)) (\<lambda>source.
     bind_result (signal_key (nextSequence m) s) (\<lambda>key.
     if mailboxContainsDedupeKey m key then Inr m else
     bind_result (map_result copyRef (sig_refs s)) (\<lambda>es.
     bind_result (parse_revision F_factRevision (sig_factRevision s)) (\<lambda>rev.
     validateWorkMailbox (queue_incoming m
       (incoming_batch (nextSequence m) reason es occurredAt source key rev)))))))))"

definition mailboxHasPending :: "work_mailbox \<Rightarrow> bool" where
  "mailboxHasPending m = (pending m \<noteq> None)"

definition mailboxHasWork :: "work_mailbox \<Rightarrow> bool" where
  "mailboxHasWork m = (processing m \<noteq> None \<or> pending m \<noteq> None)"

definition claimPending :: "work_mailbox \<Rightarrow> claim_options \<Rightarrow> mailbox_error + work_mailbox" where
  "claimPending m opts =
     bind_result (validateWorkMailbox m) (\<lambda>_.
     if processing m \<noteq> None then Inl Already_processing else
     case pending m of
       None \<Rightarrow> Inl No_pending_work
     | Some b \<Rightarrow>
         bind_result (mailbox_text F_batchId (claim_batchId opts)) (\<lambda>i.
         bind_result (mailbox_text F_owner (claim_owner opts)) (\<lambda>w.
         bind_result (mailbox_timestamp F_startedAt (claim_startedAt opts)) (\<lambda>s.
         validateWorkMailbox
           (m\<lparr>processing := Some \<lparr>batchId = i, proc_batch = b, owner = w, startedAt = s,
                                  executionRef = None\<rparr>,
              pending := None\<rparr>)))))"

definition requireProcessing :: "work_mailbox \<Rightarrow> string \<Rightarrow> mailbox_error + processing_batch" where
  "requireProcessing m i =
     bind_result (validateWorkMailbox m) (\<lambda>_.
     bind_result (mailbox_text F_batchId i) (\<lambda>i.
     case processing m of
       None \<Rightarrow> Inl No_processing_batch
     | Some p \<Rightarrow> if batchId p \<noteq> i then Inl Batch_id_mismatch else Inr p))"

definition bindExecution :: "work_mailbox \<Rightarrow> string \<Rightarrow> entity_ref \<Rightarrow> mailbox_error + work_mailbox" where
  "bindExecution m i r =
     bind_result (requireProcessing m i) (\<lambda>p.
     bind_result (copyRef r) (\<lambda>r.
       validateWorkMailbox (m\<lparr>processing := Some (p\<lparr>executionRef := Some r\<rparr>)\<rparr>)))"

definition completeProcessing :: "work_mailbox \<Rightarrow> string \<Rightarrow> mailbox_error + work_mailbox" where
  "completeProcessing m i =
     bind_result (requireProcessing m i) (\<lambda>p.
       validateWorkMailbox
         (m\<lparr>processing := None,
            recentDedupeKeys := rememberDedupeKeys (recentDedupeKeys m) (dedupeKeys (proc_batch p))\<rparr>))"

definition releaseProcessing :: "work_mailbox \<Rightarrow> string \<Rightarrow> mailbox_error + work_mailbox" where
  "releaseProcessing m i =
     bind_result (requireProcessing m i) (\<lambda>p.
       validateWorkMailbox
         (m\<lparr>processing := None,
            pending := Some (case pending m of None \<Rightarrow> proc_batch p
                             | Some b \<Rightarrow> mergeBatches (proc_batch p) b)\<rparr>))"

definition keys_aligned :: "pending_batch \<Rightarrow> bool" where
  "keys_aligned b = (int (length (dedupeKeys b)) = requestCount b)"

definition consume_all :: "work_mailbox \<Rightarrow> pending_batch \<Rightarrow> work_mailbox" where
  "consume_all m b =
     m\<lparr>recentDedupeKeys := rememberDedupeKeys (recentDedupeKeys m) (dedupeKeys b), pending := None\<rparr>"

definition consume_prefix :: "work_mailbox \<Rightarrow> pending_batch \<Rightarrow> int \<Rightarrow> int \<Rightarrow> work_mailbox" where
  "consume_prefix m b f t =
     (let n = nat (t - f + 1) in
      m\<lparr>pending := Some (b\<lparr>fromSequence := t + 1, requestCount := toSequence b - t,
          dedupeKeys := if keys_aligned b then drop n (dedupeKeys b) else dedupeKeys b\<rparr>),
        recentDedupeKeys := rememberDedupeKeys (recentDedupeKeys m)
          (if keys_aligned b then take n (dedupeKeys b) else [])\<rparr>)"

definition consumePendingBatch ::
  "work_mailbox \<Rightarrow> (int \<times> int) option \<Rightarrow> mailbox_error + work_mailbox" where
  "consumePendingBatch m through =
     bind_result (validateWorkMailbox m) (\<lambda>_.
     case pending m of
       None \<Rightarrow> Inl No_pending_work
     | Some b \<Rightarrow>
         (case through of
            None \<Rightarrow> validateWorkMailbox (consume_all m b)
          | Some (f, t) \<Rightarrow>
              if f \<noteq> fromSequence b \<or> t < f \<or> t > toSequence b then Inl Consumed_prefix_mismatch
              else if t < toSequence b then validateWorkMailbox (consume_prefix m b f t)
              else validateWorkMailbox (consume_all m b)))"

subsection \<open>Normal forms\<close>

definition text_ok :: "string \<Rightarrow> bool" where
  "text_ok s \<longleftrightarrow> requireText s = Inr s"

definition texts_ok :: "string list \<Rightarrow> bool" where
  "texts_ok xs \<longleftrightarrow> distinct xs \<and> list_all text_ok xs"

definition stamp_ok :: "string \<Rightarrow> bool" where
  "stamp_ok s \<longleftrightarrow> text_ok s \<and> Date_parse s \<noteq> None"

definition ref_ok :: "entity_ref \<Rightarrow> bool" where
  "ref_ok r \<longleftrightarrow> parseRef r = Inr r"

definition refs_ok :: "entity_ref list \<Rightarrow> bool" where
  "refs_ok rs \<longleftrightarrow> distinct (map mailboxEntityRefKey rs) \<and> list_all ref_ok rs"

definition revision_ok :: "int option \<Rightarrow> bool" where
  "revision_ok v \<longleftrightarrow> (case v of None \<Rightarrow> True | Some n \<Rightarrow> 0 \<le> n)"

definition batch_ok :: "pending_batch \<Rightarrow> bool" where
  "batch_ok b \<longleftrightarrow>
     1 \<le> fromSequence b \<and> fromSequence b \<le> toSequence b \<and> 1 \<le> requestCount b \<and>
     requestCount b \<le> toSequence b - fromSequence b + 1 \<and>
     texts_ok (reasons b) \<and> reasons b \<noteq> [] \<and> refs_ok (refs b) \<and>
     stamp_ok (firstQueuedAt b) \<and> stamp_ok (lastQueuedAt b) \<and> texts_ok (sources b) \<and>
     texts_ok (dedupeKeys b) \<and> revision_ok (highestFactRevision b)"

definition processing_ok :: "processing_batch \<Rightarrow> bool" where
  "processing_ok p \<longleftrightarrow>
     text_ok (batchId p) \<and> batch_ok (proc_batch p) \<and> text_ok (owner p) \<and> stamp_ok (startedAt p) \<and>
     pred_option ref_ok (executionRef p)"

definition active_keys :: "work_mailbox \<Rightarrow> string list" where
  "active_keys m = concat (map dedupeKeys (mailboxBatches m))"

definition mailbox_ok :: "work_mailbox \<Rightarrow> bool" where
  "mailbox_ok m \<longleftrightarrow>
     copyTarget (mailbox_target m) = Inr (mailbox_target m) \<and> 1 \<le> nextSequence m \<and>
     pred_option processing_ok (processing m) \<and> pred_option batch_ok (pending m) \<and>
     texts_ok (recentDedupeKeys m) \<and> length (recentDedupeKeys m) \<le> recent_dedupe_key_limit \<and>
     (\<forall>b \<in> set (mailboxBatches m). toSequence b < nextSequence m) \<and>
     distinct (active_keys m) \<and> set (active_keys m) \<inter> set (recentDedupeKeys m) = {}"

lemma mailbox_text_Inr [validity]: "mailbox_text l s = Inr t \<longleftrightarrow> requireText s = Inr t"
  by (simp add: mailbox_text_def map_error_Inr)

lemma mailbox_text_ok: "mailbox_text l s = Inr t \<Longrightarrow> text_ok t"
  by (simp add: mailbox_text_Inr text_ok_def requireText_idem)

lemma mailbox_text_id [simp]: "text_ok s \<Longrightarrow> mailbox_text l s = Inr s"
  by (simp add: mailbox_text_Inr text_ok_def)

lemma mailbox_text_fixed: "mailbox_text l s = Inr s \<longleftrightarrow> text_ok s"
  by (simp add: mailbox_text_Inr text_ok_def)

lemma mailbox_timestamp_ok: "mailbox_timestamp l s = Inr t \<Longrightarrow> stamp_ok t"
  by (auto simp: mailbox_timestamp_def bind_result_Inr stamp_ok_def split: if_splits dest: mailbox_text_ok)

lemma mailbox_timestamp_fixed: "mailbox_timestamp l s = Inr s \<longleftrightarrow> stamp_ok s"
  by (auto simp: mailbox_timestamp_def bind_result_Inr stamp_ok_def mailbox_text_fixed split: if_splits)

lemma requireInteger_Inr [validity]: "requireInteger l n v = Inr w \<longleftrightarrow> w = v \<and> n \<le> v"
  by (auto simp: requireInteger_def)

lemma requireStringArray_ok: "requireStringArray l xs = Inr ys \<Longrightarrow> texts_ok ys"
  by (auto simp: requireStringArray_def bind_result_Inr texts_ok_def map_result_Inr list_all_length
      list_all2_conv_all_nth split: if_splits dest: mailbox_text_ok)

lemma requireStringArray_fixed: "requireStringArray l xs = Inr xs \<longleftrightarrow> texts_ok xs"
  by (auto simp: requireStringArray_def bind_result_Inr texts_ok_def map_result_Inr list_all_length
      list_all2_conv_all_nth mailbox_text_fixed split: if_splits)

lemma copyTarget_idem: "copyTarget t = Inr u \<Longrightarrow> copyTarget u = Inr u"
  by (cases t) (auto simp: bind_result_Inr dest!: mailbox_text_ok)

lemma copyRef_idem: "copyRef r = Inr q \<Longrightarrow> copyRef q = Inr q"
proof (cases r)
  case (Scoped_ref ty t i)
  moreover assume "copyRef r = Inr q"
  ultimately obtain v where v: "validateTaskRecordReference (task_reference t i) (mailboxTaskRecordKind ty) = Inr v"
    and q: "q = Scoped_ref ty (ref_taskId v) (ref_localId v)"
    by (auto simp: bind_result_Inr map_error_Inr)
  from validateTaskRecordReference_idem [OF v] show ?thesis
    unfolding q by (cases v) (simp add: bind_result_Inr map_error_Inr)
qed (auto simp: bind_result_Inr dest!: mailbox_text_ok)

lemma copyRef_texts:
  "copyRef q = Inr q \<Longrightarrow> parseRef q = Inr q"
proof (cases q)
  case (Scoped_ref ty t i)
  moreover assume a: "copyRef q = Inr q"
  ultimately have "requireIdentity t = Inr t" "requireIdentity i = Inr i"
    by (auto simp: bind_result_Inr map_error_Inr validateTaskRecordReference_Inr)
  then have "text_ok t" "text_ok i" by (auto simp: requireIdentity_Inr text_ok_def)
  with a Scoped_ref show ?thesis by simp
qed simp

lemma copyRef_ok: "copyRef r = Inr q \<Longrightarrow> ref_ok q"
  unfolding ref_ok_def by (intro copyRef_texts copyRef_idem)

lemma parseRef_ok:
  assumes "parseRef r = Inr q"
  shows "ref_ok q"
proof (cases r)
  case (Root_ref ty i)
  then show ?thesis using assms by (auto simp: bind_result_Inr ref_ok_def dest!: mailbox_text_ok)
next
  case (Scoped_ref ty t i)
  then obtain t' i' where "copyRef (Scoped_ref ty t' i') = Inr q"
    using assms by (auto simp: bind_result_Inr simp del: copyRef.simps)
  then show ?thesis by (rule copyRef_ok)
qed

lemma parseRefs_ok: "parseRefs rs = Inr qs \<Longrightarrow> refs_ok qs"
  by (auto simp: parseRefs_def bind_result_Inr refs_ok_def map_result_Inr list_all_length
      list_all2_conv_all_nth split: if_splits dest: parseRef_ok)

lemma parseRefs_fixed: "parseRefs rs = Inr rs \<longleftrightarrow> refs_ok rs"
  by (auto simp: parseRefs_def bind_result_Inr refs_ok_def map_result_Inr list_all_length
      list_all2_conv_all_nth ref_ok_def split: if_splits)

lemma parse_revision_Inr: "parse_revision l v = Inr w \<longleftrightarrow> w = v \<and> revision_ok v"
  by (auto simp: parse_revision_def revision_ok_def bind_result_Inr requireInteger_Inr split: option.splits)

lemmas field_ok = mailbox_text_ok mailbox_timestamp_ok requireStringArray_ok parseRefs_ok parseRef_ok
  copyRef_ok

lemmas field_fixed = mailbox_text_fixed mailbox_timestamp_fixed requireStringArray_fixed parseRefs_fixed
  requireInteger_Inr parse_revision_Inr

lemma parseBatch_ok:
  assumes "parseBatch b = Inr c"
  shows "batch_ok c"
  using assms
  by (auto simp: parseBatch_def bind_result_Inr batch_ok_def requireInteger_Inr parse_revision_Inr
      split: if_splits dest: field_ok)

lemma parseBatch_fixed: "parseBatch b = Inr b \<longleftrightarrow> batch_ok b"
proof
  assume "batch_ok b"
  then show "parseBatch b = Inr b"
    by (cases b) (simp add: parseBatch_def batch_ok_def field_fixed [THEN iffD2])
qed (rule parseBatch_ok)

lemma parse_optional_ok:
  "parse_optional p v = Inr w \<Longrightarrow> (\<And>x y. p x = Inr y \<Longrightarrow> P y) \<Longrightarrow> pred_option P w"
  by (cases v) (auto simp: parse_optional_def bind_result_Inr)

lemma parse_optional_fixed:
  "(\<And>x. p x = Inr x \<longleftrightarrow> P x) \<Longrightarrow> parse_optional p v = Inr v \<longleftrightarrow> pred_option P v"
  by (cases v) (auto simp: parse_optional_def bind_result_Inr)

lemma parseProcessing_ok: "parseProcessing p = Inr q \<Longrightarrow> processing_ok q"
  by (auto simp: parseProcessing_def bind_result_Inr processing_ok_def
      dest: field_ok parseBatch_ok intro: parse_optional_ok parseRef_ok)

lemma parseProcessing_fixed: "parseProcessing p = Inr p \<longleftrightarrow> processing_ok p"
proof
  assume ok: "processing_ok p"
  then have "parse_optional parseRef (executionRef p) = Inr (executionRef p)"
    by (subst parse_optional_fixed [of _ ref_ok]) (simp_all add: ref_ok_def processing_ok_def)
  with ok show "parseProcessing p = Inr p"
    by (cases p) (simp add: parseProcessing_def processing_ok_def field_fixed [THEN iffD2]
        parseBatch_fixed [THEN iffD2])
qed (rule parseProcessing_ok)

lemma claim_keys_Inr:
  "claim_keys recent active ks = Inr a \<longleftrightarrow>
     distinct ks \<and> set ks \<inter> (set active \<union> set recent) = {} \<and> a = rev ks @ active"
  by (induction ks arbitrary: active) auto

lemma claim_batches_Inr:
  "claim_batches next recent active bs = Inr a \<longleftrightarrow>
     (\<forall>b \<in> set bs. toSequence b < next) \<and> distinct (concat (map dedupeKeys bs)) \<and>
     set (concat (map dedupeKeys bs)) \<inter> (set active \<union> set recent) = {} \<and>
     a = rev (concat (map dedupeKeys bs)) @ active"
proof (induction bs arbitrary: active)
  case Nil
  then show ?case by auto
next
  case (Cons b bs)
  show ?case by (auto simp: bind_result_Inr claim_keys_Inr Cons.IH not_le)
qed

lemma validateWorkMailbox_ok:
  assumes "validateWorkMailbox m = Inr m'"
  shows "mailbox_ok m'"
  using assms
  by (auto simp: validateWorkMailbox_def bind_result_Inr Let_def mailbox_ok_def claim_batches_Inr
      requireInteger_Inr parseTarget_def active_keys_def split: if_splits
      dest: field_ok copyTarget_idem intro: parse_optional_ok parseProcessing_ok parseBatch_ok)

lemma validateWorkMailbox_fixed: "validateWorkMailbox m = Inr m \<longleftrightarrow> mailbox_ok m"
proof
  assume ok: "mailbox_ok m"
  have "parse_optional parseProcessing (processing m) = Inr (processing m)"
    using ok by (subst parse_optional_fixed [of _ processing_ok]) (simp_all add: parseProcessing_fixed mailbox_ok_def)
  moreover have "parse_optional parseBatch (pending m) = Inr (pending m)"
    using ok by (subst parse_optional_fixed [of _ batch_ok]) (simp_all add: parseBatch_fixed mailbox_ok_def)
  moreover have "claim_batches (nextSequence m) (recentDedupeKeys m) [] (mailboxBatches m) = Inr (rev (active_keys m))"
    using ok by (simp add: claim_batches_Inr mailbox_ok_def active_keys_def)
  ultimately show "validateWorkMailbox m = Inr m"
    using ok by (cases m) (simp add: validateWorkMailbox_def mailbox_ok_def parseTarget_def
        field_fixed [THEN iffD2])
qed (rule validateWorkMailbox_ok)

subsection \<open>Merging and remembering\<close>

lemma appendUnique_from_keys:
  "set (map key (appendUnique_from key keys vs)) = set (map key vs) - set keys"
  by (induction vs arbitrary: keys) auto

lemma appendUnique_from_distinct: "distinct (map key (appendUnique_from key keys vs))"
proof (induction vs arbitrary: keys)
  case (Cons v vs)
  then show ?case using appendUnique_from_keys [of key "key v # keys" vs] by auto
qed simp

lemma appendUnique_from_set: "set (appendUnique_from key keys vs) \<subseteq> set vs"
  by (induction vs arbitrary: keys) auto

lemma appendUnique_from_id:
  "distinct (map key vs) \<Longrightarrow> set (map key vs) \<inter> set keys = {} \<Longrightarrow> appendUnique_from key keys vs = vs"
  by (induction vs arbitrary: keys) auto

lemma appendUnique_keys: "set (map key (appendUnique key xs ys)) = set (map key xs) \<union> set (map key ys)"
  using appendUnique_from_keys [of key "map key xs" ys] by (auto simp: appendUnique_def)

lemma appendUnique_distinct:
  "distinct (map key xs) \<Longrightarrow> distinct (map key (appendUnique key xs ys))"
  using appendUnique_from_keys [of key "map key xs" ys] appendUnique_from_distinct [of key "map key xs" ys]
  by (auto simp: appendUnique_def)

lemma appendUnique_set: "set (appendUnique key xs ys) \<subseteq> set xs \<union> set ys"
  using appendUnique_from_set [of key "map key xs" ys] by (auto simp: appendUnique_def)

lemma appendUnique_disjoint:
  "distinct (map key ys) \<Longrightarrow> set (map key ys) \<inter> set (map key xs) = {} \<Longrightarrow> appendUnique key xs ys = xs @ ys"
  by (simp add: appendUnique_def appendUnique_from_id)

lemma appendUnique_id_set [simp]: "set (appendUnique (\<lambda>v. v) xs ys) = set xs \<union> set ys"
  using appendUnique_keys [of "\<lambda>v. v" xs ys] by simp

lemma texts_ok_appendUnique:
  "texts_ok xs \<Longrightarrow> list_all text_ok ys \<Longrightarrow> texts_ok (appendUnique (\<lambda>v. v) xs ys)"
  using appendUnique_distinct [of "\<lambda>v. v" xs ys] by (auto simp: texts_ok_def list_all_iff)

lemma refs_ok_appendUnique:
  "refs_ok xs \<Longrightarrow> list_all ref_ok ys \<Longrightarrow> refs_ok (appendUnique mailboxEntityRefKey xs ys)"
  using appendUnique_distinct [of mailboxEntityRefKey xs ys] appendUnique_set [of mailboxEntityRefKey xs ys]
  by (auto simp: refs_ok_def list_all_iff)

lemma texts_ok_remember:
  "texts_ok xs \<Longrightarrow> list_all text_ok ys \<Longrightarrow>
     texts_ok (rememberDedupeKeys xs ys) \<and> length (rememberDedupeKeys xs ys) \<le> recent_dedupe_key_limit"
  using texts_ok_appendUnique [of xs ys] set_last_n [of recent_dedupe_key_limit "appendUnique (\<lambda>v. v) xs ys"]
  by (auto simp: rememberDedupeKeys_def texts_ok_def list_all_iff distinct_last_n)

lemma remember_set: "set (rememberDedupeKeys xs ys) \<subseteq> set xs \<union> set ys"
  using set_last_n [of recent_dedupe_key_limit "appendUnique (\<lambda>v. v) xs ys"]
  by (auto simp: rememberDedupeKeys_def)

lemma date_le_linear:
  "Date_parse a \<noteq> None \<Longrightarrow> Date_parse b \<noteq> None \<Longrightarrow> date_le a b \<or> date_le b a"
  by (auto simp: date_le_def)

lemma merge_revision_ok: "revision_ok l \<Longrightarrow> revision_ok r \<Longrightarrow> revision_ok (merge_revision l r)"
  by (auto simp: revision_ok_def merge_revision_def split: option.splits)

lemma mergeBatches_ok:
  assumes "batch_ok l" "batch_ok r" "toSequence l < fromSequence r"
  shows "batch_ok (mergeBatches l r)"
proof -
  have "list_all text_ok (reasons r)" "list_all text_ok (sources r)" "list_all text_ok (dedupeKeys r)"
    "list_all ref_ok (refs r)"
    using assms(2) by (simp_all add: batch_ok_def texts_ok_def refs_ok_def)
  then show ?thesis
    using assms
    by (simp add: batch_ok_def mergeBatches_def texts_ok_appendUnique refs_ok_appendUnique merge_revision_ok)
      (simp add: appendUnique_def)
qed

lemma mergeBatches_fields:
  assumes "batch_ok l" "batch_ok r" "toSequence l < fromSequence r"
  shows "fromSequence (mergeBatches l r) = fromSequence l" "toSequence (mergeBatches l r) = toSequence r"
    "requestCount (mergeBatches l r) = requestCount l + requestCount r"
    "set (dedupeKeys l) \<inter> set (dedupeKeys r) = {} \<Longrightarrow>
       dedupeKeys (mergeBatches l r) = dedupeKeys l @ dedupeKeys r"
  using assms by (auto simp: mergeBatches_def batch_ok_def texts_ok_def intro!: appendUnique_disjoint)

subsection \<open>The invariant\<close>

definition batches_ordered :: "work_mailbox \<Rightarrow> bool" where
  "batches_ordered m \<longleftrightarrow>
     (case (processing m, pending m) of
        (Some p, Some b) \<Rightarrow> toSequence (proc_batch p) < fromSequence b
      | _ \<Rightarrow> True)"

definition mailbox_inv :: "work_mailbox \<Rightarrow> bool" where
  "mailbox_inv m \<longleftrightarrow> mailbox_ok m \<and> batches_ordered m"

lemma mailbox_inv_valid: "mailbox_inv m \<Longrightarrow> validateWorkMailbox m = Inr m"
  by (simp add: mailbox_inv_def validateWorkMailbox_fixed)

lemma contains_key_iff:
  "mailboxContainsDedupeKey m k \<longleftrightarrow> k \<in> set (active_keys m) \<union> set (recentDedupeKeys m)"
  by (auto simp: mailboxContainsDedupeKey_def active_keys_def mailboxBatches_def split: option.splits)

lemma createWorkMailbox_inv: "createWorkMailbox t = Inr m \<Longrightarrow> mailbox_inv m"
  by (auto simp: createWorkMailbox_def bind_result_Inr mailbox_inv_def mailbox_ok_def batches_ordered_def
      active_keys_def mailboxBatches_def texts_ok_def dest: copyTarget_idem)

subsection \<open>Recording a signal\<close>

lemma text_ok_sequence_key: "text_ok (''sequence:'' @ show_int n)"
proof -
  have digits: "list_all (\<lambda>c. \<not> is_space c \<and> c \<noteq> CHR 0x00) (show_int n)" "show_int n \<noteq> []"
    using show_nat_digits [of "nat n"] show_nat_digits [of "nat (- n)"]
    by (auto simp: show_int_def list_all_iff is_digit_def is_space_def unit_of_def)
  then have "\<not> is_space (last (show_int n))" by (simp add: list_all_iff)
  then have "trimmed (''sequence:'' @ show_int n)"
    using digits(2) by (simp add: trimmed_def is_space_def unit_of_def)
  moreover have "\<not> has_nul (''sequence:'' @ show_int n)"
    using digits(1) by (auto simp: has_nul_def list_all_iff)
  ultimately show ?thesis by (simp add: text_ok_def requireText_Inr trim_id)
qed

lemma signal_key_ok: "signal_key n s = Inr k \<Longrightarrow> text_ok k"
  by (auto simp: signal_key_def text_ok_sequence_key [simplified] split: option.splits dest: mailbox_text_ok)

lemma incoming_batch_ok:
  assumes "1 \<le> n" "text_ok reason" "list_all ref_ok es" "stamp_ok at" "text_ok src" "text_ok key"
    "revision_ok rv"
  shows "batch_ok (incoming_batch n reason es at src key rv)"
  using assms refs_ok_appendUnique [of "[]" es]
  by (simp add: batch_ok_def incoming_batch_def texts_ok_def refs_ok_def)

definition single_batch :: "int \<Rightarrow> string \<Rightarrow> pending_batch \<Rightarrow> bool" where
  "single_batch n key inc \<longleftrightarrow>
     batch_ok inc \<and> fromSequence inc = n \<and> toSequence inc = n \<and> requestCount inc = 1 \<and>
     dedupeKeys inc = [key]"

lemma queue_incoming_ok:
  assumes inv: "mailbox_inv m" and inc: "single_batch (nextSequence m) key inc"
    and new: "\<not> mailboxContainsDedupeKey m key"
  shows "mailbox_inv (queue_incoming m inc) \<and> active_keys (queue_incoming m inc) = active_keys m @ [key]"
proof (cases "pending m")
  case None
  then show ?thesis
    using assms
    by (auto simp: mailbox_inv_def mailbox_ok_def batches_ordered_def queue_incoming_def merge_pending_def
        single_batch_def active_keys_def mailboxBatches_def mailboxContainsDedupeKey_def split: option.splits)
next
  case (Some b)
  have b: "batch_ok b" "toSequence b < fromSequence inc"
    using inv inc Some by (auto simp: mailbox_inv_def mailbox_ok_def single_batch_def mailboxBatches_def)
  moreover have i: "batch_ok inc" using inc by (simp add: single_batch_def)
  ultimately have ok: "batch_ok (mergeBatches b inc)" by (simp add: mergeBatches_ok)
  have keys: "dedupeKeys (mergeBatches b inc) = dedupeKeys b @ [key]"
    using mergeBatches_fields(4) [OF b(1) i b(2)] inc new Some
    by (auto simp: single_batch_def mailboxContainsDedupeKey_def)
  show ?thesis
    using inv new Some ok keys mergeBatches_fields(1,2) [OF b(1) i b(2)] inc b(2)
    by (auto simp: mailbox_inv_def mailbox_ok_def batches_ordered_def queue_incoming_def merge_pending_def
        single_batch_def active_keys_def mailboxBatches_def mailboxContainsDedupeKey_def split: option.splits)
qed

lemma map_result_copyRef_ok: "map_result copyRef rs = Inr es \<Longrightarrow> list_all ref_ok es"
  by (auto simp: map_result_Inr list_all_length list_all2_conv_all_nth dest: copyRef_ok)

lemma enqueueSignal_result:
  assumes inv: "mailbox_inv m" and run: "enqueueSignal m s = Inr m'"
  obtains key where "signal_key (nextSequence m) s = Inr key" "mailboxContainsDedupeKey m key" "m' = m"
  | key inc where "signal_key (nextSequence m) s = Inr key" "\<not> mailboxContainsDedupeKey m key"
      "single_batch (nextSequence m) key inc" "m' = queue_incoming m inc" "mailbox_inv m'"
      "active_keys m' = active_keys m @ [key]"
proof -
  from run obtain reason at src key where
    k: "mailbox_text F_reason (sig_reason s) = Inr reason"
    "mailbox_timestamp F_occurredAt (sig_occurredAt s) = Inr at"
    "mailbox_text F_source (case sig_source s of None \<Rightarrow> ''yui'' | Some v \<Rightarrow> v) = Inr src"
    "signal_key (nextSequence m) s = Inr key"
    and r: "(if mailboxContainsDedupeKey m key then Inr m else
     bind_result (map_result copyRef (sig_refs s)) (\<lambda>es.
     bind_result (parse_revision F_factRevision (sig_factRevision s)) (\<lambda>rv.
     validateWorkMailbox (queue_incoming m (incoming_batch (nextSequence m) reason es at src key rv))))) = Inr m'"
    by (auto simp: enqueueSignal_def bind_result_Inr)
  show ?thesis
  proof (cases "mailboxContainsDedupeKey m key")
    case True
    then have "m' = m" using r by simp
    then show ?thesis by (rule that(1) [OF k(4) True])
  next
    case False
    with r obtain es rv where e: "map_result copyRef (sig_refs s) = Inr es" "revision_ok rv"
      and v: "validateWorkMailbox (queue_incoming m (incoming_batch (nextSequence m) reason es at src key rv)) = Inr m'"
      by (auto simp: bind_result_Inr parse_revision_Inr)
    let ?inc = "incoming_batch (nextSequence m) reason es at src key rv"
    have "1 \<le> nextSequence m" using inv by (simp add: mailbox_inv_def mailbox_ok_def)
    then have "batch_ok ?inc"
      using k e by (intro incoming_batch_ok) (auto dest: field_ok signal_key_ok map_result_copyRef_ok)
    then have single: "single_batch (nextSequence m) key ?inc"
      by (simp add: single_batch_def incoming_batch_def)
    have q: "mailbox_inv (queue_incoming m ?inc)" "active_keys (queue_incoming m ?inc) = active_keys m @ [key]"
      using queue_incoming_ok [OF inv single False] by auto
    then have "m' = queue_incoming m ?inc" using v mailbox_inv_valid [OF q(1)] by simp
    then show ?thesis using that(2) [OF k(4) False single] q by simp
  qed
qed

text \<open>The signals that pass the field checks.\<close>

definition signal_wf :: "work_signal \<Rightarrow> bool" where
  "signal_wf s \<longleftrightarrow>
     failure (mailbox_text F_reason (sig_reason s)) = None \<and>
     failure (mailbox_timestamp F_occurredAt (sig_occurredAt s)) = None \<and>
     failure (parse_optional (mailbox_text F_source) (sig_source s)) = None \<and>
     failure (parse_optional (mailbox_text F_dedupeKey) (sig_dedupeKey s)) = None \<and>
     failure (map_result copyRef (sig_refs s)) = None \<and> revision_ok (sig_factRevision s)"

lemma text_ok_yui: "text_ok ''yui''"
  by (simp add: text_ok_def requireText_def trim_def has_nul_def is_space_def unit_of_def)

lemma enqueueSignal_total:
  assumes inv: "mailbox_inv m" and wf: "signal_wf s"
  shows "\<exists>m'. enqueueSignal m s = Inr m'"
proof -
  obtain reason at es where k: "mailbox_text F_reason (sig_reason s) = Inr reason"
    "mailbox_timestamp F_occurredAt (sig_occurredAt s) = Inr at" "map_result copyRef (sig_refs s) = Inr es"
    using wf by (auto simp: signal_wf_def failure_None)
  obtain src where src: "mailbox_text F_source (case sig_source s of None \<Rightarrow> ''yui'' | Some v \<Rightarrow> v) = Inr src"
    using wf text_ok_yui
    by (cases "sig_source s") (auto simp: signal_wf_def failure_None parse_optional_def bind_result_Inr)
  obtain key where key: "signal_key (nextSequence m) s = Inr key"
    using wf by (cases "sig_dedupeKey s")
      (auto simp: signal_wf_def failure_None parse_optional_def bind_result_Inr signal_key_def)
  show ?thesis
  proof (cases "mailboxContainsDedupeKey m key")
    case True
    then show ?thesis using k src key by (simp add: enqueueSignal_def mailbox_inv_valid [OF inv])
  next
    case False
    let ?inc = "incoming_batch (nextSequence m) reason es at src key (sig_factRevision s)"
    have "1 \<le> nextSequence m" using inv by (simp add: mailbox_inv_def mailbox_ok_def)
    then have "batch_ok ?inc"
      using k src key wf
      by (intro incoming_batch_ok) (auto simp: signal_wf_def dest: field_ok signal_key_ok map_result_copyRef_ok)
    then have "single_batch (nextSequence m) key ?inc" by (simp add: single_batch_def incoming_batch_def)
    then have "mailbox_inv (queue_incoming m ?inc)" using queue_incoming_ok [OF inv _ False] by blast
    moreover have "parse_revision F_factRevision (sig_factRevision s) = Inr (sig_factRevision s)"
      using wf by (simp add: parse_revision_Inr signal_wf_def)
    ultimately show ?thesis
      using k src key False
      by (simp add: enqueueSignal_def mailbox_inv_valid [OF inv] mailbox_inv_valid)
  qed
qed

subsection \<open>Claiming, binding, completing, releasing and consuming\<close>

lemmas mailbox_defs = mailbox_inv_def mailbox_ok_def batches_ordered_def active_keys_def mailboxBatches_def

lemma mailbox_inv_parts:
  assumes "mailbox_inv m"
  shows "pending m = Some b \<Longrightarrow> batch_ok b"
    "processing m = Some p \<Longrightarrow> processing_ok p"
    "processing m = Some p \<Longrightarrow> pending m = Some b \<Longrightarrow> toSequence (proc_batch p) < fromSequence b"
    "processing m = Some p \<Longrightarrow> pending m = Some b \<Longrightarrow> set (dedupeKeys (proc_batch p)) \<inter> set (dedupeKeys b) = {}"
    "texts_ok (recentDedupeKeys m)"
    "processing m = Some p \<Longrightarrow> set (dedupeKeys (proc_batch p)) \<inter> set (recentDedupeKeys m) = {}"
  using assms by (auto simp: mailbox_defs)

lemma requireProcessing_Inr:
  "mailbox_inv m \<Longrightarrow> requireProcessing m i = Inr p \<longleftrightarrow>
     processing m = Some p \<and> requireText i = Inr (batchId p)"
  by (auto simp: requireProcessing_def mailbox_inv_valid bind_result_Inr mailbox_text_Inr
      split: option.splits if_splits)

lemma claim_inv:
  assumes inv: "mailbox_inv m" and free: "processing m = None" and pend: "pending m = Some b"
    and "text_ok i" "text_ok w" "stamp_ok st"
  shows "mailbox_inv (m\<lparr>processing := Some \<lparr>batchId = i, proc_batch = b, owner = w, startedAt = st,
    executionRef = None\<rparr>, pending := None\<rparr>)"
  using assms by (auto simp: mailbox_defs processing_ok_def)

lemma claimPending_Inr:
  assumes inv: "mailbox_inv m"
  shows "claimPending m opts = Inr m' \<longleftrightarrow>
    processing m = None \<and> (\<exists>b i w st. pending m = Some b \<and> requireText (claim_batchId opts) = Inr i \<and>
      requireText (claim_owner opts) = Inr w \<and>
      mailbox_timestamp F_startedAt (claim_startedAt opts) = Inr st \<and>
      m' = m\<lparr>processing := Some \<lparr>batchId = i, proc_batch = b, owner = w, startedAt = st,
        executionRef = None\<rparr>, pending := None\<rparr>)"
proof -
  have "validateWorkMailbox (m\<lparr>processing := Some \<lparr>batchId = i, proc_batch = b, owner = w, startedAt = st,
      executionRef = None\<rparr>, pending := None\<rparr>) = Inr m' \<longleftrightarrow>
      m' = m\<lparr>processing := Some \<lparr>batchId = i, proc_batch = b, owner = w, startedAt = st,
      executionRef = None\<rparr>, pending := None\<rparr>"
    if "processing m = None" "pending m = Some b" "requireText (claim_batchId opts) = Inr i"
      "requireText (claim_owner opts) = Inr w" "mailbox_timestamp F_startedAt (claim_startedAt opts) = Inr st"
    for b i w st
    using mailbox_inv_valid [OF claim_inv [OF inv that(1,2)]] that
    by (auto simp: text_ok_def requireText_idem dest: mailbox_timestamp_ok)
  then show ?thesis
    by (cases "pending m") (auto simp: claimPending_def mailbox_inv_valid [OF inv] bind_result_Inr mailbox_text_Inr)
qed

lemma bindExecution_ok:
  assumes inv: "mailbox_inv m" and run: "bindExecution m i r = Inr m'"
  obtains p r' where "processing m = Some p" "requireText i = Inr (batchId p)" "copyRef r = Inr r'"
    "m' = m\<lparr>processing := Some (p\<lparr>executionRef := Some r'\<rparr>)\<rparr>" "mailbox_inv m'"
    "active_keys m' = active_keys m"
proof -
  from run obtain p r' where p: "processing m = Some p" "requireText i = Inr (batchId p)" "copyRef r = Inr r'"
    and v: "validateWorkMailbox (m\<lparr>processing := Some (p\<lparr>executionRef := Some r'\<rparr>)\<rparr>) = Inr m'"
    by (auto simp: bindExecution_def bind_result_Inr requireProcessing_Inr [OF inv])
  let ?m = "m\<lparr>processing := Some (p\<lparr>executionRef := Some r'\<rparr>)\<rparr>"
  have "mailbox_inv ?m"
    using inv p(1) copyRef_ok [OF p(3)]
    by (cases "pending m") (auto simp: mailbox_defs processing_ok_def)
  moreover from v this have "m' = ?m" by (simp add: mailbox_inv_valid)
  ultimately show ?thesis using that p by (auto simp: active_keys_def mailboxBatches_def)
qed

lemma completeProcessing_result:
  assumes inv: "mailbox_inv m" and p: "processing m = Some p" and i: "requireText i = Inr (batchId p)"
  defines "c \<equiv> m\<lparr>processing := None,
    recentDedupeKeys := rememberDedupeKeys (recentDedupeKeys m) (dedupeKeys (proc_batch p))\<rparr>"
  shows "completeProcessing m i = Inr c" "mailbox_inv c"
proof -
  have "list_all text_ok (dedupeKeys (proc_batch p))"
    using mailbox_inv_parts(2) [OF inv p] by (simp add: processing_ok_def batch_ok_def texts_ok_def)
  then have "texts_ok (rememberDedupeKeys (recentDedupeKeys m) (dedupeKeys (proc_batch p)))"
    "length (rememberDedupeKeys (recentDedupeKeys m) (dedupeKeys (proc_batch p))) \<le> recent_dedupe_key_limit"
    using texts_ok_remember mailbox_inv_parts(5) [OF inv] by auto
  then show c: "mailbox_inv c"
    using inv p remember_set [of "recentDedupeKeys m" "dedupeKeys (proc_batch p)"]
    by (auto simp: c_def mailbox_defs split: option.splits)
  show "completeProcessing m i = Inr c"
    using mailbox_inv_valid [OF c] p i inv
    by (simp add: completeProcessing_def bind_result_def requireProcessing_Inr [OF inv, THEN iffD2] c_def)
qed

lemma releaseProcessing_result:
  assumes inv: "mailbox_inv m" and p: "processing m = Some p" and i: "requireText i = Inr (batchId p)"
  defines "c \<equiv> m\<lparr>processing := None, pending := Some (case pending m of None \<Rightarrow> proc_batch p
    | Some b \<Rightarrow> mergeBatches (proc_batch p) b)\<rparr>"
  shows "releaseProcessing m i = Inr c" "mailbox_inv c" "active_keys c = active_keys m"
proof -
  have pok: "batch_ok (proc_batch p)" using mailbox_inv_parts(2) [OF inv p] by (simp add: processing_ok_def)
  have "mailbox_inv c \<and> active_keys c = active_keys m"
  proof (cases "pending m")
    case None
    then show ?thesis using inv p pok by (auto simp: c_def mailbox_defs)
  next
    case (Some b)
    note facts = mailbox_inv_parts(1) [OF inv Some] mailbox_inv_parts(3) [OF inv p Some]
      mailbox_inv_parts(4) [OF inv p Some]
    note f = mergeBatches_fields [OF pok facts(1,2)]
    show ?thesis
      using inv p Some mergeBatches_ok [OF pok facts(1,2)] f(2) f(4) [OF facts(3)]
      by (auto simp: c_def mailbox_defs)
  qed
  then show c: "mailbox_inv c" and "active_keys c = active_keys m" by auto
  show "releaseProcessing m i = Inr c"
    using mailbox_inv_valid [OF c] p i inv
    by (simp add: releaseProcessing_def bind_result_def requireProcessing_Inr [OF inv, THEN iffD2] c_def)
qed

lemma consume_all_inv:
  assumes inv: "mailbox_inv m" and b: "pending m = Some b"
  shows "mailbox_inv (consume_all m b)"
proof -
  have "list_all text_ok (dedupeKeys b)"
    using mailbox_inv_parts(1) [OF inv b] by (simp add: batch_ok_def texts_ok_def)
  then show ?thesis
    using inv b texts_ok_remember [OF mailbox_inv_parts(5) [OF inv], of "dedupeKeys b"]
      remember_set [of "recentDedupeKeys m" "dedupeKeys b"]
    by (auto simp: consume_all_def mailbox_defs split: option.splits)
qed

lemma consume_prefix_inv:
  assumes inv: "mailbox_inv m" and b: "pending m = Some b" and t: "fromSequence b \<le> t" "t < toSequence b"
  shows "mailbox_inv (consume_prefix m b (fromSequence b) t)"
proof -
  let ?n = "nat (t - fromSequence b + 1)"
  let ?c = "if keys_aligned b then take ?n (dedupeKeys b) else []"
  let ?k = "if keys_aligned b then drop ?n (dedupeKeys b) else dedupeKeys b"
  have bok: "batch_ok b" by (rule mailbox_inv_parts(1) [OF inv b])
  have tx: "list_all text_ok (dedupeKeys b)" "distinct (dedupeKeys b)"
    using bok by (simp_all add: batch_ok_def texts_ok_def)
  have c: "list_all text_ok ?c" and k: "texts_ok ?k" and sub: "set ?c \<subseteq> set (dedupeKeys b)"
    "set ?k \<subseteq> set (dedupeKeys b)" and disj: "set ?c \<inter> set ?k = {}"
    using tx set_take_subset [of ?n "dedupeKeys b"] set_drop_subset [of ?n "dedupeKeys b"]
      set_take_disj_set_drop_if_distinct [OF tx(2), of ?n ?n]
    by (auto simp: texts_ok_def list_all_iff)
  have bok': "batch_ok (b\<lparr>fromSequence := t + 1, requestCount := toSequence b - t, dedupeKeys := ?k\<rparr>)"
    using bok t k by (simp add: batch_ok_def)
  have "set (dedupeKeys b) \<inter> set (recentDedupeKeys m) = {}"
    using inv b by (auto simp: mailbox_defs split: option.splits)
  then have recent: "set ?k \<inter> set (rememberDedupeKeys (recentDedupeKeys m) ?c) = {}"
    using remember_set [of "recentDedupeKeys m" ?c] sub disj by blast
  show ?thesis
  proof (cases "processing m")
    case None
    then show ?thesis
      using inv b bok' recent k texts_ok_remember [OF mailbox_inv_parts(5) [OF inv] c]
      by (simp add: consume_prefix_def Let_def mailbox_defs texts_ok_def)
  next
    case (Some p)
    have "set (dedupeKeys (proc_batch p)) \<inter> set (rememberDedupeKeys (recentDedupeKeys m) ?c) = {}"
      using remember_set [of "recentDedupeKeys m" ?c] sub(1) mailbox_inv_parts(4) [OF inv Some b]
        mailbox_inv_parts(6) [OF inv Some] by blast
    then show ?thesis
      using inv b bok' recent k sub(2) t Some texts_ok_remember [OF mailbox_inv_parts(5) [OF inv] c]
      by (auto simp: consume_prefix_def Let_def mailbox_defs texts_ok_def)
  qed
qed

lemma consume_fields:
  "mailbox_target (consume_all m b) = mailbox_target m" "nextSequence (consume_all m b) = nextSequence m"
  "mailbox_target (consume_prefix m b f t) = mailbox_target m"
  "nextSequence (consume_prefix m b f t) = nextSequence m"
  by (simp_all add: consume_all_def consume_prefix_def Let_def)

lemma consumePendingBatch_result:
  assumes inv: "mailbox_inv m" and run: "consumePendingBatch m through = Inr m'"
  obtains b where "pending m = Some b" "m' = consume_all m b"
    "through = None \<or> through = Some (fromSequence b, toSequence b)"
  | b t where "pending m = Some b" "m' = consume_prefix m b (fromSequence b) t"
    "through = Some (fromSequence b, t)" "fromSequence b \<le> t" "t < toSequence b"
proof -
  from run obtain b where b: "pending m = Some b"
    by (auto simp: consumePendingBatch_def mailbox_inv_valid [OF inv] split: option.splits)
  note all = mailbox_inv_valid [OF consume_all_inv [OF inv b]]
  show ?thesis
  proof (cases through)
    case None
    then show ?thesis
      using run b all that(1) [OF b] by (simp add: consumePendingBatch_def mailbox_inv_valid [OF inv])
  next
    case (Some ft)
    obtain f t where ft: "ft = (f, t)" by fastforce
    have c: "f = fromSequence b" "f \<le> t" "t \<le> toSequence b"
      using run b Some ft
      by (auto simp: consumePendingBatch_def mailbox_inv_valid [OF inv] split: if_splits)
    show ?thesis
    proof (cases "t < toSequence b")
      case True
      then have "m' = consume_prefix m b (fromSequence b) t"
        using run b Some ft c mailbox_inv_valid [OF consume_prefix_inv [OF inv b _ True]]
        by (simp add: consumePendingBatch_def mailbox_inv_valid [OF inv])
      then show ?thesis using that(2) [OF b _ _ _ True] Some ft c by simp
    next
      case False
      then have "m' = consume_all m b"
        using run b Some ft c all by (simp add: consumePendingBatch_def mailbox_inv_valid [OF inv])
      then show ?thesis using that(1) [OF b] Some ft c False by simp
    qed
  qed
qed

lemma consumePendingBatch_total:
  assumes inv: "mailbox_inv m" and b: "pending m = Some b"
    and "case through of None \<Rightarrow> True | Some (f, t) \<Rightarrow> f = fromSequence b \<and> f \<le> t \<and> t \<le> toSequence b"
  shows "\<exists>m'. consumePendingBatch m through = Inr m'"
  using assms mailbox_inv_valid [OF consume_all_inv [OF inv b]]
    mailbox_inv_valid [OF consume_prefix_inv [OF inv b]]
  by (cases through) (auto simp: consumePendingBatch_def mailbox_inv_valid [OF inv])

subsection \<open>The mailbox as a command system\<close>

datatype mailbox_command =
    Enqueue work_signal
  | Claim claim_options
  | Bind string entity_ref
  | Complete string
  | Release string
  | Consume "(int \<times> int) option"

fun mailbox_step :: "mailbox_command \<Rightarrow> work_mailbox \<Rightarrow> mailbox_error + work_mailbox" where
  "mailbox_step (Enqueue s) m = enqueueSignal m s"
| "mailbox_step (Claim opts) m = claimPending m opts"
| "mailbox_step (Bind i r) m = bindExecution m i r"
| "mailbox_step (Complete i) m = completeProcessing m i"
| "mailbox_step (Release i) m = releaseProcessing m i"
| "mailbox_step (Consume t) m = consumePendingBatch m t"

lemma complete_release_processing:
  assumes "mailbox_inv m"
  shows "completeProcessing m i = Inr m' \<Longrightarrow> \<exists>p. processing m = Some p \<and> requireText i = Inr (batchId p)"
    "releaseProcessing m i = Inr m' \<Longrightarrow> \<exists>p. processing m = Some p \<and> requireText i = Inr (batchId p)"
  by (auto simp: completeProcessing_def releaseProcessing_def bind_result_Inr requireProcessing_Inr [OF assms])

lemma mailbox_step_inv:
  assumes inv: "mailbox_inv m" and run: "mailbox_step c m = Inr m'"
  shows "mailbox_inv m' \<and> mailbox_target m' = mailbox_target m \<and> nextSequence m \<le> nextSequence m'"
proof (cases c)
  case (Enqueue s)
  then have "enqueueSignal m s = Inr m'" using run by simp
  then show ?thesis
    by (rule enqueueSignal_result [OF inv]) (use inv in \<open>auto simp: queue_incoming_def\<close>)
next
  case (Claim opts)
  then obtain b i w st where c: "processing m = None" "pending m = Some b"
    "requireText (claim_batchId opts) = Inr i" "requireText (claim_owner opts) = Inr w"
    "mailbox_timestamp F_startedAt (claim_startedAt opts) = Inr st"
    "m' = m\<lparr>processing := Some \<lparr>batchId = i, proc_batch = b, owner = w, startedAt = st,
        executionRef = None\<rparr>, pending := None\<rparr>"
    using run by (auto simp: claimPending_Inr [OF inv])
  have "text_ok i" "text_ok w" "stamp_ok st"
    using c(3-5) by (auto simp: text_ok_def dest: requireText_idem mailbox_timestamp_ok)
  then show ?thesis using claim_inv [OF inv c(1,2)] c(6) by simp
next
  case (Bind i r)
  then have "bindExecution m i r = Inr m'" using run by simp
  then show ?thesis by (rule bindExecution_ok [OF inv]) auto
next
  case (Complete i)
  then show ?thesis
    using run complete_release_processing(1) [OF inv, of i m'] completeProcessing_result [OF inv] by fastforce
next
  case (Release i)
  then show ?thesis
    using run complete_release_processing(2) [OF inv, of i m'] releaseProcessing_result [OF inv] by fastforce
next
  case (Consume t)
  then have "consumePendingBatch m t = Inr m'" using run by simp
  then show ?thesis
    by (rule consumePendingBatch_result [OF inv])
      (simp_all add: consume_all_inv [OF inv] consume_prefix_inv [OF inv] consume_fields)
qed

interpretation mailbox: identified_system mailbox_inv mailbox_step "\<lambda>_. True" mailbox_target
  by unfold_locales (auto dest: mailbox_step_inv)

interpretation mailbox_sequence: ratchet_system mailbox_inv mailbox_step "\<lambda>_. True"
  "\<lambda>m m'. nextSequence m \<le> nextSequence m'"
  by unfold_locales (auto dest: mailbox_step_inv)

subsection \<open>Keys of targets and references\<close>

lemma split_at:
  "c \<notin> set a \<Longrightarrow> c \<notin> set b \<Longrightarrow> a @ c # x = b @ c # y \<longleftrightarrow> a = b \<and> x = y"
proof (induction a arbitrary: b)
  case Nil
  then show ?case by (cases b) auto
next
  case (Cons a as)
  then show ?case by (cases b) auto
qed

lemma target_key_inject: "target_key t = target_key u \<longleftrightarrow> t = u"
proof
  assume eq: "target_key t = target_key u"
  have two: "t = t' \<and> r = r'"
    if "encodeURIComponent t @ CHR ''/'' # encodeURIComponent r = encodeURIComponent t' @ CHR ''/'' # encodeURIComponent r'"
    for t t' r r'
    using that by (simp add: split_at encode_no_slash encodeURIComponent_inject)
  from eq show "t = u"
    by (cases t; cases u) (auto simp: encodeURIComponent_inject dest!: two)
qed simp

lemma scoped_entity_text_inject: "scoped_entity_text a = scoped_entity_text b \<longleftrightarrow> a = b"
  by (cases a; cases b) simp_all

lemma root_entity_text_inject: "root_entity_text a = root_entity_text b \<longleftrightarrow> a = b"
  by (cases a; cases b) simp_all

lemma entity_text_differ: "root_entity_text a \<noteq> scoped_entity_text b" "scoped_entity_text b \<noteq> root_entity_text a"
  by (cases a; cases b; simp)+

lemma entity_text_nul: "CHR 0x00 \<notin> set (root_entity_text a)" "CHR 0x00 \<notin> set (scoped_entity_text b)"
  by (cases a; simp) (cases b; simp)

lemma text_ok_nul: "text_ok s \<Longrightarrow> CHR 0x00 \<notin> set s"
  by (auto simp: text_ok_def requireText_Inr has_nul_def)

lemma scoped_ref_texts:
  assumes "ref_ok (Scoped_ref ty t i)"
  shows "text_ok t" "text_ok i"
proof -
  from assms obtain v w where "validateTaskRecordReference w (mailboxTaskRecordKind ty) = Inr v"
    and ti: "t = ref_taskId v" "i = ref_localId v"
    by (auto simp: ref_ok_def bind_result_Inr map_error_Inr)
  then have "validateTaskRecordReference v (mailboxTaskRecordKind ty) = Inr v"
    by (auto dest: validateTaskRecordReference_idem)
  then have "requireIdentity t = Inr t" "requireIdentity i = Inr i"
    by (simp_all add: validateTaskRecordReference_Inr ti)
  then show "text_ok t" "text_ok i" by (simp_all add: requireIdentity_Inr text_ok_def)
qed

lemma ref_key_inject:
  assumes "ref_ok a" "ref_ok b" "mailboxEntityRefKey a = mailboxEntityRefKey b"
  shows "a = b"
proof (cases a; cases b)
  fix x t i y u j
  assume ab: "a = Scoped_ref x t i" "b = Scoped_ref y u j"
  then have "CHR 0x00 \<notin> set t" "CHR 0x00 \<notin> set u"
    using assms(1,2) scoped_ref_texts text_ok_nul by blast+
  then show ?thesis
    using assms(3) ab by (simp add: split_at entity_text_nul scoped_entity_text_inject)
qed (use assms(3) in \<open>auto simp: split_at entity_text_nul root_entity_text_inject entity_text_differ\<close>)

subsection \<open>A concrete mailbox\<close>

definition demo_signal :: "string \<Rightarrow> work_signal" where
  "demo_signal key = \<lparr>sig_reason = ''wake'', sig_refs = [], sig_occurredAt = ''2024-01-01T00:00:00.000Z'',
     sig_source = None, sig_dedupeKey = Some key, sig_factRevision = None\<rparr>"

definition demo_mailbox :: work_mailbox where
  "demo_mailbox = \<lparr>mailbox_target = Operator_target, nextSequence = 2, processing = None,
     pending = Some (incoming_batch 1 ''wake'' [] ''2024-01-01T00:00:00.000Z'' ''yui'' ''a'' None),
     recentDedupeKeys = []\<rparr>"

definition demo_claim :: claim_options where
  "demo_claim = \<lparr>claim_batchId = ''b1'', claim_owner = ''controller'',
     claim_startedAt = ''2024-01-01T00:00:01.000Z''\<rparr>"

definition demo_claimed :: work_mailbox where
  "demo_claimed = demo_mailbox\<lparr>pending := None,
     processing := Some \<lparr>batchId = ''b1'', proc_batch = the (pending demo_mailbox),
       owner = ''controller'', startedAt = ''2024-01-01T00:00:01.000Z'', executionRef = None\<rparr>\<rparr>"

lemma demo_date: "Date_parse ''2024-01-01T00:00:00.000Z'' \<noteq> None" "Date_parse ''2024-01-01T00:00:01.000Z'' \<noteq> None"
  by code_simp+

lemma demo_texts: "text_ok ''wake''" "text_ok ''a''" "text_ok ''b''" "text_ok ''b1''" "text_ok ''controller''"
  "text_ok ''2024-01-01T00:00:00.000Z''" "text_ok ''2024-01-01T00:00:01.000Z''"
  by (simp_all add: text_ok_def requireText_def trim_def has_nul_def is_space_def unit_of_def)

lemma demo_mailbox_inv: "mailbox_inv demo_mailbox"
  using incoming_batch_ok [of 1 "''wake''" "[]" "''2024-01-01T00:00:00.000Z''" "''yui''" "''a''" None]
  by (simp add: mailbox_defs demo_mailbox_def demo_texts text_ok_yui stamp_ok_def demo_date revision_ok_def
      texts_ok_def) (simp add: incoming_batch_def)

lemma demo_signal_wf: "text_ok key \<Longrightarrow> signal_wf (demo_signal key)"
  by (simp add: signal_wf_def demo_signal_def demo_texts mailbox_timestamp_def demo_date parse_optional_def
      revision_ok_def)

lemma demo_claim_run: "claimPending demo_mailbox demo_claim = Inr demo_claimed"
  unfolding claimPending_Inr [OF demo_mailbox_inv]
  using demo_texts demo_date
  by (simp add: demo_claim_def demo_claimed_def text_ok_def mailbox_timestamp_def mailbox_text_def)
    (simp add: demo_mailbox_def)

lemma demo_claimed_inv: "mailbox_inv demo_claimed"
  using mailbox_step_inv [OF demo_mailbox_inv, of "Claim demo_claim"] demo_claim_run by simp

subsection \<open>Properties\<close>

lemma remember_last:
  assumes "k \<notin> set xs" "set ks \<inter> set xs = {}" "distinct (ks @ [k])"
  shows "k \<in> set (rememberDedupeKeys xs (ks @ [k]))"
proof -
  have "appendUnique (\<lambda>v. v) xs (ks @ [k]) = xs @ ks @ [k]" using assms by (intro appendUnique_disjoint) auto
  then show ?thesis by (simp add: rememberDedupeKeys_def last_n_def recent_dedupe_key_limit_def)
qed

lemma remember_keeps:
  assumes "set ks \<inter> set xs = {}" "distinct ks" "length ks \<le> recent_dedupe_key_limit" "k \<in> set ks"
  shows "k \<in> set (rememberDedupeKeys xs ks)"
proof -
  have "appendUnique (\<lambda>v. v) xs ks = xs @ ks" using assms(1,2) by (intro appendUnique_disjoint) auto
  moreover have "length (xs @ ks) - recent_dedupe_key_limit \<le> length xs" using assms(3) by simp
  ultimately show ?thesis using assms(4) by (simp add: rememberDedupeKeys_def last_n_def)
qed

text \<open>
  Whatever sequence of mailbox operations succeeds on a freshly created mailbox, the result
  is a fixed point of the validator, keeps the mailbox's target, never reuses a sequence number,
  and the batch in process precedes the pending batch.
\<close>

theorem mailbox_run_valid:
  assumes "createWorkMailbox t = Inr m0" "run_commands mailbox_step cs m0 = Inr m"
  shows "validateWorkMailbox m = Inr m \<and> batches_ordered m \<and> copyTarget t = Inr (mailbox_target m) \<and>
    nextSequence m0 \<le> nextSequence m"
proof -
  have inv0: "mailbox_inv m0" using assms(1) by (rule createWorkMailbox_inv)
  have adm: "list_all (\<lambda>_. True) cs" by (simp add: list_all_iff)
  have "mailbox_inv m" by (rule mailbox.run_valid [OF inv0 adm assms(2)])
  moreover have "mailbox_target m = mailbox_target m0" by (rule mailbox.run_identity [OF inv0 adm assms(2)])
  moreover have "nextSequence m0 \<le> nextSequence m" by (rule mailbox_sequence.run_below [OF inv0 adm assms(2)])
  moreover have "copyTarget t = Inr (mailbox_target m0)"
    using assms(1) by (auto simp: createWorkMailbox_def bind_result_Inr)
  ultimately show ?thesis by (simp add: mailbox_inv_valid) (simp add: mailbox_inv_def)
qed

lemma mailbox_run_valid_witness:
  "\<exists>m0. createWorkMailbox Operator_target = Inr m0 \<and> batches_ordered m0 \<and> validateWorkMailbox m0 = Inr m0"
  using mailbox_run_valid [of Operator_target _ "[]"] by (auto simp: createWorkMailbox_def)

text \<open>
  C6. On every mailbox that a sequence of operations reaches from a new one, a well-formed signal is
  recorded exactly once: enqueueing succeeds; if the signal's dedupe key is already active or recently
  consumed the mailbox does not change, otherwise the key is appended as the newest active key under a
  fresh sequence number and the consumed keys stay; and sending a signal with an explicit key again changes
  nothing.
\<close>

theorem mailbox_enqueue_once:
  assumes new: "createWorkMailbox t = Inr m0" and cs: "run_commands mailbox_step cs m0 = Inr m" and wf: "signal_wf s"
  shows "\<exists>m' key. enqueueSignal m s = Inr m' \<and> signal_key (nextSequence m) s = Inr key \<and> validateWorkMailbox m' = Inr m' \<and>
    mailboxContainsDedupeKey m' key \<and>
    (if mailboxContainsDedupeKey m key then m' = m
     else active_keys m' = active_keys m @ [key] \<and> nextSequence m' = nextSequence m + 1 \<and> recentDedupeKeys m' = recentDedupeKeys m) \<and>
    (sig_dedupeKey s \<noteq> None \<longrightarrow> enqueueSignal m' s = Inr m')"
proof -
  have inv: "mailbox_inv m"
    using mailbox.run_valid [OF createWorkMailbox_inv [OF new] _ cs] by (simp add: list_all_iff)
  obtain m' where run: "enqueueSignal m s = Inr m'" using enqueueSignal_total [OF inv wf] by blast
  have again: "enqueueSignal m' s = Inr m'"
    if ex: "sig_dedupeKey s \<noteq> None" "signal_key (nextSequence m) s = Inr key"
      and kn: "mailboxContainsDedupeKey m' key" and inv': "mailbox_inv m'" for key
  proof -
    have "signal_key (nextSequence m') s = Inr key" using ex by (auto simp: signal_key_def)
    moreover obtain m2 where m2: "enqueueSignal m' s = Inr m2" using enqueueSignal_total [OF inv' wf] by blast
    ultimately show ?thesis using kn by (cases rule: enqueueSignal_result [OF inv' m2]) auto
  qed
  show ?thesis
  proof (cases rule: enqueueSignal_result [OF inv run])
    case (1 key)
    then show ?thesis using run inv again mailbox_inv_valid [OF inv] by auto
  next
    case (2 key inc)
    then have "mailboxContainsDedupeKey m' key" by (simp add: contains_key_iff)
    moreover have "nextSequence m' = nextSequence m + 1" "recentDedupeKeys m' = recentDedupeKeys m" using 2(4) by (simp_all add: queue_incoming_def)
    moreover have "validateWorkMailbox m' = Inr m'" using 2 mailbox_inv_valid by blast
    ultimately show ?thesis using run 2 again by auto
  qed
qed

lemma mailbox_enqueue_once_witness:
  "\<exists>m0 m1 m2. createWorkMailbox Operator_target = Inr m0 \<and> run_commands mailbox_step [Enqueue (demo_signal ''a'')] m0 = Inr m1 \<and>
     enqueueSignal m1 (demo_signal ''b'') = Inr m2 \<and> active_keys m2 = [''a'', ''b''] \<and> enqueueSignal m2 (demo_signal ''b'') = Inr m2"
proof -
  obtain m0 where m0: "createWorkMailbox Operator_target = Inr m0" "active_keys m0 = []" "recentDedupeKeys m0 = []"
    by (simp add: createWorkMailbox_def active_keys_def mailboxBatches_def)
  have key: "signal_key n (demo_signal ''a'') = Inr ''a''" "signal_key n (demo_signal ''b'') = Inr ''b''" for n
    by (simp_all add: demo_signal_def signal_key_def demo_texts)
  have wf: "signal_wf (demo_signal ''a'')" "signal_wf (demo_signal ''b'')" using demo_signal_wf demo_texts by auto
  obtain m1 where m1: "enqueueSignal m0 (demo_signal ''a'') = Inr m1" "active_keys m1 = [''a'']" "recentDedupeKeys m1 = []"
    using mailbox_enqueue_once [OF m0(1) _ wf(1), of "[]" m0] m0 by (auto simp: key contains_key_iff split: if_split_asm)
  then have r: "run_commands mailbox_step [Enqueue (demo_signal ''a'')] m0 = Inr m1" by simp
  have "sig_dedupeKey (demo_signal ''b'') \<noteq> None" by (simp add: demo_signal_def)
  with mailbox_enqueue_once [OF m0(1) r wf(2)] m1 obtain m2
    where "enqueueSignal m1 (demo_signal ''b'') = Inr m2" "active_keys m2 = [''a'', ''b'']" "enqueueSignal m2 (demo_signal ''b'') = Inr m2"
    by (auto simp: key contains_key_iff split: if_split_asm)
  then show ?thesis using m0(1) r by blast
qed

text \<open>
  Releasing a claimed batch under its id restores the mailbox exactly as it was before the
  claim.
\<close>

theorem mailbox_claim_release:
  assumes inv: "mailbox_inv m" and claim: "claimPending m opts = Inr m1"
  shows "releaseProcessing m1 (claim_batchId opts) = Inr m"
proof -
  have inv1: "mailbox_inv m1" using mailbox_step_inv [OF inv, of "Claim opts" m1] claim by simp
  from claim obtain b i w st where c: "processing m = None" "pending m = Some b"
    "requireText (claim_batchId opts) = Inr i"
    and m1: "m1 = m\<lparr>processing := Some \<lparr>batchId = i, proc_batch = b, owner = w, startedAt = st,
        executionRef = None\<rparr>, pending := None\<rparr>"
    by (auto simp: claimPending_Inr [OF inv])
  let ?p = "\<lparr>batchId = i, proc_batch = b, owner = w, startedAt = st, executionRef = None\<rparr>"
  have "processing m1 = Some ?p" by (simp add: m1)
  from releaseProcessing_result(1) [OF inv1 this] c show ?thesis by (cases m) (simp add: m1)
qed

lemma mailbox_claim_release_witness: "releaseProcessing demo_claimed ''b1'' = Inr demo_mailbox"
  using mailbox_claim_release [OF demo_mailbox_inv demo_claim_run] by (simp add: demo_claim_def)

text \<open>
  A batch in process can always be settled: under its own id both completion and release
  succeed. A release loses no key and keeps their order; after a completion every key of a batch
  of at most 256 keys is remembered, so a repeated signal with such a key is ignored.
\<close>

theorem mailbox_settlement:
  assumes inv: "mailbox_inv m" and p: "processing m = Some p"
  shows "\<exists>c r. completeProcessing m (batchId p) = Inr c \<and> releaseProcessing m (batchId p) = Inr r \<and>
    active_keys r = active_keys m \<and> processing c = None \<and> processing r = None \<and> pending c = pending m \<and>
    (length (dedupeKeys (proc_batch p)) \<le> recent_dedupe_key_limit \<longrightarrow>
      (\<forall>k \<in> set (dedupeKeys (proc_batch p)). mailboxContainsDedupeKey c k))"
proof -
  have pok: "processing_ok p" by (rule mailbox_inv_parts(2) [OF inv p])
  then have i: "requireText (batchId p) = Inr (batchId p)" by (simp add: processing_ok_def text_ok_def)
  have "distinct (dedupeKeys (proc_batch p))"
    using pok by (simp add: processing_ok_def batch_ok_def texts_ok_def)
  then show ?thesis
    using completeProcessing_result(1) [OF inv p i] releaseProcessing_result(1,3) [OF inv p i]
      remember_keeps [OF mailbox_inv_parts(6) [OF inv p]]
    by (simp add: contains_key_iff)
qed

lemma mailbox_settlement_witness:
  "\<exists>c. completeProcessing demo_claimed ''b1'' = Inr c \<and> mailboxContainsDedupeKey c ''a''"
proof -
  let ?p = "\<lparr>batchId = ''b1'', proc_batch = the (pending demo_mailbox), owner = ''controller'',
    startedAt = ''2024-01-01T00:00:01.000Z'', executionRef = None\<rparr>"
  have "processing demo_claimed = Some ?p" by (simp add: demo_claimed_def)
  from mailbox_settlement [OF demo_claimed_inv this] show ?thesis
    by (auto simp: demo_mailbox_def incoming_batch_def recent_dedupe_key_limit_def)
qed

text \<open>
  Mailboxes of different targets have different storage keys, and references of well-formed
  entities have different keys: the percent encoding and the separators make both injective.
\<close>

theorem mailbox_keys_injective:
  "((\<exists>k. mailboxTargetKey t = Inr k \<and> mailboxTargetKey u = Inr k) \<longrightarrow> copyTarget t = copyTarget u) \<and>
   (ref_ok a \<and> ref_ok b \<and> mailboxEntityRefKey a = mailboxEntityRefKey b \<longrightarrow> a = b)"
  using ref_key_inject by (auto simp: mailboxTargetKey_def bind_result_Inr target_key_inject)

lemma mailbox_keys_injective_witness:
  "mailboxTargetKey (Role_target ''a'' ''b'') = Inr ''role/a/b'' \<and>
   mailboxTargetKey (Role_target '' a'' ''b'') = Inr ''role/a/b'' \<and>
   copyTarget (Role_target '' a'' ''b'') = copyTarget (Role_target ''a'' ''b'')"
proof -
  have "mailboxTargetKey (Role_target ''a'' ''b'') = Inr ''role/a/b''"
    "mailboxTargetKey (Role_target '' a'' ''b'') = Inr ''role/a/b''" by code_simp+
  with mailbox_keys_injective [of "Role_target '' a'' ''b''" "Role_target ''a'' ''b''"] show ?thesis by blast
qed

end
