(* ===== verification/Work_Mailbox_Queue.thy ===== *)
theory Work_Mailbox_Queue
  imports Work_Mailbox "HOL-Library.AList" "HOL-Library.List_Lexorder"
begin

text \<open>
  Enqueueing and settling work through a mailbox store
  (\<open>src/src/coordination/workMailboxQueue.ts\<close>), over the mailbox table of the SQLite store
  (\<open>src/src/storage/sqliteStore.ts\<close>, work mailboxes).

  The queue functions receive the store as a record of functions (\<open>store_port\<close>), as the source
  does. The locale \<open>mailbox_store\<close> states what they rely on: a read after a write returns the
  written mailbox, other mailboxes are not touched, and stored mailboxes satisfy the mailbox
  invariant. The table model, keyed by \<open>mailboxTargetKey\<close>, is an interpretation of it.
\<close>

datatype mailbox_queue_error =
    Queue_mailbox mailbox_error
  | No_processing_execution | Batch_not_bound | Execution_mismatch | Merged_pending_batch

record 's store_port =
  port_getWorkMailbox :: "'s \<Rightarrow> mailbox_target \<Rightarrow> mailbox_error + work_mailbox option"
  port_saveWorkMailbox :: "'s \<Rightarrow> work_mailbox \<Rightarrow> mailbox_error + 's"
  port_taskStatus :: "'s \<Rightarrow> string \<Rightarrow> string option"

record run_identity =
  run_taskId :: string
  run_roleName :: string
  run_runId :: string

datatype dispatch_token = Pending_token int int | Processing_token string

datatype dispatch_settlement = Settled | Absent | State_changed

record signal_metadata =
  meta_source :: "string option"
  meta_dedupeKey :: "string option"
  meta_factRevision :: "int option"

datatype moment = Date_value time | Iso_text string

fun timestamp_of :: "moment \<Rightarrow> string" where
  "timestamp_of (Date_value t) = toISOString t"
| "timestamp_of (Iso_text s) = s"

definition lift_mailbox :: "mailbox_error + 'a \<Rightarrow> mailbox_queue_error + 'a" where
  "lift_mailbox r = map_error Queue_mailbox r"

subsection \<open>Enqueueing\<close>

fun archive_admission :: "('s, 'z) store_port_scheme \<Rightarrow> 's \<Rightarrow> mailbox_target \<Rightarrow> bool" where
  "archive_admission P s (Task_target t) = (port_taskStatus P s t = Some ''archived'')"
| "archive_admission P s (Role_target t r) = (port_taskStatus P s t = Some ''archived'')"
| "archive_admission P s _ = False"

definition enqueueWork ::
  "'s store_port \<Rightarrow> 's \<Rightarrow> mailbox_target \<Rightarrow> string \<Rightarrow> moment \<Rightarrow> entity_ref list \<Rightarrow> signal_metadata \<Rightarrow>
     mailbox_error + 's \<times> work_mailbox" where
  "enqueueWork P s target reason occurredAt es metadata =
     bind_result (port_getWorkMailbox P s target) (\<lambda>found.
     bind_result (case found of Some m \<Rightarrow> Inr m | None \<Rightarrow> createWorkMailbox target) (\<lambda>mailbox.
     if archive_admission P s target then Inr (s, mailbox) else
     bind_result (enqueueSignal mailbox
         \<lparr>sig_reason = reason, sig_refs = es, sig_occurredAt = timestamp_of occurredAt,
          sig_source = meta_source metadata, sig_dedupeKey = meta_dedupeKey metadata,
          sig_factRevision = meta_factRevision metadata\<rparr>) (\<lambda>queued.
     bind_result (port_saveWorkMailbox P s queued) (\<lambda>s'. Inr (s', queued)))))"

definition roleRunTarget :: "run_identity \<Rightarrow> mailbox_target" where
  "roleRunTarget input = Role_target (run_taskId input) (run_roleName input)"

definition roleRunRef :: "run_identity \<Rightarrow> entity_ref" where
  "roleRunRef input = Scoped_ref E_run (run_taskId input) (run_runId input)"

definition roleRunDispatchDedupeKey :: "run_identity \<Rightarrow> string" where
  "roleRunDispatchDedupeKey input =
     ''role-turn:'' @ run_taskId input @ '':'' @ run_roleName input @ '':'' @ run_runId input"

definition enqueueRoleRunDispatch ::
  "'s store_port \<Rightarrow> 's \<Rightarrow> run_identity \<Rightarrow> string \<Rightarrow> moment \<Rightarrow> mailbox_error + 's \<times> work_mailbox option" where
  "enqueueRoleRunDispatch P s input reason occurredAt =
     (if run_roleName input = ''leader'' then Inr (s, None) else
      bind_result (enqueueWork P s (roleRunTarget input) reason occurredAt [roleRunRef input]
          \<lparr>meta_source = Some ''turn-dispatch'', meta_dedupeKey = Some (roleRunDispatchDedupeKey input),
           meta_factRevision = None\<rparr>)
        (\<lambda>(s', m). Inr (s', Some m)))"

subsection \<open>Capturing and settling a dispatch\<close>

definition bound_to :: "work_mailbox \<Rightarrow> entity_ref \<Rightarrow> string option" where
  "bound_to m r =
     (case processing m of
        None \<Rightarrow> None
      | Some p \<Rightarrow>
          (case executionRef p of
             None \<Rightarrow> None
           | Some e \<Rightarrow> if mailboxEntityRefKey e = mailboxEntityRefKey r then Some (batchId p) else None))"

definition capture_pending :: "work_mailbox \<Rightarrow> run_identity \<Rightarrow> dispatch_token option" where
  "capture_pending m input =
     (case pending m of
        None \<Rightarrow> None
      | Some b \<Rightarrow>
          if roleRunDispatchDedupeKey input \<in> set (recentDedupeKeys m) then None else
          (case indexOf (roleRunDispatchDedupeKey input) (dedupeKeys b) of
             None \<Rightarrow> None
           | Some keyIndex \<Rightarrow>
               if keys_aligned b \<and> fromSequence b + int keyIndex \<le> toSequence b
               then Some (Pending_token (fromSequence b) (fromSequence b + int keyIndex))
               else None))"

definition captureRoleRunDispatch ::
  "work_mailbox option \<Rightarrow> run_identity \<Rightarrow> dispatch_token option" where
  "captureRoleRunDispatch mailbox input =
     (case mailbox of
        None \<Rightarrow> None
      | Some m \<Rightarrow>
          if mailbox_target m \<noteq> roleRunTarget input then None else
          (case bound_to m (roleRunRef input) of
             Some i \<Rightarrow> Some (Processing_token i)
           | None \<Rightarrow> if run_roleName input = ''leader'' then None else capture_pending m input))"

definition settle_token ::
  "'s store_port \<Rightarrow> 's \<Rightarrow> work_mailbox \<Rightarrow> dispatch_token \<Rightarrow> mailbox_error + 's \<times> dispatch_settlement" where
  "settle_token P s m tok =
     (case tok of
        Processing_token i \<Rightarrow>
          if map_option batchId (processing m) \<noteq> Some i then Inr (s, State_changed) else
          bind_result (completeProcessing m i) (\<lambda>m'.
          bind_result (port_saveWorkMailbox P s m') (\<lambda>s'. Inr (s', Settled)))
      | Pending_token f t \<Rightarrow>
          (case pending m of
             None \<Rightarrow> Inr (s, State_changed)
           | Some b \<Rightarrow>
               if fromSequence b \<noteq> f \<or> toSequence b < t then Inr (s, State_changed) else
               bind_result (consumePendingBatch m (Some (f, t))) (\<lambda>m'.
               bind_result (port_saveWorkMailbox P s m') (\<lambda>s'. Inr (s', Settled)))))"

text \<open>\<open>expected\<close> is \<open>None\<close> when omitted and \<open>Some None\<close> when the caller passes null.\<close>

definition settleRoleRunDispatch ::
  "'s store_port \<Rightarrow> 's \<Rightarrow> run_identity \<Rightarrow> dispatch_token option option \<Rightarrow>
     mailbox_error + 's \<times> dispatch_settlement" where
  "settleRoleRunDispatch P s input expected =
     (if expected = Some None then Inr (s, Absent) else
      bind_result (port_getWorkMailbox P s (roleRunTarget input)) (\<lambda>mailbox.
      case (captureRoleRunDispatch mailbox input, mailbox) of
        (Some current, Some m) \<Rightarrow>
          (case expected of
             Some (Some token) \<Rightarrow>
               if current \<noteq> token then Inr (s, State_changed) else settle_token P s m token
           | _ \<Rightarrow> settle_token P s m current)
      | _ \<Rightarrow> Inr (s, Absent)))"

subsection \<open>Completing an execution\<close>

definition completeWorkExecution ::
  "'s store_port \<Rightarrow> 's \<Rightarrow> mailbox_target \<Rightarrow> entity_ref \<Rightarrow> mailbox_error + 's \<times> bool" where
  "completeWorkExecution P s target r =
     bind_result (port_getWorkMailbox P s target) (\<lambda>mailbox.
     case mailbox of
       None \<Rightarrow> Inr (s, False)
     | Some m \<Rightarrow>
         (case bound_to m r of
            None \<Rightarrow> Inr (s, False)
          | Some i \<Rightarrow>
              bind_result (completeProcessing m i) (\<lambda>m'.
              bind_result (port_saveWorkMailbox P s m') (\<lambda>s'. Inr (s', True)))))"

definition requireCompleteWorkExecution ::
  "'s store_port \<Rightarrow> 's \<Rightarrow> mailbox_target \<Rightarrow> entity_ref \<Rightarrow> mailbox_queue_error + 's" where
  "requireCompleteWorkExecution P s target r =
     bind_result (lift_mailbox (port_getWorkMailbox P s target)) (\<lambda>mailbox.
     case Option.bind mailbox processing of
       None \<Rightarrow> Inl No_processing_execution
     | Some p \<Rightarrow>
         if executionRef p = None then Inl Batch_not_bound else
         bind_result (lift_mailbox (completeWorkExecution P s target r)) (\<lambda>(s', done).
           if done then Inr s' else Inl Execution_mismatch))"

datatype exact_settlement = Exact_processing | Exact_pending | Exact_absent

definition batch_mentions :: "entity_ref \<Rightarrow> pending_batch \<Rightarrow> bool" where
  "batch_mentions r b = (\<exists>e \<in> set (refs b). mailboxEntityRefKey e = mailboxEntityRefKey r)"

definition settle_exact_pending ::
  "'s store_port \<Rightarrow> 's \<Rightarrow> work_mailbox \<Rightarrow> entity_ref \<Rightarrow> mailbox_queue_error + 's \<times> exact_settlement" where
  "settle_exact_pending P s m r =
     (let matching = filter (batch_mentions r) (mailboxBatches m) in
      if matching = [] then Inr (s, Exact_absent)
      else if length matching \<noteq> 1 \<or> requestCount (hd matching) \<noteq> 1 then Inl Merged_pending_batch
      else if pred_option (\<lambda>b. \<not> batch_mentions r b) (pending m) then Inr (s, Exact_absent)
      else bind_result (lift_mailbox (consumePendingBatch m None)) (\<lambda>m'.
           bind_result (lift_mailbox (port_saveWorkMailbox P s m')) (\<lambda>s'. Inr (s', Exact_pending))))"

definition settleExactWorkExecution ::
  "'s store_port \<Rightarrow> 's \<Rightarrow> mailbox_target \<Rightarrow> entity_ref \<Rightarrow> mailbox_queue_error + 's \<times> exact_settlement" where
  "settleExactWorkExecution P s target r =
     bind_result (lift_mailbox (completeWorkExecution P s target r)) (\<lambda>(s', done).
     if done then Inr (s', Exact_processing) else
     bind_result (lift_mailbox (port_getWorkMailbox P s target)) (\<lambda>mailbox.
     case mailbox of
       None \<Rightarrow> Inr (s, Exact_absent)
     | Some m \<Rightarrow> settle_exact_pending P s m r))"

subsection \<open>The mailbox table\<close>

record mailbox_table =
  mailbox_rows :: "(string \<times> work_mailbox) list"
  task_statuses :: "(string \<times> string) list"

definition getWorkMailbox :: "mailbox_table \<Rightarrow> mailbox_target \<Rightarrow> mailbox_error + work_mailbox option" where
  "getWorkMailbox db target =
     bind_result (mailboxTargetKey target) (\<lambda>key.
     case map_of (mailbox_rows db) key of
       None \<Rightarrow> Inr None
     | Some row \<Rightarrow> bind_result (validateWorkMailbox row) (\<lambda>m. Inr (Some m)))"

definition upsert_row :: "(string \<times> work_mailbox) list \<Rightarrow> string \<Rightarrow> work_mailbox \<Rightarrow> (string \<times> work_mailbox) list" where
  "upsert_row rows key m =
     (case map_of rows key of
        None \<Rightarrow> (key, m) # rows
      | Some old \<Rightarrow> AList.update key (m\<lparr>mailbox_target := mailbox_target old\<rparr>) rows)"

definition saveWorkMailbox :: "mailbox_table \<Rightarrow> work_mailbox \<Rightarrow> mailbox_error + mailbox_table" where
  "saveWorkMailbox db mailbox =
     bind_result (validateWorkMailbox mailbox) (\<lambda>validated.
     bind_result (mailboxTargetKey (mailbox_target validated)) (\<lambda>key.
     Inr (db\<lparr>mailbox_rows := upsert_row (mailbox_rows db) key validated\<rparr>)))"

definition removeWorkMailbox :: "mailbox_table \<Rightarrow> mailbox_target \<Rightarrow> mailbox_error + mailbox_table \<times> bool" where
  "removeWorkMailbox db target =
     bind_result (mailboxTargetKey target) (\<lambda>key.
     Inr (db\<lparr>mailbox_rows := AList.delete key (mailbox_rows db)\<rparr>, map_of (mailbox_rows db) key \<noteq> None))"

definition listReadyWorkMailboxes :: "mailbox_table \<Rightarrow> mailbox_error + work_mailbox list" where
  "listReadyWorkMailboxes db =
     map_result validateWorkMailbox
       (filter mailboxHasWork (map snd (sort_key fst (mailbox_rows db))))"

definition table_port :: "mailbox_table store_port" where
  "table_port = \<lparr>port_getWorkMailbox = getWorkMailbox, port_saveWorkMailbox = saveWorkMailbox,
     port_taskStatus = (\<lambda>db. map_of (task_statuses db))\<rparr>"

subsection \<open>What the queue relies on\<close>

locale mailbox_store =
  fixes P :: "'s store_port" and sound :: "'s \<Rightarrow> bool"
  assumes get_sound: "sound s \<Longrightarrow> copyTarget t = Inr t \<Longrightarrow>
      \<exists>r. port_getWorkMailbox P s t = Inr r \<and> (\<forall>m. r = Some m \<longrightarrow> mailbox_inv m \<and> mailbox_target m = t)"
    and save_total: "sound s \<Longrightarrow> mailbox_inv m \<Longrightarrow> \<exists>s'. port_saveWorkMailbox P s m = Inr s'"
    and save_sound: "sound s \<Longrightarrow> mailbox_inv m \<Longrightarrow> port_saveWorkMailbox P s m = Inr s' \<Longrightarrow> sound s'"
    and get_saved: "sound s \<Longrightarrow> mailbox_inv m \<Longrightarrow> port_saveWorkMailbox P s m = Inr s' \<Longrightarrow>
      port_getWorkMailbox P s' (mailbox_target m) = Inr (Some m)"
    and get_other: "sound s \<Longrightarrow> mailbox_inv m \<Longrightarrow> port_saveWorkMailbox P s m = Inr s' \<Longrightarrow>
      copyTarget t = Inr t \<Longrightarrow> t \<noteq> mailbox_target m \<Longrightarrow>
      port_getWorkMailbox P s' t = port_getWorkMailbox P s t"
    and status_kept: "port_saveWorkMailbox P s m = Inr s' \<Longrightarrow> port_taskStatus P s' = port_taskStatus P s"
begin

lemma current_mailbox:
  assumes "sound s" "copyTarget t = Inr t"
  obtains r m where "port_getWorkMailbox P s t = Inr r"
    "(case r of Some m \<Rightarrow> Inr m | None \<Rightarrow> createWorkMailbox t) = Inr m" "mailbox_inv m" "mailbox_target m = t"
proof -
  obtain r where r: "port_getWorkMailbox P s t = Inr r" "\<forall>m. r = Some m \<longrightarrow> mailbox_inv m \<and> mailbox_target m = t"
    using get_sound [OF assms] by blast
  show ?thesis
  proof (cases r)
    case None
    obtain m where "createWorkMailbox t = Inr m" "mailbox_target m = t"
      using assms(2) by (simp add: createWorkMailbox_def)
    then show ?thesis using that [OF r(1), of m] None createWorkMailbox_inv by simp
  next
    case (Some m)
    then show ?thesis using that [OF r(1), of m] r(2) by simp
  qed
qed

lemma enqueueWork_archived:
  assumes "sound s" "copyTarget t = Inr t" "archive_admission P s t"
  shows "\<exists>m. enqueueWork P s t reason at es meta = Inr (s, m)"
  by (rule current_mailbox [OF assms(1,2)]) (use assms(3) in \<open>auto simp: enqueueWork_def\<close>)

lemma enqueueWork_effect:
  assumes "sound s" "copyTarget t = Inr t" "\<not> archive_admission P s t"
    and "enqueueWork P s t reason at es meta = Inr (s', m')"
  shows "sound s' \<and> mailbox_inv m' \<and> port_getWorkMailbox P s' t = Inr (Some m') \<and>
    (\<forall>u. copyTarget u = Inr u \<and> u \<noteq> t \<longrightarrow> port_getWorkMailbox P s' u = port_getWorkMailbox P s u)"
proof -
  obtain r m where r: "port_getWorkMailbox P s t = Inr r"
    "(case r of Some m \<Rightarrow> Inr m | None \<Rightarrow> createWorkMailbox t) = Inr m" "mailbox_inv m" "mailbox_target m = t"
    by (rule current_mailbox [OF assms(1,2)])
  from assms(3,4) r obtain sg where "enqueueSignal m sg = Inr m'" and save: "port_saveWorkMailbox P s m' = Inr s'"
    by (auto simp: enqueueWork_def bind_result_Inr)
  then have m': "mailbox_inv m'" "mailbox_target m' = t"
    using mailbox_step_inv [OF r(3), of "Enqueue sg" m'] r(4) by simp_all
  then show ?thesis
    using save_sound [OF assms(1) m'(1) save] get_saved [OF assms(1) m'(1) save] get_other [OF assms(1) m'(1) save]
    by simp
qed

lemma settle_token_effect:
  assumes "sound s" "mailbox_inv m" "settle_token P s m tok = Inr (s', Settled)"
  shows "\<exists>m'. sound s' \<and> mailbox_inv m' \<and> mailbox_target m' = mailbox_target m \<and>
    port_getWorkMailbox P s' (mailbox_target m) = Inr (Some m') \<and>
    (case tok of Processing_token i \<Rightarrow> completeProcessing m i = Inr m'
     | Pending_token f t \<Rightarrow> consumePendingBatch m (Some (f, t)) = Inr m')"
proof -
  obtain m' c where m': "mailbox_step c m = Inr m'" "port_saveWorkMailbox P s m' = Inr s'"
    and c: "c = (case tok of Processing_token i \<Rightarrow> Complete i | Pending_token f t \<Rightarrow> Consume (Some (f, t)))"
    using assms(3) by (auto simp: settle_token_def bind_result_Inr
        split: dispatch_token.splits option.splits if_splits)
  have inv': "mailbox_inv m'" "mailbox_target m' = mailbox_target m"
    using mailbox_step_inv [OF assms(2) m'(1)] by auto
  then show ?thesis
    using save_sound [OF assms(1) inv'(1) m'(2)] get_saved [OF assms(1) inv'(1) m'(2)] m'(1) c
    by (intro exI [of _ m']) (auto split: dispatch_token.splits)
qed

end

subsection \<open>The table is such a store\<close>

definition table_sound :: "mailbox_table \<Rightarrow> bool" where
  "table_sound db \<longleftrightarrow>
     distinct (map fst (mailbox_rows db)) \<and>
     (\<forall>(k, m) \<in> set (mailbox_rows db). mailbox_inv m \<and> k = target_key (mailbox_target m))"

lemma copyTarget_target: "mailbox_inv m \<Longrightarrow> copyTarget (mailbox_target m) = Inr (mailbox_target m)"
  by (simp add: mailbox_inv_def mailbox_ok_def)

lemma table_row:
  "table_sound db \<Longrightarrow> map_of (mailbox_rows db) k = Some m \<Longrightarrow> mailbox_inv m \<and> k = target_key (mailbox_target m)"
  by (auto simp: table_sound_def dest: map_of_SomeD)

lemma upsert_row_sound:
  assumes "table_sound db" "mailbox_inv m"
  defines "rows \<equiv> upsert_row (mailbox_rows db) (target_key (mailbox_target m)) m"
  shows "map_of rows = (map_of (mailbox_rows db))(target_key (mailbox_target m) \<mapsto> m)"
    "distinct (map fst rows)"
proof -
  have "m\<lparr>mailbox_target := mailbox_target old\<rparr> = m"
    if "map_of (mailbox_rows db) (target_key (mailbox_target m)) = Some old" for old
    using table_row [OF assms(1) that] by (simp add: target_key_inject)
  then show "map_of rows = (map_of (mailbox_rows db))(target_key (mailbox_target m) \<mapsto> m)"
    by (auto simp: rows_def upsert_row_def update_conv' split: option.splits)
  show "distinct (map fst rows)"
    using assms(1) by (auto simp: rows_def upsert_row_def table_sound_def distinct_update map_of_eq_None_iff
        split: option.splits)
qed

lemma saveWorkMailbox_ok:
  assumes "table_sound db" "mailbox_inv m"
  obtains db' where "saveWorkMailbox db m = Inr db'" "table_sound db'"
    "map_of (mailbox_rows db') = (map_of (mailbox_rows db))(target_key (mailbox_target m) \<mapsto> m)"
    "task_statuses db' = task_statuses db"
proof -
  define db' where "db' = db\<lparr>mailbox_rows := upsert_row (mailbox_rows db) (target_key (mailbox_target m)) m\<rparr>"
  note u = upsert_row_sound [OF assms]
  have "saveWorkMailbox db m = Inr db'"
    using assms(2) by (simp add: saveWorkMailbox_def mailbox_inv_valid mailboxTargetKey_def copyTarget_target db'_def)
  moreover have "mailbox_inv n \<and> k = target_key (mailbox_target n)"
    if "map_of (mailbox_rows db') k = Some n" for k n
    using that u(1) assms(2) table_row [OF assms(1)] by (auto simp: db'_def split: if_splits)
  then have "table_sound db'"
    using u(2) by (auto simp: table_sound_def db'_def)
  ultimately show ?thesis using that u(1) by (simp add: db'_def)
qed

lemma getWorkMailbox_row:
  assumes "table_sound db" "copyTarget t = Inr t"
  shows "getWorkMailbox db t = Inr (map_of (mailbox_rows db) (target_key t))"
proof (cases "map_of (mailbox_rows db) (target_key t)")
  case None
  then show ?thesis using assms(2) by (simp add: getWorkMailbox_def mailboxTargetKey_def)
next
  case (Some m)
  then have "mailbox_inv m" using table_row [OF assms(1)] by blast
  then show ?thesis
    using assms(2) Some by (simp add: getWorkMailbox_def mailboxTargetKey_def mailbox_inv_valid)
qed

lemma table_port_fields [simp]:
  "port_getWorkMailbox table_port = getWorkMailbox" "port_saveWorkMailbox table_port = saveWorkMailbox"
  "port_taskStatus table_port db = map_of (task_statuses db)"
  by (simp_all add: table_port_def)

interpretation table: mailbox_store table_port table_sound
proof unfold_locales
  fix s t m s'
  assume s: "table_sound s"
  show "\<exists>r. port_getWorkMailbox table_port s t = Inr r \<and> (\<forall>m. r = Some m \<longrightarrow> mailbox_inv m \<and> mailbox_target m = t)"
    if "copyTarget t = Inr t"
    using getWorkMailbox_row [OF s that] table_row [OF s, of "target_key t"] by (auto simp: target_key_inject)
  assume m: "mailbox_inv m"
  obtain db' where db': "saveWorkMailbox s m = Inr db'" "table_sound db'"
    "map_of (mailbox_rows db') = (map_of (mailbox_rows s))(target_key (mailbox_target m) \<mapsto> m)"
    by (rule saveWorkMailbox_ok [OF s m])
  then show "\<exists>s'. port_saveWorkMailbox table_port s m = Inr s'" by simp
  assume "port_saveWorkMailbox table_port s m = Inr s'"
  with db' have s': "s' = db'" by simp
  then show "table_sound s'" using db' by simp
  show "port_getWorkMailbox table_port s' (mailbox_target m) = Inr (Some m)"
    using getWorkMailbox_row [OF db'(2) copyTarget_target [OF m]] db'(3) s' by simp
  show "port_getWorkMailbox table_port s' t = port_getWorkMailbox table_port s t"
    if "copyTarget t = Inr t" "t \<noteq> mailbox_target m"
    using getWorkMailbox_row [OF db'(2) that(1)] getWorkMailbox_row [OF s that(1)] db'(3) s' that(2)
    by (simp add: target_key_inject)
next
  fix s m s'
  assume "port_saveWorkMailbox table_port s m = Inr s'"
  then show "port_taskStatus table_port s' = port_taskStatus table_port s"
    by (auto simp: saveWorkMailbox_def bind_result_Inr table_port_def)
qed

subsection \<open>Contiguous batches\<close>

text \<open>
  A pending batch is contiguous when it has one dedupe key per sequence number. Only then the
  position of a key determines its sequence number, which is what a dispatch token records.
\<close>

definition contiguous :: "pending_batch \<Rightarrow> bool" where
  "contiguous b \<longleftrightarrow> keys_aligned b \<and> requestCount b = toSequence b - fromSequence b + 1"

definition dense :: "work_mailbox \<Rightarrow> bool" where
  "dense m \<longleftrightarrow> (case pending m of None \<Rightarrow> True | Some b \<Rightarrow> contiguous b \<and> toSequence b = nextSequence m - 1)"

lemma indexOf_Some:
  "indexOf k xs = Some i \<Longrightarrow> i < length xs \<and> xs ! i = k \<and> k \<notin> set (take i xs)"
  by (induction xs arbitrary: i) (auto split: if_splits)

lemma indexOf_mem: "k \<in> set xs \<Longrightarrow> \<exists>i. indexOf k xs = Some i"
  by (induction xs) auto

lemma indexOf_append_left: "indexOf k xs = Some i \<Longrightarrow> indexOf k (xs @ ys) = Some i"
  by (induction xs arbitrary: i) (auto split: if_splits)

lemma queue_incoming_dense:
  assumes inv: "mailbox_inv m" and d: "dense m" and inc: "single_batch (nextSequence m) key inc"
    and new: "\<not> mailboxContainsDedupeKey m key"
  shows "dense (queue_incoming m inc)"
    and "pending m = Some b \<Longrightarrow> \<exists>c. pending (queue_incoming m inc) = Some c \<and> contiguous c \<and>
      fromSequence c = fromSequence b \<and> dedupeKeys c = dedupeKeys b @ [key] \<and>
      toSequence c = toSequence b + 1"
proof -
  have merged: "\<exists>c. pending (queue_incoming m inc) = Some c \<and> contiguous c \<and> fromSequence c = fromSequence b \<and>
      dedupeKeys c = dedupeKeys b @ [key] \<and> toSequence c = toSequence b + 1" if b: "pending m = Some b" for b
  proof -
    have bok: "batch_ok b" "batch_ok inc" "toSequence b < fromSequence inc" "toSequence b + 1 = nextSequence m"
      using mailbox_inv_parts(1) [OF inv b] inc d b by (auto simp: single_batch_def dense_def)
    note f = mergeBatches_fields [OF bok(1-3)]
    have "set (dedupeKeys b) \<inter> set (dedupeKeys inc) = {}"
      using new inc b by (auto simp: single_batch_def mailboxContainsDedupeKey_def)
    then show ?thesis
      using f b d inc bok(4)
      by (auto simp: queue_incoming_def merge_pending_def single_batch_def dense_def contiguous_def keys_aligned_def)
  qed
  show "pending m = Some b \<Longrightarrow> \<exists>c. pending (queue_incoming m inc) = Some c \<and> contiguous c \<and>
      fromSequence c = fromSequence b \<and> dedupeKeys c = dedupeKeys b @ [key] \<and>
      toSequence c = toSequence b + 1" by (rule merged)
  show "dense (queue_incoming m inc)"
  proof (cases "pending m")
    case None
    then show ?thesis
      using inc by (simp add: dense_def queue_incoming_def merge_pending_def single_batch_def contiguous_def
          keys_aligned_def)
  next
    case (Some b)
    with merged [OF Some] d show ?thesis by (auto simp: dense_def queue_incoming_def)
  qed
qed

lemma enqueueSignal_dense:
  assumes inv: "mailbox_inv m" and d: "dense m" and run: "enqueueSignal m s = Inr m'"
  shows "dense m'"
proof (cases rule: enqueueSignal_result [OF inv run])
  case (1 key)
  then show ?thesis using d by simp
next
  case (2 key inc)
  then show ?thesis using queue_incoming_dense(1) [OF inv d 2(3,2)] by simp
qed

lemma consume_prefix_contiguous:
  assumes "contiguous b" "fromSequence b \<le> t" "t < toSequence b"
  shows "\<exists>c. pending (consume_prefix m b (fromSequence b) t) = Some c \<and> contiguous c \<and>
    fromSequence c = t + 1 \<and> toSequence c = toSequence b \<and>
    dedupeKeys c = drop (nat (t - fromSequence b + 1)) (dedupeKeys b)"
  using assms by (auto simp: consume_prefix_def Let_def contiguous_def keys_aligned_def)

text \<open>A pending token always covers exactly the keys up to its dispatch.\<close>

lemma capture_pending_Some:
  assumes "capture_pending m input = Some tok"
  obtains b i where "pending m = Some b" "indexOf (roleRunDispatchDedupeKey input) (dedupeKeys b) = Some i"
    "keys_aligned b" "fromSequence b + int i \<le> toSequence b"
    "tok = Pending_token (fromSequence b) (fromSequence b + int i)"
    "roleRunDispatchDedupeKey input \<notin> set (recentDedupeKeys m)"
  using assms by (auto simp: capture_pending_def split: option.splits if_splits)

definition pending_dedupe_keys :: "work_mailbox \<Rightarrow> string list" where
  "pending_dedupe_keys m = (case pending m of None \<Rightarrow> [] | Some b \<Rightarrow> dedupeKeys b)"

lemma capture_Some:
  assumes "captureRoleRunDispatch (Some m) input = Some (Pending_token f t)"
  shows "mailbox_target m = roleRunTarget input" "bound_to m (roleRunRef input) = None"
    "run_roleName input \<noteq> ''leader''" "capture_pending m input = Some (Pending_token f t)"
  using assms by (auto simp: captureRoleRunDispatch_def split: if_splits option.splits)

lemma capture_I:
  assumes "mailbox_target m = roleRunTarget input" "bound_to m (roleRunRef input) = None"
    "run_roleName input \<noteq> ''leader''" "pending m = Some b" "keys_aligned b"
    "indexOf (roleRunDispatchDedupeKey input) (dedupeKeys b) = Some i" "fromSequence b + int i \<le> toSequence b"
    "roleRunDispatchDedupeKey input \<notin> set (recentDedupeKeys m)"
  shows "captureRoleRunDispatch (Some m) input = Some (Pending_token (fromSequence b) (fromSequence b + int i))"
  using assms by (simp add: captureRoleRunDispatch_def capture_pending_def)

lemma bound_to_processing: "processing m' = processing m \<Longrightarrow> bound_to m' = bound_to m"
  by (simp add: bound_to_def fun_eq_iff)

lemma capture_append:
  assumes inv: "mailbox_inv m" and d: "dense m"
    and cap: "captureRoleRunDispatch (Some m) input = Some (Pending_token f t)"
    and run: "enqueueSignal m s = Inr m1"
  obtains b i where "captureRoleRunDispatch (Some m1) input = Some (Pending_token f t)"
    "pending m1 = Some b" "contiguous b" "f = fromSequence b" "t = fromSequence b + int i"
    "indexOf (roleRunDispatchDedupeKey input) (dedupeKeys b) = Some i" "mailbox_target m1 = roleRunTarget input"
    "\<exists>ks. pending_dedupe_keys m1 = pending_dedupe_keys m @ ks"
proof -
  note c = capture_Some [OF cap]
  obtain b i where b: "pending m = Some b" "indexOf (roleRunDispatchDedupeKey input) (dedupeKeys b) = Some i"
    "fromSequence b + int i \<le> toSequence b" and tok: "f = fromSequence b" "t = fromSequence b + int i"
    and fresh: "roleRunDispatchDedupeKey input \<notin> set (recentDedupeKeys m)"
    by (rule capture_pending_Some [OF c(4)]) auto
  have cb: "contiguous b" using d b(1) by (simp add: dense_def)
  show ?thesis
  proof (cases rule: enqueueSignal_result [OF inv run])
    case (1 key)
    then show ?thesis using that [of b i] cap b cb tok c(1) by simp
  next
    case (2 key inc)
    obtain b1 where b1: "pending m1 = Some b1" "contiguous b1" "fromSequence b1 = fromSequence b"
      "dedupeKeys b1 = dedupeKeys b @ [key]" "toSequence b1 = toSequence b + 1"
      using queue_incoming_dense(2) [OF inv d 2(3,2) b(1)] 2(4) by blast
    have idx: "indexOf (roleRunDispatchDedupeKey input) (dedupeKeys b1) = Some i"
      by (simp add: b1(4) indexOf_append_left b(2))
    have m1: "mailbox_target m1 = mailbox_target m" "processing m1 = processing m"
      "recentDedupeKeys m1 = recentDedupeKeys m" using 2(4) by (simp_all add: queue_incoming_def)
    have "captureRoleRunDispatch (Some m1) input = Some (Pending_token (fromSequence b1) (fromSequence b1 + int i))"
      using c b b1 idx fresh m1 bound_to_processing [OF m1(2)]
      by (intro capture_I) (auto simp: contiguous_def)
    moreover have "pending_dedupe_keys m1 = pending_dedupe_keys m @ [key]" using b(1) b1(1,4) by (simp add: pending_dedupe_keys_def)
    ultimately show ?thesis using that [OF _ b1(1,2)] idx b1(3) tok m1(1) c(1) by simp
  qed
qed

lemma consume_captured:
  assumes inv: "mailbox_inv m" and b: "pending m = Some b" "contiguous b" and i: "i < length (dedupeKeys b)"
  shows "\<exists>m2. consumePendingBatch m (Some (fromSequence b, fromSequence b + int i)) = Inr m2 \<and>
    pending_dedupe_keys m2 = drop (Suc i) (dedupeKeys b) \<and>
    recentDedupeKeys m2 = rememberDedupeKeys (recentDedupeKeys m) (take (Suc i) (dedupeKeys b)) \<and> dedupeKeys b ! i \<in> set (recentDedupeKeys m2)"
proof -
  let ?t = "fromSequence b + int i"
  have len: "int (length (dedupeKeys b)) = toSequence b - fromSequence b + 1"
    using b(2) by (simp add: contiguous_def keys_aligned_def)
  obtain m2 where m2: "consumePendingBatch m (Some (fromSequence b, ?t)) = Inr m2"
    using consumePendingBatch_total [OF inv b(1), of "Some (fromSequence b, ?t)"] len i by auto
  have disj: "set (dedupeKeys b) \<inter> set (recentDedupeKeys m) = {}" "distinct (dedupeKeys b)"
    using inv b(1) by (auto simp: mailbox_defs batch_ok_def texts_ok_def)
  let ?K = "rememberDedupeKeys (recentDedupeKeys m) (take (Suc i) (dedupeKeys b))"
  have "take (Suc i) (dedupeKeys b) = take i (dedupeKeys b) @ [dedupeKeys b ! i]" using i by (simp add: take_Suc_conv_app_nth)
  moreover have "distinct (take (Suc i) (dedupeKeys b))" using disj(2) by (rule distinct_take)
  moreover have "dedupeKeys b ! i \<notin> set (recentDedupeKeys m)" "set (take i (dedupeKeys b)) \<inter> set (recentDedupeKeys m) = {}"
    using disj(1) nth_mem [OF i] set_take_subset [of i "dedupeKeys b"] by blast+
  ultimately have keeps: "dedupeKeys b ! i \<in> set ?K" using remember_last by metis
  show ?thesis
  proof (cases rule: consumePendingBatch_result [OF inv m2])
    case (1 b')
    then have "Suc i = length (dedupeKeys b)" using b(1) len by auto
    then show ?thesis
      using 1 m2 b(1) keeps by (simp add: pending_dedupe_keys_def consume_all_def)
  next
    case (2 b' t)
    then have "nat (t - fromSequence b + 1) = Suc i" "b' = b" "t = ?t" using b(1) by auto
    then show ?thesis
      using 2 m2 b keeps
      by (simp add: pending_dedupe_keys_def consume_prefix_def contiguous_def)
  qed
qed

subsection \<open>A concrete store\<close>

definition demo_run :: run_identity where
  "demo_run = \<lparr>run_taskId = ''t'', run_roleName = ''coder'', run_runId = ''run-1''\<rparr>"

definition demo_dispatch_mailbox :: work_mailbox where
  "demo_dispatch_mailbox = \<lparr>mailbox_target = Role_target ''t'' ''coder'', nextSequence = 2, processing = None,
     pending = Some (incoming_batch 1 ''wake'' [] ''2024-01-01T00:00:00.000Z'' ''yui'' ''role-turn:t:coder:run-1'' None),
     recentDedupeKeys = []\<rparr>"

definition demo_table :: mailbox_table where
  "demo_table = \<lparr>mailbox_rows = [(''role/t/coder'', demo_dispatch_mailbox)],
     task_statuses = [(''t'', ''active''), (''old'', ''archived'')]\<rparr>"

definition demo_meta :: signal_metadata where
  "demo_meta = \<lparr>meta_source = None, meta_dedupeKey = Some ''b'', meta_factRevision = None\<rparr>"

lemma demo_dispatch_inv: "mailbox_inv demo_dispatch_mailbox"
proof -
  have tx: "text_ok ''role-turn:t:coder:run-1''" "text_ok ''t''" "text_ok ''coder''"
    by (simp_all add: text_ok_def requireText_def trim_def has_nul_def is_space_def unit_of_def)
  have "batch_ok (incoming_batch 1 ''wake'' [] ''2024-01-01T00:00:00.000Z'' ''yui'' ''role-turn:t:coder:run-1'' None)"
    by (rule incoming_batch_ok) (simp_all add: demo_texts tx text_ok_yui stamp_ok_def demo_date revision_ok_def)
  then show ?thesis
    using tx by (simp add: mailbox_defs demo_dispatch_mailbox_def texts_ok_def) (simp add: incoming_batch_def)
qed

lemma demo_table_sound: "table_sound demo_table"
proof -
  have "target_key (Role_target ''t'' ''coder'') = ''role/t/coder''" by code_simp
  then show ?thesis
    using demo_dispatch_inv by (simp add: table_sound_def demo_table_def) (simp add: demo_dispatch_mailbox_def)
qed

lemma demo_run_target: "copyTarget (roleRunTarget demo_run) = Inr (roleRunTarget demo_run)"
  by code_simp

lemma demo_dispatch_dense: "dense demo_dispatch_mailbox"
  by (simp add: dense_def demo_dispatch_mailbox_def incoming_batch_def contiguous_def keys_aligned_def)

lemma demo_get: "getWorkMailbox demo_table (roleRunTarget demo_run) = Inr (Some demo_dispatch_mailbox)"
  using getWorkMailbox_row [OF demo_table_sound demo_run_target] by code_simp

lemma demo_capture: "captureRoleRunDispatch (Some demo_dispatch_mailbox) demo_run = Some (Pending_token 1 1)"
  by code_simp

lemma demo_enqueue:
  "\<exists>db1 m1. enqueueWork table_port demo_table (roleRunTarget demo_run) ''wake''
     (Iso_text ''2024-01-01T00:00:00.000Z'') [] demo_meta = Inr (db1, m1) \<and> length (pending_dedupe_keys m1) = 2"
proof -
  let ?s = "demo_signal ''b''"
  have s: "\<lparr>sig_reason = ''wake'', sig_refs = [], sig_occurredAt = ''2024-01-01T00:00:00.000Z'',
      sig_source = meta_source demo_meta, sig_dedupeKey = meta_dedupeKey demo_meta,
      sig_factRevision = meta_factRevision demo_meta\<rparr> = ?s" by (simp add: demo_signal_def demo_meta_def)
  obtain m1 where m1: "enqueueSignal demo_dispatch_mailbox ?s = Inr m1"
    using enqueueSignal_total [OF demo_dispatch_inv demo_signal_wf [OF demo_texts(3)]] by blast
  have len: "length (pending_dedupe_keys m1) = 2"
  proof (cases rule: enqueueSignal_result [OF demo_dispatch_inv m1])
    case (1 key)
    then show ?thesis
      by (auto simp: demo_signal_def signal_key_def demo_texts mailboxContainsDedupeKey_def demo_dispatch_mailbox_def
          incoming_batch_def)
  next
    case (2 key inc)
    then have "active_keys m1 = dedupeKeys (the (pending m1))"
      by (simp add: queue_incoming_def active_keys_def mailboxBatches_def demo_dispatch_mailbox_def)
    moreover have "length (active_keys m1) = 2"
      using 2 by (simp add: demo_dispatch_mailbox_def active_keys_def mailboxBatches_def incoming_batch_def)
    ultimately show ?thesis using 2 by (simp add: pending_dedupe_keys_def queue_incoming_def)
  qed
  have "mailbox_inv m1" using mailbox_step_inv [OF demo_dispatch_inv, of "Enqueue ?s"] m1 by simp
  then obtain db1 where "saveWorkMailbox demo_table m1 = Inr db1"
    by (rule saveWorkMailbox_ok [OF demo_table_sound])
  moreover have "\<not> archive_admission table_port demo_table (roleRunTarget demo_run)"
    by (simp add: roleRunTarget_def demo_run_def demo_table_def)
  ultimately show ?thesis
    using m1 len demo_get by (simp add: enqueueWork_def s)
qed

subsection \<open>Properties\<close>

lemma settled_again:
  assumes "table_sound db" "copyTarget (roleRunTarget input) = Inr (roleRunTarget input)"
    and "getWorkMailbox db (roleRunTarget input) = Inr (Some m)" "bound_to m (roleRunRef input) = None"
    and "roleRunDispatchDedupeKey input \<in> set (recentDedupeKeys m)"
  shows "settleRoleRunDispatch table_port db input None = Inr (db, Absent)"
proof -
  have "captureRoleRunDispatch (Some m) input = None"
    using assms(4,5) by (simp add: captureRoleRunDispatch_def capture_pending_def split: option.splits)
  then show ?thesis using assms(3) by (simp add: settleRoleRunDispatch_def)
qed

text \<open>Signals that arrive one after the other in a mailbox of the store.\<close>

fun enqueue_all ::
  "mailbox_table \<Rightarrow> mailbox_target \<Rightarrow> (string \<times> moment \<times> entity_ref list \<times> signal_metadata) list \<Rightarrow> mailbox_error + mailbox_table" where
  "enqueue_all db target [] = Inr db"
| "enqueue_all db target ((reason, at, es, meta) # ws) =
     bind_result (enqueueWork table_port db target reason at es meta) (\<lambda>(db', _). enqueue_all db' target ws)"

lemma enqueueWork_captured:
  assumes sound: "table_sound db" and t: "copyTarget (roleRunTarget input) = Inr (roleRunTarget input)"
    and m: "getWorkMailbox db (roleRunTarget input) = Inr (Some m)" "dense m"
    and cap: "captureRoleRunDispatch (Some m) input = Some (Pending_token f u)"
    and run: "enqueueWork table_port db (roleRunTarget input) reason at es meta = Inr (db1, m1)"
  shows "table_sound db1 \<and> getWorkMailbox db1 (roleRunTarget input) = Inr (Some m1) \<and> dense m1 \<and>
    captureRoleRunDispatch (Some m1) input = Some (Pending_token f u) \<and> (\<exists>ks. pending_dedupe_keys m1 = pending_dedupe_keys m @ ks)"
proof (cases "archive_admission table_port db (roleRunTarget input)")
  case True
  then have "db1 = db" "m1 = m" using run m(1) by (auto simp: enqueueWork_def bind_result_Inr)
  then show ?thesis using sound m cap by simp
next
  case False
  have inv: "mailbox_inv m" using table.get_sound [OF sound t] m(1) by auto
  have e: "table_sound db1" "getWorkMailbox db1 (roleRunTarget input) = Inr (Some m1)"
    using table.enqueueWork_effect [OF sound t False run] by auto
  obtain sg where sg: "enqueueSignal m sg = Inr m1" using m(1) False run by (auto simp: enqueueWork_def bind_result_Inr)
  show ?thesis using e enqueueSignal_dense [OF inv m(2) sg] capture_append [OF inv m(2) cap sg] by metis
qed

lemma enqueue_all_captured:
  assumes "table_sound db" and t: "copyTarget (roleRunTarget input) = Inr (roleRunTarget input)"
    and "getWorkMailbox db (roleRunTarget input) = Inr (Some m)" "dense m"
    and "captureRoleRunDispatch (Some m) input = Some (Pending_token f u)" "enqueue_all db (roleRunTarget input) ws = Inr db1"
  shows "\<exists>m1 ks. table_sound db1 \<and> getWorkMailbox db1 (roleRunTarget input) = Inr (Some m1) \<and> dense m1 \<and>
    captureRoleRunDispatch (Some m1) input = Some (Pending_token f u) \<and> pending_dedupe_keys m1 = pending_dedupe_keys m @ ks"
  using assms
proof (induction ws arbitrary: db m)
  case (Cons w ws)
  obtain reason at es meta where w: "w = (reason, at, es, meta)" by (cases w) auto
  from Cons.prems(6) obtain db2 m2 where run: "enqueueWork table_port db (roleRunTarget input) reason at es meta = Inr (db2, m2)"
    "enqueue_all db2 (roleRunTarget input) ws = Inr db1" by (auto simp: w bind_result_Inr)
  note e = enqueueWork_captured [OF Cons.prems(1-5) run(1)]
  then obtain ks where "pending_dedupe_keys m2 = pending_dedupe_keys m @ ks" by blast
  with Cons.IH [of db2 m2] e t run(2) show ?case by fastforce
qed auto

text \<open>
  C5. Settling a captured Role dispatch is exact, for a mailbox that numbers its pending signals
  without gaps. A token captured before any number of later signals arrive still settles: it consumes the
  signals up to and including the dispatch, keeps every later one pending in order, adds the
  consumed keys to the remembered ones, of which the newest 256 are kept, the key of the dispatch among them, and a
  second settlement finds nothing. Without the condition on the numbering the claim fails, as the run with a gap at the
  end of this theory shows.
\<close>

theorem dispatch_settled_exactly:
  assumes "table_sound db" "copyTarget (roleRunTarget input) = Inr (roleRunTarget input)"
    and "getWorkMailbox db (roleRunTarget input) = Inr (Some m)" "dense m"
    and "captureRoleRunDispatch (Some m) input = Some (Pending_token f t)"
    and "enqueue_all db (roleRunTarget input) ws = Inr db1"
  shows "\<exists>m1 db2 m2 before rest added. getWorkMailbox db1 (roleRunTarget input) = Inr (Some m1) \<and>
    settleRoleRunDispatch table_port db1 input (Some (Some (Pending_token f t))) = Inr (db2, Settled) \<and>
    getWorkMailbox db2 (roleRunTarget input) = Inr (Some m2) \<and>
    pending_dedupe_keys m = before @ roleRunDispatchDedupeKey input # rest \<and>
    pending_dedupe_keys m1 = pending_dedupe_keys m @ added \<and> pending_dedupe_keys m2 = rest @ added \<and>
    recentDedupeKeys m2 = rememberDedupeKeys (recentDedupeKeys m1) (before @ [roleRunDispatchDedupeKey input]) \<and>
    roleRunDispatchDedupeKey input \<in> set (recentDedupeKeys m2) \<and>
    settleRoleRunDispatch table_port db2 input None = Inr (db2, Absent)"
proof -
  let ?T = "roleRunTarget input" and ?k = "roleRunDispatchDedupeKey input"
  obtain m1 added where e: "table_sound db1" "getWorkMailbox db1 ?T = Inr (Some m1)" "dense m1"
    and c: "captureRoleRunDispatch (Some m1) input = Some (Pending_token f t)" and added: "pending_dedupe_keys m1 = pending_dedupe_keys m @ added"
    using enqueue_all_captured [OF assms] by blast
  have inv: "mailbox_inv m1" using table.get_sound [OF e(1) assms(2)] e(2) by auto
  obtain b0 i where b0: "pending m = Some b0" "indexOf ?k (dedupeKeys b0) = Some i" "t = f + int i"
    by (rule capture_pending_Some [OF capture_Some(4) [OF assms(5)]]) auto
  obtain b j where b: "pending m1 = Some b" "f = fromSequence b" "t = fromSequence b + int j"
    by (rule capture_pending_Some [OF capture_Some(4) [OF c]]) auto
  have cb: "contiguous b" using e(3) b(1) by (simp add: dense_def)
  note ix = indexOf_Some [OF b0(2)]
  have keys: "dedupeKeys b = dedupeKeys b0 @ added" using added b(1) b0(1) by (simp add: pending_dedupe_keys_def)
  then have i: "i < length (dedupeKeys b)" "dedupeKeys b ! i = ?k" using ix by (auto simp: nth_append)
  let ?before = "take i (dedupeKeys b0)" and ?rest = "drop (Suc i) (dedupeKeys b0)"
  have parts: "dedupeKeys b0 = ?before @ ?k # ?rest" "take (Suc i) (dedupeKeys b) = ?before @ [?k]" "drop (Suc i) (dedupeKeys b) = ?rest @ added"
    using ix keys by (simp_all add: take_Suc_conv_app_nth) (metis id_take_nth_drop)
  have len: "int (length (dedupeKeys b)) = toSequence b - fromSequence b + 1" using cb by (simp add: contiguous_def keys_aligned_def)
  have tf: "t = fromSequence b + int i" using b(2) b0(3) by simp
  then have fit: "\<not> toSequence b < t" using len i(1) by linarith
  obtain m2 where m2: "consumePendingBatch m1 (Some (f, t)) = Inr m2" "pending_dedupe_keys m2 = ?rest @ added"
    "recentDedupeKeys m2 = rememberDedupeKeys (recentDedupeKeys m1) (?before @ [?k])" "?k \<in> set (recentDedupeKeys m2)"
    using consume_captured [OF inv b(1) cb i(1)] i(2) parts tf b(2) by auto
  have m2i: "mailbox_inv m2" "mailbox_target m2 = ?T"
    using mailbox_step_inv [OF inv, of "Consume (Some (f, t))" m2] m2(1) capture_Some(1) [OF c] by auto
  obtain db2 where db2: "saveWorkMailbox db1 m2 = Inr db2" "table_sound db2" by (rule saveWorkMailbox_ok [OF e(1) m2i(1)])
  have get2: "getWorkMailbox db2 ?T = Inr (Some m2)" using table.get_saved [OF e(1) m2i(1)] db2(1) m2i(2) by simp
  have settle: "settleRoleRunDispatch table_port db1 input (Some (Some (Pending_token f t))) = Inr (db2, Settled)"
    using c b(1,2) e(2) m2(1) db2(1) fit by (simp add: settleRoleRunDispatch_def settle_token_def)
  have "processing m2 = processing m1"
    by (rule consumePendingBatch_result [OF inv m2(1)]) (simp_all add: consume_all_def consume_prefix_def Let_def)
  then have "bound_to m2 (roleRunRef input) = None" using capture_Some(2) [OF c] bound_to_processing by metis
  then have "settleRoleRunDispatch table_port db2 input None = Inr (db2, Absent)"
    using settled_again [OF db2(2) assms(2) get2] m2(4) by simp
  moreover have "pending_dedupe_keys m = ?before @ ?k # ?rest" using parts(1) b0(1) by (simp add: pending_dedupe_keys_def)
  ultimately show ?thesis using settle get2 m2 e(2) added by blast
qed

lemma dispatch_settled_exactly_witness:
  "\<exists>db1 db2. enqueue_all demo_table (roleRunTarget demo_run) [(''wake'', Iso_text ''2024-01-01T00:00:00.000Z'', [], demo_meta)] = Inr db1 \<and>
     settleRoleRunDispatch table_port db1 demo_run (Some (Some (Pending_token 1 1))) = Inr (db2, Settled) \<and>
     settleRoleRunDispatch table_port db2 demo_run None = Inr (db2, Absent)"
proof -
  obtain db1 where e: "enqueue_all demo_table (roleRunTarget demo_run) [(''wake'', Iso_text ''2024-01-01T00:00:00.000Z'', [], demo_meta)] = Inr db1"
    using demo_enqueue by auto
  from dispatch_settled_exactly [OF demo_table_sound demo_run_target demo_get demo_dispatch_dense demo_capture e] e
  show ?thesis by blast
qed

text \<open>
  Archiving a Task closes its mailboxes to new work: a signal for the Task or one of its Roles
  leaves the store as it was, while the runtime mailboxes stay open. When a signal is accepted, it
  is stored under its own target and no other mailbox changes.
\<close>

theorem enqueue_admission:
  assumes "table_sound db" "copyTarget t = Inr t"
  shows "if archive_admission table_port db t
    then \<exists>m. enqueueWork table_port db t reason at es meta = Inr (db, m)
    else \<forall>db' m. enqueueWork table_port db t reason at es meta = Inr (db', m) \<longrightarrow>
      table_sound db' \<and> getWorkMailbox db' t = Inr (Some m) \<and>
      (\<forall>u. copyTarget u = Inr u \<and> u \<noteq> t \<longrightarrow> getWorkMailbox db' u = getWorkMailbox db u)"
  using table.enqueueWork_archived [OF assms] table.enqueueWork_effect [OF assms] by auto

lemma enqueue_admission_witness:
  "archive_admission table_port demo_table (Task_target ''old'') \<and>
   (\<exists>m. enqueueWork table_port demo_table (Task_target ''old'') ''wake'' (Date_value 0) [] demo_meta = Inr (demo_table, m))"
proof -
  have "copyTarget (Task_target ''old'') = Inr (Task_target ''old'')" by code_simp
  moreover have "archive_admission table_port demo_table (Task_target ''old'')" by (simp add: demo_table_def)
  ultimately show ?thesis using enqueue_admission [OF demo_table_sound] by metis
qed

text \<open>
  Settling an exact execution never discards other work: it consumes the pending batch only
  when that batch is a single request that mentions the execution and no other batch does, and it
  completes a processing batch only when that batch is bound to the execution.
\<close>

theorem exact_settlement_safe:
  assumes "settleExactWorkExecution table_port db t r = Inr (db', res)"
  shows "(res = Exact_pending \<longrightarrow> (\<exists>m b. getWorkMailbox db t = Inr (Some m) \<and> pending m = Some b \<and>
      requestCount b = 1 \<and> batch_mentions r b \<and> filter (batch_mentions r) (mailboxBatches m) = [b])) \<and>
    (res = Exact_processing \<longrightarrow> (\<exists>m i. getWorkMailbox db t = Inr (Some m) \<and> bound_to m r = Some i)) \<and>
    (res = Exact_absent \<longrightarrow> db' = db)"
proof -
  obtain s1 fin where c: "completeWorkExecution table_port db t r = Inr (s1, fin)"
    and k: "(if fin then Inr (s1, Exact_processing) else
     bind_result (lift_mailbox (port_getWorkMailbox table_port db t)) (\<lambda>mailbox.
       case mailbox of None \<Rightarrow> Inr (db, Exact_absent) | Some m \<Rightarrow> settle_exact_pending table_port db m r)) = Inr (db', res)"
    using assms by (auto simp: settleExactWorkExecution_def bind_result_Inr lift_mailbox_def map_error_Inr)
  show ?thesis
  proof (cases fin)
    case True
    then have "\<exists>m i. getWorkMailbox db t = Inr (Some m) \<and> bound_to m r = Some i"
      using c by (auto simp: completeWorkExecution_def bind_result_Inr split: option.splits)
    then show ?thesis using True k by auto
  next
    case False
    show ?thesis
    proof (cases "getWorkMailbox db t = Inr None")
      case True
      then show ?thesis using False k by (auto simp: lift_mailbox_def)
    next
      case ne: False
      with False k obtain m where m: "getWorkMailbox db t = Inr (Some m)"
        and e: "settle_exact_pending table_port db m r = Inr (db', res)"
        by (auto simp: bind_result_Inr lift_mailbox_def map_error_Inr split: option.splits)
      show ?thesis
      proof (cases "res = Exact_pending")
        case True
        then obtain b c where one: "filter (batch_mentions r) (mailboxBatches m) = [c]" "requestCount c = 1"
          and b: "pending m = Some b" "batch_mentions r b"
          using e by (cases "filter (batch_mentions r) (mailboxBatches m)"; cases "pending m")
            (auto simp: settle_exact_pending_def Let_def split: if_splits)
        have "b \<in> set (filter (batch_mentions r) (mailboxBatches m))"
          using b by (simp add: mailboxBatches_def)
        then have "c = b" using one(1) by simp
        then show ?thesis using True m one b by auto
      next
        case other: False
        then show ?thesis
          using e by (auto simp: settle_exact_pending_def Let_def bind_result_Inr split: if_splits)
      qed
    qed
  qed
qed

lemma exact_settlement_safe_witness:
  "\<exists>db'. settleExactWorkExecution table_port demo_table (roleRunTarget demo_run) (roleRunRef demo_run)
     = Inr (db', Exact_absent) \<and> db' = demo_table"
proof -
  have "bound_to demo_dispatch_mailbox (roleRunRef demo_run) = None"
    "filter (batch_mentions (roleRunRef demo_run)) (mailboxBatches demo_dispatch_mailbox) = []"
    by (simp_all add: bound_to_def demo_dispatch_mailbox_def mailboxBatches_def batch_mentions_def
        incoming_batch_def appendUnique_def)
  then have "settleExactWorkExecution table_port demo_table (roleRunTarget demo_run) (roleRunRef demo_run)
     = Inr (demo_table, Exact_absent)"
    using demo_get by (simp add: settleExactWorkExecution_def completeWorkExecution_def lift_mailbox_def
        settle_exact_pending_def)
  with exact_settlement_safe [OF this] show ?thesis by auto
qed

text \<open>
  A run that leaves a gap: signal \<open>a\<close> (sequence 1) is claimed, the dispatches of \<open>run-1\<close> (2) and
  \<open>run-2\<close> (3) arrive, the first is consumed while the claim is held, and the claim is released.
\<close>

definition gap_key :: "string \<Rightarrow> string" where
  "gap_key r = ''role-turn:t:coder:'' @ r"

definition gap_commands :: "mailbox_command list" where
  "gap_commands = [Enqueue (demo_signal ''a''), Claim demo_claim,
     Enqueue (demo_signal (gap_key ''run-1'')), Enqueue (demo_signal (gap_key ''run-2'')),
     Consume (Some (2, 2)), Release ''b1'']"

definition gap_start :: work_mailbox where
  "gap_start = \<lparr>mailbox_target = Role_target ''t'' ''coder'', nextSequence = 1, processing = None,
     pending = None, recentDedupeKeys = []\<rparr>"

definition gap_run :: run_identity where
  "gap_run = \<lparr>run_taskId = ''t'', run_roleName = ''coder'', run_runId = ''run-2''\<rparr>"

abbreviation gap_batch :: "int \<Rightarrow> int \<Rightarrow> int \<Rightarrow> string list \<Rightarrow> pending_batch" where
  "gap_batch f t n ks \<equiv> \<lparr>fromSequence = f, toSequence = t, reasons = [''wake''], refs = [], requestCount = n,
     firstQueuedAt = ''2024-01-01T00:00:00.000Z'', lastQueuedAt = ''2024-01-01T00:00:00.000Z'',
     sources = [''yui''], dedupeKeys = ks, highestFactRevision = None\<rparr>"

definition gap_mailbox :: work_mailbox where
  "gap_mailbox = \<lparr>mailbox_target = Role_target ''t'' ''coder'', nextSequence = 4, processing = None,
     pending = Some (gap_batch 1 3 2 [''a'', gap_key ''run-2'']), recentDedupeKeys = [gap_key ''run-1'']\<rparr>"

lemma gap_texts: "text_ok (gap_key ''run-1'')" "text_ok (gap_key ''run-2'')" "text_ok ''t''" "text_ok ''coder''"
  by (simp_all add: gap_key_def text_ok_def requireText_def trim_def has_nul_def is_space_def unit_of_def)

lemma enqueue_demo_signal:
  assumes inv: "mailbox_inv m" and key: "text_ok key" "\<not> mailboxContainsDedupeKey m key"
  shows "enqueueSignal m (demo_signal key) = Inr (queue_incoming m (gap_batch (nextSequence m) (nextSequence m) 1 [key]))"
proof -
  let ?inc = "incoming_batch (nextSequence m) ''wake'' [] ''2024-01-01T00:00:00.000Z'' ''yui'' key None"
  have inc: "?inc = gap_batch (nextSequence m) (nextSequence m) 1 [key]"
    by (simp add: incoming_batch_def appendUnique_def)
  have "batch_ok ?inc"
    using inv key by (intro incoming_batch_ok)
      (simp_all add: mailbox_inv_def mailbox_ok_def demo_texts stamp_ok_def demo_date text_ok_yui revision_ok_def)
  then have "mailbox_inv (queue_incoming m ?inc)"
    using queue_incoming_ok [OF inv _ key(2)] by (simp add: single_batch_def incoming_batch_def)
  then show ?thesis
    using key by (simp add: enqueueSignal_def mailbox_inv_valid inv demo_signal_def demo_texts text_ok_yui
        mailbox_timestamp_def demo_date signal_key_def parse_revision_def inc)
qed

lemma demo_merge:
  "mergeBatches (gap_batch f t n ks) (gap_batch f' t' n' ks') =
     gap_batch (min f f') (max t t') (n + n') (appendUnique (\<lambda>x. x) ks ks')"
  using demo_date(1) by (auto simp: mergeBatches_def appendUnique_def merge_revision_def date_le_def)

lemma gap_run_result: "run_commands mailbox_step gap_commands gap_start = Inr gap_mailbox"
proof -
  let ?m1 = "gap_start\<lparr>nextSequence := 2, pending := Some (gap_batch 1 1 1 [''a''])\<rparr>"
  let ?p = "\<lparr>batchId = ''b1'', proc_batch = gap_batch 1 1 1 [''a''], owner = ''controller'',
    startedAt = ''2024-01-01T00:00:01.000Z'', executionRef = None\<rparr>"
  let ?m2 = "?m1\<lparr>processing := Some ?p, pending := None\<rparr>"
  let ?m3 = "?m2\<lparr>nextSequence := 3, pending := Some (gap_batch 2 2 1 [gap_key ''run-1''])\<rparr>"
  let ?m4 = "?m2\<lparr>nextSequence := 4, pending := Some (gap_batch 2 3 2 [gap_key ''run-1'', gap_key ''run-2''])\<rparr>"
  let ?m5 = "?m2\<lparr>nextSequence := 4, pending := Some (gap_batch 3 3 1 [gap_key ''run-2'']),
    recentDedupeKeys := [gap_key ''run-1'']\<rparr>"
  have i0: "mailbox_inv gap_start"
    using gap_texts by (simp add: mailbox_defs gap_start_def texts_ok_def)
  have s1: "mailbox_step (Enqueue (demo_signal ''a'')) gap_start = Inr ?m1"
    using enqueue_demo_signal [OF i0 demo_texts(2)]
    by (simp add: mailboxContainsDedupeKey_def gap_start_def queue_incoming_def merge_pending_def)
  have i1: "mailbox_inv ?m1" using mailbox_step_inv [OF i0 s1] by simp
  have s2: "mailbox_step (Claim demo_claim) ?m1 = Inr ?m2"
    using demo_texts demo_date unfolding mailbox_step.simps claimPending_Inr [OF i1]
    by (simp add: demo_claim_def text_ok_def mailbox_timestamp_def mailbox_text_def) (simp add: gap_start_def)
  have i2: "mailbox_inv ?m2" using mailbox_step_inv [OF i1 s2] by simp
  have s3: "mailbox_step (Enqueue (demo_signal (gap_key ''run-1''))) ?m2 = Inr ?m3"
    using enqueue_demo_signal [OF i2 gap_texts(1)]
    by (simp add: mailboxContainsDedupeKey_def gap_start_def queue_incoming_def merge_pending_def gap_key_def)
  have i3: "mailbox_inv ?m3" using mailbox_step_inv [OF i2 s3] by simp
  have s4: "mailbox_step (Enqueue (demo_signal (gap_key ''run-2''))) ?m3 = Inr ?m4"
    using enqueue_demo_signal [OF i3 gap_texts(2)]
    by (simp add: mailboxContainsDedupeKey_def gap_start_def queue_incoming_def merge_pending_def demo_merge
        appendUnique_def gap_key_def)
  have i4: "mailbox_inv ?m4" using mailbox_step_inv [OF i3 s4] by simp
  have "consume_prefix ?m4 (gap_batch 2 3 2 [gap_key ''run-1'', gap_key ''run-2'']) 2 2 = ?m5"
    by (simp add: consume_prefix_def Let_def keys_aligned_def rememberDedupeKeys_def appendUnique_def gap_start_def
        recent_dedupe_key_limit_def)
  then have s5: "mailbox_step (Consume (Some (2, 2))) ?m4 = Inr ?m5" and i5: "mailbox_inv ?m5"
    using consume_prefix_inv [OF i4, of "gap_batch 2 3 2 [gap_key ''run-1'', gap_key ''run-2'']" 2]
      mailbox_inv_valid [OF i4] by (simp_all add: consumePendingBatch_def mailbox_inv_valid)
  have "requireText ''b1'' = Inr ''b1''" using demo_texts(4) by (simp add: text_ok_def)
  then have s6: "mailbox_step (Release ''b1'') ?m5 = Inr gap_mailbox"
    using releaseProcessing_result(1) [OF i5, of ?p "''b1''"]
    by (simp add: demo_merge appendUnique_def gap_mailbox_def gap_start_def gap_key_def)
  show ?thesis unfolding gap_commands_def using s1 s2 s3 s4 s5 s6 by simp
qed

text \<open>
  C8. The contiguity hypothesis of exact settlement is needed: after consuming a prefix behind a
  held claim and releasing the claim, the two remaining keys still count as aligned with the
  envelope 1 to 3, so the dispatch with sequence number 3 is captured as the prefix 1 to 2, and
  consuming that prefix leaves a pending batch without any key.
\<close>

theorem release_leaves_misaligned_batch:
  "run_commands mailbox_step gap_commands gap_start = Inr gap_mailbox \<and> \<not> dense gap_mailbox \<and>
   captureRoleRunDispatch (Some gap_mailbox) gap_run = Some (Pending_token 1 2) \<and>
   map_option toSequence (pending gap_mailbox) = Some 3 \<and>
   mailboxHasPending (consume_prefix gap_mailbox (the (pending gap_mailbox)) 1 2) \<and>
   pending_dedupe_keys (consume_prefix gap_mailbox (the (pending gap_mailbox)) 1 2) = []"
proof -
  have "captureRoleRunDispatch (Some gap_mailbox) gap_run = Some (Pending_token 1 2)"
    by (simp add: captureRoleRunDispatch_def gap_mailbox_def gap_run_def roleRunTarget_def bound_to_def
        capture_pending_def roleRunDispatchDedupeKey_def gap_key_def keys_aligned_def)
  then show ?thesis
    using gap_run_result
    by (simp add: gap_mailbox_def dense_def contiguous_def mailboxHasPending_def consume_prefix_def Let_def
        keys_aligned_def pending_dedupe_keys_def)
qed

end
