(* ===== verification/Mailbox_Scheduler.thy ===== *)
theory Mailbox_Scheduler
  imports Prelude
begin

text \<open>
  The coalescing scheduler of dirty mailboxes (\<open>src/src/coordination/mailboxScheduler.ts\<close>) and the
  selection of the nearest deadline (\<open>src/src/coordination/deadlineScheduler.ts\<close>).

  The scheduler is an event-driven object. Its timer is a flag, and the promise of the drain in
  progress is the phase that drain has reached: scheduled as a microtask, processing a batch, or
  settled with its \<open>finally\<close> callback outstanding. The events are the calls of its methods, the
  timer, and the points where the JavaScript runtime resumes it. The invariant says that a key
  that waits is always covered by an armed timer or by a drain in progress.
\<close>

subsection \<open>Nearest deadline\<close>

record ('k, 'n) scheduled_deadline =
  deadline_key :: 'k
  deadline_at :: "'n option"

text \<open>\<open>deadline_at\<close> is \<open>None\<close> for a value that is not a finite number.\<close>

definition nearestDeadlineBatch ::
  "('k, 'n :: linorder) scheduled_deadline list \<Rightarrow> ('n \<times> 'k list) option" where
  "nearestDeadlineBatch deadlines =
     (let valid = filter (\<lambda>d. deadline_at d \<noteq> None) deadlines in
      if valid = [] then None else
      let at = Min (set (map (\<lambda>d. the (deadline_at d)) valid))
      in Some (at, js_unique (map deadline_key (filter (\<lambda>d. deadline_at d = Some at) valid))))"

subsection \<open>The scheduler\<close>

datatype 'k drain_phase = No_drain | Drain_queued | Processing_batch "'k list" | Drain_settled

record 'k scheduler =
  pendingKeys :: "'k list"
  timer_armed :: bool
  current :: "'k drain_phase"
  drainRequested :: bool
  stopped :: bool
  processed :: "'k list list"

definition new_scheduler :: "'k scheduler" where
  "new_scheduler = \<lparr>pendingKeys = [], timer_armed = False, current = No_drain, drainRequested = False,
     stopped = False, processed = []\<rparr>"

definition schedule :: "'k scheduler \<Rightarrow> 'k scheduler" where
  "schedule q =
     (if stopped q \<or> pendingKeys q = [] \<or> timer_armed q then q else q\<lparr>timer_armed := True\<rparr>)"

text \<open>\<open>Set.add\<close> keeps the insertion order and ignores a key it has.\<close>

definition signal_key_dirty :: "'k scheduler \<Rightarrow> 'k \<Rightarrow> 'k scheduler" where
  "signal_key_dirty q k =
     (if stopped q then q else
      schedule (q\<lparr>pendingKeys := if k \<in> set (pendingKeys q) then pendingKeys q else pendingKeys q @ [k]\<rparr>))"

definition drain_now :: "'k scheduler \<Rightarrow> 'k scheduler" where
  "drain_now q =
     (if stopped q then q else
      let q1 = q\<lparr>timer_armed := False\<rparr> in
      if current q1 \<noteq> No_drain then q1\<lparr>drainRequested := True\<rparr>
      else if pendingKeys q1 = [] then q1
      else q1\<lparr>current := Drain_queued\<rparr>)"

definition timer_fired :: "'k scheduler \<Rightarrow> 'k scheduler" where
  "timer_fired q =
     (let q1 = q\<lparr>timer_armed := False\<rparr> in
      if current q1 \<noteq> No_drain then q1\<lparr>drainRequested := True\<rparr> else drain_now q1)"

text \<open>One pass of the do-while loop of \<open>#drainDueBatches\<close>, up to the call of the handler.\<close>

definition start_batch :: "'k scheduler \<Rightarrow> 'k scheduler" where
  "start_batch q =
     (let q1 = q\<lparr>drainRequested := False, pendingKeys := []\<rparr> in
      if pendingKeys q = [] then q1\<lparr>current := Drain_settled\<rparr>
      else q1\<lparr>current := Processing_batch (pendingKeys q), processed := processed q @ [pendingKeys q]\<rparr>)"

definition batch_succeeded :: "'k scheduler \<Rightarrow> 'k scheduler" where
  "batch_succeeded q =
     (if \<not> stopped q \<and> drainRequested q \<and> pendingKeys q \<noteq> [] then start_batch q
      else q\<lparr>current := Drain_settled\<rparr>)"

definition batch_failed :: "'k scheduler \<Rightarrow> 'k scheduler" where
  "batch_failed q = q\<lparr>current := Drain_settled\<rparr>"

text \<open>The \<open>finally\<close> callback of the drain promise.\<close>

definition drain_finally :: "'k scheduler \<Rightarrow> 'k scheduler" where
  "drain_finally q =
     (let q1 = q\<lparr>current := No_drain\<rparr> in
      if stopped q1 \<or> pendingKeys q1 = [] then q1
      else if drainRequested q1 then drain_now (q1\<lparr>drainRequested := False\<rparr>)
      else schedule q1)"

definition stop_scheduler :: "'k scheduler \<Rightarrow> 'k scheduler" where
  "stop_scheduler q = q\<lparr>stopped := True, timer_armed := False, pendingKeys := [], drainRequested := False\<rparr>"

inductive scheduler_step :: "'k scheduler \<Rightarrow> 'k scheduler \<Rightarrow> bool" where
  ev_signal: "scheduler_step q (signal_key_dirty q k)"
| ev_schedule: "scheduler_step q (schedule q)"
| ev_drain: "scheduler_step q (drain_now q)"
| ev_timer: "timer_armed q \<Longrightarrow> scheduler_step q (timer_fired q)"
| ev_start: "current q = Drain_queued \<Longrightarrow> scheduler_step q (start_batch q)"
| ev_success: "current q = Processing_batch ks \<Longrightarrow> scheduler_step q (batch_succeeded q)"
| ev_failure: "current q = Processing_batch ks \<Longrightarrow> scheduler_step q (batch_failed q)"
| ev_finally: "current q = Drain_settled \<Longrightarrow> scheduler_step q (drain_finally q)"
| ev_stop: "scheduler_step q (stop_scheduler q)"

inductive scheduler_reachable :: "'k scheduler \<Rightarrow> bool" where
  scheduler_start: "scheduler_reachable new_scheduler"
| scheduler_next: "scheduler_reachable q \<Longrightarrow> scheduler_step q q' \<Longrightarrow> scheduler_reachable q'"

subsection \<open>The invariant\<close>

definition scheduler_inv :: "'k scheduler \<Rightarrow> bool" where
  "scheduler_inv q \<longleftrightarrow>
     distinct (pendingKeys q) \<and> list_all (\<lambda>b. b \<noteq> [] \<and> distinct b) (processed q) \<and>
     (stopped q \<longrightarrow> pendingKeys q = [] \<and> \<not> timer_armed q) \<and>
     (pendingKeys q \<noteq> [] \<longrightarrow> timer_armed q \<or> current q \<noteq> No_drain)"

lemmas scheduler_ops = schedule_def signal_key_dirty_def drain_now_def timer_fired_def start_batch_def
  batch_succeeded_def batch_failed_def drain_finally_def stop_scheduler_def Let_def

lemma scheduler_step_inv: "scheduler_step q q' \<Longrightarrow> scheduler_inv q \<Longrightarrow> scheduler_inv q'"
  by (induction rule: scheduler_step.induct) (auto simp: scheduler_inv_def scheduler_ops)

lemma scheduler_reachable_inv: "scheduler_reachable q \<Longrightarrow> scheduler_inv q"
proof (induction rule: scheduler_reachable.induct)
  case scheduler_start
  then show ?case by (simp add: scheduler_inv_def new_scheduler_def)
next
  case (scheduler_next q q')
  then show ?case by (auto intro: scheduler_step_inv)
qed

text \<open>Keys are conserved: a step either keeps a waiting key waiting, or hands it to the handler.\<close>

definition batch_log :: "'k scheduler \<Rightarrow> 'k list" where
  "batch_log q = concat (processed q)"

lemma scheduler_step_keys:
  assumes "scheduler_step q q'" "\<not> stopped q'" "k \<in> set (pendingKeys q)"
  shows "k \<in> set (pendingKeys q') \<or> (\<exists>b. processed q' = processed q @ [b] \<and> k \<in> set b)"
  using assms by (induction rule: scheduler_step.induct) (auto simp: scheduler_ops split: if_splits)

subsection \<open>Properties\<close>

lemma demo_scheduler_reachable:
  "scheduler_reachable (signal_key_dirty (new_scheduler :: nat scheduler) 3)"
  by (rule scheduler_next [OF scheduler_start ev_signal])

text \<open>
  C9. No dirty key is forgotten: in every reachable state of a scheduler that has not been
  stopped, a waiting key is covered by an armed timer or by a drain in progress; every next event
  keeps it waiting or hands it, in one batch without duplicates, to the handler.
\<close>

theorem scheduler_no_lost_key:
  assumes "scheduler_reachable q" "k \<in> set (pendingKeys q)"
  shows "(timer_armed q \<or> current q \<noteq> No_drain) \<and> distinct (pendingKeys q) \<and>
    (\<forall>q'. scheduler_step q q' \<and> \<not> stopped q' \<longrightarrow>
       k \<in> set (pendingKeys q') \<or> (\<exists>b. processed q' = processed q @ [b] \<and> k \<in> set b \<and> distinct b))"
proof -
  have inv: "scheduler_inv q" using assms(1) by (rule scheduler_reachable_inv)
  have "k \<in> set (pendingKeys q') \<or> (\<exists>b. processed q' = processed q @ [b] \<and> k \<in> set b \<and> distinct b)"
    if "scheduler_step q q'" "\<not> stopped q'" for q'
    using scheduler_step_keys [OF that assms(2)] scheduler_step_inv [OF that(1) inv]
    by (auto simp: scheduler_inv_def)
  moreover have "timer_armed q \<or> current q \<noteq> No_drain" "distinct (pendingKeys q)"
    using inv assms(2) by (auto simp: scheduler_inv_def)
  ultimately show ?thesis by blast
qed

lemma scheduler_no_lost_key_witness:
  "3 \<in> set (pendingKeys (signal_key_dirty (new_scheduler :: nat scheduler) 3)) \<and>
   timer_armed (signal_key_dirty (new_scheduler :: nat scheduler) 3) \<and>
   distinct (pendingKeys (signal_key_dirty (new_scheduler :: nat scheduler) 3))"
  using scheduler_no_lost_key [OF demo_scheduler_reachable, of 3]
  by (simp add: signal_key_dirty_def schedule_def new_scheduler_def)

text \<open>
  The nearest deadline batch holds exactly the keys due at the least finite deadline, each
  once; there is none exactly when no deadline is finite.
\<close>

theorem nearest_deadline_correct:
  "(case nearestDeadlineBatch ds of
      None \<Rightarrow> (\<forall>d \<in> set ds. deadline_at d = None)
    | Some (at, ks) \<Rightarrow>
        (\<forall>d \<in> set ds. \<forall>a. deadline_at d = Some a \<longrightarrow> at \<le> a) \<and> distinct ks \<and> ks \<noteq> [] \<and>
        set ks = deadline_key ` {d \<in> set ds. deadline_at d = Some at})"
proof (cases "filter (\<lambda>d. deadline_at d \<noteq> None) ds = []")
  case True
  then show ?thesis by (auto simp: nearestDeadlineBatch_def filter_empty_conv)
next
  case False
  define valid where "valid = filter (\<lambda>d. deadline_at d \<noteq> None) ds"
  define at where "at = Min (set (map (\<lambda>d. the (deadline_at d)) valid))"
  have ne: "valid \<noteq> []" using False by (simp add: valid_def)
  have "at \<in> set (map (\<lambda>d. the (deadline_at d)) valid)"
    unfolding at_def by (rule Min_in) (use ne in auto)
  then obtain d where d: "d \<in> set ds" "deadline_at d = Some at" by (auto simp: valid_def)
  have le: "at \<le> a" if "d \<in> set ds" "deadline_at d = Some a" for d a
    unfolding at_def by (rule Min_le) (use that in \<open>auto simp: valid_def intro!: rev_image_eqI [of d]\<close>)
  let ?ks = "js_unique (map deadline_key (filter (\<lambda>d. deadline_at d = Some at) valid))"
  have run: "nearestDeadlineBatch ds = Some (at, ?ks)"
    using ne by (simp add: nearestDeadlineBatch_def valid_def at_def Let_def)
  have ks: "set ?ks = deadline_key ` {d \<in> set ds. deadline_at d = Some at}"
    by (auto simp: valid_def)
  then have "?ks \<noteq> []" using d by (metis (mono_tags, lifting) empty_iff imageI list.set(1) mem_Collect_eq)
  then show ?thesis unfolding run using le ks by simp
qed

lemma nearest_deadline_correct_witness:
  "\<exists>ks. nearestDeadlineBatch [\<lparr>deadline_key = ''a'', deadline_at = Some (2 :: int)\<rparr>] = Some (2, ks) \<and>
     set ks = {''a''} \<and> distinct ks"
  using nearest_deadline_correct [of "[\<lparr>deadline_key = ''a'', deadline_at = Some (2 :: int)\<rparr>]"]
  by (simp add: nearestDeadlineBatch_def js_unique_def)

end
