(* ===== verification/Operation_Facts.thy ===== *)
theory Operation_Facts
  imports Validation
begin

text \<open>
  The facts of one operation and its evidence ratchet (\<open>src/src/kernel/operationFacts.ts\<close>). An
  operation records the strongest effect it may have had; evidence only accumulates. The effects
  are a linear order, and recording evidence is monotone, idempotent and keeps the identity.
\<close>

record implementation_ref =
  impl_id :: string
  impl_generation :: string

datatype operation_effect = Effect_none | Effect_possible | Effect_confirmed

fun effect_rank :: "operation_effect \<Rightarrow> nat" where
  "effect_rank Effect_none = 0"
| "effect_rank Effect_possible = 1"
| "effect_rank Effect_confirmed = 2"

instantiation operation_effect :: linorder
begin

definition less_eq_operation_effect :: "operation_effect \<Rightarrow> operation_effect \<Rightarrow> bool" where
  "less_eq_operation_effect a b \<longleftrightarrow> effect_rank a \<le> effect_rank b"

definition less_operation_effect :: "operation_effect \<Rightarrow> operation_effect \<Rightarrow> bool" where
  "less_operation_effect a b \<longleftrightarrow> effect_rank a < effect_rank b"

instance
proof
  fix a b c :: operation_effect
  show "a < b \<longleftrightarrow> a \<le> b \<and> \<not> b \<le> a" "a \<le> a" "a \<le> b \<Longrightarrow> b \<le> c \<Longrightarrow> a \<le> c" "a \<le> b \<or> b \<le> a"
    by (auto simp: less_eq_operation_effect_def less_operation_effect_def)
  show "a \<le> b \<Longrightarrow> b \<le> a \<Longrightarrow> a = b"
    by (cases a; cases b) (simp_all add: less_eq_operation_effect_def)
qed

end

record operation_facts =
  op_requestId :: string
  op_inputDigest :: string
  op_actorId :: string
  op_authorityRef :: string
  op_targetId :: string
  op_capability :: string
  op_implementation :: implementation_ref
  op_effect :: operation_effect
  op_receiptRefs :: "string list"
  op_partialResultRefs :: "string list"

record operation_evidence =
  ev_effect :: "operation_effect option"
  ev_receiptRefs :: "string list option"
  ev_partialResultRefs :: "string list option"

datatype operation_error = Operation_identity_invalid | Input_digest_invalid | Evidence_refs_invalid

definition blank :: "string \<Rightarrow> bool" where
  "blank s = (trim s = [])"

definition validateOperationFacts :: "operation_facts \<Rightarrow> operation_error + operation_facts" where
  "validateOperationFacts facts =
     check
       [reject (\<exists>v \<in> set [op_requestId facts, op_actorId facts, op_authorityRef facts, op_targetId facts,
            op_capability facts, impl_id (op_implementation facts), impl_generation (op_implementation facts)].
            blank v \<or> has_nul v) Operation_identity_invalid,
        reject (\<not> is_digest (op_inputDigest facts)) Input_digest_invalid,
        reject (\<exists>r \<in> set (op_receiptRefs facts). blank r) Evidence_refs_invalid,
        reject (\<exists>r \<in> set (op_partialResultRefs facts). blank r) Evidence_refs_invalid] facts"

definition raise_effect :: "operation_effect \<Rightarrow> operation_effect option \<Rightarrow> operation_effect" where
  "raise_effect current e = (case e of None \<Rightarrow> current | Some x \<Rightarrow> if x > current then x else current)"

definition add_refs :: "string list \<Rightarrow> string list option \<Rightarrow> string list" where
  "add_refs current r = js_unique (current @ (case r of None \<Rightarrow> [] | Some xs \<Rightarrow> xs))"

definition recordOperationEvidence ::
  "operation_facts \<Rightarrow> operation_evidence \<Rightarrow> operation_error + operation_facts" where
  "recordOperationEvidence facts evidence =
     validateOperationFacts
       (facts\<lparr>op_effect := raise_effect (op_effect facts) (ev_effect evidence),
              op_receiptRefs := add_refs (op_receiptRefs facts) (ev_receiptRefs evidence),
              op_partialResultRefs := add_refs (op_partialResultRefs facts) (ev_partialResultRefs evidence)\<rparr>)"

subsection \<open>Evidence only accumulates\<close>

definition operation_identity :: "operation_facts \<Rightarrow> _" where
  "operation_identity f = (op_requestId f, op_inputDigest f, op_actorId f, op_authorityRef f, op_targetId f,
     op_capability f, op_implementation f)"

definition evidence_below :: "operation_facts \<Rightarrow> operation_facts \<Rightarrow> bool" where
  "evidence_below f g \<longleftrightarrow>
     operation_identity f = operation_identity g \<and> op_effect f \<le> op_effect g \<and>
     set (op_receiptRefs f) \<subseteq> set (op_receiptRefs g) \<and>
     set (op_partialResultRefs f) \<subseteq> set (op_partialResultRefs g)"

definition operation_valid :: "operation_facts \<Rightarrow> bool" where
  "operation_valid f \<longleftrightarrow> validateOperationFacts f = Inr f"

lemma validateOperationFacts_Inr [transition]: "validateOperationFacts f = Inr g \<longleftrightarrow> g = f \<and> operation_valid f"
  by (auto simp: validateOperationFacts_def operation_valid_def check_Inr)

lemma raise_effect_ge: "current \<le> raise_effect current e" "e = Some x \<Longrightarrow> x \<le> raise_effect current e"
  by (auto simp: raise_effect_def not_less split: option.splits)

lemma raise_effect_idem: "raise_effect (raise_effect c e) e = raise_effect c e"
  by (auto simp: raise_effect_def split: option.splits)

lemma set_add_refs [simp]: "set (add_refs c r) = set c \<union> (case r of None \<Rightarrow> {} | Some xs \<Rightarrow> set xs)"
  by (auto simp: add_refs_def split: option.splits)

lemma add_refs_idem: "add_refs (add_refs c r) r = add_refs c r"
proof -
  let ?xs = "case r of None \<Rightarrow> [] | Some xs \<Rightarrow> xs"
  have "js_unique (js_unique (c @ ?xs) @ ?xs) = js_unique (js_unique (c @ ?xs))"
    by (rule js_unique_append_absorb) auto
  then show ?thesis by (simp add: add_refs_def)
qed

lemma recordOperationEvidence_Inr:
  "recordOperationEvidence f e = Inr g \<Longrightarrow> operation_valid g \<and> evidence_below f g \<and>
     op_effect g = raise_effect (op_effect f) (ev_effect e)"
  by (auto simp: recordOperationEvidence_def validateOperationFacts_Inr evidence_below_def operation_identity_def
      raise_effect_ge)

lemma recordOperationEvidence_idem:
  assumes "recordOperationEvidence f e = Inr g"
  shows "recordOperationEvidence g e = Inr g"
proof -
  have g: "g = f\<lparr>op_effect := raise_effect (op_effect f) (ev_effect e),
      op_receiptRefs := add_refs (op_receiptRefs f) (ev_receiptRefs e),
      op_partialResultRefs := add_refs (op_partialResultRefs f) (ev_partialResultRefs e)\<rparr>"
    and "operation_valid g"
    using assms by (simp_all add: recordOperationEvidence_def validateOperationFacts_Inr)
  then show ?thesis
    by (simp add: recordOperationEvidence_def validateOperationFacts_Inr raise_effect_idem add_refs_idem)
qed

lemma evidence_below_refl [simp]: "evidence_below f f"
  by (simp add: evidence_below_def)

lemma evidence_below_trans: "evidence_below f g \<Longrightarrow> evidence_below g h \<Longrightarrow> evidence_below f h"
  by (auto simp: evidence_below_def)

interpretation operation: ratchet_system operation_valid "\<lambda>e f. recordOperationEvidence f e" "\<lambda>_. True" evidence_below
  by unfold_locales (auto dest: recordOperationEvidence_Inr intro: evidence_below_trans)

subsection \<open>Properties\<close>

definition demo_facts :: operation_facts where
  "demo_facts = \<lparr>op_requestId = ''r1'', op_inputDigest = replicate 64 CHR ''a'', op_actorId = ''u'',
     op_authorityRef = ''g'', op_targetId = ''t'', op_capability = ''task.activate'',
     op_implementation = \<lparr>impl_id = ''yui:task-activation'', impl_generation = ''1''\<rparr>,
     op_effect = Effect_none, op_receiptRefs = [], op_partialResultRefs = []\<rparr>"

definition demo_evidence :: operation_evidence where
  "demo_evidence = \<lparr>ev_effect = Some Effect_possible, ev_receiptRefs = Some [''x''], ev_partialResultRefs = None\<rparr>"

definition demo_recorded :: operation_facts where
  "demo_recorded = demo_facts\<lparr>op_effect := Effect_possible, op_receiptRefs := [''x'']\<rparr>"

lemma demo_facts_valid: "operation_valid demo_facts"
  unfolding operation_valid_def by code_simp

lemma demo_recorded_run: "recordOperationEvidence demo_facts demo_evidence = Inr demo_recorded"
  by code_simp

text \<open>
  Effects only accumulate: whatever sequence of evidence is recorded on an operation, its
  identity is unchanged, its effect never falls below an effect it had or one that was reported,
  no receipt or partial result is lost, and recording the last evidence again changes nothing.
\<close>

theorem operation_evidence_accumulates:
  assumes "operation_valid f" "run_commands (\<lambda>e f. recordOperationEvidence f e) (es @ [e]) f = Inr g"
  shows "operation_valid g \<and> evidence_below f g \<and> (\<forall>x. ev_effect e = Some x \<longrightarrow> x \<le> op_effect g) \<and>
    recordOperationEvidence g e = Inr g"
proof -
  have adm: "list_all (\<lambda>_. True) (es @ [e])" by (simp add: list_all_iff)
  obtain h where h: "recordOperationEvidence h e = Inr g"
    using assms(2) by (auto simp: run_commands_append bind_result_Inr)
  then have "\<forall>x. ev_effect e = Some x \<longrightarrow> x \<le> op_effect g"
    using recordOperationEvidence_Inr [OF h] by (auto simp: raise_effect_ge)
  then show ?thesis
    using operation.run_valid [OF assms(1) adm assms(2)] operation.run_below [OF assms(1) adm assms(2)]
      recordOperationEvidence_idem [OF h] by simp
qed

lemma operation_evidence_accumulates_witness:
  "evidence_below demo_facts demo_recorded \<and> recordOperationEvidence demo_recorded demo_evidence = Inr demo_recorded"
  using operation_evidence_accumulates [OF demo_facts_valid, of "[]" demo_evidence demo_recorded] demo_recorded_run
  by simp

end
