(* ===== verification/Js_Json.thy ===== *)
theory Js_Json
  imports Js_Text
begin

text \<open>
  \<open>JSON.stringify\<close> on strings and arrays of texts, as the sources use it to build the input of a
  digest: a string is quoted, with the quote, the backslash and the control characters escaped.
  The encoding of a string is self-delimiting, so a JSON text determines the strings it was built
  from.
\<close>

definition hex_lower :: "nat \<Rightarrow> char" where
  "hex_lower d = char_of (if d < 10 then 48 + d else 87 + d)"

definition json_escape :: "nat \<Rightarrow> string option" where
  "json_escape n =
     (if n = 8 then Some ''b'' else if n = 9 then Some ''t'' else if n = 10 then Some ''n''
      else if n = 12 then Some ''f'' else if n = 13 then Some ''r''
      else if n = 34 then Some [CHR 0x22] else if n = 92 then Some [CHR 0x5C]
      else if n < 32 then Some (''u00'' @ [hex_lower (n div 16), hex_lower (n mod 16)]) else None)"

definition json_char :: "char \<Rightarrow> string" where
  "json_char c = (case json_escape (unit_of c) of None \<Rightarrow> [c] | Some e \<Rightarrow> CHR 0x5C # e)"

definition json_string :: "string \<Rightarrow> string" where
  "json_string s = [CHR 0x22] @ concat (map json_char s) @ [CHR 0x22]"

definition json_nullable :: "string option \<Rightarrow> string" where
  "json_nullable v = (case v of None \<Rightarrow> ''null'' | Some s \<Rightarrow> json_string s)"

fun json_join :: "string list \<Rightarrow> string" where
  "json_join [] = []"
| "json_join [x] = x"
| "json_join (x # y # ys) = x @ '','' @ json_join (y # ys)"

definition json_array :: "string list \<Rightarrow> string" where
  "json_array xs = ''['' @ json_join xs @ '']''"

definition json_object :: "(string \<times> string) list \<Rightarrow> string" where
  "json_object fs = ''{'' @ json_join (map (\<lambda>(k, v). json_string k @ '':'' @ v) fs) @ ''}''"

lemma hex_lower_inject: "a < 16 \<Longrightarrow> b < 16 \<Longrightarrow> hex_lower a = hex_lower b \<longleftrightarrow> a = b"
proof -
  assume "a < 16" "b < 16"
  then have "hex_lower a = hex_lower b \<longleftrightarrow>
      (of_char (hex_lower a) :: nat) = of_char (hex_lower b)" by simp
  also have "\<dots> \<longleftrightarrow> a = b"
    using \<open>a < 16\<close> \<open>b < 16\<close> by (auto simp: hex_lower_def simp del: of_char_eq_iff split: if_splits)
  finally show ?thesis .
qed

lemma json_escape_append:
  assumes "json_escape n = Some e" "json_escape m = Some f" "e @ s = f @ t"
  shows "n = m \<and> s = t"
proof -
  have hex: "n = m" if "n < 32" "m < 32" "hex_lower (n div 16) = hex_lower (m div 16)"
      "hex_lower (n mod 16) = hex_lower (m mod 16)"
  proof -
    have "n div 16 < 16" "m div 16 < 16" using that by auto
    then have "n div 16 = m div 16" "n mod 16 = m mod 16"
      using that hex_lower_inject [of "n div 16" "m div 16"] hex_lower_inject [of "n mod 16" "m mod 16"] by auto
    then show ?thesis by (metis div_mult_mod_eq)
  qed
  show ?thesis
    using assms hex by (auto simp: json_escape_def split: if_splits)
qed

lemma json_char_append:
  assumes "json_char c @ s = json_char d @ t"
  shows "c = d \<and> s = t"
proof -
  have bs: "json_escape (unit_of CHR 0x5C) = Some [CHR 0x5C]" by (simp add: json_escape_def unit_of_def)
  show ?thesis
  proof (cases "json_escape (unit_of c)"; cases "json_escape (unit_of d)")
    fix e f
    assume ef: "json_escape (unit_of c) = Some e" "json_escape (unit_of d) = Some f"
    with assms have "e @ s = f @ t" by (simp add: json_char_def)
    from json_escape_append [OF ef this] show ?thesis by (simp add: unit_of_inject)
  qed (use assms bs in \<open>auto simp: json_char_def\<close>)
qed

lemma json_char_quote: "hd (json_char c @ s) \<noteq> CHR 0x22" "json_char c \<noteq> []"
proof -
  have "json_escape (unit_of CHR 0x22) \<noteq> None" by (simp add: json_escape_def unit_of_def)
  then show "hd (json_char c @ s) \<noteq> CHR 0x22" "json_char c \<noteq> []"
    by (auto simp: json_char_def split: option.splits)
qed

lemma json_string_append:
  "json_string s @ r = json_string t @ q \<longleftrightarrow> s = t \<and> r = q"
proof
  assume "json_string s @ r = json_string t @ q"
  then have "concat (map json_char s) @ CHR 0x22 # r = concat (map json_char t) @ CHR 0x22 # q"
    by (simp add: json_string_def)
  then show "s = t \<and> r = q"
  proof (induction s arbitrary: t)
    case Nil
    show ?case
    proof (cases t)
      case Nil
      then show ?thesis using Nil.prems by simp
    next
      case (Cons d u)
      then have "hd (json_char d @ concat (map json_char u) @ CHR 0x22 # q) = CHR 0x22"
        using Nil.prems by (metis append_Nil append_assoc concat.simps(1,2) list.map(1,2) list.sel(1))
      then show ?thesis using json_char_quote(1) by blast
    qed
  next
    case (Cons c s)
    show ?case
    proof (cases t)
      case Nil
      then have "hd (json_char c @ concat (map json_char s) @ CHR 0x22 # r) = CHR 0x22"
        using Cons.prems by simp
      then show ?thesis using json_char_quote(1) by blast
    next
      case (Cons d u)
      then have "json_char c @ (concat (map json_char s) @ CHR 0x22 # r) =
          json_char d @ (concat (map json_char u) @ CHR 0x22 # q)"
        using Cons.prems by simp
      from json_char_append [OF this] show ?thesis using Cons.IH Cons by simp
    qed
  qed
qed simp

lemma json_string_inject: "json_string s = json_string t \<longleftrightarrow> s = t"
  using json_string_append [of s "[]" t "[]"] by simp

lemma json_nullable_append:
  "json_nullable v @ r = json_nullable w @ q \<longleftrightarrow> v = w \<and> r = q"
proof -
  have "json_string s @ r \<noteq> ''null'' @ q" "''null'' @ r \<noteq> json_string s @ q" for s r q
    by (simp_all add: json_string_def)
  then show ?thesis by (cases v; cases w) (simp_all add: json_nullable_def json_string_append)
qed

end
