(* ===== verification/Task_Activation.thy ===== *)
theory Task_Activation
  imports Operation_Facts Js_Json
begin

text \<open>
  Activation requests of a Task (\<open>src/src/task/taskActivation.ts\<close>). A request is pending, adopted,
  cancelled or failed; every transition records evidence through the operation ratchet and
  validates its result. SHA-256 is the parameter \<open>sha\<close>, a function from text to its hexadecimal
  digest. Admission against the current Task is in the theory of the Task.

  Shown here: transitions keep validity, adopted and cancelled are final, evidence is never lost,
  and the text that is digested determines exactly the Task, the start mode, the planning Turn
  and the resource configuration.
\<close>

datatype start_mode = Immediate | After_planning_turn

datatype activation_disposition = Act_pending | Act_adopted | Act_cancelled | Act_failed

datatype plan_access = Access_read | Access_write

datatype environment_plan = Plan_empty | Plan_scratch | Plan_local string plan_access

record activation_request =
  act_operation :: operation_facts
  act_startMode :: start_mode
  act_afterPlanningRun :: "string option"
  act_environmentPlan :: environment_plan
  act_disposition :: activation_disposition
  act_preparationId :: "string option"
  act_outcome :: "string option"
  act_requestedAt :: string
  act_updatedAt :: string

record activation_input =
  in_requestId :: string
  in_actorId :: string
  in_authorityRef :: string
  in_startMode :: start_mode
  in_afterPlanningRun :: "string option"
  in_environmentPlan :: environment_plan

datatype activation_error =
    Act_operation operation_error
  | Act_capability_invalid
  | Act_deferral_mismatch
  | Act_planning_run field_error
  | Act_effect_unconfirmed
  | Act_preparation field_error
  | Act_preparation_not_adopted
  | Act_outcome_invalid field_error
  | Act_plan_resource field_error
  | Act_requestedAt_invalid field_error
  | Act_updatedAt_invalid field_error
  | Act_updated_before_requested
  | Act_deferral_unnamed
  | Act_immediate_deferred
  | Act_not_adoptable
  | Act_adopted_not_failed
  | Act_adopted_not_cancelled

definition task_activation_capability :: string where
  "task_activation_capability = ''task.activate''"

definition task_activation_implementation :: implementation_ref where
  "task_activation_implementation = \<lparr>impl_id = ''yui:task-activation'', impl_generation = ''1''\<rparr>"

definition canonicalEnvironmentPlan :: "environment_plan \<Rightarrow> activation_error + environment_plan" where
  "canonicalEnvironmentPlan plan =
     (case plan of
        Plan_empty \<Rightarrow> Inr Plan_empty
      | Plan_scratch \<Rightarrow> Inr Plan_scratch
      | Plan_local resource access \<Rightarrow>
          bind_result (map_error Act_plan_resource (requireIdentity resource))
            (\<lambda>r. Inr (Plan_local r access)))"

definition requireOutcome :: "string \<Rightarrow> activation_error + string" where
  "requireOutcome value =
     (if has_nul value then Inl (Act_outcome_invalid Invalid)
      else if trim value = [] then Inl (Act_outcome_invalid Required)
      else Inr (take 2000 (trim value)))"

text \<open>\<open>Date.parse(a) < Date.parse(b)\<close>, false when either is NaN.\<close>

definition date_less :: "string \<Rightarrow> string \<Rightarrow> bool" where
  "date_less a b =
     (case (Date_parse a, Date_parse b) of (Some x, Some y) \<Rightarrow> x < y | _ \<Rightarrow> False)"

definition validateTaskActivationRequest :: "activation_request \<Rightarrow> activation_error + activation_request" where
  "validateTaskActivationRequest r =
     check
       [map_option Act_operation (failure (validateOperationFacts (act_operation r))),
        reject (op_capability (act_operation r) \<noteq> task_activation_capability) Act_capability_invalid,
        reject ((act_startMode r = After_planning_turn) \<noteq> (act_afterPlanningRun r \<noteq> None)) Act_deferral_mismatch,
        when_some (act_afterPlanningRun r) (\<lambda>v. map_option Act_planning_run (failure (requireIdentity v))),
        reject (act_disposition r = Act_adopted \<and> op_effect (act_operation r) \<noteq> Effect_confirmed)
          Act_effect_unconfirmed,
        when_some (act_preparationId r) (\<lambda>v. map_option Act_preparation (failure (requireIdentity v))),
        when_some (act_preparationId r) (\<lambda>v. reject (act_disposition r \<noteq> Act_adopted) Act_preparation_not_adopted),
        when_some (act_outcome r) (\<lambda>v. failure (requireOutcome v)),
        failure (canonicalEnvironmentPlan (act_environmentPlan r)),
        map_option Act_requestedAt_invalid (failure (requireTimestamp (act_requestedAt r))),
        map_option Act_updatedAt_invalid (failure (requireTimestamp (act_updatedAt r))),
        reject (date_less (act_updatedAt r) (act_requestedAt r)) Act_updated_before_requested] r"

subsection \<open>The digest of a request\<close>

fun start_mode_text :: "start_mode \<Rightarrow> string" where
  "start_mode_text Immediate = ''immediate''"
| "start_mode_text After_planning_turn = ''after-planning-turn''"

fun access_text :: "plan_access \<Rightarrow> string" where
  "access_text Access_read = ''read''"
| "access_text Access_write = ''write''"

fun plan_json :: "environment_plan \<Rightarrow> string" where
  "plan_json Plan_empty = json_object [(''kind'', json_string ''empty'')]"
| "plan_json Plan_scratch = json_object [(''kind'', json_string ''scratch'')]"
| "plan_json (Plan_local resource access) =
     json_object [(''kind'', json_string ''local''), (''resourceId'', json_string resource),
       (''access'', json_string (access_text access))]"

definition activation_input_text ::
  "string \<Rightarrow> start_mode \<Rightarrow> string option \<Rightarrow> environment_plan \<Rightarrow> string" where
  "activation_input_text taskId mode run plan =
     json_array [json_string taskId, json_string (start_mode_text mode), json_nullable run, plan_json plan]"

definition taskActivationInputDigest ::
  "(string \<Rightarrow> string) \<Rightarrow> string \<Rightarrow> start_mode \<Rightarrow> string option \<Rightarrow> environment_plan \<Rightarrow> activation_error + string" where
  "taskActivationInputDigest sha taskId mode run plan =
     bind_result (canonicalEnvironmentPlan plan) (\<lambda>plan. Inr (sha (activation_input_text taskId mode run plan)))"

subsection \<open>Operations\<close>

definition createTaskActivationRequest ::
  "(string \<Rightarrow> string) \<Rightarrow> string \<Rightarrow> activation_input \<Rightarrow> time \<Rightarrow> activation_error + activation_request" where
  "createTaskActivationRequest sha taskId input now =
     (if in_startMode input = After_planning_turn \<and> in_afterPlanningRun input = None then Inl Act_deferral_unnamed
      else if in_startMode input \<noteq> After_planning_turn \<and> in_afterPlanningRun input \<noteq> None
      then Inl Act_immediate_deferred else
      bind_result (taskActivationInputDigest sha taskId (in_startMode input) (in_afterPlanningRun input)
          (in_environmentPlan input)) (\<lambda>digest.
      bind_result (canonicalEnvironmentPlan (in_environmentPlan input)) (\<lambda>plan.
      validateTaskActivationRequest
        \<lparr>act_operation = \<lparr>op_requestId = in_requestId input, op_inputDigest = digest,
           op_actorId = in_actorId input, op_authorityRef = in_authorityRef input, op_targetId = taskId,
           op_capability = task_activation_capability, op_implementation = task_activation_implementation,
           op_effect = Effect_none, op_receiptRefs = [], op_partialResultRefs = []\<rparr>,
         act_startMode = in_startMode input, act_afterPlanningRun = in_afterPlanningRun input,
         act_environmentPlan = plan, act_disposition = Act_pending, act_preparationId = None,
         act_outcome = None, act_requestedAt = toISOString now, act_updatedAt = toISOString now\<rparr>)))"

definition adoptTaskActivationRequest ::
  "activation_request \<Rightarrow> string option \<Rightarrow> string list option \<Rightarrow> time \<Rightarrow> activation_error + activation_request" where
  "adoptTaskActivationRequest r preparationId receiptRefs now =
     (if act_disposition r = Act_adopted then Inr r
      else if act_disposition r \<noteq> Act_pending \<and> act_disposition r \<noteq> Act_failed then Inl Act_not_adoptable
      else bind_result (map_error Act_operation (recordOperationEvidence (act_operation r)
             \<lparr>ev_effect = Some Effect_confirmed, ev_receiptRefs = receiptRefs, ev_partialResultRefs = None\<rparr>)) (\<lambda>operation.
           validateTaskActivationRequest
             (r\<lparr>act_operation := operation, act_disposition := Act_adopted,
                act_preparationId := (case preparationId of None \<Rightarrow> act_preparationId r | Some p \<Rightarrow> Some p),
                act_updatedAt := toISOString now\<rparr>)))"

definition failTaskActivationRequest ::
  "activation_request \<Rightarrow> string \<Rightarrow> time \<Rightarrow> operation_evidence \<Rightarrow> activation_error + activation_request" where
  "failTaskActivationRequest r outcome now evidence =
     (if act_disposition r = Act_adopted then Inl Act_adopted_not_failed
      else if act_disposition r = Act_cancelled then Inr r
      else bind_result (map_error Act_operation (recordOperationEvidence (act_operation r) evidence)) (\<lambda>operation.
           bind_result (requireOutcome outcome) (\<lambda>text.
           validateTaskActivationRequest
             (r\<lparr>act_operation := operation, act_disposition := Act_failed, act_outcome := Some text,
                act_updatedAt := toISOString now\<rparr>))))"

definition recordTaskActivationEvidence ::
  "activation_request \<Rightarrow> operation_evidence \<Rightarrow> time \<Rightarrow> activation_error + activation_request" where
  "recordTaskActivationEvidence r evidence now =
     bind_result (map_error Act_operation (recordOperationEvidence (act_operation r) evidence)) (\<lambda>operation.
     if operation = act_operation r then Inr r
     else validateTaskActivationRequest (r\<lparr>act_operation := operation, act_updatedAt := toISOString now\<rparr>))"

definition cancelTaskActivationRequest ::
  "activation_request \<Rightarrow> string \<Rightarrow> time \<Rightarrow> activation_error + activation_request" where
  "cancelTaskActivationRequest r outcome now =
     (if act_disposition r = Act_adopted then Inl Act_adopted_not_cancelled
      else if act_disposition r = Act_cancelled then Inr r
      else bind_result (requireOutcome outcome) (\<lambda>text.
           validateTaskActivationRequest
             (r\<lparr>act_disposition := Act_cancelled, act_outcome := Some text, act_updatedAt := toISOString now\<rparr>)))"

subsection \<open>Settled outcomes in the event ledger\<close>

record activation_event =
  aev_type :: string
  aev_requestId :: "string option"
  aev_reason :: "string option"

datatype settled_fact = Settled_cancelled "string option" | Settled_adopted

fun settledActivationFromEvents :: "activation_event list \<Rightarrow> string \<Rightarrow> settled_fact option" where
  "settledActivationFromEvents [] requestId = None"
| "settledActivationFromEvents (e # es) requestId =
     (if aev_requestId e \<noteq> Some requestId then settledActivationFromEvents es requestId
      else if aev_type e = ''task.activation-cancelled'' then Some (Settled_cancelled (aev_reason e))
      else if aev_type e = ''task.activation-adopted'' then Some Settled_adopted
      else settledActivationFromEvents es requestId)"

subsection \<open>Validity and the ratchet\<close>

definition activation_valid :: "activation_request \<Rightarrow> bool" where
  "activation_valid r \<longleftrightarrow> validateTaskActivationRequest r = Inr r"

definition activation_below :: "activation_request \<Rightarrow> activation_request \<Rightarrow> bool" where
  "activation_below r s \<longleftrightarrow>
     evidence_below (act_operation r) (act_operation s) \<and>
     act_startMode r = act_startMode s \<and> act_afterPlanningRun r = act_afterPlanningRun s \<and>
     act_environmentPlan r = act_environmentPlan s \<and> act_requestedAt r = act_requestedAt s \<and>
     (act_disposition r = Act_adopted \<longrightarrow> act_disposition s = Act_adopted \<and> act_preparationId s = act_preparationId r) \<and>
     (act_disposition r = Act_cancelled \<longrightarrow> act_disposition s = Act_cancelled \<and> act_outcome s = act_outcome r) \<and>
     (act_disposition r \<noteq> Act_pending \<longrightarrow> act_disposition s \<noteq> Act_pending)"

lemma validateTaskActivationRequest_Inr [transition]:
  "validateTaskActivationRequest r = Inr s \<longleftrightarrow> s = r \<and> activation_valid r"
  by (auto simp: validateTaskActivationRequest_def activation_valid_def check_Inr)

datatype activation_command =
    Adopt "string option" "string list option" time
  | Fail string time operation_evidence
  | Evidence operation_evidence time
  | Cancel string time

fun activation_step :: "activation_command \<Rightarrow> activation_request \<Rightarrow> activation_error + activation_request" where
  "activation_step (Adopt p rs now) r = adoptTaskActivationRequest r p rs now"
| "activation_step (Fail out now e) r = failTaskActivationRequest r out now e"
| "activation_step (Evidence e now) r = recordTaskActivationEvidence r e now"
| "activation_step (Cancel out now) r = cancelTaskActivationRequest r out now"

lemma activation_below_refl [simp]: "activation_below r r"
  by (simp add: activation_below_def)

lemma activation_below_trans: "activation_below r s \<Longrightarrow> activation_below s t \<Longrightarrow> activation_below r t"
  using evidence_below_trans by (auto simp: activation_below_def)

lemma activation_step_ok:
  assumes "activation_valid r" "activation_step c r = Inr s"
  shows "activation_valid s \<and> activation_below r s"
proof (cases c)
  case (Adopt p rs now)
  then show ?thesis
    using assms by (auto simp: adoptTaskActivationRequest_def bind_result_Inr map_error_Inr
        validateTaskActivationRequest_Inr activation_below_def dest!: recordOperationEvidence_Inr split: if_splits)
next
  case (Fail out now e)
  then show ?thesis
    using assms by (auto simp: failTaskActivationRequest_def bind_result_Inr map_error_Inr
        validateTaskActivationRequest_Inr activation_below_def dest!: recordOperationEvidence_Inr split: if_splits)
next
  case (Evidence e now)
  then show ?thesis
    using assms by (auto simp: recordTaskActivationEvidence_def bind_result_Inr map_error_Inr
        validateTaskActivationRequest_Inr activation_below_def dest!: recordOperationEvidence_Inr split: if_splits)
next
  case (Cancel out now)
  then show ?thesis
    using assms by (auto simp: cancelTaskActivationRequest_def bind_result_Inr map_error_Inr
        validateTaskActivationRequest_Inr activation_below_def split: if_splits)
qed

interpretation activation: ratchet_system activation_valid activation_step "\<lambda>_. True" activation_below
  by unfold_locales (auto dest: activation_step_ok intro: activation_below_trans)

subsection \<open>Properties\<close>

lemma plan_json_inject: "plan_json p @ r = plan_json q @ t \<longleftrightarrow> p = q \<and> r = t"
proof (cases p; cases q)
  fix a x b y
  assume pq: "p = Plan_local a x" "q = Plan_local b y"
  have "access_text x = access_text y \<longleftrightarrow> x = y" by (cases x; cases y) simp_all
  then show ?thesis
    by (auto simp: pq json_object_def json_string_append json_string_inject
        json_string_append [of _ "CHR '','' # u" _ "CHR '','' # v" for u v])
qed (auto simp: json_object_def json_string_append)

lemma start_mode_text_inject: "start_mode_text a = start_mode_text b \<longleftrightarrow> a = b"
  by (cases a; cases b) simp_all

text \<open>
  The text that is digested determines what adoption consumes and nothing else: two requests
  digest the same text exactly when they agree on the Task, the start mode, the planning Turn and
  the canonical resource configuration.
\<close>

theorem activation_digest_text_injective:
  "activation_input_text t m r p = activation_input_text t' m' r' p' \<longleftrightarrow> t = t' \<and> m = m' \<and> r = r' \<and> p = p'"
  using plan_json_inject [of p "[]" p' "[]"]
  by (auto simp: activation_input_text_def json_array_def json_string_append json_nullable_append
      start_mode_text_inject)

definition demo_activation :: activation_request where
  "demo_activation = \<lparr>act_operation = demo_facts, act_startMode = Immediate, act_afterPlanningRun = None,
     act_environmentPlan = Plan_empty, act_disposition = Act_pending, act_preparationId = None,
     act_outcome = None, act_requestedAt = toISOString 0, act_updatedAt = toISOString 0\<rparr>"

lemma demo_activation_valid: "activation_valid demo_activation"
proof -
  have "valid_time 0" by code_simp
  then have "requireTimestamp (toISOString 0) = Inr (toISOString 0)" by simp
  moreover have "failure (validateOperationFacts demo_facts) = None"
    using demo_facts_valid by (simp add: operation_valid_def)
  moreover have "op_capability demo_facts = task_activation_capability"
    by (simp add: demo_facts_def task_activation_capability_def)
  ultimately show ?thesis
    by (simp add: activation_valid_def validateTaskActivationRequest_def demo_activation_def
        canonicalEnvironmentPlan_def date_less_def check_Inr split: option.splits)
qed

definition demo_cancelled :: activation_request where
  "demo_cancelled = demo_activation\<lparr>act_disposition := Act_cancelled, act_outcome := Some ''no''\<rparr>"

lemma demo_cancel_run: "activation_step (Cancel ''no'' 0) demo_activation = Inr demo_cancelled"
proof -
  have out: "requireOutcome ''no'' = Inr ''no''" by code_simp
  have "activation_valid demo_cancelled"
    using demo_activation_valid out
    by (simp add: activation_valid_def validateTaskActivationRequest_def demo_cancelled_def demo_activation_def
        check_Inr)
  moreover have "act_disposition demo_activation = Act_pending"
    "demo_activation\<lparr>act_disposition := Act_cancelled, act_outcome := Some ''no'', act_updatedAt := toISOString 0\<rparr> = demo_cancelled"
    by (simp_all add: demo_activation_def demo_cancelled_def)
  ultimately show ?thesis
    by (simp add: cancelTaskActivationRequest_def out validateTaskActivationRequest_Inr)
qed

text \<open>
  C14. Outcomes of an activation request are final and its evidence is monotone: whatever sequence
  of adopt, fail, evidence and cancel steps succeeds, the request stays valid, an adopted request
  stays adopted with its preparation and a confirmed effect, a cancelled one stays cancelled with
  its reason, and no recorded effect, receipt or partial result is lost.
\<close>

theorem activation_outcome_final:
  assumes "activation_valid r" "run_commands activation_step cs r = Inr s"
  shows "activation_valid s \<and> evidence_below (act_operation r) (act_operation s) \<and>
    (act_disposition r = Act_adopted \<longrightarrow> act_disposition s = Act_adopted \<and> act_preparationId s = act_preparationId r) \<and>
    (act_disposition s = Act_adopted \<longrightarrow> op_effect (act_operation s) = Effect_confirmed) \<and>
    (act_disposition r = Act_cancelled \<longrightarrow> act_disposition s = Act_cancelled \<and> act_outcome s = act_outcome r)"
proof -
  have adm: "list_all (\<lambda>_. True) cs" by (simp add: list_all_iff)
  have v: "activation_valid s" by (rule activation.run_valid [OF assms(1) adm assms(2)])
  then have "act_disposition s = Act_adopted \<longrightarrow> op_effect (act_operation s) = Effect_confirmed"
    by (auto simp: activation_valid_def validateTaskActivationRequest_def check_Inr)
  then show ?thesis
    using v activation.run_below [OF assms(1) adm assms(2)] by (simp add: activation_below_def)
qed

lemma activation_outcome_final_witness:
  "activation_valid demo_cancelled \<and> act_disposition demo_cancelled = Act_cancelled"
  using activation_outcome_final [OF demo_activation_valid, of "[Cancel ''no'' 0]" demo_cancelled] demo_cancel_run
  by (simp add: demo_cancelled_def)

text \<open>
  A pending or failed request can always be adopted at a time not before it was requested, if
  the preparation (when given) is a valid id and the receipts are not blank; the result is adopted
  with a confirmed effect and keeps the request's identity.
\<close>

theorem activation_adoptable:
  assumes valid: "activation_valid r" and "act_disposition r \<in> {Act_pending, Act_failed}"
    and now: "valid_time now" "\<not> date_less (toISOString now) (act_requestedAt r)"
    and prep: "\<forall>p. prep = Some p \<longrightarrow> failure (requireIdentity p) = None"
    and rec: "\<forall>rs. receipts = Some rs \<longrightarrow> (\<forall>x \<in> set rs. \<not> blank x)"
  shows "\<exists>s. adoptTaskActivationRequest r prep receipts now = Inr s \<and> act_disposition s = Act_adopted \<and>
    op_effect (act_operation s) = Effect_confirmed \<and>
    operation_identity (act_operation s) = operation_identity (act_operation r)"
proof -
  let ?e = "\<lparr>ev_effect = Some Effect_confirmed, ev_receiptRefs = receipts, ev_partialResultRefs = None\<rparr>"
  have opv: "operation_valid (act_operation r)"
    using valid by (auto simp: activation_valid_def validateTaskActivationRequest_def check_Inr failure_None
        validateOperationFacts_Inr)
  have "\<exists>f. recordOperationEvidence (act_operation r) ?e = Inr f"
    using opv rec unfolding recordOperationEvidence_def validateOperationFacts_Inr
    by (auto simp: operation_valid_def validateOperationFacts_def check_Inr split: option.splits)
  then obtain f where f: "recordOperationEvidence (act_operation r) ?e = Inr f" by blast
  have fv: "operation_valid f" "operation_identity f = operation_identity (act_operation r)"
    "op_effect f = Effect_confirmed"
    using recordOperationEvidence_Inr [OF f] raise_effect_ge(2) [of "Some Effect_confirmed" Effect_confirmed]
    by (auto simp: evidence_below_def less_eq_operation_effect_def raise_effect_def less_operation_effect_def
        split: if_splits) (cases "op_effect (act_operation r)"; simp)
  let ?s = "r\<lparr>act_operation := f, act_disposition := Act_adopted,
    act_preparationId := (case prep of None \<Rightarrow> act_preparationId r | Some p \<Rightarrow> Some p), act_updatedAt := toISOString now\<rparr>"
  have "failure (validateOperationFacts f) = None" using fv(1) by (simp add: operation_valid_def)
  moreover have "op_capability f = op_capability (act_operation r)" using fv(2) by (simp add: operation_identity_def)
  ultimately have "activation_valid ?s"
    using valid now prep fv(3)
    by (auto simp: activation_valid_def validateTaskActivationRequest_def check_Inr split: option.splits)
  then show ?thesis
    using assms(2) f fv by (auto simp: adoptTaskActivationRequest_def validateTaskActivationRequest_Inr)
qed

lemma activation_adoptable_witness:
  "\<exists>s. adoptTaskActivationRequest demo_activation None None 0 = Inr s \<and> act_disposition s = Act_adopted"
proof -
  have "valid_time 0" by code_simp
  moreover have "\<not> date_less (toISOString 0) (act_requestedAt demo_activation)"
    by (simp add: demo_activation_def date_less_def \<open>valid_time 0\<close>)
  ultimately show ?thesis
    using activation_adoptable [OF demo_activation_valid, of 0 None None] by (auto simp: demo_activation_def)
qed

text \<open>
  The event ledger decides a settled request once and for all: the first terminal event of a
  request gives its outcome, a request without one is not settled, and later events never change
  a decided outcome.
\<close>

theorem settled_activation_stable:
  "(settledActivationFromEvents es i = None \<longleftrightarrow>
      (\<forall>e \<in> set es. aev_requestId e = Some i \<longrightarrow>
         aev_type e \<notin> {''task.activation-cancelled'', ''task.activation-adopted''})) \<and>
   (settledActivationFromEvents es i = Some f \<longrightarrow> settledActivationFromEvents (es @ fs) i = Some f)"
  by (induction es) auto

lemma settled_activation_stable_witness:
  "settledActivationFromEvents
     [\<lparr>aev_type = ''task.activation-cancelled'', aev_requestId = Some ''a'', aev_reason = None\<rparr>,
      \<lparr>aev_type = ''task.activation-adopted'', aev_requestId = Some ''a'', aev_reason = None\<rparr>] ''a''
   = Some (Settled_cancelled None)"
  using settled_activation_stable
    [of "[\<lparr>aev_type = ''task.activation-cancelled'', aev_requestId = Some ''a'', aev_reason = None\<rparr>]" "''a''"
        "Settled_cancelled None" "[\<lparr>aev_type = ''task.activation-adopted'', aev_requestId = Some ''a'', aev_reason = None\<rparr>]"]
  by simp

end
