(* ===== verification/Workspace_Identity.thy ===== *)
theory Workspace_Identity
  imports Validation
begin

text \<open>
  The identity of a Task's managed Git workspace and the refs derived from it
  (\<open>src/src/repository/taskWorkspaceIdentity.ts\<close>). SHA-256 is the parameter \<open>sha\<close> (text to
  hexadecimal digest); what the code relies on is that a digest has 64 lower-case hexadecimal
  digits. The entropy arrives as the 16 random bytes.

  Shown here: the length-prefixed encoding is unambiguous, so equal tokens of different fields are
  SHA-256 collisions; a generated identity is always valid; the refs derived from it are well
  formed and distinct members of distinct segments have distinct branches.
\<close>

record workspace_identity =
  wi_homeId :: string
  wi_taskId :: string
  wi_token :: string
  wi_generatedAt :: string
  wi_entropy :: string

datatype identity_error =
    Home_id_invalid field_error | Task_id_invalid field_error
  | Home_id_separator | Task_id_separator | Generated_at_invalid | Entropy_invalid | Token_invalid
  | Token_mismatch | Identity_missing | Ref_segment_invalid | Member_invalid | Archive_source_invalid

datatype identity_part = Home_part | Task_part

definition has_path_separator :: "string \<Rightarrow> bool" where
  "has_path_separator s = (\<exists>c \<in> set s. c = CHR ''/'' \<or> c = CHR 0x5C)"

definition requireIdentityPart :: "identity_part \<Rightarrow> string \<Rightarrow> identity_error + string" where
  "requireIdentityPart label value =
     bind_result (map_error (case label of Home_part \<Rightarrow> Home_id_invalid | Task_part \<Rightarrow> Task_id_invalid)
       (requireText value)) (\<lambda>trimmed.
       if has_path_separator trimmed
       then Inl (case label of Home_part \<Rightarrow> Home_id_separator | Task_part \<Rightarrow> Task_id_separator)
       else Inr trimmed)"

subsection \<open>The token\<close>

text \<open>\<open>Buffer.byteLength\<close> in UTF-8: one byte below 128, two bytes for the other code units below 256.\<close>

definition byteLength :: "string \<Rightarrow> nat" where
  "byteLength s = sum_list (map (\<lambda>c. if unit_of c < 128 then 1 else 2) s)"

definition prefixed_part :: "string \<Rightarrow> string" where
  "prefixed_part part = show_nat (byteLength part) @ '':'' @ part"

fun join_lines :: "string list \<Rightarrow> string" where
  "join_lines [] = []"
| "join_lines [x] = x"
| "join_lines (x # y # ys) = x @ [CHR 0x0A] @ join_lines (y # ys)"

definition lengthPrefixedEncoding :: "string list \<Rightarrow> string" where
  "lengthPrefixedEncoding parts = join_lines (map prefixed_part parts)"

definition identity_domain :: string where
  "identity_domain = ''yui-task-workspace-identity/v1''"

definition deriveTaskWorkspaceToken ::
  "(string \<Rightarrow> string) \<Rightarrow> string \<Rightarrow> string \<Rightarrow> string \<Rightarrow> string \<Rightarrow> string" where
  "deriveTaskWorkspaceToken sha homeId taskId generatedAt entropy =
     take 8 (sha (lengthPrefixedEncoding [identity_domain, homeId, taskId, generatedAt, entropy]))"

definition is_hex_of :: "nat \<Rightarrow> string \<Rightarrow> bool" where
  "is_hex_of n s = (all_hex s \<and> length s = n)"

definition validateTaskWorkspaceIdentity ::
  "(string \<Rightarrow> string) \<Rightarrow> workspace_identity \<Rightarrow> identity_error + workspace_identity" where
  "validateTaskWorkspaceIdentity sha identity =
     bind_result (requireIdentityPart Home_part (wi_homeId identity)) (\<lambda>homeId.
     bind_result (requireIdentityPart Task_part (wi_taskId identity)) (\<lambda>taskId.
     check
       [reject (Date_parse (wi_generatedAt identity) = None) Generated_at_invalid,
        reject (\<not> is_hex_of 32 (wi_entropy identity)) Entropy_invalid,
        reject (\<not> is_hex_of 8 (wi_token identity)) Token_invalid,
        reject (deriveTaskWorkspaceToken sha homeId taskId (wi_generatedAt identity) (wi_entropy identity)
                \<noteq> wi_token identity) Token_mismatch] identity))"

definition hex_digit :: "nat \<Rightarrow> char" where
  "hex_digit d = char_of (if d < 10 then 48 + d else 87 + d)"

definition bytes_hex :: "nat list \<Rightarrow> string" where
  "bytes_hex bs = concat (map (\<lambda>b. [hex_digit (b div 16), hex_digit (b mod 16)]) bs)"

definition generateTaskWorkspaceIdentity ::
  "(string \<Rightarrow> string) \<Rightarrow> string \<Rightarrow> string \<Rightarrow> time \<Rightarrow> nat list \<Rightarrow> identity_error + workspace_identity" where
  "generateTaskWorkspaceIdentity sha home task now entropy =
     bind_result (requireIdentityPart Home_part home) (\<lambda>homeId.
     bind_result (requireIdentityPart Task_part task) (\<lambda>taskId.
     let generatedAt = toISOString now; e = bytes_hex entropy in
     validateTaskWorkspaceIdentity sha
       \<lparr>wi_homeId = homeId, wi_taskId = taskId,
        wi_token = deriveTaskWorkspaceToken sha homeId taskId generatedAt e,
        wi_generatedAt = generatedAt, wi_entropy = e\<rparr>))"

subsection \<open>Refs\<close>

definition taskWorkspaceRefSegmentFromIdentity ::
  "(string \<Rightarrow> string) \<Rightarrow> workspace_identity \<Rightarrow> identity_error + string" where
  "taskWorkspaceRefSegmentFromIdentity sha identity =
     bind_result (validateTaskWorkspaceIdentity sha identity) (\<lambda>valid.
       Inr (wi_taskId valid @ ''-'' @ wi_token valid))"

definition taskWorkspaceRefSegment ::
  "(string \<Rightarrow> string) \<Rightarrow> workspace_identity option \<Rightarrow> identity_error + string" where
  "taskWorkspaceRefSegment sha identity =
     (case identity of
        None \<Rightarrow> Inl Identity_missing
      | Some i \<Rightarrow> taskWorkspaceRefSegmentFromIdentity sha i)"

text \<open>The pattern \<open>^(task-[0-9]+)-[a-f0-9]{8}$\<close>.\<close>

definition is_ref_segment :: "string \<Rightarrow> bool" where
  "is_ref_segment s =
     (let body = take (length s - 9) s; tail = drop (length s - 9) s in
      9 \<le> length s \<and> startsWith body ''task-'' \<and> drop 5 body \<noteq> [] \<and> list_all is_digit (drop 5 body) \<and>
      startsWith tail ''-'' \<and> is_hex_of 8 (drop 1 tail))"

definition bad_ref_char :: "char \<Rightarrow> bool" where
  "bad_ref_char c = (c \<in> set ''~^:?*[]'' \<or> is_space c)"

definition taskMainBranch :: "string \<Rightarrow> identity_error + string" where
  "taskMainBranch refSegment =
     (if \<not> is_ref_segment refSegment then Inl Ref_segment_invalid
      else Inr (''yui/'' @ refSegment @ ''/main''))"

definition taskDerivedBranch :: "string \<Rightarrow> string \<Rightarrow> identity_error + string" where
  "taskDerivedBranch refSegment member =
     (if \<not> is_ref_segment refSegment then Inl Ref_segment_invalid
      else let m = trim member in
        if m = [] \<or> (\<exists>c \<in> set m. bad_ref_char c) \<or> includes_text m ''..'' \<or> startsWith m ''-''
        then Inl Member_invalid else Inr (''yui/'' @ refSegment @ ''/'' @ m))"

definition taskIntegrationBranch :: "string \<Rightarrow> string \<Rightarrow> identity_error + string" where
  "taskIntegrationBranch refSegment integrationId = taskDerivedBranch refSegment (''integration/'' @ integrationId)"

definition taskArchiveRef :: "string \<Rightarrow> string \<Rightarrow> identity_error + string" where
  "taskArchiveRef homeId sourceRef =
     bind_result (requireIdentityPart Home_part homeId) (\<lambda>i.
     let ref = trim sourceRef in
     if \<not> startsWith ref ''refs/'' \<or> includes_text ref ''..'' \<or> (\<exists>c \<in> set ref. bad_ref_char c)
     then Inl Archive_source_invalid
     else Inr (''refs/yui/archive/'' @ i @ ''/'' @ drop 5 ref))"

subsection \<open>The encoding is unambiguous\<close>

lemma byteLength_simps [simp]:
  "byteLength [] = 0"
  "byteLength (c # s) = (if unit_of c < 128 then 1 else 2) + byteLength s"
  by (simp_all add: byteLength_def)

lemma byteLength_prefix_eq:
  "byteLength s = byteLength t \<Longrightarrow> s @ r = t @ q \<Longrightarrow> s = t \<and> r = q"
proof (induction s arbitrary: t)
  case Nil
  then show ?case by (cases t) (auto split: if_splits)
next
  case (Cons c s)
  then show ?case by (cases t) (auto split: if_splits)
qed

lemma digits_colon:
  assumes "list_all is_digit a" "list_all is_digit b" "a @ CHR '':'' # x = b @ CHR '':'' # y"
  shows "a = b \<and> x = y"
proof -
  have "\<not> is_digit CHR '':''" by (simp add: is_digit_def unit_of_def)
  then have "CHR '':'' \<notin> set a" "CHR '':'' \<notin> set b" using assms(1,2) by (auto simp: list_all_iff)
  then show ?thesis using assms(3)
  proof (induction a arbitrary: b)
    case Nil
    then show ?case by (cases b) auto
  next
    case (Cons c a)
    then show ?case by (cases b) auto
  qed
qed

lemma prefixed_part_append:
  assumes "prefixed_part s @ r = prefixed_part t @ q"
  shows "s = t \<and> r = q"
proof -
  have digits: "list_all is_digit (show_nat n)" for n using show_nat_digits by (simp add: list_all_iff)
  have "show_nat (byteLength s) @ CHR '':'' # (s @ r) = show_nat (byteLength t) @ CHR '':'' # (t @ q)"
    using assms by (simp add: prefixed_part_def)
  from digits_colon [OF digits digits this] show ?thesis
    using byteLength_prefix_eq [of s t r q] by simp
qed

lemma prefixed_part_ne [simp]: "prefixed_part s \<noteq> []"
  by (simp add: prefixed_part_def)

lemma join_lines_Cons: "join_lines (x # xs) = x @ (if xs = [] then [] else CHR 0x0A # join_lines xs)"
  by (cases xs) simp_all

lemma lengthPrefixedEncoding_Cons:
  "lengthPrefixedEncoding (x # xs) =
     prefixed_part x @ (if xs = [] then [] else CHR 0x0A # lengthPrefixedEncoding xs)"
  by (simp add: lengthPrefixedEncoding_def join_lines_Cons)

lemma lengthPrefixedEncoding_inject: "lengthPrefixedEncoding xs = lengthPrefixedEncoding ys \<longleftrightarrow> xs = ys"
proof
  assume "lengthPrefixedEncoding xs = lengthPrefixedEncoding ys"
  then show "xs = ys"
  proof (induction xs arbitrary: ys)
    case Nil
    then show ?case by (cases ys) (auto simp: lengthPrefixedEncoding_def join_lines_Cons)
  next
    case (Cons x xs)
    show ?case
    proof (cases ys)
      case Nil
      then show ?thesis using Cons.prems by (simp add: lengthPrefixedEncoding_def join_lines_Cons)
    next
      case (Cons y zs)
      then have "prefixed_part x @ (if xs = [] then [] else CHR 0x0A # lengthPrefixedEncoding xs) =
          prefixed_part y @ (if zs = [] then [] else CHR 0x0A # lengthPrefixedEncoding zs)"
        using Cons.prems by (simp only: lengthPrefixedEncoding_Cons)
      from prefixed_part_append [OF this] show ?thesis
        using Cons.IH Cons by (auto split: if_splits)
    qed
  qed
qed simp

subsection \<open>Generated identities\<close>

lemma requireIdentityPart_Inr [validity]:
  "requireIdentityPart l v = Inr t \<longleftrightarrow> requireText v = Inr t \<and> \<not> has_path_separator t"
  by (auto simp: requireIdentityPart_def bind_result_Inr map_error_Inr split: if_splits)

lemma requireIdentityPart_idem: "requireIdentityPart l v = Inr t \<Longrightarrow> requireIdentityPart k t = Inr t"
  by (auto simp: requireIdentityPart_Inr dest: requireText_idem)

lemma validateTaskWorkspaceIdentity_Inr [validity]:
  "validateTaskWorkspaceIdentity sha i = Inr j \<longleftrightarrow> j = i \<and>
     (\<exists>h t. requireIdentityPart Home_part (wi_homeId i) = Inr h \<and> requireIdentityPart Task_part (wi_taskId i) = Inr t \<and>
        wi_token i = deriveTaskWorkspaceToken sha h t (wi_generatedAt i) (wi_entropy i)) \<and>
     Date_parse (wi_generatedAt i) \<noteq> None \<and> is_hex_of 32 (wi_entropy i) \<and> is_hex_of 8 (wi_token i)"
  by (auto simp: validateTaskWorkspaceIdentity_def bind_result_Inr check_Inr)

lemma is_hex_hex_digit: "d < 16 \<Longrightarrow> is_hex (hex_digit d)"
  by (auto simp: is_hex_def is_digit_def hex_digit_def unit_of_def)

lemma bytes_hex_ok: "list_all (\<lambda>b. b < 256) bs \<Longrightarrow> is_hex_of (2 * length bs) (bytes_hex bs)"
proof (induction bs)
  case Nil
  then show ?case by (simp add: bytes_hex_def is_hex_of_def all_hex_def)
next
  case (Cons b bs)
  then have "b div 16 < 16" by auto
  with Cons show ?case by (simp add: bytes_hex_def is_hex_of_def all_hex_def is_hex_hex_digit)
qed

lemma token_hex:
  assumes "\<And>x. is_digest (sha x)"
  shows "is_hex_of 8 (deriveTaskWorkspaceToken sha h t g e)"
  using assms [of "lengthPrefixedEncoding [identity_domain, h, t, g, e]"]
  by (auto simp: deriveTaskWorkspaceToken_def is_hex_of_def is_digest_def all_hex_def list_all_iff dest: in_set_takeD)

definition demo_sha :: "string \<Rightarrow> string" where
  "demo_sha x = replicate 64 CHR ''a''"

lemma demo_sha_digest: "is_digest (demo_sha x)"
  by (simp add: demo_sha_def is_digest_def all_hex_def list_all_iff is_hex_def is_digit_def unit_of_def)

text \<open>
  A Task's workspace identity is always generated valid: for a Home id and a Task id without
  path separators, a representable time and 16 bytes of entropy, generation returns an identity
  that its validator accepts unchanged and that belongs to that Home and Task. The only fact used
  of SHA-256 is the shape of its digests.
\<close>

theorem workspace_identity_generated:
  assumes "\<forall>x. is_digest (sha x)" "requireIdentityPart Home_part home = Inr h"
    and "requireIdentityPart Task_part task = Inr t" "valid_time now"
    and "length entropy = 16" "list_all (\<lambda>b. b < 256) entropy"
  shows "\<exists>i. generateTaskWorkspaceIdentity sha home task now entropy = Inr i \<and>
    validateTaskWorkspaceIdentity sha i = Inr i \<and> wi_homeId i = h \<and> wi_taskId i = t \<and>
    taskWorkspaceRefSegment sha (Some i) = Inr (t @ ''-'' @ wi_token i)"
proof -
  let ?e = "bytes_hex entropy"
  let ?i = "\<lparr>wi_homeId = h, wi_taskId = t, wi_token = deriveTaskWorkspaceToken sha h t (toISOString now) ?e,
    wi_generatedAt = toISOString now, wi_entropy = ?e\<rparr>"
  have "is_hex_of 32 ?e" using bytes_hex_ok [OF assms(6)] assms(5) by simp
  then have v: "validateTaskWorkspaceIdentity sha ?i = Inr ?i"
    using token_hex [of sha] assms(1-4) requireIdentityPart_idem
    by (auto simp: validateTaskWorkspaceIdentity_Inr)
  then have "generateTaskWorkspaceIdentity sha home task now entropy = Inr ?i"
    using assms(2,3) by (simp add: generateTaskWorkspaceIdentity_def Let_def)
  with v show ?thesis
    by (simp add: taskWorkspaceRefSegment_def taskWorkspaceRefSegmentFromIdentity_def)
qed

lemma workspace_identity_generated_witness:
  "\<exists>i. generateTaskWorkspaceIdentity demo_sha ''home'' ''task-1'' 0 (replicate 16 255) = Inr i \<and> wi_taskId i = ''task-1''"
proof -
  have "requireIdentityPart Home_part ''home'' = Inr ''home''" "requireIdentityPart Task_part ''task-1'' = Inr ''task-1''"
    "valid_time 0" by code_simp+
  moreover have "\<forall>x. is_digest (demo_sha x)" using demo_sha_digest by simp
  ultimately show ?thesis
    using workspace_identity_generated [of demo_sha "''home''" "''home''" "''task-1''" "''task-1''" 0 "replicate 16 255"]
    by (auto simp: list_all_iff)
qed

text \<open>
  Tokens are unambiguous: two valid identities carry the same token only if they agree on Home,
  Task, generation time and entropy, or SHA-256 truncated to 32 bits collides on two different
  texts. The length-prefixed encoding itself never identifies different fields.
\<close>

theorem workspace_token_unambiguous:
  "deriveTaskWorkspaceToken sha h t g e = deriveTaskWorkspaceToken sha h' t' g' e' \<longleftrightarrow>
     (h, t, g, e) = (h', t', g', e') \<or>
     (\<exists>x y. x \<noteq> y \<and> take 8 (sha x) = take 8 (sha y) \<and>
        x = lengthPrefixedEncoding [identity_domain, h, t, g, e] \<and>
        y = lengthPrefixedEncoding [identity_domain, h', t', g', e'])"
  by (auto simp: deriveTaskWorkspaceToken_def lengthPrefixedEncoding_inject)

end
