(* ===== verification/Task.thy ===== *)
theory Task
  imports Task_Activation Workspace_Identity
begin

text \<open>
  The Task aggregate (\<open>src/src/task/task.ts\<close>) and the admission of its activation request
  (\<open>admitTaskActivationRequest\<close> of \<open>src/src/task/taskActivation.ts\<close>).

  The record has the fields of the source; the checks of \<open>validateTask\<close> are grouped in the order
  of the source. Checks that a value has its TypeScript type (enumerations, arrays, unknown
  fields) have no counterpart. \<open>sha\<close> is SHA-256, as in the theory of workspace identities.
\<close>

datatype task_priority = Low | Medium | High | Urgent

datatype task_status = Draft | Active | Completed | Cancelled | Archived

datatype task_actor = By_user | By_operator | By_leader

datatype execution_state = Enabled | Stopped

datatype run_scope = Global_scope | Task_scope string

record task_source =
  src_jobId :: string
  src_scope :: run_scope
  src_runId :: string

record project_binding =
  bnd_projectId :: string
  bnd_directory :: string
  bnd_baseRef :: string
  bnd_baseCommit :: "string option"
  bnd_currentCommit :: "string option"

record task_metadata =
  md_type :: "string option"
  md_description :: "string option"
  md_priority :: "task_priority option"
  md_tags :: "string list option"
  md_dueAt :: "string option"
  md_projectBindings :: "project_binding list option"
  md_cwd :: "string option"

text \<open>In an update, \<open>None\<close> is an absent field and \<open>Some None\<close> is null.\<close>

record task_metadata_update =
  up_title :: "string option"
  up_type :: "string option option"
  up_description :: "string option option"
  up_priority :: "task_priority option option"
  up_tags :: "string list option option"
  up_dueAt :: "string option option"
  up_projectBindings :: "project_binding list option"
  up_cwd :: "string option"

record task =
  task_source :: "task_source option"
  task_id :: string
  task_title :: string
  task_type :: "string option"
  task_description :: "string option"
  task_priority :: "task_priority option"
  task_tags :: "string list option"
  task_dueAt :: "string option"
  task_projectBindings :: "project_binding list"
  task_cwd :: "string option"
  task_workspaceIdentity :: "workspace_identity option"
  task_status :: task_status
  task_executionGate :: execution_state
  task_activationRequest :: "activation_request option"
  task_settledActivationRequests :: "activation_request list option"
  task_completedAt :: "string option"
  task_completedBy :: "task_actor option"
  task_completionSummary :: "string option"
  task_completionArtifactRefs :: "string list option"
  task_retiredAt :: "string option"
  task_retiredBy :: "task_actor option"
  task_retirementSummary :: "string option"
  task_retirementIsolation :: bool
  task_replacementTaskId :: "string option"
  task_archivedAt :: "string option"
  task_archivedBy :: "task_actor option"
  task_archiveReason :: "string option"
  task_archiveSummary :: "string option"
  task_createdAt :: string
  task_updatedAt :: string

datatype task_field =
    TF_id | TF_sourceJob | TF_sourceRun | TF_sourceTask | TF_title | TF_type | TF_createdAt | TF_updatedAt
  | TF_artifactRef | TF_description | TF_tag | TF_dueAt | TF_cwd | TF_completedAt | TF_completionSummary
  | TF_retiredAt | TF_retirementSummary | TF_replacement | TF_archivedAt | TF_archiveReason
  | TF_archiveSummary | TF_projectId | TF_directory | TF_baseRef | TF_baseCommit | TF_currentCommit
  | TF_commit | TF_expectedCommit | TF_nextCommit

datatype task_error =
    Task_field task_field field_error
  | Task_identity identity_error
  | Task_activation activation_error
  | Updated_before_created | Identity_of_other_task | Activation_of_other_task
  | Settled_exceed_limit | Settled_of_other_task | Settled_not_terminal | Activation_duplicated
  | Binding_commit_incomplete | Project_duplicated | Directory_duplicated
  | Completion_incomplete | Completed_without_completion | Completion_not_allowed
  | Retirement_incomplete | Replaces_itself | Retirement_not_allowed
  | Archive_incomplete | Archive_outcome_ambiguous | Archive_not_allowed
  | Identity_already_bound | Request_id_reused | Request_not_found
  | Cannot_activate task_status | Commits_not_draft | Commit_scope_mismatch | Commit_moved
  | Binding_not_found | Already_retired | Cannot_retire | Not_active | Cannot_reopen | Cannot_reopen_archived | Cannot_archive
  | Not_open | Project_present

definition max_settled_activation_requests :: nat where
  "max_settled_activation_requests = 16"

abbreviation field_check :: "task_field \<Rightarrow> field_error + 'a \<Rightarrow> task_error option" where
  "field_check l r \<equiv> map_option (Task_field l) (failure r)"

subsection \<open>Project bindings\<close>

definition normalize_commit :: "task_field \<Rightarrow> string option \<Rightarrow> task_error + string option" where
  "normalize_commit l v =
     (case v of None \<Rightarrow> Inr None
      | Some c \<Rightarrow> bind_result (map_error (Task_field l) (requireCommit c)) (\<lambda>c. Inr (Some c)))"

definition normalize_binding :: "project_binding \<Rightarrow> task_error + project_binding" where
  "normalize_binding b =
     bind_result (map_error (Task_field TF_projectId) (requireIdentity (bnd_projectId b))) (\<lambda>p.
     bind_result (map_error (Task_field TF_directory) (requireIdentity (bnd_directory b))) (\<lambda>d.
     bind_result (map_error (Task_field TF_baseRef) (requireText (bnd_baseRef b))) (\<lambda>r.
     bind_result (normalize_commit TF_baseCommit (bnd_baseCommit b)) (\<lambda>bc.
     bind_result (normalize_commit TF_currentCommit (bnd_currentCommit b)) (\<lambda>cc.
     if (bc = None) \<noteq> (cc = None) then Inl Binding_commit_incomplete
     else Inr \<lparr>bnd_projectId = p, bnd_directory = d, bnd_baseRef = r, bnd_baseCommit = bc,
               bnd_currentCommit = cc\<rparr>)))))"

fun normalize_bindings_from ::
  "string list \<Rightarrow> string list \<Rightarrow> project_binding list \<Rightarrow> task_error + project_binding list" where
  "normalize_bindings_from projectIds directories [] = Inr []"
| "normalize_bindings_from projectIds directories (b # bs) =
     bind_result (normalize_binding b) (\<lambda>n.
     if bnd_projectId n \<in> set projectIds then Inl Project_duplicated
     else if bnd_directory n \<in> set directories then Inl Directory_duplicated
     else bind_result (normalize_bindings_from (bnd_projectId n # projectIds)
            (bnd_directory n # directories) bs) (\<lambda>ns. Inr (n # ns)))"

definition normalizeProjectBindings :: "project_binding list \<Rightarrow> task_error + project_binding list" where
  "normalizeProjectBindings bindings = normalize_bindings_from [] [] bindings"

subsection \<open>Validation\<close>

definition isSettledActivationRequest :: "activation_request \<Rightarrow> bool" where
  "isSettledActivationRequest r = (act_disposition r = Act_cancelled \<or> act_disposition r = Act_adopted)"

abbreviation request_id :: "activation_request \<Rightarrow> string" where
  "request_id r \<equiv> op_requestId (act_operation r)"

abbreviation request_target :: "activation_request \<Rightarrow> string" where
  "request_target r \<equiv> op_targetId (act_operation r)"

fun settled_errors ::
  "string \<Rightarrow> string option \<Rightarrow> string list \<Rightarrow> activation_request list \<Rightarrow> task_error option" where
  "settled_errors taskId slot seen [] = None"
| "settled_errors taskId slot seen (r # rs) =
     first_error
       [map_option Task_activation (failure (validateTaskActivationRequest r)),
        reject (request_target r \<noteq> taskId) Settled_of_other_task,
        reject (\<not> isSettledActivationRequest r) Settled_not_terminal,
        reject (request_id r \<in> set seen \<or> slot = Some (request_id r)) Activation_duplicated,
        settled_errors taskId slot (request_id r # seen) rs]"

definition source_error :: "task \<Rightarrow> task_error option" where
  "source_error t =
     when_some (task_source t) (\<lambda>s. first_error
       [field_check TF_sourceJob (requireIdentity (src_jobId s)),
        field_check TF_sourceRun (requireIdentity (src_runId s)),
        (case src_scope s of Global_scope \<Rightarrow> None
         | Task_scope i \<Rightarrow> field_check TF_sourceTask (requireIdentity i))])"

definition has_any_completion :: "task \<Rightarrow> bool" where
  "has_any_completion t =
     (task_completedAt t \<noteq> None \<or> task_completedBy t \<noteq> None \<or> task_completionSummary t \<noteq> None)"

definition has_all_completion :: "task \<Rightarrow> bool" where
  "has_all_completion t =
     (task_completedAt t \<noteq> None \<and> task_completedBy t \<noteq> None \<and> task_completionSummary t \<noteq> None)"

definition has_any_retirement :: "task \<Rightarrow> bool" where
  "has_any_retirement t =
     (task_retiredAt t \<noteq> None \<or> task_retiredBy t \<noteq> None \<or> task_retirementSummary t \<noteq> None
      \<or> task_replacementTaskId t \<noteq> None)"

definition has_any_archive :: "task \<Rightarrow> bool" where
  "has_any_archive t =
     (task_archivedAt t \<noteq> None \<or> task_archivedBy t \<noteq> None \<or> task_archiveReason t \<noteq> None
      \<or> task_archiveSummary t \<noteq> None)"

definition header_errors :: "task \<Rightarrow> task_error option list" where
  "header_errors t =
     [field_check TF_id (requireIdentity (task_id t)),
      source_error t,
      field_check TF_title (requireText (task_title t)),
      when_some (task_type t) (\<lambda>v. field_check TF_type (requireIdentity v)),
      field_check TF_createdAt (requireTimestamp (task_createdAt t)),
      field_check TF_updatedAt (requireTimestamp (task_updatedAt t)),
      when_some (task_completionArtifactRefs t) (\<lambda>rs. field_check TF_artifactRef (map_result requireText rs)),
      reject (date_less (task_updatedAt t) (task_createdAt t)) Updated_before_created]"

definition workspace_errors :: "(string \<Rightarrow> string) \<Rightarrow> task \<Rightarrow> task_error option list" where
  "workspace_errors sha t =
     [when_some (task_workspaceIdentity t) (\<lambda>i. first_error
        [map_option Task_identity (failure (validateTaskWorkspaceIdentity sha i)),
         reject (wi_taskId i \<noteq> task_id t) Identity_of_other_task])]"

definition activation_errors :: "task \<Rightarrow> task_error option list" where
  "activation_errors t =
     [when_some (task_activationRequest t) (\<lambda>r. first_error
        [map_option Task_activation (failure (validateTaskActivationRequest r)),
         reject (request_target r \<noteq> task_id t) Activation_of_other_task]),
      when_some (task_settledActivationRequests t) (\<lambda>rs. first_error
        [reject (length rs > max_settled_activation_requests) Settled_exceed_limit,
         settled_errors (task_id t) (map_option request_id (task_activationRequest t)) [] rs])]"

definition metadata_errors :: "task \<Rightarrow> task_error option list" where
  "metadata_errors t =
     [when_some (task_description t) (\<lambda>v. field_check TF_description (requireText v)),
      when_some (task_tags t) (\<lambda>vs. field_check TF_tag (map_result requireText vs)),
      when_some (task_dueAt t) (\<lambda>v. field_check TF_dueAt (requireTimestamp v)),
      failure (normalizeProjectBindings (task_projectBindings t)),
      when_some (task_cwd t) (\<lambda>v. field_check TF_cwd (requireText v))]"

definition completion_errors :: "task \<Rightarrow> task_error option list" where
  "completion_errors t =
     [reject (has_any_completion t \<and> \<not> has_all_completion t) Completion_incomplete,
      when_some (task_completedAt t) (\<lambda>v. field_check TF_completedAt (requireTimestamp v)),
      when_some (task_completionSummary t) (\<lambda>v. field_check TF_completionSummary (requireText v)),
      reject (task_status t = Completed \<and> \<not> has_all_completion t) Completed_without_completion,
      reject (task_status t \<in> {Draft, Active, Cancelled} \<and> has_any_completion t) Completion_not_allowed]"

definition retirement_details :: "task \<Rightarrow> task_error option" where
  "retirement_details t = first_error
     [reject (task_retiredAt t = None \<or> task_retiredBy t = None \<or> task_retirementSummary t = None)
        Retirement_incomplete,
      when_some (task_retiredAt t) (\<lambda>v. field_check TF_retiredAt (requireTimestamp v)),
      when_some (task_retirementSummary t) (\<lambda>v. field_check TF_retirementSummary (requireText v)),
      when_some (task_replacementTaskId t) (\<lambda>v. field_check TF_replacement (requireIdentity v)),
      when_some (task_replacementTaskId t) (\<lambda>v. reject (requireIdentity v = Inr (task_id t)) Replaces_itself)]"

definition retirement_errors :: "task \<Rightarrow> task_error option list" where
  "retirement_errors t =
     [if task_status t = Cancelled \<or> (task_status t = Archived \<and> has_any_retirement t)
      then retirement_details t
      else reject (has_any_retirement t) Retirement_not_allowed]"

definition archive_errors :: "task \<Rightarrow> task_error option list" where
  "archive_errors t =
     [if task_status t = Archived then first_error
        [reject (task_archivedAt t = None \<or> task_archivedBy t = None) Archive_incomplete,
         when_some (task_archivedAt t) (\<lambda>v. field_check TF_archivedAt (requireTimestamp v)),
         when_some (task_archiveReason t) (\<lambda>v. field_check TF_archiveReason (requireText v)),
         when_some (task_archiveSummary t) (\<lambda>v. field_check TF_archiveSummary (requireText v)),
         reject (has_all_completion t = has_any_retirement t) Archive_outcome_ambiguous]
      else reject (has_any_archive t) Archive_not_allowed]"

definition validateTask :: "(string \<Rightarrow> string) \<Rightarrow> task \<Rightarrow> task_error + task" where
  "validateTask sha t =
     check (header_errors t @ workspace_errors sha t @ activation_errors t @ metadata_errors t
       @ completion_errors t @ retirement_errors t @ archive_errors t) t"

subsection \<open>Creation and metadata\<close>

definition text_or_error :: "task_field \<Rightarrow> field_error + 'a \<Rightarrow> task_error + 'a" where
  "text_or_error l r = map_error (Task_field l) r"

definition optional_field ::
  "task_field \<Rightarrow> ('a \<Rightarrow> field_error + 'a) \<Rightarrow> 'a option \<Rightarrow> task_error + 'a option" where
  "optional_field l p v =
     (case v of None \<Rightarrow> Inr None | Some x \<Rightarrow> bind_result (text_or_error l (p x)) (\<lambda>y. Inr (Some y)))"

definition createTask :: "string \<Rightarrow> string \<Rightarrow> time \<Rightarrow> task_metadata \<Rightarrow> task_error + task" where
  "createTask i title now md =
     bind_result (text_or_error TF_id (requireIdentity i)) (\<lambda>i.
     bind_result (text_or_error TF_title (requireText title)) (\<lambda>title.
     bind_result (optional_field TF_type requireIdentity (md_type md)) (\<lambda>ty.
     bind_result (normalizeProjectBindings (case md_projectBindings md of None \<Rightarrow> [] | Some bs \<Rightarrow> bs)) (\<lambda>bs.
     bind_result (optional_field TF_cwd requireText (md_cwd md)) (\<lambda>cwd.
     Inr \<lparr>task_source = None, task_id = i, task_title = title, task_type = ty,
       task_description = md_description md, task_priority = md_priority md, task_tags = md_tags md,
       task_dueAt = md_dueAt md, task_projectBindings = bs, task_cwd = cwd,
       task_workspaceIdentity = None, task_status = Draft, task_executionGate = Enabled,
       task_activationRequest = None, task_settledActivationRequests = None,
       task_completedAt = None, task_completedBy = None, task_completionSummary = None,
       task_completionArtifactRefs = None, task_retiredAt = None, task_retiredBy = None,
       task_retirementSummary = None, task_retirementIsolation = False, task_replacementTaskId = None,
       task_archivedAt = None, task_archivedBy = None, task_archiveReason = None,
       task_archiveSummary = None, task_createdAt = toISOString now, task_updatedAt = toISOString now\<rparr>)))))"

definition applyOptional :: "'a option option \<Rightarrow> 'a option \<Rightarrow> 'a option" where
  "applyOptional v current = (case v of None \<Rightarrow> current | Some w \<Rightarrow> w)"

definition updateTaskMetadata :: "task \<Rightarrow> task_metadata_update \<Rightarrow> time \<Rightarrow> task_error + task" where
  "updateTaskMetadata t up now =
     bind_result (case up_title up of None \<Rightarrow> Inr (task_title t)
                  | Some v \<Rightarrow> text_or_error TF_title (requireText v)) (\<lambda>title.
     bind_result (case up_projectBindings up of None \<Rightarrow> Inr (task_projectBindings t)
                  | Some bs \<Rightarrow> normalizeProjectBindings bs) (\<lambda>bs.
     bind_result (case up_cwd up of None \<Rightarrow> Inr (task_cwd t)
                  | Some v \<Rightarrow> bind_result (text_or_error TF_cwd (requireText v)) (\<lambda>c. Inr (Some c))) (\<lambda>cwd.
     Inr (t\<lparr>task_updatedAt := toISOString now, task_title := title,
            task_type := applyOptional (up_type up) (task_type t),
            task_description := applyOptional (up_description up) (task_description t),
            task_priority := applyOptional (up_priority up) (task_priority t),
            task_tags := applyOptional (up_tags up) (task_tags t),
            task_dueAt := applyOptional (up_dueAt up) (task_dueAt t),
            task_projectBindings := bs, task_cwd := cwd\<rparr>))))"

definition updateTaskWorkspace :: "task \<Rightarrow> string \<Rightarrow> time \<Rightarrow> task_error + task" where
  "updateTaskWorkspace t cwd now =
     bind_result (text_or_error TF_cwd (requireText cwd)) (\<lambda>c.
       Inr (t\<lparr>task_cwd := Some c, task_updatedAt := toISOString now\<rparr>))"

subsection \<open>Workspace identity and activation requests\<close>

definition bindTaskWorkspaceIdentity ::
  "(string \<Rightarrow> string) \<Rightarrow> task \<Rightarrow> workspace_identity \<Rightarrow> time \<Rightarrow> task_error + task" where
  "bindTaskWorkspaceIdentity sha t identity now =
     bind_result (validateTask sha t) (\<lambda>_.
     bind_result (map_error Task_identity (validateTaskWorkspaceIdentity sha identity)) (\<lambda>valid.
     if wi_taskId valid \<noteq> task_id t then Inl Identity_of_other_task else
     case task_workspaceIdentity t of
       Some existing \<Rightarrow>
         if wi_token existing \<noteq> wi_token valid \<or> wi_generatedAt existing \<noteq> wi_generatedAt valid
            \<or> wi_homeId existing \<noteq> wi_homeId valid then Inl Identity_already_bound
         else Inr t
     | None \<Rightarrow>
         validateTask sha (t\<lparr>task_workspaceIdentity := Some valid, task_updatedAt := toISOString now\<rparr>)))"

definition displaced_request :: "task \<Rightarrow> activation_request \<Rightarrow> activation_request list" where
  "displaced_request t r =
     (case task_activationRequest t of
        None \<Rightarrow> []
      | Some existing \<Rightarrow>
          if request_id existing \<noteq> request_id r \<and> isSettledActivationRequest existing then [existing] else [])"

definition retained_requests :: "task \<Rightarrow> activation_request \<Rightarrow> activation_request list" where
  "retained_requests t r =
     last_n max_settled_activation_requests
       (filter (\<lambda>s. request_id s \<noteq> request_id r)
         ((case task_settledActivationRequests t of None \<Rightarrow> [] | Some rs \<Rightarrow> rs) @ displaced_request t r))"

definition install_request :: "task \<Rightarrow> activation_request \<Rightarrow> time \<Rightarrow> task" where
  "install_request t r now =
     t\<lparr>task_activationRequest := Some r,
       task_settledActivationRequests :=
         (if retained_requests t r = [] then task_settledActivationRequests t else Some (retained_requests t r)),
       task_updatedAt := toISOString now\<rparr>"

definition setTaskActivationRequest ::
  "(string \<Rightarrow> string) \<Rightarrow> task \<Rightarrow> activation_request \<Rightarrow> time \<Rightarrow> task_error + task" where
  "setTaskActivationRequest sha t request now =
     bind_result (validateTask sha t) (\<lambda>_.
     bind_result (map_error Task_activation (validateTaskActivationRequest request)) (\<lambda>valid.
     if request_target valid \<noteq> task_id t then Inl Activation_of_other_task
     else if (case task_activationRequest t of None \<Rightarrow> False
              | Some e \<Rightarrow> request_id e = request_id valid
                  \<and> op_inputDigest (act_operation e) \<noteq> op_inputDigest (act_operation valid))
     then Inl Request_id_reused
     else validateTask sha (install_request t valid now)))"

definition record_settled_evidence ::
  "string \<Rightarrow> operation_evidence \<Rightarrow> time \<Rightarrow> activation_request \<Rightarrow> task_error + activation_request" where
  "record_settled_evidence requestId evidence now r =
     (if request_id r = requestId
      then map_error Task_activation (recordTaskActivationEvidence r evidence now) else Inr r)"

definition recordTaskActivationRequestEvidence ::
  "(string \<Rightarrow> string) \<Rightarrow> task \<Rightarrow> string \<Rightarrow> operation_evidence \<Rightarrow> time \<Rightarrow> task_error + task" where
  "recordTaskActivationRequestEvidence sha t requestId evidence now =
     (if map_option request_id (task_activationRequest t) = Some requestId then
        bind_result (map_error Task_activation
          (recordTaskActivationEvidence (the (task_activationRequest t)) evidence now)) (\<lambda>updated.
        if Some updated = task_activationRequest t then Inr t
        else validateTask sha (t\<lparr>task_activationRequest := Some updated, task_updatedAt := toISOString now\<rparr>))
      else
        (case task_settledActivationRequests t of
           None \<Rightarrow> Inl Request_not_found
         | Some settled \<Rightarrow>
             if \<not> (\<exists>r \<in> set settled. request_id r = requestId) then Inl Request_not_found else
             bind_result (map_result (record_settled_evidence requestId evidence now) settled) (\<lambda>rs.
             validateTask sha (t\<lparr>task_settledActivationRequests := Some rs, task_updatedAt := toISOString now\<rparr>))))"

subsection \<open>Lifecycle\<close>

definition activateTask :: "task \<Rightarrow> time \<Rightarrow> task_error + task" where
  "activateTask t now =
     (case task_status t of
        Archived \<Rightarrow> Inl (Cannot_activate Archived)
      | Completed \<Rightarrow> Inl (Cannot_activate Completed)
      | Cancelled \<Rightarrow> Inl (Cannot_activate Cancelled)
      | Active \<Rightarrow> Inr t
      | Draft \<Rightarrow> Inr (t\<lparr>task_status := Active, task_updatedAt := toISOString now\<rparr>))"

text \<open>The \<open>Map\<close> from project to commit: entries in order, a later one replacing an earlier one.\<close>

definition commit_entries :: "(string \<times> string) list \<Rightarrow> task_error + (string \<times> string) list" where
  "commit_entries commits =
     map_result (\<lambda>(p, c). bind_result (text_or_error TF_projectId (requireIdentity p)) (\<lambda>p.
       bind_result (text_or_error TF_commit (requireCommit c)) (\<lambda>c. Inr (p, c)))) commits"

definition commit_of :: "(string \<times> string) list \<Rightarrow> string \<Rightarrow> string option" where
  "commit_of entries p = map_of (rev entries) p"

definition scope_mismatch :: "task \<Rightarrow> (string \<times> string) list \<Rightarrow> (string \<times> string) list \<Rightarrow> bool" where
  "scope_mismatch t commits entries =
     (card (set (map fst entries)) \<noteq> length commits
      \<or> card (set (map fst entries)) \<noteq> length (task_projectBindings t)
      \<or> (\<exists>b \<in> set (task_projectBindings t). commit_of entries (bnd_projectId b) = None))"

definition bindTaskProjectCommits ::
  "(string \<Rightarrow> string) \<Rightarrow> task \<Rightarrow> (string \<times> string) list \<Rightarrow> time \<Rightarrow> task_error + task" where
  "bindTaskProjectCommits sha t commits now =
     bind_result (validateTask sha t) (\<lambda>_.
     if task_status t \<noteq> Draft then Inl Commits_not_draft else
     bind_result (commit_entries commits) (\<lambda>entries.
     if scope_mismatch t commits entries then Inl Commit_scope_mismatch else
     validateTask sha (t\<lparr>task_projectBindings :=
         map (\<lambda>b. b\<lparr>bnd_baseCommit := commit_of entries (bnd_projectId b),
                   bnd_currentCommit := commit_of entries (bnd_projectId b)\<rparr>) (task_projectBindings t),
       task_updatedAt := toISOString now\<rparr>)))"

definition advance_binding ::
  "string \<Rightarrow> string \<Rightarrow> string \<Rightarrow> project_binding \<Rightarrow> task_error + project_binding" where
  "advance_binding projectId expected next b =
     (if bnd_projectId b \<noteq> projectId then Inr b
      else if bnd_currentCommit b \<noteq> Some expected then Inl Commit_moved
      else Inr (b\<lparr>bnd_currentCommit := Some next\<rparr>))"

definition advanceTaskProjectCommit ::
  "(string \<Rightarrow> string) \<Rightarrow> task \<Rightarrow> string \<Rightarrow> string \<Rightarrow> string \<Rightarrow> time \<Rightarrow> task_error + task" where
  "advanceTaskProjectCommit sha t projectId expectedCommit nextCommit now =
     bind_result (validateTask sha t) (\<lambda>_.
     bind_result (text_or_error TF_expectedCommit (requireCommit expectedCommit)) (\<lambda>expected.
     bind_result (text_or_error TF_nextCommit (requireCommit nextCommit)) (\<lambda>next.
     bind_result (map_result (advance_binding projectId expected next) (task_projectBindings t)) (\<lambda>bs.
     if \<not> (\<exists>b \<in> set (task_projectBindings t). bnd_projectId b = projectId) then Inl Binding_not_found
     else validateTask sha (t\<lparr>task_projectBindings := bs, task_updatedAt := toISOString now\<rparr>)))))"

definition synchronized_binding :: "(string \<times> string) list \<Rightarrow> project_binding \<Rightarrow> project_binding" where
  "synchronized_binding entries b =
     (let commit = commit_of entries (bnd_projectId b) in
      if bnd_baseCommit b = None then b\<lparr>bnd_baseCommit := commit, bnd_currentCommit := commit\<rparr>
      else b\<lparr>bnd_currentCommit := commit\<rparr>)"

definition synchronizeTaskProjectCommits ::
  "(string \<Rightarrow> string) \<Rightarrow> task \<Rightarrow> (string \<times> string) list \<Rightarrow> time \<Rightarrow> task_error + task" where
  "synchronizeTaskProjectCommits sha t commits now =
     bind_result (validateTask sha t) (\<lambda>_.
     bind_result (commit_entries commits) (\<lambda>entries.
     if scope_mismatch t commits entries then Inl Commit_scope_mismatch else
     let bs = map (synchronized_binding entries) (task_projectBindings t) in
     if map bnd_currentCommit bs = map bnd_currentCommit (task_projectBindings t) then Inr t
     else validateTask sha (t\<lparr>task_projectBindings := bs, task_updatedAt := toISOString now\<rparr>)))"

record task_retirement =
  ret_by :: task_actor
  ret_summary :: string
  ret_replacementTaskId :: "string option"
  ret_isolated :: bool

definition retireTask :: "(string \<Rightarrow> string) \<Rightarrow> task \<Rightarrow> task_retirement \<Rightarrow> time \<Rightarrow> task_error + task" where
  "retireTask sha t input now =
     bind_result (validateTask sha t) (\<lambda>_.
     bind_result (text_or_error TF_retirementSummary (requireText (ret_summary input))) (\<lambda>summary.
     bind_result (optional_field TF_replacement requireIdentity (ret_replacementTaskId input)) (\<lambda>replacement.
     if replacement = Some (task_id t) then Inl Replaces_itself
     else if task_status t = Cancelled then
       (if task_retiredBy t = Some (ret_by input) \<and> task_retirementSummary t = Some summary
           \<and> task_replacementTaskId t = ret_replacementTaskId input then Inr t else Inl Already_retired)
     else if task_status t \<in> {Archived, Completed} then Inl Cannot_retire
     else validateTask sha (t\<lparr>task_status := Cancelled, task_retiredAt := Some (toISOString now),
            task_retiredBy := Some (ret_by input), task_retirementSummary := Some summary,
            task_retirementIsolation := (ret_isolated input \<or> task_retirementIsolation t),
            task_replacementTaskId := (if ret_replacementTaskId input = None then task_replacementTaskId t
                                       else ret_replacementTaskId input),
            task_updatedAt := toISOString now\<rparr>))))"

definition completeTask ::
  "task \<Rightarrow> time \<Rightarrow> task_actor \<Rightarrow> string \<Rightarrow> string list option \<Rightarrow> task_error + task" where
  "completeTask t now by summary artifactRefs =
     (if task_status t = Completed then Inr t
      else if task_status t \<noteq> Active then Inl Not_active
      else bind_result (text_or_error TF_completionSummary (requireText summary)) (\<lambda>summary.
           bind_result (optional_field TF_artifactRef (map_result requireText) artifactRefs) (\<lambda>refs.
           Inr (t\<lparr>task_status := Completed, task_completedAt := Some (toISOString now),
             task_completedBy := Some by, task_completionSummary := Some summary,
             task_completionArtifactRefs := (if refs = None then task_completionArtifactRefs t else refs),
             task_updatedAt := toISOString now\<rparr>))))"

definition superseded_text :: "time \<Rightarrow> string" where
  "superseded_text now = ''Task was completed and reopened at '' @ toISOString now @ ''; request superseded.''"

definition cleared_outcome :: "task \<Rightarrow> task" where
  "cleared_outcome t =
     t\<lparr>task_completedAt := None, task_completedBy := None, task_completionSummary := None,
       task_completionArtifactRefs := None, task_retiredAt := None, task_retiredBy := None,
       task_retirementSummary := None, task_replacementTaskId := None, task_retirementIsolation := False\<rparr>"

definition reopened_request :: "task \<Rightarrow> time \<Rightarrow> task_error + activation_request option" where
  "reopened_request t now =
     (case task_activationRequest t of
        None \<Rightarrow> Inr None
      | Some r \<Rightarrow>
          if act_disposition r = Act_pending
          then bind_result (map_error Task_activation (cancelTaskActivationRequest r (superseded_text now) now))
                 (\<lambda>r. Inr (Some r))
          else Inr (Some r))"

definition reopenTask :: "(string \<Rightarrow> string) \<Rightarrow> task \<Rightarrow> time \<Rightarrow> task_error + task" where
  "reopenTask sha t now =
     (if task_status t = Archived then Inl Cannot_reopen_archived
      else if task_status t \<noteq> Completed \<and> task_status t \<noteq> Cancelled then Inl Cannot_reopen
      else bind_result (reopened_request t now) (\<lambda>request.
           validateTask sha ((cleared_outcome t)\<lparr>task_activationRequest := request, task_status := Active,
             task_updatedAt := toISOString now\<rparr>)))"

record task_archive =
  arc_by :: task_actor
  arc_reason :: "string option"
  arc_summary :: "string option"

definition archiveTask :: "(string \<Rightarrow> string) \<Rightarrow> task \<Rightarrow> time \<Rightarrow> task_archive option \<Rightarrow> task_error + task" where
  "archiveTask sha t now archive =
     (if task_status t = Archived then Inr t
      else if task_status t \<noteq> Completed \<and> task_status t \<noteq> Cancelled then Inl Cannot_archive
      else validateTask sha (t\<lparr>task_status := Archived, task_archivedAt := Some (toISOString now),
             task_archivedBy := Some (case archive of None \<Rightarrow> By_user | Some a \<Rightarrow> arc_by a),
             task_archiveReason := (case Option.bind archive arc_reason of
                None \<Rightarrow> task_archiveReason t | Some r \<Rightarrow> Some (trim r)),
             task_archiveSummary := (case Option.bind archive arc_summary of
                None \<Rightarrow> task_archiveSummary t | Some r \<Rightarrow> Some (trim r)),
             task_updatedAt := toISOString now\<rparr>))"

definition updateTaskArchived ::
  "(string \<Rightarrow> string) \<Rightarrow> task \<Rightarrow> bool \<Rightarrow> time \<Rightarrow> task_archive option \<Rightarrow> task_error + task" where
  "updateTaskArchived sha t archived now archive =
     (if archived then archiveTask sha t now archive
      else if task_status t = Archived then Inl Cannot_reopen_archived
      else Inr (t\<lparr>task_updatedAt := toISOString now\<rparr>))"

definition isTaskExecutionEnabled :: "task \<Rightarrow> bool" where
  "isTaskExecutionEnabled t = (task_executionGate t = Enabled)"

definition stopTaskExecution :: "(string \<Rightarrow> string) \<Rightarrow> task \<Rightarrow> time \<Rightarrow> task_error + task" where
  "stopTaskExecution sha t now =
     bind_result (validateTask sha t) (\<lambda>_.
     if task_status t \<noteq> Active \<and> task_status t \<noteq> Draft then Inl Not_open
     else if task_executionGate t = Stopped then Inr t
     else validateTask sha (t\<lparr>task_executionGate := Stopped, task_updatedAt := toISOString now\<rparr>))"

definition startTaskExecution :: "(string \<Rightarrow> string) \<Rightarrow> task \<Rightarrow> time \<Rightarrow> task_error + task" where
  "startTaskExecution sha t now =
     bind_result (validateTask sha t) (\<lambda>_.
     if task_status t \<noteq> Active \<and> task_status t \<noteq> Draft then Inl Not_open
     else if task_executionGate t = Enabled then Inr t
     else validateTask sha (t\<lparr>task_executionGate := Enabled, task_updatedAt := toISOString now\<rparr>))"

definition taskProjectBinding :: "task \<Rightarrow> string \<Rightarrow> project_binding option" where
  "taskProjectBinding t projectId = find (\<lambda>b. bnd_projectId b = projectId) (task_projectBindings t)"

definition taskHasProjects :: "task \<Rightarrow> bool" where
  "taskHasProjects t = (task_projectBindings t \<noteq> [])"

definition taskProjectIds :: "task \<Rightarrow> string list" where
  "taskProjectIds t = map bnd_projectId (task_projectBindings t)"

definition isTaskArchived :: "task \<Rightarrow> bool" where
  "isTaskArchived t = (task_status t = Archived)"

definition addTaskProjectBinding ::
  "(string \<Rightarrow> string) \<Rightarrow> task \<Rightarrow> project_binding \<Rightarrow> time \<Rightarrow> task_error + task" where
  "addTaskProjectBinding sha t binding now =
     (if taskProjectBinding t (bnd_projectId binding) \<noteq> None then Inl Project_present
      else bind_result (normalizeProjectBindings (task_projectBindings t @ [binding])) (\<lambda>bs.
           validateTask sha (t\<lparr>task_projectBindings := bs, task_updatedAt := toISOString now\<rparr>)))"

subsection \<open>Admission of an activation request\<close>

datatype activation_admission =
    Admission_ready activation_request
  | Admission_deferred activation_request string
  | Admission_settled activation_request
  | Admission_unavailable activation_request

definition admitTaskActivationRequest ::
  "task \<Rightarrow> activation_request option \<Rightarrow> (string \<Rightarrow> bool) \<Rightarrow> activation_admission option" where
  "admitTaskActivationRequest t request planningRunIsActive =
     (case request of
        None \<Rightarrow> None
      | Some r \<Rightarrow>
          if act_disposition r = Act_adopted \<or> act_disposition r = Act_cancelled then Some (Admission_settled r)
          else if request_target r \<noteq> task_id t then Some (Admission_unavailable r)
          else if task_status t \<noteq> Draft then Some (Admission_unavailable r)
          else if task_executionGate t \<noteq> Enabled then Some (Admission_unavailable r)
          else (case act_afterPlanningRun r of
                  Some run \<Rightarrow> if planningRunIsActive run then Some (Admission_deferred r run)
                              else Some (Admission_ready r)
                | None \<Rightarrow> Some (Admission_ready r)))"

subsection \<open>Validity\<close>

definition task_valid :: "(string \<Rightarrow> string) \<Rightarrow> task \<Rightarrow> bool" where
  "task_valid sha t \<longleftrightarrow> validateTask sha t = Inr t"

lemma validateTask_Inr [transition]: "validateTask sha t = Inr u \<longleftrightarrow> u = t \<and> task_valid sha t"
  by (auto simp: validateTask_def task_valid_def check_Inr)

lemma task_valid_iff:
  "task_valid sha t \<longleftrightarrow>
     first_error (header_errors t) = None \<and> first_error (workspace_errors sha t) = None \<and>
     first_error (activation_errors t) = None \<and> first_error (metadata_errors t) = None \<and>
     first_error (completion_errors t) = None \<and> first_error (retirement_errors t) = None \<and>
     first_error (archive_errors t) = None"
  by (simp add: task_valid_def validateTask_def check_Inr)

text \<open>The clock does not run backwards: from \<open>T0\<close> on, every time given to an operation is at least \<open>T0\<close>.\<close>

definition created_by :: "time \<Rightarrow> task \<Rightarrow> bool" where
  "created_by T0 t \<longleftrightarrow> (case Date_parse (task_createdAt t) of None \<Rightarrow> False | Some c \<Rightarrow> c \<le> T0)"

definition clock_ok :: "time \<Rightarrow> time \<Rightarrow> bool" where
  "clock_ok T0 now \<longleftrightarrow> valid_time now \<and> T0 \<le> now"

definition task_inv :: "(string \<Rightarrow> string) \<Rightarrow> time \<Rightarrow> task \<Rightarrow> bool" where
  "task_inv sha T0 t \<longleftrightarrow> task_valid sha t \<and> created_by T0 t"

lemma not_before_creation:
  "created_by T0 t \<Longrightarrow> clock_ok T0 now \<Longrightarrow> \<not> date_less (toISOString now) (task_createdAt t)"
  by (auto simp: created_by_def clock_ok_def date_less_def split: option.splits)

lemma header_touch:
  assumes "first_error (header_errors t) = None" "created_by T0 t" "clock_ok T0 now"
  shows "first_error (header_errors (t\<lparr>task_updatedAt := toISOString now\<rparr>)) = None"
  using assms not_before_creation [OF assms(2,3)]
  by (simp add: header_errors_def source_error_def clock_ok_def)

lemma group_touch:
  "workspace_errors sha (t\<lparr>task_updatedAt := u\<rparr>) = workspace_errors sha t"
  "activation_errors (t\<lparr>task_updatedAt := u\<rparr>) = activation_errors t"
  "metadata_errors (t\<lparr>task_updatedAt := u\<rparr>) = metadata_errors t"
  "completion_errors (t\<lparr>task_updatedAt := u\<rparr>) = completion_errors t"
  "retirement_errors (t\<lparr>task_updatedAt := u\<rparr>) = retirement_errors t"
  "archive_errors (t\<lparr>task_updatedAt := u\<rparr>) = archive_errors t"
  by (simp_all add: workspace_errors_def activation_errors_def metadata_errors_def completion_errors_def
      retirement_errors_def retirement_details_def archive_errors_def has_any_completion_def
      has_all_completion_def has_any_retirement_def has_any_archive_def)

lemma group_status:
  "header_errors (t\<lparr>task_status := st\<rparr>) = header_errors t"
  "workspace_errors sha (t\<lparr>task_status := st\<rparr>) = workspace_errors sha t"
  "activation_errors (t\<lparr>task_status := st\<rparr>) = activation_errors t"
  "metadata_errors (t\<lparr>task_status := st\<rparr>) = metadata_errors t"
  by (simp_all add: header_errors_def source_error_def workspace_errors_def activation_errors_def metadata_errors_def)

lemma touch_valid:
  "task_valid sha t \<Longrightarrow> created_by T0 t \<Longrightarrow> clock_ok T0 now \<Longrightarrow> task_valid sha (t\<lparr>task_updatedAt := toISOString now\<rparr>)"
  by (simp add: task_valid_iff header_touch group_touch)

lemma valid_open:
  assumes "task_valid sha t" "task_status t \<in> {Draft, Active}"
  shows "\<not> has_any_completion t" "\<not> has_any_retirement t" "\<not> has_any_archive t"
  using assms by (auto simp: task_valid_iff completion_errors_def retirement_errors_def archive_errors_def)

lemma activate_valid:
  assumes "task_valid sha t" "task_status t = Draft"
  shows "task_valid sha (t\<lparr>task_status := Active\<rparr>)"
  using assms valid_open [OF assms(1)]
  by (auto simp: task_valid_iff group_status completion_errors_def retirement_errors_def archive_errors_def
      has_any_completion_def has_all_completion_def has_any_retirement_def has_any_archive_def)

lemma normalize_commit_Inr:
  "normalize_commit l v = Inr w \<longleftrightarrow> (case v of None \<Rightarrow> w = None | Some c \<Rightarrow> \<exists>d. requireCommit c = Inr d \<and> w = Some d)"
  by (auto simp: normalize_commit_def bind_result_Inr map_error_Inr split: option.splits)

lemma normalize_commit_idem: "normalize_commit l v = Inr w \<Longrightarrow> normalize_commit l w = Inr w"
  by (cases v) (auto simp: normalize_commit_Inr dest: requireCommit_idem)

lemma normalize_binding_Inr:
  "normalize_binding b = Inr n \<longleftrightarrow>
     requireIdentity (bnd_projectId b) = Inr (bnd_projectId n) \<and>
     requireIdentity (bnd_directory b) = Inr (bnd_directory n) \<and> requireText (bnd_baseRef b) = Inr (bnd_baseRef n) \<and>
     normalize_commit TF_baseCommit (bnd_baseCommit b) = Inr (bnd_baseCommit n) \<and>
     normalize_commit TF_currentCommit (bnd_currentCommit b) = Inr (bnd_currentCommit n) \<and>
     ((bnd_baseCommit n = None) = (bnd_currentCommit n = None))"
  by (cases n; cases "normalize_commit TF_baseCommit (bnd_baseCommit b)";
      cases "normalize_commit TF_currentCommit (bnd_currentCommit b)")
    (auto simp: normalize_binding_def bind_result_Inr map_error_Inr)

lemma normalize_binding_idem: "normalize_binding b = Inr n \<Longrightarrow> normalize_binding n = Inr n"
  unfolding normalize_binding_Inr
  using requireIdentity_idem requireText_idem normalize_commit_idem by blast

lemma normalize_bindings_from_Inr:
  "normalize_bindings_from ps ds bs = Inr ns \<longleftrightarrow>
     map_result normalize_binding bs = Inr ns \<and> distinct (map bnd_projectId ns) \<and> distinct (map bnd_directory ns) \<and>
     (\<forall>n \<in> set ns. bnd_projectId n \<notin> set ps) \<and> (\<forall>n \<in> set ns. bnd_directory n \<notin> set ds)"
proof (induction bs arbitrary: ps ds ns)
  case Nil
  then show ?case by auto
next
  case (Cons b bs)
  show ?case
  proof (cases "normalize_binding b")
    case (Inl e)
    then show ?thesis by simp
  next
    case (Inr n)
    have l: "normalize_bindings_from ps ds (b # bs) = Inr ns \<longleftrightarrow>
        bnd_projectId n \<notin> set ps \<and> bnd_directory n \<notin> set ds \<and>
        (\<exists>ms. normalize_bindings_from (bnd_projectId n # ps) (bnd_directory n # ds) bs = Inr ms \<and> ns = n # ms)"
      using Inr by (auto simp: bind_result_Inr)
    have r: "map_result normalize_binding (b # bs) = Inr ns \<longleftrightarrow>
        (\<exists>ms. map_result normalize_binding bs = Inr ms \<and> ns = n # ms)"
      using Inr by (auto simp: bind_result_Inr)
    show ?thesis unfolding l r Cons.IH by (auto, (metis image_eqI)+)
  qed
qed

lemma normalizeProjectBindings_Inr [validity]:
  "normalizeProjectBindings bs = Inr ns \<longleftrightarrow>
     map_result normalize_binding bs = Inr ns \<and> distinct (map bnd_projectId ns) \<and> distinct (map bnd_directory ns)"
  by (simp add: normalizeProjectBindings_def normalize_bindings_from_Inr)

lemma normalizeProjectBindings_idem:
  "normalizeProjectBindings bs = Inr ns \<Longrightarrow> normalizeProjectBindings ns = Inr ns"
  using map_result_idem [of normalize_binding bs ns] normalize_binding_idem
  by (simp add: normalizeProjectBindings_Inr)

lemma optional_field_Inr:
  "optional_field l p v = Inr w \<longleftrightarrow> (case v of None \<Rightarrow> w = None | Some x \<Rightarrow> \<exists>y. p x = Inr y \<and> w = Some y)"
  by (auto simp: optional_field_def text_or_error_def bind_result_Inr map_error_Inr split: option.splits)

lemma complete_valid:
  assumes "task_valid sha t" "task_status t = Active" "valid_time now" "requireText summary = Inr s"
    and "refs = None \<or> (\<exists>rs. refs = Some rs \<and> failure (map_result requireText rs) = None)"
  shows "task_valid sha (t\<lparr>task_status := Completed, task_completedAt := Some (toISOString now),
    task_completedBy := Some a, task_completionSummary := Some s,
    task_completionArtifactRefs := (if refs = None then task_completionArtifactRefs t else refs)\<rparr>)"
proof -
  have fs: "failure (requireText s) = None" using requireText_idem [OF assms(4)] by simp
  have "first_error (header_errors (t\<lparr>task_status := Completed, task_completedAt := Some (toISOString now),
      task_completedBy := Some a, task_completionSummary := Some s,
      task_completionArtifactRefs := (if refs = None then task_completionArtifactRefs t else refs)\<rparr>)) = None"
    using assms(1,5) by (auto simp: task_valid_iff header_errors_def source_error_def)
  then show ?thesis
    using assms(1-3) fs valid_open [OF assms(1)]
    by (auto simp: task_valid_iff workspace_errors_def activation_errors_def metadata_errors_def
        completion_errors_def retirement_errors_def archive_errors_def has_any_completion_def
        has_all_completion_def has_any_retirement_def has_any_archive_def)
qed

text \<open>The metadata that the source stores without checking it.\<close>

definition unchecked_wf ::
  "string option \<Rightarrow> string list option \<Rightarrow> string option \<Rightarrow> bool" where
  "unchecked_wf description tags dueAt \<longleftrightarrow>
     pred_option (\<lambda>v. failure (requireText v) = None) description \<and>
     pred_option (\<lambda>vs. failure (map_result requireText vs) = None) tags \<and>
     pred_option (\<lambda>v. failure (requireTimestamp v) = None) dueAt"

definition update_wf :: "task_metadata_update \<Rightarrow> bool" where
  "update_wf up \<longleftrightarrow>
     pred_option (pred_option (\<lambda>v. failure (requireIdentity v) = None)) (up_type up) \<and>
     unchecked_wf (Option.bind (up_description up) (\<lambda>v. v)) (Option.bind (up_tags up) (\<lambda>v. v))
       (Option.bind (up_dueAt up) (\<lambda>v. v))"

lemma createTask_valid:
  assumes "createTask i title now md = Inr t" "valid_time now"
    "unchecked_wf (md_description md) (md_tags md) (md_dueAt md)"
  shows "task_inv sha now t \<and> task_status t = Draft"
proof -
  from assms(1) obtain j ti ty bs cwd where r:
    "requireIdentity i = Inr j" "requireText title = Inr ti" "optional_field TF_type requireIdentity (md_type md) = Inr ty"
    "normalizeProjectBindings (case md_projectBindings md of None \<Rightarrow> [] | Some bs \<Rightarrow> bs) = Inr bs"
    "optional_field TF_cwd requireText (md_cwd md) = Inr cwd"
    and t: "task_id t = j" "task_title t = ti" "task_type t = ty" "task_projectBindings t = bs" "task_cwd t = cwd"
    "task_description t = md_description md" "task_tags t = md_tags md" "task_dueAt t = md_dueAt md"
    "task_createdAt t = toISOString now" "task_updatedAt t = toISOString now" "task_source t = None"
    "task_status t = Draft" "task_completionArtifactRefs t = None" "task_workspaceIdentity t = None"
    "task_activationRequest t = None" "task_settledActivationRequests t = None"
    "\<not> has_any_completion t" "\<not> has_any_retirement t" "\<not> has_any_archive t"
    by (auto simp: createTask_def bind_result_Inr text_or_error_def map_error_Inr has_any_completion_def
        has_any_retirement_def has_any_archive_def)
  have "requireIdentity j = Inr j" "requireText ti = Inr ti" "normalizeProjectBindings bs = Inr bs"
    using r requireIdentity_idem requireText_idem normalizeProjectBindings_idem by blast+
  moreover have "\<forall>v. ty = Some v \<longrightarrow> requireIdentity v = Inr v" "\<forall>v. cwd = Some v \<longrightarrow> requireText v = Inr v"
    using r(3,5) requireIdentity_idem requireText_idem
    by (auto simp: optional_field_Inr split: option.splits)
  moreover have "\<not> date_less (toISOString now) (toISOString now)" by (simp add: date_less_def split: option.splits)
  ultimately have "first_error (header_errors t) = None" "first_error (metadata_errors t) = None"
    using t assms(2,3)
    by (auto simp: header_errors_def source_error_def metadata_errors_def unchecked_wf_def option.pred_set)
  moreover have "first_error (workspace_errors sha t) = None" "first_error (activation_errors t) = None"
    "first_error (completion_errors t) = None" "first_error (retirement_errors t) = None"
    "first_error (archive_errors t) = None"
    using t by (auto simp: workspace_errors_def activation_errors_def completion_errors_def retirement_errors_def
        archive_errors_def has_any_completion_def)
  ultimately show ?thesis
    using t assms(2) by (simp add: task_inv_def task_valid_iff created_by_def)
qed

lemma metadata_update_valid:
  assumes t: "task_inv sha T0 t" and c: "clock_ok T0 now" and wf: "update_wf up"
    and run: "updateTaskMetadata t up now = Inr u"
  shows "task_valid sha u"
proof -
  obtain ti bs cwd where
    ti: "failure (requireText ti) = None" and bs: "failure (normalizeProjectBindings bs) = None"
    and cwd: "\<forall>v. cwd = Some v \<longrightarrow> failure (requireText v) = None"
    and u: "u = t\<lparr>task_updatedAt := toISOString now, task_title := ti,
            task_type := applyOptional (up_type up) (task_type t),
            task_description := applyOptional (up_description up) (task_description t),
            task_priority := applyOptional (up_priority up) (task_priority t),
            task_tags := applyOptional (up_tags up) (task_tags t),
            task_dueAt := applyOptional (up_dueAt up) (task_dueAt t),
            task_projectBindings := bs, task_cwd := cwd\<rparr>"
  proof -
    have v: "failure (requireText (task_title t)) = None"
      "failure (normalizeProjectBindings (task_projectBindings t)) = None"
      "\<forall>v. task_cwd t = Some v \<longrightarrow> failure (requireText v) = None"
      using t by (auto simp: task_inv_def task_valid_iff header_errors_def metadata_errors_def)
    from run obtain ti bs cwd where
      r1: "(case up_title up of None \<Rightarrow> Inr (task_title t) | Some v \<Rightarrow> text_or_error TF_title (requireText v)) = Inr ti"
      and r2: "(case up_projectBindings up of None \<Rightarrow> Inr (task_projectBindings t) | Some bs \<Rightarrow> normalizeProjectBindings bs) = Inr bs"
      and r3: "(case up_cwd up of None \<Rightarrow> Inr (task_cwd t)
                  | Some v \<Rightarrow> bind_result (text_or_error TF_cwd (requireText v)) (\<lambda>c. Inr (Some c))) = Inr cwd"
      and u: "u = t\<lparr>task_updatedAt := toISOString now, task_title := ti,
            task_type := applyOptional (up_type up) (task_type t),
            task_description := applyOptional (up_description up) (task_description t),
            task_priority := applyOptional (up_priority up) (task_priority t),
            task_tags := applyOptional (up_tags up) (task_tags t),
            task_dueAt := applyOptional (up_dueAt up) (task_dueAt t),
            task_projectBindings := bs, task_cwd := cwd\<rparr>"
      by (auto simp: updateTaskMetadata_def bind_result_Inr)
    have "failure (requireText ti) = None"
      using r1 v(1) by (auto simp: text_or_error_def map_error_Inr split: option.splits dest: requireText_idem)
    moreover have "failure (normalizeProjectBindings bs) = None"
      using r2 v(2) by (auto split: option.splits dest: normalizeProjectBindings_idem)
    moreover have "\<forall>v. cwd = Some v \<longrightarrow> failure (requireText v) = None"
      using r3 v(3) by (auto simp: text_or_error_def bind_result_Inr map_error_Inr split: option.splits dest: requireText_idem)
    ultimately show ?thesis using u by (rule that)
  qed
  have v: "task_valid sha t" and cr: "created_by T0 t" using t by (simp_all add: task_inv_def)
  have late: "\<not> date_less (toISOString now) (task_createdAt t)" by (rule not_before_creation [OF cr c])
  have ts: "failure (requireTimestamp (toISOString now)) = None" using c by (simp add: clock_ok_def)
  have "first_error (header_errors u) = None"
    using v late ti wf ts by (auto simp: u task_valid_iff header_errors_def source_error_def applyOptional_def
        update_wf_def split: option.splits)
  moreover have "first_error (metadata_errors u) = None"
    using v bs cwd wf by (auto simp: u task_valid_iff metadata_errors_def applyOptional_def update_wf_def
        unchecked_wf_def split: option.splits)
  moreover have "workspace_errors sha u = workspace_errors sha t" "activation_errors u = activation_errors t"
    "completion_errors u = completion_errors t" "retirement_errors u = retirement_errors t"
    "archive_errors u = archive_errors t"
    by (simp_all add: u workspace_errors_def activation_errors_def completion_errors_def retirement_errors_def
        retirement_details_def archive_errors_def has_any_completion_def has_all_completion_def
        has_any_retirement_def has_any_archive_def)
  ultimately show ?thesis using v by (simp add: task_valid_iff)
qed

subsection \<open>The Task as a command system\<close>

datatype task_command =
    Bind_identity workspace_identity
  | Set_activation activation_request
  | Record_evidence string operation_evidence
  | Activate
  | Bind_commits "(string \<times> string) list"
  | Advance_commit string string string
  | Synchronize_commits "(string \<times> string) list"
  | Retire task_retirement
  | Complete_task task_actor string "string list option"
  | Reopen
  | Archive "task_archive option"
  | Update_archived bool "task_archive option"
  | Update_metadata task_metadata_update
  | Update_workspace string
  | Stop_execution
  | Start_execution
  | Add_binding project_binding

fun task_step :: "(string \<Rightarrow> string) \<Rightarrow> time \<times> task_command \<Rightarrow> task \<Rightarrow> task_error + task" where
  "task_step sha (now, Bind_identity i) t = bindTaskWorkspaceIdentity sha t i now"
| "task_step sha (now, Set_activation r) t = setTaskActivationRequest sha t r now"
| "task_step sha (now, Record_evidence i e) t = recordTaskActivationRequestEvidence sha t i e now"
| "task_step sha (now, Activate) t = activateTask t now"
| "task_step sha (now, Bind_commits cs) t = bindTaskProjectCommits sha t cs now"
| "task_step sha (now, Advance_commit p e n) t = advanceTaskProjectCommit sha t p e n now"
| "task_step sha (now, Synchronize_commits cs) t = synchronizeTaskProjectCommits sha t cs now"
| "task_step sha (now, Retire input) t = retireTask sha t input now"
| "task_step sha (now, Complete_task a summary rs) t = completeTask t now a summary rs"
| "task_step sha (now, Reopen) t = reopenTask sha t now"
| "task_step sha (now, Archive a) t = archiveTask sha t now a"
| "task_step sha (now, Update_archived b a) t = updateTaskArchived sha t b now a"
| "task_step sha (now, Update_metadata up) t = updateTaskMetadata t up now"
| "task_step sha (now, Update_workspace cwd) t = updateTaskWorkspace t cwd now"
| "task_step sha (now, Stop_execution) t = stopTaskExecution sha t now"
| "task_step sha (now, Start_execution) t = startTaskExecution sha t now"
| "task_step sha (now, Add_binding b) t = addTaskProjectBinding sha t b now"

definition task_admissible :: "time \<Rightarrow> time \<times> task_command \<Rightarrow> bool" where
  "task_admissible T0 c \<longleftrightarrow> clock_ok T0 (fst c) \<and>
     (case snd c of Update_metadata up \<Rightarrow> update_wf up | _ \<Rightarrow> True)"

text \<open>What no command changes, what a command may do to the status, and what stays for good.\<close>

definition task_identity :: "task \<Rightarrow> string \<times> task_source option \<times> string" where
  "task_identity t = (task_id t, task_source t, task_createdAt t)"

definition status_edge :: "task_status \<Rightarrow> task_status \<Rightarrow> bool" where
  "status_edge a b \<longleftrightarrow> a = b \<or>
     (a, b) \<in> {(Draft, Active), (Draft, Cancelled), (Active, Completed), (Active, Cancelled),
               (Completed, Active), (Cancelled, Active), (Completed, Archived), (Cancelled, Archived)}"

definition task_below :: "task \<Rightarrow> task \<Rightarrow> bool" where
  "task_below t u \<longleftrightarrow>
     (task_status t = Archived \<longrightarrow> task_status u = Archived) \<and>
     (task_status t \<noteq> Draft \<longrightarrow> task_status u \<noteq> Draft) \<and>
     (\<forall>i. task_workspaceIdentity t = Some i \<longrightarrow> task_workspaceIdentity u = Some i)"

definition task_frame :: "task \<Rightarrow> task \<Rightarrow> bool" where
  "task_frame t u \<longleftrightarrow> task_identity u = task_identity t \<and> status_edge (task_status t) (task_status u) \<and> task_below t u"

lemma updateTaskWorkspace_valid:
  assumes "task_inv sha T0 t" "clock_ok T0 now" "updateTaskWorkspace t cwd now = Inr u"
  shows "task_valid sha u"
proof -
  obtain c where c: "requireText c = Inr c" and u: "u = t\<lparr>task_cwd := Some c, task_updatedAt := toISOString now\<rparr>"
    using assms(3) by (auto simp: updateTaskWorkspace_def bind_result_Inr text_or_error_def map_error_Inr
        dest: requireText_idem)
  let ?t = "t\<lparr>task_cwd := Some c\<rparr>"
  have "header_errors ?t = header_errors t" "workspace_errors sha ?t = workspace_errors sha t"
    "activation_errors ?t = activation_errors t" "completion_errors ?t = completion_errors t"
    "retirement_errors ?t = retirement_errors t" "archive_errors ?t = archive_errors t"
    by (simp_all add: header_errors_def source_error_def workspace_errors_def activation_errors_def
        completion_errors_def retirement_errors_def retirement_details_def archive_errors_def has_any_completion_def
        has_all_completion_def has_any_retirement_def has_any_archive_def)
  moreover have "first_error (metadata_errors ?t) = None"
    using assms(1) c by (simp add: task_inv_def task_valid_iff metadata_errors_def)
  ultimately have "task_valid sha ?t" using assms(1) by (simp add: task_inv_def task_valid_iff)
  then show ?thesis
    unfolding u by (rule touch_valid) (use assms(1,2) in \<open>auto simp: task_inv_def created_by_def\<close>)
qed

lemma completeTask_valid:
  assumes "task_inv sha T0 t" "clock_ok T0 now" "completeTask t now a summary rs = Inr u"
  shows "task_valid sha u"
proof (cases "task_status t = Completed")
  case True
  then show ?thesis using assms by (simp add: completeTask_def task_inv_def)
next
  case False
  then have act: "task_status t = Active"
    using assms(3) by (simp add: completeTask_def split: if_splits)
  then have run: "bind_result (text_or_error TF_completionSummary (requireText summary)) (\<lambda>summary.
      bind_result (optional_field TF_artifactRef (map_result requireText) rs) (\<lambda>refs.
        Inr (t\<lparr>task_status := Completed, task_completedAt := Some (toISOString now),
          task_completedBy := Some a, task_completionSummary := Some summary,
          task_completionArtifactRefs := (if refs = None then task_completionArtifactRefs t else refs),
          task_updatedAt := toISOString now\<rparr>))) = Inr u"
    using assms(3) by (simp only: completeTask_def act task_status.distinct if_False if_True simp_thms)
  obtain s where s: "requireText summary = Inr s"
    using run by (cases "requireText summary") (simp_all add: text_or_error_def)
  obtain refs where refs: "optional_field TF_artifactRef (map_result requireText) rs = Inr refs"
    using run s by (cases "optional_field TF_artifactRef (map_result requireText) rs") (simp_all add: text_or_error_def)
  have u: "u = t\<lparr>task_status := Completed, task_completedAt := Some (toISOString now),
      task_completedBy := Some a, task_completionSummary := Some s,
      task_completionArtifactRefs := (if refs = None then task_completionArtifactRefs t else refs),
      task_updatedAt := toISOString now\<rparr>"
    using run by (simp only: s refs text_or_error_def map_error_simps bind_result_simps sum.inject)
  have "refs = None \<or> (\<exists>r. refs = Some r \<and> failure (map_result requireText r) = None)"
  proof (cases rs)
    case None
    then show ?thesis using refs by (simp add: optional_field_Inr)
  next
    case (Some x)
    then obtain y where "map_result requireText x = Inr y" "refs = Some y"
      using refs by (auto simp: optional_field_Inr)
    then show ?thesis using map_result_idem [OF requireText_idem] by auto
  qed
  then have "task_valid sha (t\<lparr>task_status := Completed, task_completedAt := Some (toISOString now),
      task_completedBy := Some a, task_completionSummary := Some s,
      task_completionArtifactRefs := (if refs = None then task_completionArtifactRefs t else refs)\<rparr>)"
    using assms(1,2) by (intro complete_valid [OF _ act _ s]) (auto simp: task_inv_def clock_ok_def)
  from touch_valid [OF this _ assms(2)] show ?thesis
    using assms(1) by (simp add: u task_inv_def created_by_def)
qed

lemma activateTask_valid:
  assumes "task_inv sha T0 t" "clock_ok T0 now" "activateTask t now = Inr u"
  shows "task_valid sha u"
proof (cases "task_status t")
  case Draft
  then have u: "u = (t\<lparr>task_status := Active\<rparr>)\<lparr>task_updatedAt := toISOString now\<rparr>"
    using assms(3) by (simp add: activateTask_def)
  have "task_valid sha (t\<lparr>task_status := Active\<rparr>)"
    using assms(1) Draft by (simp add: activate_valid task_inv_def)
  then show ?thesis
    unfolding u by (rule touch_valid) (use assms(1,2) in \<open>auto simp: task_inv_def created_by_def\<close>)
qed (use assms in \<open>auto simp: activateTask_def task_inv_def\<close>)

lemma task_step_valid:
  assumes "task_inv sha T0 t" "task_admissible T0 (now, c)" "task_step sha (now, c) t = Inr u"
  shows "task_valid sha u"
proof -
  have v: "task_valid sha t" and cl: "clock_ok T0 now" and cr: "created_by T0 t"
    using assms(1,2) by (auto simp: task_inv_def task_admissible_def)
  show ?thesis
  proof (cases c)
    case (Update_metadata up)
    then show ?thesis
      using assms by (auto simp: task_admissible_def intro: metadata_update_valid)
  next
    case (Update_archived b a)
    then show ?thesis
      using assms(3) v touch_valid [OF v cr cl]
      by (auto simp: updateTaskArchived_def archiveTask_def validateTask_Inr split: if_splits)
  qed (use assms v cl in \<open>auto simp: bindTaskWorkspaceIdentity_def setTaskActivationRequest_def
      recordTaskActivationRequestEvidence_def bindTaskProjectCommits_def advanceTaskProjectCommit_def
      synchronizeTaskProjectCommits_def retireTask_def reopenTask_def archiveTask_def
      stopTaskExecution_def startTaskExecution_def addTaskProjectBinding_def bind_result_Inr validateTask_Inr Let_def
      intro: activateTask_valid completeTask_valid updateTaskWorkspace_valid
      split: if_splits option.splits\<close>)
qed

lemma task_frame_refl [simp]: "task_frame t t"
  by (simp add: task_frame_def status_edge_def task_below_def)

lemma task_frame_update:
  assumes "task_identity u = task_identity t" "task_status u = task_status t"
    "\<And>i. task_workspaceIdentity t = Some i \<Longrightarrow> task_workspaceIdentity u = Some i"
  shows "task_frame t u"
  using assms by (simp add: task_frame_def status_edge_def task_below_def)

lemma task_frame_status:
  assumes "task_identity u = task_identity t" "status_edge (task_status t) (task_status u)"
    "task_workspaceIdentity u = task_workspaceIdentity t"
  shows "task_frame t u"
  using assms by (auto simp: task_frame_def status_edge_def task_below_def)

lemmas task_ops = bindTaskWorkspaceIdentity_def setTaskActivationRequest_def install_request_def
  recordTaskActivationRequestEvidence_def bindTaskProjectCommits_def advanceTaskProjectCommit_def
  synchronizeTaskProjectCommits_def stopTaskExecution_def startTaskExecution_def addTaskProjectBinding_def
  updateTaskWorkspace_def updateTaskMetadata_def bind_result_Inr validateTask_Inr Let_def task_identity_def

lemma task_step_frame:
  assumes "task_step sha (now, c) t = Inr u"
  shows "task_frame t u"
proof (cases c)
  case Activate
  then show ?thesis
    using assms by (intro task_frame_status)
      (auto simp: activateTask_def task_identity_def status_edge_def split: task_status.splits)
next
  case (Retire input)
  then show ?thesis
    using assms by (intro task_frame_status; cases "task_status t")
      (auto simp: retireTask_def bind_result_Inr validateTask_Inr task_identity_def status_edge_def split: if_splits)
next
  case (Complete_task a summary rs)
  then show ?thesis
    using assms by (intro task_frame_status; cases "task_status t")
      (auto simp: completeTask_def bind_result_Inr task_identity_def status_edge_def)
next
  case Reopen
  then show ?thesis
    using assms by (intro task_frame_status; cases "task_status t")
      (auto simp: reopenTask_def cleared_outcome_def bind_result_Inr validateTask_Inr task_identity_def status_edge_def)
next
  case (Archive a)
  then show ?thesis
    using assms by (intro task_frame_status; cases "task_status t")
      (auto simp: archiveTask_def validateTask_Inr task_identity_def status_edge_def)
next
  case (Update_archived b a)
  then show ?thesis
    using assms by (intro task_frame_status; cases b; cases "task_status t")
      (auto simp: updateTaskArchived_def archiveTask_def validateTask_Inr task_identity_def status_edge_def)
qed (use assms in \<open>(intro task_frame_update; auto simp: task_ops split: if_splits option.splits)+\<close>)

lemma task_frame_created: "task_frame t u \<Longrightarrow> created_by T0 t \<Longrightarrow> created_by T0 u"
  by (simp add: task_frame_def task_identity_def created_by_def)

interpretation task: identified_system "task_inv sha T0" "task_step sha" "task_admissible T0" task_identity
  for sha T0
proof
  fix s c t
  assume a: "task_inv sha T0 s" "task_admissible T0 c" "task_step sha c s = Inr t"
  obtain now cmd where c: "c = (now, cmd)" by fastforce
  have f: "task_frame s t" using a(3) task_step_frame unfolding c by blast
  have "task_valid sha t" using task_step_valid a unfolding c by blast
  then show "task_inv sha T0 t" using task_frame_created [OF f] a(1) by (simp add: task_inv_def)
  show "task_identity t = task_identity s" using f by (simp add: task_frame_def)
qed

definition task_kept :: "task \<Rightarrow> task \<Rightarrow> bool" where
  "task_kept t u \<longleftrightarrow> task_identity u = task_identity t \<and> task_below t u"

interpretation task_progress: ratchet_system "\<lambda>_. True" "task_step sha" "\<lambda>_. True" task_kept
  for sha
proof
  fix s c t
  assume a: "task_step sha c s = Inr t"
  obtain now cmd where c: "c = (now, cmd)" by fastforce
  show "task_kept s t" using a task_step_frame unfolding c by (auto simp: task_frame_def task_kept_def)
qed (auto simp: task_kept_def task_below_def)

lemma task_run_kept: "run_commands (task_step sha) cs t = Inr u \<Longrightarrow> task_kept t u"
  by (rule task_progress.run_below [where cs = cs]) (simp_all add: list_all_iff)

subsection \<open>A concrete Task\<close>

definition demo_metadata :: task_metadata where
  "demo_metadata = \<lparr>md_type = None, md_description = None, md_priority = None, md_tags = None, md_dueAt = None,
     md_projectBindings = Some [\<lparr>bnd_projectId = ''p'', bnd_directory = ''d'', bnd_baseRef = ''main'',
       bnd_baseCommit = None, bnd_currentCommit = None\<rparr>], md_cwd = None\<rparr>"

definition demo_task :: task where
  "demo_task = \<lparr>task_source = None, task_id = ''task-1'', task_title = ''Demo'', task_type = None,
     task_description = None, task_priority = None, task_tags = None, task_dueAt = None,
     task_projectBindings = [\<lparr>bnd_projectId = ''p'', bnd_directory = ''d'', bnd_baseRef = ''main'',
       bnd_baseCommit = None, bnd_currentCommit = None\<rparr>],
     task_cwd = None, task_workspaceIdentity = None, task_status = Draft, task_executionGate = Enabled,
     task_activationRequest = None, task_settledActivationRequests = None, task_completedAt = None,
     task_completedBy = None, task_completionSummary = None, task_completionArtifactRefs = None,
     task_retiredAt = None, task_retiredBy = None, task_retirementSummary = None,
     task_retirementIsolation = False, task_replacementTaskId = None, task_archivedAt = None,
     task_archivedBy = None, task_archiveReason = None, task_archiveSummary = None,
     task_createdAt = toISOString 0, task_updatedAt = toISOString 0\<rparr>"

lemma demo_requires:
  "requireIdentity ''task-1'' = Inr ''task-1''" "requireText ''Demo'' = Inr ''Demo''" "requireIdentity ''p'' = Inr ''p''"
  "requireIdentity ''d'' = Inr ''d''" "requireText ''main'' = Inr ''main''" "requireText ''done'' = Inr ''done''"
  "requireText ''stale'' = Inr ''stale''"
  by code_simp+

lemma demo_create: "createTask ''task-1'' ''Demo'' 0 demo_metadata = Inr demo_task"
  by (simp add: createTask_def demo_metadata_def demo_requires text_or_error_def optional_field_def
      normalizeProjectBindings_def normalize_binding_def normalize_commit_def demo_task_def)

lemma demo_task_fields:
  "task_id demo_task = ''task-1''" "task_status demo_task = Draft" "task_executionGate demo_task = Enabled"
  "task_activationRequest demo_task = None" "task_settledActivationRequests demo_task = None"
  "task_workspaceIdentity demo_task = None" "task_createdAt demo_task = toISOString 0"
  "task_projectBindings demo_task = [\<lparr>bnd_projectId = ''p'', bnd_directory = ''d'', bnd_baseRef = ''main'',
       bnd_baseCommit = None, bnd_currentCommit = None\<rparr>]"
  by (simp_all add: demo_task_def)

lemma valid_time_0: "valid_time 0" by code_simp

lemma demo_task_inv: "task_inv sha 0 demo_task"
  using createTask_valid [OF demo_create valid_time_0] by (simp add: unchecked_wf_def demo_metadata_def)

lemma clock_0: "clock_ok 0 0"
  by (simp add: clock_ok_def valid_time_0)

definition demo_active :: task where
  "demo_active = demo_task\<lparr>task_status := Active, task_updatedAt := toISOString 0\<rparr>"

lemma demo_activate: "activateTask demo_task 0 = Inr demo_active"
  by (simp add: activateTask_def demo_task_fields demo_active_def)

lemma demo_active_inv: "task_inv sha 0 demo_active"
  using task.step_valid [OF demo_task_inv, of "(0, Activate)"] demo_activate clock_0
  by (simp add: task_admissible_def)

subsection \<open>Properties\<close>

text \<open>
  C10. A created Task is a Draft. Over every sequence of commands that succeeds, with any values and
  clock readings, it keeps its id, source and creation time; from any point of the sequence on, an
  archived Task stays archived, a Task never returns to Draft, and a bound workspace identity never
  changes. If moreover description, tags, type and due time given at creation and in metadata updates
  are well-formed and no command carries a time before the creation, the Task is valid at every point. The
  code checks neither of these two conditions.
\<close>

theorem task_run_valid:
  assumes "createTask i title T0 md = Inr t0"
    and "run_commands (task_step sha) cs t0 = Inr t" "run_commands (task_step sha) ds t = Inr u"
  shows "task_status t0 = Draft \<and> task_identity u = task_identity t0 \<and> task_below t0 t \<and> task_below t u \<and>
    (valid_time T0 \<and> unchecked_wf (md_description md) (md_tags md) (md_dueAt md) \<and> list_all (task_admissible T0) (cs @ ds) \<longrightarrow>
       validateTask sha t = Inr t \<and> validateTask sha u = Inr u)"
proof -
  have d: "task_status t0 = Draft" using assms(1) by (auto simp: createTask_def bind_result_Inr)
  have k: "task_kept t0 t" "task_kept t u" using assms(2,3) by (auto intro: task_run_kept)
  have "task_inv sha T0 t \<and> task_inv sha T0 u"
    if w: "valid_time T0" "unchecked_wf (md_description md) (md_tags md) (md_dueAt md)" "list_all (task_admissible T0) (cs @ ds)"
  proof -
    have inv0: "task_inv sha T0 t0" using createTask_valid [OF assms(1) w(1,2)] by simp
    have "task_inv sha T0 t" by (rule task.run_valid [OF inv0 _ assms(2)]) (use w(3) in simp)
    then show ?thesis using task.run_valid [OF _ _ assms(3), of T0] w(3) by simp
  qed
  then show ?thesis using d k by (auto simp: task_kept_def task_inv_def task_valid_def)
qed

lemma task_run_valid_witness:
  "run_commands (task_step demo_sha) [(0, Activate)] demo_task = Inr demo_active \<and>
   validateTask demo_sha demo_active = Inr demo_active \<and> task_below demo_task demo_active"
proof -
  have r: "run_commands (task_step demo_sha) [(0, Activate)] demo_task = Inr demo_active"
    by (simp add: demo_activate)
  show ?thesis
    using task_run_valid [OF demo_create r, of "[]" demo_active] r clock_0
    by (simp add: unchecked_wf_def demo_metadata_def task_admissible_def valid_time_0)
qed

text \<open>
  C11. The lifecycle graph: a successful command leaves the status alone or moves it along one of
  the edges Draft to Active, Draft or Active to Cancelled, Active to Completed, Completed or
  Cancelled back to Active, and Completed or Cancelled to Archived.
\<close>

theorem task_lifecycle:
  assumes "task_step sha (now, c) t = Inr u"
  shows "status_edge (task_status t) (task_status u)"
  using task_step_frame [OF assms] by (simp add: task_frame_def)

lemma task_lifecycle_witness: "status_edge (task_status demo_task) (task_status demo_active)"
  using task_lifecycle [of demo_sha 0 Activate demo_task demo_active] demo_activate by simp

lemma map_result_advance:
  assumes "map_result (advance_binding p e n) bs = Inr cs"
  shows "cs = map (\<lambda>b. if bnd_projectId b = p then b\<lparr>bnd_currentCommit := Some n\<rparr> else b) bs \<and>
    (\<forall>b \<in> set bs. bnd_projectId b = p \<longrightarrow> bnd_currentCommit b = Some e)"
  using assms
proof (induction bs arbitrary: cs)
  case (Cons b bs)
  from Cons.prems obtain c ds where r: "advance_binding p e n b = Inr c"
    "map_result (advance_binding p e n) bs = Inr ds" "cs = c # ds"
    by (auto simp: bind_result_Inr)
  from Cons.IH [OF r(2)] r(1,3) show ?case
    by (auto simp: advance_binding_def split: if_splits)
qed simp

definition demo_commit :: string where
  "demo_commit = replicate 40 CHR ''a''"

definition demo_commit2 :: string where
  "demo_commit2 = replicate 40 CHR ''b''"

lemma demo_commit_ok: "requireCommit demo_commit = Inr demo_commit" "requireCommit demo_commit2 = Inr demo_commit2"
  by (simp_all add: demo_commit_def demo_commit2_def requireCommit_hex all_hex_def list_all_iff is_hex_def is_digit_def
      unit_of_def)

definition demo_pinned :: task where
  "demo_pinned = demo_task\<lparr>task_projectBindings := [\<lparr>bnd_projectId = ''p'', bnd_directory = ''d'', bnd_baseRef = ''main'',
       bnd_baseCommit = Some demo_commit, bnd_currentCommit = Some demo_commit\<rparr>]\<rparr>"

lemma binding_update_valid:
  assumes "task_valid sha t" "failure (normalizeProjectBindings bs) = None"
  shows "task_valid sha (t\<lparr>task_projectBindings := bs\<rparr>)"
proof -
  let ?t = "t\<lparr>task_projectBindings := bs\<rparr>"
  have "header_errors ?t = header_errors t" "workspace_errors sha ?t = workspace_errors sha t"
    "activation_errors ?t = activation_errors t" "completion_errors ?t = completion_errors t"
    "retirement_errors ?t = retirement_errors t" "archive_errors ?t = archive_errors t"
    by (simp_all add: header_errors_def source_error_def workspace_errors_def activation_errors_def
        completion_errors_def retirement_errors_def retirement_details_def archive_errors_def has_any_completion_def
        has_all_completion_def has_any_retirement_def has_any_archive_def)
  moreover have "first_error (metadata_errors ?t) = None"
    using assms by (simp add: task_valid_iff metadata_errors_def)
  ultimately show ?thesis using assms(1) by (simp add: task_valid_iff)
qed

lemma demo_pinned_valid: "task_valid sha demo_pinned"
  unfolding demo_pinned_def
  by (rule binding_update_valid)
    (use demo_task_inv [of sha] in \<open>simp_all add: task_inv_def normalizeProjectBindings_def normalize_binding_def
      normalize_commit_def demo_requires demo_commit_ok\<close>)

text \<open>
  Advancing a Project commit is a compare-and-swap: it succeeds only when the Task's binding of
  that Project stands at the expected commit, and then changes that commit and nothing else of any
  binding; if the commit has moved, or the Project is not bound, the Task is rejected.
\<close>

theorem task_commit_compare_and_swap:
  assumes "advanceTaskProjectCommit sha t p expected next now = Inr u"
  shows "\<exists>e n. requireCommit expected = Inr e \<and> requireCommit next = Inr n \<and>
    (\<exists>b \<in> set (task_projectBindings t). bnd_projectId b = p) \<and>
    (\<forall>b \<in> set (task_projectBindings t). bnd_projectId b = p \<longrightarrow> bnd_currentCommit b = Some e) \<and>
    u = t\<lparr>task_projectBindings := map (\<lambda>b. if bnd_projectId b = p then b\<lparr>bnd_currentCommit := Some n\<rparr> else b)
            (task_projectBindings t), task_updatedAt := toISOString now\<rparr>"
proof -
  from assms obtain e n cs where r: "requireCommit expected = Inr e" "requireCommit next = Inr n"
    "map_result (advance_binding p e n) (task_projectBindings t) = Inr cs"
    "\<exists>b \<in> set (task_projectBindings t). bnd_projectId b = p"
    "u = t\<lparr>task_projectBindings := cs, task_updatedAt := toISOString now\<rparr>"
    by (auto simp: advanceTaskProjectCommit_def bind_result_Inr text_or_error_def map_error_Inr validateTask_Inr
        split: if_splits)
  with map_result_advance [OF r(3)] show ?thesis by blast
qed

lemma task_commit_compare_and_swap_witness:
  "\<exists>u. advanceTaskProjectCommit demo_sha demo_pinned ''p'' demo_commit demo_commit2 0 = Inr u \<and>
     map bnd_currentCommit (task_projectBindings u) = [Some demo_commit2]"
proof -
  let ?bs = "[\<lparr>bnd_projectId = ''p'', bnd_directory = ''d'', bnd_baseRef = ''main'',
       bnd_baseCommit = Some demo_commit, bnd_currentCommit = Some demo_commit2\<rparr>]"
  let ?u = "demo_pinned\<lparr>task_projectBindings := ?bs, task_updatedAt := toISOString 0\<rparr>"
  have "task_valid demo_sha (demo_pinned\<lparr>task_projectBindings := ?bs\<rparr>)"
    by (rule binding_update_valid [OF demo_pinned_valid])
      (simp add: normalizeProjectBindings_def normalize_binding_def normalize_commit_def demo_requires demo_commit_ok)
  then have "task_valid demo_sha ?u"
    using touch_valid [of demo_sha "demo_pinned\<lparr>task_projectBindings := ?bs\<rparr>" 0 0] clock_0 demo_task_inv [of demo_sha]
    by (simp add: demo_pinned_def task_inv_def created_by_def)
  then have run: "advanceTaskProjectCommit demo_sha demo_pinned ''p'' demo_commit demo_commit2 0 = Inr ?u"
    using demo_pinned_valid [of demo_sha]
    by (simp add: advanceTaskProjectCommit_def demo_commit_ok text_or_error_def advance_binding_def task_valid_def)
      (simp add: demo_pinned_def advance_binding_def)
  from task_commit_compare_and_swap [OF this] run show ?thesis by auto
qed

text \<open>
  Retiring a Task is final and can be retried: after a successful retirement the Task is
  cancelled, the same retirement again returns the same Task, and a retirement that succeeds later
  names the same actor, the same summary up to surrounding white space and the same replacement.
\<close>

theorem task_retire_once:
  assumes "retireTask sha t i now = Inr u"
  shows "task_status u = Cancelled \<and> retireTask sha u i later = Inr u \<and>
    (\<forall>j v. retireTask sha u j later = Inr v \<longrightarrow> v = u \<and> ret_by j = ret_by i \<and>
      requireText (ret_summary j) = requireText (ret_summary i) \<and>
      ret_replacementTaskId j = ret_replacementTaskId i)"
proof -
  from assms obtain summary replacement where r: "task_valid sha t"
    "requireText (ret_summary i) = Inr summary"
    "optional_field TF_replacement requireIdentity (ret_replacementTaskId i) = Inr replacement"
    "replacement \<noteq> Some (task_id t)"
    by (auto simp: retireTask_def bind_result_Inr text_or_error_def map_error_Inr validateTask_Inr split: if_splits)
  have u: "task_valid sha u \<and> task_status u = Cancelled \<and> task_id u = task_id t \<and> task_retiredBy u = Some (ret_by i) \<and>
    task_retirementSummary u = Some summary \<and> task_replacementTaskId u = ret_replacementTaskId i"
  proof (cases "task_status t \<in> {Draft, Active}")
    case True
    then have "task_replacementTaskId t = None" using valid_open(2) [OF r(1)] by (simp add: has_any_retirement_def)
    with True assms r show ?thesis
      by (auto simp: retireTask_def text_or_error_def bind_result_Inr validateTask_Inr split: if_splits)
  next
    case False
    then have "task_status t \<in> {Cancelled, Archived, Completed}" by (cases "task_status t") auto
    with assms r show ?thesis
      by (auto simp: retireTask_def text_or_error_def task_valid_def split: if_splits)
  qed
  then have go: "retireTask sha u j later =
     bind_result (text_or_error TF_retirementSummary (requireText (ret_summary j))) (\<lambda>s.
     bind_result (optional_field TF_replacement requireIdentity (ret_replacementTaskId j)) (\<lambda>q.
     if q = Some (task_id t) then Inl Replaces_itself
     else if ret_by i = ret_by j \<and> summary = s \<and> ret_replacementTaskId i = ret_replacementTaskId j then Inr u
     else Inl Already_retired))" for j
    by (simp add: retireTask_def task_valid_def cong: if_cong split del: if_split)
  then show ?thesis
    using u r by (auto simp: text_or_error_def bind_result_Inr map_error_Inr split: if_splits)
qed

lemma demo_retire:
  "\<exists>u. retireTask demo_sha demo_task \<lparr>ret_by = By_user, ret_summary = ''stale'', ret_replacementTaskId = None,
     ret_isolated = False\<rparr> 0 = Inr u"
proof -
  have "task_valid demo_sha demo_task" using demo_task_inv by (simp add: task_inv_def)
  then show ?thesis
    by (simp add: retireTask_def task_valid_def text_or_error_def optional_field_def demo_requires demo_task_fields)
      (simp add: validateTask_def check_Inr header_errors_def source_error_def workspace_errors_def activation_errors_def
        metadata_errors_def completion_errors_def retirement_errors_def retirement_details_def archive_errors_def
        has_any_completion_def has_all_completion_def has_any_retirement_def has_any_archive_def demo_task_def
        demo_requires valid_time_0 date_less_def normalizeProjectBindings_def normalize_binding_def
        normalize_commit_def text_or_error_def)
qed

lemma task_retire_once_witness:
  "\<exists>u. retireTask demo_sha demo_task \<lparr>ret_by = By_user, ret_summary = ''stale'', ret_replacementTaskId = None,
     ret_isolated = False\<rparr> 0 = Inr u \<and> task_status u = Cancelled"
  using demo_retire task_retire_once [of demo_sha demo_task] by blast

subsection \<open>Activation history\<close>

definition settled_of :: "task \<Rightarrow> activation_request list" where
  "settled_of t = (case task_settledActivationRequests t of None \<Rightarrow> [] | Some rs \<Rightarrow> rs)"

lemma valid_request_check: "failure (validateTaskActivationRequest r) = None \<longleftrightarrow> activation_valid r"
  by (auto simp: failure_None validateTaskActivationRequest_Inr)

lemma settled_errors_None:
  "settled_errors i slot seen rs = None \<longleftrightarrow>
     (\<forall>r \<in> set rs. activation_valid r \<and> request_target r = i \<and> isSettledActivationRequest r \<and>
        request_id r \<notin> set seen \<and> slot \<noteq> Some (request_id r)) \<and> distinct (map request_id rs)"
proof (induction rs arbitrary: seen)
  case (Cons r rs)
  then show ?case
    by (auto simp: valid_request_check) (metis imageI)
qed simp

lemma activation_errors_None:
  "first_error (activation_errors t) = None \<longleftrightarrow>
     (\<forall>r. task_activationRequest t = Some r \<longrightarrow> activation_valid r \<and> request_target r = task_id t) \<and>
     length (settled_of t) \<le> max_settled_activation_requests \<and>
     settled_errors (task_id t) (map_option request_id (task_activationRequest t)) [] (settled_of t) = None"
  by (cases "task_activationRequest t"; cases "task_settledActivationRequests t")
    (simp_all add: activation_errors_def settled_of_def valid_request_check not_less conj_assoc)

text \<open>
  Installing an activation request keeps the history of decided ones: the request takes the
  slot, the history holds at most sixteen terminal requests, no id occurs twice in slot and
  history, a terminal request displaced from the slot becomes the newest entry, and below the
  bound no earlier entry with another id is dropped.
\<close>

theorem activation_history_kept:
  assumes "setTaskActivationRequest sha t r now = Inr u"
  shows "task_activationRequest u = Some r \<and> length (settled_of u) \<le> 16 \<and>
    distinct (request_id r # map request_id (settled_of u)) \<and>
    list_all isSettledActivationRequest (settled_of u) \<and>
    (\<forall>e. task_activationRequest t = Some e \<and> isSettledActivationRequest e \<and> request_id e \<noteq> request_id r \<longrightarrow>
       settled_of u \<noteq> [] \<and> last (settled_of u) = e) \<and>
    (length (settled_of t) < 16 \<longrightarrow> (\<forall>s \<in> set (settled_of t). request_id s \<noteq> request_id r \<longrightarrow> s \<in> set (settled_of u)))"
proof -
  from assms have u: "u = install_request t r now" "task_valid sha u"
    by (auto simp: setTaskActivationRequest_def bind_result_Inr map_error_Inr validateTaskActivationRequest_Inr
        validateTask_Inr split: if_splits)
  then have e: "first_error (activation_errors u) = None" by (simp add: task_valid_iff)
  have slot: "task_activationRequest u = Some r" using u(1) by (simp add: install_request_def)
  have sound: "length (settled_of u) \<le> 16" "distinct (request_id r # map request_id (settled_of u))"
    "list_all isSettledActivationRequest (settled_of u)"
    using e slot by (auto simp: activation_errors_None settled_errors_None max_settled_activation_requests_def list_all_iff)
  have su: "retained_requests t r \<noteq> [] \<Longrightarrow> settled_of u = retained_requests t r"
    using u(1) by (simp add: install_request_def settled_of_def)
  have ret: "retained_requests t r = last_n 16 (filter (\<lambda>s. request_id s \<noteq> request_id r) (settled_of t @ displaced_request t r))"
    by (simp add: retained_requests_def settled_of_def max_settled_activation_requests_def)
  have newest: "settled_of u \<noteq> [] \<and> last (settled_of u) = e"
    if "task_activationRequest t = Some e" "isSettledActivationRequest e" "request_id e \<noteq> request_id r" for e
  proof -
    have "retained_requests t r = last_n 16 (filter (\<lambda>s. request_id s \<noteq> request_id r) (settled_of t) @ [e])"
      using ret that by (simp add: displaced_request_def)
    then have "retained_requests t r \<noteq> [] \<and> last (retained_requests t r) = e" by (auto simp: last_n_def)
    then show ?thesis using su by simp
  qed
  have kept: "s \<in> set (settled_of u)"
    if "length (settled_of t) < 16" "s \<in> set (settled_of t)" "request_id s \<noteq> request_id r" for s
  proof -
    have d: "length (displaced_request t r) \<le> 1" by (simp add: displaced_request_def split: option.splits)
    have "length (filter (\<lambda>s. request_id s \<noteq> request_id r) (settled_of t @ displaced_request t r)) \<le> 16"
      using that(1) d by (intro order_trans [OF length_filter_le]) simp
    then have "retained_requests t r = filter (\<lambda>s. request_id s \<noteq> request_id r) (settled_of t @ displaced_request t r)"
      using ret by (simp add: last_n_def)
    then have "s \<in> set (retained_requests t r)" using that by simp
    then show ?thesis using su by fastforce
  qed
  show ?thesis using slot sound newest kept by blast
qed

lemma activation_update_groups:
  "header_errors (t\<lparr>task_activationRequest := q, task_settledActivationRequests := ss\<rparr>) = header_errors t"
  "workspace_errors sha (t\<lparr>task_activationRequest := q, task_settledActivationRequests := ss\<rparr>) = workspace_errors sha t"
  "metadata_errors (t\<lparr>task_activationRequest := q, task_settledActivationRequests := ss\<rparr>) = metadata_errors t"
  "completion_errors (t\<lparr>task_activationRequest := q, task_settledActivationRequests := ss\<rparr>) = completion_errors t"
  "retirement_errors (t\<lparr>task_activationRequest := q, task_settledActivationRequests := ss\<rparr>) = retirement_errors t"
  "archive_errors (t\<lparr>task_activationRequest := q, task_settledActivationRequests := ss\<rparr>) = archive_errors t"
  by (simp_all add: header_errors_def source_error_def workspace_errors_def metadata_errors_def
      completion_errors_def retirement_errors_def retirement_details_def archive_errors_def has_any_completion_def
      has_all_completion_def has_any_retirement_def has_any_archive_def)

lemma install_request_as_update:
  "install_request t r now =
    (t\<lparr>task_activationRequest := Some r, task_settledActivationRequests :=
       (if retained_requests t r = [] then task_settledActivationRequests t else Some (retained_requests t r))\<rparr>)
     \<lparr>task_updatedAt := toISOString now\<rparr>"
  by (simp add: install_request_def)

lemma install_request_created: "created_by T0 t \<Longrightarrow> created_by T0 (t\<lparr>task_activationRequest := q, task_settledActivationRequests := ss\<rparr>)"
  by (simp add: created_by_def)

lemma validate_installed:
  assumes "task_inv sha T0 t" "clock_ok T0 now"
  shows "validateTask sha (install_request t r now) =
    (case first_error (activation_errors (install_request t r now)) of
       Some e \<Rightarrow> Inl e | None \<Rightarrow> Inr (install_request t r now))"
proof -
  let ?u = "install_request t r now"
  let ?w = "t\<lparr>task_activationRequest := Some r, task_settledActivationRequests :=
       (if retained_requests t r = [] then task_settledActivationRequests t else Some (retained_requests t r))\<rparr>"
  have v: "task_valid sha t" "created_by T0 t" using assms(1) by (simp_all add: task_inv_def)
  have "first_error (header_errors ?w) = None" using v(1) by (simp only: activation_update_groups task_valid_iff)
  then have h: "first_error (header_errors ?u) = None"
    unfolding install_request_as_update by (rule header_touch [OF _ install_request_created [OF v(2)] assms(2)])
  have g: "first_error (workspace_errors sha ?u) = None" "first_error (metadata_errors ?u) = None" "first_error (completion_errors ?u) = None"
    "first_error (retirement_errors ?u) = None" "first_error (archive_errors ?u) = None"
    using v(1) unfolding install_request_as_update group_touch
    by (simp_all only: task_valid_iff activation_update_groups)
  have "first_error (header_errors ?u @ workspace_errors sha ?u @ activation_errors ?u @ metadata_errors ?u
       @ completion_errors ?u @ retirement_errors ?u @ archive_errors ?u) = first_error (activation_errors ?u)"
    using g h by (simp add: first_error_append_eq split: option.splits)
  then show ?thesis unfolding validateTask_def check_def by (simp split: option.splits)
qed

definition demo_request :: activation_request where
  "demo_request = demo_activation\<lparr>act_operation := demo_facts\<lparr>op_targetId := ''task-1''\<rparr>\<rparr>"

definition demo_decided :: activation_request where
  "demo_decided = demo_cancelled\<lparr>act_operation := demo_facts\<lparr>op_targetId := ''task-1''\<rparr>\<rparr>"

lemma demo_retarget:
  assumes "activation_valid r" "act_operation r = demo_facts"
  shows "activation_valid (r\<lparr>act_operation := demo_facts\<lparr>op_targetId := ''task-1''\<rparr>\<rparr>)"
proof -
  have "failure (validateOperationFacts demo_facts) = None" "failure (validateOperationFacts (demo_facts\<lparr>op_targetId := ''task-1''\<rparr>)) = None"
    by code_simp+
  moreover have "op_capability demo_facts = op_capability (demo_facts\<lparr>op_targetId := ''task-1''\<rparr>)"
    "op_effect demo_facts = op_effect (demo_facts\<lparr>op_targetId := ''task-1''\<rparr>)" by simp_all
  ultimately show ?thesis
    using assms by (simp add: activation_valid_def validateTaskActivationRequest_def check_Inr)
qed

lemma demo_requests_valid: "activation_valid demo_request" "activation_valid demo_decided"
proof -
  have "activation_valid demo_cancelled"
    using activation.step_valid [OF demo_activation_valid _ demo_cancel_run] by simp
  then show "activation_valid demo_request" "activation_valid demo_decided"
    unfolding demo_request_def demo_decided_def
    by (intro demo_retarget demo_activation_valid; simp add: demo_activation_def demo_cancelled_def)+
qed

lemma demo_request_fields:
  "request_target demo_request = ''task-1''" "request_id demo_request = ''r1''"
  "request_target demo_decided = ''task-1''" "request_id demo_decided = ''r1''"
  "isSettledActivationRequest demo_decided"
  by (simp_all add: demo_request_def demo_decided_def demo_facts_def demo_cancelled_def isSettledActivationRequest_def)

lemma demo_install: "setTaskActivationRequest demo_sha demo_task demo_request 0 = Inr (install_request demo_task demo_request 0)"
proof -
  have "first_error (activation_errors (install_request demo_task demo_request 0)) = None"
    by (simp add: activation_errors_None settled_of_def install_request_def demo_task_fields demo_requests_valid
        demo_request_fields retained_requests_def displaced_request_def)
  then have "validateTask demo_sha (install_request demo_task demo_request 0) = Inr (install_request demo_task demo_request 0)"
    using validate_installed [OF demo_task_inv clock_0] by simp
  moreover have "validateTask demo_sha demo_task = Inr demo_task" "validateTaskActivationRequest demo_request = Inr demo_request"
    using demo_task_inv [of demo_sha] demo_requests_valid(1) by (simp_all add: task_inv_def task_valid_def activation_valid_def)
  ultimately show ?thesis
    by (simp add: setTaskActivationRequest_def demo_task_fields demo_request_fields)
qed

lemma activation_history_kept_witness:
  "task_activationRequest (install_request demo_task demo_request 0) = Some demo_request \<and>
   length (settled_of (install_request demo_task demo_request 0)) \<le> 16"
  using activation_history_kept [OF demo_install] by simp

lemma set_request_result:
  assumes "task_inv sha T0 t" "clock_ok T0 now" "activation_valid r" "request_target r = task_id t"
    and "\<forall>e \<in> set_option (task_activationRequest t). request_id e = request_id r \<longrightarrow> op_inputDigest (act_operation e) = op_inputDigest (act_operation r)"
  shows "setTaskActivationRequest sha t r now =
    (case first_error (activation_errors (install_request t r now)) of Some e \<Rightarrow> Inl e | None \<Rightarrow> Inr (install_request t r now))"
proof -
  have "validateTask sha t = Inr t" "validateTaskActivationRequest r = Inr r"
    using assms(1,3) by (simp_all add: task_inv_def task_valid_def activation_valid_def)
  then show ?thesis
    using assms(4,5) validate_installed [OF assms(1,2)]
    by (cases "task_activationRequest t") (auto simp: setTaskActivationRequest_def)
qed

text \<open>
  C13. A pending request occupies the slot, and the id of a decided request of the history is installed
  again: this succeeds if the history has another entry, and is rejected as a duplicate if the decided
  request is its only entry, because then the history is not rewritten and keeps the id.
\<close>

theorem sole_settled_id_rejected:
  assumes "task_inv sha T0 t" "clock_ok T0 now" "task_activationRequest t = Some p" "\<not> isSettledActivationRequest p"
    and "activation_valid r" "request_target r = task_id t" "request_id r \<in> request_id ` set (settled_of t)"
  shows "setTaskActivationRequest sha t r now =
    (if length (settled_of t) = 1 then Inl Activation_duplicated else Inr (install_request t r now))"
proof -
  let ?u = "install_request t r now"
  have "first_error (activation_errors t) = None" using assms(1) by (simp add: task_inv_def task_valid_iff)
  then have h: "length (settled_of t) \<le> 16" "distinct (map request_id (settled_of t))"
    and hs: "\<forall>s \<in> set (settled_of t). activation_valid s \<and> request_target s = task_id t \<and> isSettledActivationRequest s \<and> request_id s \<noteq> request_id p"
    using assms(3) by (auto simp: activation_errors_None settled_errors_None max_settled_activation_requests_def)
  have other: "request_id p \<noteq> request_id r" using assms(7) hs by auto
  let ?F = "filter (\<lambda>s. request_id s \<noteq> request_id r) (settled_of t)"
  have "length ?F \<le> 16" using h(1) by (rule order_trans [OF length_filter_le])
  then have ret: "retained_requests t r = ?F"
    using assms(3,4) by (simp add: retained_requests_def settled_of_def displaced_request_def max_settled_activation_requests_def)
  have su: "settled_of ?u = (if ?F = [] then settled_of t else ?F)"
    by (simp add: install_request_def settled_of_def ret)
  have eq: "setTaskActivationRequest sha t r now = (case first_error (activation_errors ?u) of Some e \<Rightarrow> Inl e | None \<Rightarrow> Inr ?u)"
    using set_request_result [OF assms(1,2,5,6)] assms(3) other by simp
  show ?thesis
  proof (cases "length (settled_of t) = 1")
    case True
    then obtain a where a: "settled_of t = [a]" by (auto simp: length_Suc_conv)
    then have ia: "request_id a = request_id r" and va: "activation_valid a" "request_target a = task_id t" "isSettledActivationRequest a"
      using assms(7) hs by auto
    have "task_settledActivationRequests t = Some [a]"
      using a by (cases "task_settledActivationRequests t") (simp_all add: settled_of_def)
    then have "first_error (activation_errors ?u) = Some Activation_duplicated"
      using ret a ia va assms(5,6) by (simp add: activation_errors_def install_request_def activation_valid_def max_settled_activation_requests_def)
    then show ?thesis using eq True by simp
  next
    case False
    have "?F \<noteq> []"
    proof
      assume "?F = []"
      then have "set (map request_id (settled_of t)) \<subseteq> {request_id r}" by (auto simp: filter_empty_conv)
      then have "card (set (map request_id (settled_of t))) \<le> 1" using card_mono [of "{request_id r}"] by fastforce
      then have "length (settled_of t) \<le> 1" using distinct_card [OF h(2)] by simp
      moreover have "settled_of t \<noteq> []" using assms(7) by auto
      ultimately show False using False by (cases "settled_of t") simp_all
    qed
    then have "settled_of ?u = ?F" using su by simp
    moreover have "settled_errors (task_id t) (Some (request_id r)) [] ?F = None"
      unfolding settled_errors_None using hs h(2) by (auto simp: distinct_map_filter)
    ultimately have "first_error (activation_errors ?u) = None"
      using assms(5,6) \<open>length ?F \<le> 16\<close>
      by (simp add: activation_errors_None install_request_def max_settled_activation_requests_def)
    then show ?thesis using eq False by simp
  qed
qed

text \<open>The request \<open>r1\<close> is installed, cancelled and replaced by \<open>r2\<close>; then \<open>r1\<close> is requested again.\<close>

definition demo_facts2 :: operation_facts where
  "demo_facts2 = demo_facts\<lparr>op_targetId := ''task-1'', op_requestId := ''r2''\<rparr>"

definition demo_second :: activation_request where
  "demo_second = demo_activation\<lparr>act_operation := demo_facts2\<rparr>"

lemma demo_second_valid: "activation_valid demo_second"
proof -
  have "failure (validateOperationFacts demo_facts) = None" "failure (validateOperationFacts demo_facts2) = None" by code_simp+
  moreover have "op_capability demo_facts2 = op_capability demo_facts" "op_effect demo_facts2 = op_effect demo_facts"
    by (simp_all add: demo_facts2_def)
  ultimately show ?thesis
    using demo_activation_valid
    by (simp add: demo_second_def demo_activation_def activation_valid_def validateTaskActivationRequest_def check_Inr)
qed

definition demo_history :: task where
  "demo_history = install_request (install_request (install_request demo_task demo_request 0) demo_decided 0) demo_second 0"

lemma demo_second_fields: "request_target demo_second = ''task-1''" "request_id demo_second = ''r2''" "\<not> isSettledActivationRequest demo_second"
  by (simp_all add: demo_second_def demo_facts2_def demo_activation_def isSettledActivationRequest_def)

lemma demo_history_run:
  "run_commands (task_step demo_sha) [(0, Set_activation demo_request), (0, Set_activation demo_decided), (0, Set_activation demo_second)] demo_task
     = Inr demo_history"
  "task_inv demo_sha 0 demo_history" "task_activationRequest demo_history = Some demo_second" "settled_of demo_history = [demo_decided]"
  "task_id demo_history = ''task-1''"
proof -
  let ?a = "install_request demo_task demo_request 0" let ?b = "install_request ?a demo_decided 0"
  note fields = demo_task_fields demo_request_fields demo_second_fields demo_requests_valid demo_second_valid
  have slots: "task_activationRequest ?a = Some demo_request" "settled_of ?a = []" "task_id ?a = ''task-1''"
    "task_activationRequest ?b = Some demo_decided" "settled_of ?b = []" "task_id ?b = ''task-1''"
    "task_activationRequest demo_history = Some demo_second" "settled_of demo_history = [demo_decided]" "task_id demo_history = ''task-1''"
    by (simp_all add: demo_history_def install_request_def settled_of_def retained_requests_def displaced_request_def fields
        max_settled_activation_requests_def)
  have ok: "first_error (activation_errors ?b) = None" "first_error (activation_errors demo_history) = None"
    using slots unfolding activation_errors_None settled_errors_None by (simp_all add: fields max_settled_activation_requests_def)
  have inv: "task_inv demo_sha 0 u" if "task_inv demo_sha 0 t" "task_step demo_sha (0, Set_activation r) t = Inr u" for t r u
    using task.step_valid [OF that(1) _ that(2)] clock_0 by (simp add: task_admissible_def)
  have same: "act_operation demo_request = act_operation demo_decided" by (simp add: demo_request_def demo_decided_def)
  have a: "task_inv demo_sha 0 ?a" using inv [OF demo_task_inv] demo_install by simp
  have sb: "setTaskActivationRequest demo_sha ?a demo_decided 0 = Inr ?b"
    using set_request_result [OF a clock_0, of demo_decided] slots ok same by (simp add: fields)
  then have b: "task_inv demo_sha 0 ?b" using inv [OF a] by simp
  have sc: "setTaskActivationRequest demo_sha ?b demo_second 0 = Inr demo_history"
    using set_request_result [OF b clock_0, of demo_second] slots ok by (simp add: fields demo_history_def)
  show "task_inv demo_sha 0 demo_history" using inv [OF b] sc by simp
  show "run_commands (task_step demo_sha) [(0, Set_activation demo_request), (0, Set_activation demo_decided), (0, Set_activation demo_second)] demo_task
     = Inr demo_history" using demo_install sb sc by simp
  show "task_activationRequest demo_history = Some demo_second" "settled_of demo_history = [demo_decided]"
    "task_id demo_history = ''task-1''" by (rule slots)+
qed

lemma sole_settled_id_rejected_witness:
  "run_commands (task_step demo_sha) [(0, Set_activation demo_request), (0, Set_activation demo_decided), (0, Set_activation demo_second)] demo_task
     = Inr demo_history \<and>
   setTaskActivationRequest demo_sha demo_history demo_request 0 = Inl Activation_duplicated"
  using sole_settled_id_rejected [OF demo_history_run(2) clock_0 demo_history_run(3) demo_second_fields(3) demo_requests_valid(1)]
    demo_history_run by (simp add: demo_request_fields)

subsection \<open>Completing and reopening\<close>

lemma reopened_request_Inr:
  assumes "reopened_request t now = Inr q" "first_error (activation_errors t) = None"
  shows "map_option request_id q = map_option request_id (task_activationRequest t) \<and>
    (\<forall>r. q = Some r \<longrightarrow> activation_valid r \<and> request_target r = task_id t) \<and>
    (\<forall>r. task_activationRequest t = Some r \<longrightarrow>
      (if act_disposition r = Act_pending
       then \<exists>s. q = Some s \<and> act_disposition s = Act_cancelled \<and> act_operation s = act_operation r
       else q = Some r))"
proof (cases "task_activationRequest t")
  case (Some r)
  then have "activation_valid r" "request_target r = task_id t" using assms(2) by (simp_all add: activation_errors_None)
  then show ?thesis
    using assms(1) Some
    by (cases "act_disposition r = Act_pending")
      (auto simp: reopened_request_def bind_result_Inr map_error_Inr cancelTaskActivationRequest_def
        validateTaskActivationRequest_Inr)
qed (use assms in \<open>simp add: reopened_request_def\<close>)

text \<open>
  C12. Completing an Active Task and reopening it gives the Task back: only the time of the last
  update changes, artifact references and the isolation mark are cleared, a pending activation
  request comes back cancelled with its operation record untouched, and any other request,
  adopted, cancelled or failed, is exactly as it was.
\<close>

theorem task_complete_reopen:
  assumes "task_inv sha T0 t" "task_status t = Active" "clock_ok T0 later"
    "completeTask t now actor summary refs = Inr u" "reopened_request u later = Inr q"
  shows "reopenTask sha u later = Inr (t\<lparr>task_activationRequest := q, task_completionArtifactRefs := None,
      task_retirementIsolation := False, task_updatedAt := toISOString later\<rparr>) \<and>
    (\<forall>r. task_activationRequest t = Some r \<longrightarrow>
      (if act_disposition r = Act_pending
       then \<exists>s. q = Some s \<and> act_disposition s = Act_cancelled \<and> act_operation s = act_operation r
       else q = Some r))"
proof -
  let ?v = "t\<lparr>task_activationRequest := q, task_completionArtifactRefs := None, task_retirementIsolation := False\<rparr>"
  have t: "task_valid sha t" "created_by T0 t" using assms(1) by (simp_all add: task_inv_def)
  have none: "\<not> has_any_completion t" "\<not> has_any_retirement t" using valid_open [OF t(1)] assms(2) by simp_all
  have ae: "first_error (activation_errors t) = None" using t(1) by (simp add: task_valid_iff)
  obtain c b s rs where u: "u = t\<lparr>task_status := Completed, task_completedAt := c, task_completedBy := b,
      task_completionSummary := s, task_completionArtifactRefs := rs, task_updatedAt := toISOString now\<rparr>"
    using assms(2,4) by (auto simp: completeTask_def bind_result_Inr)
  have rq: "reopened_request t later = Inr q"
    using assms(5) unfolding u by (simp add: reopened_request_def)
  note q = reopened_request_Inr [OF rq ae]
  have "task_valid sha ?v"
    using t(1) none assms(2) q
    by (simp add: task_valid_iff activation_errors_None settled_of_def)
      (simp add: header_errors_def source_error_def workspace_errors_def metadata_errors_def completion_errors_def
        retirement_errors_def retirement_details_def archive_errors_def has_any_completion_def has_all_completion_def
        has_any_retirement_def has_any_archive_def)
  then have v: "task_valid sha (?v\<lparr>task_updatedAt := toISOString later\<rparr>)"
    by (rule touch_valid) (use t(2) assms(3) in \<open>simp_all add: created_by_def\<close>)
  have "(cleared_outcome u)\<lparr>task_activationRequest := q, task_status := Active, task_updatedAt := toISOString later\<rparr>
      = ?v\<lparr>task_updatedAt := toISOString later\<rparr>"
    unfolding u using none assms(2)
    by (intro task.equality) (simp_all add: cleared_outcome_def has_any_completion_def has_any_retirement_def)
  moreover have "task_status u = Completed" by (simp add: u)
  ultimately show ?thesis using v q assms(5) by (simp add: reopenTask_def validateTask_Inr)
qed

lemma task_complete_reopen_witness:
  "\<exists>u. completeTask demo_active 0 By_user ''done'' None = Inr u \<and>
     (\<exists>v. reopenTask demo_sha u 0 = Inr v \<and> task_status v = Active)"
proof -
  have act: "task_status demo_active = Active" "task_activationRequest demo_active = None"
    by (simp_all add: demo_active_def demo_task_fields)
  obtain u where u: "completeTask demo_active 0 By_user ''done'' None = Inr u" "task_activationRequest u = None"
    by (auto simp: completeTask_def act text_or_error_def demo_requires optional_field_def)
  then have "reopened_request u 0 = Inr None" by (simp add: reopened_request_def)
  from task_complete_reopen [OF demo_active_inv act(1) clock_0 u(1) this] u(1) act(1) show ?thesis by auto
qed

end
