(* ===== verification/Capability_Grant.thy ===== *)
theory Capability_Grant
  imports Validation
begin

text \<open>
  Capability grants (\<open>src/src/grant/capabilityGrant.ts\<close>): the bounded permission a user gives a
  Task, the decision whether a request is covered, the accounting of uses and revocation.

  A \<open>Record<string, ...>\<close> is an association list in the order in which \<open>Object.entries\<close> enumerates
  it. \<open>js_put\<close> is an assignment \<open>o[k] = v\<close>: an existing key keeps its place, an array index goes
  to its numeric place before all other keys, any other new key goes to the end. A property read
  also sees the names every object inherits, so a parameter bound of such a name is denied for its
  value and not as missing.
\<close>

subsection \<open>Objects as dictionaries\<close>

text \<open>An array index: the canonical decimal form of a number below \<open>2\<^sup>3\<^sup>2 - 1\<close>.\<close>

definition index_key :: "string \<Rightarrow> nat option" where
  "index_key s =
     (if s \<noteq> [] \<and> list_all is_digit s \<and> show_nat (number_of_digits s) = s \<and> number_of_digits s < 2 ^ 32 - 1
      then Some (number_of_digits s) else None)"

fun place_key :: "string \<Rightarrow> 'v \<Rightarrow> (string \<times> 'v) list \<Rightarrow> (string \<times> 'v) list" where
  "place_key k v [] = [(k, v)]"
| "place_key k v ((l, w) # m) =
     (case (index_key k, index_key l) of
        (Some i, Some j) \<Rightarrow> if i < j then (k, v) # (l, w) # m else (l, w) # place_key k v m
      | (Some i, None) \<Rightarrow> (k, v) # (l, w) # m
      | (None, _) \<Rightarrow> (l, w) # place_key k v m)"

definition js_put :: "string \<Rightarrow> 'v \<Rightarrow> (string \<times> 'v) list \<Rightarrow> (string \<times> 'v) list" where
  "js_put k v m =
     (if k \<in> fst ` set m then map (\<lambda>(l, w). if l = k then (l, v) else (l, w)) m else place_key k v m)"

definition inherited_name :: "string \<Rightarrow> bool" where
  "inherited_name s =
     (s \<in> set [''constructor'', ''__defineGetter__'', ''__defineSetter__'', ''hasOwnProperty'', ''__lookupGetter__'',
       ''__lookupSetter__'', ''isPrototypeOf'', ''propertyIsEnumerable'', ''toString'', ''valueOf'', ''__proto__'',
       ''toLocaleString''])"

subsection \<open>The record\<close>

datatype irreversibility = Irr_none | Irr_reversible | Irr_irreversible

fun irreversibility_rank :: "irreversibility \<Rightarrow> nat" where
  "irreversibility_rank Irr_none = 0"
| "irreversibility_rank Irr_reversible = 1"
| "irreversibility_rank Irr_irreversible = 2"

record grant_repository =
  repo_owner :: string
  repo_name :: string

record grant_scope =
  sc_taskId :: "string option"
  sc_projectIds :: "string list option"
  sc_repositories :: "grant_repository list option"
  sc_packages :: "string list option"
  sc_homePath :: "string option"

record authorization_source =
  auth_messageId :: string
  auth_digest :: string
  auth_purpose :: string
  auth_nativeSessionId :: string

type_synonym parameter_bounds = "(string \<times> string list) list"

record capability_grant =
  cg_id :: string
  cg_taskId :: string
  cg_granter :: string
  cg_authorizationSource :: "authorization_source option"
  cg_scope :: grant_scope
  cg_actions :: "string list"
  cg_parameterBounds :: parameter_bounds
  cg_expiresAt :: "string option"
  cg_maxUses :: "int option"
  cg_usesUsed :: int
  cg_useReservations :: "string list"
  cg_ceiling :: irreversibility
  cg_revokedAt :: "string option"
  cg_revokedBy :: "string option"
  cg_createdAt :: string
  cg_updatedAt :: string

record grant_input =
  gi_granter :: string
  gi_authorizationSource :: "authorization_source option"
  gi_scope :: "grant_scope option"
  gi_actions :: "string list"
  gi_parameterBounds :: "parameter_bounds option"
  gi_expiresAt :: "string option"
  gi_maxUses :: "int option"
  gi_ceiling :: "irreversibility option"

record grant_request =
  gr_action :: string
  gr_params :: "(string \<times> string) list option"
  gr_irreversibility :: "irreversibility option"

datatype grant_denial =
    Grant_revoked | Grant_expired | Grant_uses_exhausted | Grant_action_not_allowed | Grant_parameter_missing
  | Grant_parameter_value_not_allowed | Grant_irreversibility_exceeds_ceiling

datatype grant_decision = Allowed | Denied grant_denial

datatype grant_field =
    GF_taskId | GF_granter | GF_purpose | GF_session | GF_scopeTask | GF_scopeProject | GF_scopePackage | GF_homePath
  | GF_repositoryOwner | GF_repositoryName | GF_action | GF_parameter | GF_parameterValue | GF_expiresAt | GF_maxUses
  | GF_revokedAt | GF_revokedBy | GF_createdAt | GF_updatedAt

datatype grant_error =
    Grant_field grant_field field_error
  | Grant_reference reference_error
  | Source_digest_invalid | Scope_without_selector | Repositories_not_unique | Actions_empty
  | Bound_without_values | Bound_values_not_unique | Uses_invalid | Uses_exceed_maximum
  | Reservation_empty | Reservations_not_unique | Reservations_outnumber_uses | Revocation_incomplete
  | Grant_exhausted

abbreviation grant_check :: "grant_field \<Rightarrow> field_error + 'a \<Rightarrow> grant_error option" where
  "grant_check l r \<equiv> map_option (Grant_field l) (failure r)"

subsection \<open>Normalisation\<close>

definition normalizeActions :: "string list \<Rightarrow> grant_error + string list" where
  "normalizeActions actions =
     (if actions = [] then Inl Actions_empty
      else map_error (Grant_field GF_action) (normalizedUniqueText actions))"

definition normalize_bound_values :: "string list \<Rightarrow> grant_error + string list" where
  "normalize_bound_values values =
     (if values = [] then Inl Bound_without_values
      else bind_result (map_error (Grant_field GF_parameterValue) (map_result requireText values)) (\<lambda>allowed.
           if \<not> distinct allowed then Inl Bound_values_not_unique else Inr allowed))"

fun normalize_bounds_into :: "parameter_bounds \<Rightarrow> parameter_bounds \<Rightarrow> grant_error + parameter_bounds" where
  "normalize_bounds_into normalized [] = Inr normalized"
| "normalize_bounds_into normalized ((name, values) # rest) =
     bind_result (map_error (Grant_field GF_parameter) (requireIdentity name)) (\<lambda>key.
     bind_result (normalize_bound_values values) (\<lambda>allowed.
       normalize_bounds_into (js_put key allowed normalized) rest))"

definition normalizeParameterBounds :: "parameter_bounds option \<Rightarrow> grant_error + parameter_bounds" where
  "normalizeParameterBounds bounds =
     (case bounds of None \<Rightarrow> Inr [] | Some bs \<Rightarrow> normalize_bounds_into [] bs)"

definition normalize_repository :: "grant_repository \<Rightarrow> grant_error + grant_repository" where
  "normalize_repository r =
     bind_result (map_error (Grant_field GF_repositoryOwner) (requireText (repo_owner r))) (\<lambda>owner.
     bind_result (map_error (Grant_field GF_repositoryName) (requireText (repo_name r))) (\<lambda>name.
       Inr \<lparr>repo_owner = owner, repo_name = name\<rparr>))"

definition repository_key :: "grant_repository \<Rightarrow> string" where
  "repository_key r = repo_owner r @ ''/'' @ repo_name r"

definition normalizeRepositories :: "grant_repository list \<Rightarrow> grant_error + grant_repository list" where
  "normalizeRepositories repositories =
     bind_result (map_result normalize_repository repositories) (\<lambda>normalized.
       if \<not> distinct (map repository_key normalized) then Inl Repositories_not_unique else Inr normalized)"

definition normalizeScopeIdentities :: "string list \<Rightarrow> grant_error + string list" where
  "normalizeScopeIdentities values = map_error (Grant_field GF_scopeProject) (normalizedUniqueIdentities values)"

definition normalizeScopeText :: "string list \<Rightarrow> grant_error + string list" where
  "normalizeScopeText values = map_error (Grant_field GF_scopePackage) (normalizedUniqueText values)"

definition nonempty_list :: "'a list option \<Rightarrow> bool" where
  "nonempty_list xs = (case xs of None \<Rightarrow> False | Some l \<Rightarrow> l \<noteq> [])"

definition hasScopeSelector :: "grant_scope \<Rightarrow> bool" where
  "hasScopeSelector s =
     (sc_taskId s \<noteq> None \<or> nonempty_list (sc_projectIds s) \<or> nonempty_list (sc_repositories s)
      \<or> nonempty_list (sc_packages s) \<or> sc_homePath s \<noteq> None)"

definition scope_errors :: "grant_scope \<Rightarrow> grant_error option list" where
  "scope_errors s =
     [when_some (sc_taskId s) (\<lambda>v. grant_check GF_scopeTask (requireIdentity v)),
      when_some (sc_projectIds s) (\<lambda>vs. failure (normalizeScopeIdentities vs)),
      when_some (sc_repositories s) (\<lambda>rs. failure (normalizeRepositories rs)),
      when_some (sc_packages s) (\<lambda>vs. failure (normalizeScopeText vs)),
      when_some (sc_homePath s) (\<lambda>v. grant_check GF_homePath (requireText v)),
      reject (\<not> hasScopeSelector s \<and> sc_taskId s = None) Scope_without_selector]"

definition validateScope :: "grant_scope \<Rightarrow> grant_error + unit" where
  "validateScope s = check (scope_errors s) ()"

definition optional_list :: "('a list \<Rightarrow> 'e + 'b list) \<Rightarrow> 'a list option \<Rightarrow> 'e + 'b list option" where
  "optional_list f v = (case v of None \<Rightarrow> Inr None | Some xs \<Rightarrow>
     if xs = [] then Inr None else bind_result (f xs) (\<lambda>y. Inr (Some y)))"

definition task_only_scope :: "string \<Rightarrow> grant_scope" where
  "task_only_scope taskId = \<lparr>sc_taskId = Some taskId, sc_projectIds = None, sc_repositories = None,
     sc_packages = None, sc_homePath = None\<rparr>"

definition normalizeScope :: "grant_scope option \<Rightarrow> string \<Rightarrow> grant_error + grant_scope" where
  "normalizeScope scope taskId =
     (case scope of
        None \<Rightarrow> Inr (task_only_scope taskId)
      | Some s \<Rightarrow>
          bind_result (validateScope s) (\<lambda>_.
          bind_result (optional_value (\<lambda>v. map_error (Grant_field GF_scopeTask) (requireIdentity v)) (sc_taskId s)) (\<lambda>t.
          bind_result (optional_list normalizeScopeIdentities (sc_projectIds s)) (\<lambda>ps.
          bind_result (optional_list normalizeRepositories (sc_repositories s)) (\<lambda>rs.
          bind_result (optional_list normalizeScopeText (sc_packages s)) (\<lambda>ks.
          bind_result (optional_value (\<lambda>v. map_error (Grant_field GF_homePath) (requireText v)) (sc_homePath s)) (\<lambda>h.
          let normalized = \<lparr>sc_taskId = t, sc_projectIds = ps, sc_repositories = rs, sc_packages = ks, sc_homePath = h\<rparr> in
          if \<not> hasScopeSelector normalized then Inr (task_only_scope taskId) else Inr normalized)))))))"

definition normalizeCeiling :: "irreversibility option \<Rightarrow> irreversibility" where
  "normalizeCeiling v = (case v of None \<Rightarrow> Irr_none | Some c \<Rightarrow> c)"

subsection \<open>Validation and creation\<close>

definition source_errors :: "string \<Rightarrow> authorization_source \<Rightarrow> grant_error option" where
  "source_errors taskId s = first_error
     [map_option Grant_reference (failure (validateTaskRecordReference (task_reference taskId (auth_messageId s)) K_message)),
      reject (\<not> is_digest (auth_digest s)) Source_digest_invalid,
      grant_check GF_purpose (requireText (auth_purpose s)),
      grant_check GF_session (requireText (auth_nativeSessionId s))]"

definition use_errors :: "capability_grant \<Rightarrow> grant_error option list" where
  "use_errors g =
     [when_some (cg_expiresAt g) (\<lambda>v. grant_check GF_expiresAt (requireTimestamp v)),
      when_some (cg_maxUses g) (\<lambda>n. grant_check GF_maxUses (requirePositiveInteger n)),
      reject (\<not> isSafeInteger (cg_usesUsed g) \<or> cg_usesUsed g < 0) Uses_invalid,
      when_some (cg_maxUses g) (\<lambda>n. reject (cg_usesUsed g > n) Uses_exceed_maximum),
      reject ([] \<in> set (cg_useReservations g)) Reservation_empty,
      reject (\<not> distinct (cg_useReservations g)) Reservations_not_unique,
      reject (int (length (cg_useReservations g)) > cg_usesUsed g) Reservations_outnumber_uses]"

definition grant_head_errors :: "capability_grant \<Rightarrow> grant_error option list" where
  "grant_head_errors g =
     [map_option Grant_reference
        (failure (validateTaskRecordReference (task_reference (cg_taskId g) (cg_id g)) K_capabilityGrant)),
      grant_check GF_taskId (requireIdentity (cg_taskId g)),
      grant_check GF_granter (requireText (cg_granter g)),
      when_some (cg_authorizationSource g) (source_errors (cg_taskId g)),
      failure (validateScope (cg_scope g)),
      failure (normalizeActions (cg_actions g)),
      failure (normalizeParameterBounds (Some (cg_parameterBounds g)))]"

definition grant_tail_errors :: "capability_grant \<Rightarrow> grant_error option list" where
  "grant_tail_errors g =
     [reject ((cg_revokedAt g = None) \<noteq> (cg_revokedBy g = None)) Revocation_incomplete,
      when_some (cg_revokedAt g) (\<lambda>v. grant_check GF_revokedAt (requireTimestamp v)),
      when_some (cg_revokedBy g) (\<lambda>v. grant_check GF_revokedBy (requireText v)),
      grant_check GF_createdAt (requireTimestamp (cg_createdAt g)),
      grant_check GF_updatedAt (requireTimestamp (cg_updatedAt g))]"

definition validateCapabilityGrant :: "capability_grant \<Rightarrow> grant_error + capability_grant" where
  "validateCapabilityGrant g = check (grant_head_errors g @ use_errors g @ grant_tail_errors g) g"

definition createCapabilityGrant ::
  "string \<Rightarrow> string \<Rightarrow> grant_input \<Rightarrow> time \<Rightarrow> grant_error + capability_grant" where
  "createCapabilityGrant i taskId input now =
     bind_result (map_error Grant_reference (validateTaskRecordReference (task_reference taskId i) K_capabilityGrant)) (\<lambda>ref.
     bind_result (map_error (Grant_field GF_taskId) (requireIdentity taskId)) (\<lambda>task.
     bind_result (map_error (Grant_field GF_granter) (requireText (gi_granter input))) (\<lambda>granter.
     bind_result (normalizeScope (gi_scope input) taskId) (\<lambda>scope.
     bind_result (normalizeActions (gi_actions input)) (\<lambda>actions.
     bind_result (normalizeParameterBounds (gi_parameterBounds input)) (\<lambda>bounds.
     bind_result (optional_value (\<lambda>v. map_error (Grant_field GF_expiresAt) (requireTimestamp v)) (gi_expiresAt input)) (\<lambda>expires.
     bind_result (optional_value (\<lambda>n. map_error (Grant_field GF_maxUses) (requirePositiveInteger n)) (gi_maxUses input)) (\<lambda>maxUses.
     validateCapabilityGrant
       \<lparr>cg_id = ref_localId ref, cg_taskId = task, cg_granter = granter,
        cg_authorizationSource = gi_authorizationSource input, cg_scope = scope, cg_actions = actions,
        cg_parameterBounds = bounds, cg_expiresAt = expires, cg_maxUses = maxUses, cg_usesUsed = 0,
        cg_useReservations = [], cg_ceiling = normalizeCeiling (gi_ceiling input), cg_revokedAt = None,
        cg_revokedBy = None, cg_createdAt = toISOString now, cg_updatedAt = toISOString now\<rparr>))))))))"

subsection \<open>Decision, use and revocation\<close>

fun bounds_denial :: "(string \<times> string) list option \<Rightarrow> parameter_bounds \<Rightarrow> grant_denial option" where
  "bounds_denial params [] = None"
| "bounds_denial params ((name, allowedValues) # rest) =
     (case Option.bind params (\<lambda>ps. map_of ps name) of
        None \<Rightarrow> if params \<noteq> None \<and> inherited_name name then Some Grant_parameter_value_not_allowed
                else Some Grant_parameter_missing
      | Some value \<Rightarrow> if value \<notin> set allowedValues then Some Grant_parameter_value_not_allowed
                      else bounds_denial params rest)"

definition requested_rank :: "grant_request \<Rightarrow> nat" where
  "requested_rank r = irreversibility_rank (case gr_irreversibility r of None \<Rightarrow> Irr_none | Some i \<Rightarrow> i)"

definition past_expiry :: "capability_grant \<Rightarrow> time \<Rightarrow> bool" where
  "past_expiry g now =
     (case Option.bind (cg_expiresAt g) Date_parse of None \<Rightarrow> False | Some e \<Rightarrow> now > e)"

definition uses_exhausted :: "capability_grant \<Rightarrow> bool" where
  "uses_exhausted g = (case cg_maxUses g of None \<Rightarrow> False | Some n \<Rightarrow> cg_usesUsed g \<ge> n)"

definition checkGrant ::
  "capability_grant \<Rightarrow> grant_request \<Rightarrow> time \<Rightarrow> bool \<Rightarrow> grant_error + grant_decision" where
  "checkGrant g request now skipUsesCheck =
     bind_result (validateCapabilityGrant g) (\<lambda>_. Inr (
     if cg_revokedAt g \<noteq> None then Denied Grant_revoked
     else if past_expiry g now then Denied Grant_expired
     else if \<not> skipUsesCheck \<and> uses_exhausted g then Denied Grant_uses_exhausted
     else if gr_action request \<notin> set (cg_actions g) then Denied Grant_action_not_allowed
     else case bounds_denial (gr_params request) (cg_parameterBounds g) of
            Some d \<Rightarrow> Denied d
          | None \<Rightarrow>
              if requested_rank request > irreversibility_rank (cg_ceiling g)
              then Denied Grant_irreversibility_exceeds_ceiling else Allowed))"

definition grantUseReservations :: "capability_grant \<Rightarrow> string list" where
  "grantUseReservations g = cg_useReservations g"

definition recordGrantUse ::
  "capability_grant \<Rightarrow> time \<Rightarrow> string option \<Rightarrow> grant_error + capability_grant" where
  "recordGrantUse g now reservationKey =
     bind_result (validateCapabilityGrant g) (\<lambda>_.
     if uses_exhausted g then Inl Grant_exhausted
     else validateCapabilityGrant (g\<lparr>cg_usesUsed := cg_usesUsed g + 1,
            cg_useReservations := grantUseReservations g @ (case reservationKey of None \<Rightarrow> [] | Some k \<Rightarrow> [k]),
            cg_updatedAt := toISOString now\<rparr>))"

definition revokeGrant :: "capability_grant \<Rightarrow> string \<Rightarrow> time \<Rightarrow> grant_error + capability_grant" where
  "revokeGrant g revokedBy now =
     bind_result (validateCapabilityGrant g) (\<lambda>_.
     if cg_revokedAt g \<noteq> None then Inr g
     else bind_result (map_error (Grant_field GF_revokedBy) (requireText revokedBy)) (\<lambda>actor.
          validateCapabilityGrant (g\<lparr>cg_revokedAt := Some (toISOString now), cg_revokedBy := Some actor,
            cg_updatedAt := toISOString now\<rparr>)))"

subsection \<open>Validity and the ratchet of uses\<close>

definition grant_valid :: "capability_grant \<Rightarrow> bool" where
  "grant_valid g \<longleftrightarrow> validateCapabilityGrant g = Inr g"

lemma validateCapabilityGrant_Inr [transition]:
  "validateCapabilityGrant g = Inr h \<longleftrightarrow> h = g \<and> grant_valid g"
  by (auto simp: validateCapabilityGrant_def grant_valid_def check_Inr)

lemma grant_valid_iff:
  "grant_valid g \<longleftrightarrow> first_error (grant_head_errors g) = None \<and> first_error (use_errors g) = None \<and>
     first_error (grant_tail_errors g) = None"
  by (simp add: grant_valid_def validateCapabilityGrant_def check_Inr)

lemma grant_uses:
  assumes "grant_valid g"
  shows "0 \<le> cg_usesUsed g" "cg_usesUsed g \<le> max_safe_integer" "cg_maxUses g = Some n \<Longrightarrow> cg_usesUsed g \<le> n"
    "distinct (cg_useReservations g)" "int (length (cg_useReservations g)) \<le> cg_usesUsed g"
  using assms by (auto simp: grant_valid_iff use_errors_def isSafeInteger_def max_safe_integer_def)

datatype grant_command = Use time "string option" | Revoke string time

fun grant_step :: "grant_command \<Rightarrow> capability_grant \<Rightarrow> grant_error + capability_grant" where
  "grant_step (Use now key) g = recordGrantUse g now key"
| "grant_step (Revoke actor now) g = revokeGrant g actor now"

fun use_keys :: "grant_command list \<Rightarrow> string option list" where
  "use_keys [] = []"
| "use_keys (Use now key # cs) = key # use_keys cs"
| "use_keys (Revoke actor now # cs) = use_keys cs"

text \<open>What a grant permits, apart from its accounting.\<close>

definition grant_terms :: "capability_grant \<Rightarrow> _" where
  "grant_terms g = (cg_id g, cg_taskId g, cg_granter g, cg_authorizationSource g, cg_scope g, cg_actions g,
     cg_parameterBounds g, cg_expiresAt g, cg_maxUses g, cg_ceiling g, cg_createdAt g)"

definition grant_below :: "capability_grant \<Rightarrow> capability_grant \<Rightarrow> bool" where
  "grant_below g h \<longleftrightarrow>
     cg_usesUsed g \<le> cg_usesUsed h \<and> prefix (cg_useReservations g) (cg_useReservations h) \<and>
     (cg_revokedAt g \<noteq> None \<longrightarrow> cg_revokedAt h = cg_revokedAt g \<and> cg_revokedBy h = cg_revokedBy g)"

lemma recordGrantUse_Inr:
  "recordGrantUse g now key = Inr h \<longleftrightarrow> grant_valid g \<and> \<not> uses_exhausted g \<and> grant_valid h \<and>
     h = g\<lparr>cg_usesUsed := cg_usesUsed g + 1,
            cg_useReservations := cg_useReservations g @ (case key of None \<Rightarrow> [] | Some k \<Rightarrow> [k]),
            cg_updatedAt := toISOString now\<rparr>"
  by (auto simp: recordGrantUse_def bind_result_Inr validateCapabilityGrant_Inr grantUseReservations_def)

lemma revokeGrant_Inr:
  "revokeGrant g actor now = Inr h \<longleftrightarrow> grant_valid g \<and>
     (if cg_revokedAt g \<noteq> None then h = g
      else \<exists>a. requireText actor = Inr a \<and> grant_valid h \<and>
        h = g\<lparr>cg_revokedAt := Some (toISOString now), cg_revokedBy := Some a, cg_updatedAt := toISOString now\<rparr>)"
  by (auto simp: revokeGrant_def bind_result_Inr map_error_Inr validateCapabilityGrant_Inr)

lemmas grant_steps = recordGrantUse_Inr revokeGrant_Inr

interpretation grant: identified_system grant_valid grant_step "\<lambda>_. True" grant_terms
proof
  fix g c h
  assume "grant_step c g = Inr h"
  then show "grant_valid h" by (cases c) (auto simp: grant_steps split: if_splits)
next
  fix g c h
  assume "grant_step c g = Inr h"
  then show "grant_terms h = grant_terms g" by (cases c) (auto simp: grant_steps grant_terms_def split: if_splits)
qed

interpretation grant_progress: ratchet_system grant_valid grant_step "\<lambda>_. True" grant_below
proof
  fix g c h
  assume "grant_step c g = Inr h"
  then show "grant_below g h" by (cases c) (auto simp: grant_steps grant_below_def split: if_splits)
next
  fix f g h
  assume "grant_below f g" "grant_below g h"
  then show "grant_below f h" by (auto simp: grant_below_def dest: prefix_order.trans)
qed (simp add: grant_below_def)

lemma grant_run_uses:
  assumes "run_commands grant_step cs g = Inr h"
  shows "cg_usesUsed h = cg_usesUsed g + int (length (use_keys cs)) \<and>
    cg_useReservations h = cg_useReservations g @ List.map_filter id (use_keys cs)"
  using assms
proof (induction cs arbitrary: g rule: use_keys.induct)
  case (2 now key cs)
  from "2.prems" obtain u where u: "recordGrantUse g now key = Inr u" "run_commands grant_step cs u = Inr h"
    by (auto simp: bind_result_Inr)
  from "2.IH" [OF u(2)] u(1) show ?case
    by (cases key) (auto simp: recordGrantUse_Inr map_filter_simps)
next
  case (3 actor now cs)
  from "3.prems" obtain u where u: "revokeGrant g actor now = Inr u" "run_commands grant_step cs u = Inr h"
    by (auto simp: bind_result_Inr)
  from "3.IH" [OF u(2)] u(1) show ?case by (auto simp: revokeGrant_Inr split: if_splits)
qed (simp add: map_filter_simps)

subsection \<open>What the decision means\<close>

definition grant_covers :: "capability_grant \<Rightarrow> grant_request \<Rightarrow> time \<Rightarrow> bool \<Rightarrow> bool" where
  "grant_covers g r now skip \<longleftrightarrow>
     cg_revokedAt g = None \<and>
     (\<forall>e t. cg_expiresAt g = Some e \<and> Date_parse e = Some t \<longrightarrow> now \<le> t) \<and>
     (skip \<or> (\<forall>n. cg_maxUses g = Some n \<longrightarrow> cg_usesUsed g < n)) \<and>
     gr_action r \<in> set (cg_actions g) \<and>
     (\<forall>(name, vs) \<in> set (cg_parameterBounds g). \<exists>ps v. gr_params r = Some ps \<and> map_of ps name = Some v \<and> v \<in> set vs) \<and>
     requested_rank r \<le> irreversibility_rank (cg_ceiling g)"

lemma bounds_denial_None:
  "bounds_denial params bs = None \<longleftrightarrow>
     (\<forall>(name, vs) \<in> set bs. \<exists>ps v. params = Some ps \<and> map_of ps name = Some v \<and> v \<in> set vs)"
proof (cases params)
  case (Some ps)
  show ?thesis unfolding Some
    by (induction bs) (auto split: option.splits if_splits)
qed (cases bs; auto)

lemma past_expiry_iff: "past_expiry g now \<longleftrightarrow> (\<exists>e t. cg_expiresAt g = Some e \<and> Date_parse e = Some t \<and> t < now)"
  by (cases "cg_expiresAt g") (auto simp: past_expiry_def split: option.splits)

lemma uses_exhausted_iff: "uses_exhausted g \<longleftrightarrow> (\<exists>n. cg_maxUses g = Some n \<and> n \<le> cg_usesUsed g)"
  by (cases "cg_maxUses g") (auto simp: uses_exhausted_def)

lemma grant_covers_iff:
  "grant_covers g r now skip \<longleftrightarrow> cg_revokedAt g = None \<and> \<not> past_expiry g now \<and> (skip \<or> \<not> uses_exhausted g) \<and>
     gr_action r \<in> set (cg_actions g) \<and> bounds_denial (gr_params r) (cg_parameterBounds g) = None \<and>
     requested_rank r \<le> irreversibility_rank (cg_ceiling g)"
  unfolding grant_covers_def past_expiry_iff uses_exhausted_iff bounds_denial_None by (auto simp: not_le not_less)

lemma checkGrant_Allowed:
  assumes "grant_valid g"
  shows "checkGrant g r now skip = Inr Allowed \<longleftrightarrow> grant_covers g r now skip"
  using assms unfolding grant_covers_iff
  by (cases "bounds_denial (gr_params r) (cg_parameterBounds g)")
    (auto simp: checkGrant_def grant_valid_def)

lemma recordGrantUse_total:
  assumes "grant_valid g" "\<not> uses_exhausted g" "valid_time now" "cg_usesUsed g < max_safe_integer"
    "\<forall>k. key = Some k \<longrightarrow> k \<noteq> [] \<and> k \<notin> set (cg_useReservations g)"
  shows "\<exists>h. recordGrantUse g now key = Inr h"
proof -
  let ?h = "g\<lparr>cg_usesUsed := cg_usesUsed g + 1,
      cg_useReservations := cg_useReservations g @ (case key of None \<Rightarrow> [] | Some k \<Rightarrow> [k]),
      cg_updatedAt := toISOString now\<rparr>"
  have "first_error (use_errors ?h) = None"
    using assms by (auto simp: grant_valid_iff use_errors_def uses_exhausted_def isSafeInteger_def max_safe_integer_def
        split: option.splits)
  moreover have "grant_head_errors ?h = grant_head_errors g" by (simp add: grant_head_errors_def)
  moreover have "first_error (grant_tail_errors ?h) = None"
    using assms by (auto simp: grant_valid_iff grant_tail_errors_def)
  ultimately have "grant_valid ?h" using assms(1) by (simp add: grant_valid_iff)
  then show ?thesis using assms(1,2) by (auto simp: recordGrantUse_Inr)
qed


definition demo_grant_input :: grant_input where
  "demo_grant_input = \<lparr>gi_granter = ''user'', gi_authorizationSource = None, gi_scope = None, gi_actions = [''merge''],
     gi_parameterBounds = Some [(''commit'', [''abc''])], gi_expiresAt = None, gi_maxUses = Some 1,
     gi_ceiling = Some Irr_reversible\<rparr>"

definition demo_grant :: capability_grant where
  "demo_grant = \<lparr>cg_id = ''capability-grant-1'', cg_taskId = ''task-1'', cg_granter = ''user'',
     cg_authorizationSource = None, cg_scope = task_only_scope ''task-1'', cg_actions = [''merge''],
     cg_parameterBounds = [(''commit'', [''abc''])], cg_expiresAt = None, cg_maxUses = Some 1, cg_usesUsed = 0,
     cg_useReservations = [], cg_ceiling = Irr_reversible, cg_revokedAt = None, cg_revokedBy = None,
     cg_createdAt = toISOString 0, cg_updatedAt = toISOString 0\<rparr>"

definition demo_grant_request :: grant_request where
  "demo_grant_request = \<lparr>gr_action = ''merge'', gr_params = Some [(''commit'', ''abc'')],
     gr_irreversibility = Some Irr_reversible\<rparr>"

lemma demo_grant_created: "createCapabilityGrant ''capability-grant-1'' ''task-1'' demo_grant_input 0 = Inr demo_grant"
  by code_simp

lemma demo_grant_valid: "validateCapabilityGrant demo_grant = Inr demo_grant"
  by code_simp

lemma demo_grant_used: "\<exists>h. run_commands grant_step [Use 0 (Some ''k'')] demo_grant = Inr h"
proof -
  have "valid_time 0" by code_simp
  moreover have "\<not> uses_exhausted demo_grant" "cg_usesUsed demo_grant < max_safe_integer" "cg_useReservations demo_grant = []"
    by (simp_all add: demo_grant_def uses_exhausted_def max_safe_integer_def)
  ultimately obtain h where "recordGrantUse demo_grant 0 (Some ''k'') = Inr h"
    using recordGrantUse_total [of demo_grant 0 "Some ''k''"] demo_grant_valid by (auto simp: grant_valid_def)
  then show ?thesis by simp
qed

subsection \<open>Properties\<close>

text \<open>
  C15. The decision is exact: on a valid grant a request is allowed if and only if the grant is not
  revoked, not past its expiry, has a use left (unless the check is skipped for a step already
  charged), names the action, every bounded parameter is present with an allowed value, and the
  request is no more irreversible than the ceiling; every other request is denied with a reason. An
  allowed request can be charged with a fresh reservation key, after which the key cannot be charged
  a second time.
\<close>

theorem grant_decision_exact:
  assumes "validateCapabilityGrant g = Inr g"
  shows "(checkGrant g r now skip = Inr Allowed \<longleftrightarrow> grant_covers g r now skip) \<and>
    (\<not> grant_covers g r now skip \<longrightarrow> (\<exists>d. checkGrant g r now skip = Inr (Denied d))) \<and>
    (checkGrant g r now False = Inr Allowed \<and> valid_time now \<and> cg_usesUsed g < max_safe_integer \<and>
       k \<noteq> [] \<and> k \<notin> set (cg_useReservations g) \<longrightarrow>
     (\<exists>h. recordGrantUse g now (Some k) = Inr h \<and> (\<forall>later i. recordGrantUse h later (Some k) \<noteq> Inr i)))"
proof -
  have v: "grant_valid g" using assms by (simp add: grant_valid_def)
  have "\<exists>d. checkGrant g r now skip = Inr (Denied d)" if "\<not> grant_covers g r now skip"
  proof -
    from assms obtain d where d: "checkGrant g r now skip = Inr d" by (simp add: checkGrant_def)
    then show ?thesis using that checkGrant_Allowed [OF v, of r now skip] by (cases d) auto
  qed
  moreover have "\<exists>h. recordGrantUse g now (Some k) = Inr h \<and> (\<forall>later i. recordGrantUse h later (Some k) \<noteq> Inr i)"
    if a: "checkGrant g r now False = Inr Allowed" "valid_time now" "cg_usesUsed g < max_safe_integer"
      "k \<noteq> []" "k \<notin> set (cg_useReservations g)"
  proof -
    have "\<not> uses_exhausted g" using a(1) checkGrant_Allowed [OF v] by (simp add: grant_covers_iff)
    then obtain h where h: "recordGrantUse g now (Some k) = Inr h"
      using recordGrantUse_total [OF v _ a(2,3), of "Some k"] a(4,5) by auto
    then have "k \<in> set (cg_useReservations h)" by (auto simp: recordGrantUse_Inr)
    then have "recordGrantUse h later (Some k) \<noteq> Inr i" for later i
      using grant_uses(4) [of i] by (auto simp: recordGrantUse_Inr)
    with h show ?thesis by blast
  qed
  ultimately show ?thesis using checkGrant_Allowed [OF v] by blast
qed

lemma grant_decision_exact_witness: "checkGrant demo_grant demo_grant_request 0 False = Inr Allowed"
proof -
  have "grant_covers demo_grant demo_grant_request 0 False"
    unfolding grant_covers_iff
    by (simp add: demo_grant_def demo_grant_request_def past_expiry_def uses_exhausted_def requested_rank_def)
  then show ?thesis using grant_decision_exact [OF demo_grant_valid] by blast
qed

text \<open>
  C16. Uses are accounted exactly: after any sequence of recorded uses and revocations that
  succeeds, the grant is valid, its counter has grown by the number of uses and never exceeds the
  maximum, the reservation keys are those of the uses in order without repetition, what the grant
  permits is unchanged, and a revocation once recorded stands.
\<close>

theorem grant_accounting:
  assumes "validateCapabilityGrant g = Inr g" "run_commands grant_step cs g = Inr h"
  shows "validateCapabilityGrant h = Inr h \<and> cg_usesUsed h = cg_usesUsed g + int (length (use_keys cs)) \<and>
    (\<forall>n. cg_maxUses g = Some n \<longrightarrow> cg_usesUsed h \<le> n) \<and>
    cg_useReservations h = cg_useReservations g @ List.map_filter id (use_keys cs) \<and>
    distinct (cg_useReservations h) \<and> grant_terms h = grant_terms g \<and>
    (cg_revokedAt g \<noteq> None \<longrightarrow> cg_revokedAt h = cg_revokedAt g \<and> cg_revokedBy h = cg_revokedBy g)"
proof -
  have v: "grant_valid g" and adm: "list_all (\<lambda>_. True) cs" using assms(1) by (simp_all add: grant_valid_def list_all_iff)
  have h: "grant_valid h" by (rule grant.run_valid [OF v adm assms(2)])
  have "grant_terms h = grant_terms g" by (rule grant.run_identity [OF v adm assms(2)])
  moreover from this have "cg_maxUses h = cg_maxUses g" by (simp add: grant_terms_def)
  moreover have "grant_below g h" by (rule grant_progress.run_below [OF v adm assms(2)])
  ultimately show ?thesis
    using h grant_uses [OF h] grant_run_uses [OF assms(2)] by (simp add: grant_below_def grant_valid_def)
qed

lemma grant_accounting_witness:
  "\<exists>h. run_commands grant_step [Use 0 (Some ''k'')] demo_grant = Inr h \<and> cg_usesUsed h = 1"
proof -
  obtain h where h: "run_commands grant_step [Use 0 (Some ''k'')] demo_grant = Inr h" using demo_grant_used by blast
  have "cg_usesUsed demo_grant = 0" by (simp add: demo_grant_def)
  then show ?thesis using grant_accounting [OF demo_grant_valid h] h by (simp del: run_commands.simps)
qed

end
