(* ===== verification/Integration_Attempt.thy ===== *)
theory Integration_Attempt
  imports Task
begin

text \<open>
  Integration attempts (\<open>src/src/integration/integrationAttempt.ts\<close>) and check results
  (\<open>src/src/integration/checkResult.ts\<close>): one attempt to bring a Work Item result or an upstream
  change into a Task branch, with its conflicts, decisions, check job and outcome.

  A patch is spread over the attempt: a field that the patch does not have (\<open>None\<close>) keeps the old value, a
  field that it has (\<open>Some v\<close>) replaces it, also by \<open>undefined\<close> (\<open>Some None\<close>), which is how a settled conflict is
  cleared (\<open>src/src/integration/integrationSourceApplication.ts\<close>). Checks that a value
  has its declared TypeScript type have no counterpart.
\<close>

subsection \<open>Check results\<close>

datatype check_outcome = Check_passed | Check_failed | Check_skipped

record check_result =
  chk_name :: string
  chk_outcome :: check_outcome
  chk_details :: "string option"
  chk_logPath :: "string option"

definition is_letter :: "char \<Rightarrow> bool" where
  "is_letter c = (let n = unit_of c in (65 \<le> n \<and> n \<le> 90) \<or> (97 \<le> n \<and> n \<le> 122))"

definition is_slash :: "char \<Rightarrow> bool" where
  "is_slash c = (c = CHR ''/'' \<or> c = CHR 0x5C)"

text \<open>The regular expression \<open>^(?:[A-Za-z]:[\\/]|[\\/])\<close>, and splitting at either slash.\<close>

fun absolute_path :: "string \<Rightarrow> bool" where
  "absolute_path [] = False"
| "absolute_path (c # s) =
     (is_slash c \<or> (is_letter c \<and> (case s of d # e # _ \<Rightarrow> d = CHR '':'' \<and> is_slash e | _ \<Rightarrow> False)))"

fun path_segments :: "string \<Rightarrow> string list" where
  "path_segments [] = [[]]"
| "path_segments (c # s) =
     (if is_slash c then [] # path_segments s
      else case path_segments s of [] \<Rightarrow> [[c]] | seg # rest \<Rightarrow> (c # seg) # rest)"

datatype check_field = CF_name | CF_details | CF_logPath

datatype check_error = Check_field check_field field_error | Log_path_not_relative

definition requireRelativePath :: "string \<Rightarrow> check_error + string" where
  "requireRelativePath value =
     bind_result (map_error (Check_field CF_logPath) (requireText value)) (\<lambda>normalized.
       if absolute_path normalized \<or> ''..'' \<in> set (path_segments normalized) then Inl Log_path_not_relative
       else Inr (map (\<lambda>c. if c = CHR 0x5C then CHR ''/'' else c) normalized))"

definition normalizeCheckResult :: "check_result \<Rightarrow> check_error + check_result" where
  "normalizeCheckResult c =
     bind_result (map_error (Check_field CF_name) (requireText (chk_name c))) (\<lambda>name.
     bind_result (optional_value (\<lambda>v. map_error (Check_field CF_details) (requireText v)) (chk_details c)) (\<lambda>details.
     bind_result (optional_value requireRelativePath (chk_logPath c)) (\<lambda>path.
       Inr \<lparr>chk_name = name, chk_outcome = chk_outcome c, chk_details = details, chk_logPath = path\<rparr>)))"

subsection \<open>The record\<close>

datatype integration_status =
  Int_running | Int_conflicted | Int_blocked | Int_validating | Int_committed | Int_superseded | Int_failed

record conflict_report =
  cr_affectedPaths :: "string list"
  cr_summary :: string

datatype resolution_action = Manual_resolution | Reject_resolution

record resolution_decision =
  rd_action :: resolution_action
  rd_rationale :: string
  rd_decidedBy :: task_actor
  rd_decidedAt :: string

datatype integration_strategy = Strategy_ff | Strategy_cherry_pick | Strategy_merge | Strategy_manual

datatype integration_source =
    Work_item_source (src_workItemId: string) (src_startCommit: string) (src_resultCommit: string)
      (src_strategy: integration_strategy)
  | Upstream_source (src_branch: string) (src_remoteCommit: string) (src_taskBaseCommit: string)

record source_progress =
  sp_workspace :: string
  sp_branch :: string
  sp_sourceDigest :: string
  sp_completedSteps :: int
  sp_head :: string
  sp_activeAction :: "string option"
  sp_emptyResolution :: bool

record integration_attempt =
  ia_id :: string
  ia_taskId :: string
  ia_projectId :: string
  ia_targetRef :: string
  ia_source :: integration_source
  ia_beforeCommit :: string
  ia_afterCommit :: "string option"
  ia_summary :: "string option"
  ia_checkCommands :: "string list"
  ia_rerunChecks :: bool
  ia_candidateCommit :: "string option"
  ia_sourceProgress :: "source_progress option"
  ia_checkInputDigest :: "string option"
  ia_gatePlanDigest :: "string option"
  ia_gateToolchainDigest :: "string option"
  ia_jobId :: "string option"
  ia_status :: integration_status
  ia_conflict :: "conflict_report option"
  ia_resolution :: "resolution_decision option"
  ia_checks :: "check_result list option"
  ia_createdAt :: string
  ia_updatedAt :: string
  ia_endedAt :: "string option"

record integration_input =
  in_id :: string
  in_taskId :: string
  in_projectId :: string
  in_targetRef :: string
  in_source :: integration_source
  in_beforeCommit :: string
  in_checkCommands :: "string list option"
  in_rerunChecks :: "bool option"

record integration_patch =
  pa_candidateCommit :: "string option option"
  pa_status :: "integration_status option"
  pa_conflict :: "conflict_report option option"
  pa_checks :: "check_result list option option"
  pa_gatePlanDigest :: "string option option"
  pa_gateToolchainDigest :: "string option option"
  pa_afterCommit :: "string option option"
  pa_summary :: "string option option"
  pa_sourceProgress :: "source_progress option option"
  pa_checkInputDigest :: "string option option"

datatype integration_field =
    IF_project | IF_targetRef | IF_beforeCommit | IF_startCommit | IF_resultCommit | IF_branch | IF_remoteCommit
  | IF_taskBaseCommit | IF_checkCommand | IF_candidateCommit | IF_workspace | IF_progressBranch | IF_head
  | IF_afterCommit | IF_summary | IF_committedAfter | IF_committedSummary | IF_conflictPath | IF_conflictSummary
  | IF_rationale | IF_decidedAt | IF_createdAt | IF_updatedAt | IF_endedAt | IF_supersedeReason

datatype integration_error =
    Int_field integration_field field_error
  | Int_reference reference_error
  | Int_check check_error
  | Check_digest_invalid | Progress_invalid | Candidate_mismatch | Manual_without_decision | Pause_without_report
  | Job_not_running integration_status | Job_already_recorded | Cannot_request_decision integration_status
  | Cannot_record_conflict integration_status | No_pending_decision | Cannot_supersede integration_status

abbreviation int_check :: "integration_field \<Rightarrow> field_error + 'a \<Rightarrow> integration_error option" where
  "int_check l r \<equiv> map_option (Int_field l) (failure r)"

abbreviation int_ref :: "string \<Rightarrow> string \<Rightarrow> task_record_kind \<Rightarrow> integration_error option" where
  "int_ref t l k \<equiv> map_option Int_reference (failure (validateTaskRecordReference (task_reference t l) k))"

subsection \<open>Validation\<close>

definition terminal_status :: "integration_status \<Rightarrow> bool" where
  "terminal_status s = (s \<in> set [Int_committed, Int_superseded, Int_failed])"

definition validateIntegrationSource :: "string \<Rightarrow> integration_source \<Rightarrow> integration_error option" where
  "validateIntegrationSource taskId source =
     (case source of
        Work_item_source item start result strategy \<Rightarrow> first_error
          [int_ref taskId item K_workItem,
           int_check IF_startCommit (requireCommit start),
           int_check IF_resultCommit (requireCommit result)]
      | Upstream_source branch remote base \<Rightarrow> first_error
          [int_check IF_branch (requireText branch),
           int_check IF_remoteCommit (requireCommit remote),
           int_check IF_taskBaseCommit (requireCommit base)])"

definition normalizeConflictReport :: "conflict_report \<Rightarrow> integration_error + conflict_report" where
  "normalizeConflictReport report =
     bind_result (map_error (Int_field IF_conflictPath) (normalizedUniqueText (cr_affectedPaths report))) (\<lambda>paths.
     bind_result (map_error (Int_field IF_conflictSummary) (requireText (cr_summary report))) (\<lambda>summary.
       Inr \<lparr>cr_affectedPaths = paths, cr_summary = summary\<rparr>))"

definition is_action_marker :: "string \<Rightarrow> bool" where
  "is_action_marker s =
     (startsWith s ''yui-integration-'' \<and> length (drop 16 s) = 32 \<and> all_hex (drop 16 s))"

definition progress_error :: "source_progress \<Rightarrow> integration_error option" where
  "progress_error p = first_error
     [int_check IF_workspace (requireText (sp_workspace p)),
      int_check IF_progressBranch (requireText (sp_branch p)),
      int_check IF_head (requireCommit (sp_head p)),
      reject (\<not> is_digest (sp_sourceDigest p) \<or> \<not> isSafeInteger (sp_completedSteps p) \<or> sp_completedSteps p < 0
        \<or> (\<exists>m \<in> set_option (sp_activeAction p). \<not> is_action_marker m)
        \<or> (sp_emptyResolution p \<and> sp_activeAction p = None)) Progress_invalid]"

definition is_manual_source :: "integration_source \<Rightarrow> bool" where
  "is_manual_source s = (case s of Work_item_source _ _ _ strategy \<Rightarrow> strategy = Strategy_manual | Upstream_source _ _ _ \<Rightarrow> False)"

definition committed_error :: "integration_attempt \<Rightarrow> integration_error option" where
  "committed_error a =
     (if ia_status a = Int_committed then first_error
        [int_check IF_committedAfter (requireCommit (case ia_afterCommit a of None \<Rightarrow> [] | Some c \<Rightarrow> c)),
         int_check IF_committedSummary (requireText (case ia_summary a of None \<Rightarrow> [] | Some s \<Rightarrow> s)),
         reject (ia_candidateCommit a \<noteq> ia_afterCommit a) Candidate_mismatch,
         reject (is_manual_source (ia_source a) \<and> map_option rd_action (ia_resolution a) \<noteq> Some Manual_resolution)
           Manual_without_decision]
      else None)"

definition attempt_head_errors :: "integration_attempt \<Rightarrow> integration_error option list" where
  "attempt_head_errors a =
     [int_ref (ia_taskId a) (ia_id a) K_integrationAttempt,
      int_check IF_project (requireIdentity (ia_projectId a)),
      int_check IF_targetRef (requireText (ia_targetRef a)),
      int_check IF_beforeCommit (requireCommit (ia_beforeCommit a)),
      validateIntegrationSource (ia_taskId a) (ia_source a),
      int_check IF_checkCommand (normalizedUniqueText (ia_checkCommands a)),
      when_some (ia_candidateCommit a) (\<lambda>c. int_check IF_candidateCommit (requireCommit c)),
      when_some (ia_checkInputDigest a) (\<lambda>d. reject (\<not> is_digest d) Check_digest_invalid),
      when_some (ia_sourceProgress a) progress_error,
      when_some (ia_afterCommit a) (\<lambda>c. int_check IF_afterCommit (requireCommit c)),
      when_some (ia_summary a) (\<lambda>s. int_check IF_summary (requireText s))]"

definition attempt_tail_errors :: "integration_attempt \<Rightarrow> integration_error option list" where
  "attempt_tail_errors a =
     [when_some (ia_jobId a) (\<lambda>j. int_ref (ia_taskId a) j K_durableJob),
      when_some (ia_conflict a) (\<lambda>r. failure (normalizeConflictReport r)),
      reject ((ia_status a = Int_blocked \<or> ia_status a = Int_conflicted) \<and> ia_conflict a = None) Pause_without_report,
      when_some (ia_resolution a) (\<lambda>d. int_check IF_rationale (requireText (rd_rationale d))),
      when_some (ia_resolution a) (\<lambda>d. int_check IF_decidedAt (requireTimestamp (rd_decidedAt d))),
      when_some (ia_checks a) (\<lambda>cs. map_option Int_check (failure (map_result normalizeCheckResult cs))),
      int_check IF_createdAt (requireTimestamp (ia_createdAt a)),
      int_check IF_updatedAt (requireTimestamp (ia_updatedAt a)),
      (if terminal_status (ia_status a)
       then int_check IF_endedAt (requireTimestamp (case ia_endedAt a of None \<Rightarrow> [] | Some t \<Rightarrow> t)) else None)]"

definition validateIntegrationAttempt :: "integration_attempt \<Rightarrow> integration_error + integration_attempt" where
  "validateIntegrationAttempt a = check (attempt_head_errors a @ [committed_error a] @ attempt_tail_errors a) a"

subsection \<open>Operations\<close>

definition createIntegrationAttempt :: "integration_input \<Rightarrow> time \<Rightarrow> integration_error + integration_attempt" where
  "createIntegrationAttempt input now =
     bind_result (map_error (Int_field IF_checkCommand)
       (normalizedUniqueText (case in_checkCommands input of None \<Rightarrow> [] | Some cs \<Rightarrow> cs))) (\<lambda>commands.
     validateIntegrationAttempt
       \<lparr>ia_id = in_id input, ia_taskId = in_taskId input, ia_projectId = in_projectId input,
        ia_targetRef = in_targetRef input, ia_source = in_source input, ia_beforeCommit = in_beforeCommit input,
        ia_afterCommit = None, ia_summary = None, ia_checkCommands = commands,
        ia_rerunChecks = (case in_rerunChecks input of None \<Rightarrow> False | Some b \<Rightarrow> b), ia_candidateCommit = None,
        ia_sourceProgress = None, ia_checkInputDigest = None, ia_gatePlanDigest = None, ia_gateToolchainDigest = None,
        ia_jobId = None, ia_status = Int_running, ia_conflict = None, ia_resolution = None, ia_checks = None,
        ia_createdAt = toISOString now, ia_updatedAt = toISOString now, ia_endedAt = None\<rparr>)"

definition recordIntegrationCheckJob ::
  "integration_attempt \<Rightarrow> string \<Rightarrow> time \<Rightarrow> integration_error + integration_attempt" where
  "recordIntegrationCheckJob a jobId now =
     bind_result (validateIntegrationAttempt a) (\<lambda>_.
     if ia_status a \<noteq> Int_running then Inl (Job_not_running (ia_status a))
     else if ia_jobId a \<noteq> None then Inl Job_already_recorded
     else bind_result (map_error Int_reference (validateTaskRecordReference (task_reference (ia_taskId a) jobId) K_durableJob)) (\<lambda>_.
          validateIntegrationAttempt (a\<lparr>ia_jobId := Some jobId, ia_updatedAt := toISOString now\<rparr>)))"

definition requireResolutionDecision ::
  "integration_attempt \<Rightarrow> conflict_report \<Rightarrow> time \<Rightarrow> integration_error + integration_attempt" where
  "requireResolutionDecision a report now =
     bind_result (validateIntegrationAttempt a) (\<lambda>_.
     let continuingAfterResolution =
       ia_status a = Int_blocked \<and> map_option rd_action (ia_resolution a) = Some Manual_resolution in
     if ia_status a \<noteq> Int_running \<and> \<not> continuingAfterResolution then Inl (Cannot_request_decision (ia_status a))
     else bind_result (normalizeConflictReport report) (\<lambda>conflict.
          validateIntegrationAttempt (a\<lparr>ia_resolution := None, ia_endedAt := None, ia_status := Int_blocked,
            ia_conflict := Some conflict, ia_updatedAt := toISOString now\<rparr>)))"

definition spread_field :: "'a option option \<Rightarrow> 'a option \<Rightarrow> 'a option" where
  "spread_field v old = (case v of None \<Rightarrow> old | Some x \<Rightarrow> x)"

definition updateIntegrationAttempt ::
  "integration_attempt \<Rightarrow> integration_patch \<Rightarrow> time \<Rightarrow> integration_error + integration_attempt" where
  "updateIntegrationAttempt a patch now =
     bind_result (validateIntegrationAttempt a) (\<lambda>_.
     let status = (case pa_status patch of None \<Rightarrow> ia_status a | Some s \<Rightarrow> s) in
     validateIntegrationAttempt (a\<lparr>
       ia_candidateCommit := spread_field (pa_candidateCommit patch) (ia_candidateCommit a),
       ia_conflict := spread_field (pa_conflict patch) (ia_conflict a),
       ia_checks := spread_field (pa_checks patch) (ia_checks a),
       ia_gatePlanDigest := spread_field (pa_gatePlanDigest patch) (ia_gatePlanDigest a),
       ia_gateToolchainDigest := spread_field (pa_gateToolchainDigest patch) (ia_gateToolchainDigest a),
       ia_afterCommit := spread_field (pa_afterCommit patch) (ia_afterCommit a),
       ia_summary := spread_field (pa_summary patch) (ia_summary a),
       ia_sourceProgress := spread_field (pa_sourceProgress patch) (ia_sourceProgress a),
       ia_checkInputDigest := spread_field (pa_checkInputDigest patch) (ia_checkInputDigest a),
       ia_status := status, ia_updatedAt := toISOString now,
       ia_endedAt := (if terminal_status status then Some (toISOString now) else None)\<rparr>))"

definition empty_patch :: integration_patch where
  "empty_patch = \<lparr>pa_candidateCommit = None, pa_status = None, pa_conflict = None, pa_checks = None,
     pa_gatePlanDigest = None, pa_gateToolchainDigest = None, pa_afterCommit = None, pa_summary = None,
     pa_sourceProgress = None, pa_checkInputDigest = None\<rparr>"

definition recordIntegrationConflict ::
  "integration_attempt \<Rightarrow> conflict_report \<Rightarrow> time \<Rightarrow> integration_error + integration_attempt" where
  "recordIntegrationConflict a report now =
     (if ia_status a \<noteq> Int_running \<and> ia_status a \<noteq> Int_conflicted then Inl (Cannot_record_conflict (ia_status a))
      else bind_result (normalizeConflictReport report) (\<lambda>conflict.
           updateIntegrationAttempt a (empty_patch\<lparr>pa_status := Some Int_conflicted, pa_conflict := Some (Some conflict)\<rparr>) now))"

definition recordResolutionDecision ::
  "integration_attempt \<Rightarrow> resolution_action \<Rightarrow> string \<Rightarrow> task_actor \<Rightarrow> time \<Rightarrow> integration_error + integration_attempt" where
  "recordResolutionDecision a action rationale decidedBy now =
     bind_result (validateIntegrationAttempt a) (\<lambda>_.
     if ia_status a \<notin> set [Int_blocked, Int_conflicted] \<or> ia_conflict a = None then Inl No_pending_decision
     else bind_result (map_error (Int_field IF_rationale) (requireText rationale)) (\<lambda>text.
          validateIntegrationAttempt (a\<lparr>
            ia_status := (if action = Reject_resolution then Int_failed else ia_status a),
            ia_resolution := Some \<lparr>rd_action = action, rd_rationale = text, rd_decidedBy = decidedBy,
              rd_decidedAt = toISOString now\<rparr>,
            ia_updatedAt := toISOString now,
            ia_endedAt := (if action = Reject_resolution then Some (toISOString now) else ia_endedAt a)\<rparr>)))"

definition supersedeIntegration ::
  "integration_attempt \<Rightarrow> string \<Rightarrow> time \<Rightarrow> integration_error + integration_attempt" where
  "supersedeIntegration a reason now =
     bind_result (validateIntegrationAttempt a) (\<lambda>_.
     if ia_status a \<noteq> Int_committed then Inl (Cannot_supersede (ia_status a))
     else bind_result (map_error (Int_field IF_supersedeReason) (requireText reason)) (\<lambda>text.
          validateIntegrationAttempt (a\<lparr>ia_status := Int_superseded,
            ia_checks := Some ((case ia_checks a of None \<Rightarrow> [] | Some cs \<Rightarrow> cs) @
              [\<lparr>chk_name = ''superseded'', chk_outcome = Check_failed, chk_details = Some text, chk_logPath = None\<rparr>]),
            ia_updatedAt := toISOString now, ia_endedAt := Some (toISOString now)\<rparr>)))"

subsection \<open>The invariant\<close>

definition attempt_valid :: "integration_attempt \<Rightarrow> bool" where
  "attempt_valid a \<longleftrightarrow> validateIntegrationAttempt a = Inr a"

lemma validateIntegrationAttempt_Inr [transition]:
  "validateIntegrationAttempt a = Inr b \<longleftrightarrow> b = a \<and> attempt_valid a"
  by (auto simp: validateIntegrationAttempt_def attempt_valid_def check_Inr)

lemma attempt_valid_iff:
  "attempt_valid a \<longleftrightarrow> first_error (attempt_head_errors a) = None \<and> committed_error a = None \<and>
     first_error (attempt_tail_errors a) = None"
  by (simp add: attempt_valid_def validateIntegrationAttempt_def check_Inr)

text \<open>The end time is set exactly in the terminal states.\<close>

definition attempt_inv :: "integration_attempt \<Rightarrow> bool" where
  "attempt_inv a \<longleftrightarrow> attempt_valid a \<and> (ia_endedAt a \<noteq> None \<longleftrightarrow> terminal_status (ia_status a))"

definition attempt_identity :: "integration_attempt \<Rightarrow> _" where
  "attempt_identity a = (ia_id a, ia_taskId a, ia_projectId a, ia_targetRef a, ia_source a, ia_beforeCommit a,
     ia_checkCommands a, ia_rerunChecks a, ia_createdAt a)"

definition attempt_below :: "integration_attempt \<Rightarrow> integration_attempt \<Rightarrow> bool" where
  "attempt_below a b \<longleftrightarrow> (ia_jobId a \<noteq> None \<longrightarrow> ia_jobId b = ia_jobId a)"

datatype integration_command =
    Bind_job string
  | Require_decision conflict_report
  | Record_conflict conflict_report
  | Decide resolution_action string task_actor
  | Update_attempt integration_patch
  | Supersede string

fun integration_step ::
  "time \<times> integration_command \<Rightarrow> integration_attempt \<Rightarrow> integration_error + integration_attempt" where
  "integration_step (now, Bind_job j) a = recordIntegrationCheckJob a j now"
| "integration_step (now, Require_decision r) a = requireResolutionDecision a r now"
| "integration_step (now, Record_conflict r) a = recordIntegrationConflict a r now"
| "integration_step (now, Decide action rationale actor) a = recordResolutionDecision a action rationale actor now"
| "integration_step (now, Update_attempt p) a = updateIntegrationAttempt a p now"
| "integration_step (now, Supersede reason) a = supersedeIntegration a reason now"

lemmas integration_ops = recordIntegrationCheckJob_def requireResolutionDecision_def updateIntegrationAttempt_def
  recordIntegrationConflict_def recordResolutionDecision_def supersedeIntegration_def

lemma terminal_status_simps [simp]:
  "terminal_status Int_committed" "terminal_status Int_superseded" "terminal_status Int_failed"
  "\<not> terminal_status Int_running" "\<not> terminal_status Int_conflicted" "\<not> terminal_status Int_blocked"
  "\<not> terminal_status Int_validating"
  by (simp_all add: terminal_status_def)

lemma integration_step_inv:
  assumes "attempt_inv a" "integration_step (now, c) a = Inr b"
  shows "attempt_inv b \<and> attempt_identity b = attempt_identity a \<and> attempt_below a b"
  using assms
  by (cases c)
    (auto simp: integration_ops bind_result_Inr Let_def validateIntegrationAttempt_Inr attempt_inv_def
      attempt_identity_def attempt_below_def split: if_splits option.splits)

interpretation integration: identified_system attempt_inv integration_step "\<lambda>_. True" attempt_identity
proof
  fix a c b
  assume "attempt_inv a" "integration_step c a = Inr b"
  then show "attempt_inv b" "attempt_identity b = attempt_identity a"
    using integration_step_inv by (cases c; simp)+
qed

interpretation integration_progress: ratchet_system attempt_inv integration_step "\<lambda>_. True" attempt_below
proof
  fix a c b
  assume "attempt_inv a" "integration_step c a = Inr b"
  then show "attempt_below a b" using integration_step_inv by (cases c) simp
qed (auto simp: attempt_below_def)

lemma manual_decision_step:
  assumes "integration_step (now, c) a = Inr b" "ia_resolution b = Some d"
  shows "ia_resolution a = Some d \<or> (\<exists>rationale. c = Decide (rd_action d) rationale (rd_decidedBy d))"
  using assms
  by (cases c) (auto simp: integration_ops bind_result_Inr Let_def validateIntegrationAttempt_Inr
      split: if_splits option.splits)

lemma manual_decision_run:
  assumes "run_commands integration_step cs a = Inr b" "ia_resolution b = Some d"
  shows "ia_resolution a = Some d \<or>
    (\<exists>now rationale. (now, Decide (rd_action d) rationale (rd_decidedBy d)) \<in> set cs)"
  using assms
proof (induction cs arbitrary: a)
  case (Cons c cs)
  obtain now cmd where c: "c = (now, cmd)" by fastforce
  from Cons.prems obtain u where u: "integration_step c a = Inr u" "run_commands integration_step cs u = Inr b"
    by (auto simp: bind_result_Inr)
  from Cons.IH [OF u(2) Cons.prems(2)] show ?case
    using manual_decision_step [of now cmd a u d] u(1) by (auto simp: c)
qed simp

lemma createIntegrationAttempt_inv:
  assumes "createIntegrationAttempt input now = Inr a"
  shows "attempt_inv a" "ia_status a = Int_running" "ia_resolution a = None" "ia_jobId a = None"
  using assms by (auto simp: createIntegrationAttempt_def bind_result_Inr validateIntegrationAttempt_Inr attempt_inv_def)

subsection \<open>Pausing and deciding\<close>

lemma require_empty: "requireText [] = Inl Required" "requireCommit [] = Inl Required"
  by code_simp+

lemma normalizeConflictReport_idem: "normalizeConflictReport r = Inr n \<Longrightarrow> normalizeConflictReport n = Inr n"
  by (auto simp: normalizeConflictReport_def bind_result_Inr map_error_Inr dest: normalizedUniqueText_idem requireText_idem)

lemma pause_total:
  assumes "attempt_valid a" "normalizeConflictReport report = Inr n" "valid_time now"
    "ia_status a = Int_running \<or> ia_status a = Int_blocked \<and> map_option rd_action (ia_resolution a) = Some Manual_resolution"
  shows "requireResolutionDecision a report now =
    Inr (a\<lparr>ia_resolution := None, ia_endedAt := None, ia_status := Int_blocked, ia_conflict := Some n,
           ia_updatedAt := toISOString now\<rparr>)"
proof -
  let ?b = "a\<lparr>ia_resolution := None, ia_endedAt := None, ia_status := Int_blocked, ia_conflict := Some n,
           ia_updatedAt := toISOString now\<rparr>"
  have "attempt_head_errors ?b = attempt_head_errors a" by (simp add: attempt_head_errors_def)
  then have "attempt_valid ?b"
    using assms normalizeConflictReport_idem [OF assms(2)]
    by (simp add: attempt_valid_iff committed_error_def attempt_tail_errors_def)
  then show ?thesis
    using assms by (auto simp: requireResolutionDecision_def attempt_valid_def)
qed

lemma decide_total:
  assumes "attempt_valid a" "requireText rationale = Inr r" "valid_time now"
    "ia_status a = Int_blocked \<or> ia_status a = Int_conflicted"
  shows "\<exists>b. recordResolutionDecision a action rationale actor now = Inr b \<and>
    ia_status b = (if action = Reject_resolution then Int_failed else ia_status a) \<and>
    ia_resolution b = Some \<lparr>rd_action = action, rd_rationale = r, rd_decidedBy = actor, rd_decidedAt = toISOString now\<rparr> \<and>
    ia_conflict b = ia_conflict a"
proof -
  let ?b = "a\<lparr>ia_status := (if action = Reject_resolution then Int_failed else ia_status a),
      ia_resolution := Some \<lparr>rd_action = action, rd_rationale = r, rd_decidedBy = actor, rd_decidedAt = toISOString now\<rparr>,
      ia_updatedAt := toISOString now,
      ia_endedAt := (if action = Reject_resolution then Some (toISOString now) else ia_endedAt a)\<rparr>"
  have c: "ia_conflict a \<noteq> None" using assms(1,4) by (auto simp: attempt_valid_iff attempt_tail_errors_def)
  have "attempt_head_errors ?b = attempt_head_errors a" by (simp add: attempt_head_errors_def)
  then have "attempt_valid ?b"
    using assms c requireText_idem [OF assms(2)]
    by (auto simp: attempt_valid_iff committed_error_def attempt_tail_errors_def)
  then have "recordResolutionDecision a action rationale actor now = Inr ?b"
    using assms c by (auto simp: recordResolutionDecision_def attempt_valid_def)
  then show ?thesis by simp
qed

definition demo_attempt_input :: integration_input where
  "demo_attempt_input = \<lparr>in_id = ''integration-1'', in_taskId = ''task-1'', in_projectId = ''p'', in_targetRef = ''main'',
     in_source = Work_item_source ''work-item-1'' demo_commit demo_commit2 Strategy_manual,
     in_beforeCommit = demo_commit, in_checkCommands = None, in_rerunChecks = None\<rparr>"

definition demo_attempt :: integration_attempt where
  "demo_attempt = \<lparr>ia_id = ''integration-1'', ia_taskId = ''task-1'', ia_projectId = ''p'', ia_targetRef = ''main'',
     ia_source = Work_item_source ''work-item-1'' demo_commit demo_commit2 Strategy_manual, ia_beforeCommit = demo_commit,
     ia_afterCommit = None, ia_summary = None, ia_checkCommands = [], ia_rerunChecks = False, ia_candidateCommit = None,
     ia_sourceProgress = None, ia_checkInputDigest = None, ia_gatePlanDigest = None, ia_gateToolchainDigest = None,
     ia_jobId = None, ia_status = Int_running, ia_conflict = None, ia_resolution = None, ia_checks = None,
     ia_createdAt = toISOString 0, ia_updatedAt = toISOString 0, ia_endedAt = None\<rparr>"

lemma demo_attempt_created: "createIntegrationAttempt demo_attempt_input 0 = Inr demo_attempt"
proof -
  have "failure (validateTaskRecordReference (task_reference ''task-1'' ''integration-1'') K_integrationAttempt) = None"
    "failure (validateTaskRecordReference (task_reference ''task-1'' ''work-item-1'') K_workItem) = None" by code_simp+
  moreover have "normalizedUniqueText [] = Inr []" by code_simp
  ultimately have "attempt_valid demo_attempt"
    by (simp add: attempt_valid_iff attempt_head_errors_def attempt_tail_errors_def committed_error_def demo_attempt_def
        validateIntegrationSource_def demo_commit_ok demo_requires valid_time_0)
  then show ?thesis
    using \<open>normalizedUniqueText [] = Inr []\<close>
    by (simp add: createIntegrationAttempt_def demo_attempt_input_def demo_attempt_def attempt_valid_def)
qed

definition demo_report :: conflict_report where
  "demo_report = \<lparr>cr_affectedPaths = [''a''], cr_summary = ''s''\<rparr>"

lemma demo_report_normal: "normalizeConflictReport demo_report = Inr demo_report"
  by code_simp

subsection \<open>Properties\<close>

text \<open>
  C17. Every sequence of commands that succeeds on a new attempt keeps it valid and keeps what it
  integrates; the check job, once bound, never changes; the end time is present exactly in the
  terminal states; a committed attempt has a commit and a summary and the commit is the candidate;
  and a committed manual integration was decided for manual resolution by a command of the sequence.
\<close>

theorem integration_run:
  assumes "createIntegrationAttempt input now = Inr a" "run_commands integration_step cs a = Inr b"
    "run_commands integration_step ds b = Inr c"
  shows "validateIntegrationAttempt c = Inr c \<and> attempt_identity c = attempt_identity a \<and>
    (ia_jobId b \<noteq> None \<longrightarrow> ia_jobId c = ia_jobId b) \<and>
    (ia_endedAt c \<noteq> None \<longleftrightarrow> terminal_status (ia_status c)) \<and>
    (ia_status c = Int_committed \<longrightarrow> ia_afterCommit c \<noteq> None \<and> ia_candidateCommit c = ia_afterCommit c \<and>
       ia_summary c \<noteq> None \<and>
       (is_manual_source (ia_source a) \<longrightarrow>
          (\<exists>t rationale actor. (t, Decide Manual_resolution rationale actor) \<in> set (cs @ ds))))"
proof -
  note a = createIntegrationAttempt_inv [OF assms(1)]
  have adm: "list_all (\<lambda>_. True) xs" for xs :: "(time \<times> integration_command) list" by (simp add: list_all_iff)
  have run: "run_commands integration_step (cs @ ds) a = Inr c"
    using assms(2,3) by (simp add: run_commands_append)
  have b: "attempt_inv b" by (rule integration.run_valid [OF a(1) adm assms(2)])
  have c: "attempt_inv c" by (rule integration.run_valid [OF b adm assms(3)])
  have i: "attempt_identity c = attempt_identity a" by (rule integration.run_identity [OF a(1) adm run])
  have job: "ia_jobId b \<noteq> None \<longrightarrow> ia_jobId c = ia_jobId b"
    using integration_progress.run_below [OF b adm assms(3)] by (simp add: attempt_below_def)
  have src: "ia_source c = ia_source a" using i by (simp add: attempt_identity_def)
  have "committed_error c = None" using c by (simp add: attempt_inv_def attempt_valid_iff)
  then have com: "ia_afterCommit c \<noteq> None \<and> ia_candidateCommit c = ia_afterCommit c \<and> ia_summary c \<noteq> None \<and>
      (is_manual_source (ia_source a) \<longrightarrow> map_option rd_action (ia_resolution c) = Some Manual_resolution)"
    if "ia_status c = Int_committed"
    using that src by (cases "ia_afterCommit c"; cases "ia_summary c") (simp_all add: committed_error_def require_empty)
  have "\<exists>t rationale actor. (t, Decide Manual_resolution rationale actor) \<in> set (cs @ ds)"
    if "map_option rd_action (ia_resolution c) = Some Manual_resolution"
  proof -
    from that obtain d where "ia_resolution c = Some d" "rd_action d = Manual_resolution" by auto
    with manual_decision_run [OF run] a(3) show ?thesis by fastforce
  qed
  then show ?thesis using c i job com by (auto simp: attempt_inv_def attempt_valid_def)
qed

lemma integration_run_witness:
  "\<exists>b c. run_commands integration_step [(0, Require_decision demo_report)] demo_attempt = Inr b \<and>
     run_commands integration_step [(0, Decide Reject_resolution ''r'' By_user)] b = Inr c \<and>
     ia_status c = Int_failed \<and> validateIntegrationAttempt c = Inr c \<and> ia_endedAt c \<noteq> None"
proof -
  have v: "attempt_valid demo_attempt" "ia_status demo_attempt = Int_running"
    using createIntegrationAttempt_inv [OF demo_attempt_created] by (simp_all add: attempt_inv_def)
  obtain b where b: "run_commands integration_step [(0, Require_decision demo_report)] demo_attempt = Inr b"
    "ia_status b = Int_blocked"
    using pause_total [OF v(1) demo_report_normal valid_time_0] v(2) by auto
  have vb: "attempt_valid b" using b(1)
    by (auto simp: requireResolutionDecision_def bind_result_Inr Let_def validateIntegrationAttempt_Inr split: if_splits)
  have "requireText ''r'' = Inr ''r''" by code_simp
  from decide_total [OF vb this valid_time_0, of Reject_resolution By_user] b(2)
  obtain c where c: "run_commands integration_step [(0, Decide Reject_resolution ''r'' By_user)] b = Inr c" "ia_status c = Int_failed"
    by auto
  from integration_run [OF demo_attempt_created b(1) c(1)] b(1) c show ?thesis by auto
qed

text \<open>
  Asking for a decision never blocks an attempt for good: a running attempt can be paused with
  any well-formed report, a paused one can be decided by any actor with a rationale; a rejection
  ends it as failed and leaves nothing to decide, and after a manual resolution it can be paused
  again with a new report, which clears the decision.
\<close>

theorem integration_decision_protocol:
  assumes "validateIntegrationAttempt a = Inr a" "ia_status a = Int_running"
    "normalizeConflictReport report = Inr n" "requireText rationale = Inr r" "valid_time now"
  shows "\<exists>b rejected resolved again.
    requireResolutionDecision a report now = Inr b \<and> ia_status b = Int_blocked \<and> ia_conflict b = Some n \<and>
    recordResolutionDecision b Reject_resolution rationale actor now = Inr rejected \<and> ia_status rejected = Int_failed \<and>
    recordResolutionDecision rejected action rationale actor now = Inl No_pending_decision \<and>
    recordResolutionDecision b Manual_resolution rationale actor now = Inr resolved \<and> ia_status resolved = Int_blocked \<and>
    requireResolutionDecision resolved report now = Inr again \<and> ia_resolution again = None"
proof -
  have v: "attempt_valid a" using assms(1) by (simp add: attempt_valid_def)
  obtain b where b: "requireResolutionDecision a report now = Inr b" "ia_status b = Int_blocked" "ia_conflict b = Some n"
    using pause_total [OF v assms(3,5)] assms(2) by auto
  have vb: "attempt_valid b" using b(1)
    by (auto simp: requireResolutionDecision_def bind_result_Inr Let_def validateIntegrationAttempt_Inr split: if_splits)
  obtain rejected where rej: "recordResolutionDecision b Reject_resolution rationale actor now = Inr rejected"
    "ia_status rejected = Int_failed"
    using decide_total [OF vb assms(4,5), of Reject_resolution actor] b(2) by auto
  obtain resolved where res: "recordResolutionDecision b Manual_resolution rationale actor now = Inr resolved"
    "ia_status resolved = Int_blocked" "map_option rd_action (ia_resolution resolved) = Some Manual_resolution"
    using decide_total [OF vb assms(4,5), of Manual_resolution actor] b(2) by auto
  have vd: "attempt_valid rejected" "attempt_valid resolved"
    using rej(1) res(1)
    by (auto simp: recordResolutionDecision_def bind_result_Inr validateIntegrationAttempt_Inr split: if_splits)
  have no: "recordResolutionDecision rejected action rationale actor now = Inl No_pending_decision"
    using vd(1) rej(2) by (simp add: recordResolutionDecision_def attempt_valid_def)
  obtain again where "requireResolutionDecision resolved report now = Inr again" "ia_resolution again = None"
    using pause_total [OF vd(2) assms(3,5)] res(2,3) by auto
  with b rej res no show ?thesis by blast
qed

lemma integration_decision_protocol_witness:
  "\<exists>b. requireResolutionDecision demo_attempt demo_report 0 = Inr b \<and> ia_status b = Int_blocked"
proof -
  have v: "validateIntegrationAttempt demo_attempt = Inr demo_attempt" "ia_status demo_attempt = Int_running"
    using createIntegrationAttempt_inv [OF demo_attempt_created] by (simp_all add: attempt_inv_def attempt_valid_def)
  from integration_decision_protocol [OF v demo_report_normal demo_requires(7) valid_time_0] show ?thesis by blast
qed

end
