(* ===== verification/Input_Request.thy ===== *)
theory Input_Request
  imports Task_Activation
begin

text \<open>
  Input requests (\<open>src/src/input/inputRequest.ts\<close>): a question a Task Leader asks the user, with
  its choices, the policy for a recommended answer after a timeout, and its one transition from
  open to answered or cancelled.

  \<open>validateInputRequest\<close> rebuilds the request from the normalised fields, as the source does. The
  comparison of JSON texts that rejects unnormalised choices and references is equality of the
  lists: the JSON text of a record of strings determines it. The exact set of fields of each object
  is its record type.
\<close>

subsection \<open>The record\<close>

record input_choice =
  ch_key :: string
  ch_label :: string

datatype blocked_type = Blocked_work_item | Blocked_run

record blocked_ref =
  br_type :: blocked_type
  br_taskId :: string
  br_id :: string

record input_requester =
  rq_taskId :: string
  rq_agentId :: string
  rq_runId :: "string option"
  rq_nativeSessionId :: "string option"

datatype input_answer = Choice_answer string | Text_answer string

datatype input_policy = Required_policy | Recommended_policy string string

datatype answerer = Answer_user | Answer_operator | Answer_timeout

record persisted_answer =
  an_choiceKey :: "string option"
  an_text :: string

record input_resolution =
  res_answer :: persisted_answer
  res_answeredBy :: answerer
  res_answeredAt :: string

record input_cancellation =
  can_reason :: string
  can_cancelledAt :: string

datatype input_status = Input_open | Input_answered input_resolution | Input_cancelled input_cancellation

record input_request =
  iq_id :: string
  iq_taskId :: string
  iq_requester :: input_requester
  iq_question :: string
  iq_choices :: "input_choice list"
  iq_blockedRefs :: "blocked_ref list"
  iq_policy :: input_policy
  iq_status :: input_status
  iq_createdAt :: string
  iq_updatedAt :: string

record create_input_request =
  ci_question :: string
  ci_choices :: "input_choice list"
  ci_blockedRefs :: "blocked_ref list"
  ci_policy :: "input_policy option"

datatype input_field =
    QF_id | QF_taskId | QF_requesterTask | QF_agent | QF_run | QF_session | QF_question | QF_label | QF_refTask | QF_refId
  | QF_timeoutAt | QF_createdAt | QF_updatedAt | QF_answer | QF_answeredAt | QF_reason | QF_cancelledAt | QF_date

datatype input_error =
    Input_field input_field field_error
  | Input_reference reference_error
  | Not_normalized input_field | Choice_key_invalid | Choice_keys_not_unique | Choices_not_normalized
  | Blocked_refs_not_unique | Blocked_refs_not_normalized | Requester_without_origin
  | Recommended_without_choices | Recommended_choice_missing | Timeout_not_after_creation
  | References_of_other_task | Input_updated_before_created | Answered_at_mismatch | Cancelled_at_mismatch
  | Already_settled input_status | Predates_creation | Free_text_only | Choice_required | Choice_missing
  | Timeout_on_required | Timeout_not_reached | Timeout_not_recommended | Answer_fields_invalid | Answer_label_mismatch

subsection \<open>Text\<close>

text \<open>\<open>replaceAll("\r\n", "\n")\<close>, then \<open>replaceAll("\r", "\n")\<close>.\<close>

fun replace_crlf :: "string \<Rightarrow> string" where
  "replace_crlf [] = []"
| "replace_crlf [c] = [c]"
| "replace_crlf (c # d # s) =
     (if c = CHR 0x0D \<and> d = CHR 0x0A then CHR 0x0A # replace_crlf s else c # replace_crlf (d # s))"

definition unix_lines :: "string \<Rightarrow> string" where
  "unix_lines s = map (\<lambda>c. if c = CHR 0x0D then CHR 0x0A else c) (replace_crlf s)"

definition input_text :: "string \<Rightarrow> field_error + string" where
  "input_text value =
     (if has_nul value then Inl Invalid
      else if trim (unix_lines value) = [] then Inl Required
      else Inr (trim (unix_lines value)))"

definition input_identity :: "string \<Rightarrow> field_error + string" where
  "input_identity value =
     bind_result (input_text value) (\<lambda>t.
       if reserved_identity t \<or> has_separator t then Inl Invalid else Inr t)"

abbreviation input_err :: "input_field \<Rightarrow> field_error + 'a \<Rightarrow> input_error + 'a" where
  "input_err l r \<equiv> map_error (Input_field l) r"

definition requireNormalizedText :: "input_field \<Rightarrow> string \<Rightarrow> input_error + string" where
  "requireNormalizedText l value =
     bind_result (input_err l (input_text value)) (\<lambda>t. if t \<noteq> value then Inl (Not_normalized l) else Inr t)"

definition requireDate :: "time \<Rightarrow> input_error + string" where
  "requireDate now = (if valid_time now then Inr (toISOString now) else Inl (Input_field QF_date Invalid))"

definition is_alnum :: "char \<Rightarrow> bool" where
  "is_alnum c = (let n = unit_of c in is_digit c \<or> (65 \<le> n \<and> n \<le> 90) \<or> (97 \<le> n \<and> n \<le> 122))"

definition choice_key_ok :: "string \<Rightarrow> bool" where
  "choice_key_ok s = (s \<noteq> [] \<and> is_alnum (hd s) \<and>
     list_all (\<lambda>c. is_alnum c \<or> c = CHR ''.'' \<or> c = CHR ''_'' \<or> c = CHR ''-'') (tl s))"

definition requireChoiceKey :: "string \<Rightarrow> input_error + string" where
  "requireChoiceKey value = (if \<not> choice_key_ok value then Inl Choice_key_invalid else Inr value)"

subsection \<open>Normalisation\<close>

definition normalize_choice :: "input_choice \<Rightarrow> input_error + input_choice" where
  "normalize_choice c =
     bind_result (requireChoiceKey (ch_key c)) (\<lambda>key.
     bind_result (input_err QF_label (input_text (ch_label c))) (\<lambda>label.
       Inr \<lparr>ch_key = key, ch_label = label\<rparr>))"

definition normalizeChoices :: "input_choice list \<Rightarrow> input_error + input_choice list" where
  "normalizeChoices value =
     bind_result (map_result normalize_choice value) (\<lambda>choices.
       if \<not> distinct (map ch_key choices) then Inl Choice_keys_not_unique else Inr choices)"

definition validateChoices :: "input_choice list \<Rightarrow> input_error + input_choice list" where
  "validateChoices value =
     bind_result (normalizeChoices value) (\<lambda>choices.
       if choices \<noteq> value then Inl Choices_not_normalized else Inr choices)"

definition normalize_blocked_ref :: "blocked_ref \<Rightarrow> input_error + blocked_ref" where
  "normalize_blocked_ref r =
     bind_result (input_err QF_refTask (input_identity (br_taskId r))) (\<lambda>t.
     bind_result (input_err QF_refId (input_identity (br_id r))) (\<lambda>i.
       Inr \<lparr>br_type = br_type r, br_taskId = t, br_id = i\<rparr>))"

definition blocked_ref_key :: "blocked_ref \<Rightarrow> string" where
  "blocked_ref_key r =
     (case br_type r of Blocked_work_item \<Rightarrow> ''work-item'' | Blocked_run \<Rightarrow> ''run'') @ '':'' @ br_taskId r @ ''/'' @ br_id r"

definition normalizeBlockedRefs :: "blocked_ref list \<Rightarrow> input_error + blocked_ref list" where
  "normalizeBlockedRefs value =
     bind_result (map_result normalize_blocked_ref value) (\<lambda>references.
       if \<not> distinct (map blocked_ref_key references) then Inl Blocked_refs_not_unique else Inr references)"

definition validateBlockedRefs :: "blocked_ref list \<Rightarrow> input_error + blocked_ref list" where
  "validateBlockedRefs value =
     bind_result (normalizeBlockedRefs value) (\<lambda>references.
       if references \<noteq> value then Inl Blocked_refs_not_normalized else Inr references)"

definition date_at_most :: "string \<Rightarrow> string \<Rightarrow> bool" where
  "date_at_most a b = (case (Date_parse a, Date_parse b) of (Some x, Some y) \<Rightarrow> x \<le> y | _ \<Rightarrow> False)"

definition normalizePolicy ::
  "input_policy option \<Rightarrow> input_choice list \<Rightarrow> string \<Rightarrow> input_error + input_policy" where
  "normalizePolicy value choices createdAt =
     (case value of
        None \<Rightarrow> Inr Required_policy
      | Some Required_policy \<Rightarrow> Inr Required_policy
      | Some (Recommended_policy key timeout) \<Rightarrow>
          if choices = [] then Inl Recommended_without_choices else
          bind_result (requireChoiceKey key) (\<lambda>recommended.
          if \<not> (\<exists>c \<in> set choices. ch_key c = recommended) then Inl Recommended_choice_missing else
          bind_result (input_err QF_timeoutAt (requireTimestamp timeout)) (\<lambda>timeoutAt.
          if date_at_most timeoutAt createdAt then Inl Timeout_not_after_creation
          else Inr (Recommended_policy recommended timeoutAt))))"

definition normalizeRequester :: "input_requester \<Rightarrow> input_error + input_requester" where
  "normalizeRequester r =
     (if rq_runId r = None \<and> rq_nativeSessionId r = None then Inl Requester_without_origin else
      bind_result (input_err QF_requesterTask (input_identity (rq_taskId r))) (\<lambda>t.
      bind_result (input_err QF_agent (input_identity (rq_agentId r))) (\<lambda>a.
      bind_result (optional_value (\<lambda>v. input_err QF_run (input_identity v)) (rq_runId r)) (\<lambda>run.
      bind_result (optional_value (\<lambda>v. input_err QF_session (input_identity v)) (rq_nativeSessionId r)) (\<lambda>session.
        Inr \<lparr>rq_taskId = t, rq_agentId = a, rq_runId = run, rq_nativeSessionId = session\<rparr>)))))"

definition find_choice :: "input_choice list \<Rightarrow> string \<Rightarrow> input_choice option" where
  "find_choice choices key = find (\<lambda>c. ch_key c = key) choices"

definition normalizeAnswer :: "input_request \<Rightarrow> input_answer \<Rightarrow> input_error + persisted_answer" where
  "normalizeAnswer request answer =
     (if iq_choices request = [] then
        (case answer of
           Choice_answer _ \<Rightarrow> Inl Free_text_only
         | Text_answer t \<Rightarrow>
             bind_result (input_err QF_answer (input_text t)) (\<lambda>t. Inr \<lparr>an_choiceKey = None, an_text = t\<rparr>))
      else
        (case answer of
           Text_answer _ \<Rightarrow> Inl Choice_required
         | Choice_answer k \<Rightarrow>
             bind_result (requireChoiceKey k) (\<lambda>key.
               case find_choice (iq_choices request) key of
                 None \<Rightarrow> Inl Choice_missing
               | Some c \<Rightarrow> Inr \<lparr>an_choiceKey = Some (ch_key c), an_text = ch_label c\<rparr>)))"

definition validatePersistedAnswer :: "input_choice list \<Rightarrow> persisted_answer \<Rightarrow> input_error + persisted_answer" where
  "validatePersistedAnswer choices answer =
     (if choices = [] then
        (if an_choiceKey answer \<noteq> None then Inl Answer_fields_invalid
         else bind_result (requireNormalizedText QF_answer (an_text answer)) (\<lambda>t. Inr \<lparr>an_choiceKey = None, an_text = t\<rparr>))
      else
        (case an_choiceKey answer of
           None \<Rightarrow> Inl Answer_fields_invalid
         | Some k \<Rightarrow>
             bind_result (requireChoiceKey k) (\<lambda>choiceKey.
               case find_choice choices choiceKey of
                 None \<Rightarrow> Inl Choice_missing
               | Some c \<Rightarrow>
                   bind_result (requireNormalizedText QF_answer (an_text answer)) (\<lambda>t.
                     if t \<noteq> ch_label c then Inl Answer_label_mismatch
                     else Inr \<lparr>an_choiceKey = Some choiceKey, an_text = t\<rparr>))))"

definition assertAgentTimeoutAnswer :: "input_policy \<Rightarrow> persisted_answer \<Rightarrow> string \<Rightarrow> input_error option" where
  "assertAgentTimeoutAnswer policy answer answeredAt =
     (case policy of
        Required_policy \<Rightarrow> Some Timeout_on_required
      | Recommended_policy key timeoutAt \<Rightarrow> first_error
          [reject (date_less answeredAt timeoutAt) Timeout_not_reached,
           reject (an_choiceKey answer \<noteq> Some key) Timeout_not_recommended])"

definition assertOpen :: "input_request \<Rightarrow> input_error option" where
  "assertOpen request =
     (case iq_status request of Input_open \<Rightarrow> None | s \<Rightarrow> Some (Already_settled s))"

definition transitionTime :: "input_request \<Rightarrow> time \<Rightarrow> input_error + string" where
  "transitionTime request now =
     bind_result (requireDate now) (\<lambda>timestamp.
       if date_less timestamp (iq_createdAt request) then Inl Predates_creation else Inr timestamp)"

subsection \<open>Validation\<close>

definition base_errors :: "input_request \<Rightarrow> input_error option list" where
  "base_errors b =
     [map_option Input_reference (failure (validateTaskRecordReference (task_reference (iq_taskId b) (iq_id b)) K_inputRequest)),
      when_some (rq_runId (iq_requester b)) (\<lambda>run. map_option Input_reference
        (failure (validateTaskRecordReference (task_reference (rq_taskId (iq_requester b)) run) K_run))),
      map_option Input_reference (failure (map_result (\<lambda>r. validateTaskRecordReference
        (task_reference (br_taskId r) (br_id r))
        (case br_type r of Blocked_run \<Rightarrow> K_run | Blocked_work_item \<Rightarrow> K_workItem)) (iq_blockedRefs b))),
      reject (rq_taskId (iq_requester b) \<noteq> iq_taskId b \<or> (\<exists>r \<in> set (iq_blockedRefs b). br_taskId r \<noteq> iq_taskId b))
        References_of_other_task,
      reject (date_less (iq_updatedAt b) (iq_createdAt b)) Input_updated_before_created]"

definition validate_status :: "input_request \<Rightarrow> input_status \<Rightarrow> input_error + input_status" where
  "validate_status base status =
     (case status of
        Input_open \<Rightarrow> Inr Input_open
      | Input_answered r \<Rightarrow>
          bind_result (validatePersistedAnswer (iq_choices base) (res_answer r)) (\<lambda>answer.
          bind_result (input_err QF_answeredAt (requireTimestamp (res_answeredAt r))) (\<lambda>answeredAt.
          check [reject (answeredAt \<noteq> iq_updatedAt base) Answered_at_mismatch,
                 (if res_answeredBy r = Answer_timeout
                  then assertAgentTimeoutAnswer (iq_policy base) answer answeredAt else None)]
            (Input_answered \<lparr>res_answer = answer, res_answeredBy = res_answeredBy r, res_answeredAt = answeredAt\<rparr>)))
      | Input_cancelled c \<Rightarrow>
          bind_result (input_err QF_cancelledAt (requireTimestamp (can_cancelledAt c))) (\<lambda>cancelledAt.
          if cancelledAt \<noteq> iq_updatedAt base then Inl Cancelled_at_mismatch else
          bind_result (requireNormalizedText QF_reason (can_reason c)) (\<lambda>reason.
            Inr (Input_cancelled \<lparr>can_reason = reason, can_cancelledAt = cancelledAt\<rparr>))))"

definition validate_base :: "input_request \<Rightarrow> input_error + input_request" where
  "validate_base request =
     bind_result (validateChoices (iq_choices request)) (\<lambda>choices.
     bind_result (input_err QF_createdAt (requireTimestamp (iq_createdAt request))) (\<lambda>createdAt.
     bind_result (input_err QF_id (input_identity (iq_id request))) (\<lambda>i.
     bind_result (input_err QF_taskId (input_identity (iq_taskId request))) (\<lambda>taskId.
     bind_result (normalizeRequester (iq_requester request)) (\<lambda>requester.
     bind_result (requireNormalizedText QF_question (iq_question request)) (\<lambda>question.
     bind_result (validateBlockedRefs (iq_blockedRefs request)) (\<lambda>blockedRefs.
     bind_result (normalizePolicy (Some (iq_policy request)) choices createdAt) (\<lambda>policy.
     bind_result (input_err QF_updatedAt (requireTimestamp (iq_updatedAt request))) (\<lambda>updatedAt.
       Inr \<lparr>iq_id = i, iq_taskId = taskId, iq_requester = requester, iq_question = question, iq_choices = choices,
         iq_blockedRefs = blockedRefs, iq_policy = policy, iq_status = Input_open,
         iq_createdAt = createdAt, iq_updatedAt = updatedAt\<rparr>)))))))))"

definition validateInputRequest :: "input_request \<Rightarrow> input_error + input_request" where
  "validateInputRequest request =
     bind_result (validate_base request) (\<lambda>base.
     bind_result (check (base_errors base) base) (\<lambda>base.
     bind_result (validate_status base (iq_status request)) (\<lambda>status.
       Inr (base\<lparr>iq_status := status\<rparr>))))"

subsection \<open>Operations\<close>

definition createInputRequest ::
  "string \<Rightarrow> string \<Rightarrow> input_requester \<Rightarrow> create_input_request \<Rightarrow> time \<Rightarrow> input_error + input_request" where
  "createInputRequest i taskId requester input now =
     bind_result (requireDate now) (\<lambda>timestamp.
     bind_result (normalizeChoices (ci_choices input)) (\<lambda>choices.
     bind_result (input_err QF_id (input_identity i)) (\<lambda>i.
     bind_result (input_err QF_taskId (input_identity taskId)) (\<lambda>taskId.
     bind_result (normalizeRequester requester) (\<lambda>requester.
     bind_result (input_err QF_question (input_text (ci_question input))) (\<lambda>question.
     bind_result (normalizeBlockedRefs (ci_blockedRefs input)) (\<lambda>blockedRefs.
     bind_result (normalizePolicy (ci_policy input) choices timestamp) (\<lambda>policy.
     validateInputRequest \<lparr>iq_id = i, iq_taskId = taskId, iq_requester = requester, iq_question = question,
       iq_choices = choices, iq_blockedRefs = blockedRefs, iq_policy = policy, iq_status = Input_open,
       iq_createdAt = timestamp, iq_updatedAt = timestamp\<rparr>))))))))"

definition answerInputRequest ::
  "input_request \<Rightarrow> input_answer \<Rightarrow> answerer \<Rightarrow> time \<Rightarrow> input_error + input_request" where
  "answerInputRequest request answer answeredBy now =
     bind_result (validateInputRequest request) (\<lambda>_.
     case assertOpen request of Some e \<Rightarrow> Inl e | None \<Rightarrow>
     bind_result (transitionTime request now) (\<lambda>answeredAt.
     bind_result (normalizeAnswer request answer) (\<lambda>normalizedAnswer.
     case (if answeredBy = Answer_timeout
           then assertAgentTimeoutAnswer (iq_policy request) normalizedAnswer answeredAt else None) of
       Some e \<Rightarrow> Inl e
     | None \<Rightarrow>
         validateInputRequest (request\<lparr>iq_status := Input_answered \<lparr>res_answer = normalizedAnswer,
           res_answeredBy = answeredBy, res_answeredAt = answeredAt\<rparr>, iq_updatedAt := answeredAt\<rparr>))))"

definition cancelInputRequest :: "input_request \<Rightarrow> string \<Rightarrow> time \<Rightarrow> input_error + input_request" where
  "cancelInputRequest request reason now =
     bind_result (validateInputRequest request) (\<lambda>_.
     case assertOpen request of Some e \<Rightarrow> Inl e | None \<Rightarrow>
     bind_result (transitionTime request now) (\<lambda>cancelledAt.
     bind_result (input_err QF_reason (input_text reason)) (\<lambda>text.
       validateInputRequest (request\<lparr>iq_status := Input_cancelled \<lparr>can_reason = text, can_cancelledAt = cancelledAt\<rparr>,
         iq_updatedAt := cancelledAt\<rparr>))))"

subsection \<open>Normal forms\<close>

lemma set_replace_crlf: "set (replace_crlf s) \<subseteq> set s"
  by (induction s rule: replace_crlf.induct) auto

lemma unix_lines_no_cr: "CHR 0x0D \<notin> set (unix_lines s)"
  by (auto simp: unix_lines_def)

lemma set_unix_lines: "set (unix_lines s) \<subseteq> insert CHR 0x0A (set s)"
  using set_replace_crlf [of s] by (auto simp: unix_lines_def)

lemma replace_crlf_id: "CHR 0x0D \<notin> set s \<Longrightarrow> replace_crlf s = s"
  by (induction s rule: replace_crlf.induct) auto

lemma unix_lines_id: "CHR 0x0D \<notin> set s \<Longrightarrow> unix_lines s = s"
  by (induction s) (auto simp: unix_lines_def replace_crlf_id)

lemma input_text_idem: "input_text v = Inr t \<Longrightarrow> input_text t = Inr t"
proof -
  assume "input_text v = Inr t"
  then have t: "\<not> has_nul v" "trim (unix_lines v) \<noteq> []" "t = trim (unix_lines v)"
    by (auto simp: input_text_def split: if_splits)
  have "CHR 0x0D \<notin> set t" using unix_lines_no_cr [of v] set_trim t(3) by blast
  then have "unix_lines t = t" by (rule unix_lines_id)
  moreover have "\<not> has_nul t" using t(1,3) set_trim [of "unix_lines v"] set_unix_lines [of v] by (auto simp: has_nul_def)
  ultimately show ?thesis using t(2,3) by (simp add: input_text_def)
qed

lemma input_identity_idem: "input_identity v = Inr t \<Longrightarrow> input_identity t = Inr t"
  by (auto simp: input_identity_def bind_result_Inr intro: input_text_idem split: if_splits)

lemma requireNormalizedText_Inr:
  "requireNormalizedText l v = Inr t \<longleftrightarrow> t = v \<and> input_text v = Inr v"
  by (auto simp: requireNormalizedText_def bind_result_Inr map_error_Inr)

lemma requireChoiceKey_Inr: "requireChoiceKey k = Inr j \<longleftrightarrow> j = k \<and> choice_key_ok k"
  by (auto simp: requireChoiceKey_def)

lemma validateChoices_Inr:
  "validateChoices cs = Inr ds \<longleftrightarrow> ds = cs \<and> normalizeChoices cs = Inr cs"
  by (auto simp: validateChoices_def bind_result_Inr)

lemma validateBlockedRefs_Inr:
  "validateBlockedRefs cs = Inr ds \<longleftrightarrow> ds = cs \<and> normalizeBlockedRefs cs = Inr cs"
  by (auto simp: validateBlockedRefs_def bind_result_Inr)

lemma normalizeRequester_idem: "normalizeRequester r = Inr n \<Longrightarrow> normalizeRequester n = Inr n"
  by (auto simp: normalizeRequester_def bind_result_Inr map_error_Inr optional_value_Inr split: if_splits option.splits)
    (erule input_identity_idem)+

lemma normalizePolicy_idem: "normalizePolicy p cs t = Inr q \<Longrightarrow> normalizePolicy (Some q) cs t = Inr q"
  by (auto simp: normalizePolicy_def bind_result_Inr map_error_Inr requireChoiceKey_Inr requireTimestamp_Inr
      split: option.splits input_policy.splits if_splits)

lemma validate_base_Inr:
  "validate_base r = Inr b \<longleftrightarrow>
     normalizeChoices (iq_choices r) = Inr (iq_choices r) \<and> Date_parse (iq_createdAt r) \<noteq> None \<and>
     normalizeBlockedRefs (iq_blockedRefs r) = Inr (iq_blockedRefs r) \<and> input_text (iq_question r) = Inr (iq_question r) \<and>
     Date_parse (iq_updatedAt r) \<noteq> None \<and>
     (\<exists>i t q p. input_identity (iq_id r) = Inr i \<and> input_identity (iq_taskId r) = Inr t \<and>
        normalizeRequester (iq_requester r) = Inr q \<and>
        normalizePolicy (Some (iq_policy r)) (iq_choices r) (iq_createdAt r) = Inr p \<and>
        b = r\<lparr>iq_id := i, iq_taskId := t, iq_requester := q, iq_policy := p, iq_status := Input_open\<rparr>)"
  by (auto simp: validate_base_def bind_result_Inr map_error_Inr validateChoices_Inr validateBlockedRefs_Inr
      requireTimestamp_Inr requireNormalizedText_Inr)

lemma validate_base_idem:
  assumes "validate_base r = Inr b"
  shows "validate_base b = Inr b"
  using assms input_identity_idem normalizeRequester_idem normalizePolicy_idem
  unfolding validate_base_Inr by (elim conjE exE) simp

lemma validatePersistedAnswer_Inr: "validatePersistedAnswer cs a = Inr b \<Longrightarrow> b = a"
  by (auto simp: validatePersistedAnswer_def bind_result_Inr requireNormalizedText_Inr requireChoiceKey_Inr
      split: if_splits option.splits)

lemma validate_status_Inr: "validate_status b s = Inr u \<Longrightarrow> u = s"
  by (cases s) (auto simp: validate_status_def bind_result_Inr map_error_Inr requireTimestamp_Inr check_Inr
      requireNormalizedText_Inr dest!: validatePersistedAnswer_Inr split: if_splits)

subsection \<open>Validity and steps\<close>

definition input_valid :: "input_request \<Rightarrow> bool" where
  "input_valid r \<longleftrightarrow> validate_base r = Inr (r\<lparr>iq_status := Input_open\<rparr>) \<and>
     first_error (base_errors r) = None \<and> validate_status r (iq_status r) = Inr (iq_status r)"

lemma base_errors_status [simp]: "base_errors (r\<lparr>iq_status := s\<rparr>) = base_errors r"
  by (simp add: base_errors_def)

lemma validate_status_status [simp]: "validate_status (r\<lparr>iq_status := s\<rparr>) = validate_status r"
proof
  show "validate_status (r\<lparr>iq_status := s\<rparr>) x = validate_status r x" for x
    by (cases x) (simp_all add: validate_status_def cong: if_cong)
qed

lemma validate_base_status [simp]: "validate_base (r\<lparr>iq_status := s\<rparr>) = validate_base r"
  by (simp add: validate_base_def)

lemma validate_base_open: "validate_base r = Inr b \<Longrightarrow> iq_status b = Input_open"
  by (auto simp: validate_base_Inr)

lemma validateInputRequest_id: "validateInputRequest r = Inr r \<longleftrightarrow> input_valid r"
proof
  assume v: "validateInputRequest r = Inr r"
  then obtain b s where b: "validate_base r = Inr b" "first_error (base_errors b) = None"
    "validate_status b (iq_status r) = Inr s" "r = b\<lparr>iq_status := s\<rparr>"
    by (auto simp: validateInputRequest_def bind_result_Inr check_Inr)
  then have "b = r\<lparr>iq_status := Input_open\<rparr>" using validate_base_open [OF b(1)] by simp
  moreover have "s = iq_status r" by (rule validate_status_Inr [OF b(3)])
  ultimately show "input_valid r" using b(1-3) by (simp add: input_valid_def)
qed (simp add: input_valid_def validateInputRequest_def)

lemma validateInputRequest_valid: "validateInputRequest r = Inr q \<Longrightarrow> input_valid q"
proof -
  assume "validateInputRequest r = Inr q"
  then obtain b s where b: "validate_base r = Inr b" "first_error (base_errors b) = None"
    "validate_status b (iq_status r) = Inr s" "q = b\<lparr>iq_status := s\<rparr>"
    by (auto simp: validateInputRequest_def bind_result_Inr check_Inr)
  moreover have "b = b\<lparr>iq_status := Input_open\<rparr>" using validate_base_open [OF b(1)] by simp
  ultimately show ?thesis
    using validate_base_idem [OF b(1)] validate_status_Inr [OF b(3)] by (simp add: input_valid_def)
qed

text \<open>A transition of a valid request changes its state and time of update and is then valid itself.\<close>

lemma validate_transition:
  assumes "input_valid r"
  shows "validateInputRequest (r\<lparr>iq_status := s, iq_updatedAt := t\<rparr>) = Inr q \<longleftrightarrow>
    q = r\<lparr>iq_status := s, iq_updatedAt := t\<rparr> \<and> Date_parse t \<noteq> None \<and> \<not> date_less t (iq_createdAt r) \<and>
    validate_status (r\<lparr>iq_updatedAt := t\<rparr>) s = Inr s"
proof -
  let ?q = "r\<lparr>iq_status := s, iq_updatedAt := t\<rparr>"
  have vb: "validate_base ?q = Inr (r\<lparr>iq_status := Input_open, iq_updatedAt := t\<rparr>)" if "Date_parse t \<noteq> None"
    using assms that unfolding input_valid_def validate_base_Inr by (elim conjE exE) simp
  have nb: "Date_parse t \<noteq> None" if "validate_base ?q = Inr b" for b
    using that by (simp add: validate_base_Inr)
  have be: "first_error (base_errors (r\<lparr>iq_status := Input_open, iq_updatedAt := t\<rparr>)) = None \<longleftrightarrow> \<not> date_less t (iq_createdAt r)"
    using assms unfolding input_valid_def base_errors_def by (elim conjE) auto
  have vs: "validate_status (r\<lparr>iq_status := Input_open, iq_updatedAt := t\<rparr>) = validate_status (r\<lparr>iq_updatedAt := t\<rparr>)"
  proof -
    have "r\<lparr>iq_status := Input_open, iq_updatedAt := t\<rparr> = (r\<lparr>iq_updatedAt := t\<rparr>)\<lparr>iq_status := Input_open\<rparr>" by simp
    then show ?thesis by (simp only: validate_status_status)
  qed
  show ?thesis
  proof (cases "Date_parse t = None")
    case True
    then show ?thesis using nb by (auto simp: validateInputRequest_def bind_result_Inr)
  next
    case False
    then show ?thesis
      using vb be by (auto simp: validateInputRequest_def bind_result_Inr check_Inr vs dest: validate_status_Inr)
  qed
qed

datatype input_command = Answer_request input_answer answerer | Cancel_request string

fun input_step :: "time \<times> input_command \<Rightarrow> input_request \<Rightarrow> input_error + input_request" where
  "input_step (now, Answer_request a who) r = answerInputRequest r a who now"
| "input_step (now, Cancel_request reason) r = cancelInputRequest r reason now"

definition input_identity_of :: "input_request \<Rightarrow> _" where
  "input_identity_of r = (iq_id r, iq_taskId r, iq_requester r, iq_question r, iq_choices r, iq_blockedRefs r,
     iq_policy r, iq_createdAt r)"

lemma assertOpen_None [simp]: "assertOpen r = None \<longleftrightarrow> iq_status r = Input_open"
  by (simp add: assertOpen_def split: input_status.splits)

lemma input_step_Inr:
  assumes "input_valid r" "input_step c r = Inr q"
  shows "iq_status r = Input_open \<and> input_valid q \<and> input_identity_of q = input_identity_of r \<and> iq_status q \<noteq> Input_open"
proof -
  obtain s t where st: "iq_status r = Input_open" "s \<noteq> Input_open"
    "validateInputRequest (r\<lparr>iq_status := s, iq_updatedAt := t\<rparr>) = Inr q"
  proof (cases c)
    case (Pair now cmd)
    show ?thesis
    proof (cases cmd)
      case (Answer_request a who)
      then show ?thesis using assms(2) Pair
        by (auto simp: answerInputRequest_def bind_result_Inr split: option.splits intro: that)
    next
      case (Cancel_request reason)
      then show ?thesis using assms(2) Pair
        by (auto simp: cancelInputRequest_def bind_result_Inr split: option.splits intro: that)
    qed
  qed
  then have "q = r\<lparr>iq_status := s, iq_updatedAt := t\<rparr>" using validate_transition [OF assms(1)] by blast
  then show ?thesis using st validateInputRequest_valid [OF st(3)] by (simp add: input_identity_of_def)
qed

interpretation input: identified_system input_valid input_step "\<lambda>_. True" input_identity_of
  by unfold_locales (use input_step_Inr in blast)+

lemma input_settled: "input_valid r \<Longrightarrow> iq_status r \<noteq> Input_open \<Longrightarrow> input_step c r = Inl (Already_settled (iq_status r))"
  by (cases c; cases "snd c"; cases "iq_status r")
    (auto simp: answerInputRequest_def cancelInputRequest_def validateInputRequest_id [symmetric] assertOpen_def)

lemma input_run_once:
  assumes "input_valid r" "iq_status r = Input_open" "run_commands input_step cs r = Inr q"
  shows "length cs \<le> 1 \<and> (iq_status q = Input_open \<longleftrightarrow> cs = [])"
proof (cases cs)
  case Nil
  then show ?thesis using assms by simp
next
  case (Cons c ds)
  with assms(3) obtain u where u: "input_step c r = Inr u" "run_commands input_step ds u = Inr q"
    by (auto simp: bind_result_Inr)
  note s = input_step_Inr [OF assms(1) u(1)]
  have "ds = []"
  proof (cases ds)
    case (Cons d es)
    then show ?thesis using u(2) input_settled [of u d] s by (simp add: bind_result_Inr)
  qed
  then show ?thesis using u s Cons by simp
qed

lemma createInputRequest_valid:
  assumes "createInputRequest i t rq inp now = Inr r"
  shows "input_valid r" "iq_status r = Input_open"
proof -
  from assms obtain p where v: "validateInputRequest p = Inr r" "iq_status p = Input_open"
    by (auto simp: createInputRequest_def bind_result_Inr)
  show "input_valid r" by (rule validateInputRequest_valid [OF v(1)])
  show "iq_status r = Input_open" using v by (auto simp: validateInputRequest_def bind_result_Inr validate_status_def)
qed

subsection \<open>Answers\<close>

lemma normalize_choice_id:
  "normalize_choice c = Inr c \<longleftrightarrow> choice_key_ok (ch_key c) \<and> input_text (ch_label c) = Inr (ch_label c)"
  by (cases c) (auto simp: normalize_choice_def bind_result_Inr map_error_Inr requireChoiceKey_Inr)

lemma normal_choices:
  assumes "normalizeChoices cs = Inr cs"
  shows "distinct (map ch_key cs)" "c \<in> set cs \<Longrightarrow> choice_key_ok (ch_key c) \<and> input_text (ch_label c) = Inr (ch_label c)"
  using assms
  by (auto simp: normalizeChoices_def bind_result_Inr map_result_Inr list_all2_same normalize_choice_id split: if_splits)

lemma find_choice_key: "distinct (map ch_key cs) \<Longrightarrow> c \<in> set cs \<Longrightarrow> find_choice cs (ch_key c) = Some c"
  by (induction cs) (auto simp: find_choice_def rev_image_eqI)

lemma find_choice_Some: "find_choice cs k = Some c \<Longrightarrow> c \<in> set cs \<and> ch_key c = k"
  by (auto simp: find_choice_def find_Some_iff)

abbreviation chosen :: "input_choice \<Rightarrow> persisted_answer" where
  "chosen c \<equiv> \<lparr>an_choiceKey = Some (ch_key c), an_text = ch_label c\<rparr>"

lemma normalizeAnswer_choices:
  assumes "input_valid r" "iq_choices r \<noteq> []"
  shows "normalizeAnswer r a = Inr n \<longleftrightarrow> (\<exists>c \<in> set (iq_choices r). a = Choice_answer (ch_key c) \<and> n = chosen c)"
proof -
  have n: "normalizeChoices (iq_choices r) = Inr (iq_choices r)" using assms(1) by (simp add: input_valid_def validate_base_Inr)
  note ok = normal_choices(2) [OF n] and find = find_choice_key [OF normal_choices(1) [OF n]]
  show ?thesis
  proof (cases a)
    case (Choice_answer k)
    show ?thesis
    proof
      assume "normalizeAnswer r a = Inr n"
      then show "\<exists>c \<in> set (iq_choices r). a = Choice_answer (ch_key c) \<and> n = chosen c"
        using assms(2) Choice_answer
        by (auto simp: normalizeAnswer_def bind_result_Inr requireChoiceKey_Inr split: option.splits dest!: find_choice_Some)
    next
      assume "\<exists>c \<in> set (iq_choices r). a = Choice_answer (ch_key c) \<and> n = chosen c"
      then show "normalizeAnswer r a = Inr n"
        using assms(2) ok find by (auto simp: normalizeAnswer_def requireChoiceKey_def)
    qed
  qed (use assms(2) in \<open>simp add: normalizeAnswer_def\<close>)
qed

lemma chosen_status:
  assumes "input_valid r" "c \<in> set (iq_choices r)" "Date_parse t \<noteq> None"
  shows "validate_status (r\<lparr>iq_updatedAt := t\<rparr>) (Input_answered \<lparr>res_answer = chosen c, res_answeredBy = who, res_answeredAt = t\<rparr>)
      = Inr (Input_answered \<lparr>res_answer = chosen c, res_answeredBy = who, res_answeredAt = t\<rparr>) \<longleftrightarrow>
    (who = Answer_timeout \<longrightarrow> assertAgentTimeoutAnswer (iq_policy r) (chosen c) t = None)"
proof -
  have n: "normalizeChoices (iq_choices r) = Inr (iq_choices r)" using assms(1) by (simp add: input_valid_def validate_base_Inr)
  have "requireNormalizedText QF_answer (ch_label c) = Inr (ch_label c)"
    using normal_choices(2) [OF n assms(2)] by (simp add: requireNormalizedText_Inr)
  then have "validatePersistedAnswer (iq_choices r) (chosen c) = Inr (chosen c)"
    using normal_choices(2) [OF n assms(2)] find_choice_key [OF normal_choices(1) [OF n] assms(2)] assms(2)
    by (auto simp: validatePersistedAnswer_def requireChoiceKey_def)
  moreover have "requireTimestamp t = Inr t" using assms(3) by (simp add: requireTimestamp_Inr)
  ultimately show ?thesis by (simp add: validate_status_def check_Inr)
qed

subsection \<open>Properties\<close>

definition demo_input :: create_input_request where
  "demo_input = \<lparr>ci_question = ''Go?'', ci_choices = [\<lparr>ch_key = ''y'', ch_label = ''Yes''\<rparr>, \<lparr>ch_key = ''n'', ch_label = ''No''\<rparr>],
     ci_blockedRefs = [], ci_policy = None\<rparr>"

definition demo_requester :: input_requester where
  "demo_requester = \<lparr>rq_taskId = ''task-1'', rq_agentId = ''a'', rq_runId = None, rq_nativeSessionId = Some ''s''\<rparr>"

definition demo_input_request :: input_request where
  "demo_input_request = \<lparr>iq_id = ''input-1'', iq_taskId = ''task-1'', iq_requester = demo_requester, iq_question = ''Go?'',
     iq_choices = [\<lparr>ch_key = ''y'', ch_label = ''Yes''\<rparr>, \<lparr>ch_key = ''n'', ch_label = ''No''\<rparr>], iq_blockedRefs = [],
     iq_policy = Required_policy, iq_status = Input_open, iq_createdAt = toISOString 0, iq_updatedAt = toISOString 0\<rparr>"

lemma demo_input_created: "createInputRequest ''input-1'' ''task-1'' demo_requester demo_input 0 = Inr demo_input_request"
  by code_simp

text \<open>
  C18. An input request is settled at most once: a created request is open and valid; of any
  sequence of answers and cancellations only one can succeed; the request stays valid and nothing
  but its state and update time changes; and once settled every further answer or cancellation is
  refused with the state it has.
\<close>

theorem input_settled_once:
  assumes "createInputRequest i t rq inp now = Inr r" "run_commands input_step cs r = Inr q"
  shows "iq_status r = Input_open \<and> validateInputRequest q = Inr q \<and> input_identity_of q = input_identity_of r \<and>
    length cs \<le> 1 \<and> (iq_status q = Input_open \<longleftrightarrow> cs = []) \<and>
    (iq_status q \<noteq> Input_open \<longrightarrow> (\<forall>c. input_step c q = Inl (Already_settled (iq_status q))))"
proof -
  note r = createInputRequest_valid [OF assms(1)]
  have adm: "list_all (\<lambda>_. True) cs" by (simp add: list_all_iff)
  have q: "input_valid q" by (rule input.run_valid [OF r(1) adm assms(2)])
  moreover have "input_identity_of q = input_identity_of r" by (rule input.run_identity [OF r(1) adm assms(2)])
  ultimately show ?thesis
    using r(2) input_run_once [OF r assms(2)] input_settled [OF q] by (simp add: validateInputRequest_id)
qed

text \<open>
  Which answers a request with choices accepts, at a time not before its creation: exactly the
  key of one of its choices, recorded with that choice's label; and an answer in the name of the
  timeout only under a recommending policy, from the timeout on, and only the recommended choice.
\<close>

theorem input_answer_exact:
  assumes "validateInputRequest r = Inr r" "iq_status r = Input_open" "iq_choices r \<noteq> []" "valid_time now"
    "\<not> date_less (toISOString now) (iq_createdAt r)"
  shows "answerInputRequest r a who now = Inr q \<longleftrightarrow>
    (\<exists>c \<in> set (iq_choices r). a = Choice_answer (ch_key c) \<and>
      (who = Answer_timeout \<longrightarrow> (\<exists>timeout. iq_policy r = Recommended_policy (ch_key c) timeout \<and>
         \<not> date_less (toISOString now) timeout)) \<and>
      q = r\<lparr>iq_status := Input_answered \<lparr>res_answer = chosen c, res_answeredBy = who, res_answeredAt = toISOString now\<rparr>,
            iq_updatedAt := toISOString now\<rparr>)"
proof -
  let ?t = "toISOString now"
  have v: "input_valid r" using assms(1) by (simp add: validateInputRequest_id)
  have t: "transitionTime r now = Inr ?t" "Date_parse ?t \<noteq> None"
    using assms(4,5) by (simp_all add: transitionTime_def requireDate_def)
  have timeout: "assertAgentTimeoutAnswer (iq_policy r) (chosen c) ?t = None \<longleftrightarrow>
      (\<exists>timeout. iq_policy r = Recommended_policy (ch_key c) timeout \<and> \<not> date_less ?t timeout)" for c
    by (auto simp: assertAgentTimeoutAnswer_def split: input_policy.splits)
  have "answerInputRequest r a who now = Inr q \<longleftrightarrow>
      (\<exists>n. normalizeAnswer r a = Inr n \<and> (who = Answer_timeout \<longrightarrow> assertAgentTimeoutAnswer (iq_policy r) n ?t = None) \<and>
        validateInputRequest (r\<lparr>iq_status := Input_answered \<lparr>res_answer = n, res_answeredBy = who, res_answeredAt = ?t\<rparr>,
          iq_updatedAt := ?t\<rparr>) = Inr q)"
    using assms(1,2) t(1)
    by (auto simp: answerInputRequest_def bind_result_Inr assertOpen_def split: option.splits)
  also have "\<dots> \<longleftrightarrow> (\<exists>c \<in> set (iq_choices r). a = Choice_answer (ch_key c) \<and>
      (who = Answer_timeout \<longrightarrow> assertAgentTimeoutAnswer (iq_policy r) (chosen c) ?t = None) \<and>
      q = r\<lparr>iq_status := Input_answered \<lparr>res_answer = chosen c, res_answeredBy = who, res_answeredAt = ?t\<rparr>,
            iq_updatedAt := ?t\<rparr>)"
    using normalizeAnswer_choices [OF v assms(3)] validate_transition [OF v] t(2) assms(5) chosen_status [OF v _ t(2)]
    by auto
  finally show ?thesis by (simp only: timeout)
qed

lemma demo_input_answered:
  "\<exists>q. answerInputRequest demo_input_request (Choice_answer ''y'') Answer_user 0 = Inr q"
proof -
  note v = createInputRequest_valid [OF demo_input_created]
  have z: "valid_time 0" by code_simp
  then have "\<not> date_less (toISOString 0) (iq_createdAt demo_input_request)"
    by (simp add: date_less_def demo_input_request_def)
  moreover have "iq_choices demo_input_request \<noteq> []" "\<lparr>ch_key = ''y'', ch_label = ''Yes''\<rparr> \<in> set (iq_choices demo_input_request)"
    by (simp_all add: demo_input_request_def)
  moreover have "validateInputRequest demo_input_request = Inr demo_input_request" using v(1) by (simp add: validateInputRequest_id)
  ultimately show ?thesis using input_answer_exact [OF _ v(2) _ z] by fastforce
qed

text \<open>The request of the example is answered by the user; a later cancellation is refused.\<close>

lemma input_settled_once_witness:
  "\<exists>q. run_commands input_step [(0, Answer_request (Choice_answer ''y'') Answer_user)] demo_input_request = Inr q \<and>
     iq_status q \<noteq> Input_open \<and> input_identity_of q = input_identity_of demo_input_request \<and>
     input_step (1, Cancel_request ''late'') q = Inl (Already_settled (iq_status q))"
proof -
  obtain q where q: "run_commands input_step [(0, Answer_request (Choice_answer ''y'') Answer_user)] demo_input_request = Inr q"
    using demo_input_answered by auto
  note once = input_settled_once [OF demo_input_created q]
  then have "\<forall>c. input_step c q = Inl (Already_settled (iq_status q))" by blast
  then show ?thesis using q once by blast
qed

end
