(* ===== verification/Posix_Path.thy ===== *)
theory Posix_Path
  imports Validation
begin

text \<open>
  The functions of \<open>node:path\<close> (POSIX flavour) that the program calls: \<open>resolve\<close>, \<open>join\<close> below an
  absolute directory, \<open>relative\<close> and \<open>isAbsolute\<close>, on strings; with \<open>split\<close> and \<open>join\<close> of strings at a
  character. The current directory of the process is an argument of \<open>path_resolve\<close>.
\<close>

subsection \<open>Splitting and joining\<close>

fun split_on :: "char \<Rightarrow> string \<Rightarrow> string list" where
  "split_on d [] = [[]]"
| "split_on d (c # s) =
     (if c = d then [] # split_on d s
      else case split_on d s of [] \<Rightarrow> [[c]] | seg # rest \<Rightarrow> (c # seg) # rest)"

fun join_with :: "char \<Rightarrow> string list \<Rightarrow> string" where
  "join_with d [] = []"
| "join_with d [s] = s"
| "join_with d (s # t # r) = s @ d # join_with d (t # r)"

lemma split_on_ne [simp]: "split_on d s \<noteq> []"
  by (cases s) (auto split: list.splits)

lemma join_split [simp]: "join_with d (split_on d s) = s"
proof (induction s)
  case (Cons c s)
  obtain seg rest where r: "split_on d s = seg # rest" by (cases "split_on d s") auto
  show ?case
  proof (cases "c = d")
    case True
    with Cons r show ?thesis by simp
  next
    case False
    with Cons r show ?thesis by (cases rest) auto
  qed
qed simp

lemma split_on_free: "d \<notin> set s \<Longrightarrow> split_on d s = [s]"
  by (induction s) auto

lemma split_on_append: "d \<notin> set s \<Longrightarrow> split_on d (s @ d # r) = s # split_on d r"
  by (induction s) (auto split: list.splits)

lemma split_join: "segs \<noteq> [] \<Longrightarrow> \<forall>s \<in> set segs. d \<notin> set s \<Longrightarrow> split_on d (join_with d segs) = segs"
  by (induction segs rule: join_with.induct) (auto simp: split_on_free split_on_append)

lemma split_on_segments: "s \<in> set (split_on d t) \<Longrightarrow> d \<notin> set s"
proof (induction t arbitrary: s)
  case (Cons c t)
  obtain seg rest where "split_on d t = seg # rest" by (cases "split_on d t") auto
  with Cons show ?case by (auto split: if_splits)
qed simp

lemma split_on_snoc: "split_on d (a @ d # b) = split_on d a @ split_on d b"
proof (induction a)
  case (Cons c a)
  obtain seg rest where "split_on d a = seg # rest" by (cases "split_on d a") auto
  with Cons show ?case by auto
qed simp

lemma separator_inject:
  "d \<notin> set a \<Longrightarrow> d \<notin> set a' \<Longrightarrow> a @ d # b = a' @ d # b' \<longleftrightarrow> a = a' \<and> b = b'"
proof (induction a arbitrary: a')
  case Nil
  then show ?case by (cases a') auto
next
  case (Cons x a)
  then show ?case by (cases a') auto
qed

subsection \<open>Paths\<close>

definition isAbsolute :: "string \<Rightarrow> bool" where
  "isAbsolute p = startsWith p ''/''"

text \<open>The segments of an absolute path after \<open>.\<close>, \<open>..\<close> and empty segments are resolved.\<close>

fun normal_segments :: "string list \<Rightarrow> string list \<Rightarrow> string list" where
  "normal_segments acc [] = rev acc"
| "normal_segments acc (s # ss) =
     (if s = [] \<or> s = ''.'' then normal_segments acc ss
      else if s = ''..'' then normal_segments (tl acc) ss
      else normal_segments (s # acc) ss)"

definition absolute_of :: "string list \<Rightarrow> string" where
  "absolute_of segs = CHR ''/'' # join_with CHR ''/'' segs"

definition path_segments_of :: "string \<Rightarrow> string list" where
  "path_segments_of p = normal_segments [] (split_on CHR ''/'' p)"

definition path_resolve :: "string \<Rightarrow> string \<Rightarrow> string" where
  "path_resolve cwd p = absolute_of (path_segments_of (if isAbsolute p then p else cwd @ CHR ''/'' # p))"

text \<open>\<open>path.join\<close> of an absolute directory and a relative path with no trailing slash.\<close>

definition path_join :: "string \<Rightarrow> string \<Rightarrow> string" where
  "path_join dir p = absolute_of (path_segments_of (dir @ CHR ''/'' # p))"

fun relative_segments :: "string list \<Rightarrow> string list \<Rightarrow> string list" where
  "relative_segments (a # as) (b # bs) =
     (if a = b then relative_segments as bs else replicate (length (a # as)) ''..'' @ b # bs)"
| "relative_segments as bs = replicate (length as) ''..'' @ bs"

definition path_relative :: "string \<Rightarrow> string \<Rightarrow> string" where
  "path_relative from to = join_with CHR ''/'' (relative_segments (path_segments_of from) (path_segments_of to))"

definition plain_segment :: "string \<Rightarrow> bool" where
  "plain_segment s \<longleftrightarrow> s \<noteq> [] \<and> s \<noteq> ''.'' \<and> s \<noteq> ''..'' \<and> CHR ''/'' \<notin> set s"

lemma normal_segments_plain: "list_all plain_segment ss \<Longrightarrow> normal_segments acc ss = rev acc @ ss"
  by (induction ss arbitrary: acc) (auto simp: plain_segment_def)

lemma plain_normal_segments:
  "list_all plain_segment acc \<Longrightarrow> \<forall>s \<in> set ss. CHR ''/'' \<notin> set s \<Longrightarrow> list_all plain_segment (normal_segments acc ss)"
proof (induction ss arbitrary: acc)
  case (Cons s ss)
  moreover have "list_all plain_segment (tl acc)" using Cons.prems(1) by (cases acc) auto
  moreover have "s \<noteq> [] \<Longrightarrow> s \<noteq> ''.'' \<Longrightarrow> s \<noteq> ''..'' \<Longrightarrow> plain_segment s"
    using Cons.prems(2) by (simp add: plain_segment_def)
  ultimately show ?case by simp
qed (simp add: list_all_iff)

lemma plain_path_segments [simp]: "list_all plain_segment (path_segments_of p)"
  unfolding path_segments_of_def by (rule plain_normal_segments) (auto dest: split_on_segments)

lemma segments_absolute [simp]: "list_all plain_segment ss \<Longrightarrow> path_segments_of (absolute_of ss) = ss"
  by (cases "ss = []")
    (auto simp: absolute_of_def path_segments_of_def split_join plain_segment_def list_all_iff normal_segments_plain)

lemma normal_segments_append: "normal_segments acc (ss @ ts) = normal_segments (rev (normal_segments acc ss)) ts"
  by (induction ss arbitrary: acc) auto

lemma path_segments_append:
  "path_segments_of (a @ CHR ''/'' # b) = normal_segments (rev (path_segments_of a)) (split_on CHR ''/'' b)"
  by (simp add: path_segments_of_def split_on_snoc normal_segments_append)

lemma isAbsolute_absolute [simp]: "isAbsolute (absolute_of ss)"
  by (simp add: isAbsolute_def absolute_of_def)

lemma path_resolve_idem [simp]: "path_resolve cwd (path_resolve cwd' p) = path_resolve cwd' p"
proof -
  obtain q where "path_resolve cwd' p = absolute_of (path_segments_of q)" by (simp add: path_resolve_def)
  then show ?thesis by (simp add: path_resolve_def [of cwd])
qed

lemma absolute_of_inject:
  "list_all plain_segment ss \<Longrightarrow> list_all plain_segment ts \<Longrightarrow> absolute_of ss = absolute_of ts \<longleftrightarrow> ss = ts"
  using segments_absolute by metis

lemma path_join_plain:
  assumes "list_all plain_segment ss" "plain_segment s"
  shows "path_join (absolute_of ss) s = absolute_of (ss @ [s])"
  using assms by (simp add: path_join_def path_segments_append split_on_free plain_segment_def)

lemma relative_segments_extend: "relative_segments ss (ss @ ts) = ts"
  by (induction ss) (cases ts; simp)+

end
