(* ===== verification/Managed_Workspace.thy ===== *)
theory Managed_Workspace
  imports Posix_Path "HOL-Library.List_Lexorder" "HOL-Library.Char_ord" "HOL-Library.Multiset"
begin

text \<open>
  Managed workspaces (\<open>src/src/worktree/managedWorkspace.ts\<close>): the durable owner of a workspace, its
  Project entries, creation and validation, the fence that a Task launch checks, and the keys and
  directory names built from the owner. The current directory is an argument wherever the code calls
  \<open>path.resolve\<close>. This file's own \<open>requireText\<close>, \<open>requireIdentity\<close> and \<open>requireCommit\<close> agree with those
  of \<open>Validation\<close>.
\<close>

subsection \<open>Records\<close>

datatype lane_purpose = Purpose_execution | Purpose_review

datatype workspace_owner =
    Owner_task string
  | Owner_work_item string string
  | Owner_review_round string string
  | Owner_integration string string
  | Owner_lane string string string lane_purpose "string option" "string option"

datatype project_access = Access_read | Access_write

record project_entry =
  we_projectId :: string
  we_directory :: string
  we_access :: project_access
  we_path :: string
  we_branch :: string
  we_baseRef :: string
  we_baseCommit :: string

record workspace_shape =
  mw_owner :: workspace_owner
  mw_root :: string
  mw_entries :: "project_entry list"

record managed_workspace = workspace_shape +
  mw_createdAt :: string
  mw_updatedAt :: string

datatype workspace_field =
    WF_task | WF_workItem | WF_round | WF_integration | WF_group | WF_lane | WF_root | WF_project | WF_directory
  | WF_path | WF_branch | WF_baseRef | WF_baseCommit | WF_createdAt | WF_updatedAt

datatype workspace_error =
    Ws_field workspace_field field_error
  | Ws_root_not_normalized | Ws_path_not_normalized | Ws_project_duplicated | Ws_directory_duplicated
  | Ws_lane_without_work_item | Ws_lane_with_round | Ws_review_without_round | Ws_review_with_work_item

abbreviation ws_field :: "workspace_field \<Rightarrow> field_error + 'a \<Rightarrow> workspace_error + 'a" where
  "ws_field f \<equiv> map_error (Ws_field f)"

subsection \<open>Validation\<close>

fun validateOwner :: "workspace_owner \<Rightarrow> workspace_error + workspace_owner" where
  "validateOwner (Owner_task t) = bind_result (ws_field WF_task (requireIdentity t)) (\<lambda>t. Inr (Owner_task t))"
| "validateOwner (Owner_work_item t i) =
     bind_result (ws_field WF_task (requireIdentity t)) (\<lambda>t.
     bind_result (ws_field WF_workItem (requireIdentity i)) (\<lambda>i. Inr (Owner_work_item t i)))"
| "validateOwner (Owner_review_round t i) =
     bind_result (ws_field WF_task (requireIdentity t)) (\<lambda>t.
     bind_result (ws_field WF_round (requireIdentity i)) (\<lambda>i. Inr (Owner_review_round t i)))"
| "validateOwner (Owner_integration t i) =
     bind_result (ws_field WF_task (requireIdentity t)) (\<lambda>t.
     bind_result (ws_field WF_integration (requireIdentity i)) (\<lambda>i. Inr (Owner_integration t i)))"
| "validateOwner (Owner_lane t g l purpose workItem round) =
     bind_result (optional_value (\<lambda>i. ws_field WF_workItem (requireIdentity i)) workItem) (\<lambda>workItemId.
     bind_result (optional_value (\<lambda>i. ws_field WF_round (requireIdentity i)) round) (\<lambda>reviewRoundId.
     if purpose = Purpose_execution \<and> workItemId = None then Inl Ws_lane_without_work_item
     else if purpose = Purpose_execution \<and> reviewRoundId \<noteq> None then Inl Ws_lane_with_round
     else if purpose = Purpose_review \<and> reviewRoundId = None then Inl Ws_review_without_round
     else if purpose = Purpose_review \<and> workItemId \<noteq> None then Inl Ws_review_with_work_item
     else
     bind_result (ws_field WF_task (requireIdentity t)) (\<lambda>t.
     bind_result (ws_field WF_group (requireIdentity g)) (\<lambda>g.
     bind_result (ws_field WF_lane (requireIdentity l)) (\<lambda>l.
       Inr (Owner_lane t g l purpose workItemId reviewRoundId))))))"

definition normalizeEntry ::
  "string \<Rightarrow> string list \<Rightarrow> string list \<Rightarrow> project_entry \<Rightarrow> workspace_error + project_entry" where
  "normalizeEntry cwd projectIds directories entry =
     bind_result (ws_field WF_project (requireIdentity (we_projectId entry))) (\<lambda>projectId.
     bind_result (ws_field WF_directory (requireIdentity (we_directory entry))) (\<lambda>directory.
     if projectId \<in> set projectIds then Inl Ws_project_duplicated
     else if directory \<in> set directories then Inl Ws_directory_duplicated
     else
     bind_result (ws_field WF_path (requireText (we_path entry))) (\<lambda>text.
     if path_resolve cwd text \<noteq> we_path entry then Inl Ws_path_not_normalized
     else
     bind_result (ws_field WF_branch (requireText (we_branch entry))) (\<lambda>branch.
     bind_result (ws_field WF_baseRef (requireText (we_baseRef entry))) (\<lambda>baseRef.
     bind_result (ws_field WF_baseCommit (requireCommit (we_baseCommit entry))) (\<lambda>baseCommit.
       Inr \<lparr>we_projectId = projectId, we_directory = directory, we_access = we_access entry, we_path = path_resolve cwd text,
            we_branch = branch, we_baseRef = baseRef, we_baseCommit = baseCommit\<rparr>))))))"

fun normalizeEntries ::
  "string \<Rightarrow> string list \<Rightarrow> string list \<Rightarrow> project_entry list \<Rightarrow> workspace_error + project_entry list" where
  "normalizeEntries cwd projectIds directories [] = Inr []"
| "normalizeEntries cwd projectIds directories (entry # entries) =
     bind_result (normalizeEntry cwd projectIds directories entry) (\<lambda>e.
     bind_result (normalizeEntries cwd (we_projectId e # projectIds) (we_directory e # directories) entries) (\<lambda>es.
       Inr (e # es)))"

definition validateManagedWorkspace :: "string \<Rightarrow> managed_workspace \<Rightarrow> workspace_error + managed_workspace" where
  "validateManagedWorkspace cwd w = check
     [failure (validateOwner (mw_owner w)),
      (case ws_field WF_root (requireText (mw_root w)) of
         Inl e \<Rightarrow> Some e
       | Inr root \<Rightarrow> reject (path_resolve cwd root \<noteq> mw_root w) Ws_root_not_normalized),
      failure (normalizeEntries cwd [] [] (mw_entries w)),
      failure (ws_field WF_createdAt (requireTimestamp (mw_createdAt w))),
      failure (ws_field WF_updatedAt (requireTimestamp (mw_updatedAt w)))] w"

definition createManagedWorkspace :: "string \<Rightarrow> workspace_shape \<Rightarrow> time \<Rightarrow> workspace_error + managed_workspace" where
  "createManagedWorkspace cwd input now =
     bind_result (validateOwner (mw_owner input)) (\<lambda>owner.
     bind_result (ws_field WF_root (requireText (mw_root input))) (\<lambda>root.
     bind_result (normalizeEntries cwd [] [] (mw_entries input)) (\<lambda>entries.
       validateManagedWorkspace cwd
         \<lparr>mw_owner = owner, mw_root = path_resolve cwd root, mw_entries = entries,
          mw_createdAt = toISOString now, mw_updatedAt = toISOString now\<rparr>)))"

subsection \<open>Identity, fence and keys\<close>

definition managedWorkspaceIdentity :: "managed_workspace \<Rightarrow> workspace_shape" where
  "managedWorkspaceIdentity w = \<lparr>mw_owner = mw_owner w, mw_root = mw_root w, mw_entries = mw_entries w\<rparr>"

definition sameManagedWorkspaceIdentity :: "managed_workspace \<Rightarrow> managed_workspace \<Rightarrow> bool" where
  "sameManagedWorkspaceIdentity l r \<longleftrightarrow> managedWorkspaceIdentity l = managedWorkspaceIdentity r"

definition workspaceProjectEntry :: "managed_workspace \<Rightarrow> string \<Rightarrow> project_entry option" where
  "workspaceProjectEntry w projectId = find (\<lambda>e. we_projectId e = projectId) (mw_entries w)"

definition access_text :: "project_access \<Rightarrow> string" where
  "access_text a = (case a of Access_read \<Rightarrow> ''read'' | Access_write \<Rightarrow> ''write'')"

definition binding_text :: "string \<Rightarrow> string \<Rightarrow> project_access \<Rightarrow> string" where
  "binding_text projectId directory a = projectId @ CHR 0x00 # directory @ CHR 0x00 # access_text a"

definition isTaskOwnedWorkspace ::
  "managed_workspace option \<Rightarrow> string \<Rightarrow> string option \<Rightarrow> (string \<times> string) list \<Rightarrow> bool" where
  "isTaskOwnedWorkspace workspace taskId taskRoot bindings =
     (case workspace of
        None \<Rightarrow> False
      | Some w \<Rightarrow>
          if mw_owner w \<noteq> Owner_task taskId \<or> taskRoot = None \<or> Some (mw_root w) \<noteq> taskRoot then False
          else let expected = sort (map (\<lambda>(projectId, directory). binding_text projectId directory Access_write) bindings);
                   actual = sort (map (\<lambda>e. binding_text (we_projectId e) (we_directory e) (we_access e)) (mw_entries w))
               in actual = expected)"

definition managedWorkspaceKey :: "workspace_owner \<Rightarrow> workspace_error + string" where
  "managedWorkspaceKey owner =
     bind_result (validateOwner owner) (\<lambda>valid. Inr
       (case valid of
          Owner_task t \<Rightarrow> ''task:'' @ t
        | Owner_work_item t i \<Rightarrow> ''work-item:'' @ t @ '':'' @ i
        | Owner_review_round t i \<Rightarrow> ''review-round:'' @ t @ '':'' @ i
        | Owner_integration t i \<Rightarrow> ''integration-attempt:'' @ t @ '':'' @ i
        | Owner_lane t g l _ _ _ \<Rightarrow> ''execution-lane:'' @ t @ '':'' @ g @ '':'' @ l))"

fun managedWorktreeName :: "workspace_owner \<Rightarrow> string" where
  "managedWorktreeName (Owner_task t) = ''main''"
| "managedWorktreeName (Owner_work_item t i) = i"
| "managedWorktreeName (Owner_review_round t i) = i"
| "managedWorktreeName (Owner_integration t i) = ''integration-'' @ i"
| "managedWorktreeName (Owner_lane t g l _ _ _) = ''execution-lane-'' @ g @ ''-'' @ l"

subsection \<open>Normal forms\<close>

lemma validateOwner_idem: "validateOwner a = Inr b \<Longrightarrow> validateOwner b = Inr b"
proof (induction a rule: validateOwner.induct)
  case (5 t g l purpose workItem round)
  then show ?case
    by (cases workItem; cases round; cases purpose) (auto simp: bind_result_Inr map_error_Inr optional_value_def requireIdentity_idem)
qed (auto simp: bind_result_Inr map_error_Inr requireIdentity_idem)

lemma normalizeEntry_Inr [validity]:
  "normalizeEntry cwd ids dirs e = Inr n \<longleftrightarrow>
     requireIdentity (we_projectId e) = Inr (we_projectId n) \<and> requireIdentity (we_directory e) = Inr (we_directory n) \<and>
     we_projectId n \<notin> set ids \<and> we_directory n \<notin> set dirs \<and> we_access n = we_access e \<and> we_path n = we_path e \<and>
     (\<exists>t. requireText (we_path e) = Inr t \<and> path_resolve cwd t = we_path e) \<and>
     requireText (we_branch e) = Inr (we_branch n) \<and> requireText (we_baseRef e) = Inr (we_baseRef n) \<and>
     requireCommit (we_baseCommit e) = Inr (we_baseCommit n)"
  by (cases n) (auto simp: normalizeEntry_def bind_result_Inr map_error_Inr)

lemma normalizeEntry_idem: "normalizeEntry cwd ids dirs e = Inr n \<Longrightarrow> normalizeEntry cwd ids dirs n = Inr n"
  by (auto simp: normalizeEntry_Inr intro: normal_forms)

lemma normalizeEntries_idem: "normalizeEntries cwd ids dirs es = Inr ns \<Longrightarrow> normalizeEntries cwd ids dirs ns = Inr ns"
  by (induction es arbitrary: ids dirs ns) (auto simp: bind_result_Inr normalizeEntry_idem)

lemma normalizeEntries_distinct:
  "normalizeEntries cwd ids dirs es = Inr ns \<Longrightarrow>
     distinct (map we_projectId ns) \<and> set (map we_projectId ns) \<inter> set ids = {} \<and>
     distinct (map we_directory ns) \<and> set (map we_directory ns) \<inter> set dirs = {}"
  by (induction es arbitrary: ids dirs ns) (fastforce simp: bind_result_Inr normalizeEntry_Inr)+

lemma normalizeEntries_entry:
  "normalizeEntries cwd ids dirs es = Inr ns \<Longrightarrow> n \<in> set ns \<Longrightarrow> \<exists>ids' dirs'. normalizeEntry cwd ids' dirs' n = Inr n"
  by (induction es arbitrary: ids dirs ns) (auto simp: bind_result_Inr, blast dest: normalizeEntry_idem)

lemma validateManagedWorkspace_Inr [validity]:
  "validateManagedWorkspace cwd w = Inr v \<longleftrightarrow> v = w \<and> (\<exists>a. validateOwner (mw_owner w) = Inr a) \<and>
     (\<exists>root. requireText (mw_root w) = Inr root \<and> path_resolve cwd root = mw_root w) \<and>
     (\<exists>es. normalizeEntries cwd [] [] (mw_entries w) = Inr es) \<and>
     Date_parse (mw_createdAt w) \<noteq> None \<and> Date_parse (mw_updatedAt w) \<noteq> None"
  by (cases "requireText (mw_root w)") (auto simp: validateManagedWorkspace_def check_Inr failure_None requireTimestamp_Inr)

subsection \<open>The Task fence\<close>

lemma sort_eq_iff: "sort xs = sort ys \<longleftrightarrow> mset xs = mset ys"
  by (metis mset_sort properties_for_sort sorted_sort)

lemma binding_text_split:
  "\<not> has_nul p \<Longrightarrow> \<not> has_nul d \<Longrightarrow> split_on CHR 0x00 (binding_text p d a) = [p, d, access_text a]"
  by (cases a) (auto simp: binding_text_def has_nul_def split_on_append split_on_free access_text_def)

lemma mset_map_eq: "mset xs = mset ys \<Longrightarrow> mset (map f xs) = mset (map f ys)"
  by simp

lemma binding_texts_iff:
  assumes "\<forall>e \<in> set es. \<not> has_nul (we_projectId e) \<and> \<not> has_nul (we_directory e)"
    "\<forall>(p, d) \<in> set bs. \<not> has_nul p \<and> \<not> has_nul d"
  shows "mset (map (\<lambda>e. binding_text (we_projectId e) (we_directory e) (we_access e)) es) =
      mset (map (\<lambda>(p, d). binding_text p d Access_write) bs) \<longleftrightarrow>
    mset (map (\<lambda>e. (we_projectId e, we_directory e)) es) = mset bs \<and> (\<forall>e \<in> set es. we_access e = Access_write)"
    (is "mset (map ?f es) = mset (map ?g bs) \<longleftrightarrow> ?rhs")
proof
  assume m: "mset (map ?f es) = mset (map ?g bs)"
  have f: "map (split_on CHR 0x00) (map ?f es) = map (\<lambda>e. [we_projectId e, we_directory e, access_text (we_access e)]) es"
    using assms(1) by (simp add: binding_text_split)
  have g: "map (split_on CHR 0x00) (map ?g bs) = map (\<lambda>(p, d). [p, d, ''write'']) bs"
    using assms(2) by (auto simp: binding_text_split access_text_def)
  have e: "mset (map (\<lambda>e. [we_projectId e, we_directory e, access_text (we_access e)]) es) =
      mset (map (\<lambda>(p, d). [p, d, ''write'']) bs)"
    using mset_map_eq [OF m, of "split_on CHR 0x00"] unfolding f g .
  have "we_access x = Access_write" if "x \<in> set es" for x
  proof -
    have "[we_projectId x, we_directory x, access_text (we_access x)] \<in> set (map (\<lambda>(p, d). [p, d, ''write'']) bs)"
      using that arg_cong [OF e, of set_mset] by (simp only: set_mset_mset) auto
    then show ?thesis by (cases "we_access x") (auto simp: access_text_def)
  qed
  moreover have "mset (map (\<lambda>e. (we_projectId e, we_directory e)) es) = mset bs"
    using mset_map_eq [OF e, of "\<lambda>l. (l ! 0, l ! 1)"] by (simp add: comp_def case_prod_unfold)
  ultimately show ?rhs by blast
next
  assume r: ?rhs
  then have "map ?f es = map ?g (map (\<lambda>e. (we_projectId e, we_directory e)) es)" by simp
  with r show "mset (map ?f es) = mset (map ?g bs)" by (simp only: mset_map)
qed

lemma validate_nul_free:
  assumes "validateManagedWorkspace cwd w = Inr w" "e \<in> set (mw_entries w)"
  shows "\<not> has_nul (we_projectId e) \<and> \<not> has_nul (we_directory e)"
proof -
  have "normalizeEntries cwd ids dirs es = Inr ns \<Longrightarrow> e \<in> set es \<Longrightarrow> \<not> has_nul (we_projectId e) \<and> \<not> has_nul (we_directory e)"
    for ids dirs es ns
    by (induction es arbitrary: ids dirs ns)
      (auto simp: bind_result_Inr normalizeEntry_Inr requireIdentity_Inr requireText_Inr)
  then show ?thesis using assms by (auto simp: validateManagedWorkspace_Inr)
qed

subsection \<open>Properties\<close>

definition demo_shape :: workspace_shape where
  "demo_shape = \<lparr>mw_owner = Owner_task ''task-1'', mw_root = ''/w/task-1'', mw_entries =
     [\<lparr>we_projectId = ''web'', we_directory = ''web'', we_access = Access_write, we_path = ''/w/task-1/web'',
       we_branch = ''b'', we_baseRef = ''main'', we_baseCommit = replicate 40 CHR ''A''\<rparr>]\<rparr>"

definition demo_workspace :: managed_workspace where
  "demo_workspace = \<lparr>mw_owner = Owner_task ''task-1'', mw_root = ''/w/task-1'', mw_entries =
     [\<lparr>we_projectId = ''web'', we_directory = ''web'', we_access = Access_write, we_path = ''/w/task-1/web'',
       we_branch = ''b'', we_baseRef = ''main'', we_baseCommit = replicate 40 CHR ''a''\<rparr>],
     mw_createdAt = toISOString 0, mw_updatedAt = toISOString 0\<rparr>"

lemma demo_workspace_created: "createManagedWorkspace ''/'' demo_shape 0 = Inr demo_workspace"
  by code_simp

text \<open>
  C39. A created workspace is well formed: it passes its validator and is its own normal form
  (creating a workspace from its identity gives it again); its Projects and their directories are
  pairwise distinct, and its root and all entry paths are absolute and normalized.
\<close>

theorem workspace_created:
  assumes "createManagedWorkspace cwd input now = Inr w"
  shows "validateManagedWorkspace cwd w = Inr w \<and>
    createManagedWorkspace cwd (managedWorkspaceIdentity w) now = Inr w \<and>
    distinct (map we_projectId (mw_entries w)) \<and> distinct (map we_directory (mw_entries w)) \<and>
    (\<forall>p \<in> insert (mw_root w) (we_path ` set (mw_entries w)). absolute_of (path_segments_of p) = p)"
proof -
  from assms obtain owner root es where c: "validateOwner (mw_owner input) = Inr owner"
    "normalizeEntries cwd [] [] (mw_entries input) = Inr es"
    "mw_owner w = owner" "mw_root w = path_resolve cwd root" "mw_entries w = es"
    "mw_createdAt w = toISOString now" "mw_updatedAt w = toISOString now" and v: "validateManagedWorkspace cwd w = Inr w"
    by (auto simp: createManagedWorkspace_def bind_result_Inr validateManagedWorkspace_Inr)
  have resolved: "absolute_of (path_segments_of (path_resolve cwd p)) = path_resolve cwd p" for p
    by (simp add: path_resolve_def)
  have "absolute_of (path_segments_of (we_path e)) = we_path e" if "e \<in> set es" for e
    using normalizeEntries_entry [OF c(2) that] resolved by (auto simp: normalizeEntry_Inr) metis
  moreover have "createManagedWorkspace cwd (managedWorkspaceIdentity w) now = Inr w"
  proof -
    obtain r where r: "requireText (mw_root w) = Inr r" "path_resolve cwd r = mw_root w"
      using v by (auto simp: validateManagedWorkspace_Inr)
    have "\<lparr>mw_owner = mw_owner w, mw_root = mw_root w, mw_entries = mw_entries w, mw_createdAt = toISOString now,
        mw_updatedAt = toISOString now\<rparr> = w" using c(6,7) by simp
    moreover have "validateOwner (mw_owner w) = Inr (mw_owner w)" using validateOwner_idem [OF c(1)] c(3) by simp
    moreover have "normalizeEntries cwd [] [] (mw_entries w) = Inr (mw_entries w)"
      using normalizeEntries_idem [OF c(2)] c(5) by simp
    ultimately show ?thesis using r v by (simp add: createManagedWorkspace_def managedWorkspaceIdentity_def)
  qed
  ultimately show ?thesis using v c resolved normalizeEntries_distinct [OF c(2)] by auto
qed

lemma workspace_created_witness:
  "createManagedWorkspace ''/'' demo_shape 0 = Inr demo_workspace \<and> validateManagedWorkspace ''/'' demo_workspace = Inr demo_workspace \<and>
   createManagedWorkspace ''/'' (managedWorkspaceIdentity demo_workspace) 0 = Inr demo_workspace \<and>
   distinct (map we_projectId (mw_entries demo_workspace))"
  using workspace_created [OF demo_workspace_created] demo_workspace_created by blast

text \<open>
  The fence that every Task launch checks, for a workspace that passes its validator and
  bindings without NUL characters: it accepts exactly the workspace owned by that Task, at the
  Task's root, whose entries are the bindings up to order, each writable.
\<close>

theorem task_owned_exact:
  assumes "validateManagedWorkspace cwd w = Inr w" "\<forall>(p, d) \<in> set bindings. \<not> has_nul p \<and> \<not> has_nul d"
  shows "isTaskOwnedWorkspace (Some w) taskId taskRoot bindings \<longleftrightarrow>
    mw_owner w = Owner_task taskId \<and> taskRoot = Some (mw_root w) \<and>
    mset (map (\<lambda>e. (we_projectId e, we_directory e)) (mw_entries w)) = mset bindings \<and>
    (\<forall>e \<in> set (mw_entries w). we_access e = Access_write)"
  using binding_texts_iff [OF _ assms(2), of "mw_entries w"] validate_nul_free [OF assms(1)]
  by (auto simp: isTaskOwnedWorkspace_def Let_def sort_eq_iff)

lemma task_owned_exact_witness: "isTaskOwnedWorkspace (Some demo_workspace) ''task-1'' (Some ''/w/task-1'') [(''web'', ''web'')]"
proof -
  have v: "validateManagedWorkspace ''/'' demo_workspace = Inr demo_workspace" by code_simp
  have "\<forall>(p, d) \<in> set [(''web'', ''web'')]. \<not> has_nul p \<and> \<not> has_nul d" by code_simp
  from task_owned_exact [OF v this] show ?thesis by (simp add: demo_workspace_def)
qed

end
