(* ===== verification/Artifact_Reference.thy ===== *)
theory Artifact_Reference
  imports Posix_Path
begin

text \<open>
  File artifacts of a Task: the layout and lexical safety of paths in its artifact repository
  (\<open>src/src/artifacts/artifactPaths.ts\<close>), and the commit-pinned reference to an artifact
  (\<open>src/src/artifacts/gitArtifactRef.ts\<close>) with its compact text form. The file system is an argument:
  \<open>kind_at\<close> gives what \<open>pathKind\<close> reads at an absolute path; that reading a path may itself fail, which
  aborts the resolution, has no counterpart. The functions that read and write the Git
  repository itself are not modelled.
\<close>

datatype artifact_error =
    Path_required | Path_nul | Path_backslash | Path_absolute | Path_control | Path_glob | Path_empty_segment
  | Path_reserved_segment | Path_git_directory | Path_segment_space | Path_escapes | Path_symlink | Path_below_file
  | Segment_invalid | Ref_task_required | Commit_invalid | Ref_digest_invalid | Not_a_ref | Ref_malformed

subsection \<open>Paths\<close>

definition safePathSegment :: "string \<Rightarrow> artifact_error + string" where
  "safePathSegment value =
     (let normalized = trim value in
      if normalized = [] \<or> reserved_identity normalized \<or> has_separator normalized then Inl Segment_invalid
      else Inr normalized)"

definition taskArtifactsRoot :: "string \<Rightarrow> string \<Rightarrow> string" where
  "taskArtifactsRoot cwd home = path_join (path_resolve cwd home) ''task-artifacts''"

definition taskArtifactRepoPath :: "string \<Rightarrow> string \<Rightarrow> string \<Rightarrow> artifact_error + string" where
  "taskArtifactRepoPath cwd home taskId =
     bind_result (safePathSegment taskId) (\<lambda>segment. Inr (path_join (taskArtifactsRoot cwd home) segment))"

definition is_glob :: "char \<Rightarrow> bool" where
  "is_glob c \<longleftrightarrow> c \<in> set [CHR ''*'', CHR ''?'', CHR ''['', CHR '']'', CHR '':'']"

definition segment_error :: "string \<Rightarrow> artifact_error option" where
  "segment_error segment = first_error
     [reject (segment = []) Path_empty_segment,
      reject (reserved_identity segment) Path_reserved_segment,
      reject (toLowerCase segment = ''.git'') Path_git_directory,
      reject (trim segment \<noteq> segment) Path_segment_space]"

definition safeRelativeArtifactPath :: "string \<Rightarrow> artifact_error + string" where
  "safeRelativeArtifactPath relativePath =
     (let segments = split_on CHR ''/'' relativePath in
      check
        [reject (relativePath = []) Path_required,
         reject (has_nul relativePath) Path_nul,
         reject (CHR 0x5C \<in> set relativePath) Path_backslash,
         reject (isAbsolute relativePath \<or> startsWith relativePath ''/'') Path_absolute,
         reject (\<exists>c \<in> set relativePath. unit_of c < 32) Path_control,
         reject (\<exists>c \<in> set relativePath. is_glob c) Path_glob,
         first_error (map segment_error segments)]
        (join_with CHR ''/'' segments))"

datatype path_kind = Directory | File | Symlink

text \<open>The loop over the components of the path, each looked up in the file system.\<close>

fun walk_components ::
  "(string \<Rightarrow> path_kind option) \<Rightarrow> string \<Rightarrow> string list \<Rightarrow> artifact_error option" where
  "walk_components kind_at current [] = None"
| "walk_components kind_at current (segment # segments) =
     (if segment = ''.git'' then Some Path_git_directory
      else let next = path_join current segment in
        case kind_at next of
          Some Symlink \<Rightarrow> Some Path_symlink
        | Some File \<Rightarrow> if segments \<noteq> [] then Some Path_below_file else walk_components kind_at next segments
        | _ \<Rightarrow> walk_components kind_at next segments)"

definition resolveContainedArtifactPath ::
  "(string \<Rightarrow> path_kind option) \<Rightarrow> string \<Rightarrow> string \<Rightarrow> string \<Rightarrow> artifact_error + string" where
  "resolveContainedArtifactPath kind_at cwd repoRoot relativePath =
     (let canonicalRoot = path_resolve cwd repoRoot in
      bind_result (safeRelativeArtifactPath relativePath) (\<lambda>safeRelative.
        let absolute = path_resolve canonicalRoot safeRelative; fromRoot = path_relative canonicalRoot absolute in
        if fromRoot = [] \<or> fromRoot = ''..'' \<or> startsWith fromRoot ''../'' \<or> isAbsolute fromRoot then Inl Path_escapes
        else check [walk_components kind_at canonicalRoot (split_on CHR ''/'' safeRelative)] absolute))"

subsection \<open>References\<close>

record artifact_ref =
  ar_taskId :: string
  ar_commit :: string
  ar_relativePath :: string
  ar_digest :: "string option"

definition requireCommitId :: "string \<Rightarrow> artifact_error + string" where
  "requireCommitId value =
     (let commit = trim value in
      if all_hex commit \<and> (length commit = 40 \<or> length commit = 64) then Inr commit else Inl Commit_invalid)"

definition validateGitArtifactRef :: "artifact_ref \<Rightarrow> artifact_error + artifact_ref" where
  "validateGitArtifactRef ref =
     (if trim (ar_taskId ref) = [] then Inl Ref_task_required
      else
      bind_result (requireCommitId (ar_commit ref)) (\<lambda>commit.
      bind_result (safeRelativeArtifactPath (ar_relativePath ref)) (\<lambda>relativePath.
      if (case ar_digest ref of None \<Rightarrow> False | Some d \<Rightarrow> \<not> is_digest d) then Inl Ref_digest_invalid
      else Inr \<lparr>ar_taskId = ar_taskId ref, ar_commit = commit, ar_relativePath = relativePath, ar_digest = ar_digest ref\<rparr>)))"

definition git_artifact_ref_prefix :: string where
  "git_artifact_ref_prefix = ''git:''"

definition isGitArtifactRefString :: "string \<Rightarrow> bool" where
  "isGitArtifactRefString value = startsWith value git_artifact_ref_prefix"

definition formatGitArtifactRef :: "artifact_ref \<Rightarrow> artifact_error + string" where
  "formatGitArtifactRef ref =
     bind_result (validateGitArtifactRef ref) (\<lambda>valid.
       Inr (git_artifact_ref_prefix @ ar_commit valid @ '':'' @ ar_relativePath valid))"

definition parseGitArtifactRef :: "string \<Rightarrow> string \<Rightarrow> artifact_error + artifact_ref" where
  "parseGitArtifactRef value taskId =
     (if \<not> isGitArtifactRefString value then Inl Not_a_ref
      else let body = drop (length git_artifact_ref_prefix) value in
        case indexOf CHR '':'' body of
          None \<Rightarrow> Inl Ref_malformed
        | Some separator \<Rightarrow>
            if separator = 0 \<or> separator = length body - 1 then Inl Ref_malformed
            else validateGitArtifactRef
              \<lparr>ar_taskId = taskId, ar_commit = take separator body, ar_relativePath = drop (separator + 1) body,
               ar_digest = None\<rparr>)"

subsection \<open>Lexical safety\<close>

lemma safeRelative_Inr [validity]:
  "safeRelativeArtifactPath p = Inr q \<longleftrightarrow>
     q = p \<and> p \<noteq> [] \<and> \<not> has_nul p \<and> CHR 0x5C \<notin> set p \<and> \<not> isAbsolute p \<and> (\<forall>c \<in> set p. 32 \<le> unit_of c \<and> \<not> is_glob c) \<and>
     (\<forall>s \<in> set (split_on CHR ''/'' p). segment_error s = None)"
  by (auto simp: safeRelativeArtifactPath_def check_Inr first_error_None isAbsolute_def Let_def)

lemma segment_plain: "segment_error s = None \<Longrightarrow> CHR ''/'' \<notin> set s \<Longrightarrow> plain_segment s"
  by (auto simp: segment_error_def plain_segment_def reserved_identity_def)

lemma safe_segments:
  "safeRelativeArtifactPath p = Inr q \<Longrightarrow> list_all plain_segment (split_on CHR ''/'' p)"
  by (auto simp: safeRelative_Inr list_all_iff intro!: segment_plain dest: split_on_segments)

lemma resolve_safe:
  assumes "list_all plain_segment root" "safeRelativeArtifactPath p = Inr q"
  shows "path_resolve (absolute_of root) p = absolute_of (root @ split_on CHR ''/'' p)"
  using assms safe_segments [OF assms(2)]
  by (simp add: path_resolve_def safeRelative_Inr path_segments_append normal_segments_plain)

lemma walk_components_None:
  assumes "list_all plain_segment (root @ segs)" "walk_components kind_at (absolute_of root) segs = None"
  shows "\<forall>i < length segs. kind_at (absolute_of (root @ take (Suc i) segs)) \<noteq> Some Symlink \<and>
    (Suc i < length segs \<longrightarrow> kind_at (absolute_of (root @ take (Suc i) segs)) \<noteq> Some File)"
  using assms
proof (induction segs arbitrary: root)
  case (Cons s segs)
  have j: "path_join (absolute_of root) s = absolute_of (root @ [s])" using Cons.prems(1) by (simp add: path_join_plain)
  have "walk_components kind_at (absolute_of (root @ [s])) segs = None"
    "kind_at (absolute_of (root @ [s])) \<noteq> Some Symlink" "segs \<noteq> [] \<Longrightarrow> kind_at (absolute_of (root @ [s])) \<noteq> Some File"
    using Cons.prems(2) by (auto simp: j Let_def split: if_splits option.splits path_kind.splits)
  with Cons.IH [of "root @ [s]"] Cons.prems(1) show ?case
    by (simp add: All_less_Suc2)
qed simp

subsection \<open>Text form\<close>

lemma requireCommitId_Inr [validity]:
  "requireCommitId v = Inr c \<longleftrightarrow> c = trim v \<and> all_hex c \<and> (length c = 40 \<or> length c = 64)"
  by (auto simp: requireCommitId_def Let_def)

lemma validateGitArtifactRef_Inr [validity]:
  "validateGitArtifactRef r = Inr q \<longleftrightarrow>
     trim (ar_taskId r) \<noteq> [] \<and> requireCommitId (ar_commit r) = Inr (ar_commit q) \<and>
     safeRelativeArtifactPath (ar_relativePath r) = Inr (ar_relativePath q) \<and>
     (\<forall>d. ar_digest r = Some d \<longrightarrow> is_digest d) \<and> ar_taskId q = ar_taskId r \<and> ar_digest q = ar_digest r"
  by (cases q; cases "ar_digest r") (auto simp: validateGitArtifactRef_def bind_result_Inr)

lemma validateGitArtifactRef_idem: "validateGitArtifactRef r = Inr q \<Longrightarrow> validateGitArtifactRef q = Inr q"
  by (auto simp: validateGitArtifactRef_Inr requireCommitId_Inr safeRelative_Inr)

lemma hex_no_colon: "all_hex s \<Longrightarrow> CHR '':'' \<notin> set s"
  by (auto simp: all_hex_def list_all_iff is_hex_def is_digit_def unit_of_def dest!: bspec)

lemma parse_text:
  assumes "all_hex c" "c \<noteq> []" "p \<noteq> []"
  shows "parseGitArtifactRef (git_artifact_ref_prefix @ c @ '':'' @ p) t =
    validateGitArtifactRef \<lparr>ar_taskId = t, ar_commit = c, ar_relativePath = p, ar_digest = None\<rparr>"
  using assms
  by (simp add: parseGitArtifactRef_def isGitArtifactRefString_def startsWith_iff indexOf_append hex_no_colon Let_def)

subsection \<open>Layout\<close>

lemma safePathSegment_plain: "safePathSegment v = Inr s \<Longrightarrow> s = trim v \<and> plain_segment s"
  by (auto simp: safePathSegment_def Let_def plain_segment_def reserved_identity_def has_separator_def split: if_splits)

lemma taskArtifactRepoPath_Inr:
  assumes "taskArtifactRepoPath cwd home t = Inr repo"
  shows "repo = absolute_of (path_segments_of (path_resolve cwd home) @ [''task-artifacts'', trim t]) \<and> plain_segment (trim t)"
proof -
  obtain q where q: "path_resolve cwd home = absolute_of (path_segments_of q)" by (simp add: path_resolve_def)
  have "plain_segment ''task-artifacts''" by (simp add: plain_segment_def)
  then show ?thesis
    using assms safePathSegment_plain [of t]
    by (auto simp: taskArtifactRepoPath_def bind_result_Inr taskArtifactsRoot_def q path_join_plain)
qed

lemma resolveContained_Inr:
  assumes "resolveContainedArtifactPath kind_at cwd (absolute_of root) p = Inr q" "list_all plain_segment root"
  shows "safeRelativeArtifactPath p = Inr p" "q = absolute_of (root @ split_on CHR ''/'' p)"
    "walk_components kind_at (absolute_of root) (split_on CHR ''/'' p) = None"
proof -
  have r: "path_resolve cwd (absolute_of root) = absolute_of root" using assms(2) by (simp add: path_resolve_def)
  from assms(1) show s: "safeRelativeArtifactPath p = Inr p"
    by (auto simp: resolveContainedArtifactPath_def bind_result_Inr safeRelative_Inr Let_def split: if_splits)
  from assms(1) r resolve_safe [OF assms(2) s]
  show "q = absolute_of (root @ split_on CHR ''/'' p)"
    "walk_components kind_at (absolute_of root) (split_on CHR ''/'' p) = None"
    by (auto simp: resolveContainedArtifactPath_def s check_Inr Let_def split: if_splits)
qed

subsection \<open>Properties\<close>

text \<open>
  C40. A path that the artifact repository of a Task resolves is contained in it: it is the
  repository's own path followed by the segments of the given path, none of which is empty, \<open>.\<close>,
  \<open>..\<close> or the Git control directory in any case; no component below the repository is a symbolic link
  and none but the last is a file. The repository itself lies directly below the artifacts root of
  the home, and two Tasks have the same repository exactly when their trimmed ids agree.
\<close>

theorem artifact_path_contained:
  assumes "taskArtifactRepoPath cwd home t = Inr repo" "taskArtifactRepoPath cwd home u = Inr repo'"
    "resolveContainedArtifactPath kind_at cwd repo p = Inr q"
  shows "(\<exists>segs. segs \<noteq> [] \<and> path_segments_of q = path_segments_of repo @ segs \<and> join_with CHR ''/'' segs = p \<and>
      (\<forall>s \<in> set segs. s \<notin> {[], ''.'', ''..''} \<and> toLowerCase s \<noteq> ''.git'' \<and> CHR ''/'' \<notin> set s) \<and>
      (\<forall>i < length segs. kind_at (absolute_of (path_segments_of repo @ take (Suc i) segs)) \<noteq> Some Symlink \<and>
        (Suc i < length segs \<longrightarrow> kind_at (absolute_of (path_segments_of repo @ take (Suc i) segs)) \<noteq> Some File))) \<and>
    path_segments_of repo = path_segments_of (path_resolve cwd home) @ [''task-artifacts'', trim t] \<and>
    (repo = repo' \<longleftrightarrow> trim t = trim u)"
proof -
  let ?h = "path_segments_of (path_resolve cwd home)"
  have "plain_segment ''task-artifacts''" by (simp add: plain_segment_def)
  with taskArtifactRepoPath_Inr [OF assms(1)] taskArtifactRepoPath_Inr [OF assms(2)]
  obtain root where root: "repo = absolute_of root" "list_all plain_segment root" "root = ?h @ [''task-artifacts'', trim t]"
    and other: "repo' = absolute_of (?h @ [''task-artifacts'', trim u])"
      "list_all plain_segment (?h @ [''task-artifacts'', trim u])"
    by auto
  note c = resolveContained_Inr [OF assms(3) [unfolded root(1)] root(2)]
  let ?segs = "split_on CHR ''/'' p"
  have plain: "list_all plain_segment (root @ ?segs)" using root(2) safe_segments [OF c(1)] by simp
  have "\<forall>s \<in> set ?segs. s \<notin> {[], ''.'', ''..''} \<and> toLowerCase s \<noteq> ''.git'' \<and> CHR ''/'' \<notin> set s"
    using c(1) safe_segments [OF c(1)] by (auto simp: safeRelative_Inr segment_error_def plain_segment_def list_all_iff)
  moreover have "(repo = repo') = (trim t = trim u)"
    using root other by (simp add: absolute_of_inject)
  ultimately show ?thesis
    using walk_components_None [OF plain c(3)] root plain c(2)
    by (intro conjI exI [of _ ?segs]) simp_all
qed

lemma artifact_path_contained_witness:
  "taskArtifactRepoPath ''/'' ''/home'' ''task-1'' = Inr ''/home/task-artifacts/task-1'' \<and>
   resolveContainedArtifactPath (\<lambda>_. None) ''/'' ''/home/task-artifacts/task-1'' ''notes/a.md'' =
     Inr ''/home/task-artifacts/task-1/notes/a.md'' \<and>
   (\<exists>segs. path_segments_of ''/home/task-artifacts/task-1/notes/a.md'' = path_segments_of ''/home/task-artifacts/task-1'' @ segs \<and>
     join_with CHR ''/'' segs = ''notes/a.md'')"
proof -
  have r: "taskArtifactRepoPath ''/'' ''/home'' ''task-1'' = Inr ''/home/task-artifacts/task-1''"
    "resolveContainedArtifactPath (\<lambda>_. None) ''/'' ''/home/task-artifacts/task-1'' ''notes/a.md'' =
       Inr ''/home/task-artifacts/task-1/notes/a.md''"
    by code_simp+
  from artifact_path_contained [OF r(1,1,2)] r show ?thesis by blast
qed

text \<open>
  The text form of a pinned reference: a valid reference formats to a text that parses, for the
  same Task, to the reference without its digest; two valid references of a Task have the same text
  exactly when they pin the same commit and path; and whatever parses is a valid reference that
  formats back to a text which parses to it again.
\<close>

theorem artifact_ref_roundtrip:
  assumes "validateGitArtifactRef r = Inr q" "validateGitArtifactRef r' = Inr q'" "parseGitArtifactRef v t = Inr p"
  shows "(\<exists>s. formatGitArtifactRef r = Inr s \<and> parseGitArtifactRef s (ar_taskId r) = Inr (q\<lparr>ar_digest := None\<rparr>)) \<and>
    (formatGitArtifactRef r = formatGitArtifactRef r' \<longleftrightarrow> ar_commit q = ar_commit q' \<and> ar_relativePath q = ar_relativePath q') \<and>
    validateGitArtifactRef p = Inr p \<and> ar_taskId p = t \<and>
    (\<exists>s. formatGitArtifactRef p = Inr s \<and> parseGitArtifactRef s t = Inr p)"
proof -
  have fmt: "\<exists>s. formatGitArtifactRef a = Inr s \<and> parseGitArtifactRef s (ar_taskId a) = Inr (b\<lparr>ar_digest := None\<rparr>)"
    if v: "validateGitArtifactRef a = Inr b" for a b
  proof -
    have b: "all_hex (ar_commit b)" "ar_commit b \<noteq> []" "ar_relativePath b \<noteq> []"
      using v by (auto simp: validateGitArtifactRef_Inr requireCommitId_Inr safeRelative_Inr)
    have "validateGitArtifactRef \<lparr>ar_taskId = ar_taskId a, ar_commit = ar_commit b, ar_relativePath = ar_relativePath b,
        ar_digest = None\<rparr> = Inr (b\<lparr>ar_digest := None\<rparr>)"
      using v by (auto simp: validateGitArtifactRef_Inr requireCommitId_Inr safeRelative_Inr)
    then show ?thesis using v parse_text [OF b] by (simp add: formatGitArtifactRef_def)
  qed
  have "formatGitArtifactRef r = formatGitArtifactRef r' \<longleftrightarrow> ar_commit q = ar_commit q' \<and> ar_relativePath q = ar_relativePath q'"
  proof -
    have "all_hex (ar_commit q)" "all_hex (ar_commit q')"
      using assms by (auto simp: validateGitArtifactRef_Inr requireCommitId_Inr)
    then show ?thesis using assms(1,2) by (simp add: formatGitArtifactRef_def separator_inject hex_no_colon)
  qed
  moreover from assms(3) obtain a where "validateGitArtifactRef a = Inr p" "ar_taskId a = t" "ar_digest a = None"
    by (auto simp: parseGitArtifactRef_def Let_def split: if_splits option.splits)
  then have p: "validateGitArtifactRef p = Inr p" "ar_taskId p = t" "ar_digest p = None"
    using validateGitArtifactRef_idem [of a p] by (simp_all add: validateGitArtifactRef_Inr)
  moreover have e: "p\<lparr>ar_digest := None\<rparr> = p" using p(3) by simp
  ultimately show ?thesis using fmt [OF assms(1)] fmt [OF p(1), unfolded e p(2)] by (intro conjI)
qed

lemma artifact_ref_roundtrip_witness:
  "\<exists>s. formatGitArtifactRef \<lparr>ar_taskId = ''t'', ar_commit = replicate 40 CHR ''a'', ar_relativePath = ''a.md'', ar_digest = None\<rparr> =
     Inr s"
proof -
  let ?r = "\<lparr>ar_taskId = ''t'', ar_commit = replicate 40 CHR ''a'', ar_relativePath = ''a.md'', ar_digest = None\<rparr>"
  have "validateGitArtifactRef ?r = Inr ?r"
    "parseGitArtifactRef (''git:'' @ replicate 40 CHR ''a'' @ '':a.md'') ''t'' = Inr ?r"
    by code_simp+
  from artifact_ref_roundtrip [OF this(1,1,2)] show ?thesis by blast
qed

end
