(* ===== verification/Work_Candidate.thy ===== *)
theory Work_Candidate
  imports Managed_Workspace Artifact_Reference
begin

text \<open>
  What a Work Item submits for acceptance: the candidate of \<open>src/src/workItem/workItem.ts\<close> with its
  frozen Git snapshots, the review policy it was submitted under
  (\<open>src/src/review/reviewConfig.ts\<close>) and the final-review contract of its Task
  (\<open>src/src/review/taskFinalReviewContract.ts\<close>).

  \<open>cwd\<close> is the current directory that the validator of the managed workspace resolves paths in.
  The code compares snapshots by their JSON text; the model compares the values.
\<close>

subsection \<open>Review policy and final-review contract\<close>

datatype review_trigger = Review_always | Review_leader | Review_final

record review_config =
  rc_roleName :: string
  rc_trigger :: review_trigger

definition validateReviewConfig :: "review_config \<Rightarrow> field_error + review_config" where
  "validateReviewConfig config = bind_result (requireIdentity (rc_roleName config)) (\<lambda>_. Inr config)"

record final_review_contract =
  fr_taskId :: string
  fr_reviewerRoleName :: string

definition createTaskFinalReviewContract :: "final_review_contract \<Rightarrow> field_error + final_review_contract" where
  "createTaskFinalReviewContract input =
     bind_result (requireIdentity (fr_taskId input)) (\<lambda>taskId.
     bind_result (requireIdentity (fr_reviewerRoleName input)) (\<lambda>reviewerRoleName.
       Inr \<lparr>fr_taskId = taskId, fr_reviewerRoleName = reviewerRoleName\<rparr>))"

definition validateTaskFinalReviewContract :: "final_review_contract \<Rightarrow> field_error + final_review_contract" where
  "validateTaskFinalReviewContract value = bind_result (createTaskFinalReviewContract value) (\<lambda>_. Inr value)"

definition taskFinalReviewConfig :: "final_review_contract \<Rightarrow> field_error + review_config" where
  "taskFinalReviewConfig contract =
     bind_result (validateTaskFinalReviewContract contract) (\<lambda>validated.
       Inr \<lparr>rc_roleName = fr_reviewerRoleName validated, rc_trigger = Review_final\<rparr>)"

definition sameTaskFinalReviewContract ::
  "final_review_contract option \<Rightarrow> final_review_contract option \<Rightarrow> field_error + bool" where
  "sameTaskFinalReviewContract left right =
     (case (left, right) of
        (Some l, Some r) \<Rightarrow>
          bind_result (validateTaskFinalReviewContract l) (\<lambda>first.
          bind_result (validateTaskFinalReviewContract r) (\<lambda>second.
            Inr (fr_taskId first = fr_taskId second \<and> fr_reviewerRoleName first = fr_reviewerRoleName second)))
      | _ \<Rightarrow> Inr (left = right))"

datatype request_error = Flag_not_first | Flag_incomplete | Flag_field field_error

record extracted_request =
  xr_request :: "final_review_contract option"
  xr_args :: "string list"
  xr_error :: "request_error option"

definition task_final_review_argument :: string where
  "task_final_review_argument = ''--yui-task-final-review''"

definition extractTaskFinalReviewRequest :: "string list \<Rightarrow> extracted_request" where
  "extractTaskFinalReviewRequest args =
     (case indexOf task_final_review_argument args of
        None \<Rightarrow> \<lparr>xr_request = None, xr_args = args, xr_error = None\<rparr>
      | Some index \<Rightarrow>
          if index \<noteq> 0 then \<lparr>xr_request = None, xr_args = args, xr_error = Some Flag_not_first\<rparr>
          else case args of
            _ # taskId # reviewerRoleName # rest \<Rightarrow>
              (case createTaskFinalReviewContract \<lparr>fr_taskId = taskId, fr_reviewerRoleName = reviewerRoleName\<rparr> of
                 Inr request \<Rightarrow> \<lparr>xr_request = Some request, xr_args = rest, xr_error = None\<rparr>
               | Inl e \<Rightarrow> \<lparr>xr_request = None, xr_args = rest, xr_error = Some (Flag_field e)\<rparr>)
          | _ \<Rightarrow> \<lparr>xr_request = None, xr_args = drop 3 args, xr_error = Some Flag_incomplete\<rparr>)"

subsection \<open>Candidates\<close>

record snapshot_commit =
  sc_projectId :: string
  sc_commit :: string

record git_snapshot =
  gn_reviewBaseCommit :: string
  gn_projects :: "snapshot_commit list"

record main_project =
  mp_projectId :: string
  mp_directory :: string
  mp_branch :: string
  mp_baseCommit :: string
  mp_headCommit :: string

record main_snapshot =
  ms_projects :: "main_project list"

datatype candidate_source = Direct_source | Run_source string

record work_candidate =
  wc_id :: string
  wc_taskId :: string
  wc_workItemId :: string
  wc_sequence :: int
  wc_workItemRevision :: int
  wc_summary :: string
  wc_source :: candidate_source
  wc_executionGroupId :: "string option"
  wc_executionLaneId :: "string option"
  wc_reviewPolicy :: "review_config option"
  wc_contract :: "final_review_contract option"
  wc_workspace :: "managed_workspace option"
  wc_gitSnapshot :: "git_snapshot option"
  wc_taskMainSnapshot :: "main_snapshot option"
  wc_artifactRefs :: "artifact_ref list option"
  wc_createdAt :: string

datatype candidate_field =
    KF_task | KF_summary | KF_group | KF_lane | KF_policy | KF_contract | KF_project | KF_commit | KF_directory
  | KF_branch | KF_base | KF_head | KF_reviewBase | KF_createdAt

datatype candidate_error =
    Cand_field candidate_field field_error
  | Cand_reference reference_error
  | Cand_workspace workspace_error
  | Cand_artifact artifact_error
  | Cand_id_invalid | Cand_sequence_invalid | Cand_revision_invalid | Cand_artifact_scope | Cand_lineage_incomplete
  | Contract_of_other_task | Contract_policy_differs | Cand_workspace_owner | Snapshot_without_workspace
  | Snapshot_owner | Snapshot_no_project | Snapshot_duplicated | Snapshot_missing | Snapshot_outside | Snapshot_differs
  | Main_owner | Main_duplicated | Main_not_writable | Main_head_missing | Main_scope | Main_empty | Main_not_exact

abbreviation cand_field :: "candidate_field \<Rightarrow> field_error + 'a \<Rightarrow> candidate_error + 'a" where
  "cand_field f \<equiv> map_error (Cand_field f)"

subsection \<open>Snapshots\<close>

definition snapshot_pair :: "snapshot_commit \<Rightarrow> candidate_error + string \<times> string" where
  "snapshot_pair s =
     bind_result (cand_field KF_project (requireIdentity (sc_projectId s))) (\<lambda>projectId.
     bind_result (cand_field KF_commit (requireCommit (sc_commit s))) (\<lambda>commit. Inr (projectId, commit)))"

definition snapshot_project :: "(string \<times> string) list \<Rightarrow> project_entry \<Rightarrow> candidate_error + snapshot_commit" where
  "snapshot_project byProject entry =
     (case map_of byProject (we_projectId entry) of
        None \<Rightarrow> Inl Snapshot_missing
      | Some commit \<Rightarrow> Inr \<lparr>sc_projectId = we_projectId entry, sc_commit = commit\<rparr>)"

definition primary_entry :: "project_entry list \<Rightarrow> project_entry option" where
  "primary_entry entries =
     (case find (\<lambda>e. we_access e = Access_write) entries of
        Some e \<Rightarrow> Some e
      | None \<Rightarrow> (case entries of [] \<Rightarrow> None | e # _ \<Rightarrow> Some e))"

definition owned_by_work_item :: "workspace_owner \<Rightarrow> bool" where
  "owned_by_work_item owner = (case owner of Owner_work_item _ _ \<Rightarrow> True | _ \<Rightarrow> False)"

definition owned_by_task :: "workspace_owner \<Rightarrow> bool" where
  "owned_by_task owner = (case owner of Owner_task _ \<Rightarrow> True | _ \<Rightarrow> False)"

text \<open>Once every entry has a commit the primary entry has one too, so the last branch is not taken.\<close>

definition createCandidateGitSnapshot ::
  "string \<Rightarrow> managed_workspace \<Rightarrow> snapshot_commit list \<Rightarrow> candidate_error + git_snapshot" where
  "createCandidateGitSnapshot cwd workspace projects =
     bind_result (map_error Cand_workspace (validateManagedWorkspace cwd workspace)) (\<lambda>_.
     if \<not> owned_by_work_item (mw_owner workspace) then Inl Snapshot_owner
     else if mw_entries workspace = [] then Inl Snapshot_no_project
     else
     bind_result (map_result snapshot_pair projects) (\<lambda>byProject.
     if \<not> distinct (map fst byProject) then Inl Snapshot_duplicated
     else
     bind_result (map_result (snapshot_project byProject) (mw_entries workspace)) (\<lambda>normalized.
     if length normalized \<noteq> length byProject then Inl Snapshot_outside
     else
     case Option.bind (primary_entry (mw_entries workspace)) (\<lambda>e. map_of byProject (we_projectId e)) of
       Some base \<Rightarrow> Inr \<lparr>gn_reviewBaseCommit = base, gn_projects = normalized\<rparr>
     | None \<Rightarrow> Inl Snapshot_missing)))"

definition validateCandidateGitSnapshot :: "string \<Rightarrow> git_snapshot \<Rightarrow> managed_workspace \<Rightarrow> candidate_error option" where
  "validateCandidateGitSnapshot cwd snapshot workspace = first_error
     [failure (cand_field KF_reviewBase (requireCommit (gn_reviewBaseCommit snapshot))),
      (case createCandidateGitSnapshot cwd workspace (gn_projects snapshot) of
         Inl e \<Rightarrow> Some e
       | Inr normalized \<Rightarrow> reject (normalized \<noteq> snapshot) Snapshot_differs)]"

fun main_projects_error :: "string list \<Rightarrow> main_project list \<Rightarrow> candidate_error option" where
  "main_projects_error seen [] = None"
| "main_projects_error seen (p # ps) =
     (case cand_field KF_project (requireIdentity (mp_projectId p)) of
        Inl e \<Rightarrow> Some e
      | Inr projectId \<Rightarrow> first_error
          [reject (projectId \<in> set seen) Main_duplicated,
           failure (cand_field KF_directory (requireText (mp_directory p))),
           failure (cand_field KF_branch (requireText (mp_branch p))),
           failure (cand_field KF_base (requireCommit (mp_baseCommit p))),
           failure (cand_field KF_head (requireCommit (mp_headCommit p))),
           main_projects_error (projectId # seen) ps])"

definition validateDirectTaskMainSnapshot :: "main_snapshot \<Rightarrow> candidate_error + main_snapshot" where
  "validateDirectTaskMainSnapshot snapshot = check
     [reject (ms_projects snapshot = []) Main_empty, main_projects_error [] (ms_projects snapshot)] snapshot"

definition head_pair :: "string \<times> string \<Rightarrow> candidate_error + string \<times> string" where
  "head_pair h =
     bind_result (cand_field KF_project (requireIdentity (fst h))) (\<lambda>projectId.
     bind_result (cand_field KF_head (requireCommit (snd h))) (\<lambda>headCommit. Inr (projectId, headCommit)))"

definition main_project_of :: "(string \<times> string) list \<Rightarrow> project_entry \<Rightarrow> candidate_error + main_project" where
  "main_project_of headByProject entry =
     (if we_access entry \<noteq> Access_write then Inl Main_not_writable
      else case map_of headByProject (we_projectId entry) of
        None \<Rightarrow> Inl Main_head_missing
      | Some headCommit \<Rightarrow> Inr \<lparr>mp_projectId = we_projectId entry, mp_directory = we_directory entry,
          mp_branch = we_branch entry, mp_baseCommit = we_baseCommit entry, mp_headCommit = headCommit\<rparr>)"

definition createDirectTaskMainSnapshot ::
  "string \<Rightarrow> managed_workspace \<Rightarrow> string list \<Rightarrow> (string \<times> string) list \<Rightarrow> candidate_error + main_snapshot" where
  "createDirectTaskMainSnapshot cwd workspace projectIds heads =
     bind_result (map_error Cand_workspace (validateManagedWorkspace cwd workspace)) (\<lambda>_.
     if \<not> owned_by_task (mw_owner workspace) then Inl Main_owner
     else
     bind_result (cand_field KF_project (normalizedUniqueIdentities projectIds)) (\<lambda>selected.
     bind_result (map_result head_pair heads) (\<lambda>headByProject.
     if \<not> distinct (map fst headByProject) then Inl Main_duplicated
     else
     bind_result (map_result (main_project_of headByProject)
        (filter (\<lambda>e. we_projectId e \<in> set selected) (mw_entries workspace))) (\<lambda>projects.
     if length projects \<noteq> length selected \<or> length projects \<noteq> length headByProject then Inl Main_scope
     else validateDirectTaskMainSnapshot \<lparr>ms_projects = projects\<rparr>))))"

subsection \<open>Validation of candidates\<close>

fun artifacts_error :: "string \<Rightarrow> (string \<times> string) list \<Rightarrow> artifact_ref list \<Rightarrow> candidate_error option" where
  "artifacts_error taskId seen [] = None"
| "artifacts_error taskId seen (r # rs) =
     (case validateGitArtifactRef r of
        Inl e \<Rightarrow> Some (Cand_artifact e)
      | Inr valid \<Rightarrow>
          if ar_taskId valid \<noteq> taskId then Some Cand_artifact_scope
          else if (ar_commit valid, ar_relativePath valid) \<in> set seen then Some Cand_artifact_scope
          else artifacts_error taskId ((ar_commit valid, ar_relativePath valid) # seen) rs)"

definition contract_error :: "work_candidate \<Rightarrow> final_review_contract \<Rightarrow> candidate_error option" where
  "contract_error c value =
     (case cand_field KF_contract (validateTaskFinalReviewContract value) of
        Inl e \<Rightarrow> Some e
      | Inr contract \<Rightarrow>
          if fr_taskId contract \<noteq> wc_taskId c then Some Contract_of_other_task
          else case cand_field KF_contract (taskFinalReviewConfig contract) of
            Inl e \<Rightarrow> Some e
          | Inr policy \<Rightarrow> reject (wc_reviewPolicy c \<noteq> Some policy) Contract_policy_differs)"

definition snapshots_error :: "string \<Rightarrow> work_candidate \<Rightarrow> candidate_error option" where
  "snapshots_error cwd c = first_error
     [when_some (wc_workspace c) (\<lambda>w. first_error
        [failure (map_error Cand_workspace (validateManagedWorkspace cwd w)),
         reject (mw_owner w \<noteq> Owner_work_item (wc_taskId c) (wc_workItemId c)) Cand_workspace_owner]),
      when_some (wc_gitSnapshot c) (\<lambda>s. case wc_workspace c of
        None \<Rightarrow> Some Snapshot_without_workspace
      | Some w \<Rightarrow> validateCandidateGitSnapshot cwd s w),
      when_some (wc_taskMainSnapshot c) (\<lambda>s. first_error
        [reject (wc_workspace c \<noteq> None \<or> wc_gitSnapshot c \<noteq> None \<or> wc_contract c = None) Main_not_exact,
         failure (validateDirectTaskMainSnapshot s)])]"

definition validateWorkItemCandidate :: "string \<Rightarrow> work_candidate \<Rightarrow> candidate_error + work_candidate" where
  "validateWorkItemCandidate cwd c = check
     [failure (cand_field KF_task (requireIdentity (wc_taskId c))),
      failure (map_error Cand_reference (validateTaskRecordReference (task_reference (wc_taskId c) (wc_workItemId c)) K_workItem)),
      reject (wc_id c \<noteq> ''candidate-'' @ show_int (wc_sequence c)) Cand_id_invalid,
      reject (\<not> isSafeInteger (wc_sequence c) \<or> wc_sequence c < 1) Cand_sequence_invalid,
      reject (\<not> isSafeInteger (wc_workItemRevision c) \<or> wc_workItemRevision c < 1) Cand_revision_invalid,
      failure (cand_field KF_summary (requireText (wc_summary c))),
      when_some (wc_artifactRefs c) (artifacts_error (wc_taskId c) []),
      (case wc_source c of
         Direct_source \<Rightarrow> None
       | Run_source runId \<Rightarrow>
           failure (map_error Cand_reference (validateTaskRecordReference (task_reference (wc_taskId c) runId) K_run))),
      reject ((wc_executionGroupId c = None) \<noteq> (wc_executionLaneId c = None)) Cand_lineage_incomplete,
      when_some (wc_executionGroupId c) (\<lambda>g. failure (cand_field KF_group (requireIdentity g))),
      when_some (wc_executionLaneId c) (\<lambda>l. failure (cand_field KF_lane (requireIdentity l))),
      when_some (wc_reviewPolicy c) (\<lambda>p. failure (cand_field KF_policy (validateReviewConfig p))),
      when_some (wc_contract c) (contract_error c),
      snapshots_error cwd c,
      failure (cand_field KF_createdAt (requireTimestamp (wc_createdAt c)))] c"

end
