(* ===== verification/Work_Item_Execution.thy ===== *)
theory Work_Item_Execution
  imports Task_Activation "HOL-Library.List_Lexorder"
begin

text \<open>
  Replicated executions (\<open>src/src/execution/workItemExecution.ts\<close>): a frozen Assignment, the Lanes
  that work on it, and the transitions of a Lane; with the reference to a context snapshot
  (\<open>ContextSnapshotRef\<close> of \<open>src/src/context/contextSnapshot.ts\<close>).

  The launch snapshot of a Lane (\<open>src/src/executor/effectiveLaunch.ts\<close>) is a parameter of the
  model: its type is \<open>'l\<close>, and \<open>launch_port\<close> gives its validator and its write scope, the only two
  things this code uses of it. \<open>sort\<close> is the order by code units, as \<open>Array.prototype.sort\<close> has it,
  and \<open>isDeepStrictEqual\<close> on typed values is equality.
\<close>

subsection \<open>Assignments\<close>

record project_base =
  pb_projectId :: string
  pb_baseCommit :: string

record dependency_fact =
  df_workItemId :: string
  df_revision :: int

datatype context_scope = Ctx_task | Ctx_workitem | Ctx_stage

record context_ref =
  cx_id :: string
  cx_taskId :: string
  cx_scope :: context_scope
  cx_scopeRef :: "string option"
  cx_sequence :: int
  cx_digest :: string

record work_assignment =
  wa_input :: string
  wa_objective :: string
  wa_acceptance :: "string list"
  wa_contextSnapshotRef :: context_ref
  wa_taskId :: string
  wa_workItemId :: string
  wa_workItemRevision :: int
  wa_projects :: "project_base list"
  wa_dependencyFacts :: "dependency_fact list"

datatype review_scope = Review_of_work_item | Review_of_task

record review_assignment =
  ra_input :: string
  ra_objective :: string
  ra_acceptance :: "string list"
  ra_contextSnapshotRef :: context_ref
  ra_taskId :: string
  ra_reviewRoundId :: string
  ra_reviewBaseCommit :: string
  ra_scope :: review_scope
  ra_workItemId :: "string option"
  ra_candidateId :: "string option"
  ra_projects :: "project_base list"

datatype execution_assignment = Work_assignment work_assignment | Review_assignment review_assignment

fun assignment_taskId :: "execution_assignment \<Rightarrow> string" where
  "assignment_taskId (Work_assignment a) = wa_taskId a"
| "assignment_taskId (Review_assignment a) = ra_taskId a"

fun assignment_projects :: "execution_assignment \<Rightarrow> project_base list" where
  "assignment_projects (Work_assignment a) = wa_projects a"
| "assignment_projects (Review_assignment a) = ra_projects a"

subsection \<open>Lanes and Groups\<close>

datatype lane_disposition = Lane_open | Lane_succeeded | Lane_failed

record lane_workspace =
  lw_root :: string
  lw_writableProjectIds :: "string list"

record 'l execution_lane =
  el_id :: string
  el_groupId :: string
  el_ordinal :: int
  el_roleName :: string
  el_effective :: "'l option"
  el_workspace :: "lane_workspace option"
  el_currentRunId :: "string option"
  el_successfulRunId :: "string option"
  el_disposition :: lane_disposition
  el_createdAt :: string
  el_updatedAt :: string
  el_endedAt :: "string option"

record 'l execution_group =
  eg_id :: string
  eg_taskId :: string
  eg_assignment :: execution_assignment
  eg_lanes :: "'l execution_lane list"
  eg_createdAt :: string
  eg_updatedAt :: string

record 'l lane_input =
  li_roleName :: string
  li_effective :: "'l option"
  li_workspace :: "lane_workspace option"
  li_currentRunId :: "string option"

record 'l lane_patch =
  lp_currentRunId :: "string option"
  lp_successfulRunId :: "string option"
  lp_disposition :: "lane_disposition option"
  lp_effective :: "'l option"
  lp_workspace :: "lane_workspace option"

record 'l launch_port =
  launch_valid :: "'l \<Rightarrow> bool"
  launch_writeProjectIds :: "'l \<Rightarrow> string list"

datatype execution_field =
    XF_input | XF_objective | XF_acceptance | XF_task | XF_workItem | XF_revision | XF_project | XF_baseCommit
  | XF_dependency | XF_dependencyRevision | XF_round | XF_reviewBase | XF_candidate | XF_group | XF_lane | XF_role
  | XF_workspaceRoot | XF_writable | XF_currentRun | XF_successfulRun | XF_createdAt | XF_updatedAt | XF_endedAt
  | XF_snapshot | XF_snapshotTask | XF_scopeRef | XF_sequence

datatype execution_error =
    Exec_field execution_field field_error
  | Snapshot_scope_invalid | Snapshot_digest_invalid | Task_review_with_candidate | Projects_invalid
  | Assignment_of_other_task | Too_few_lanes | Too_many_lanes | Lane_group_mismatch | Lane_ordinal_invalid
  | Launch_facts_incomplete | Launch_snapshot_invalid | Dispatched_without_launch | Success_without_run
  | Run_without_success | Open_lane_ended | Lane_scope_differs | Lane_duplicated | Lane_role_duplicated
  | Group_updated_before_created | Lane_not_found | Lane_terminal | Group_identity_changed | Group_time_backwards
  | Lane_identity_changed | Lane_not_prepared | Not_a_work_item_assignment

abbreviation exec_check :: "execution_field \<Rightarrow> field_error + 'a \<Rightarrow> execution_error option" where
  "exec_check l r \<equiv> map_option (Exec_field l) (failure r)"

definition minimum_lanes :: nat where
  "minimum_lanes = 2"

definition maximum_synthesis_results :: nat where
  "maximum_synthesis_results = 8"

subsection \<open>Validation\<close>

text \<open>This file's \<open>requireCommit\<close> takes exactly 40 lower-case digits.\<close>

definition requireExactCommit :: "string \<Rightarrow> field_error + string" where
  "requireExactCommit value =
     bind_result (requireText value) (\<lambda>normalized.
       if all_hex normalized \<and> length normalized = 40 then Inr normalized else Inl Invalid)"

definition validateContextSnapshotRef :: "context_ref \<Rightarrow> execution_error option" where
  "validateContextSnapshotRef r = first_error
     [exec_check XF_snapshot (requireIdentity (cx_id r)),
      exec_check XF_snapshotTask (requireIdentity (cx_taskId r)),
      exec_check XF_scopeRef (optionalText (cx_scopeRef r)),
      reject (cx_scope r = Ctx_task \<and> cx_scopeRef r \<noteq> None) Snapshot_scope_invalid,
      reject (cx_scope r \<noteq> Ctx_task \<and> cx_scopeRef r = None) Snapshot_scope_invalid,
      exec_check XF_sequence (requirePositiveInteger (cx_sequence r)),
      reject (\<not> is_digest (cx_digest r)) Snapshot_digest_invalid]"

definition project_error :: "project_base \<Rightarrow> execution_error option" where
  "project_error p = first_error
     [exec_check XF_project (requireIdentity (pb_projectId p)),
      exec_check XF_baseCommit (requireExactCommit (pb_baseCommit p))]"

definition dependency_error :: "dependency_fact \<Rightarrow> execution_error option" where
  "dependency_error d = first_error
     [exec_check XF_dependency (requireIdentity (df_workItemId d)),
      exec_check XF_dependencyRevision (requirePositiveInteger (df_revision d))]"

definition validateWorkItemExecutionAssignment :: "work_assignment \<Rightarrow> execution_error option" where
  "validateWorkItemExecutionAssignment a = first_error
     [exec_check XF_input (requireText (wa_input a)),
      exec_check XF_objective (requireText (wa_objective a)),
      exec_check XF_acceptance (normalizedUniqueText (wa_acceptance a)),
      validateContextSnapshotRef (wa_contextSnapshotRef a),
      exec_check XF_task (requireIdentity (wa_taskId a)),
      exec_check XF_workItem (requireIdentity (wa_workItemId a)),
      exec_check XF_revision (requirePositiveInteger (wa_workItemRevision a)),
      first_error (map project_error (wa_projects a)),
      exec_check XF_project (normalizedUniqueIdentities (map pb_projectId (wa_projects a))),
      first_error (map dependency_error (wa_dependencyFacts a)),
      exec_check XF_dependency (normalizedUniqueIdentities (map df_workItemId (wa_dependencyFacts a)))]"

definition validateExecutionProjects :: "project_base list \<Rightarrow> execution_error option" where
  "validateExecutionProjects ps = first_error
     [reject (ps = []) Projects_invalid,
      first_error (map project_error ps),
      exec_check XF_project (normalizedUniqueIdentities (map pb_projectId ps))]"

definition validateReviewExecutionAssignment :: "review_assignment \<Rightarrow> execution_error option" where
  "validateReviewExecutionAssignment a = first_error
     [exec_check XF_input (requireText (ra_input a)),
      exec_check XF_objective (requireText (ra_objective a)),
      exec_check XF_acceptance (normalizedUniqueText (ra_acceptance a)),
      validateContextSnapshotRef (ra_contextSnapshotRef a),
      exec_check XF_task (requireIdentity (ra_taskId a)),
      exec_check XF_round (requireIdentity (ra_reviewRoundId a)),
      exec_check XF_reviewBase (requireExactCommit (ra_reviewBaseCommit a)),
      (if ra_scope a = Review_of_work_item then first_error
         [exec_check XF_workItem (requireIdentity (case ra_workItemId a of None \<Rightarrow> [] | Some i \<Rightarrow> i)),
          exec_check XF_candidate (requireIdentity (case ra_candidateId a of None \<Rightarrow> [] | Some i \<Rightarrow> i))]
       else reject (ra_workItemId a \<noteq> None \<or> ra_candidateId a \<noteq> None) Task_review_with_candidate),
      validateExecutionProjects (ra_projects a)]"

fun validateExecutionAssignment :: "execution_assignment \<Rightarrow> execution_error option" where
  "validateExecutionAssignment (Work_assignment a) = validateWorkItemExecutionAssignment a"
| "validateExecutionAssignment (Review_assignment a) = validateReviewExecutionAssignment a"

definition createWorkItemExecutionAssignment :: "work_assignment \<Rightarrow> execution_error + work_assignment" where
  "createWorkItemExecutionAssignment a = check [validateWorkItemExecutionAssignment a] a"

definition createReviewExecutionAssignment :: "review_assignment \<Rightarrow> execution_error + review_assignment" where
  "createReviewExecutionAssignment a = check [validateReviewExecutionAssignment a] a"

definition lane_outcome_error :: "'l execution_lane \<Rightarrow> execution_error option" where
  "lane_outcome_error l =
     (if el_disposition l = Lane_succeeded
      then reject (el_currentRunId l = None \<or> el_successfulRunId l \<noteq> el_currentRunId l) Success_without_run
      else reject (el_successfulRunId l \<noteq> None) Run_without_success)"

definition validateWorkItemExecutionLane ::
  "'l launch_port \<Rightarrow> 'l execution_lane \<Rightarrow> string \<Rightarrow> int \<Rightarrow> execution_error option" where
  "validateWorkItemExecutionLane port l groupId ordinal = first_error
     [exec_check XF_lane (requireIdentity (el_id l)),
      reject (el_groupId l \<noteq> groupId) Lane_group_mismatch,
      reject (el_ordinal l \<noteq> ordinal) Lane_ordinal_invalid,
      exec_check XF_role (requireIdentity (el_roleName l)),
      reject ((el_effective l = None) \<noteq> (el_workspace l = None)) Launch_facts_incomplete,
      when_some (el_effective l) (\<lambda>e. reject (\<not> launch_valid port e) Launch_snapshot_invalid),
      when_some (el_workspace l) (\<lambda>w. exec_check XF_workspaceRoot (requireText (lw_root w))),
      when_some (el_workspace l) (\<lambda>w. exec_check XF_writable (normalizedUniqueIdentities (lw_writableProjectIds w))),
      reject (el_currentRunId l \<noteq> None \<and> el_effective l = None) Dispatched_without_launch,
      when_some (el_currentRunId l) (\<lambda>r. exec_check XF_currentRun (requireIdentity r)),
      when_some (el_successfulRunId l) (\<lambda>r. exec_check XF_successfulRun (requireIdentity r)),
      lane_outcome_error l,
      exec_check XF_createdAt (requireTimestamp (el_createdAt l)),
      exec_check XF_updatedAt (requireTimestamp (el_updatedAt l)),
      (if el_disposition l = Lane_open then reject (el_endedAt l \<noteq> None) Open_lane_ended
       else exec_check XF_endedAt (requireTimestamp (case el_endedAt l of None \<Rightarrow> [] | Some t \<Rightarrow> t)))]"

definition lane_scope_ok :: "'l launch_port \<Rightarrow> string list \<Rightarrow> 'l execution_lane \<Rightarrow> bool" where
  "lane_scope_ok port projectIds l =
     (case (el_workspace l, el_effective l) of
        (Some w, Some e) \<Rightarrow> sort (lw_writableProjectIds w) = projectIds \<and> sort (launch_writeProjectIds port e) = projectIds
      | _ \<Rightarrow> True)"

fun lanes_error ::
  "'l launch_port \<Rightarrow> string \<Rightarrow> string list \<Rightarrow> int \<Rightarrow> string list \<Rightarrow> string list \<Rightarrow> 'l execution_lane list \<Rightarrow> execution_error option" where
  "lanes_error port groupId projectIds ordinal ids roles [] = None"
| "lanes_error port groupId projectIds ordinal ids roles (l # ls) = first_error
     [validateWorkItemExecutionLane port l groupId ordinal,
      reject (\<not> lane_scope_ok port projectIds l) Lane_scope_differs,
      reject (el_id l \<in> set ids) Lane_duplicated,
      reject (el_roleName l \<in> set roles) Lane_role_duplicated,
      lanes_error port groupId projectIds (ordinal + 1) (el_id l # ids) (el_roleName l # roles) ls]"

definition validateExecutionGroup :: "'l launch_port \<Rightarrow> 'l execution_group \<Rightarrow> execution_error + 'l execution_group" where
  "validateExecutionGroup port g = check
     [exec_check XF_group (requireIdentity (eg_id g)),
      exec_check XF_task (requireIdentity (eg_taskId g)),
      validateExecutionAssignment (eg_assignment g),
      reject (assignment_taskId (eg_assignment g) \<noteq> eg_taskId g) Assignment_of_other_task,
      reject (length (eg_lanes g) < minimum_lanes) Too_few_lanes,
      reject (length (eg_lanes g) > maximum_synthesis_results) Too_many_lanes,
      lanes_error port (eg_id g) (sort (map pb_projectId (assignment_projects (eg_assignment g)))) 1 [] [] (eg_lanes g),
      exec_check XF_createdAt (requireTimestamp (eg_createdAt g)),
      exec_check XF_updatedAt (requireTimestamp (eg_updatedAt g)),
      reject (date_less (eg_updatedAt g) (eg_createdAt g)) Group_updated_before_created] g"

definition validateWorkItemExecutionGroup ::
  "'l launch_port \<Rightarrow> 'l execution_group \<Rightarrow> execution_error + 'l execution_group" where
  "validateWorkItemExecutionGroup port g =
     bind_result (validateExecutionGroup port g) (\<lambda>_.
     check
       [(case eg_assignment g of Work_assignment a \<Rightarrow> validateWorkItemExecutionAssignment a
         | Review_assignment _ \<Rightarrow> Some Not_a_work_item_assignment),
        reject (\<exists>l \<in> set (eg_lanes g). el_effective l = None \<or> el_workspace l = None) Lane_not_prepared] g)"

subsection \<open>Transitions\<close>

definition launch_facts_changed :: "'l execution_lane \<Rightarrow> 'l execution_lane \<Rightarrow> bool" where
  "launch_facts_changed l n =
     (if el_effective l = None then (el_effective n = None) \<noteq> (el_workspace n = None)
      else el_effective l \<noteq> el_effective n \<or> el_workspace l \<noteq> el_workspace n)"

definition lane_transition_error :: "'l execution_lane \<Rightarrow> 'l execution_lane \<Rightarrow> execution_error option" where
  "lane_transition_error l n = first_error
     [reject (el_id l \<noteq> el_id n \<or> el_groupId l \<noteq> el_groupId n \<or> el_ordinal l \<noteq> el_ordinal n
        \<or> el_roleName l \<noteq> el_roleName n \<or> el_createdAt l \<noteq> el_createdAt n \<or> launch_facts_changed l n)
        Lane_identity_changed,
      reject (el_disposition l \<noteq> Lane_open \<and> l \<noteq> n) Lane_terminal]"

definition assertExecutionGroupTransition ::
  "'l launch_port \<Rightarrow> 'l execution_group \<Rightarrow> 'l execution_group \<Rightarrow> execution_error option" where
  "assertExecutionGroupTransition port existing candidate = first_error
     [failure (validateExecutionGroup port existing),
      failure (validateExecutionGroup port candidate),
      (if existing = candidate then None else first_error
        [reject (eg_id existing \<noteq> eg_id candidate \<or> eg_taskId existing \<noteq> eg_taskId candidate
           \<or> eg_createdAt existing \<noteq> eg_createdAt candidate \<or> eg_assignment existing \<noteq> eg_assignment candidate
           \<or> length (eg_lanes existing) \<noteq> length (eg_lanes candidate)) Group_identity_changed,
         reject (date_less (eg_updatedAt candidate) (eg_updatedAt existing)) Group_time_backwards,
         first_error (map2 lane_transition_error (eg_lanes existing) (eg_lanes candidate))])]"

definition assertWorkItemExecutionGroupTransition ::
  "'l launch_port \<Rightarrow> 'l execution_group \<Rightarrow> 'l execution_group \<Rightarrow> execution_error option" where
  "assertWorkItemExecutionGroupTransition port existing candidate = first_error
     [failure (validateWorkItemExecutionGroup port existing),
      failure (validateWorkItemExecutionGroup port candidate),
      assertExecutionGroupTransition port existing candidate]"

definition new_lane :: "string \<Rightarrow> string \<Rightarrow> nat \<Rightarrow> 'l lane_input \<Rightarrow> 'l execution_lane" where
  "new_lane groupId timestamp index input =
     \<lparr>el_id = groupId @ ''-lane-'' @ show_nat (index + 1), el_groupId = groupId, el_ordinal = int index + 1,
      el_roleName = li_roleName input, el_effective = li_effective input, el_workspace = li_workspace input,
      el_currentRunId = li_currentRunId input, el_successfulRunId = None, el_disposition = Lane_open,
      el_createdAt = timestamp, el_updatedAt = timestamp, el_endedAt = None\<rparr>"

definition createExecutionGroup ::
  "'l launch_port \<Rightarrow> string \<Rightarrow> string \<Rightarrow> execution_assignment \<Rightarrow> 'l lane_input list \<Rightarrow> time
     \<Rightarrow> execution_error + 'l execution_group" where
  "createExecutionGroup port i taskId assignment laneInputs now =
     (if length laneInputs < minimum_lanes then Inl Too_few_lanes
      else if length laneInputs > maximum_synthesis_results then Inl Too_many_lanes
      else
      bind_result (map_error (Exec_field XF_group) (requireIdentity i)) (\<lambda>groupId.
      bind_result (map_error (Exec_field XF_task) (requireIdentity taskId)) (\<lambda>task.
      case validateExecutionAssignment assignment of Some e \<Rightarrow> Inl e | None \<Rightarrow>
      if assignment_taskId assignment \<noteq> task then Inl Assignment_of_other_task
      else validateExecutionGroup port
        \<lparr>eg_id = groupId, eg_taskId = task, eg_assignment = assignment,
         eg_lanes = map2 (new_lane groupId (toISOString now)) [0..<length laneInputs] laneInputs,
         eg_createdAt = toISOString now, eg_updatedAt = toISOString now\<rparr>)))"

definition createWorkItemExecutionGroup ::
  "'l launch_port \<Rightarrow> string \<Rightarrow> string \<Rightarrow> work_assignment \<Rightarrow> 'l lane_input list \<Rightarrow> time
     \<Rightarrow> execution_error + 'l execution_group" where
  "createWorkItemExecutionGroup port i taskId assignment laneInputs now =
     bind_result (createExecutionGroup port i taskId (Work_assignment assignment) laneInputs now)
       (validateWorkItemExecutionGroup port)"

definition or_else :: "'a option \<Rightarrow> 'a option \<Rightarrow> 'a option" where
  "or_else v w = (case v of None \<Rightarrow> w | Some x \<Rightarrow> Some x)"

definition patched_lane :: "'l execution_lane \<Rightarrow> 'l lane_patch \<Rightarrow> string \<Rightarrow> 'l execution_lane" where
  "patched_lane current patch timestamp =
     (let disposition = (case lp_disposition patch of None \<Rightarrow> el_disposition current | Some d \<Rightarrow> d) in
      current\<lparr>el_effective := or_else (lp_effective patch) (el_effective current),
        el_workspace := or_else (lp_workspace patch) (el_workspace current),
        el_currentRunId := or_else (lp_currentRunId patch) (el_currentRunId current),
        el_successfulRunId := or_else (lp_successfulRunId patch) (el_successfulRunId current),
        el_disposition := disposition, el_updatedAt := timestamp,
        el_endedAt := (if disposition = Lane_open then el_endedAt current else Some timestamp)\<rparr>)"

definition lane_index :: "string \<Rightarrow> 'l execution_lane list \<Rightarrow> nat option" where
  "lane_index laneId lanes = indexOf laneId (map el_id lanes)"

definition updateExecutionLane ::
  "'l launch_port \<Rightarrow> 'l execution_group \<Rightarrow> string \<Rightarrow> 'l lane_patch \<Rightarrow> time \<Rightarrow> execution_error + 'l execution_group" where
  "updateExecutionLane port g laneId patch now =
     bind_result (validateExecutionGroup port g) (\<lambda>_.
     case lane_index laneId (eg_lanes g) of
       None \<Rightarrow> Inl Lane_not_found
     | Some index \<Rightarrow>
         let current = eg_lanes g ! index; updated = patched_lane current patch (toISOString now) in
         if el_disposition current \<noteq> Lane_open then Inl Lane_terminal
         else if (el_effective updated = None) \<noteq> (el_workspace updated = None) then Inl Launch_facts_incomplete
         else if el_disposition updated = Lane_succeeded
              \<and> (el_successfulRunId updated = None \<or> el_successfulRunId updated \<noteq> el_currentRunId updated)
         then Inl Success_without_run
         else if el_disposition updated \<noteq> Lane_succeeded \<and> el_successfulRunId updated \<noteq> None then Inl Run_without_success
         else bind_result (validateExecutionGroup port (g\<lparr>eg_lanes := (eg_lanes g)[index := updated],
                eg_updatedAt := toISOString now\<rparr>)) (\<lambda>candidate.
              case assertExecutionGroupTransition port g candidate of Some e \<Rightarrow> Inl e | None \<Rightarrow> Inr candidate))"

definition updateWorkItemExecutionLane ::
  "'l launch_port \<Rightarrow> 'l execution_group \<Rightarrow> string \<Rightarrow> 'l lane_patch \<Rightarrow> time \<Rightarrow> execution_error + 'l execution_group" where
  "updateWorkItemExecutionLane port g laneId patch now =
     bind_result (updateExecutionLane port g laneId patch now) (validateWorkItemExecutionGroup port)"

definition reopened_lane :: "string \<Rightarrow> 'l execution_lane \<Rightarrow> 'l execution_lane" where
  "reopened_lane timestamp l =
     (if el_disposition l \<noteq> Lane_failed then l
      else l\<lparr>el_endedAt := None, el_disposition := Lane_open, el_updatedAt := timestamp\<rparr>)"

definition retryFailedExecutionLanes ::
  "'l launch_port \<Rightarrow> 'l execution_group \<Rightarrow> time \<Rightarrow> execution_error + 'l execution_group" where
  "retryFailedExecutionLanes port g now =
     bind_result (validateExecutionGroup port g) (\<lambda>_.
     if \<not> (\<exists>l \<in> set (eg_lanes g). el_disposition l = Lane_failed) then Inr g
     else validateExecutionGroup port (g\<lparr>eg_lanes := map (reopened_lane (toISOString now)) (eg_lanes g),
            eg_updatedAt := toISOString now\<rparr>))"

definition all_settled :: "'l execution_group \<Rightarrow> bool" where
  "all_settled g = list_all (\<lambda>l. el_disposition l \<noteq> Lane_open) (eg_lanes g)"

definition executionGroupSettled :: "'l launch_port \<Rightarrow> 'l execution_group \<Rightarrow> execution_error + bool" where
  "executionGroupSettled port g = bind_result (validateExecutionGroup port g) (\<lambda>_. Inr (all_settled g))"

definition workItemExecutionGroupSettled :: "'l launch_port \<Rightarrow> 'l execution_group \<Rightarrow> execution_error + bool" where
  "workItemExecutionGroupSettled port g =
     bind_result (validateWorkItemExecutionGroup port g) (\<lambda>_. executionGroupSettled port g)"

record 'l lane_summary =
  ls_laneId :: string
  ls_roleName :: string
  ls_ordinal :: int
  ls_disposition :: lane_disposition
  ls_currentRunId :: "string option"
  ls_successfulRunId :: "string option"
  ls_effective :: "'l option"

record 'l group_summary =
  gs_groupId :: string
  gs_laneCount :: nat
  gs_openLaneCount :: nat
  gs_succeededLaneCount :: nat
  gs_failedLaneCount :: nat
  gs_laneSummaries :: "'l lane_summary list"

definition lanes_with :: "lane_disposition \<Rightarrow> 'l execution_group \<Rightarrow> 'l execution_lane list" where
  "lanes_with d g = filter (\<lambda>l. el_disposition l = d) (eg_lanes g)"

definition summarizeExecutionGroup :: "'l launch_port \<Rightarrow> 'l execution_group \<Rightarrow> execution_error + 'l group_summary" where
  "summarizeExecutionGroup port g =
     bind_result (validateExecutionGroup port g) (\<lambda>_. Inr
       \<lparr>gs_groupId = eg_id g, gs_laneCount = length (eg_lanes g),
        gs_openLaneCount = length (lanes_with Lane_open g),
        gs_succeededLaneCount = length (lanes_with Lane_succeeded g),
        gs_failedLaneCount = length (lanes_with Lane_failed g),
        gs_laneSummaries = map (\<lambda>l. \<lparr>ls_laneId = el_id l, ls_roleName = el_roleName l, ls_ordinal = el_ordinal l,
          ls_disposition = el_disposition l, ls_currentRunId = el_currentRunId l,
          ls_successfulRunId = el_successfulRunId l, ls_effective = el_effective l\<rparr>) (eg_lanes g)\<rparr>)"

subsection \<open>Validity, identity and progress\<close>

definition group_valid :: "'l launch_port \<Rightarrow> 'l execution_group \<Rightarrow> bool" where
  "group_valid port g \<longleftrightarrow> validateExecutionGroup port g = Inr g"

lemma validateExecutionGroup_Inr [transition]:
  "validateExecutionGroup port g = Inr h \<longleftrightarrow> h = g \<and> group_valid port g"
  by (auto simp: validateExecutionGroup_def group_valid_def check_Inr)

lemma lanes_error_None:
  "lanes_error port gid ps k ids roles ls = None \<longleftrightarrow>
     (\<forall>i < length ls. validateWorkItemExecutionLane port (ls ! i) gid (k + int i) = None \<and> lane_scope_ok port ps (ls ! i)) \<and>
     distinct (map el_id ls) \<and> set (map el_id ls) \<inter> set ids = {} \<and>
     distinct (map el_roleName ls) \<and> set (map el_roleName ls) \<inter> set roles = {}"
proof (induction ls arbitrary: k ids roles)
  case (Cons l ls)
  have sh: "(\<forall>i < length (l # ls). P ((l # ls) ! i) (k + int i)) \<longleftrightarrow> P l k \<and> (\<forall>i < length ls. P (ls ! i) (k + 1 + int i))"
    for P :: "_ \<Rightarrow> int \<Rightarrow> bool"
    by (simp add: All_less_Suc2 add.assoc)
  show ?case
    unfolding lanes_error.simps first_error_Cons_None Cons.IH sh
      [where P = "\<lambda>l j. validateWorkItemExecutionLane port l gid j = None \<and> lane_scope_ok port ps l"]
    by auto
qed simp

lemma group_valid_lanes:
  assumes "group_valid port g"
  shows "distinct (map el_id (eg_lanes g))" "distinct (map el_roleName (eg_lanes g))"
    "2 \<le> length (eg_lanes g)" "length (eg_lanes g) \<le> 8"
  using assms by (auto simp: group_valid_def validateExecutionGroup_def check_Inr lanes_error_None minimum_lanes_def
      maximum_synthesis_results_def)

definition lane_identity :: "'l execution_lane \<Rightarrow> _" where
  "lane_identity l = (el_id l, el_groupId l, el_ordinal l, el_roleName l, el_createdAt l)"

definition group_identity :: "'l execution_group \<Rightarrow> _" where
  "group_identity g = (eg_id g, eg_taskId g, eg_assignment g, eg_createdAt g, map lane_identity (eg_lanes g))"

text \<open>A succeeded Lane is final and the launch facts of a Lane are set once.\<close>

definition lane_below :: "'l execution_lane \<Rightarrow> 'l execution_lane \<Rightarrow> bool" where
  "lane_below l n \<longleftrightarrow> (el_disposition l = Lane_succeeded \<longrightarrow> n = l) \<and>
     (el_effective l \<noteq> None \<longrightarrow> el_effective n = el_effective l \<and> el_workspace n = el_workspace l)"

definition group_below :: "'l execution_group \<Rightarrow> 'l execution_group \<Rightarrow> bool" where
  "group_below g h \<longleftrightarrow> list_all2 lane_below (eg_lanes g) (eg_lanes h)"

lemma first_error_map2:
  "first_error (map2 f xs ys) = None \<Longrightarrow> length xs = length ys \<Longrightarrow> list_all2 (\<lambda>x y. f x y = None) xs ys"
  by (auto simp: first_error_None list_all2_iff)

lemma lane_transition:
  "lane_transition_error l n = None \<Longrightarrow> lane_identity n = lane_identity l \<and> lane_below l n"
  by (auto simp: lane_transition_error_def lane_identity_def lane_below_def launch_facts_changed_def split: if_splits)

lemma transition_ok:
  assumes "assertExecutionGroupTransition port g h = None"
  shows "group_identity h = group_identity g \<and> group_below g h"
proof (cases "g = h")
  case True
  then show ?thesis by (auto simp: group_below_def list_all2_same lane_below_def)
next
  case False
  with assms have e: "eg_id g = eg_id h" "eg_taskId g = eg_taskId h" "eg_createdAt g = eg_createdAt h"
    "eg_assignment g = eg_assignment h" "length (eg_lanes g) = length (eg_lanes h)"
    "first_error (map2 lane_transition_error (eg_lanes g) (eg_lanes h)) = None"
    by (simp_all add: assertExecutionGroupTransition_def)
  from first_error_map2 [OF e(6,5)]
  have l: "list_all2 (\<lambda>l n. lane_identity n = lane_identity l \<and> lane_below l n) (eg_lanes g) (eg_lanes h)"
    by (rule list_all2_mono) (rule lane_transition)
  then have "map lane_identity (eg_lanes h) = map lane_identity (eg_lanes g)"
    by (intro nth_equalityI) (auto simp: list_all2_conv_all_nth)
  moreover have "list_all2 lane_below (eg_lanes g) (eg_lanes h)" using l by (rule list_all2_mono) simp
  ultimately show ?thesis using e by (simp add: group_identity_def group_below_def)
qed

datatype 'l execution_command = Update_lane string "'l lane_patch" | Retry_failed

fun execution_step ::
  "'l launch_port \<Rightarrow> time \<times> 'l execution_command \<Rightarrow> 'l execution_group \<Rightarrow> execution_error + 'l execution_group" where
  "execution_step port (now, Update_lane i p) g = updateExecutionLane port g i p now"
| "execution_step port (now, Retry_failed) g = retryFailedExecutionLanes port g now"

lemma reopened_lane_below: "lane_identity (reopened_lane t l) = lane_identity l \<and> lane_below l (reopened_lane t l)"
  by (simp add: reopened_lane_def lane_identity_def lane_below_def)

lemma retry_Inr:
  assumes "retryFailedExecutionLanes port g now = Inr h"
  shows "group_valid port h \<and> eg_lanes h = map (reopened_lane (toISOString now)) (eg_lanes g) \<and>
    eg_id h = eg_id g \<and> eg_taskId h = eg_taskId g \<and> eg_assignment h = eg_assignment g \<and> eg_createdAt h = eg_createdAt g"
proof (cases "\<exists>l \<in> set (eg_lanes g). el_disposition l = Lane_failed")
  case True
  with assms show ?thesis
    by (auto simp: retryFailedExecutionLanes_def bind_result_Inr validateExecutionGroup_Inr)
next
  case False
  then have "map (reopened_lane (toISOString now)) (eg_lanes g) = eg_lanes g"
    by (intro map_idI) (auto simp: reopened_lane_def)
  with False assms show ?thesis
    by (auto simp: retryFailedExecutionLanes_def bind_result_Inr validateExecutionGroup_Inr)
qed

lemma execution_step_ok:
  assumes "execution_step port (now, c) g = Inr h"
  shows "group_valid port h \<and> group_identity h = group_identity g \<and> group_below g h"
proof (cases c)
  case (Update_lane i p)
  with assms have "group_valid port h \<and> assertExecutionGroupTransition port g h = None"
    by (auto simp: updateExecutionLane_def bind_result_Inr validateExecutionGroup_Inr Let_def
        split: option.splits if_splits)
  then show ?thesis using transition_ok by blast
next
  case Retry_failed
  with assms retry_Inr [of port g now h] show ?thesis
    by (simp add: group_identity_def group_below_def list_all2_conv_all_nth reopened_lane_below)
qed

interpretation execution: identified_system "group_valid port" "execution_step port" "\<lambda>_. True" group_identity for port
proof
  fix g c h
  assume "execution_step port c g = Inr h"
  then show "group_valid port h" "group_identity h = group_identity g" using execution_step_ok by (cases c; blast)+
qed

interpretation execution_progress: ratchet_system "group_valid port" "execution_step port" "\<lambda>_. True" group_below for port
proof
  fix g c h
  assume "execution_step port c g = Inr h"
  then show "group_below g h" using execution_step_ok by (cases c) blast
next
  fix f g h :: "'a execution_group"
  assume "group_below f g" "group_below g h"
  then show "group_below f h"
    unfolding group_below_def by (rule list_all2_trans [rotated]) (auto simp: lane_below_def)
qed (simp add: group_below_def list_all2_same lane_below_def)

subsection \<open>Retrying\<close>

lemma reopened_lane_valid:
  assumes "validateWorkItemExecutionLane port l gid k = None" "valid_time now"
  shows "validateWorkItemExecutionLane port (reopened_lane (toISOString now) l) gid k = None"
  using assms by (auto simp: validateWorkItemExecutionLane_def reopened_lane_def lane_outcome_error_def split: if_splits)

lemma reopened_lane_simps [simp]:
  "el_id (reopened_lane t l) = el_id l" "el_roleName (reopened_lane t l) = el_roleName l"
  "lane_scope_ok port ps (reopened_lane t l) = lane_scope_ok port ps l"
  by (simp_all add: reopened_lane_def) (cases "el_workspace l"; cases "el_effective l"; simp add: lane_scope_ok_def)

lemma retry_total:
  assumes "group_valid port g" "valid_time now" "\<not> date_less (toISOString now) (eg_createdAt g)"
  shows "\<exists>h. retryFailedExecutionLanes port g now = Inr h"
proof -
  let ?h = "g\<lparr>eg_lanes := map (reopened_lane (toISOString now)) (eg_lanes g), eg_updatedAt := toISOString now\<rparr>"
  have "group_valid port ?h"
    using assms by (auto simp: group_valid_def validateExecutionGroup_def check_Inr lanes_error_None comp_def
        reopened_lane_valid)
  then show ?thesis
    using assms(1) by (auto simp: retryFailedExecutionLanes_def group_valid_def)
qed

lemma succeeded_reopened:
  "filter (\<lambda>l. el_disposition l = Lane_succeeded) (map (reopened_lane t) ls) =
     filter (\<lambda>l. el_disposition l = Lane_succeeded) ls"
  by (induction ls) (auto simp: reopened_lane_def)

lemma lanes_with_total:
  "length (lanes_with Lane_open g) + length (lanes_with Lane_succeeded g) + length (lanes_with Lane_failed g) =
     length (eg_lanes g)"
proof -
  have "length (filter (\<lambda>l. el_disposition l = Lane_open) ls) + length (filter (\<lambda>l. el_disposition l = Lane_succeeded) ls) +
      length (filter (\<lambda>l. el_disposition l = Lane_failed) ls) = length ls" for ls :: "'a execution_lane list"
    by (induction ls) (use lane_disposition.exhaust in auto)
  then show ?thesis by (simp add: lanes_with_def)
qed

lemma createExecutionGroup_Inr:
  assumes "createExecutionGroup port i t a inputs now = Inr g"
  shows "group_valid port g" "eg_assignment g = a" "length (eg_lanes g) = length inputs"
    "map el_roleName (eg_lanes g) = map li_roleName inputs" "list_all (\<lambda>l. el_disposition l = Lane_open) (eg_lanes g)"
  using assms
  by (auto simp: createExecutionGroup_def validateExecutionGroup_Inr bind_result_Inr list_all_length new_lane_def
      intro!: nth_equalityI split: if_splits option.splits)

subsection \<open>Properties\<close>

definition demo_base :: project_base where
  "demo_base = \<lparr>pb_projectId = ''web'', pb_baseCommit = replicate 40 CHR ''a''\<rparr>"

definition demo_snapshot :: context_ref where
  "demo_snapshot = \<lparr>cx_id = ''ctx-1'', cx_taskId = ''task-1'', cx_scope = Ctx_task, cx_scopeRef = None, cx_sequence = 1,
     cx_digest = replicate 64 CHR ''0''\<rparr>"

definition demo_assignment :: execution_assignment where
  "demo_assignment = Work_assignment \<lparr>wa_input = ''run'', wa_objective = ''fix'', wa_acceptance = [''tests pass''],
     wa_contextSnapshotRef = demo_snapshot, wa_taskId = ''task-1'', wa_workItemId = ''wi-1'', wa_workItemRevision = 1,
     wa_projects = [demo_base], wa_dependencyFacts = []\<rparr>"

definition demo_port :: "string list launch_port" where
  "demo_port = \<lparr>launch_valid = (\<lambda>ps. ps \<noteq> []), launch_writeProjectIds = (\<lambda>ps. ps)\<rparr>"

definition demo_lane :: "string \<Rightarrow> string list lane_input" where
  "demo_lane role = \<lparr>li_roleName = role, li_effective = Some [''web''],
     li_workspace = Some \<lparr>lw_root = ''/w'', lw_writableProjectIds = [''web'']\<rparr>, li_currentRunId = Some ''run-1''\<rparr>"

definition demo_epoch :: string where
  "demo_epoch = ''1970-01-01T00:00:00.000Z''"

definition demo_group :: "string list execution_group" where
  "demo_group = \<lparr>eg_id = ''g'', eg_taskId = ''task-1'', eg_assignment = demo_assignment,
     eg_lanes = [new_lane ''g'' demo_epoch 0 (demo_lane ''a''), new_lane ''g'' demo_epoch 1 (demo_lane ''b'')],
     eg_createdAt = demo_epoch, eg_updatedAt = demo_epoch\<rparr>"

lemma demo_epoch: "toISOString 0 = demo_epoch" "valid_time 0" "\<not> date_less demo_epoch demo_epoch"
  by code_simp+

lemma demo_group_valid: "validateExecutionGroup demo_port demo_group = Inr demo_group"
  by code_simp

lemma demo_group_created:
  "createExecutionGroup demo_port ''g'' ''task-1'' demo_assignment [demo_lane ''a'', demo_lane ''b''] 0 = Inr demo_group"
proof -
  have "requireIdentity ''g'' = Inr ''g''" "requireIdentity ''task-1'' = Inr ''task-1''"
    "validateExecutionAssignment demo_assignment = None" "assignment_taskId demo_assignment = ''task-1''"
    by code_simp+
  then show ?thesis
    using demo_group_valid by (simp add: createExecutionGroup_def minimum_lanes_def maximum_synthesis_results_def
        demo_group_def demo_epoch upt_rec)
qed

text \<open>
  C19. A replicated execution over any sequence of Lane updates and retries: a created Group has one
  open Lane for each requested role, in order; afterwards the Group passes its validator, its
  identity, Assignment and the identities of its Lanes are unchanged, it has between two and eight
  Lanes with pairwise distinct ids and roles, a Lane that had succeeded is exactly as it was, and a
  Lane that had been launched keeps its launch snapshot and workspace.
\<close>

theorem execution_group_run:
  assumes "createExecutionGroup port i t a inputs now = Inr g"
    "run_commands (execution_step port) cs g = Inr h" "run_commands (execution_step port) ds h = Inr k"
  shows "map el_roleName (eg_lanes g) = map li_roleName inputs \<and>
    list_all (\<lambda>l. el_disposition l = Lane_open) (eg_lanes g) \<and>
    validateExecutionGroup port k = Inr k \<and> group_identity k = group_identity g \<and> eg_assignment k = a \<and>
    length (eg_lanes k) \<in> {2..8} \<and> distinct (map el_id (eg_lanes k)) \<and> distinct (map el_roleName (eg_lanes k)) \<and>
    list_all2 (\<lambda>l n. (el_disposition l = Lane_succeeded \<longrightarrow> n = l) \<and>
      (el_effective l \<noteq> None \<longrightarrow> el_effective n = el_effective l \<and> el_workspace n = el_workspace l))
      (eg_lanes h) (eg_lanes k)"
proof -
  note g = createExecutionGroup_Inr [OF assms(1)]
  have adm: "list_all (\<lambda>_. True) xs" for xs :: "'x list" by (simp add: list_all_iff)
  note h = execution.run_valid [OF g(1) adm assms(2)] execution.run_identity [OF g(1) adm assms(2)]
  note k = execution.run_valid [OF h(1) adm assms(3)] execution.run_identity [OF h(1) adm assms(3)]
    execution_progress.run_below [OF h(1) adm assms(3)]
  have "eg_assignment k = a" using h(2) k(2) g(2) by (simp add: group_identity_def)
  then show ?thesis
    using g(4,5) h(2) k group_valid_lanes [OF k(1)]
    by (simp add: group_valid_def group_below_def lane_below_def [abs_def])
qed

lemma execution_group_run_witness:
  "run_commands (execution_step demo_port) [(0, Retry_failed)] demo_group = Inr demo_group \<and>
   validateExecutionGroup demo_port demo_group = Inr demo_group \<and> distinct (map el_id (eg_lanes demo_group)) \<and>
   length (eg_lanes demo_group) \<in> {2..8}"
proof -
  have "run_commands (execution_step demo_port) [(0, Retry_failed)] demo_group = Inr demo_group"
    using demo_group_valid by (simp add: retryFailedExecutionLanes_def) (simp add: demo_group_def new_lane_def)
  with execution_group_run [OF demo_group_created, of "[]" demo_group "[(0, Retry_failed)]" demo_group] show ?thesis by simp
qed

text \<open>
  Retrying failed Lanes always succeeds on a valid Group at a time not before its creation: the
  result is valid, no Lane is failed any more, every Lane that had not failed is untouched, a failed
  one is open again with its run kept and no end time, and the three counts of the summary of the
  result add up to its number of Lanes, with exactly the succeeded Lanes of before.
\<close>

theorem execution_retry:
  assumes "validateExecutionGroup port g = Inr g" "valid_time now" "\<not> date_less (toISOString now) (eg_createdAt g)"
  shows "\<exists>h s. retryFailedExecutionLanes port g now = Inr h \<and> validateExecutionGroup port h = Inr h \<and>
    list_all2 (\<lambda>l n. n = (if el_disposition l = Lane_failed
        then l\<lparr>el_disposition := Lane_open, el_endedAt := None, el_updatedAt := toISOString now\<rparr> else l))
      (eg_lanes g) (eg_lanes h) \<and>
    summarizeExecutionGroup port h = Inr s \<and> gs_failedLaneCount s = 0 \<and>
    gs_openLaneCount s + gs_succeededLaneCount s = gs_laneCount s \<and>
    gs_succeededLaneCount s = length (lanes_with Lane_succeeded g)"
proof -
  from retry_total [OF _ assms(2,3)] assms(1) obtain h where h: "retryFailedExecutionLanes port g now = Inr h"
    by (auto simp: group_valid_def)
  note r = retry_Inr [OF h]
  have f: "lanes_with Lane_failed h = []" using r by (auto simp: lanes_with_def filter_empty_conv reopened_lane_def)
  have s: "lanes_with Lane_succeeded h = lanes_with Lane_succeeded g"
    using r by (simp add: lanes_with_def succeeded_reopened)
  show ?thesis
    using h r f s lanes_with_total [of h]
    by (auto simp: group_valid_def summarizeExecutionGroup_def list_all2_conv_all_nth reopened_lane_def)
qed

lemma execution_retry_witness:
  "\<exists>h. retryFailedExecutionLanes demo_port demo_group 0 = Inr h \<and> validateExecutionGroup demo_port h = Inr h"
  using execution_retry [OF demo_group_valid demo_epoch(2)] demo_epoch by (auto simp: demo_group_def)

end
