(* ===== verification/Work_Item.thy ===== *)
theory Work_Item
  imports Work_Candidate Work_Item_Execution
begin

text \<open>
  Work Items (\<open>src/src/workItem/workItem.ts\<close>): a unit of work of a Task with its definition, its
  candidates, its history of replicated executions and its outcome; and the dependency gate
  (\<open>src/src/workItem/dependencyGate.ts\<close>).

  \<open>port\<close> is the launch port of \<open>Work_Item_Execution\<close>, \<open>cwd\<close> the current directory for path
  resolution. Where the code compares two records by their JSON text the model compares the records.
\<close>

subsection \<open>The record\<close>

datatype work_item_status = Item_open | Item_accepted | Item_retired

datatype retire_actor = Retired_by_leader | Retired_by_operator | Retired_by_user

record item_disposition =
  wd_by :: retire_actor
  wd_summary :: string
  wd_retiredAt :: string
  wd_replacementWorkItemId :: "string option"

record disposition_input =
  di_by :: retire_actor
  di_summary :: string
  di_replacementWorkItemId :: "string option"

datatype workspace_disposition = Workspace_integrated | Workspace_abandoned

record project_base_ref =
  br_projectId :: string
  br_baseRef :: string

record 'l work_item =
  wi_id :: string
  wi_taskId :: string
  wi_title :: string
  wi_objective :: string
  wi_acceptance :: "string list"
  wi_dependsOn :: "string list"
  wi_writeProjectIds :: "string list"
  wi_executionGroups :: "'l execution_group list"
  wi_currentExecutionGroupId :: "string option"
  wi_baseRefs :: "project_base_ref list option"
  wi_revision :: int
  wi_assignee :: "string option"
  wi_status :: work_item_status
  wi_candidates :: "work_candidate list"
  wi_outcome :: "string option"
  wi_disposition :: "item_disposition option"
  wi_workspaceDisposition :: "workspace_disposition option"
  wi_createdAt :: string
  wi_updatedAt :: string
  wi_endedAt :: "string option"
  wi_acceptedCandidateId :: "string option"
  wi_currentCandidateId :: "string option"

record 'l work_item_input =
  ni_title :: string
  ni_objective :: "string option"
  ni_acceptance :: "string list"
  ni_dependsOn :: "string list"
  ni_assignee :: "string option"
  ni_writeProjectIds :: "string list"
  ni_baseRefs :: "project_base_ref list option"
  ni_executionGroups :: "'l execution_group list"
  ni_currentExecutionGroupId :: "string option"

text \<open>In an update the outer \<open>None\<close> leaves the field and \<open>Some None\<close> (the code's \<open>null\<close>) removes it.\<close>

record definition_update =
  du_title :: "string option"
  du_objective :: "string option"
  du_acceptance :: "string list option"
  du_dependsOn :: "string list option"
  du_writeProjectIds :: "string list option"
  du_baseRefs :: "project_base_ref list option option"
  du_assignee :: "string option option"

record candidate_input =
  ci_summary :: string
  ci_source :: candidate_source
  ci_reviewPolicy :: "review_config option"
  ci_contract :: "final_review_contract option"
  ci_executionGroupId :: "string option"
  ci_executionLaneId :: "string option"
  ci_workspace :: "managed_workspace option"
  ci_gitSnapshot :: "git_snapshot option"
  ci_taskMainSnapshot :: "main_snapshot option"
  ci_artifactRefs :: "artifact_ref list option"

datatype work_item_field =
    IF_id | IF_task | IF_title | IF_objective | IF_acceptance | IF_dependency | IF_writable | IF_group | IF_lane
  | IF_assignee | IF_project | IF_baseRef | IF_outcome | IF_createdAt | IF_updatedAt | IF_endedAt | IF_summary
  | IF_retiredAt | IF_replacement

datatype work_item_error =
    Item_field work_item_field field_error
  | Item_reference reference_error
  | Item_execution execution_error
  | Item_candidate candidate_error
  | Base_ref_duplicated | Base_ref_invalid | Base_ref_not_writable | Depends_on_itself | Item_revision_invalid
  | Group_provenance | Group_assignment | Group_duplicated | Current_group_missing
  | Candidate_provenance | Candidate_sequence | Candidate_duplicated | Candidate_revision_ahead
  | Accepted_candidate_missing | Accepted_candidate_unexpected | Accepted_candidate_required | Current_candidate_missing
  | Open_with_outcome | Open_with_end | Disposition_status | Disposition_metadata
  | Item_not_open | Retired_final | Terminal_final | Outcome_required | Group_immutable | Group_historical
  | Group_still_open | Group_assignment_changed | Already_disposed | Accepted_not_retirable | Workspace_settled
  | Item_not_terminal | Workspace_recorded_differently | Write_scope_shrinks

abbreviation item_field :: "work_item_field \<Rightarrow> field_error + 'a \<Rightarrow> work_item_error + 'a" where
  "item_field f \<equiv> map_error (Item_field f)"

abbreviation item_check :: "work_item_field \<Rightarrow> field_error + 'a \<Rightarrow> work_item_error option" where
  "item_check f r \<equiv> failure (item_field f r)"

definition isTerminalStatus :: "work_item_status \<Rightarrow> bool" where
  "isTerminalStatus s \<longleftrightarrow> s = Item_accepted \<or> s = Item_retired"

subsection \<open>Validation\<close>

fun normalizeProjectBaseRefs :: "string list \<Rightarrow> project_base_ref list \<Rightarrow> work_item_error + project_base_ref list" where
  "normalizeProjectBaseRefs seen [] = Inr []"
| "normalizeProjectBaseRefs seen (entry # entries) =
     bind_result (item_field IF_project (requireIdentity (br_projectId entry))) (\<lambda>projectId.
     if projectId \<in> set seen then Inl Base_ref_duplicated
     else
     bind_result (item_field IF_baseRef (requireText (br_baseRef entry))) (\<lambda>baseRef.
     if startsWith baseRef ''-'' \<or> (\<exists>c \<in> set baseRef. unit_of c = 10 \<or> unit_of c = 13) then Inl Base_ref_invalid
     else
     bind_result (normalizeProjectBaseRefs (projectId # seen) entries) (\<lambda>rest.
       Inr (\<lparr>br_projectId = projectId, br_baseRef = baseRef\<rparr> # rest))))"

definition assignment_workItemId :: "execution_assignment \<Rightarrow> string option" where
  "assignment_workItemId a = (case a of Work_assignment w \<Rightarrow> Some (wa_workItemId w) | Review_assignment r \<Rightarrow> ra_workItemId r)"

definition validateItemExecutionGroup ::
  "'l launch_port \<Rightarrow> 'l execution_group \<Rightarrow> string \<Rightarrow> string \<Rightarrow> work_item_error + 'l execution_group" where
  "validateItemExecutionGroup port g taskId workItemId =
     bind_result (map_error Item_execution (validateWorkItemExecutionGroup port g)) (\<lambda>_.
     check
       [reject (eg_taskId g \<noteq> taskId) Group_provenance,
        reject (assignment_workItemId (eg_assignment g) \<noteq> Some workItemId \<or> assignment_taskId (eg_assignment g) \<noteq> taskId)
          Group_assignment] g)"

fun groups_error ::
  "'l launch_port \<Rightarrow> string \<Rightarrow> string \<Rightarrow> string list \<Rightarrow> 'l execution_group list \<Rightarrow> work_item_error option" where
  "groups_error port taskId workItemId seen [] = None"
| "groups_error port taskId workItemId seen (g # gs) = first_error
     [failure (validateItemExecutionGroup port g taskId workItemId),
      reject (eg_id g \<in> set seen) Group_duplicated,
      groups_error port taskId workItemId (eg_id g # seen) gs]"

fun candidates_error ::
  "string \<Rightarrow> 'l work_item \<Rightarrow> int \<Rightarrow> string list \<Rightarrow> work_candidate list \<Rightarrow> work_item_error option" where
  "candidates_error cwd w index seen [] = None"
| "candidates_error cwd w index seen (c # cs) = first_error
     [failure (map_error Item_candidate (validateWorkItemCandidate cwd c)),
      reject (wc_taskId c \<noteq> wi_taskId w \<or> wc_workItemId c \<noteq> wi_id w) Candidate_provenance,
      reject (wc_sequence c \<noteq> index + 1) Candidate_sequence,
      reject (wc_id c \<in> set seen) Candidate_duplicated,
      reject (wc_workItemRevision c > wi_revision w) Candidate_revision_ahead,
      candidates_error cwd w (index + 1) (wc_id c # seen) cs]"

definition validateDisposition :: "item_disposition \<Rightarrow> work_item_error + item_disposition" where
  "validateDisposition d = check
     [item_check IF_summary (requireText (wd_summary d)),
      item_check IF_retiredAt (requireTimestamp (wd_retiredAt d)),
      when_some (wd_replacementWorkItemId d) (\<lambda>i. item_check IF_replacement (requireIdentity i))] d"

definition base_refs_error :: "'l work_item \<Rightarrow> work_item_error option" where
  "base_refs_error w =
     when_some (wi_baseRefs w) (\<lambda>refs.
       case normalizeProjectBaseRefs [] refs of
         Inl e \<Rightarrow> Some e
       | Inr baseRefs \<Rightarrow>
           reject (\<exists>r \<in> set baseRefs. br_projectId r \<notin> set (wi_writeProjectIds w)) Base_ref_not_writable)"

definition definition_errors :: "'l work_item \<Rightarrow> work_item_error option list" where
  "definition_errors w =
     [failure (map_error Item_reference (validateTaskRecordReference (task_reference (wi_taskId w) (wi_id w)) K_workItem)),
      item_check IF_task (requireIdentity (wi_taskId w)),
      item_check IF_title (requireText (wi_title w)),
      item_check IF_objective (requireText (wi_objective w)),
      item_check IF_acceptance (normalizedUniqueText (wi_acceptance w)),
      item_check IF_dependency (normalizedUniqueIdentities (wi_dependsOn w)),
      item_check IF_writable (normalizedUniqueIdentities (wi_writeProjectIds w)),
      base_refs_error w,
      (case normalizedUniqueIdentities (wi_dependsOn w) of
         Inl _ \<Rightarrow> None
       | Inr dependsOn \<Rightarrow> reject (wi_id w \<in> set dependsOn) Depends_on_itself),
      reject (\<not> isSafeInteger (wi_revision w) \<or> wi_revision w < 1) Item_revision_invalid,
      when_some (wi_assignee w) (\<lambda>a. item_check IF_assignee (requireIdentity a))]"

definition execution_errors :: "'l launch_port \<Rightarrow> 'l work_item \<Rightarrow> work_item_error option list" where
  "execution_errors port w =
     [groups_error port (wi_taskId w) (wi_id w) [] (wi_executionGroups w),
      when_some (wi_currentExecutionGroupId w) (\<lambda>i. first_error
        [item_check IF_group (requireIdentity i),
         reject (i \<notin> set (map eg_id (wi_executionGroups w))) Current_group_missing])]"

definition candidate_errors :: "string \<Rightarrow> 'l work_item \<Rightarrow> work_item_error option list" where
  "candidate_errors cwd w =
     (let candidateIds = map wc_id (wi_candidates w) in
      [candidates_error cwd w 0 [] (wi_candidates w),
       when_some (wi_acceptedCandidateId w) (\<lambda>i. reject (i \<notin> set candidateIds) Accepted_candidate_missing),
       reject (wi_acceptedCandidateId w \<noteq> None \<and> wi_status w \<noteq> Item_accepted) Accepted_candidate_unexpected,
       reject (wi_status w = Item_accepted \<and> wi_candidates w \<noteq> [] \<and> wi_acceptedCandidateId w = None)
         Accepted_candidate_required,
       when_some (wi_currentCandidateId w) (\<lambda>i. reject (i \<notin> set candidateIds) Current_candidate_missing)])"

definition outcome_errors :: "'l work_item \<Rightarrow> work_item_error option list" where
  "outcome_errors w =
     [when_some (wi_outcome w) (\<lambda>t. item_check IF_outcome (requireText t)),
      item_check IF_createdAt (requireTimestamp (wi_createdAt w)),
      item_check IF_updatedAt (requireTimestamp (wi_updatedAt w)),
      (if isTerminalStatus (wi_status w) then first_error
         [item_check IF_outcome (requireText (case wi_outcome w of None \<Rightarrow> [] | Some t \<Rightarrow> t)),
          item_check IF_endedAt (requireTimestamp (case wi_endedAt w of None \<Rightarrow> [] | Some t \<Rightarrow> t))]
       else first_error
         [reject (wi_outcome w \<noteq> None) Open_with_outcome, reject (wi_endedAt w \<noteq> None) Open_with_end]),
      when_some (wi_disposition w) (\<lambda>d. first_error
        [failure (validateDisposition d),
         reject (wi_status w \<noteq> Item_retired) Disposition_status,
         reject (wi_outcome w \<noteq> Some (wd_summary d) \<or> wi_endedAt w \<noteq> Some (wd_retiredAt d)) Disposition_metadata])]"

definition validateWorkItem :: "'l launch_port \<Rightarrow> string \<Rightarrow> 'l work_item \<Rightarrow> work_item_error + 'l work_item" where
  "validateWorkItem port cwd w =
     check (definition_errors w @ execution_errors port w @ candidate_errors cwd w @ outcome_errors w) w"

subsection \<open>Lookups\<close>

definition workItemExecutionGroupById :: "'l work_item \<Rightarrow> string \<Rightarrow> 'l execution_group option" where
  "workItemExecutionGroupById w i = find (\<lambda>g. eg_id g = i) (wi_executionGroups w)"

definition currentWorkItemExecutionGroup :: "'l work_item \<Rightarrow> 'l execution_group option" where
  "currentWorkItemExecutionGroup w = Option.bind (wi_currentExecutionGroupId w) (workItemExecutionGroupById w)"

definition group_settled :: "'l launch_port \<Rightarrow> 'l execution_group \<Rightarrow> work_item_error + bool" where
  "group_settled port g = map_error Item_execution (workItemExecutionGroupSettled port g)"

definition workItemOwnsUnresolvedExecutionLane ::
  "'l launch_port \<Rightarrow> 'l work_item \<Rightarrow> string option \<Rightarrow> string option \<Rightarrow> work_item_error + bool" where
  "workItemOwnsUnresolvedExecutionLane port w executionGroupId executionLaneId =
     (case (executionGroupId, executionLaneId) of
        (Some groupId, Some laneId) \<Rightarrow>
          if wi_currentExecutionGroupId w \<noteq> Some groupId then Inr False
          else (case workItemExecutionGroupById w groupId of
              None \<Rightarrow> Inr False
            | Some g \<Rightarrow> bind_result (group_settled port g) (\<lambda>settled.
                Inr (\<not> settled \<and> (\<exists>l \<in> set (eg_lanes g). el_id l = laneId \<and> el_disposition l = Lane_open \<and> el_currentRunId l \<noteq> None))))
      | _ \<Rightarrow> Inr False)"

definition currentWorkItemCandidate :: "'l work_item \<Rightarrow> work_candidate option" where
  "currentWorkItemCandidate w =
     (if wi_status w = Item_open then find (\<lambda>c. Some (wc_id c) = wi_currentCandidateId w) (wi_candidates w) else None)"

definition governingWorkItemCandidate :: "'l work_item \<Rightarrow> work_candidate option" where
  "governingWorkItemCandidate w =
     (if wi_status w = Item_accepted \<and> wi_acceptedCandidateId w \<noteq> None
      then find (\<lambda>c. Some (wc_id c) = wi_acceptedCandidateId w) (wi_candidates w)
      else currentWorkItemCandidate w)"

subsection \<open>Operations\<close>

definition createWorkItem ::
  "'l launch_port \<Rightarrow> string \<Rightarrow> string \<Rightarrow> string \<Rightarrow> 'l work_item_input \<Rightarrow> time \<Rightarrow> work_item_error + 'l work_item" where
  "createWorkItem port cwd i taskId input now =
     bind_result (item_field IF_id (requireIdentity i)) (\<lambda>itemId.
     bind_result (item_field IF_task (requireIdentity taskId)) (\<lambda>task.
     bind_result (item_field IF_title (requireText (ni_title input))) (\<lambda>title.
     bind_result (item_field IF_objective
       (requireText (case ni_objective input of None \<Rightarrow> ni_title input | Some t \<Rightarrow> t))) (\<lambda>objective.
     bind_result (item_field IF_acceptance (normalizedUniqueText (ni_acceptance input))) (\<lambda>acceptance.
     bind_result (item_field IF_dependency (normalizedUniqueIdentities (ni_dependsOn input))) (\<lambda>dependsOn.
     bind_result (item_field IF_writable (normalizedUniqueIdentities (ni_writeProjectIds input))) (\<lambda>writeProjectIds.
     bind_result (map_result (\<lambda>g. validateItemExecutionGroup port g taskId i) (ni_executionGroups input)) (\<lambda>groups.
     bind_result (optional_value (\<lambda>g. item_field IF_group (requireIdentity g)) (ni_currentExecutionGroupId input)) (\<lambda>current.
     bind_result
       (case ni_baseRefs input of
          None \<Rightarrow> Inr None
        | Some refs \<Rightarrow> if refs = [] then Inr None else optional_value (normalizeProjectBaseRefs []) (Some refs)) (\<lambda>baseRefs.
     bind_result (optional_value (\<lambda>a. item_field IF_assignee (requireIdentity a)) (ni_assignee input)) (\<lambda>assignee.
       validateWorkItem port cwd
         \<lparr>wi_id = itemId, wi_taskId = task, wi_title = title, wi_objective = objective, wi_acceptance = acceptance,
          wi_dependsOn = dependsOn, wi_writeProjectIds = writeProjectIds, wi_executionGroups = groups,
          wi_currentExecutionGroupId = current, wi_baseRefs = baseRefs, wi_revision = 1, wi_assignee = assignee,
          wi_status = Item_open, wi_candidates = [], wi_outcome = None, wi_disposition = None,
          wi_workspaceDisposition = None, wi_createdAt = toISOString now, wi_updatedAt = toISOString now,
          wi_endedAt = None, wi_acceptedCandidateId = None, wi_currentCandidateId = None\<rparr>)))))))))))"

definition updated_base_refs ::
  "project_base_ref list option \<Rightarrow> project_base_ref list option option \<Rightarrow> work_item_error + project_base_ref list option" where
  "updated_base_refs current upd =
     (case upd of
        None \<Rightarrow> Inr current
      | Some None \<Rightarrow> Inr None
      | Some (Some refs) \<Rightarrow> bind_result (normalizeProjectBaseRefs [] refs) (\<lambda>normalized.
          Inr (if normalized = [] then None else Some normalized)))"

definition updated_value :: "('a \<Rightarrow> 'e + 'b) \<Rightarrow> 'b \<Rightarrow> 'a option \<Rightarrow> 'e + 'b" where
  "updated_value f current upd = (case upd of None \<Rightarrow> Inr current | Some v \<Rightarrow> f v)"

definition editWorkItemDefinition ::
  "'l launch_port \<Rightarrow> string \<Rightarrow> 'l work_item \<Rightarrow> definition_update \<Rightarrow> time \<Rightarrow> work_item_error + 'l work_item" where
  "editWorkItemDefinition port cwd w upd now =
     bind_result (validateWorkItem port cwd w) (\<lambda>_.
     if wi_status w \<noteq> Item_open then Inl Item_not_open
     else
     bind_result (updated_value (\<lambda>t. item_field IF_title (requireText t)) (wi_title w) (du_title upd)) (\<lambda>title.
     bind_result (updated_value (\<lambda>t. item_field IF_objective (requireText t)) (wi_objective w) (du_objective upd)) (\<lambda>objective.
     bind_result (updated_value (\<lambda>t. item_field IF_acceptance (normalizedUniqueText t)) (wi_acceptance w) (du_acceptance upd)) (\<lambda>acceptance.
     bind_result (updated_value (\<lambda>t. item_field IF_dependency (normalizedUniqueIdentities t)) (wi_dependsOn w) (du_dependsOn upd)) (\<lambda>dependsOn.
     bind_result (updated_value (\<lambda>t. item_field IF_writable (normalizedUniqueIdentities t)) (wi_writeProjectIds w) (du_writeProjectIds upd)) (\<lambda>writeProjectIds.
     bind_result (updated_base_refs (wi_baseRefs w) (du_baseRefs upd)) (\<lambda>baseRefs.
     bind_result (updated_value (optional_value (\<lambda>a. item_field IF_assignee (requireIdentity a))) (wi_assignee w) (du_assignee upd)) (\<lambda>assignee.
       validateWorkItem port cwd (w\<lparr>wi_title := title, wi_objective := objective, wi_acceptance := acceptance,
         wi_dependsOn := dependsOn, wi_writeProjectIds := writeProjectIds, wi_revision := wi_revision w + 1,
         wi_updatedAt := toISOString now, wi_baseRefs := baseRefs, wi_assignee := assignee\<rparr>)))))))))"

definition submitWorkItemCandidate ::
  "'l launch_port \<Rightarrow> string \<Rightarrow> 'l work_item \<Rightarrow> candidate_input \<Rightarrow> time \<Rightarrow> work_item_error + 'l work_item" where
  "submitWorkItemCandidate port cwd w input now =
     bind_result (validateWorkItem port cwd w) (\<lambda>_.
     if wi_status w \<noteq> Item_open then Inl Item_not_open
     else let revision = wi_revision w + 1; sequence = int (length (wi_candidates w)) + 1 in
     bind_result (optional_value (\<lambda>g. item_field IF_group (requireIdentity g)) (ci_executionGroupId input)) (\<lambda>groupId.
     bind_result (optional_value (\<lambda>l. item_field IF_lane (requireIdentity l)) (ci_executionLaneId input)) (\<lambda>laneId.
     bind_result (optional_value (map_result (\<lambda>r. map_error (\<lambda>e. Item_candidate (Cand_artifact e)) (validateGitArtifactRef r)))
       (ci_artifactRefs input)) (\<lambda>artifactRefs.
     bind_result (map_error Item_candidate (validateWorkItemCandidate cwd
       \<lparr>wc_id = ''candidate-'' @ show_int sequence, wc_taskId = wi_taskId w, wc_workItemId = wi_id w,
        wc_sequence = sequence, wc_workItemRevision = revision, wc_summary = ci_summary input, wc_source = ci_source input,
        wc_executionGroupId = groupId, wc_executionLaneId = laneId, wc_reviewPolicy = ci_reviewPolicy input,
        wc_contract = ci_contract input, wc_workspace = ci_workspace input, wc_gitSnapshot = ci_gitSnapshot input,
        wc_taskMainSnapshot = ci_taskMainSnapshot input, wc_artifactRefs = artifactRefs,
        wc_createdAt = toISOString now\<rparr>)) (\<lambda>candidate.
       validateWorkItem port cwd (w\<lparr>wi_outcome := None, wi_endedAt := None, wi_status := Item_open,
         wi_candidates := wi_candidates w @ [candidate], wi_currentCandidateId := Some (wc_id candidate),
         wi_revision := revision, wi_updatedAt := toISOString now\<rparr>))))))"

definition updateWorkItemStatus ::
  "'l launch_port \<Rightarrow> string \<Rightarrow> 'l work_item \<Rightarrow> work_item_status \<Rightarrow> time \<Rightarrow> string option \<Rightarrow> string option
     \<Rightarrow> work_item_error + 'l work_item" where
  "updateWorkItemStatus port cwd w status now outcome candidateId =
     bind_result (validateWorkItem port cwd w) (\<lambda>_.
     let alreadyTerminal = isTerminalStatus (wi_status w);
         withdrawingAcceptance = (wi_status w = Item_accepted \<and> status = Item_open) in
     if wi_disposition w \<noteq> None \<and> status \<noteq> wi_status w then Inl Retired_final
     else if alreadyTerminal \<and> status \<noteq> wi_status w \<and> \<not> withdrawingAcceptance then Inl Terminal_final
     else
     bind_result (optional_value (\<lambda>t. item_field IF_outcome (requireText t)) outcome) (\<lambda>normalizedOutcome.
     if isTerminalStatus status \<and> normalizedOutcome = None then Inl Outcome_required
     else if alreadyTerminal \<and> status = wi_status w
     then validateWorkItem port cwd (w\<lparr>wi_outcome := normalizedOutcome, wi_revision := wi_revision w + 1,
            wi_updatedAt := toISOString now\<rparr>)
     else validateWorkItem port cwd (w\<lparr>wi_status := status, wi_revision := wi_revision w + 1,
            wi_outcome := normalizedOutcome,
            wi_acceptedCandidateId := (if status = Item_accepted
              then or_else candidateId (or_else (wi_acceptedCandidateId w) (wi_currentCandidateId w)) else None),
            wi_currentCandidateId := (if status = Item_open \<and> \<not> withdrawingAcceptance then wi_currentCandidateId w else None),
            wi_updatedAt := toISOString now,
            wi_endedAt := (if isTerminalStatus status then Some (toISOString now) else None)\<rparr>)))"

definition attachWorkItemExecutionGroup ::
  "'l launch_port \<Rightarrow> string \<Rightarrow> 'l work_item \<Rightarrow> 'l execution_group \<Rightarrow> time \<Rightarrow> work_item_error + 'l work_item" where
  "attachWorkItemExecutionGroup port cwd w executionGroup now =
     bind_result (validateWorkItem port cwd w) (\<lambda>_.
     bind_result (validateItemExecutionGroup port executionGroup (wi_taskId w) (wi_id w)) (\<lambda>checked.
     if wi_status w \<noteq> Item_open then Inl Item_not_open
     else case workItemExecutionGroupById w (eg_id checked) of
       Some existing \<Rightarrow>
         if existing \<noteq> checked then Inl Group_immutable
         else if wi_currentExecutionGroupId w = Some (eg_id checked) then Inr w
         else Inl Group_historical
     | None \<Rightarrow>
         bind_result (case currentWorkItemExecutionGroup w of None \<Rightarrow> Inr True | Some g \<Rightarrow> group_settled port g) (\<lambda>settled.
         if \<not> settled then Inl Group_still_open
         else validateWorkItem port cwd (w\<lparr>wi_executionGroups := wi_executionGroups w @ [checked],
                wi_currentExecutionGroupId := Some (eg_id checked), wi_revision := wi_revision w + 1,
                wi_updatedAt := toISOString now\<rparr>))))"

definition updateWorkItemExecutionGroup ::
  "'l launch_port \<Rightarrow> string \<Rightarrow> 'l work_item \<Rightarrow> 'l execution_group \<Rightarrow> time \<Rightarrow> work_item_error + 'l work_item" where
  "updateWorkItemExecutionGroup port cwd w executionGroup now =
     bind_result (validateWorkItem port cwd w) (\<lambda>_.
     bind_result (validateItemExecutionGroup port executionGroup (wi_taskId w) (wi_id w)) (\<lambda>checked.
     case workItemExecutionGroupById w (eg_id checked) of
       None \<Rightarrow> attachWorkItemExecutionGroup port cwd w checked now
     | Some existing \<Rightarrow>
         if wi_currentExecutionGroupId w \<noteq> Some (eg_id checked) then Inl Group_historical
         else if eg_assignment existing \<noteq> eg_assignment checked then Inl Group_assignment_changed
         else if existing = checked then Inr w
         else case assertWorkItemExecutionGroupTransition port existing checked of
           Some e \<Rightarrow> Inl (Item_execution e)
         | None \<Rightarrow> validateWorkItem port cwd (w\<lparr>wi_executionGroups :=
               map (\<lambda>g. if eg_id g = eg_id checked then checked else g) (wi_executionGroups w),
               wi_revision := wi_revision w + 1, wi_updatedAt := toISOString now\<rparr>)))"

definition normalizeDisposition :: "disposition_input \<Rightarrow> time \<Rightarrow> work_item_error + item_disposition" where
  "normalizeDisposition input now =
     bind_result (item_field IF_summary (requireText (di_summary input))) (\<lambda>summary.
     bind_result (optional_value (\<lambda>i. bind_result (item_field IF_replacement (requireIdentity i)) (\<lambda>_. Inr i))
       (di_replacementWorkItemId input)) (\<lambda>replacement.
       validateDisposition \<lparr>wd_by = di_by input, wd_summary = summary, wd_retiredAt = toISOString now,
         wd_replacementWorkItemId = replacement\<rparr>))"

definition sameDisposition :: "item_disposition \<Rightarrow> item_disposition \<Rightarrow> bool" where
  "sameDisposition l r \<longleftrightarrow> wd_by l = wd_by r \<and> wd_summary l = wd_summary r \<and>
     wd_replacementWorkItemId l = wd_replacementWorkItemId r"

definition retireWorkItem ::
  "'l launch_port \<Rightarrow> string \<Rightarrow> 'l work_item \<Rightarrow> disposition_input \<Rightarrow> time \<Rightarrow> work_item_error + 'l work_item" where
  "retireWorkItem port cwd w input now =
     bind_result (validateWorkItem port cwd w) (\<lambda>_.
     bind_result (normalizeDisposition input now) (\<lambda>disposition.
     case wi_disposition w of
       Some d \<Rightarrow> if wi_status w = Item_retired \<and> sameDisposition d disposition then Inr w else Inl Already_disposed
     | None \<Rightarrow>
         if wi_status w = Item_accepted then Inl Accepted_not_retirable
         else if isTerminalStatus (wi_status w) \<and> wi_status w \<noteq> Item_retired then Inl Terminal_final
         else validateWorkItem port cwd (w\<lparr>wi_status := Item_retired, wi_outcome := Some (wd_summary disposition),
                wi_disposition := Some disposition, wi_revision := wi_revision w + 1,
                wi_updatedAt := wd_retiredAt disposition, wi_endedAt := Some (wd_retiredAt disposition)\<rparr>)))"

definition prepareWorkItemDispatch ::
  "'l launch_port \<Rightarrow> string \<Rightarrow> 'l work_item \<Rightarrow> time \<Rightarrow> work_item_error + 'l work_item" where
  "prepareWorkItemDispatch port cwd w now =
     bind_result (validateWorkItem port cwd w) (\<lambda>_.
     if wi_status w \<noteq> Item_open then Inl Item_not_open
     else if wi_workspaceDisposition w \<noteq> None then Inl Workspace_settled
     else
     bind_result (case currentWorkItemExecutionGroup w of None \<Rightarrow> Inr False | Some g \<Rightarrow> group_settled port g) (\<lambda>settled.
       validateWorkItem port cwd (w\<lparr>wi_outcome := None, wi_endedAt := None, wi_currentCandidateId := None,
         wi_currentExecutionGroupId := (if settled then None else wi_currentExecutionGroupId w),
         wi_status := Item_open, wi_revision := wi_revision w + 1, wi_updatedAt := toISOString now\<rparr>)))"

definition recordWorkItemWorkspaceDisposition ::
  "'l launch_port \<Rightarrow> string \<Rightarrow> 'l work_item \<Rightarrow> workspace_disposition \<Rightarrow> time \<Rightarrow> work_item_error + 'l work_item" where
  "recordWorkItemWorkspaceDisposition port cwd w d now =
     bind_result (validateWorkItem port cwd w) (\<lambda>_.
     if \<not> isTerminalStatus (wi_status w) then Inl Item_not_terminal
     else case wi_workspaceDisposition w of
       Some old \<Rightarrow> if old \<noteq> d then Inl Workspace_recorded_differently else Inr w
     | None \<Rightarrow> validateWorkItem port cwd (w\<lparr>wi_workspaceDisposition := Some d, wi_revision := wi_revision w + 1,
          wi_updatedAt := toISOString now\<rparr>))"

definition updateWorkItemWriteProjects ::
  "'l launch_port \<Rightarrow> string \<Rightarrow> 'l work_item \<Rightarrow> string list \<Rightarrow> time \<Rightarrow> work_item_error + 'l work_item" where
  "updateWorkItemWriteProjects port cwd w writeProjectIds now =
     bind_result (validateWorkItem port cwd w) (\<lambda>_.
     if isTerminalStatus (wi_status w) then Inl Terminal_final
     else
     bind_result (item_field IF_writable (normalizedUniqueIdentities writeProjectIds)) (\<lambda>normalized.
     if filter (\<lambda>p. p \<notin> set normalized) (wi_writeProjectIds w) \<noteq> [] then Inl Write_scope_shrinks
     else if length normalized = length (wi_writeProjectIds w) \<and> list_all (\<lambda>p. p \<in> set normalized) (wi_writeProjectIds w)
     then Inr w
     else validateWorkItem port cwd (w\<lparr>wi_writeProjectIds := normalized, wi_revision := wi_revision w + 1,
            wi_updatedAt := toISOString now\<rparr>)))"

subsection \<open>The dependency gate\<close>

datatype dependency_status = Dependency_missing | Dependency_status work_item_status

definition unmetDependencies ::
  "(string \<Rightarrow> string \<Rightarrow> 'l work_item option) \<Rightarrow> 'l work_item \<Rightarrow> (string \<times> dependency_status) list" where
  "unmetDependencies getWorkItem item =
     concat (map (\<lambda>dependencyId.
       case getWorkItem (wi_taskId item) dependencyId of
         None \<Rightarrow> [(dependencyId, Dependency_missing)]
       | Some dependency \<Rightarrow>
           if wi_status dependency = Item_accepted then [] else [(dependencyId, Dependency_status (wi_status dependency))])
       (wi_dependsOn item))"

definition assertWorkItemDependenciesCompleted ::
  "(string \<Rightarrow> string \<Rightarrow> 'l work_item option) \<Rightarrow> 'l work_item \<Rightarrow> (string \<times> (string \<times> dependency_status) list) option" where
  "assertWorkItemDependenciesCompleted getWorkItem item =
     (let unmet = unmetDependencies getWorkItem item in if unmet \<noteq> [] then Some (wi_id item, unmet) else None)"

subsection \<open>Validity, identity and history\<close>

definition item_valid :: "'l launch_port \<Rightarrow> string \<Rightarrow> 'l work_item \<Rightarrow> bool" where
  "item_valid port cwd w \<longleftrightarrow> validateWorkItem port cwd w = Inr w"

definition item_identity :: "'l work_item \<Rightarrow> string \<times> string \<times> string" where
  "item_identity w = (wi_id w, wi_taskId w, wi_createdAt w)"

text \<open>What no operation undoes: candidates are only appended, execution Groups are only appended and
  keep their identity, a Group that is not current is frozen for good, and a retirement and the
  recorded workspace cleanup stand.\<close>

definition item_below :: "'l work_item \<Rightarrow> 'l work_item \<Rightarrow> bool" where
  "item_below w v \<longleftrightarrow>
     prefix (wi_candidates w) (wi_candidates v) \<and> wi_revision w \<le> wi_revision v \<and>
     prefix (map group_identity (wi_executionGroups w)) (map group_identity (wi_executionGroups v)) \<and>
     (\<forall>g \<in> set (wi_executionGroups w). wi_currentExecutionGroupId w \<noteq> Some (eg_id g) \<longrightarrow>
        g \<in> set (wi_executionGroups v) \<and> wi_currentExecutionGroupId v \<noteq> Some (eg_id g)) \<and>
     (wi_status w = Item_retired \<longrightarrow> wi_status v = Item_retired) \<and>
     (wi_disposition w \<noteq> None \<longrightarrow> wi_disposition v = wi_disposition w) \<and>
     (wi_workspaceDisposition w \<noteq> None \<longrightarrow> wi_workspaceDisposition v = wi_workspaceDisposition w)"

definition item_edge :: "work_item_status \<Rightarrow> work_item_status \<Rightarrow> bool" where
  "item_edge s t \<longleftrightarrow> t = s \<or> (s, t) \<in> {(Item_open, Item_accepted), (Item_open, Item_retired), (Item_accepted, Item_open)}"

definition item_progress :: "'l launch_port \<Rightarrow> string \<Rightarrow> 'l work_item \<Rightarrow> 'l work_item \<Rightarrow> bool" where
  "item_progress port cwd w v \<longleftrightarrow> item_valid port cwd v \<and> item_identity v = item_identity w \<and> item_below w v \<and>
     item_edge (wi_status w) (wi_status v) \<and> (v \<noteq> w \<longrightarrow> wi_revision v = wi_revision w + 1)"

lemma validateWorkItem_Inr [transition]: "validateWorkItem port cwd w = Inr v \<longleftrightarrow> v = w \<and> item_valid port cwd w"
  by (auto simp: validateWorkItem_def item_valid_def check_Inr)

lemma item_below_refl [simp]: "item_below w w"
  by (simp add: item_below_def)

lemma item_below_trans: "item_below u v \<Longrightarrow> item_below v w \<Longrightarrow> item_below u w"
  unfolding item_below_def by (auto intro: prefix_order.trans)

lemma item_progress_refl: "item_valid port cwd w \<Longrightarrow> item_progress port cwd w w"
  by (simp add: item_progress_def item_edge_def)

definition item_group :: "'l launch_port \<Rightarrow> 'l work_item \<Rightarrow> 'l execution_group \<Rightarrow> bool" where
  "item_group port w g \<longleftrightarrow> group_valid port g \<and> eg_taskId g = wi_taskId w \<and>
     assignment_workItemId (eg_assignment g) = Some (wi_id w)"

lemma validateWorkItemExecutionGroup_Inr:
  "validateWorkItemExecutionGroup port g = Inr h \<Longrightarrow> h = g \<and> group_valid port g"
  by (auto simp: validateWorkItemExecutionGroup_def bind_result_Inr validateExecutionGroup_Inr check_Inr)

lemma validateItemExecutionGroup_Inr [transition]:
  "validateItemExecutionGroup port g t i = Inr h \<longleftrightarrow> h = g \<and> validateWorkItemExecutionGroup port g = Inr g \<and>
     eg_taskId g = t \<and> assignment_workItemId (eg_assignment g) = Some i \<and> assignment_taskId (eg_assignment g) = t"
  using validateWorkItemExecutionGroup_Inr
  by (fastforce simp: validateItemExecutionGroup_def bind_result_Inr map_error_Inr check_Inr)

lemma groups_error_None:
  "groups_error port t i seen gs = None \<longleftrightarrow>
     (\<forall>g \<in> set gs. \<exists>h. validateItemExecutionGroup port g t i = Inr h) \<and> distinct (map eg_id gs) \<and>
     set (map eg_id gs) \<inter> set seen = {}"
  by (induction gs arbitrary: seen) (auto simp: failure_None)

lemma item_valid_groups:
  assumes "item_valid port cwd w"
  shows "\<forall>g \<in> set (wi_executionGroups w). item_group port w g" "distinct (map eg_id (wi_executionGroups w))"
    "\<And>i. wi_currentExecutionGroupId w = Some i \<Longrightarrow> i \<in> eg_id ` set (wi_executionGroups w)"
proof -
  have e: "first_error (execution_errors port w) = None"
    using assms by (simp add: item_valid_def validateWorkItem_def check_Inr)
  then have g: "groups_error port (wi_taskId w) (wi_id w) [] (wi_executionGroups w) = None"
    by (simp add: execution_errors_def)
  then show "distinct (map eg_id (wi_executionGroups w))" by (simp add: groups_error_None)
  from g show "\<forall>g \<in> set (wi_executionGroups w). item_group port w g"
    by (auto simp: groups_error_None validateItemExecutionGroup_Inr item_group_def
        dest!: bspec dest: validateWorkItemExecutionGroup_Inr)
  from e show "\<And>i. wi_currentExecutionGroupId w = Some i \<Longrightarrow> i \<in> eg_id ` set (wi_executionGroups w)"
    by (simp add: execution_errors_def)
qed

lemma candidate_local_id:
  "failure (validateWorkItemCandidate cwd c) = None \<Longrightarrow> wc_id c = ''candidate-'' @ show_int (wc_sequence c)"
  by (simp add: validateWorkItemCandidate_def)

lemma candidates_error_None:
  "candidates_error cwd w k seen cs = None \<Longrightarrow>
     (\<forall>j < length cs. wc_sequence (cs ! j) = k + int j + 1 \<and> wc_taskId (cs ! j) = wi_taskId w \<and> wc_workItemId (cs ! j) = wi_id w \<and>
        wc_workItemRevision (cs ! j) \<le> wi_revision w \<and> wc_id (cs ! j) = ''candidate-'' @ show_int (wc_sequence (cs ! j))) \<and>
     distinct (map wc_id cs)"
proof -
  have "candidates_error cwd w k seen cs = None \<Longrightarrow> distinct (map wc_id cs) \<and> set (map wc_id cs) \<inter> set seen = {}"
  proof (induction cs arbitrary: k seen)
    case (Cons c cs)
    from Cons.prems have "wc_id c \<notin> set seen" "candidates_error cwd w (k + 1) (wc_id c # seen) cs = None" by simp_all
    moreover from Cons.IH [OF this(2)] have "distinct (map wc_id cs)" "set (map wc_id cs) \<inter> set (wc_id c # seen) = {}"
      by simp_all
    ultimately show ?case by auto
  qed simp
  moreover have "candidates_error cwd w k seen cs = None \<Longrightarrow> \<forall>j < length cs. wc_sequence (cs ! j) = k + int j + 1 \<and>
      wc_taskId (cs ! j) = wi_taskId w \<and> wc_workItemId (cs ! j) = wi_id w \<and> wc_workItemRevision (cs ! j) \<le> wi_revision w \<and>
      wc_id (cs ! j) = ''candidate-'' @ show_int (wc_sequence (cs ! j))"
    by (induction cs arbitrary: k seen)
      (auto simp: All_less_Suc2 algebra_simps dest: candidate_local_id)
  ultimately show "candidates_error cwd w k seen cs = None \<Longrightarrow> ?thesis" by blast
qed

subsection \<open>Every command\<close>

lemmas item_defs = item_progress_def item_below_def item_identity_def item_edge_def

lemma edit_progress: "editWorkItemDefinition port cwd w upd now = Inr v \<Longrightarrow> item_progress port cwd w v"
  by (auto simp: editWorkItemDefinition_def bind_result_Inr validateWorkItem_Inr item_defs split: if_splits)

lemma submit_progress: "submitWorkItemCandidate port cwd w input now = Inr v \<Longrightarrow> item_progress port cwd w v"
  by (auto simp: submitWorkItemCandidate_def bind_result_Inr validateWorkItem_Inr item_defs Let_def split: if_splits)

lemma terminal_cases: "\<not> isTerminalStatus s \<longleftrightarrow> s = Item_open"
  by (cases s) (auto simp: isTerminalStatus_def)

lemma status_progress:
  "updateWorkItemStatus port cwd w st now out cand = Inr v \<Longrightarrow> item_progress port cwd w v"
  by (cases "wi_status w"; cases st)
    (auto simp: updateWorkItemStatus_def bind_result_Inr validateWorkItem_Inr item_defs isTerminalStatus_def Let_def
      split: if_splits)

lemma find_None_ids: "workItemExecutionGroupById w i = None \<longleftrightarrow> i \<notin> eg_id ` set (wi_executionGroups w)"
  by (auto simp: workItemExecutionGroupById_def find_None_iff)

lemma find_Some_ids: "workItemExecutionGroupById w i = Some g \<Longrightarrow> g \<in> set (wi_executionGroups w) \<and> eg_id g = i"
  by (auto simp: workItemExecutionGroupById_def find_Some_iff)

lemma attach_Inr:
  assumes "attachWorkItemExecutionGroup port cwd w g now = Inr v"
  shows "item_valid port cwd v \<and> (v = w \<or> eg_id g \<notin> eg_id ` set (wi_executionGroups w) \<and>
    v = w\<lparr>wi_executionGroups := wi_executionGroups w @ [g], wi_currentExecutionGroupId := Some (eg_id g),
      wi_revision := wi_revision w + 1, wi_updatedAt := toISOString now\<rparr>)"
proof (cases "workItemExecutionGroupById w (eg_id g)")
  case None
  then have "eg_id g \<notin> eg_id ` set (wi_executionGroups w)" by (simp add: find_None_ids)
  with None assms show ?thesis
    by (auto simp: attachWorkItemExecutionGroup_def bind_result_Inr validateWorkItem_Inr validateItemExecutionGroup_Inr
        split: if_splits)
next
  case (Some h)
  with assms show ?thesis
    by (auto simp: attachWorkItemExecutionGroup_def bind_result_Inr validateWorkItem_Inr validateItemExecutionGroup_Inr
        split: if_splits)
qed

lemma attach_progress: "attachWorkItemExecutionGroup port cwd w g now = Inr v \<Longrightarrow> item_progress port cwd w v"
  using attach_Inr [of port cwd w g now v] by (auto simp: item_defs)

lemma retire_Inr:
  assumes "retireWorkItem port cwd w input now = Inr v"
  shows "item_valid port cwd w \<and> item_valid port cwd v \<and> wi_status w \<noteq> Item_accepted \<and> wi_status v = Item_retired \<and>
    (v = w \<or> wi_disposition w = None \<and> (\<exists>d. normalizeDisposition input now = Inr d \<and>
      v = w\<lparr>wi_status := Item_retired, wi_outcome := Some (wd_summary d), wi_disposition := Some d,
        wi_revision := wi_revision w + 1, wi_updatedAt := wd_retiredAt d, wi_endedAt := Some (wd_retiredAt d)\<rparr>))"
proof (cases "wi_disposition w")
  case None
  with assms show ?thesis
    by (auto simp: retireWorkItem_def bind_result_Inr validateWorkItem_Inr split: if_splits)
next
  case (Some d)
  with assms show ?thesis
    by (auto simp: retireWorkItem_def bind_result_Inr validateWorkItem_Inr split: if_splits)
qed

lemma retire_progress:
  assumes "retireWorkItem port cwd w input now = Inr v"
  shows "item_progress port cwd w v"
proof -
  note r = retire_Inr [OF assms]
  then consider "v = w" | d where "wi_disposition w = None"
    "v = w\<lparr>wi_status := Item_retired, wi_outcome := Some (wd_summary d), wi_disposition := Some d,
       wi_revision := wi_revision w + 1, wi_updatedAt := wd_retiredAt d, wi_endedAt := Some (wd_retiredAt d)\<rparr>"
    by blast
  then show ?thesis
  proof cases
    case 1
    with r show ?thesis by (simp add: item_progress_refl)
  next
    case 2
    have "item_valid port cwd v" "wi_status w \<noteq> Item_accepted" using r by blast+
    with 2 show ?thesis by (cases "wi_status w") (simp_all add: item_defs)
  qed
qed

lemma prepare_Inr:
  assumes "prepareWorkItemDispatch port cwd w now = Inr v"
  obtains s where "item_valid port cwd v" "wi_status w = Item_open" "wi_workspaceDisposition w = None"
    "v = w\<lparr>wi_outcome := None, wi_endedAt := None, wi_currentCandidateId := None,
       wi_currentExecutionGroupId := (if s then None else wi_currentExecutionGroupId w),
       wi_status := Item_open, wi_revision := wi_revision w + 1, wi_updatedAt := toISOString now\<rparr>"
proof -
  have c: "wi_status w = Item_open" "wi_workspaceDisposition w = None"
    using assms by (auto simp: prepareWorkItemDispatch_def bind_result_Inr split: if_splits)
  from assms obtain s where "validateWorkItem port cwd (w\<lparr>wi_outcome := None, wi_endedAt := None,
      wi_currentCandidateId := None, wi_currentExecutionGroupId := (if s then None else wi_currentExecutionGroupId w),
      wi_status := Item_open, wi_revision := wi_revision w + 1, wi_updatedAt := toISOString now\<rparr>) = Inr v"
    by (simp add: prepareWorkItemDispatch_def bind_result_Inr c) blast
  then show ?thesis using that c by (simp only: validateWorkItem_Inr)
qed

lemma prepare_progress:
  assumes "prepareWorkItemDispatch port cwd w now = Inr v"
  shows "item_progress port cwd w v"
  using assms by (rule prepare_Inr) (simp add: item_defs)

lemma cleanup_progress: "recordWorkItemWorkspaceDisposition port cwd w d now = Inr v \<Longrightarrow> item_progress port cwd w v"
  by (auto simp: recordWorkItemWorkspaceDisposition_def bind_result_Inr validateWorkItem_Inr item_defs
      split: if_splits option.splits)

lemma write_projects_progress: "updateWorkItemWriteProjects port cwd w ps now = Inr v \<Longrightarrow> item_progress port cwd w v"
  by (auto simp: updateWorkItemWriteProjects_def bind_result_Inr validateWorkItem_Inr item_defs split: if_splits)

lemma updateGroup_Inr:
  assumes "updateWorkItemExecutionGroup port cwd w g now = Inr v"
  shows "attachWorkItemExecutionGroup port cwd w g now = Inr v \<or> item_valid port cwd w \<and> item_valid port cwd v \<and>
    (v = w \<or> (\<exists>h \<in> set (wi_executionGroups w). eg_id h = eg_id g \<and> wi_currentExecutionGroupId w = Some (eg_id g) \<and>
      assertExecutionGroupTransition port h g = None \<and>
      v = w\<lparr>wi_executionGroups := map (\<lambda>x. if eg_id x = eg_id g then g else x) (wi_executionGroups w),
        wi_revision := wi_revision w + 1, wi_updatedAt := toISOString now\<rparr>))"
proof (cases "workItemExecutionGroupById w (eg_id g)")
  case None
  with assms show ?thesis
    by (auto simp: updateWorkItemExecutionGroup_def bind_result_Inr validateWorkItem_Inr validateItemExecutionGroup_Inr)
next
  case (Some h)
  note h = find_Some_ids [OF Some]
  show ?thesis
  proof (cases "assertWorkItemExecutionGroupTransition port h g")
    case None
    then have t: "assertExecutionGroupTransition port h g = None" by (simp add: assertWorkItemExecutionGroupTransition_def)
    from assms Some None have "item_valid port cwd w \<and> item_valid port cwd v \<and> wi_currentExecutionGroupId w = Some (eg_id g) \<and>
      (v = w \<or> v = w\<lparr>wi_executionGroups := map (\<lambda>x. if eg_id x = eg_id g then g else x) (wi_executionGroups w),
        wi_revision := wi_revision w + 1, wi_updatedAt := toISOString now\<rparr>)"
      by (auto simp: updateWorkItemExecutionGroup_def bind_result_Inr validateWorkItem_Inr validateItemExecutionGroup_Inr
          split: if_splits)
    then show ?thesis using h t by blast
  next
    case (Some e)
    with assms \<open>workItemExecutionGroupById w (eg_id g) = Some h\<close> show ?thesis
      by (auto simp: updateWorkItemExecutionGroup_def bind_result_Inr validateWorkItem_Inr validateItemExecutionGroup_Inr
          split: if_splits)
  qed
qed

lemma distinct_by_id: "distinct (map f xs) \<Longrightarrow> x \<in> set xs \<Longrightarrow> y \<in> set xs \<Longrightarrow> f x = f y \<Longrightarrow> x = y"
  by (metis distinct_map inj_onD)

lemma updateGroup_progress:
  assumes "updateWorkItemExecutionGroup port cwd w g now = Inr v"
  shows "item_progress port cwd w v"
proof (cases "attachWorkItemExecutionGroup port cwd w g now = Inr v")
  case True
  then show ?thesis by (rule attach_progress)
next
  case False
  with updateGroup_Inr [OF assms] have valid: "item_valid port cwd w" "item_valid port cwd v"
    and "v = w \<or> (\<exists>h \<in> set (wi_executionGroups w). eg_id h = eg_id g \<and> wi_currentExecutionGroupId w = Some (eg_id g) \<and>
      assertExecutionGroupTransition port h g = None \<and>
      v = w\<lparr>wi_executionGroups := map (\<lambda>x. if eg_id x = eg_id g then g else x) (wi_executionGroups w),
        wi_revision := wi_revision w + 1, wi_updatedAt := toISOString now\<rparr>)" by blast+
  then consider "v = w" | h where "h \<in> set (wi_executionGroups w)" "eg_id h = eg_id g"
    "wi_currentExecutionGroupId w = Some (eg_id g)" "assertExecutionGroupTransition port h g = None"
    "v = w\<lparr>wi_executionGroups := map (\<lambda>x. if eg_id x = eg_id g then g else x) (wi_executionGroups w),
       wi_revision := wi_revision w + 1, wi_updatedAt := toISOString now\<rparr>" by blast
  then show ?thesis
  proof cases
    case 1
    with valid show ?thesis by (simp add: item_progress_refl)
  next
    case 2
    have "group_identity g = group_identity x" if "x \<in> set (wi_executionGroups w)" "eg_id x = eg_id g" for x
      using distinct_by_id [OF item_valid_groups(2) [OF valid(1)] that(1) 2(1)] that(2) 2(2) transition_ok [OF 2(4)] by simp
    then have "map group_identity (wi_executionGroups v) = map group_identity (wi_executionGroups w)"
      using 2(5) by simp
    moreover have "x \<in> set (wi_executionGroups v)" if "x \<in> set (wi_executionGroups w)" "eg_id x \<noteq> eg_id g" for x
      using that 2(5) by force
    ultimately show ?thesis using 2(3,5) valid(2) by (auto simp: item_defs simp del: map_map)
  qed
qed

datatype 'l work_item_command =
    Edit_definition definition_update | Submit_candidate candidate_input
  | Set_status work_item_status "string option" "string option" | Attach_group "'l execution_group"
  | Update_group "'l execution_group" | Retire_item disposition_input | Prepare_dispatch
  | Record_cleanup workspace_disposition | Extend_write_projects "string list"

fun work_item_step ::
  "'l launch_port \<Rightarrow> string \<Rightarrow> time \<times> 'l work_item_command \<Rightarrow> 'l work_item \<Rightarrow> work_item_error + 'l work_item" where
  "work_item_step port cwd (now, Edit_definition u) w = editWorkItemDefinition port cwd w u now"
| "work_item_step port cwd (now, Submit_candidate c) w = submitWorkItemCandidate port cwd w c now"
| "work_item_step port cwd (now, Set_status s out cand) w = updateWorkItemStatus port cwd w s now out cand"
| "work_item_step port cwd (now, Attach_group g) w = attachWorkItemExecutionGroup port cwd w g now"
| "work_item_step port cwd (now, Update_group g) w = updateWorkItemExecutionGroup port cwd w g now"
| "work_item_step port cwd (now, Retire_item d) w = retireWorkItem port cwd w d now"
| "work_item_step port cwd (now, Prepare_dispatch) w = prepareWorkItemDispatch port cwd w now"
| "work_item_step port cwd (now, Record_cleanup d) w = recordWorkItemWorkspaceDisposition port cwd w d now"
| "work_item_step port cwd (now, Extend_write_projects ps) w = updateWorkItemWriteProjects port cwd w ps now"

lemmas command_progress =
  edit_progress submit_progress status_progress attach_progress updateGroup_progress retire_progress prepare_progress
  cleanup_progress write_projects_progress

lemma work_item_step_progress: "work_item_step port cwd c w = Inr v \<Longrightarrow> item_progress port cwd w v"
  by (induction port cwd c w rule: work_item_step.induct) (simp_all add: command_progress)

interpretation items: identified_system "item_valid port cwd" "work_item_step port cwd" "\<lambda>_. True" item_identity for port cwd
  by unfold_locales (auto dest!: work_item_step_progress simp: item_progress_def)

interpretation item_history: ratchet_system "item_valid port cwd" "work_item_step port cwd" "\<lambda>_. True" item_below for port cwd
  by unfold_locales (auto dest: work_item_step_progress intro: item_below_trans simp: item_progress_def)

lemma createWorkItem_Inr:
  assumes "createWorkItem port cwd i t input now = Inr w"
  shows "item_valid port cwd w" "wi_status w = Item_open" "wi_candidates w = []" "wi_revision w = 1" "wi_disposition w = None"
    "requireIdentity i = Inr (wi_id w)" "requireIdentity t = Inr (wi_taskId w)"
  using assms by (auto simp: createWorkItem_def bind_result_Inr map_error_Inr validateWorkItem_Inr)

subsection \<open>Candidates and acceptance\<close>

lemma item_valid_candidates:
  assumes "item_valid port cwd w"
  shows "\<forall>j < length (wi_candidates w). wc_sequence (wi_candidates w ! j) = int j + 1 \<and>
      wc_taskId (wi_candidates w ! j) = wi_taskId w \<and> wc_workItemId (wi_candidates w ! j) = wi_id w \<and>
      wc_workItemRevision (wi_candidates w ! j) \<le> wi_revision w \<and>
      wc_id (wi_candidates w ! j) = ''candidate-'' @ show_int (wc_sequence (wi_candidates w ! j))"
    "distinct (map wc_id (wi_candidates w))"
    "\<And>i. wi_acceptedCandidateId w = Some i \<Longrightarrow> wi_status w = Item_accepted \<and> i \<in> wc_id ` set (wi_candidates w)"
    "wi_status w = Item_accepted \<Longrightarrow> wi_candidates w \<noteq> [] \<Longrightarrow> wi_acceptedCandidateId w \<noteq> None"
    "\<And>i. wi_currentCandidateId w = Some i \<Longrightarrow> i \<in> wc_id ` set (wi_candidates w)"
proof -
  have e: "first_error (candidate_errors cwd w) = None"
    using assms by (simp add: item_valid_def validateWorkItem_def check_Inr)
  then have c: "candidates_error cwd w 0 [] (wi_candidates w) = None" by (simp add: candidate_errors_def Let_def)
  from candidates_error_None [OF this] show "distinct (map wc_id (wi_candidates w))"
    "\<forall>j < length (wi_candidates w). wc_sequence (wi_candidates w ! j) = int j + 1 \<and>
      wc_taskId (wi_candidates w ! j) = wi_taskId w \<and> wc_workItemId (wi_candidates w ! j) = wi_id w \<and>
      wc_workItemRevision (wi_candidates w ! j) \<le> wi_revision w \<and>
      wc_id (wi_candidates w ! j) = ''candidate-'' @ show_int (wc_sequence (wi_candidates w ! j))" by auto
  from e show "\<And>i. wi_acceptedCandidateId w = Some i \<Longrightarrow> wi_status w = Item_accepted \<and> i \<in> wc_id ` set (wi_candidates w)"
    "wi_status w = Item_accepted \<Longrightarrow> wi_candidates w \<noteq> [] \<Longrightarrow> wi_acceptedCandidateId w \<noteq> None"
    "\<And>i. wi_currentCandidateId w = Some i \<Longrightarrow> i \<in> wc_id ` set (wi_candidates w)"
    by (auto simp: candidate_errors_def Let_def)
qed

lemma find_by_id: "distinct (map f xs) \<Longrightarrow> x \<in> set xs \<Longrightarrow> find (\<lambda>y. Some (f y) = Some (f x)) xs = Some x"
  by (induction xs) (auto simp: image_iff)

lemma item_valid_outcome:
  assumes "item_valid port cwd w"
  shows "(wi_status w = Item_open) = (wi_outcome w = None)" "(wi_status w = Item_open) = (wi_endedAt w = None)"
proof -
  have "first_error (outcome_errors w) = None"
    using assms by (simp add: item_valid_def validateWorkItem_def check_Inr)
  moreover have "requireText [] = Inl Required" "requireTimestamp [] = Inl Not_timestamp" by code_simp+
  ultimately show "(wi_status w = Item_open) = (wi_outcome w = None)" "(wi_status w = Item_open) = (wi_endedAt w = None)"
    by (auto simp: outcome_errors_def isTerminalStatus_def split: if_splits) (cases "wi_status w"; auto)+
qed

lemma item_valid_disposition:
  assumes "item_valid port cwd w" "wi_status w \<noteq> Item_retired"
  shows "wi_disposition w = None"
proof -
  have "first_error (outcome_errors w) = None"
    using assms(1) by (simp add: item_valid_def validateWorkItem_def check_Inr)
  with assms(2) show ?thesis by (cases "wi_disposition w") (auto simp: outcome_errors_def)
qed

lemma candidates_error_mono:
  assumes "candidates_error cwd w k seen cs = None" "wi_taskId v = wi_taskId w" "wi_id v = wi_id w"
    "wi_revision w \<le> wi_revision v"
  shows "candidates_error cwd v k seen cs = None"
  using assms by (induction cs arbitrary: k seen) auto

text \<open>A change of status, outcome, selected candidate and times keeps the rest of the validation.\<close>

lemma definition_errors_kept:
  assumes "item_valid port cwd w" "wi_revision w < max_safe_integer"
  shows "first_error (definition_errors (w\<lparr>wi_status := st, wi_revision := wi_revision w + 1, wi_outcome := out,
      wi_acceptedCandidateId := acc, wi_currentCandidateId := cur, wi_updatedAt := upd, wi_endedAt := fin\<rparr>)) = None"
proof -
  have d: "first_error (definition_errors w) = None"
    using assms(1) by (simp add: item_valid_def validateWorkItem_def check_Inr)
  then have "1 \<le> wi_revision w" by (simp add: definition_errors_def)
  then have "isSafeInteger (wi_revision w + 1)" using assms(2) by (simp add: isSafeInteger_iff)
  with d \<open>1 \<le> wi_revision w\<close> show ?thesis
    by (simp add: definition_errors_def base_refs_error_def cong: sum.case_cong)
qed

lemma settle_valid:
  fixes w :: "'l work_item"
  defines "v st out acc cur upd fin \<equiv> w\<lparr>wi_status := st, wi_revision := wi_revision w + 1, wi_outcome := out,
      wi_acceptedCandidateId := acc, wi_currentCandidateId := cur, wi_updatedAt := upd, wi_endedAt := fin\<rparr>"
  assumes w: "item_valid port cwd w" "wi_revision w < max_safe_integer" "wi_disposition w = None"
    and time: "Date_parse upd \<noteq> None"
    and outcome: "case out of None \<Rightarrow> st = Item_open \<and> fin = None
      | Some t \<Rightarrow> st = Item_accepted \<and> fin = Some upd \<and> requireText t = Inr t"
    and candidates: "case acc of None \<Rightarrow> st = Item_accepted \<longrightarrow> wi_candidates w = []
      | Some i \<Rightarrow> st = Item_accepted \<and> i \<in> wc_id ` set (wi_candidates w)" "cur = None"
  shows "item_valid port cwd (v st out acc cur upd fin)"
proof -
  have e: "first_error (execution_errors port w) = None" "first_error (candidate_errors cwd w) = None"
    "first_error (outcome_errors w) = None"
    using w(1) by (simp_all add: item_valid_def validateWorkItem_def check_Inr)
  have "first_error (definition_errors (v st out acc cur upd fin)) = None"
    unfolding v_def by (rule definition_errors_kept [OF w(1,2)])
  moreover have "first_error (execution_errors port (v st out acc cur upd fin)) = None"
    using e(1) by (simp add: execution_errors_def v_def)
  moreover have "first_error (candidate_errors cwd (v st out acc cur upd fin)) = None"
  proof -
    have "candidates_error cwd w 0 [] (wi_candidates w) = None" using e(2) by (simp add: candidate_errors_def Let_def)
    then have "candidates_error cwd (v st out acc cur upd fin) 0 [] (wi_candidates w) = None"
      by (rule candidates_error_mono) (simp_all add: v_def)
    with candidates show ?thesis by (cases acc) (auto simp: candidate_errors_def v_def Let_def)
  qed
  moreover have "first_error (outcome_errors (v st out acc cur upd fin)) = None"
    using e(3) w(3) time outcome
    by (cases out) (auto simp: outcome_errors_def v_def isTerminalStatus_def requireTimestamp_def)
  ultimately show ?thesis by (simp add: item_valid_def validateWorkItem_def)
qed

lemma accept_total:
  assumes "item_valid port cwd w" "wi_status w = Item_open" "wi_revision w < max_safe_integer" "valid_time now"
    "requireText out = Inr out'" "wi_currentCandidateId w = Some i"
  shows "\<exists>v. updateWorkItemStatus port cwd w Item_accepted now (Some out) None = Inr v \<and> item_valid port cwd v \<and>
    wi_status v = Item_accepted \<and> wi_acceptedCandidateId v = Some i \<and> wi_candidates v = wi_candidates w \<and>
    wi_revision v = wi_revision w + 1 \<and> wi_disposition v = None"
proof -
  have d: "wi_disposition w = None" using assms(1,2) by (simp add: item_valid_disposition)
  have a: "wi_acceptedCandidateId w = None"
    using item_valid_candidates(3) [OF assms(1)] assms(2) by (cases "wi_acceptedCandidateId w") auto
  have "item_valid port cwd (w\<lparr>wi_status := Item_accepted, wi_revision := wi_revision w + 1, wi_outcome := Some out',
      wi_acceptedCandidateId := Some i, wi_currentCandidateId := None, wi_updatedAt := toISOString now,
      wi_endedAt := Some (toISOString now)\<rparr>)"
    using assms item_valid_candidates(5) [OF assms(1,6)] requireText_idem [OF assms(5)]
    by (intro settle_valid) (auto simp: d)
  with assms d a show ?thesis
    by (simp add: updateWorkItemStatus_def item_valid_def optional_value_def isTerminalStatus_def or_else_def)
qed

lemma withdraw_total:
  assumes "item_valid port cwd w" "wi_status w = Item_accepted" "wi_revision w < max_safe_integer" "valid_time now"
  shows "\<exists>v. updateWorkItemStatus port cwd w Item_open now None None = Inr v \<and> item_valid port cwd v \<and>
    wi_status v = Item_open \<and> wi_currentCandidateId v = None \<and> wi_candidates v = wi_candidates w"
proof -
  have d: "wi_disposition w = None" using assms(1,2) by (simp add: item_valid_disposition)
  have "item_valid port cwd (w\<lparr>wi_status := Item_open, wi_revision := wi_revision w + 1, wi_outcome := None,
      wi_acceptedCandidateId := None, wi_currentCandidateId := None, wi_updatedAt := toISOString now, wi_endedAt := None\<rparr>)"
    using assms by (intro settle_valid) (auto simp: d)
  with assms d show ?thesis
    by (simp add: updateWorkItemStatus_def item_valid_def optional_value_def isTerminalStatus_def)
qed

lemma submit_Inr:
  assumes "submitWorkItemCandidate port cwd w input now = Inr v"
  shows "\<exists>c. wi_candidates v = wi_candidates w @ [c] \<and> wi_currentCandidateId v = Some (wc_id c) \<and> wi_status v = Item_open \<and>
    wi_revision v = wi_revision w + 1 \<and> wc_workItemRevision c = wi_revision v \<and> wc_summary c = ci_summary input \<and>
    wc_sequence c = int (length (wi_candidates w)) + 1 \<and> wc_source c = ci_source input \<and> item_valid port cwd v"
  using assms
  by (auto simp: submitWorkItemCandidate_def bind_result_Inr map_error_Inr validateWorkItem_Inr validateWorkItemCandidate_def
      check_Inr Let_def split: if_splits)

lemma current_candidate:
  assumes "item_valid port cwd w" "wi_status w = Item_open" "c \<in> set (wi_candidates w)" "wi_currentCandidateId w = Some (wc_id c)"
  shows "currentWorkItemCandidate w = Some c" "governingWorkItemCandidate w = Some c"
  using assms find_by_id [OF item_valid_candidates(2) [OF assms(1)] assms(3)]
  by (simp_all add: currentWorkItemCandidate_def governingWorkItemCandidate_def)

lemma accepted_candidate:
  assumes "item_valid port cwd w" "wi_status w = Item_accepted" "c \<in> set (wi_candidates w)" "wi_acceptedCandidateId w = Some (wc_id c)"
  shows "governingWorkItemCandidate w = Some c"
  using assms find_by_id [OF item_valid_candidates(2) [OF assms(1)] assms(3)]
  by (simp add: governingWorkItemCandidate_def)

text \<open>Only a change of status leads from accepted to open, and it drops the current candidate.\<close>

lemma status_withdrawn:
  "updateWorkItemStatus port cwd w st now out cand = Inr v \<Longrightarrow> wi_status w = Item_accepted \<Longrightarrow> wi_status v = Item_open \<Longrightarrow>
    wi_currentCandidateId v = None"
  by (auto simp: updateWorkItemStatus_def bind_result_Inr validateWorkItem_Inr isTerminalStatus_def Let_def split: if_splits)

lemma withdrawn:
  assumes "work_item_step port cwd c w = Inr v" "wi_status w = Item_accepted" "wi_status v = Item_open"
  shows "wi_currentCandidateId v = None"
proof (cases c)
  case (Pair now k)
  note step = assms(1) [unfolded Pair]
  show ?thesis
  proof (cases k)
    case (Edit_definition u)
    with step assms(2) show ?thesis by (simp add: editWorkItemDefinition_def bind_result_Inr)
  next
    case (Submit_candidate x)
    with step assms(2) show ?thesis by (simp add: submitWorkItemCandidate_def bind_result_Inr)
  next
    case (Set_status st out cand)
    with step assms(2,3) status_withdrawn show ?thesis by simp
  next
    case (Attach_group g)
    with attach_Inr [of port cwd w g now v] step assms(2,3) show ?thesis by auto
  next
    case (Update_group g)
    with updateGroup_Inr [of port cwd w g now v] attach_Inr [of port cwd w g now v] step assms(2,3) show ?thesis by auto
  next
    case (Retire_item d)
    with retire_Inr [of port cwd w d now v] step assms(2) show ?thesis by simp
  next
    case Prepare_dispatch
    with step assms(2) show ?thesis by (simp add: prepareWorkItemDispatch_def bind_result_Inr)
  next
    case (Record_cleanup d)
    with step assms(2,3) show ?thesis
      by (cases "wi_workspaceDisposition w")
        (auto simp: recordWorkItemWorkspaceDisposition_def bind_result_Inr validateWorkItem_Inr split: if_splits)
  next
    case (Extend_write_projects ps)
    with step assms(2) show ?thesis by (simp add: updateWorkItemWriteProjects_def isTerminalStatus_def bind_result_Inr)
  qed
qed

subsection \<open>Properties\<close>

definition demo_item_input :: "unit work_item_input" where
  "demo_item_input = \<lparr>ni_title = ''Fix'', ni_objective = None, ni_acceptance = [], ni_dependsOn = [], ni_assignee = None,
     ni_writeProjectIds = [''web''], ni_baseRefs = None, ni_executionGroups = [], ni_currentExecutionGroupId = None\<rparr>"

definition demo_item :: "unit work_item" where
  "demo_item = \<lparr>wi_id = ''work-item-1'', wi_taskId = ''task-1'', wi_title = ''Fix'', wi_objective = ''Fix'', wi_acceptance = [],
     wi_dependsOn = [], wi_writeProjectIds = [''web''], wi_executionGroups = [], wi_currentExecutionGroupId = None,
     wi_baseRefs = None, wi_revision = 1, wi_assignee = None, wi_status = Item_open, wi_candidates = [], wi_outcome = None,
     wi_disposition = None, wi_workspaceDisposition = None, wi_createdAt = demo_epoch, wi_updatedAt = demo_epoch,
     wi_endedAt = None, wi_acceptedCandidateId = None, wi_currentCandidateId = None\<rparr>"

definition demo_unit_port :: "unit launch_port" where
  "demo_unit_port = \<lparr>launch_valid = (\<lambda>_. True), launch_writeProjectIds = (\<lambda>_. [])\<rparr>"

definition demo_submission :: candidate_input where
  "demo_submission = \<lparr>ci_summary = ''done'', ci_source = Direct_source, ci_reviewPolicy = None, ci_contract = None,
     ci_executionGroupId = None, ci_executionLaneId = None, ci_workspace = None, ci_gitSnapshot = None,
     ci_taskMainSnapshot = None, ci_artifactRefs = None\<rparr>"

lemma demo_item_created:
  "createWorkItem demo_unit_port ''/'' ''work-item-1'' ''task-1'' demo_item_input 0 = Inr demo_item"
  by code_simp

definition demo_candidate :: work_candidate where
  "demo_candidate = \<lparr>wc_id = ''candidate-1'', wc_taskId = ''task-1'', wc_workItemId = ''work-item-1'', wc_sequence = 1,
     wc_workItemRevision = 2, wc_summary = ''done'', wc_source = Direct_source, wc_executionGroupId = None,
     wc_executionLaneId = None, wc_reviewPolicy = None, wc_contract = None, wc_workspace = None, wc_gitSnapshot = None,
     wc_taskMainSnapshot = None, wc_artifactRefs = None, wc_createdAt = demo_epoch\<rparr>"

definition demo_submitted :: "unit work_item" where
  "demo_submitted = demo_item\<lparr>wi_candidates := [demo_candidate], wi_currentCandidateId := Some ''candidate-1'', wi_revision := 2\<rparr>"

lemma demo_item_submitted: "submitWorkItemCandidate demo_unit_port ''/'' demo_item demo_submission 0 = Inr demo_submitted"
  by code_simp

text \<open>
  C20. A Work Item over any sequence of successful commands: it passes its validator and keeps its
  identity; its candidates belong to it, are numbered from one without gaps and are only ever
  appended, so that a submitted candidate is never changed; its execution Groups are only appended
  and keep identity and Assignment; a Group that is no longer current is frozen for good; and
  retirement, the retirement record and the recorded workspace cleanup stand.
\<close>

theorem work_item_run:
  assumes "createWorkItem port cwd i t input now = Inr w"
    "run_commands (work_item_step port cwd) cs w = Inr v" "run_commands (work_item_step port cwd) ds v = Inr u"
  shows "validateWorkItem port cwd u = Inr u \<and> (wi_id u, wi_taskId u, wi_createdAt u) = (wi_id w, wi_taskId w, wi_createdAt w) \<and>
    prefix (wi_candidates v) (wi_candidates u) \<and>
    (\<forall>j < length (wi_candidates u). wc_id (wi_candidates u ! j) = ''candidate-'' @ show_int (int j + 1) \<and>
      wc_workItemId (wi_candidates u ! j) = wi_id w) \<and>
    prefix (map group_identity (wi_executionGroups v)) (map group_identity (wi_executionGroups u)) \<and>
    (\<forall>g \<in> set (wi_executionGroups v). wi_currentExecutionGroupId v \<noteq> Some (eg_id g) \<longrightarrow> g \<in> set (wi_executionGroups u)) \<and>
    (wi_status v = Item_retired \<longrightarrow> wi_status u = Item_retired) \<and>
    (wi_disposition v \<noteq> None \<longrightarrow> wi_disposition u = wi_disposition v) \<and>
    (wi_workspaceDisposition v \<noteq> None \<longrightarrow> wi_workspaceDisposition u = wi_workspaceDisposition v)"
proof -
  note w = createWorkItem_Inr(1) [OF assms(1)]
  have adm: "list_all (\<lambda>_. True) xs" for xs :: "'x list" by (simp add: list_all_iff)
  note v = items.run_valid [OF w adm assms(2)] items.run_identity [OF w adm assms(2)]
  note u = items.run_valid [OF v(1) adm assms(3)] items.run_identity [OF v(1) adm assms(3)]
    item_history.run_below [OF v(1) adm assms(3)]
  from u v(2) item_valid_candidates(1) [OF u(1)] show ?thesis
    by (simp add: item_valid_def item_identity_def item_below_def)
qed

lemma work_item_run_witness:
  "validateWorkItem demo_unit_port ''/'' demo_submitted = Inr demo_submitted \<and> prefix (wi_candidates demo_item) (wi_candidates demo_submitted)"
  using work_item_run [OF demo_item_created, of "[]" demo_item "[(0, Submit_candidate demo_submission)]" demo_submitted]
    demo_item_submitted by simp

text \<open>
  C21. The lifecycle of a Work Item: a successful command that changes it raises its revision by
  exactly one and follows an edge of the graph open to accepted, open to retired, accepted to open;
  retired has no way out. An accepted Work Item with candidates is governed by exactly the one it
  accepted, an open one by its current candidate, and withdrawing an acceptance leaves no governing
  candidate. Only an open Work Item lacks an outcome and an end time.
\<close>

theorem work_item_lifecycle:
  assumes "validateWorkItem port cwd w = Inr w" "work_item_step port cwd c w = Inr v"
  shows "(v \<noteq> w \<longrightarrow> wi_revision v = wi_revision w + 1) \<and>
    (wi_status v \<noteq> wi_status w \<longrightarrow>
       (wi_status w, wi_status v) \<in> {(Item_open, Item_accepted), (Item_open, Item_retired), (Item_accepted, Item_open)}) \<and>
    (wi_status v = Item_accepted \<and> wi_candidates v \<noteq> [] \<longrightarrow>
       (\<exists>c \<in> set (wi_candidates v). governingWorkItemCandidate v = Some c \<and> wi_acceptedCandidateId v = Some (wc_id c))) \<and>
    (wi_status w = Item_accepted \<and> wi_status v = Item_open \<longrightarrow> governingWorkItemCandidate v = None) \<and>
    (wi_status v = Item_open \<longleftrightarrow> wi_outcome v = None) \<and> (wi_status v = Item_open \<longleftrightarrow> wi_endedAt v = None)"
proof -
  note p = work_item_step_progress [OF assms(2)]
  then have v: "item_valid port cwd v" by (simp add: item_progress_def)
  have "\<exists>c \<in> set (wi_candidates v). governingWorkItemCandidate v = Some c \<and> wi_acceptedCandidateId v = Some (wc_id c)"
    if a: "wi_status v = Item_accepted" "wi_candidates v \<noteq> []"
  proof -
    from item_valid_candidates(4) [OF v a] obtain i where i: "wi_acceptedCandidateId v = Some i" by blast
    with item_valid_candidates(3) [OF v i] obtain x where "x \<in> set (wi_candidates v)" "i = wc_id x" by blast
    with accepted_candidate [OF v a(1)] i show ?thesis by blast
  qed
  moreover have "governingWorkItemCandidate v = None" if "wi_status w = Item_accepted" "wi_status v = Item_open"
    using withdrawn [OF assms(2) that] that
    by (simp add: governingWorkItemCandidate_def currentWorkItemCandidate_def find_None_iff)
  moreover have "wi_status v \<noteq> wi_status w \<longrightarrow>
      (wi_status w, wi_status v) \<in> {(Item_open, Item_accepted), (Item_open, Item_retired), (Item_accepted, Item_open)}"
    "v \<noteq> w \<longrightarrow> wi_revision v = wi_revision w + 1"
    using p by (auto simp: item_progress_def item_edge_def)
  ultimately show ?thesis using item_valid_outcome [OF v] by blast
qed

lemma work_item_lifecycle_witness: "wi_revision demo_submitted = wi_revision demo_item + 1 \<and> wi_outcome demo_submitted = None"
proof -
  have "validateWorkItem demo_unit_port ''/'' demo_item = Inr demo_item" by code_simp
  moreover have "work_item_step demo_unit_port ''/'' (0, Submit_candidate demo_submission) demo_item = Inr demo_submitted"
    using demo_item_submitted by simp
  moreover have "demo_submitted \<noteq> demo_item" "wi_status demo_submitted = Item_open"
    by (simp_all add: demo_submitted_def demo_item_def)
  ultimately show ?thesis using work_item_lifecycle by blast
qed

text \<open>
  Submission, acceptance and withdrawal: a submitted candidate is appended with the next number
  and becomes the governing candidate; while the revision counter is not exhausted, accepting the
  Work Item with any non-empty outcome succeeds and freezes that candidate as the governing one;
  withdrawing the acceptance succeeds too, leaves the Work Item open with no governing candidate,
  and keeps every candidate as history.
\<close>

theorem candidate_acceptance:
  assumes "submitWorkItemCandidate port cwd w input now = Inr v" "wi_revision v + 1 < max_safe_integer" "valid_time later"
    "requireText out = Inr out'"
  shows "\<exists>c. wi_candidates v = wi_candidates w @ [c] \<and> wc_sequence c = int (length (wi_candidates v)) \<and>
      wc_summary c = ci_summary input \<and> wc_workItemRevision c = wi_revision v \<and> governingWorkItemCandidate v = Some c \<and>
    (\<exists>a. updateWorkItemStatus port cwd v Item_accepted later (Some out) None = Inr a \<and>
      governingWorkItemCandidate a = Some c \<and> currentWorkItemCandidate a = None \<and>
    (\<exists>b. updateWorkItemStatus port cwd a Item_open later None None = Inr b \<and> wi_status b = Item_open \<and>
      governingWorkItemCandidate b = None \<and> wi_candidates b = wi_candidates v))"
proof -
  from submit_Inr [OF assms(1)] obtain c where c: "wi_candidates v = wi_candidates w @ [c]"
    "wi_currentCandidateId v = Some (wc_id c)" "wi_status v = Item_open" "wc_workItemRevision c = wi_revision v"
    "wc_summary c = ci_summary input" "wc_sequence c = int (length (wi_candidates w)) + 1" "item_valid port cwd v" by blast
  have "c \<in> set (wi_candidates v)" using c(1) by simp
  note g = current_candidate(2) [OF c(7,3) this c(2)]
  from accept_total [OF c(7,3) _ assms(3,4) c(2)] assms(2) obtain a where
    a: "updateWorkItemStatus port cwd v Item_accepted later (Some out) None = Inr a" "item_valid port cwd a"
      "wi_status a = Item_accepted" "wi_acceptedCandidateId a = Some (wc_id c)" "wi_candidates a = wi_candidates v"
      "wi_revision a = wi_revision v + 1" by auto
  have ga: "governingWorkItemCandidate a = Some c"
    using accepted_candidate [OF a(2,3) _ a(4)] a(5) c(1) by simp
  from withdraw_total [OF a(2,3) _ assms(3)] assms(2) a(6) obtain b where
    b: "updateWorkItemStatus port cwd a Item_open later None None = Inr b" "wi_status b = Item_open"
      "wi_currentCandidateId b = None" "wi_candidates b = wi_candidates a" by auto
  have gb: "governingWorkItemCandidate b = None"
    using b(2,3) by (simp add: governingWorkItemCandidate_def currentWorkItemCandidate_def find_None_iff)
  have "currentWorkItemCandidate a = None" using a(3) by (simp add: currentWorkItemCandidate_def)
  with c g a(1,5) ga b gb show ?thesis by auto
qed

lemma candidate_acceptance_witness: "governingWorkItemCandidate demo_submitted = Some demo_candidate"
proof -
  have "wi_revision demo_submitted + 1 < max_safe_integer" "valid_time 0" "requireText ''ok'' = Inr ''ok''" by code_simp+
  from candidate_acceptance [OF demo_item_submitted this]
  show ?thesis by (auto simp: demo_submitted_def demo_item_def)
qed

text \<open>
  The dependency gate lets a Work Item start exactly when every Work Item it directly depends on
  exists and is accepted; otherwise it reports exactly the unmet ones, each with its status, in
  the order of the declaration.
\<close>

theorem dependency_gate_exact:
  "(assertWorkItemDependenciesCompleted get w = None \<longleftrightarrow>
      list_all (\<lambda>d. \<exists>x. get (wi_taskId w) d = Some x \<and> wi_status x = Item_accepted) (wi_dependsOn w)) \<and>
   (\<forall>i unmet. assertWorkItemDependenciesCompleted get w = Some (i, unmet) \<longrightarrow> i = wi_id w \<and>
      map fst unmet = filter (\<lambda>d. \<not> (\<exists>x. get (wi_taskId w) d = Some x \<and> wi_status x = Item_accepted)) (wi_dependsOn w) \<and>
      list_all (\<lambda>(d, s). s = (case get (wi_taskId w) d of None \<Rightarrow> Dependency_missing | Some x \<Rightarrow> Dependency_status (wi_status x))) unmet)"
proof -
  let ?met = "\<lambda>d. \<exists>x. get (wi_taskId w) d = Some x \<and> wi_status x = Item_accepted"
  let ?f = "\<lambda>d. case get (wi_taskId w) d of None \<Rightarrow> [(d, Dependency_missing)]
    | Some x \<Rightarrow> if wi_status x = Item_accepted then [] else [(d, Dependency_status (wi_status x))]"
  have f: "?f d = (if ?met d then [] else [(d, case get (wi_taskId w) d of None \<Rightarrow> Dependency_missing
      | Some x \<Rightarrow> Dependency_status (wi_status x))])" for d
    by (cases "get (wi_taskId w) d") auto
  have m: "map fst (concat (map ?f ds)) = filter (\<lambda>d. \<not> ?met d) ds" for ds
    unfolding f by (induction ds) auto
  have s: "list_all (\<lambda>(d, s). s = (case get (wi_taskId w) d of None \<Rightarrow> Dependency_missing
      | Some x \<Rightarrow> Dependency_status (wi_status x))) (concat (map ?f ds))" for ds
    unfolding f by (induction ds) auto
  have "concat (map ?f ds) = [] \<longleftrightarrow> list_all ?met ds" for ds
    using m [of ds] by (metis (no_types, lifting) Nil_is_map_conv filter_empty_conv list_all_iff)
  then show ?thesis using m s
    by (simp add: assertWorkItemDependenciesCompleted_def unmetDependencies_def Let_def)
qed

lemma dependency_gate_exact_witness:
  "assertWorkItemDependenciesCompleted (\<lambda>_ _. None) (demo_item\<lparr>wi_dependsOn := [''work-item-2'']\<rparr>) \<noteq> None"
  using dependency_gate_exact [of "\<lambda>_ _. None" "demo_item\<lparr>wi_dependsOn := [''work-item-2'']\<rparr>"] by simp

end
