(* ===== verification/Review_Round.thy ===== *)
theory Review_Round
  imports Work_Candidate Work_Item_Execution
begin

text \<open>
  Review rounds (\<open>src/src/review/reviewRound.ts\<close>): one review of a candidate of a Work Item or of the
  frozen heads of a whole Task, with its workspace, an optional replicated panel of reviewers, its
  outcome and its retries.

  \<open>port\<close> is the launch port of \<open>Work_Item_Execution\<close>, \<open>cwd\<close> the current directory for path
  resolution. Where the code compares two records by their JSON text the model compares the records.
\<close>

subsection \<open>The record\<close>

datatype round_status = Round_pending | Round_running | Round_completed | Round_failed

datatype review_source = Source_policy | Source_user | Source_operator | Source_leader

datatype review_workspace_disposition = Review_preserved | Review_reassigned | Review_removed

record delta_recheck =
  dr_previousReviewRoundId :: string
  dr_previousBaseCommit :: string
  dr_diffDigest :: string
  dr_changedFiles :: "string list"
  dr_addedLines :: int
  dr_deletedLines :: int

record task_review_candidate =
  tc_projects :: "snapshot_commit list"

datatype failure_kind = Failed_dispatch | Failed_execution | Failed_quorum

record round_failure =
  rf_kind :: failure_kind
  rf_message :: string

record 'l review_round =
  rr_id :: string
  rr_taskId :: string
  rr_workItemId :: "string option"
  rr_candidateId :: "string option"
  rr_reviewerRoleName :: string
  rr_reviewerRunId :: "string option"
  rr_reviewBaseCommit :: string
  rr_scope :: review_scope
  rr_taskCandidate :: "task_review_candidate option"
  rr_contract :: "final_review_contract option"
  rr_deltaRecheck :: "delta_recheck option"
  rr_executionGroup :: "'l execution_group option"
  rr_workspace :: "managed_workspace option"
  rr_requestedBy :: review_source
  rr_status :: round_status
  rr_failure :: "round_failure option"
  rr_workspaceDisposition :: "(review_workspace_disposition \<times> string) option"
  rr_createdAt :: string
  rr_endedAt :: "string option"

datatype round_field =
    RF_id | RF_task | RF_workItem | RF_candidate | RF_role | RF_base | RF_run | RF_project | RF_commit | RF_previous
  | RF_previousBase | RF_message | RF_contract | RF_createdAt | RF_endedAt | RF_recordedAt

datatype round_error =
    Round_field round_field field_error
  | Round_reference reference_error
  | Round_execution execution_error
  | Round_workspace workspace_error
  | Task_round_anchor | Task_candidate_required | Task_candidate_empty | Task_candidate_duplicated | Task_round_base
  | Round_contract_task | Round_contract_role | Item_round_anchor | Candidate_local_id | Item_round_task_metadata
  | Delta_scope | Delta_digest | Delta_files | Delta_lines
  | Group_not_review | Round_group_provenance | Round_group_target | Reviewer_is_lane
  | Round_workspace_task | Round_workspace_owner | Round_workspace_entries | Round_workspace_base
  | Completed_without_run | Completed_with_failure | Failed_without_failure | Active_with_terminal
  | Running_without_workspace | Running_without_reviewer | Disposition_not_terminal
  | Round_not_pending | Round_workspace_immutable | Round_group_immutable | Round_not_startable | Workspace_not_ready
  | Not_replicated | Already_terminal | Not_retryable | Not_task_scope | No_running_group | Not_current_attempt
  | Round_not_terminal | No_workspace | Workspace_already_removed

abbreviation round_field :: "round_field \<Rightarrow> field_error + 'a \<Rightarrow> round_error + 'a" where
  "round_field f \<equiv> map_error (Round_field f)"

abbreviation round_check :: "round_field \<Rightarrow> field_error + 'a \<Rightarrow> round_error option" where
  "round_check f r \<equiv> failure (round_field f r)"

subsection \<open>Validation\<close>

definition review_project :: "snapshot_commit \<Rightarrow> round_error + snapshot_commit" where
  "review_project p =
     bind_result (round_field RF_project (requireIdentity (sc_projectId p))) (\<lambda>projectId.
     bind_result (round_field RF_commit (requireCommit (sc_commit p))) (\<lambda>commit.
       Inr \<lparr>sc_projectId = projectId, sc_commit = commit\<rparr>))"

definition validateTaskReviewCandidate :: "task_review_candidate \<Rightarrow> round_error + task_review_candidate" where
  "validateTaskReviewCandidate candidate =
     (if tc_projects candidate = [] then Inl Task_candidate_empty
      else
      bind_result (map_result review_project (tc_projects candidate)) (\<lambda>projects.
      if \<not> distinct (map sc_projectId projects) then Inl Task_candidate_duplicated
      else Inr \<lparr>tc_projects = projects\<rparr>))"

text \<open>\<open>Number.isInteger\<close> holds of every \<open>int\<close>.\<close>

definition validateDeltaRecheckRecord :: "delta_recheck \<Rightarrow> round_error + delta_recheck" where
  "validateDeltaRecheckRecord r = check
     [round_check RF_previous (requireIdentity (dr_previousReviewRoundId r)),
      round_check RF_previousBase (requireCommit (dr_previousBaseCommit r)),
      reject (\<not> is_digest (dr_diffDigest r)) Delta_digest,
      reject (\<exists>f \<in> set (dr_changedFiles r). trim f = []) Delta_files,
      reject (dr_addedLines r < 0 \<or> dr_deletedLines r < 0) Delta_lines] r"

definition isDeltaRecheckRound :: "'l review_round \<Rightarrow> bool" where
  "isDeltaRecheckRound r \<longleftrightarrow> rr_deltaRecheck r \<noteq> None"

definition validateReviewRoundFailure :: "round_failure \<Rightarrow> round_error + round_failure" where
  "validateReviewRoundFailure f = check [round_check RF_message (requireText (rf_message f))] f"

definition validateReviewExecutionGroup ::
  "'l launch_port \<Rightarrow> 'l execution_group \<Rightarrow> 'l review_round \<Rightarrow> round_error + 'l execution_group" where
  "validateReviewExecutionGroup port g r =
     bind_result (map_error Round_execution (validateExecutionGroup port g)) (\<lambda>_.
     case eg_assignment g of
       Work_assignment _ \<Rightarrow> Inl Group_not_review
     | Review_assignment a \<Rightarrow> check
         [map_option Round_execution (validateReviewExecutionAssignment a),
          reject (eg_taskId g \<noteq> rr_taskId r \<or> ra_taskId a \<noteq> rr_taskId r \<or> ra_reviewRoundId a \<noteq> rr_id r
            \<or> ra_reviewBaseCommit a \<noteq> rr_reviewBaseCommit r \<or> ra_scope a \<noteq> rr_scope r) Round_group_provenance,
          reject (rr_scope r = Review_of_work_item
            \<and> (ra_workItemId a \<noteq> rr_workItemId r \<or> ra_candidateId a \<noteq> rr_candidateId r)) Round_group_target,
          reject (\<exists>l \<in> set (eg_lanes g). el_roleName l = rr_reviewerRoleName r) Reviewer_is_lane] g)"

fun owner_taskId :: "workspace_owner \<Rightarrow> string" where
  "owner_taskId (Owner_task t) = t"
| "owner_taskId (Owner_work_item t _) = t"
| "owner_taskId (Owner_review_round t _) = t"
| "owner_taskId (Owner_integration t _) = t"
| "owner_taskId (Owner_lane t _ _ _ _ _) = t"

definition owned_by_round :: "string \<Rightarrow> workspace_owner \<Rightarrow> bool" where
  "owned_by_round i owner = (case owner of Owner_review_round _ j \<Rightarrow> j = i | _ \<Rightarrow> False)"

definition validateReviewWorkspace :: "string \<Rightarrow> 'l review_round \<Rightarrow> managed_workspace \<Rightarrow> round_error option" where
  "validateReviewWorkspace cwd r w = first_error
     [failure (map_error Round_workspace (validateManagedWorkspace cwd w)),
      reject (owner_taskId (mw_owner w) \<noteq> rr_taskId r) Round_workspace_task,
      reject (\<not> owned_by_round (rr_id r) (mw_owner w)) Round_workspace_owner,
      reject (mw_entries w = [] \<or> (\<exists>e \<in> set (mw_entries w). we_access e \<noteq> project_access.Access_write)) Round_workspace_entries,
      reject (\<not> (\<exists>e \<in> set (mw_entries w). we_baseCommit e = rr_reviewBaseCommit r)) Round_workspace_base]"

definition round_contract_error :: "'l review_round \<Rightarrow> final_review_contract \<Rightarrow> round_error option" where
  "round_contract_error r value =
     (case round_field RF_contract (validateTaskFinalReviewContract value) of
        Inl e \<Rightarrow> Some e
      | Inr contract \<Rightarrow> first_error
          [reject (fr_taskId contract \<noteq> rr_taskId r) Round_contract_task,
           reject (fr_reviewerRoleName contract \<noteq> rr_reviewerRoleName r) Round_contract_role])"

definition candidate_local_id_ok :: "string \<Rightarrow> bool" where
  "candidate_local_id_ok s \<longleftrightarrow> record_number ''candidate'' s \<noteq> None"

definition scope_error :: "'l review_round \<Rightarrow> round_error option" where
  "scope_error r =
     (case rr_scope r of
        Review_of_task \<Rightarrow>
          if rr_workItemId r \<noteq> None \<or> rr_candidateId r \<noteq> None then Some Task_round_anchor
          else (case rr_taskCandidate r of
              None \<Rightarrow> Some Task_candidate_required
            | Some c \<Rightarrow> (case validateTaskReviewCandidate c of
                Inl e \<Rightarrow> Some e
              | Inr candidate \<Rightarrow> first_error
                  [reject (map sc_commit (take 1 (tc_projects candidate)) \<noteq> [rr_reviewBaseCommit r]) Task_round_base,
                   when_some (rr_contract r) (round_contract_error r)]))
      | Review_of_work_item \<Rightarrow>
          (case (rr_workItemId r, rr_candidateId r) of
             (Some i, Some c) \<Rightarrow> first_error
               [failure (map_error Round_reference (validateTaskRecordReference (task_reference (rr_taskId r) i) K_workItem)),
                reject (\<not> candidate_local_id_ok c) Candidate_local_id,
                reject (rr_taskCandidate r \<noteq> None \<or> rr_contract r \<noteq> None) Item_round_task_metadata]
           | _ \<Rightarrow> Some Item_round_anchor))"

definition terminal_round :: "round_status \<Rightarrow> bool" where
  "terminal_round s \<longleftrightarrow> s = Round_completed \<or> s = Round_failed"

definition progress_error :: "'l review_round \<Rightarrow> round_error option" where
  "progress_error r = first_error
     [(if terminal_round (rr_status r) then first_error
         [reject (rr_status r = Round_completed \<and> rr_reviewerRunId r = None) Completed_without_run,
          reject (rr_status r = Round_completed \<and> rr_failure r \<noteq> None) Completed_with_failure,
          reject (rr_status r = Round_failed \<and> rr_failure r = None) Failed_without_failure,
          when_some (rr_failure r) (\<lambda>f. failure (validateReviewRoundFailure f)),
          round_check RF_endedAt (requireTimestamp (case rr_endedAt r of None \<Rightarrow> [] | Some t \<Rightarrow> t))]
       else reject (rr_failure r \<noteq> None \<or> rr_endedAt r \<noteq> None) Active_with_terminal),
      reject (rr_status r = Round_running \<and> rr_workspace r = None) Running_without_workspace,
      reject (rr_status r = Round_running \<and> rr_reviewerRunId r = None \<and> rr_executionGroup r = None) Running_without_reviewer,
      when_some (rr_workspaceDisposition r) (\<lambda>d. first_error
        [reject (\<not> terminal_round (rr_status r) \<or> rr_workspace r = None) Disposition_not_terminal,
         round_check RF_recordedAt (requireTimestamp (snd d))])]"

definition validateReviewRound :: "'l launch_port \<Rightarrow> string \<Rightarrow> 'l review_round \<Rightarrow> round_error + 'l review_round" where
  "validateReviewRound port cwd r = check
     [failure (map_error Round_reference (validateTaskRecordReference (task_reference (rr_taskId r) (rr_id r)) K_reviewRound)),
      round_check RF_role (requireIdentity (rr_reviewerRoleName r)),
      round_check RF_base (requireCommit (rr_reviewBaseCommit r)),
      scope_error r,
      when_some (rr_executionGroup r) (\<lambda>g. failure (validateReviewExecutionGroup port g r)),
      when_some (rr_deltaRecheck r) (\<lambda>d. first_error
        [reject (rr_scope r \<noteq> Review_of_task) Delta_scope, failure (validateDeltaRecheckRecord d)]),
      when_some (rr_reviewerRunId r) (\<lambda>i.
        failure (map_error Round_reference (validateTaskRecordReference (task_reference (rr_taskId r) i) K_run))),
      when_some (rr_workspace r) (validateReviewWorkspace cwd r),
      round_check RF_createdAt (requireTimestamp (rr_createdAt r)),
      progress_error r] r"

subsection \<open>Operations\<close>

definition createReviewRound ::
  "'l launch_port \<Rightarrow> string \<Rightarrow> string \<Rightarrow> string \<Rightarrow> string \<Rightarrow> string \<Rightarrow> string \<Rightarrow> review_source \<Rightarrow> string \<Rightarrow> time
     \<Rightarrow> 'l execution_group option \<Rightarrow> round_error + 'l review_round" where
  "createReviewRound port cwd i taskId workItemId candidateId reviewerRoleName requestedBy reviewBaseCommit now executionGroup =
     bind_result (round_field RF_id (requireIdentity i)) (\<lambda>roundId.
     bind_result (round_field RF_task (requireIdentity taskId)) (\<lambda>task.
     bind_result (round_field RF_workItem (requireIdentity workItemId)) (\<lambda>item.
     bind_result (round_field RF_candidate (requireIdentity candidateId)) (\<lambda>candidate.
     bind_result (round_field RF_role (requireIdentity reviewerRoleName)) (\<lambda>role.
     bind_result (round_field RF_base (requireCommit reviewBaseCommit)) (\<lambda>base.
       validateReviewRound port cwd
         \<lparr>rr_id = roundId, rr_taskId = task, rr_workItemId = Some item, rr_candidateId = Some candidate,
          rr_reviewerRoleName = role, rr_reviewerRunId = None, rr_reviewBaseCommit = base, rr_scope = Review_of_work_item,
          rr_taskCandidate = None, rr_contract = None, rr_deltaRecheck = None, rr_executionGroup = executionGroup,
          rr_workspace = None, rr_requestedBy = requestedBy, rr_status = Round_pending, rr_failure = None,
          rr_workspaceDisposition = None, rr_createdAt = toISOString now, rr_endedAt = None\<rparr>))))))"

text \<open>\<open>createTaskReviewRound\<close> and \<open>createTaskDeltaReviewRound\<close> differ in the delta record only, which the
  latter validates after the other fields.\<close>

definition task_round ::
  "'l launch_port \<Rightarrow> string \<Rightarrow> string \<Rightarrow> string \<Rightarrow> string \<Rightarrow> review_source \<Rightarrow> task_review_candidate \<Rightarrow> delta_recheck option \<Rightarrow> time
     \<Rightarrow> final_review_contract option \<Rightarrow> 'l execution_group option \<Rightarrow> round_error + 'l review_round" where
  "task_round port cwd i taskId reviewerRoleName requestedBy taskCandidate delta now contract executionGroup =
     bind_result (validateTaskReviewCandidate taskCandidate) (\<lambda>candidate.
     bind_result (round_field RF_id (requireIdentity i)) (\<lambda>roundId.
     bind_result (round_field RF_task (requireIdentity taskId)) (\<lambda>task.
     bind_result (round_field RF_role (requireIdentity reviewerRoleName)) (\<lambda>role.
     bind_result (optional_value validateDeltaRecheckRecord delta) (\<lambda>deltaRecheck.
       validateReviewRound port cwd
         \<lparr>rr_id = roundId, rr_taskId = task, rr_workItemId = None, rr_candidateId = None,
          rr_reviewerRoleName = role, rr_reviewerRunId = None, rr_reviewBaseCommit = sc_commit (hd (tc_projects candidate)),
          rr_scope = Review_of_task, rr_taskCandidate = Some candidate, rr_contract = contract,
          rr_deltaRecheck = deltaRecheck, rr_executionGroup = executionGroup,
          rr_workspace = None, rr_requestedBy = requestedBy, rr_status = Round_pending, rr_failure = None,
          rr_workspaceDisposition = None, rr_createdAt = toISOString now, rr_endedAt = None\<rparr>)))))"

definition createTaskReviewRound ::
  "'l launch_port \<Rightarrow> string \<Rightarrow> string \<Rightarrow> string \<Rightarrow> string \<Rightarrow> review_source \<Rightarrow> task_review_candidate \<Rightarrow> time
     \<Rightarrow> final_review_contract option \<Rightarrow> 'l execution_group option \<Rightarrow> round_error + 'l review_round" where
  "createTaskReviewRound port cwd i taskId reviewerRoleName requestedBy taskCandidate now contract executionGroup =
     task_round port cwd i taskId reviewerRoleName requestedBy taskCandidate None now contract executionGroup"

definition createTaskDeltaReviewRound ::
  "'l launch_port \<Rightarrow> string \<Rightarrow> string \<Rightarrow> string \<Rightarrow> string \<Rightarrow> review_source \<Rightarrow> task_review_candidate \<Rightarrow> delta_recheck \<Rightarrow> time
     \<Rightarrow> final_review_contract option \<Rightarrow> 'l execution_group option \<Rightarrow> round_error + 'l review_round" where
  "createTaskDeltaReviewRound port cwd i taskId reviewerRoleName requestedBy taskCandidate delta now contract executionGroup =
     task_round port cwd i taskId reviewerRoleName requestedBy taskCandidate (Some delta) now contract executionGroup"

definition attachReviewRoundWorkspace ::
  "'l launch_port \<Rightarrow> string \<Rightarrow> 'l review_round \<Rightarrow> managed_workspace \<Rightarrow> round_error + 'l review_round" where
  "attachReviewRoundWorkspace port cwd r workspace =
     bind_result (validateReviewRound port cwd r) (\<lambda>_.
     case validateReviewWorkspace cwd r workspace of Some e \<Rightarrow> Inl e | None \<Rightarrow>
     if rr_status r \<noteq> Round_pending then Inl Round_not_pending
     else case rr_workspace r of
       Some w \<Rightarrow> if w \<noteq> workspace then Inl Round_workspace_immutable else Inr r
     | None \<Rightarrow> validateReviewRound port cwd (r\<lparr>rr_workspace := Some workspace\<rparr>))"

definition startReviewRound ::
  "'l launch_port \<Rightarrow> string \<Rightarrow> 'l review_round \<Rightarrow> string \<Rightarrow> round_error + 'l review_round" where
  "startReviewRound port cwd r reviewerRunId =
     bind_result (validateReviewRound port cwd r) (\<lambda>_.
     if rr_status r \<noteq> Round_pending
        \<and> \<not> (rr_status r = Round_running \<and> rr_executionGroup r \<noteq> None \<and> rr_reviewerRunId r = None) then Inl Round_not_startable
     else if rr_workspace r = None then Inl Workspace_not_ready
     else
     bind_result (round_field RF_run (requireIdentity reviewerRunId)) (\<lambda>runId.
       validateReviewRound port cwd (r\<lparr>rr_reviewerRunId := Some runId, rr_status := Round_running\<rparr>)))"

definition startReplicatedReviewRound :: "'l launch_port \<Rightarrow> string \<Rightarrow> 'l review_round \<Rightarrow> round_error + 'l review_round" where
  "startReplicatedReviewRound port cwd r =
     bind_result (validateReviewRound port cwd r) (\<lambda>_.
     if rr_status r \<noteq> Round_pending \<or> rr_executionGroup r = None then Inl Not_replicated
     else if rr_workspace r = None then Inl Workspace_not_ready
     else validateReviewRound port cwd (r\<lparr>rr_status := Round_running\<rparr>))"

datatype round_outcome = Outcome_completed | Outcome_failed

definition status_of_outcome :: "round_outcome \<Rightarrow> round_status" where
  "status_of_outcome s = (case s of Outcome_completed \<Rightarrow> Round_completed | Outcome_failed \<Rightarrow> Round_failed)"

definition finishReviewRound ::
  "'l launch_port \<Rightarrow> string \<Rightarrow> 'l review_round \<Rightarrow> round_outcome \<Rightarrow> time \<Rightarrow> round_failure option \<Rightarrow> round_error + 'l review_round" where
  "finishReviewRound port cwd r status now roundFailure =
     bind_result (validateReviewRound port cwd r) (\<lambda>_.
     if rr_status r \<noteq> Round_pending \<and> rr_status r \<noteq> Round_running then Inl Already_terminal
     else if status = Outcome_completed \<and> roundFailure \<noteq> None then Inl Completed_with_failure
     else if status = Outcome_failed \<and> roundFailure = None then Inl Failed_without_failure
     else
     bind_result (optional_value validateReviewRoundFailure roundFailure) (\<lambda>f.
       validateReviewRound port cwd (r\<lparr>rr_status := status_of_outcome status,
         rr_failure := (case f of None \<Rightarrow> rr_failure r | Some x \<Rightarrow> Some x), rr_endedAt := Some (toISOString now)\<rparr>)))"

definition retried_group ::
  "'l launch_port \<Rightarrow> 'l review_round \<Rightarrow> time \<Rightarrow> round_error + 'l execution_group option" where
  "retried_group port r now =
     (case rr_executionGroup r of
        None \<Rightarrow> Inr None
      | Some g \<Rightarrow>
          if rr_reviewerRunId r = None
          then bind_result (map_error Round_execution (retryFailedExecutionLanes port g now)) (\<lambda>h. Inr (Some h))
          else Inr (Some g))"

definition retryReviewRound ::
  "'l launch_port \<Rightarrow> string \<Rightarrow> 'l review_round \<Rightarrow> review_source \<Rightarrow> time \<Rightarrow> round_error + 'l review_round" where
  "retryReviewRound port cwd r requestedBy now =
     bind_result (validateReviewRound port cwd r) (\<lambda>_.
     if rr_status r \<noteq> Round_failed then Inl Not_retryable
     else let taskScope = (rr_scope r = Review_of_task) in
     bind_result (optional_value validateDeltaRecheckRecord (rr_deltaRecheck r)) (\<lambda>delta.
     bind_result (retried_group port r now) (\<lambda>executionGroup.
       validateReviewRound port cwd
         \<lparr>rr_id = rr_id r, rr_taskId = rr_taskId r,
          rr_workItemId = (if taskScope then None else rr_workItemId r),
          rr_candidateId = (if taskScope then None else rr_candidateId r),
          rr_reviewerRoleName = rr_reviewerRoleName r, rr_reviewerRunId = None,
          rr_reviewBaseCommit = rr_reviewBaseCommit r, rr_scope = rr_scope r,
          rr_taskCandidate = (if taskScope then rr_taskCandidate r else None),
          rr_contract = (if taskScope then rr_contract r else None),
          rr_deltaRecheck = delta, rr_executionGroup = executionGroup, rr_workspace = rr_workspace r,
          rr_requestedBy = requestedBy, rr_status = Round_pending, rr_failure = None,
          rr_workspaceDisposition = None, rr_createdAt = rr_createdAt r, rr_endedAt = None\<rparr>)))"

definition retryTaskReviewRound ::
  "'l launch_port \<Rightarrow> string \<Rightarrow> 'l review_round \<Rightarrow> review_source \<Rightarrow> time \<Rightarrow> round_error + 'l review_round" where
  "retryTaskReviewRound port cwd r requestedBy now =
     (if rr_scope r \<noteq> Review_of_task then Inl Not_task_scope else retryReviewRound port cwd r requestedBy now)"

definition retryRunningReviewExecutionLane ::
  "'l launch_port \<Rightarrow> string \<Rightarrow> 'l review_round \<Rightarrow> string \<Rightarrow> string \<Rightarrow> round_error + 'l review_round" where
  "retryRunningReviewExecutionLane port cwd r executionLaneId runId =
     bind_result (validateReviewRound port cwd r) (\<lambda>_.
     case rr_executionGroup r of
       None \<Rightarrow> Inl No_running_group
     | Some g \<Rightarrow>
         if rr_status r \<noteq> Round_running then Inl No_running_group
         else case find (\<lambda>l. el_id l = executionLaneId) (eg_lanes g) of
           None \<Rightarrow> Inl Not_current_attempt
         | Some l \<Rightarrow>
             if el_disposition l \<noteq> Lane_open \<or> el_currentRunId l \<noteq> Some runId then Inl Not_current_attempt else Inr r)"

definition recordReviewWorkspaceDisposition ::
  "'l launch_port \<Rightarrow> string \<Rightarrow> 'l review_round \<Rightarrow> review_workspace_disposition \<Rightarrow> time \<Rightarrow> round_error + 'l review_round" where
  "recordReviewWorkspaceDisposition port cwd r disposition now =
     bind_result (validateReviewRound port cwd r) (\<lambda>_.
     if \<not> terminal_round (rr_status r) then Inl Round_not_terminal
     else if rr_workspace r = None then Inl No_workspace
     else if map_option fst (rr_workspaceDisposition r) = Some disposition then Inr r
     else if map_option fst (rr_workspaceDisposition r) = Some Review_removed then Inl Workspace_already_removed
     else validateReviewRound port cwd (r\<lparr>rr_workspaceDisposition := Some (disposition, toISOString now)\<rparr>))"

definition attachReviewExecutionGroup ::
  "'l launch_port \<Rightarrow> string \<Rightarrow> 'l review_round \<Rightarrow> 'l execution_group \<Rightarrow> round_error + 'l review_round" where
  "attachReviewExecutionGroup port cwd r executionGroup =
     bind_result (validateReviewRound port cwd r) (\<lambda>_.
     bind_result (validateReviewExecutionGroup port executionGroup r) (\<lambda>_.
     if rr_status r \<noteq> Round_pending then Inl Round_not_pending
     else case rr_executionGroup r of
       Some g \<Rightarrow> if g \<noteq> executionGroup then Inl Round_group_immutable else Inr r
     | None \<Rightarrow> validateReviewRound port cwd (r\<lparr>rr_executionGroup := Some executionGroup\<rparr>)))"

definition updateReviewExecutionGroup ::
  "'l launch_port \<Rightarrow> string \<Rightarrow> 'l review_round \<Rightarrow> 'l execution_group \<Rightarrow> round_error + 'l review_round" where
  "updateReviewExecutionGroup port cwd r executionGroup =
     bind_result (validateReviewRound port cwd r) (\<lambda>_.
     bind_result (validateReviewExecutionGroup port executionGroup r) (\<lambda>_.
     case rr_executionGroup r of
       None \<Rightarrow>
         if rr_status r \<noteq> Round_pending then Inl Round_not_pending
         else validateReviewRound port cwd (r\<lparr>rr_executionGroup := Some executionGroup\<rparr>)
     | Some g \<Rightarrow>
         if eg_id g \<noteq> eg_id executionGroup then Inl Round_group_immutable
         else if g = executionGroup then Inr r
         else case assertExecutionGroupTransition port g executionGroup of
           Some e \<Rightarrow> Inl (Round_execution e)
         | None \<Rightarrow> validateReviewRound port cwd (r\<lparr>rr_executionGroup := Some executionGroup\<rparr>)))"

subsection \<open>Validity, identity and progress\<close>

definition round_valid :: "'l launch_port \<Rightarrow> string \<Rightarrow> 'l review_round \<Rightarrow> bool" where
  "round_valid port cwd r \<longleftrightarrow> validateReviewRound port cwd r = Inr r"

text \<open>What every reachable round satisfies beyond its validator: a pending round has no reviewer yet.\<close>

definition round_inv :: "'l launch_port \<Rightarrow> string \<Rightarrow> 'l review_round \<Rightarrow> bool" where
  "round_inv port cwd r \<longleftrightarrow> round_valid port cwd r \<and> (rr_status r = Round_pending \<longrightarrow> rr_reviewerRunId r = None)"

definition round_target :: "'l review_round \<Rightarrow> _" where
  "round_target r = (rr_id r, rr_taskId r, rr_scope r, rr_workItemId r, rr_candidateId r, rr_reviewerRoleName r,
     rr_reviewBaseCommit r, rr_taskCandidate r, rr_contract r, rr_deltaRecheck r, rr_createdAt r)"

definition panel_below :: "'l execution_group option \<Rightarrow> 'l execution_group option \<Rightarrow> bool" where
  "panel_below p q \<longleftrightarrow> (\<forall>g. p = Some g \<longrightarrow> (\<exists>h. q = Some h \<and> group_identity h = group_identity g \<and> group_below g h))"

definition round_below :: "'l review_round \<Rightarrow> 'l review_round \<Rightarrow> bool" where
  "round_below r s \<longleftrightarrow>
     (rr_workspace r \<noteq> None \<longrightarrow> rr_workspace s = rr_workspace r) \<and> panel_below (rr_executionGroup r) (rr_executionGroup s) \<and>
     (rr_status r = Round_completed \<longrightarrow>
        s = r\<lparr>rr_executionGroup := rr_executionGroup s, rr_workspaceDisposition := rr_workspaceDisposition s\<rparr> \<and>
        (map_option fst (rr_workspaceDisposition r) = Some Review_removed \<longrightarrow> rr_workspaceDisposition s = rr_workspaceDisposition r))"

definition round_edges :: "(round_status \<times> round_status) set" where
  "round_edges = {(Round_pending, Round_running), (Round_pending, Round_failed), (Round_running, Round_completed),
     (Round_running, Round_failed), (Round_failed, Round_pending)}"

definition round_progress :: "'l launch_port \<Rightarrow> string \<Rightarrow> 'l review_round \<Rightarrow> 'l review_round \<Rightarrow> bool" where
  "round_progress port cwd r s \<longleftrightarrow> round_inv port cwd s \<and> round_target s = round_target r \<and> round_below r s \<and>
     (rr_status s \<noteq> rr_status r \<longrightarrow> (rr_status r, rr_status s) \<in> round_edges)"

lemma validateReviewRound_Inr [transition]: "validateReviewRound port cwd r = Inr s \<longleftrightarrow> s = r \<and> round_valid port cwd r"
  by (auto simp: validateReviewRound_def round_valid_def check_Inr)

lemma group_below_refl [simp]: "group_below g g"
  by (rule execution_progress.below_refl)

lemma panel_below_refl [simp]: "panel_below p p"
  by (simp add: panel_below_def)

lemma panel_below_None [simp]: "panel_below None p"
  by (simp add: panel_below_def)

lemma panel_below_trans: "panel_below p q \<Longrightarrow> panel_below q r \<Longrightarrow> panel_below p r"
  unfolding panel_below_def by (metis execution_progress.below_trans)

lemma round_below_refl [simp]: "round_below r r"
  by (simp add: round_below_def)

lemma round_below_trans:
  assumes "round_below r s" "round_below s t"
  shows "round_below r t"
proof -
  have "panel_below (rr_executionGroup r) (rr_executionGroup t)"
    using assms panel_below_trans by (auto simp: round_below_def)
  moreover have "rr_workspace r \<noteq> None \<longrightarrow> rr_workspace t = rr_workspace r" using assms by (auto simp: round_below_def)
  moreover have "t = r\<lparr>rr_executionGroup := rr_executionGroup t, rr_workspaceDisposition := rr_workspaceDisposition t\<rparr> \<and>
      (map_option fst (rr_workspaceDisposition r) = Some Review_removed \<longrightarrow> rr_workspaceDisposition t = rr_workspaceDisposition r)"
    if c: "rr_status r = Round_completed"
  proof -
    from assms(1) c have s: "s = r\<lparr>rr_executionGroup := rr_executionGroup s, rr_workspaceDisposition := rr_workspaceDisposition s\<rparr>"
      "map_option fst (rr_workspaceDisposition r) = Some Review_removed \<longrightarrow> rr_workspaceDisposition s = rr_workspaceDisposition r"
      by (auto simp: round_below_def)
    have "rr_status s = Round_completed" using arg_cong [OF s(1), of rr_status] c by simp
    with assms(2) have t: "t = s\<lparr>rr_executionGroup := rr_executionGroup t, rr_workspaceDisposition := rr_workspaceDisposition t\<rparr>"
      "map_option fst (rr_workspaceDisposition s) = Some Review_removed \<longrightarrow> rr_workspaceDisposition t = rr_workspaceDisposition s"
      by (auto simp: round_below_def)
    have "t = r\<lparr>rr_executionGroup := rr_executionGroup t, rr_workspaceDisposition := rr_workspaceDisposition t\<rparr>"
      by (subst t(1), subst s(1)) simp
    with s(2) t(2) show ?thesis by auto
  qed
  ultimately show ?thesis by (simp add: round_below_def)
qed

lemma round_progress_refl: "round_inv port cwd r \<Longrightarrow> round_progress port cwd r r"
  by (simp add: round_progress_def)

lemmas round_defs = round_progress_def round_inv_def round_target_def round_below_def round_edges_def

lemma attach_workspace_progress:
  assumes "attachReviewRoundWorkspace port cwd r w = Inr s" "round_inv port cwd r"
  shows "round_progress port cwd r s"
proof (cases "rr_workspace r")
  case None
  then have "s = r\<lparr>rr_workspace := Some w\<rparr>" "round_valid port cwd s" "rr_status r = Round_pending"
    using assms(1)
    by (auto simp: attachReviewRoundWorkspace_def bind_result_Inr validateReviewRound_Inr split: if_splits option.splits)
  with None assms(2) show ?thesis by (simp add: round_defs)
next
  case (Some v)
  then have "s = r" using assms(1)
    by (auto simp: attachReviewRoundWorkspace_def bind_result_Inr split: if_splits option.splits)
  then show ?thesis using round_progress_refl [OF assms(2)] by simp
qed

lemma start_progress:
  assumes "startReviewRound port cwd r i = Inr s" "round_inv port cwd r"
  shows "round_progress port cwd r s"
proof -
  from assms(1) obtain j where "s = r\<lparr>rr_reviewerRunId := Some j, rr_status := Round_running\<rparr>" "round_valid port cwd s"
    "rr_status r = Round_pending \<or> rr_status r = Round_running"
    by (auto simp: startReviewRound_def bind_result_Inr validateReviewRound_Inr split: if_splits)
  then show ?thesis by (auto simp: round_defs)
qed

lemma start_replicated_progress:
  assumes "startReplicatedReviewRound port cwd r = Inr s" "round_inv port cwd r"
  shows "round_progress port cwd r s"
proof -
  from assms(1) have "s = r\<lparr>rr_status := Round_running\<rparr>" "round_valid port cwd s" "rr_status r = Round_pending"
    by (auto simp: startReplicatedReviewRound_def bind_result_Inr validateReviewRound_Inr split: if_splits)
  then show ?thesis by (simp add: round_defs)
qed

lemma completed_has_run: "round_valid port cwd r \<Longrightarrow> rr_status r = Round_completed \<Longrightarrow> rr_reviewerRunId r \<noteq> None"
  by (simp add: round_valid_def validateReviewRound_def check_Inr progress_error_def terminal_round_def)

lemma finish_progress:
  assumes "finishReviewRound port cwd r o' now f = Inr s" "round_inv port cwd r"
  shows "round_progress port cwd r s"
proof -
  from assms(1) obtain g where s: "s = r\<lparr>rr_status := status_of_outcome o', rr_failure := g, rr_endedAt := Some (toISOString now)\<rparr>"
    "round_valid port cwd s" "rr_status r = Round_pending \<or> rr_status r = Round_running"
    by (auto simp: finishReviewRound_def bind_result_Inr validateReviewRound_Inr split: if_splits)
  have "rr_status r = Round_pending \<Longrightarrow> o' = Outcome_failed"
    using completed_has_run [OF s(2)] s(1) assms(2) by (cases o') (auto simp: status_of_outcome_def round_inv_def)
  with s(3) have e: "(rr_status r, status_of_outcome o') \<in> round_edges"
    by (cases o') (auto simp: round_edges_def status_of_outcome_def)
  have "status_of_outcome o' \<noteq> Round_pending" by (cases o') (simp_all add: status_of_outcome_def)
  moreover have "rr_status r \<noteq> Round_completed" using s(3) by auto
  ultimately show ?thesis
    using s(2) e unfolding s(1) by (simp add: round_progress_def round_inv_def round_target_def round_below_def)
qed

lemma record_progress:
  assumes "recordReviewWorkspaceDisposition port cwd r d now = Inr s" "round_inv port cwd r"
  shows "round_progress port cwd r s"
proof -
  from assms(1) have "s = r \<or> s = r\<lparr>rr_workspaceDisposition := Some (d, toISOString now)\<rparr> \<and> round_valid port cwd s \<and>
      terminal_round (rr_status r) \<and> map_option fst (rr_workspaceDisposition r) \<noteq> Some Review_removed"
    by (auto simp: recordReviewWorkspaceDisposition_def bind_result_Inr validateReviewRound_Inr split: if_splits)
  then consider "s = r" | "s = r\<lparr>rr_workspaceDisposition := Some (d, toISOString now)\<rparr>" "round_valid port cwd s"
    "terminal_round (rr_status r)" "map_option fst (rr_workspaceDisposition r) \<noteq> Some Review_removed" by blast
  then show ?thesis
  proof cases
    case 1
    then show ?thesis using round_progress_refl [OF assms(2)] by simp
  next
    case 2
    then show ?thesis by (simp add: round_defs terminal_round_def) auto
  qed
qed

lemma group_update_progress:
  assumes "round_valid port cwd (r\<lparr>rr_executionGroup := Some g\<rparr>)" "round_inv port cwd r"
    "panel_below (rr_executionGroup r) (Some g)"
  shows "round_progress port cwd r (r\<lparr>rr_executionGroup := Some g\<rparr>)"
  using assms by (simp add: round_defs)

lemma attach_group_progress:
  assumes "attachReviewExecutionGroup port cwd r g = Inr s" "round_inv port cwd r"
  shows "round_progress port cwd r s"
proof (cases "rr_executionGroup r")
  case None
  then have "s = r\<lparr>rr_executionGroup := Some g\<rparr>" "round_valid port cwd s"
    using assms(1) by (auto simp: attachReviewExecutionGroup_def bind_result_Inr validateReviewRound_Inr split: if_splits)
  with None assms(2) show ?thesis by (simp add: group_update_progress)
next
  case (Some v)
  then have "s = r" using assms(1) by (auto simp: attachReviewExecutionGroup_def bind_result_Inr split: if_splits)
  then show ?thesis using round_progress_refl [OF assms(2)] by simp
qed

lemma update_group_progress:
  assumes "updateReviewExecutionGroup port cwd r g = Inr s" "round_inv port cwd r"
  shows "round_progress port cwd r s"
proof (cases "rr_executionGroup r")
  case None
  then have "s = r\<lparr>rr_executionGroup := Some g\<rparr>" "round_valid port cwd s"
    using assms(1) by (auto simp: updateReviewExecutionGroup_def bind_result_Inr validateReviewRound_Inr split: if_splits)
  with None assms(2) show ?thesis by (simp add: group_update_progress)
next
  case (Some v)
  then consider "s = r" | "s = r\<lparr>rr_executionGroup := Some g\<rparr>" "round_valid port cwd s"
      "assertExecutionGroupTransition port v g = None"
    using assms(1) by (auto simp: updateReviewExecutionGroup_def bind_result_Inr validateReviewRound_Inr
        split: if_splits option.splits)
  then show ?thesis
  proof cases
    case 1
    then show ?thesis using round_progress_refl [OF assms(2)] by simp
  next
    case 2
    then show ?thesis using Some group_update_progress [OF _ assms(2)] transition_ok [OF 2(3)] by (simp add: panel_below_def)
  qed
qed

subsection \<open>Retries\<close>

lemma scope_anchor:
  assumes "round_valid port cwd r"
  shows "rr_scope r = Review_of_task \<Longrightarrow> rr_workItemId r = None \<and> rr_candidateId r = None"
    "rr_scope r = Review_of_work_item \<Longrightarrow> rr_taskCandidate r = None \<and> rr_contract r = None"
proof -
  have "scope_error r = None" using assms by (simp add: round_valid_def validateReviewRound_def check_Inr)
  then show "rr_scope r = Review_of_task \<Longrightarrow> rr_workItemId r = None \<and> rr_candidateId r = None"
    "rr_scope r = Review_of_work_item \<Longrightarrow> rr_taskCandidate r = None \<and> rr_contract r = None"
    by (auto simp: scope_error_def split: if_splits option.splits)
qed

definition retried_round :: "'l review_round \<Rightarrow> review_source \<Rightarrow> 'l execution_group option \<Rightarrow> 'l review_round" where
  "retried_round r source g = r\<lparr>rr_reviewerRunId := None, rr_executionGroup := g, rr_requestedBy := source,
     rr_status := Round_pending, rr_failure := None, rr_workspaceDisposition := None, rr_endedAt := None\<rparr>"

lemma retry_record:
  assumes "round_valid port cwd r"
  shows "\<lparr>rr_id = rr_id r, rr_taskId = rr_taskId r,
      rr_workItemId = (if rr_scope r = Review_of_task then None else rr_workItemId r),
      rr_candidateId = (if rr_scope r = Review_of_task then None else rr_candidateId r),
      rr_reviewerRoleName = rr_reviewerRoleName r, rr_reviewerRunId = None,
      rr_reviewBaseCommit = rr_reviewBaseCommit r, rr_scope = rr_scope r,
      rr_taskCandidate = (if rr_scope r = Review_of_task then rr_taskCandidate r else None),
      rr_contract = (if rr_scope r = Review_of_task then rr_contract r else None),
      rr_deltaRecheck = rr_deltaRecheck r, rr_executionGroup = g, rr_workspace = rr_workspace r,
      rr_requestedBy = source, rr_status = Round_pending, rr_failure = None,
      rr_workspaceDisposition = None, rr_createdAt = rr_createdAt r, rr_endedAt = None\<rparr> = retried_round r source g"
  using scope_anchor [OF assms] by (cases r; cases "rr_scope r") (auto simp: retried_round_def)

lemma delta_valid:
  assumes "round_valid port cwd r"
  shows "optional_value validateDeltaRecheckRecord (rr_deltaRecheck r) = Inr (rr_deltaRecheck r)"
  using assms
  by (cases "rr_deltaRecheck r")
    (auto simp: optional_value_def round_valid_def validateReviewRound_def check_Inr validateDeltaRecheckRecord_def failure_None)

lemma retry_unfold:
  assumes "round_valid port cwd r" "rr_status r = Round_failed"
  shows "retryReviewRound port cwd r source now =
    bind_result (retried_group port r now) (\<lambda>g. validateReviewRound port cwd (retried_round r source g))"
  using assms(2) retry_record [OF assms(1)] delta_valid [OF assms(1)] assms(1)
  by (simp add: retryReviewRound_def round_valid_def)

lemma retried_group_below:
  assumes "retried_group port r now = Inr g"
  shows "panel_below (rr_executionGroup r) g"
proof (cases "rr_executionGroup r")
  case (Some h)
  show ?thesis
  proof (cases "rr_reviewerRunId r")
    case None
    with Some assms obtain k where "retryFailedExecutionLanes port h now = Inr k" "g = Some k"
      by (auto simp: retried_group_def bind_result_Inr map_error_Inr)
    with execution_step_ok [of port now Retry_failed h k] Some show ?thesis by (simp add: panel_below_def)
  next
    case (Some i)
    with \<open>rr_executionGroup r = Some h\<close> assms show ?thesis by (simp add: retried_group_def)
  qed
qed simp

lemma retry_progress:
  assumes "retryReviewRound port cwd r source now = Inr s" "round_inv port cwd r"
  shows "round_progress port cwd r s"
proof -
  have v: "round_valid port cwd r" using assms(2) by (simp add: round_inv_def)
  have f: "rr_status r = Round_failed" using assms(1) by (auto simp: retryReviewRound_def bind_result_Inr split: if_splits)
  from assms(1) obtain g where g: "retried_group port r now = Inr g" "s = retried_round r source g" "round_valid port cwd s"
    by (auto simp: retry_unfold [OF v f] bind_result_Inr validateReviewRound_Inr)
  with f retried_group_below [OF g(1)] show ?thesis
    by (simp add: round_defs retried_round_def)
qed

subsection \<open>Every command\<close>

datatype 'l round_command =
    Attach_workspace managed_workspace | Start_main string | Start_replicated | Finish_round round_outcome "round_failure option"
  | Retry_round review_source | Retry_task_round review_source | Retry_lane string string
  | Record_disposition review_workspace_disposition | Attach_panel "'l execution_group" | Update_panel "'l execution_group"

fun round_step ::
  "'l launch_port \<Rightarrow> string \<Rightarrow> time \<times> 'l round_command \<Rightarrow> 'l review_round \<Rightarrow> round_error + 'l review_round" where
  "round_step port cwd (now, Attach_workspace w) r = attachReviewRoundWorkspace port cwd r w"
| "round_step port cwd (now, Start_main i) r = startReviewRound port cwd r i"
| "round_step port cwd (now, Start_replicated) r = startReplicatedReviewRound port cwd r"
| "round_step port cwd (now, Finish_round s f) r = finishReviewRound port cwd r s now f"
| "round_step port cwd (now, Retry_round b) r = retryReviewRound port cwd r b now"
| "round_step port cwd (now, Retry_task_round b) r = retryTaskReviewRound port cwd r b now"
| "round_step port cwd (now, Retry_lane l i) r = retryRunningReviewExecutionLane port cwd r l i"
| "round_step port cwd (now, Record_disposition d) r = recordReviewWorkspaceDisposition port cwd r d now"
| "round_step port cwd (now, Attach_panel g) r = attachReviewExecutionGroup port cwd r g"
| "round_step port cwd (now, Update_panel g) r = updateReviewExecutionGroup port cwd r g"

lemma retry_lane_same: "retryRunningReviewExecutionLane port cwd r l i = Inr s \<Longrightarrow> s = r"
  by (auto simp: retryRunningReviewExecutionLane_def bind_result_Inr split: option.splits if_splits)

lemmas round_command_progress =
  attach_workspace_progress start_progress start_replicated_progress finish_progress retry_progress record_progress
  attach_group_progress update_group_progress

lemma round_step_progress:
  assumes "round_step port cwd c r = Inr s" "round_inv port cwd r"
  shows "round_progress port cwd r s"
proof (cases c)
  case (Pair now k)
  note step = assms(1) [unfolded Pair]
  show ?thesis
  proof (cases k)
    case (Retry_task_round b)
    with step assms(2) show ?thesis by (auto simp: retryTaskReviewRound_def intro: retry_progress split: if_splits)
  next
    case (Retry_lane l i)
    with step retry_lane_same have "s = r" by auto
    with assms(2) show ?thesis by (simp add: round_progress_refl)
  qed (use step assms(2) round_command_progress in auto)
qed

interpretation rounds: identified_system "round_inv port cwd" "round_step port cwd" "\<lambda>_. True" round_target for port cwd
proof
  fix r c s
  assume "round_inv port cwd r" "round_step port cwd c r = Inr s"
  from round_step_progress [OF this(2,1)] show "round_inv port cwd s" "round_target s = round_target r"
    by (simp_all add: round_progress_def)
qed

interpretation round_history: ratchet_system "round_inv port cwd" "round_step port cwd" "\<lambda>_. True" round_below for port cwd
proof
  fix r c s
  assume "round_inv port cwd r" "round_step port cwd c r = Inr s"
  from round_step_progress [OF this(2,1)] show "round_below r s" by (simp add: round_progress_def)
qed (auto intro: round_below_trans)

lemma created_inv:
  "createReviewRound port cwd i t wi c role src base now g = Inr r \<Longrightarrow> round_inv port cwd r \<and> rr_status r = Round_pending"
  "createTaskReviewRound port cwd i t role src tc now con g = Inr r \<Longrightarrow> round_inv port cwd r \<and> rr_status r = Round_pending"
  "createTaskDeltaReviewRound port cwd i t role src tc d now con g = Inr r \<Longrightarrow> round_inv port cwd r \<and> rr_status r = Round_pending"
  by (auto simp: createReviewRound_def createTaskReviewRound_def createTaskDeltaReviewRound_def task_round_def bind_result_Inr
      validateReviewRound_Inr round_inv_def)

lemma review_group_cong:
  assumes "round_target s = round_target r"
  shows "validateReviewExecutionGroup port g s = validateReviewExecutionGroup port g r"
  using assms by (cases "eg_assignment g") (simp_all add: validateReviewExecutionGroup_def round_target_def)

lemma review_workspace_cong:
  assumes "round_target s = round_target r"
  shows "validateReviewWorkspace cwd s w = validateReviewWorkspace cwd r w"
  using assms by (simp add: validateReviewWorkspace_def round_target_def)

lemma scope_error_cong:
  assumes "round_target s = round_target r"
  shows "scope_error s = scope_error r"
proof -
  have "round_contract_error s = round_contract_error r"
    using assms by (intro ext) (simp add: round_contract_error_def round_target_def cong: sum.case_cong)
  with assms show ?thesis
    by (cases "rr_scope r") (simp_all add: scope_error_def round_target_def cong: option.case_cong sum.case_cong)
qed

lemma retried_valid:
  assumes "round_valid port cwd r" "\<And>h. g = Some h \<Longrightarrow> \<exists>k. validateReviewExecutionGroup port h r = Inr k"
  shows "round_valid port cwd (retried_round r source g)"
proof -
  let ?s = "retried_round r source g"
  have t: "round_target ?s = round_target r" by (simp add: retried_round_def round_target_def)
  have "first_error [progress_error ?s] = None" by (simp add: progress_error_def retried_round_def terminal_round_def)
  then show ?thesis
    using assms
    by (simp add: round_valid_def validateReviewRound_def check_Inr scope_error_cong [OF t] review_group_cong [OF t]
        review_workspace_cong [OF t]) (auto simp: retried_round_def failure_None)
qed

lemma group_valid_retry:
  assumes "validateReviewExecutionGroup port g r = Inr k" "retryFailedExecutionLanes port g now = Inr h"
  shows "\<exists>k. validateReviewExecutionGroup port h r = Inr k"
proof -
  note e = retry_Inr [OF assms(2)]
  have "el_roleName ` set (eg_lanes h) = el_roleName ` set (eg_lanes g)" using e by (simp add: image_image)
  then have roles: "(\<exists>l \<in> set (eg_lanes h). el_roleName l = n) \<longleftrightarrow> (\<exists>l \<in> set (eg_lanes g). el_roleName l = n)" for n
    by (metis image_iff)
  from e have v: "validateExecutionGroup port h = Inr h" by (simp add: group_valid_def)
  with assms(1) e roles show ?thesis
    by (cases "eg_assignment g") (auto simp: validateReviewExecutionGroup_def bind_result_Inr check_Inr)
qed

subsection \<open>Properties\<close>

definition demo_review_base :: string where
  "demo_review_base = replicate 40 CHR ''b''"

definition demo_round :: "unit review_round" where
  "demo_round = \<lparr>rr_id = ''review-round-1'', rr_taskId = ''task-1'', rr_workItemId = Some ''work-item-1'',
     rr_candidateId = Some ''candidate-1'', rr_reviewerRoleName = ''reviewer'', rr_reviewerRunId = None,
     rr_reviewBaseCommit = demo_review_base, rr_scope = Review_of_work_item, rr_taskCandidate = None, rr_contract = None,
     rr_deltaRecheck = None, rr_executionGroup = None, rr_workspace = None, rr_requestedBy = Source_policy,
     rr_status = Round_pending, rr_failure = None, rr_workspaceDisposition = None, rr_createdAt = demo_epoch,
     rr_endedAt = None\<rparr>"

definition demo_review_port :: "unit launch_port" where
  "demo_review_port = \<lparr>launch_valid = (\<lambda>_. True), launch_writeProjectIds = (\<lambda>_. [])\<rparr>"

definition demo_failure :: round_failure where
  "demo_failure = \<lparr>rf_kind = Failed_dispatch, rf_message = ''no session''\<rparr>"

definition demo_failed_round :: "unit review_round" where
  "demo_failed_round = demo_round\<lparr>rr_status := Round_failed, rr_failure := Some demo_failure, rr_endedAt := Some demo_epoch\<rparr>"

lemma demo_round_created:
  "createReviewRound demo_review_port ''/'' ''review-round-1'' ''task-1'' ''work-item-1'' ''candidate-1'' ''reviewer''
     Source_policy demo_review_base 0 None = Inr demo_round"
  by code_simp

lemma demo_round_failed:
  "finishReviewRound demo_review_port ''/'' demo_round Outcome_failed 0 (Some demo_failure) = Inr demo_failed_round"
  by code_simp

text \<open>
  C22. A review round over any sequence of successful commands, however it was created: it passes its
  validator; what it reviews (candidate, base commit, reviewer, contract, delta record) never
  changes; an attached workspace and the identity of its panel are fixed, and succeeded Lanes of
  the panel stay as they are; a round waiting to start has no reviewer and a completed one has; a completed
  round stays completed with its reviewer and end time, and a removed workspace of it stays
  removed. One more command follows an edge of the graph pending to running, pending to failed,
  running to completed, running to failed, failed to pending.
\<close>

theorem review_round_run:
  assumes "createReviewRound port cwd i t wi c role src base now g = Inr r \<or>
      createTaskReviewRound port cwd i t role src tc now con g = Inr r \<or>
      createTaskDeltaReviewRound port cwd i t role src tc d now con g = Inr r"
    "run_commands (round_step port cwd) cs r = Inr h" "run_commands (round_step port cwd) ds h = Inr k"
    "round_step port cwd e k = Inr m"
  shows "validateReviewRound port cwd k = Inr k \<and> round_target k = round_target r \<and>
    (rr_workspace h \<noteq> None \<longrightarrow> rr_workspace k = rr_workspace h) \<and>
    (\<forall>g. rr_executionGroup h = Some g \<longrightarrow>
       (\<exists>g'. rr_executionGroup k = Some g' \<and> group_identity g' = group_identity g \<and> group_below g g')) \<and>
    (rr_status k = Round_pending \<longrightarrow> rr_reviewerRunId k = None) \<and>
    (rr_status k = Round_completed \<longrightarrow> rr_reviewerRunId k \<noteq> None) \<and>
    (rr_status h = Round_completed \<longrightarrow> rr_status k = Round_completed \<and> rr_reviewerRunId k = rr_reviewerRunId h \<and>
       rr_endedAt k = rr_endedAt h \<and>
       (map_option fst (rr_workspaceDisposition h) = Some Review_removed \<longrightarrow>
          rr_workspaceDisposition k = rr_workspaceDisposition h)) \<and>
    (rr_status m \<noteq> rr_status k \<longrightarrow> (rr_status k, rr_status m) \<in>
       {(Round_pending, Round_running), (Round_pending, Round_failed), (Round_running, Round_completed),
        (Round_running, Round_failed), (Round_failed, Round_pending)})"
proof -
  have r: "round_inv port cwd r" using assms(1) by (elim disjE) (simp_all add: created_inv)
  have adm: "list_all (\<lambda>_. True) xs" for xs :: "'x list" by (simp add: list_all_iff)
  note h = rounds.run_valid [OF r adm assms(2)] rounds.run_identity [OF r adm assms(2)]
  note k = rounds.run_valid [OF h(1) adm assms(3)] rounds.run_identity [OF h(1) adm assms(3)]
    round_history.run_below [OF h(1) adm assms(3)]
  note m = round_step_progress [OF assms(4) k(1)]
  have v: "round_valid port cwd k" using k(1) by (simp add: round_inv_def)
  have c: "rr_status k = Round_completed \<and> rr_reviewerRunId k = rr_reviewerRunId h \<and> rr_endedAt k = rr_endedAt h \<and>
      (map_option fst (rr_workspaceDisposition h) = Some Review_removed \<longrightarrow> rr_workspaceDisposition k = rr_workspaceDisposition h)"
    if "rr_status h = Round_completed"
  proof -
    from k(3) that have e: "k = h\<lparr>rr_executionGroup := rr_executionGroup k, rr_workspaceDisposition := rr_workspaceDisposition k\<rparr>"
      "map_option fst (rr_workspaceDisposition h) = Some Review_removed \<longrightarrow> rr_workspaceDisposition k = rr_workspaceDisposition h"
      by (simp_all add: round_below_def)
    show ?thesis
      using that e(2) arg_cong [OF e(1), of rr_status] arg_cong [OF e(1), of rr_reviewerRunId] arg_cong [OF e(1), of rr_endedAt]
      by simp
  qed
  have p: "rr_workspace h \<noteq> None \<longrightarrow> rr_workspace k = rr_workspace h" "panel_below (rr_executionGroup h) (rr_executionGroup k)"
    using k(3) by (simp_all add: round_below_def)
  have q: "rr_status k = Round_pending \<longrightarrow> rr_reviewerRunId k = None" "round_target k = round_target r"
    using k(1,2) h(2) by (simp_all add: round_inv_def)
  have e: "rr_status m \<noteq> rr_status k \<longrightarrow> (rr_status k, rr_status m) \<in> round_edges" using m by (simp add: round_progress_def)
  show ?thesis
    using v c p q e completed_has_run [OF v] unfolding round_edges_def panel_below_def round_valid_def by (intro conjI) blast+
qed

lemma review_round_run_witness: "validateReviewRound demo_review_port ''/'' demo_round = Inr demo_round"
  using review_round_run [OF disjI1, OF demo_round_created, of "[]" demo_round "[]" demo_round
      "(0, Finish_round Outcome_failed (Some demo_failure))" demo_failed_round] demo_round_failed by simp

text \<open>
  Retrying a failed round succeeds at any time not before its panel was created: the same round
  is pending again with its target and workspace, without reviewer, failure, end time and workspace
  disposition; if its main reviewer had not started, exactly the failed Lanes of the panel are
  reopened, otherwise the panel is untouched. A round in any other state is not retryable.
\<close>

theorem review_retry:
  assumes "validateReviewRound port cwd r = Inr r" "valid_time now"
    "\<And>g. rr_executionGroup r = Some g \<Longrightarrow> \<not> date_less (toISOString now) (eg_createdAt g)"
  shows "if rr_status r = Round_failed
    then \<exists>s. retryReviewRound port cwd r source now = Inr s \<and> validateReviewRound port cwd s = Inr s \<and>
      s = r\<lparr>rr_reviewerRunId := None, rr_executionGroup := rr_executionGroup s, rr_requestedBy := source,
        rr_status := Round_pending, rr_failure := None, rr_workspaceDisposition := None, rr_endedAt := None\<rparr> \<and>
      (case rr_executionGroup r of
         None \<Rightarrow> rr_executionGroup s = None
       | Some g \<Rightarrow> map_option eg_lanes (rr_executionGroup s) =
           Some (if rr_reviewerRunId r = None then map (reopened_lane (toISOString now)) (eg_lanes g) else eg_lanes g))
    else retryReviewRound port cwd r source now = Inl Not_retryable"
proof (cases "rr_status r = Round_failed")
  case True
  have v: "round_valid port cwd r" using assms(1) by (simp add: round_valid_def)
  have g: "\<exists>k. validateReviewExecutionGroup port h r = Inr k" if "rr_executionGroup r = Some h" for h
    using v that by (auto simp: round_valid_def validateReviewRound_def check_Inr failure_None)
  have "\<exists>x. retried_group port r now = Inr x \<and> (\<forall>h. x = Some h \<longrightarrow> (\<exists>k. validateReviewExecutionGroup port h r = Inr k)) \<and>
      (case rr_executionGroup r of
         None \<Rightarrow> x = None
       | Some g \<Rightarrow> map_option eg_lanes x =
           Some (if rr_reviewerRunId r = None then map (reopened_lane (toISOString now)) (eg_lanes g) else eg_lanes g))"
  proof (cases "rr_executionGroup r")
    case None
    then show ?thesis by (simp add: retried_group_def)
  next
    case (Some h)
    obtain k where k: "validateReviewExecutionGroup port h r = Inr k" using g [OF Some] by blast
    then have "group_valid port h"
      by (auto simp: validateReviewExecutionGroup_def bind_result_Inr map_error_Inr validateExecutionGroup_Inr)
    from retry_total [OF this assms(2) assms(3) [OF Some]] obtain n where n: "retryFailedExecutionLanes port h now = Inr n" by blast
    show ?thesis
      using Some k n group_valid_retry [OF k n] retry_Inr [OF n] by (simp add: retried_group_def)
  qed
  then obtain x where x: "retried_group port r now = Inr x" "\<And>h. x = Some h \<Longrightarrow> \<exists>k. validateReviewExecutionGroup port h r = Inr k"
    "case rr_executionGroup r of None \<Rightarrow> x = None
       | Some g \<Rightarrow> map_option eg_lanes x =
           Some (if rr_reviewerRunId r = None then map (reopened_lane (toISOString now)) (eg_lanes g) else eg_lanes g)" by blast
  have s: "round_valid port cwd (retried_round r source x)" by (rule retried_valid [OF v x(2)])
  then have t: "retryReviewRound port cwd r source now = Inr (retried_round r source x)"
    by (simp add: retry_unfold [OF v True] x(1) validateReviewRound_Inr)
  have e: "rr_executionGroup (retried_round r source x) = x" by (simp add: retried_round_def)
  show ?thesis
    unfolding if_P [OF True]
  proof (intro exI conjI)
    show "retryReviewRound port cwd r source now = Inr (retried_round r source x)" by (rule t)
    show "validateReviewRound port cwd (retried_round r source x) = Inr (retried_round r source x)"
      using s by (simp add: round_valid_def)
    show "retried_round r source x = r\<lparr>rr_reviewerRunId := None, rr_executionGroup := rr_executionGroup (retried_round r source x),
        rr_requestedBy := source, rr_status := Round_pending, rr_failure := None, rr_workspaceDisposition := None,
        rr_endedAt := None\<rparr>" by (simp add: retried_round_def)
  qed (use x(3) in \<open>simp only: e\<close>)
next
  case False
  then show ?thesis using assms(1) by (simp add: retryReviewRound_def)
qed

lemma review_retry_witness: "\<exists>s. retryReviewRound demo_review_port ''/'' demo_failed_round Source_user 0 = Inr s"
proof -
  have "validateReviewRound demo_review_port ''/'' demo_failed_round = Inr demo_failed_round" by code_simp
  from review_retry [OF this demo_epoch(2), of Source_user] show ?thesis
    by (auto simp: demo_failed_round_def demo_round_def)
qed

end
