(* ===== verification/Publication.thy ===== *)
theory Publication
  imports Validation
begin

text \<open>
  Publications of a Task's work as pull or merge requests (\<open>src/src/task/publicationReference.ts\<close>,
  \<open>publicationToolObservation.ts\<close>) and their table in \<open>src/src/storage/sqliteStore.ts\<close>. A publication is
  never overwritten: a later record of the same external object supersedes the current one.

  The table is the list of stored records in the order of insertion. Whether a Task exists is an
  argument. \<open>pick\<close> stands for the first element of the records sorted by the locale-aware
  comparison of their ids, which the code uses only if there is not exactly one record that is not
  superseded. The walk back through the history carries the set of visited ids and terminates; the
  loop of \<open>publicationObservationNotBefore\<close> has no such set and is a partial function. That it
  nevertheless returns on every stored history is shown below.
\<close>

subsection \<open>The record\<close>

datatype publication_provider = Provider_github | Provider_gitlab

datatype external_kind = Pull_request | Merge_request

datatype publication_state = Pub_open | Pub_merged | Pub_closed

datatype publication_verification = Pub_reported | Pub_verified

datatype publication_recorder = By_user | By_operator | By_leader

datatype publication_source = Src_manual | Src_release_workflow | Src_integration

record publication =
  pub_id :: string
  pub_taskId :: string
  pub_projectId :: string
  pub_provider :: publication_provider
  pub_repository :: string
  pub_externalKind :: external_kind
  pub_externalId :: string
  pub_externalUrl :: "string option"
  pub_title :: "string option"
  pub_sourceBranch :: "string option"
  pub_targetBranch :: "string option"
  pub_localCommit :: "string option"
  pub_headCommit :: "string option"
  pub_remoteCommit :: "string option"
  pub_state :: publication_state
  pub_verification :: publication_verification
  pub_evidence :: "string option"
  pub_supersedes :: "string option"
  pub_recordedBy :: publication_recorder
  pub_source :: publication_source
  pub_mergedAt :: "string option"
  pub_createdAt :: string

record publication_input =
  pi_projectId :: string
  pi_provider :: publication_provider
  pi_repository :: string
  pi_externalKind :: external_kind
  pi_externalId :: string
  pi_externalUrl :: "string option"
  pi_title :: "string option"
  pi_sourceBranch :: "string option"
  pi_targetBranch :: "string option"
  pi_localCommit :: "string option"
  pi_headCommit :: "string option"
  pi_remoteCommit :: "string option"
  pi_state :: "publication_state option"
  pi_verification :: "publication_verification option"
  pi_evidence :: "string option"
  pi_supersedes :: "string option"
  pi_recordedBy :: "publication_recorder option"
  pi_source :: "publication_source option"
  pi_mergedAt :: "string option"

datatype publication_field =
    PF_project | PF_repository | PF_externalId | PF_externalUrl | PF_title | PF_sourceBranch | PF_targetBranch | PF_localCommit
  | PF_headCommit | PF_remoteCommit | PF_evidence | PF_supersedes | PF_mergedAt | PF_createdAt | PF_id | PF_task

datatype publication_error =
    Pub_field publication_field field_error
  | Pub_reference reference_error
  | Head_differs | Verified_not_merged | MergedAt_not_merged | Supersedes_itself
  | Pub_not_normalized publication_field
  | Pub_other_task | Pub_task_missing | Pub_overwritten | Identity_of_other_task | Not_current | Supersedes_other_identity
  | Supersession_cycle | Supersession_missing | History_incomplete

abbreviation pub_field :: "publication_field \<Rightarrow> field_error + 'a \<Rightarrow> publication_error + 'a" where
  "pub_field f \<equiv> map_error (Pub_field f)"

abbreviation pub_check :: "publication_field \<Rightarrow> field_error + 'a \<Rightarrow> publication_error option" where
  "pub_check f r \<equiv> failure (pub_field f r)"

abbreviation pub_optional :: "publication_field \<Rightarrow> (string \<Rightarrow> field_error + 'a) \<Rightarrow> string option \<Rightarrow> publication_error + 'a option" where
  "pub_optional f g v \<equiv> optional_value (\<lambda>x. pub_field f (g x)) v"

text \<open>\<open>requireCommit\<close> of this file accepts full SHA-1 names only.\<close>

definition requireSha :: "string \<Rightarrow> field_error + string" where
  "requireSha value =
     bind_result (requireText value) (\<lambda>commit.
       if all_hex (toLowerCase commit) \<and> length commit = 40 then Inr (toLowerCase commit) else Inl Invalid)"

definition provider_text :: "publication_provider \<Rightarrow> string" where
  "provider_text p = (case p of Provider_github \<Rightarrow> ''github'' | Provider_gitlab \<Rightarrow> ''gitlab'')"

definition publicationExternalKey :: "publication \<Rightarrow> string" where
  "publicationExternalKey r = provider_text (pub_provider r) @ ''/'' @ pub_repository r @ ''/'' @ pub_externalId r"

definition optional_check :: "publication_field \<Rightarrow> (string \<Rightarrow> field_error + string) \<Rightarrow> string option \<Rightarrow> publication_error option" where
  "optional_check f g v = when_some v (\<lambda>x. pub_check f (g x))"

definition validatePublicationReference :: "publication \<Rightarrow> publication_error + publication" where
  "validatePublicationReference r = check
     [failure (map_error Pub_reference (validateTaskRecordReference (task_reference (pub_taskId r) (pub_id r)) K_publicationReference)),
      pub_check PF_project (requireIdentity (pub_projectId r)),
      pub_check PF_repository (requireText (pub_repository r)),
      pub_check PF_externalId (requireText (pub_externalId r)),
      optional_check PF_externalUrl requireText (pub_externalUrl r),
      optional_check PF_title requireText (pub_title r),
      optional_check PF_sourceBranch requireText (pub_sourceBranch r),
      optional_check PF_targetBranch requireText (pub_targetBranch r),
      optional_check PF_localCommit requireSha (pub_localCommit r),
      when_some (pub_headCommit r) (\<lambda>h. first_error
        [pub_check PF_headCommit (requireSha h),
         reject (pub_verification r = Pub_verified \<and> pub_localCommit r \<noteq> Some h) Head_differs]),
      optional_check PF_remoteCommit requireSha (pub_remoteCommit r),
      reject (pub_verification r = Pub_verified \<and> (pub_state r \<noteq> Pub_merged \<or> pub_remoteCommit r = None)) Verified_not_merged,
      reject (pub_mergedAt r \<noteq> None \<and> pub_state r \<noteq> Pub_merged) MergedAt_not_merged,
      optional_check PF_evidence requireText (pub_evidence r),
      when_some (pub_supersedes r) (\<lambda>s. first_error
        [pub_check PF_supersedes (requireText s), reject (s = pub_id r) Supersedes_itself]),
      pub_check PF_createdAt (requireTimestamp (pub_createdAt r))] r"

definition createPublicationReference ::
  "string \<Rightarrow> string \<Rightarrow> publication_input \<Rightarrow> time \<Rightarrow> publication_error + publication" where
  "createPublicationReference i taskId inp now =
     bind_result (map_error Pub_reference (validateTaskRecordReference (task_reference taskId i) K_publicationReference)) (\<lambda>reference.
     bind_result (pub_field PF_project (requireIdentity (pi_projectId inp))) (\<lambda>projectId.
     bind_result (pub_field PF_repository (requireText (pi_repository inp))) (\<lambda>repository.
     bind_result (pub_field PF_externalId (requireText (pi_externalId inp))) (\<lambda>externalId.
     bind_result (pub_optional PF_externalUrl requireText (pi_externalUrl inp)) (\<lambda>externalUrl.
     bind_result (pub_optional PF_title requireText (pi_title inp)) (\<lambda>title.
     bind_result (pub_optional PF_sourceBranch requireText (pi_sourceBranch inp)) (\<lambda>sourceBranch.
     bind_result (pub_optional PF_targetBranch requireText (pi_targetBranch inp)) (\<lambda>targetBranch.
     bind_result (pub_optional PF_localCommit requireSha (pi_localCommit inp)) (\<lambda>localCommit.
     bind_result (pub_optional PF_headCommit requireSha (pi_headCommit inp)) (\<lambda>headCommit.
     bind_result (pub_optional PF_remoteCommit requireSha (pi_remoteCommit inp)) (\<lambda>remoteCommit.
     bind_result (pub_optional PF_evidence requireText (pi_evidence inp)) (\<lambda>evidence.
     bind_result (pub_optional PF_supersedes requireText (pi_supersedes inp)) (\<lambda>supersedes.
     bind_result (pub_optional PF_mergedAt requireTimestamp (pi_mergedAt inp)) (\<lambda>mergedAt.
       validatePublicationReference
         \<lparr>pub_id = ref_localId reference, pub_taskId = ref_taskId reference, pub_projectId = projectId,
          pub_provider = pi_provider inp, pub_repository = repository, pub_externalKind = pi_externalKind inp,
          pub_externalId = externalId, pub_externalUrl = externalUrl, pub_title = title, pub_sourceBranch = sourceBranch,
          pub_targetBranch = targetBranch, pub_localCommit = localCommit, pub_headCommit = headCommit,
          pub_remoteCommit = remoteCommit, pub_state = (case pi_state inp of None \<Rightarrow> Pub_open | Some x \<Rightarrow> x),
          pub_verification = (case pi_verification inp of None \<Rightarrow> Pub_reported | Some x \<Rightarrow> x),
          pub_evidence = evidence, pub_supersedes = supersedes,
          pub_recordedBy = (case pi_recordedBy inp of None \<Rightarrow> By_user | Some x \<Rightarrow> x),
          pub_source = (case pi_source inp of None \<Rightarrow> Src_manual | Some x \<Rightarrow> x),
          pub_mergedAt = mergedAt, pub_createdAt = toISOString now\<rparr>))))))))))))))"

subsection \<open>The table\<close>

definition normalized_check :: "publication_field \<Rightarrow> string \<Rightarrow> publication_error option" where
  "normalized_check f v = first_error [pub_check f (requireText v), reject (trim v \<noteq> v) (Pub_not_normalized f)]"

definition identity_check :: "publication_field \<Rightarrow> string \<Rightarrow> publication_error option" where
  "identity_check f v = first_error [normalized_check f v, reject (reserved_identity v \<or> has_separator v) (Pub_field f Invalid)]"

definition storedPublicationReference :: "publication \<Rightarrow> publication_error + publication" where
  "storedPublicationReference r =
     (case first_error
        [identity_check PF_id (pub_id r), identity_check PF_task (pub_taskId r),
         failure (map_error Pub_reference (validateTaskRecordReference (task_reference (pub_taskId r) (pub_id r)) K_publicationReference)),
         identity_check PF_project (pub_projectId r),
         normalized_check PF_repository (pub_repository r),
         normalized_check PF_externalId (pub_externalId r),
         when_some (pub_externalUrl r) (normalized_check PF_externalUrl),
         when_some (pub_title r) (normalized_check PF_title),
         when_some (pub_sourceBranch r) (normalized_check PF_sourceBranch),
         when_some (pub_targetBranch r) (normalized_check PF_targetBranch),
         when_some (pub_localCommit r) (normalized_check PF_localCommit),
         when_some (pub_remoteCommit r) (normalized_check PF_remoteCommit),
         when_some (pub_evidence r) (normalized_check PF_evidence),
         when_some (pub_supersedes r) (normalized_check PF_supersedes),
         when_some (pub_mergedAt r) (\<lambda>t. pub_check PF_mergedAt (requireTimestamp t)),
         pub_check PF_createdAt (requireTimestamp (pub_createdAt r))] of
        Some e \<Rightarrow> Inl e
      | None \<Rightarrow> validatePublicationReference r)"

type_synonym publication_table = "publication list"

definition getPublicationReference :: "publication_table \<Rightarrow> string \<Rightarrow> string \<Rightarrow> publication option" where
  "getPublicationReference s taskId i = find (\<lambda>r. pub_taskId r = taskId \<and> pub_id r = i) s"

text \<open>\<open>new Map(references.map(...))\<close>: of two records with the same id the later one counts.\<close>

definition by_id :: "publication list \<Rightarrow> string \<Rightarrow> publication option" where
  "by_id refs i = find (\<lambda>r. pub_id r = i) (rev refs)"

definition not_superseded :: "publication list \<Rightarrow> publication list" where
  "not_superseded refs = filter (\<lambda>r. Some (pub_id r) \<notin> set (map pub_supersedes refs)) refs"

lemma find_mem: "find P xs = Some x \<Longrightarrow> x \<in> set xs \<and> P x"
  by (induction xs) (auto split: if_splits)

lemma find_None_mem: "find P xs = None \<longleftrightarrow> (\<forall>x \<in> set xs. \<not> P x)"
  by (induction xs) auto

lemma find_unique: "distinct (map f xs) \<Longrightarrow> x \<in> set xs \<Longrightarrow> find (\<lambda>y. f y = f x) xs = Some x"
  by (induction xs) (auto simp: image_iff)

function walk_history :: "publication list \<Rightarrow> string list \<Rightarrow> publication \<Rightarrow> publication_error option" where
  "walk_history refs seen current =
     (case pub_supersedes current of
        None \<Rightarrow> None
      | Some s \<Rightarrow>
          if pub_id current \<in> set seen then Some Supersession_cycle
          else case by_id refs s of
            None \<Rightarrow> Some Supersession_missing
          | Some previous \<Rightarrow> walk_history refs (pub_id current # seen) previous)"
  by pat_completeness auto
termination
proof (relation "measure (\<lambda>(refs, seen, c). card (insert (pub_id c) (pub_id ` set refs) - set seen))")
  fix refs :: "publication list" and seen and c p :: publication and s
  assume "pub_id c \<notin> set seen" "by_id refs s = Some p"
  then have "p \<in> set refs" using find_mem by (fastforce simp: by_id_def)
  then have "insert (pub_id p) (pub_id ` set refs) - set (pub_id c # seen) \<subset> insert (pub_id c) (pub_id ` set refs) - set seen"
    using \<open>pub_id c \<notin> set seen\<close> by auto
  then show "((refs, pub_id c # seen, p), refs, seen, c) \<in> measure (\<lambda>(refs, seen, c). card (insert (pub_id c) (pub_id ` set refs) - set seen))"
    by (simp add: psubset_card_mono)
qed simp

declare walk_history.simps [simp del]

definition latestPublication :: "(publication list \<Rightarrow> publication) \<Rightarrow> publication list \<Rightarrow> publication_error + publication" where
  "latestPublication pick refs =
     (let latest = (case not_superseded refs of [r] \<Rightarrow> r | _ \<Rightarrow> pick refs) in
      case walk_history refs [] latest of Some e \<Rightarrow> Inl e | None \<Rightarrow> Inr latest)"

definition findPublicationReferenceByExternalKey ::
  "(publication list \<Rightarrow> publication) \<Rightarrow> publication_table \<Rightarrow> string \<Rightarrow> publication_error + publication option" where
  "findPublicationReferenceByExternalKey pick s key =
     (case filter (\<lambda>r. publicationExternalKey r = key) s of
        [] \<Rightarrow> Inr None
      | matches \<Rightarrow> bind_result (latestPublication pick matches) (\<lambda>r. Inr (Some r)))"

definition savePublicationReference ::
  "(publication list \<Rightarrow> publication) \<Rightarrow> (string \<Rightarrow> bool) \<Rightarrow> string \<Rightarrow> publication \<Rightarrow> publication_table \<Rightarrow> publication_error + publication_table" where
  "savePublicationReference pick hasTask taskId reference s =
     bind_result (storedPublicationReference reference) (\<lambda>stored.
     if pub_taskId stored \<noteq> taskId then Inl Pub_other_task
     else if \<not> hasTask taskId then Inl Pub_task_missing
     else case getPublicationReference s taskId (pub_id stored) of
       Some existing \<Rightarrow> if existing \<noteq> stored then Inl Pub_overwritten else Inr s
     | None \<Rightarrow>
         let sameExternal = filter (\<lambda>r. publicationExternalKey r = publicationExternalKey stored) s in
         if \<exists>r \<in> set sameExternal. pub_taskId r \<noteq> taskId then Inl Identity_of_other_task
         else if sameExternal \<noteq> [] then
           bind_result (latestPublication pick sameExternal) (\<lambda>latest.
             if pub_supersedes stored \<noteq> Some (pub_id latest) then Inl Not_current else Inr (s @ [stored]))
         else if pub_supersedes stored \<noteq> None then Inl Supersedes_other_identity
         else Inr (s @ [stored]))"

subsection \<open>Freshness of observations\<close>

definition material_change :: "publication \<Rightarrow> publication \<Rightarrow> bool" where
  "material_change current prior \<longleftrightarrow>
     pub_projectId current \<noteq> pub_projectId prior \<or> pub_provider current \<noteq> pub_provider prior \<or>
     pub_repository current \<noteq> pub_repository prior \<or> pub_externalKind current \<noteq> pub_externalKind prior \<or>
     pub_externalId current \<noteq> pub_externalId prior \<or> pub_externalUrl current \<noteq> pub_externalUrl prior \<or>
     pub_localCommit current \<noteq> pub_localCommit prior \<or> pub_targetBranch current \<noteq> pub_targetBranch prior \<or>
     pub_state current \<noteq> pub_state prior \<or> pub_headCommit current \<noteq> pub_headCommit prior \<or>
     pub_remoteCommit current \<noteq> pub_remoteCommit prior \<or> pub_mergedAt current \<noteq> pub_mergedAt prior"

partial_function (option) publicationObservationNotBefore ::
  "(string \<Rightarrow> publication option) \<Rightarrow> publication \<Rightarrow> (publication_error + time option option) option" where
  "publicationObservationNotBefore previous current =
     (case pub_supersedes current of
        None \<Rightarrow> Some (Inr None)
      | Some s \<Rightarrow>
          (case previous s of
             None \<Rightarrow> Some (Inl History_incomplete)
           | Some prior \<Rightarrow>
               if material_change current prior then Some (Inr (Some (Date_parse (pub_createdAt current))))
               else publicationObservationNotBefore previous prior))"

subsection \<open>Histories are chains\<close>

definition history :: "publication_table \<Rightarrow> string \<Rightarrow> publication list" where
  "history s k = filter (\<lambda>r. publicationExternalKey r = k) s"

fun chain_from :: "string option \<Rightarrow> publication list \<Rightarrow> bool" where
  "chain_from prior [] = True"
| "chain_from prior (r # rs) = (pub_supersedes r = prior \<and> chain_from (Some (pub_id r)) rs)"

definition table_inv :: "publication_table \<Rightarrow> bool" where
  "table_inv s \<longleftrightarrow> distinct (map (\<lambda>r. (pub_taskId r, pub_id r)) s) \<and> (\<forall>r \<in> set s. storedPublicationReference r = Inr r) \<and>
     (\<forall>k. chain_from None (history s k)) \<and>
     (\<forall>a \<in> set s. \<forall>b \<in> set s. publicationExternalKey a = publicationExternalKey b \<longrightarrow> pub_taskId a = pub_taskId b)"

lemma chain_from_append: "chain_from p (xs @ ys) \<longleftrightarrow> chain_from p xs \<and> chain_from (if xs = [] then p else Some (pub_id (last xs))) ys"
  by (induction xs arbitrary: p) auto

lemma chain_supersedes: "chain_from p (ys @ [x]) \<Longrightarrow> map pub_supersedes (ys @ [x]) = p # map (\<lambda>r. Some (pub_id r)) ys"
  by (induction ys arbitrary: p) auto

lemma not_superseded_chain:
  assumes "chain_from None (ys @ [x])" "distinct (map pub_id (ys @ [x]))"
  shows "not_superseded (ys @ [x]) = [x]"
proof -
  have "Some (pub_id r) \<notin> set (map pub_supersedes (ys @ [x])) \<longleftrightarrow> r \<notin> set ys" if "r \<in> set (ys @ [x])" for r
    using that assms(2) by (auto simp only: chain_supersedes [OF assms(1)]) (auto simp: image_iff)
  then have "not_superseded (ys @ [x]) = filter (\<lambda>r. r \<notin> set ys) (ys @ [x])"
    unfolding not_superseded_def by (intro filter_cong) auto
  moreover have "x \<notin> set ys" using assms(2) by auto
  ultimately show ?thesis by (simp add: filter_False)
qed

lemma by_id_unique: "distinct (map pub_id xs) \<Longrightarrow> x \<in> set xs \<Longrightarrow> by_id xs (pub_id x) = Some x"
  unfolding by_id_def by (rule find_unique) (simp_all add: rev_map [symmetric])

lemma walk_chain:
  assumes "chain_from None xs" "distinct (map pub_id xs)"
  shows "xs = ys @ x # zs \<Longrightarrow> set seen \<inter> pub_id ` set (ys @ [x]) = {} \<Longrightarrow> walk_history xs seen x = None"
proof (induction ys arbitrary: x zs seen rule: rev_induct)
  case Nil
  then have "pub_supersedes x = None" using assms(1) by simp
  then show ?case by (simp add: walk_history.simps)
next
  case (snoc y ys)
  then have x: "pub_supersedes x = Some (pub_id y)" using assms(1) by (simp add: chain_from_append)
  have y: "by_id xs (pub_id y) = Some y" using snoc.prems(1) assms(2) by (intro by_id_unique) auto
  have "pub_id x \<notin> pub_id ` set (ys @ [y])" using snoc.prems(1) assms(2) by auto
  then have "set (pub_id x # seen) \<inter> pub_id ` set (ys @ [y]) = {}" using snoc.prems(2) by auto
  then have "walk_history xs (pub_id x # seen) y = None" using snoc.IH [of y "x # zs" "pub_id x # seen"] snoc.prems(1) by simp
  moreover have "pub_id x \<notin> set seen" using snoc.prems(2) by auto
  ultimately show ?case using x y by (simp add: walk_history.simps [of xs seen x])
qed

lemma latest_chain:
  assumes "chain_from None xs" "distinct (map pub_id xs)" "xs \<noteq> []"
  shows "latestPublication pick xs = Inr (last xs)"
proof -
  obtain ys x where xs: "xs = ys @ [x]" using assms(3) by (metis rev_exhaust)
  have "walk_history xs [] x = None" using walk_chain [OF assms(1,2), of ys x "[]" "[]"] xs by simp
  with xs assms(1,2) not_superseded_chain [of ys x] show ?thesis by (simp add: latestPublication_def)
qed

lemma history_distinct:
  assumes "table_inv s"
  shows "distinct (map pub_id (history s k))"
proof -
  have "inj_on pub_id (set (history s k))"
  proof (rule inj_onI)
    fix a b
    assume ab: "a \<in> set (history s k)" "b \<in> set (history s k)" "pub_id a = pub_id b"
    then have "a \<in> set s" "b \<in> set s" "pub_taskId a = pub_taskId b" using assms unfolding table_inv_def history_def by force+
    moreover have "inj_on (\<lambda>r. (pub_taskId r, pub_id r)) (set s)" using assms by (simp add: table_inv_def distinct_map)
    ultimately show "a = b" using ab(3) by (auto dest: inj_onD)
  qed
  moreover have "distinct (history s k)" using assms by (simp add: history_def table_inv_def distinct_map)
  ultimately show ?thesis by (simp add: distinct_map)
qed

lemma get_stored:
  assumes "table_inv s" "r \<in> set s"
  shows "getPublicationReference s (pub_taskId r) (pub_id r) = Some r"
proof -
  have "find (\<lambda>y. (pub_taskId y, pub_id y) = (pub_taskId r, pub_id r)) s = Some r"
    by (rule find_unique) (use assms in \<open>auto simp: table_inv_def\<close>)
  then show ?thesis by (simp add: getPublicationReference_def)
qed

lemma history_snoc: "history (s @ [r]) k = (if publicationExternalKey r = k then history s k @ [r] else history s k)"
  by (simp add: history_def)

lemma stored_Inr: "storedPublicationReference r = Inr q \<Longrightarrow> q = r"
  by (auto simp: storedPublicationReference_def validatePublicationReference_def check_Inr split: option.splits)

lemma save_result:
  assumes "table_inv s" "savePublicationReference pick hasTask taskId r s = Inr u"
  obtains "u = s" "r \<in> set s"
  | "u = s @ [r]" "storedPublicationReference r = Inr r" "pub_taskId r = taskId" "getPublicationReference s taskId (pub_id r) = None"
    "\<forall>x \<in> set (history s (publicationExternalKey r)). pub_taskId x = taskId"
    "pub_supersedes r = (if history s (publicationExternalKey r) = [] then None else Some (pub_id (last (history s (publicationExternalKey r)))))"
proof -
  let ?h = "history s (publicationExternalKey r)"
  from assms(2) obtain q where q: "storedPublicationReference r = Inr q" by (auto simp: savePublicationReference_def bind_result_Inr)
  then have r: "storedPublicationReference r = Inr r" using stored_Inr by blast
  have run: "(if pub_taskId r \<noteq> taskId then Inl Pub_other_task
     else if \<not> hasTask taskId then Inl Pub_task_missing
     else case getPublicationReference s taskId (pub_id r) of
       Some existing \<Rightarrow> if existing \<noteq> r then Inl Pub_overwritten else Inr s
     | None \<Rightarrow>
         if \<exists>x \<in> set ?h. pub_taskId x \<noteq> taskId then Inl Identity_of_other_task
         else if ?h \<noteq> [] then
           bind_result (latestPublication pick ?h) (\<lambda>latest.
             if pub_supersedes r \<noteq> Some (pub_id latest) then Inl Not_current else Inr (s @ [r]))
         else if pub_supersedes r \<noteq> None then Inl Supersedes_other_identity
         else Inr (s @ [r])) = Inr u"
    using assms(2) by (simp only: savePublicationReference_def r bind_result_simps Let_def history_def)
  then have task: "pub_taskId r = taskId" by (auto split: if_splits)
  show ?thesis
  proof (cases "getPublicationReference s taskId (pub_id r)")
    case (Some e)
    with run task have "u = s" "e = r" by (auto split: if_splits)
    moreover have "e \<in> set s" using Some find_mem by (fastforce simp: getPublicationReference_def)
    ultimately show ?thesis using that(1) by simp
  next
    case None
    from run task None have ok: "hasTask taskId" "\<forall>x \<in> set ?h. pub_taskId x = taskId" by (auto split: if_splits)
    have no: "\<not> (\<exists>x \<in> set ?h. pub_taskId x \<noteq> taskId)" using ok(2) by blast
    have "u = s @ [r] \<and> pub_supersedes r = (if ?h = [] then None else Some (pub_id (last ?h)))"
    proof (cases "?h = []")
      case True
      with run task None ok(1) show ?thesis by (simp split: if_splits)
    next
      case False
      have c: "chain_from None ?h" using assms(1) by (simp add: table_inv_def)
      have "latestPublication pick ?h = Inr (last ?h)" by (rule latest_chain [OF c history_distinct [OF assms(1)] False])
      with run task None False ok(1) no have "(if pub_supersedes r \<noteq> Some (pub_id (last ?h)) then Inl Not_current else Inr (s @ [r])) = Inr u"
        by simp
      with False show ?thesis by (simp split: if_splits)
    qed
    with ok(2) have "u = s @ [r]" "\<forall>x \<in> set ?h. pub_taskId x = taskId" "pub_supersedes r = (if ?h = [] then None else Some (pub_id (last ?h)))"
      by simp_all
    then show ?thesis using that(2) r task None by simp
  qed
qed

lemma save_inv:
  assumes "table_inv s" "savePublicationReference pick hasTask taskId r s = Inr u"
  shows "table_inv u \<and> prefix s u"
  using assms
proof (cases rule: save_result)
  case 1
  with assms(1) show ?thesis by simp
next
  case 2
  have new: "(pub_taskId r, pub_id r) \<notin> (\<lambda>r. (pub_taskId r, pub_id r)) ` set s"
    using 2(3,4) by (auto simp: getPublicationReference_def find_None_mem)
  have old: "distinct (map (\<lambda>r. (pub_taskId r, pub_id r)) s)" "\<forall>x \<in> set s. storedPublicationReference x = Inr x"
    "\<And>k. chain_from None (history s k)"
    "\<And>a b. a \<in> set s \<Longrightarrow> b \<in> set s \<Longrightarrow> publicationExternalKey a = publicationExternalKey b \<Longrightarrow> pub_taskId a = pub_taskId b"
    using assms(1) unfolding table_inv_def by blast+
  have same: "pub_taskId x = pub_taskId r" if "x \<in> set s" "publicationExternalKey x = publicationExternalKey r" for x
    using 2(3,5) that by (auto simp: history_def)
  have "table_inv (s @ [r])"
    unfolding table_inv_def
  proof (intro conjI allI ballI impI)
    show "distinct (map (\<lambda>r. (pub_taskId r, pub_id r)) (s @ [r]))" using old(1) new by simp
    show "chain_from None (history (s @ [r]) k)" for k using old(3) [of k] 2(6) by (simp add: history_snoc chain_from_append)
    show "storedPublicationReference x = Inr x" if "x \<in> set (s @ [r])" for x using that old(2) 2(2) by auto
    fix a b
    assume ab: "a \<in> set (s @ [r])" "b \<in> set (s @ [r])" "publicationExternalKey a = publicationExternalKey b"
    from ab(1,2) consider "a \<in> set s" "b \<in> set s" | "a = r" "b = r" | "a \<in> set s" "b = r" | "a = r" "b \<in> set s" by auto
    then show "pub_taskId a = pub_taskId b"
    proof cases
      case 1
      then show ?thesis using old(4) ab(3) by blast
    next
      case 3
      then show ?thesis using same ab(3) by blast
    next
      case 4
      then show ?thesis using same [of b] ab(3) by metis
    qed simp
  qed
  then show ?thesis by (simp add: 2(1))
qed

fun boundary :: "publication list \<Rightarrow> time option option" where
  "boundary (x # y # rs) = (if material_change x y then Some (Date_parse (pub_createdAt x)) else boundary (y # rs))"
| "boundary _ = None"

lemma not_before_chain:
  assumes "table_inv s"
  shows "history s k = ys @ x # zs \<Longrightarrow>
    publicationObservationNotBefore (getPublicationReference s (pub_taskId x)) x = Some (Inr (boundary (rev (ys @ [x]))))"
proof (induction ys arbitrary: x zs rule: rev_induct)
  case Nil
  then have "pub_supersedes x = None" using assms by (metis append_Nil chain_from.simps(2) table_inv_def)
  then show ?case by (simp add: publicationObservationNotBefore.simps)
next
  case (snoc y ys)
  have "chain_from None (history s k)" using assms by (simp add: table_inv_def)
  then have x: "pub_supersedes x = Some (pub_id y)" using snoc.prems by (simp add: chain_from_append)
  have mem: "x \<in> set (history s k)" "y \<in> set (history s k)" using snoc.prems by auto
  then have "x \<in> set s" "y \<in> set s" "pub_taskId y = pub_taskId x" using assms unfolding table_inv_def history_def by force+
  then have y: "getPublicationReference s (pub_taskId x) (pub_id y) = Some y" using get_stored [OF assms] by metis
  have "publicationObservationNotBefore (getPublicationReference s (pub_taskId x)) y = Some (Inr (boundary (rev (ys @ [y]))))"
    using snoc.IH [of y "x # zs"] snoc.prems \<open>pub_taskId y = pub_taskId x\<close> by simp
  then show ?case using x y by (simp add: publicationObservationNotBefore.simps [of _ x])
qed

definition publication_step ::
  "(publication list \<Rightarrow> publication) \<Rightarrow> (string \<Rightarrow> bool) \<Rightarrow> string \<times> publication \<Rightarrow> publication_table \<Rightarrow> publication_error + publication_table" where
  "publication_step pick hasTask c s = savePublicationReference pick hasTask (fst c) (snd c) s"

interpretation publications: ratchet_system table_inv "publication_step pick hasTask" "\<lambda>_. True" prefix for pick hasTask
  by unfold_locales (auto simp: publication_step_def dest: save_inv)

subsection \<open>Created publications can be stored\<close>

lemma text_normalized:
  assumes "requireText v = Inr w"
  shows "normalized_check f w = None"
proof -
  have "w = trim v" using assms by (simp add: requireText_Inr)
  then show ?thesis using requireText_idem [OF assms] by (simp add: normalized_check_def)
qed

lemma identity_normalized: "requireIdentity v = Inr w \<Longrightarrow> identity_check f w = None"
  by (auto simp: identity_check_def requireIdentity_Inr intro: text_normalized)

lemma hex_not_space: "is_hex c \<Longrightarrow> \<not> is_space c \<and> unit_of c \<noteq> 0"
  by (auto simp: is_hex_def is_digit_def is_space_def)

lemma sha_normalized:
  assumes "requireSha v = Inr w"
  shows "normalized_check f w = None"
proof -
  from assms have w: "all_hex w" "length w = 40"
    by (auto simp: requireSha_def bind_result_Inr toLowerCase_def split: if_splits)
  then have s: "\<forall>c \<in> set w. \<not> is_space c \<and> unit_of c \<noteq> 0" using hex_not_space by (auto simp: all_hex_def list_all_iff)
  then have "trim w = w" using w(2) by (intro trim_id) (auto simp: trimmed_def)
  moreover have "\<not> has_nul w" using s by (auto simp: has_nul_def unit_of_def)
  ultimately show ?thesis using w(2) by (auto simp: normalized_check_def requireText_def)
qed

lemma optional_normalized:
  "pub_optional f g v = Inr w \<Longrightarrow> (\<And>x y. g x = Inr y \<Longrightarrow> c y = None) \<Longrightarrow> when_some w c = None"
  by (cases v) (auto simp: optional_value_Inr map_error_Inr)

lemma created_stored:
  assumes "createPublicationReference i taskId inp now = Inr r"
  shows "storedPublicationReference r = Inr r"
proof -
  note validate = validatePublicationReference_def check_Inr
  from assms obtain reference projectId repository externalId externalUrl title sourceBranch targetBranch localCommit headCommit
      remoteCommit evidence supersedes mergedAt where
    req: "validateTaskRecordReference (task_reference taskId i) K_publicationReference = Inr reference"
      "requireIdentity (pi_projectId inp) = Inr projectId" "requireText (pi_repository inp) = Inr repository"
      "requireText (pi_externalId inp) = Inr externalId" and
    opt: "pub_optional PF_externalUrl requireText (pi_externalUrl inp) = Inr externalUrl"
      "pub_optional PF_title requireText (pi_title inp) = Inr title"
      "pub_optional PF_sourceBranch requireText (pi_sourceBranch inp) = Inr sourceBranch"
      "pub_optional PF_targetBranch requireText (pi_targetBranch inp) = Inr targetBranch"
      "pub_optional PF_localCommit requireSha (pi_localCommit inp) = Inr localCommit"
      "pub_optional PF_remoteCommit requireSha (pi_remoteCommit inp) = Inr remoteCommit"
      "pub_optional PF_evidence requireText (pi_evidence inp) = Inr evidence"
      "pub_optional PF_supersedes requireText (pi_supersedes inp) = Inr supersedes"
      "pub_optional PF_mergedAt requireTimestamp (pi_mergedAt inp) = Inr mergedAt" and
    r: "pub_id r = ref_localId reference" "pub_taskId r = ref_taskId reference" "pub_projectId r = projectId"
      "pub_repository r = repository" "pub_externalId r = externalId" "pub_externalUrl r = externalUrl" "pub_title r = title"
      "pub_sourceBranch r = sourceBranch" "pub_targetBranch r = targetBranch" "pub_localCommit r = localCommit"
      "pub_remoteCommit r = remoteCommit" "pub_evidence r = evidence" "pub_supersedes r = supersedes" "pub_mergedAt r = mergedAt" and
    v: "validatePublicationReference r = Inr r"
    unfolding createPublicationReference_def bind_result_Inr map_error_Inr by (elim exE conjE) (simp add: validate)
  have ids: "requireIdentity taskId = Inr (ref_taskId reference)" "requireIdentity i = Inr (ref_localId reference)"
    using req(1) by (auto simp: validateTaskRecordReference_def bind_result_Inr map_error_Inr split: option.splits if_splits)
  note texts = opt(1-4,7,8) [THEN optional_normalized, OF text_normalized] opt(5,6) [THEN optional_normalized, OF sha_normalized]
  have time: "when_some mergedAt (\<lambda>t. pub_check PF_mergedAt (requireTimestamp t)) = None"
    by (rule optional_normalized [OF opt(9)]) (simp add: requireTimestamp_def split: option.splits)
  have created: "pub_check PF_createdAt (requireTimestamp (pub_createdAt r)) = None"
    "failure (map_error Pub_reference (validateTaskRecordReference (task_reference (pub_taskId r) (pub_id r)) K_publicationReference)) = None"
    using v by (simp_all add: validate)
  show ?thesis
    unfolding storedPublicationReference_def r
    using v created ids req(2-4) texts time
    by (simp add: r identity_normalized text_normalized del: when_some_None failure_map_error)
qed

subsection \<open>Properties\<close>

text \<open>
  C23. The table of publications over every sequence of successful saves: stored records never change; the records
  of one external object, in the order they were saved, belong to one Task, have different ids and
  form one chain in which each supersedes its predecessor; so looking up the object never fails and
  returns the record saved last, and a later save under the same key must supersede exactly that one.
\<close>

theorem publication_history:
  assumes "run_commands (publication_step pick hasTask) cs [] = Inr s" "run_commands (publication_step pick hasTask) ds s = Inr u"
  shows "prefix s u \<and> distinct (map pub_id (history u k)) \<and> chain_from None (history u k) \<and>
    (\<forall>a \<in> set (history u k). \<forall>b \<in> set (history u k). pub_taskId a = pub_taskId b) \<and>
    findPublicationReferenceByExternalKey pick u k = Inr (if history u k = [] then None else Some (last (history u k))) \<and>
    (\<forall>r v. publicationExternalKey r = k \<and> savePublicationReference pick hasTask (pub_taskId r) r u = Inr v \<and> v \<noteq> u \<longrightarrow>
       history v k = history u k @ [r] \<and>
       pub_supersedes r = (if history u k = [] then None else Some (pub_id (last (history u k)))))"
proof -
  have adm: "list_all (\<lambda>_. True) xs" for xs :: "'x list" by (simp add: list_all_iff)
  have e: "table_inv []" by (simp add: table_inv_def history_def)
  have s: "table_inv s" by (rule publications.run_valid [OF e adm assms(1)])
  have u: "table_inv u" by (rule publications.run_valid [OF s adm assms(2)])
  have c: "chain_from None (history u k)" using u by (simp add: table_inv_def)
  note d = history_distinct [OF u, of k]
  have find: "findPublicationReferenceByExternalKey pick u k = Inr (if history u k = [] then None else Some (last (history u k)))"
  proof (cases "history u k")
    case Nil
    then show ?thesis by (simp add: findPublicationReferenceByExternalKey_def history_def)
  next
    case (Cons x xs)
    then have "latestPublication pick (x # xs) = Inr (last (x # xs))" using latest_chain [OF c d] by simp
    with Cons show ?thesis by (simp add: findPublicationReferenceByExternalKey_def history_def)
  qed
  have task: "\<forall>a \<in> set (history u k). \<forall>b \<in> set (history u k). pub_taskId a = pub_taskId b"
  proof (intro ballI)
    fix a b
    assume "a \<in> set (history u k)" "b \<in> set (history u k)"
    then have "a \<in> set u" "b \<in> set u" "publicationExternalKey a = publicationExternalKey b" by (auto simp: history_def)
    then show "pub_taskId a = pub_taskId b" using u unfolding table_inv_def by blast
  qed
  have save: "history v k = history u k @ [r] \<and>
      pub_supersedes r = (if history u k = [] then None else Some (pub_id (last (history u k))))"
    if r: "publicationExternalKey r = k" "savePublicationReference pick hasTask (pub_taskId r) r u = Inr v" "v \<noteq> u" for r v
    using u r(2)
  proof (cases rule: save_result)
    case 2
    then show ?thesis using r(1) by (simp add: history_snoc)
  qed (use r(3) in simp)
  show ?thesis using publications.run_below [OF s adm assms(2)] c d find task save by blast
qed

definition demo_publication :: publication where
  "demo_publication = \<lparr>pub_id = ''publication-1'', pub_taskId = ''task-1'', pub_projectId = ''p'', pub_provider = Provider_github,
     pub_repository = ''o/r'', pub_externalKind = Pull_request, pub_externalId = ''7'', pub_externalUrl = None, pub_title = None,
     pub_sourceBranch = None, pub_targetBranch = None, pub_localCommit = None, pub_headCommit = None, pub_remoteCommit = None,
     pub_state = Pub_open, pub_verification = Pub_reported, pub_evidence = None, pub_supersedes = None, pub_recordedBy = By_user,
     pub_source = Src_manual, pub_mergedAt = None, pub_createdAt = ''2024-01-01T00:00:00.000Z''\<rparr>"

definition demo_successor :: publication where
  "demo_successor = demo_publication\<lparr>pub_id := ''publication-2'', pub_title := Some ''t'', pub_supersedes := Some ''publication-1''\<rparr>"

definition demo_publications :: publication_table where
  "demo_publications = [demo_publication, demo_successor]"

lemma demo_publications_saved:
  "run_commands (publication_step hd (\<lambda>_. True)) [(''task-1'', demo_publication), (''task-1'', demo_successor)] [] = Inr demo_publications"
  by code_simp

lemma publication_history_witness:
  "findPublicationReferenceByExternalKey hd demo_publications ''github/o/r/7'' = Inr (Some demo_successor)"
proof -
  have "history demo_publications ''github/o/r/7'' = [demo_publication, demo_successor]" by code_simp
  then show ?thesis
    using publication_history [OF demo_publications_saved, of "[]" demo_publications "''github/o/r/7''"] by simp
qed

text \<open>
  C24. The loop that derives the freshness bound of an observation has no guard against cycles, but it returns for every stored
  publication: walking back from the publication it finds the latest record whose material fields
  differ from those of its predecessor and answers with the time of that record, or that nothing
  material ever changed; it never meets a missing predecessor.
\<close>

theorem publication_observation_terminates:
  assumes "run_commands (publication_step pick hasTask) cs [] = Inr s" "history s k = ys @ x # zs"
  shows "publicationObservationNotBefore (getPublicationReference s (pub_taskId x)) x = Some (Inr (boundary (rev (ys @ [x]))))"
proof -
  have adm: "list_all (\<lambda>_. True) xs" for xs :: "'x list" by (simp add: list_all_iff)
  have e: "table_inv []" by (simp add: table_inv_def history_def)
  show ?thesis by (rule not_before_chain [OF publications.run_valid [OF e adm assms(1)] assms(2)])
qed

lemma publication_observation_terminates_witness:
  "publicationObservationNotBefore (getPublicationReference demo_publications ''task-1'') demo_successor = Some (Inr None)"
proof -
  have "history demo_publications ''github/o/r/7'' = [demo_publication] @ demo_successor # []" by code_simp
  from publication_observation_terminates [OF demo_publications_saved this]
  have "publicationObservationNotBefore (getPublicationReference demo_publications (pub_taskId demo_successor)) demo_successor =
      Some (Inr (boundary [demo_successor, demo_publication]))" by simp
  moreover have "pub_taskId demo_successor = ''task-1''" "boundary [demo_successor, demo_publication] = None" by code_simp+
  ultimately show ?thesis by simp
qed

end
