(* ===== verification/Job_Records.thy ===== *)
theory Job_Records
  imports Artifact_Reference Operation_Facts Js_Json
begin

text \<open>
  The parts that every run of a job carries: scopes and triggers (\<open>src/src/job/jobDefinition.ts\<close>),
  references to runs and business results (\<open>src/src/job/jobBusinessResult.ts\<close>), delegations to a Task
  (\<open>src/src/job/taskDelegation.ts\<close>) and published artifacts (\<open>src/src/artifacts/jobArtifact.ts\<close>).

  A value of type \<open>JsonValue\<close> is represented by its JSON text with sorted keys, which is what the
  sources compare and measure. Size limits count the bytes of the UTF-8 form of the JSON text; the order
  of the keys of an object does not change the size.
\<close>

subsection \<open>Sizes\<close>

definition byteLength :: "string \<Rightarrow> nat" where
  "byteLength s = sum_list (map (\<lambda>c. if unit_of c < 128 then 1 else 2) s)"

definition numbered :: "string \<Rightarrow> string \<Rightarrow> bool" where
  "numbered p s = (startsWith s p \<and> drop (length p) s \<noteq> [] \<and> list_all is_digit (drop (length p) s))"

subsection \<open>Scopes, triggers and references\<close>

datatype job_scope = Scope_task string | Scope_global

datatype trigger_source = Trigger_manual | Trigger_retry | Trigger_schedule | Trigger_integration | Trigger_migration

record job_trigger =
  jt_source :: trigger_source
  jt_key :: string

record job_run_reference =
  jref_scope :: job_scope
  jref_runId :: string

datatype job_outcome = Out_succeeded | Out_failed | Out_timed_out | Out_cancelled | Out_unknown

datatype result_ref_kind = Run_record | Execution_evidence | Task_result | Work_item_result

datatype result_ref_owner = Owned_by_run job_run_reference | Owned_by_task string

record job_result_reference =
  rref_kind :: result_ref_kind
  rref_owner :: result_ref_owner
  rref_sourceRun :: job_run_reference
  rref_version :: string
  rref_locator :: string

record job_business_result =
  br_sourceRun :: job_run_reference
  br_outcome :: job_outcome
  br_summary :: string
  br_data :: "string option"
  br_evidence :: "job_result_reference list"

datatype delegation_goal = Goal_delivery | Goal_task_created | Goal_work_item

record task_delegation =
  td_taskId :: string
  td_goal :: delegation_goal
  td_workItemId :: "string option"
  td_workItemRevision :: "int option"
  td_workItemDefinitionDigest :: "string option"

datatype artifact_owner = Job_artifact_owner job_scope string | Task_artifact_owner string

record job_artifact =
  ja_owner :: artifact_owner
  ja_sourceRun :: job_run_reference
  ja_version :: string
  ja_relativePath :: string
  ja_digest :: string

text \<open>A field error carries the label of the field.\<close>

datatype job_error =
    Job_field string field_error
  | Job_reference reference_error
  | Job_operation operation_error
  | Job_path artifact_error
  | Scope_task_invalid
  | Result_source_mismatch | Result_too_large | Evidence_invalid | Evidence_locator_invalid
  | Delegated_task_invalid | Delegated_item_inexact | Delegated_goal_invalid
  | Artifact_identity_invalid | Artifact_scope_mismatch | Artifact_owner_mismatch | Artifact_run_mismatch
  | Artifact_version_inexact | Artifact_path_too_long | Artifact_digest_invalid | Artifacts_unbounded
  | Delegation_with_process | Delegation_with_spec | Delegation_without_evidence
  | Idempotency_key_invalid | Locator_not_relative | Outcome_disagrees | Queued_started | Running_not_started
  | Spec_missing | Workspace_not_absolute | Steps_missing | Step_name_duplicate | Argv_empty | Cwd_not_absolute
  | Env_key_invalid | Env_value_invalid | Exit_code_invalid
  | Not_queued | Not_running | Not_unattempted | Not_attempted | Not_terminal | Not_unknown

abbreviation job_check :: "string \<Rightarrow> field_error + 'a \<Rightarrow> job_error option" where
  "job_check l r \<equiv> map_option (Job_field l) (failure r)"

abbreviation job_ref :: "string \<Rightarrow> string \<Rightarrow> task_record_kind \<Rightarrow> job_error option" where
  "job_ref t l k \<equiv> map_option Job_reference (failure (validateTaskRecordReference (task_reference t l) k))"

definition jobScopeKey :: "job_scope \<Rightarrow> job_error + string" where
  "jobScopeKey scope =
     (case scope of
        Scope_global \<Rightarrow> Inr ''global''
      | Scope_task taskId \<Rightarrow>
          bind_result (map_error (Job_field ''scopeTask'') (requireIdentity taskId)) (\<lambda>_.
            if numbered ''task-'' taskId then Inr taskId else Inl Scope_task_invalid))"

subsection \<open>JSON texts\<close>

fun json_scope :: "job_scope \<Rightarrow> string" where
  "json_scope (Scope_task t) = json_object [(''kind'', json_string ''task''), (''taskId'', json_string t)]"
| "json_scope Scope_global = json_object [(''kind'', json_string ''global'')]"

definition json_run :: "job_run_reference \<Rightarrow> string" where
  "json_run r = json_object [(''scope'', json_scope (jref_scope r)), (''runId'', json_string (jref_runId r))]"

fun outcome_text :: "job_outcome \<Rightarrow> string" where
  "outcome_text Out_succeeded = ''succeeded''"
| "outcome_text Out_failed = ''failed''"
| "outcome_text Out_timed_out = ''timed-out''"
| "outcome_text Out_cancelled = ''cancelled''"
| "outcome_text Out_unknown = ''unknown-needs-attention''"

fun ref_kind_text :: "result_ref_kind \<Rightarrow> string" where
  "ref_kind_text Run_record = ''run-record''"
| "ref_kind_text Execution_evidence = ''execution-evidence''"
| "ref_kind_text Task_result = ''task-result''"
| "ref_kind_text Work_item_result = ''work-item-result''"

fun json_ref_owner :: "result_ref_owner \<Rightarrow> string" where
  "json_ref_owner (Owned_by_run r) = json_run r"
| "json_ref_owner (Owned_by_task t) = json_object [(''kind'', json_string ''task''), (''taskId'', json_string t)]"

definition json_evidence :: "job_result_reference \<Rightarrow> string" where
  "json_evidence r = json_object
     [(''kind'', json_string (ref_kind_text (rref_kind r))), (''owner'', json_ref_owner (rref_owner r)),
      (''sourceRun'', json_run (rref_sourceRun r)), (''version'', json_string (rref_version r)),
      (''locator'', json_string (rref_locator r))]"

definition json_result :: "job_business_result \<Rightarrow> string" where
  "json_result r = json_object
     ([(''schemaVersion'', ''1''), (''sourceRun'', json_run (br_sourceRun r)),
       (''outcome'', json_string (outcome_text (br_outcome r))), (''summary'', json_string (br_summary r))] @
      (case br_data r of None \<Rightarrow> [] | Some d \<Rightarrow> [(''data'', d)]) @
      [(''evidence'', json_array (map json_evidence (br_evidence r)))])"

fun json_artifact_owner :: "artifact_owner \<Rightarrow> string" where
  "json_artifact_owner (Job_artifact_owner scope jobId) = json_object
     [(''kind'', json_string ''job''), (''scope'', json_scope scope), (''jobId'', json_string jobId)]"
| "json_artifact_owner (Task_artifact_owner t) = json_object
     [(''kind'', json_string ''task''), (''taskId'', json_string t)]"

definition json_artifact :: "job_artifact \<Rightarrow> string" where
  "json_artifact a = json_object
     [(''kind'', json_string ''artifact''), (''owner'', json_artifact_owner (ja_owner a)),
      (''sourceRun'', json_run (ja_sourceRun a)), (''version'', json_string (ja_version a)),
      (''relativePath'', json_string (ja_relativePath a)), (''digest'', json_string (ja_digest a))]"

subsection \<open>Business results\<close>

definition unsafe_locator :: "string \<Rightarrow> bool" where
  "unsafe_locator s = (startsWith s ''/'' \<or> ''..'' \<in> set (split_on CHR ''/'' s))"

definition evidence_error :: "job_run_reference \<Rightarrow> job_result_reference \<Rightarrow> job_error option" where
  "evidence_error run r =
     (let ownerMatches = (if rref_kind r = Task_result \<or> rref_kind r = Work_item_result
          then (case rref_owner r of Owned_by_task t \<Rightarrow> numbered ''task-'' t | Owned_by_run _ \<Rightarrow> False)
          else rref_owner r = Owned_by_run run) in
      first_error
        [reject (\<not> ownerMatches \<or> rref_sourceRun r \<noteq> run \<or> \<not> is_digest (rref_version r)) Evidence_invalid,
         job_check ''locator'' (requireText (rref_locator r)),
         reject (unsafe_locator (rref_locator r)) Evidence_locator_invalid])"

definition validateBusinessResult :: "job_business_result \<Rightarrow> job_run_reference \<Rightarrow> job_error + job_business_result" where
  "validateBusinessResult result run =
     check
       ([reject (br_sourceRun result \<noteq> run) Result_source_mismatch,
         job_check ''summary'' (requireText (br_summary result)),
         reject (byteLength (json_result result) > 256 * 1024) Result_too_large] @
        map (evidence_error run) (br_evidence result)) result"

subsection \<open>Delegations\<close>

definition validateTaskDelegation :: "task_delegation \<Rightarrow> job_error option" where
  "validateTaskDelegation d = first_error
     [reject (\<not> numbered ''task-'' (td_taskId d)) Delegated_task_invalid,
      (if td_goal d = Goal_work_item then
         reject (\<not> numbered ''work-item-'' (case td_workItemId d of None \<Rightarrow> [] | Some i \<Rightarrow> i) \<or>
             (case td_workItemRevision d of None \<Rightarrow> True | Some n \<Rightarrow> \<not> isSafeInteger n \<or> n < 1) \<or>
             \<not> is_digest (case td_workItemDefinitionDigest d of None \<Rightarrow> [] | Some s \<Rightarrow> s)) Delegated_item_inexact
       else reject (td_workItemId d \<noteq> None \<or> td_workItemRevision d \<noteq> None \<or> td_workItemDefinitionDigest d \<noteq> None)
         Delegated_goal_invalid)]"

subsection \<open>Published artifacts\<close>

definition is_alnum :: "char \<Rightarrow> bool" where
  "is_alnum c = (let n = unit_of c in is_digit c \<or> (65 \<le> n \<and> n \<le> 90) \<or> (97 \<le> n \<and> n \<le> 122))"

text \<open>The pattern \<open>^[a-zA-Z0-9][a-zA-Z0-9._-]{0,127}$\<close>.\<close>

definition plain_identity :: "string \<Rightarrow> bool" where
  "plain_identity s =
     (s \<noteq> [] \<and> length s \<le> 128 \<and> is_alnum (hd s) \<and> list_all (\<lambda>c. is_alnum c \<or> c \<in> set ''._-'') (tl s))"

definition artifact_owner_error :: "job_artifact \<Rightarrow> string option \<Rightarrow> job_error option" where
  "artifact_owner_error a definitionId =
     (case ja_owner a of
        Job_artifact_owner scope jobId \<Rightarrow> first_error
          [failure (jobScopeKey scope), reject (\<not> plain_identity jobId) Artifact_identity_invalid,
           reject (scope \<noteq> jref_scope (ja_sourceRun a)) Artifact_scope_mismatch,
           when_some definitionId (\<lambda>d. reject (jobId \<noteq> d) Artifact_owner_mismatch)]
      | Task_artifact_owner taskId \<Rightarrow> failure (jobScopeKey (Scope_task taskId)))"

definition validateJobArtifactReference ::
  "job_artifact \<Rightarrow> (job_run_reference \<times> string) option \<Rightarrow> job_error + job_artifact" where
  "validateJobArtifactReference a run =
     check
       [failure (jobScopeKey (jref_scope (ja_sourceRun a))),
        reject (\<not> plain_identity (jref_runId (ja_sourceRun a))) Artifact_identity_invalid,
        artifact_owner_error a (map_option snd run),
        when_some run (\<lambda>r. reject (ja_sourceRun a \<noteq> fst r) Artifact_run_mismatch),
        (case requireCommitId (ja_version a) of Inl e \<Rightarrow> Some (Job_path e)
         | Inr c \<Rightarrow> reject (c \<noteq> ja_version a) Artifact_version_inexact),
        map_option Job_path (failure (safeRelativeArtifactPath (ja_relativePath a))),
        reject (length (ja_relativePath a) > 512) Artifact_path_too_long,
        reject (\<not> is_digest (ja_digest a)) Artifact_digest_invalid] a"

definition validateRunArtifacts ::
  "job_run_reference \<Rightarrow> string \<Rightarrow> job_artifact list option \<Rightarrow> job_error option" where
  "validateRunArtifacts run definitionId artifacts =
     (case artifacts of
        None \<Rightarrow> None
      | Some as \<Rightarrow> first_error
          (reject (length as > 256 \<or> byteLength (json_array (map json_artifact as)) > 128 * 1024) Artifacts_unbounded #
           map (\<lambda>a. failure (validateJobArtifactReference a (Some (run, definitionId)))) as))"

definition artifactsAppendOnly :: "job_artifact list option \<Rightarrow> job_artifact list option \<Rightarrow> bool" where
  "artifactsAppendOnly before after =
     (let old = (case before of None \<Rightarrow> [] | Some as \<Rightarrow> as); new = (case after of None \<Rightarrow> [] | Some as \<Rightarrow> as) in
      length old \<le> length new \<and> list_all (\<lambda>i. old ! i = new ! i) [0..<length old])"

definition published :: "job_artifact list option \<Rightarrow> job_artifact list" where
  "published as = (case as of None \<Rightarrow> [] | Some xs \<Rightarrow> xs)"

lemma nth_prefix: "length xs \<le> length ys \<and> (\<forall>i < length xs. xs ! i = ys ! i) \<longleftrightarrow> prefix xs ys"
proof
  assume a: "length xs \<le> length ys \<and> (\<forall>i < length xs. xs ! i = ys ! i)"
  then have "take (length xs) xs = take (length xs) ys" by (intro nth_take_lemma) auto
  then show "prefix xs ys" by (metis append_take_drop_id prefixI take_all_iff order_refl)
next
  assume "prefix xs ys"
  then show "length xs \<le> length ys \<and> (\<forall>i < length xs. xs ! i = ys ! i)"
    by (auto simp: prefix_def nth_append)
qed

lemma artifactsAppendOnly_prefix: "artifactsAppendOnly a b \<longleftrightarrow> prefix (published a) (published b)"
  by (simp add: artifactsAppendOnly_def published_def list_all_iff Let_def Ball_def nth_prefix [symmetric] split: option.splits)

end
