(* ===== verification/Durable_Job.thy ===== *)
theory Durable_Job
  imports Job_Records
begin

text \<open>
  Durable jobs (\<open>src/src/job/durableJob.ts\<close>): the record of one run of a job, started and supervised by the
  controller, with the operations that move it from queued over running to one of the five
  terminal statuses, its validator, and the guard the store applies to every replacement of a
  stored run.

  The four variants of the union \<open>JobRun\<close> are one record: a run of a Task or a global run, with a
  process specification or with a delegation, so that the tests of the validator that keep the variants
  apart are tests of the model. Environments are lists of entries with different keys; the
  sources compare them as JSON text with sorted keys, hence as maps. SHA-256 and the digest of the JSON
  text of a process result (which depends on the order of its keys) are arguments, and so is
  the ellipsis character, which lies outside the characters of the model.
\<close>

subsection \<open>The record\<close>

type_synonym env_map = "(string \<times> string) list"

datatype job_status = Job_queued | Job_running | Job_ended job_outcome

datatype job_owner = Owner_integration string | Owner_work_item string | Owner_task

record job_step =
  js_name :: string
  js_command :: string
  js_argv :: "string list option"
  js_cwd :: "string option"
  js_env :: "env_map option"
  js_timeoutMs :: "int option"

record step_result =
  sr_name :: string
  sr_exitCode :: "int option"
  sr_signal :: "string option"
  sr_timedOut :: bool
  sr_durationMs :: int
  sr_logPath :: string
  sr_head :: string

record job_checkpoint =
  cp_completedSteps :: "step_result list"
  cp_updatedAt :: string

datatype evidence_source = From_exit_artifact | From_checkpoint

record job_result =
  res_outcome :: job_outcome
  res_exitCode :: "int option"
  res_signal :: "string option"
  res_failedStep :: "string option"
  res_unknownReason :: "string option"
  res_evidenceSource :: "evidence_source option"
  res_steps :: "step_result list"

record job_process =
  proc_pid :: int
  proc_startIdentity :: string

record service_ref =
  svc_scheduleId :: string
  svc_grantId :: string

datatype run_subject =
    Task_run string job_owner
  | Global_run "string option" "string option" "service_ref option"

record job_run =
  jr_delegation :: "task_delegation option"
  jr_id :: string
  jr_definitionId :: string
  jr_definitionRevision :: int
  jr_trigger :: job_trigger
  jr_subject :: run_subject
  jr_projectId :: "string option"
  jr_head :: "string option"
  jr_workspace :: "string option"
  jr_env :: "env_map option"
  jr_steps :: "job_step list option"
  jr_idempotencyKey :: string
  jr_operation :: operation_facts
  jr_status :: job_status
  jr_artifactsLocator :: string
  jr_createdAt :: string
  jr_startedAt :: "string option"
  jr_heartbeatAt :: "string option"
  jr_terminalAt :: "string option"
  jr_process :: "job_process option"
  jr_checkpoint :: "job_checkpoint option"
  jr_result :: "job_result option"
  jr_businessResult :: "job_business_result option"
  jr_artifacts :: "job_artifact list option"
  jr_retryOf :: "string option"
  jr_cancelRequestedAt :: "string option"
  jr_wakeupNotified :: "bool option"
  jr_acknowledgedAt :: "string option"
  jr_updatedAt :: string

record job_host =
  jh_sha256 :: "string \<Rightarrow> string"
  jh_resultDigest :: "job_result \<Rightarrow> string"
  jh_ellipsis :: string

definition isDurableJobTerminal :: "job_status \<Rightarrow> bool" where
  "isDurableJobTerminal s = (case s of Job_ended _ \<Rightarrow> True | _ \<Rightarrow> False)"

definition executionNamespace :: "job_run \<Rightarrow> string" where
  "executionNamespace j = (case jr_subject j of Task_run taskId _ \<Rightarrow> taskId | Global_run _ _ _ \<Rightarrow> ''global'')"

definition runReference :: "job_run \<Rightarrow> job_run_reference" where
  "runReference j = \<lparr>jref_scope = (case jr_subject j of Task_run taskId _ \<Rightarrow> Scope_task taskId | Global_run _ _ _ \<Rightarrow> Scope_global),
     jref_runId = jr_id j\<rparr>"

subsection \<open>Validation\<close>

definition validateDurableJobOwner :: "job_owner \<Rightarrow> string \<Rightarrow> job_error option" where
  "validateDurableJobOwner owner taskId =
     (case owner of
        Owner_integration i \<Rightarrow> job_ref taskId i K_integrationAttempt
      | Owner_work_item w \<Rightarrow> job_ref taskId w K_workItem
      | Owner_task \<Rightarrow> None)"

definition env_entry_error :: "string \<times> string \<Rightarrow> job_error option" where
  "env_entry_error e = first_error
     [reject (fst e = [] \<or> CHR ''='' \<in> set (fst e) \<or> has_nul (fst e)) Env_key_invalid,
      reject (has_nul (snd e)) Env_value_invalid]"

definition validateEnvMap :: "env_map \<Rightarrow> job_error option" where
  "validateEnvMap env = first_error (map env_entry_error env)"

definition step_field_errors :: "job_step \<Rightarrow> job_error option list" where
  "step_field_errors step =
     [job_check ''stepCommand'' (requireText (js_command step)),
      when_some (js_argv step) (\<lambda>argv. first_error
        (reject (argv = []) Argv_empty # map (\<lambda>v. job_check ''argv'' (requireText v)) argv)),
      when_some (js_cwd step) (\<lambda>cwd. case requireText cwd of Inl e \<Rightarrow> Some (Job_field ''cwd'' e)
        | Inr c \<Rightarrow> reject (\<not> startsWith c ''/'') Cwd_not_absolute),
      when_some (js_env step) validateEnvMap,
      when_some (js_timeoutMs step) (\<lambda>t. job_check ''timeout'' (requirePositiveInteger t))]"

fun steps_error :: "string list \<Rightarrow> job_step list \<Rightarrow> job_error option" where
  "steps_error names [] = None"
| "steps_error names (step # steps) =
     (case requireText (js_name step) of
        Inl e \<Rightarrow> Some (Job_field ''stepName'' e)
      | Inr name \<Rightarrow>
          if name \<in> set names then Some Step_name_duplicate
          else case first_error (step_field_errors step) of Some e \<Rightarrow> Some e | None \<Rightarrow> steps_error (name # names) steps)"

definition validateJobExecutionConfiguration :: "string \<Rightarrow> string \<Rightarrow> env_map \<Rightarrow> job_step list \<Rightarrow> job_error option" where
  "validateJobExecutionConfiguration head workspace env steps = first_error
     [job_check ''head'' (requireCommit head),
      job_check ''workspace'' (requireText workspace),
      reject (\<not> startsWith workspace ''/'') Workspace_not_absolute,
      validateEnvMap env,
      reject (steps = []) Steps_missing,
      steps_error [] steps]"

definition exit_code_invalid :: "int option \<Rightarrow> bool" where
  "exit_code_invalid c = (case c of None \<Rightarrow> False | Some n \<Rightarrow> \<not> isSafeInteger n \<or> n < 0)"

definition validateStepResult :: "step_result \<Rightarrow> job_error option" where
  "validateStepResult s = first_error
     [job_check ''resultName'' (requireText (sr_name s)),
      reject (exit_code_invalid (sr_exitCode s)) Exit_code_invalid,
      job_check ''duration'' (requirePositiveInteger (sr_durationMs s)),
      job_check ''logPath'' (requireText (sr_logPath s)),
      job_check ''resultHead'' (requireCommit (sr_head s))]"

definition normalizeDurableJobResult :: "job_result \<Rightarrow> job_error + job_result" where
  "normalizeDurableJobResult r =
     check
       ([reject (exit_code_invalid (res_exitCode r)) Exit_code_invalid,
         when_some (res_failedStep r) (\<lambda>s. job_check ''failedStep'' (requireText s)),
         when_some (res_unknownReason r) (\<lambda>s. job_check ''unknownReason'' (requireText s))] @
        map validateStepResult (res_steps r)) r"

definition delegation_error :: "job_run \<Rightarrow> job_error option" where
  "delegation_error j =
     when_some (jr_delegation j) (\<lambda>d. first_error
       [validateTaskDelegation d,
        reject (jr_process j \<noteq> None \<or> jr_result j \<noteq> None \<or> jr_status j = Job_queued) Delegation_with_process,
        reject (jr_steps j \<noteq> None \<or> jr_env j \<noteq> None \<or> jr_workspace j \<noteq> None \<or> jr_head j \<noteq> None \<or> jr_projectId j \<noteq> None
          \<or> jr_checkpoint j \<noteq> None \<or>
          (case jr_subject j of Task_run _ _ \<Rightarrow> False | Global_run action input service \<Rightarrow> action \<noteq> None \<or> input \<noteq> None \<or> service \<noteq> None))
          Delegation_with_spec,
        when_some (jr_businessResult j) (\<lambda>r. reject (br_outcome r = Out_succeeded \<and>
          \<not> (\<exists>e \<in> set (br_evidence r). (rref_kind e = Task_result \<or> rref_kind e = Work_item_result) \<and>
              rref_owner e = Owned_by_task (td_taskId d))) Delegation_without_evidence)])"

definition identity_errors :: "job_run \<Rightarrow> job_error option list" where
  "identity_errors j =
     [validateRunArtifacts (runReference j) (jr_definitionId j) (jr_artifacts j),
      map_option Job_operation (failure (validateOperationFacts (jr_operation j))),
      job_check ''definitionId'' (requireIdentity (jr_definitionId j)),
      job_check ''definitionRevision'' (requirePositiveInteger (jr_definitionRevision j)),
      job_check ''triggerKey'' (requireText (jt_key (jr_trigger j)))]"

definition subject_error :: "job_run \<Rightarrow> job_error option" where
  "subject_error j =
     (case jr_subject j of
        Task_run taskId owner \<Rightarrow> first_error
          [job_ref taskId (jr_id j) K_durableJob,
           validateDurableJobOwner owner taskId,
           (if jr_delegation j = None then
              (case jr_projectId j of None \<Rightarrow> Some Spec_missing | Some p \<Rightarrow> job_check ''project'' (requireIdentity p))
            else None)]
      | Global_run action input service \<Rightarrow> first_error
          [job_check ''runId'' (requireIdentity (jr_id j)),
           (if jr_delegation j = None then
              (case action of None \<Rightarrow> Some Spec_missing | Some a \<Rightarrow> job_check ''action'' (requireText a))
            else None),
           when_some service (\<lambda>s. job_check ''scheduleId'' (requireText (svc_scheduleId s))),
           when_some service (\<lambda>s. job_check ''grantId'' (requireText (svc_grantId s))),
           when_some (jr_projectId j) (\<lambda>p. job_check ''project'' (requireIdentity p))])"

definition spec_error :: "job_run \<Rightarrow> job_error option" where
  "spec_error j =
     (if jr_delegation j \<noteq> None then None
      else case (jr_head j, jr_workspace j, jr_env j, jr_steps j) of
        (Some head, Some workspace, Some env, Some steps) \<Rightarrow> validateJobExecutionConfiguration head workspace env steps
      | _ \<Rightarrow> Some Spec_missing)"

definition fixed_errors :: "job_run \<Rightarrow> job_error option list" where
  "fixed_errors j =
     [job_check ''idempotencyKey'' (requireText (jr_idempotencyKey j)),
      reject (\<not> is_digest (jr_idempotencyKey j)) Idempotency_key_invalid,
      job_check ''artifactsLocator'' (requireText (jr_artifactsLocator j)),
      reject (startsWith (jr_artifactsLocator j) ''/'' \<or> includes_text (jr_artifactsLocator j) ''..'') Locator_not_relative,
      job_check ''createdAt'' (requireTimestamp (jr_createdAt j))]"

definition progress_errors :: "job_run \<Rightarrow> job_error option list" where
  "progress_errors j =
     [job_check ''updatedAt'' (requireTimestamp (jr_updatedAt j)),
      when_some (jr_startedAt j) (\<lambda>t. job_check ''startedAt'' (requireTimestamp t)),
      when_some (jr_heartbeatAt j) (\<lambda>t. job_check ''heartbeatAt'' (requireTimestamp t)),
      when_some (jr_terminalAt j) (\<lambda>t. job_check ''terminalAt'' (requireTimestamp t)),
      when_some (jr_process j) (\<lambda>p. job_check ''pid'' (requirePositiveInteger (proc_pid p))),
      when_some (jr_process j) (\<lambda>p. job_check ''startIdentity'' (requireText (proc_startIdentity p))),
      when_some (jr_checkpoint j) (\<lambda>c. job_check ''checkpointAt'' (requireTimestamp (cp_updatedAt c))),
      when_some (jr_checkpoint j) (\<lambda>c. first_error (map validateStepResult (cp_completedSteps c))),
      when_some (jr_result j) (\<lambda>r. failure (normalizeDurableJobResult r)),
      when_some (jr_businessResult j) (\<lambda>r. failure (validateBusinessResult r (runReference j))),
      when_some (jr_businessResult j) (\<lambda>r. reject (jr_status j \<noteq> Job_ended (br_outcome r)) Outcome_disagrees)]"

definition closing_errors :: "job_run \<Rightarrow> job_error option list" where
  "closing_errors j =
     [when_some (jr_retryOf j) (\<lambda>r. case jr_subject j of
        Task_run taskId _ \<Rightarrow> job_ref taskId r K_durableJob
      | Global_run _ _ _ \<Rightarrow> job_check ''retryOf'' (requireIdentity r)),
      when_some (jr_cancelRequestedAt j) (\<lambda>t. job_check ''cancelRequestedAt'' (requireTimestamp t)),
      when_some (jr_acknowledgedAt j) (\<lambda>t. job_check ''acknowledgedAt'' (requireTimestamp t)),
      (if isDurableJobTerminal (jr_status j)
       then job_check ''terminalAt'' (requireTimestamp (case jr_terminalAt j of None \<Rightarrow> [] | Some t \<Rightarrow> t)) else None),
      reject (jr_status j = Job_queued \<and> jr_startedAt j \<noteq> None) Queued_started,
      reject (jr_status j = Job_running \<and> jr_startedAt j = None) Running_not_started]"

definition validateDurableJob :: "job_run \<Rightarrow> job_error + job_run" where
  "validateDurableJob j =
     check ([delegation_error j] @ identity_errors j @ [subject_error j, spec_error j] @ fixed_errors j @
       progress_errors j @ closing_errors j) j"

subsection \<open>Operations\<close>

record job_input =
  ji_id :: string
  ji_definitionId :: "string option"
  ji_definitionRevision :: "int option"
  ji_trigger :: "job_trigger option"
  ji_taskId :: string
  ji_owner :: job_owner
  ji_projectId :: string
  ji_head :: string
  ji_workspace :: string
  ji_env :: env_map
  ji_steps :: "job_step list"
  ji_artifactsLocator :: string
  ji_retryOf :: "string option"
  ji_requestId :: string
  ji_actorId :: string
  ji_authorityRef :: string
  ji_inputDigest :: string

definition job_runner_implementation :: implementation_ref where
  "job_runner_implementation = \<lparr>impl_id = ''yui:job-runner'', impl_generation = ''1''\<rparr>"

definition createDurableJob :: "job_host \<Rightarrow> job_input \<Rightarrow> time \<Rightarrow> job_error + job_run" where
  "createDurableJob h input now = validateDurableJob
     \<lparr>jr_delegation = None, jr_id = ji_id input,
      jr_definitionId = (case ji_definitionId input of None \<Rightarrow> ji_id input | Some d \<Rightarrow> d),
      jr_definitionRevision = (case ji_definitionRevision input of None \<Rightarrow> 1 | Some n \<Rightarrow> n),
      jr_trigger = (case ji_trigger input of None \<Rightarrow> \<lparr>jt_source = Trigger_manual, jt_key = ji_requestId input\<rparr> | Some t \<Rightarrow> t),
      jr_subject = Task_run (ji_taskId input) (ji_owner input), jr_projectId = Some (ji_projectId input),
      jr_head = Some (ji_head input), jr_workspace = Some (ji_workspace input), jr_env = Some (ji_env input),
      jr_steps = Some (ji_steps input),
      jr_idempotencyKey = jh_sha256 h (json_array [json_string (ji_actorId input), json_string (ji_requestId input)]),
      jr_operation = \<lparr>op_requestId = ji_requestId input, op_inputDigest = ji_inputDigest input, op_actorId = ji_actorId input,
        op_authorityRef = ji_authorityRef input, op_targetId = ji_workspace input, op_capability = ''job.start'',
        op_implementation = job_runner_implementation, op_effect = Effect_none, op_receiptRefs = [],
        op_partialResultRefs = []\<rparr>,
      jr_status = Job_queued, jr_artifactsLocator = ji_artifactsLocator input, jr_createdAt = toISOString now,
      jr_startedAt = None, jr_heartbeatAt = None, jr_terminalAt = None, jr_process = None, jr_checkpoint = None,
      jr_result = None, jr_businessResult = None, jr_artifacts = None, jr_retryOf = ji_retryOf input,
      jr_cancelRequestedAt = None, jr_wakeupNotified = None, jr_acknowledgedAt = None, jr_updatedAt = toISOString now\<rparr>"

definition record_evidence :: "operation_facts \<Rightarrow> operation_evidence \<Rightarrow> job_error + operation_facts" where
  "record_evidence facts evidence = map_error Job_operation (recordOperationEvidence facts evidence)"

definition startDurableJob :: "job_run \<Rightarrow> job_process \<Rightarrow> time \<Rightarrow> job_error + job_run" where
  "startDurableJob j process now =
     bind_result (validateDurableJob j) (\<lambda>_.
     if jr_status j \<noteq> Job_queued then Inl Not_queued
     else bind_result (record_evidence (jr_operation j) \<lparr>ev_effect = Some Effect_confirmed,
            ev_receiptRefs = Some [jr_artifactsLocator j @ ''/start.json''], ev_partialResultRefs = None\<rparr>) (\<lambda>operation.
          validateDurableJob (j\<lparr>jr_status := Job_running, jr_operation := operation, jr_process := Some process,
            jr_startedAt := Some (toISOString now), jr_heartbeatAt := Some (toISOString now), jr_updatedAt := toISOString now\<rparr>)))"

definition touchDurableJobHeartbeat :: "job_run \<Rightarrow> time \<Rightarrow> job_error + job_run" where
  "touchDurableJobHeartbeat j now =
     bind_result (validateDurableJob j) (\<lambda>_.
     if jr_status j \<noteq> Job_running then Inl Not_running
     else validateDurableJob (j\<lparr>jr_heartbeatAt := Some (toISOString now), jr_updatedAt := toISOString now\<rparr>))"

definition processBusinessResult :: "job_host \<Rightarrow> job_run \<Rightarrow> job_result \<Rightarrow> job_business_result" where
  "processBusinessResult h j r =
     (let summary = (case res_unknownReason r of Some reason \<Rightarrow> reason
        | None \<Rightarrow> ''Execution '' @ outcome_text (res_outcome r) @
            (case res_failedStep r of None \<Rightarrow> [] | Some s \<Rightarrow> if s = [] then [] else '' at '' @ s) @ ''.'') in
      \<lparr>br_sourceRun = runReference j, br_outcome = res_outcome r,
       br_summary = (if length summary \<le> 4096 then summary
         else take 4096 summary @ jh_ellipsis h @ '' (see original execution evidence)''),
       br_data = None,
       br_evidence = [\<lparr>rref_kind = Run_record, rref_owner = Owned_by_run (runReference j), rref_sourceRun = runReference j,
         rref_version = jh_resultDigest h r,
         rref_locator = ''job-runs/'' @ executionNamespace j @ ''/'' @ jr_id j @ ''/result''\<rparr>]\<rparr>)"

text \<open>The business result defaults to what the process result proves.\<close>

definition completeDurableJob ::
  "job_host \<Rightarrow> job_run \<Rightarrow> job_result \<Rightarrow> time \<Rightarrow> job_business_result option \<Rightarrow> job_error + job_run" where
  "completeDurableJob h j result now business =
     (let businessResult = (case business of None \<Rightarrow> processBusinessResult h j result | Some b \<Rightarrow> b) in
     bind_result (validateDurableJob j) (\<lambda>_.
     if jr_status j \<noteq> Job_running then Inl Not_running
     else bind_result (record_evidence (jr_operation j) \<lparr>ev_effect = None,
            ev_receiptRefs = Some (case res_evidenceSource result of None \<Rightarrow> []
              | Some From_checkpoint \<Rightarrow> [jr_artifactsLocator j @ ''/checkpoint.json'']
              | Some From_exit_artifact \<Rightarrow> [jr_artifactsLocator j @ ''/exit.json'']),
            ev_partialResultRefs = Some (map sr_logPath (res_steps result))\<rparr>) (\<lambda>operation.
          bind_result (normalizeDurableJobResult result) (\<lambda>normalized.
          bind_result (validateBusinessResult businessResult (runReference j)) (\<lambda>validated.
          validateDurableJob (j\<lparr>jr_status := Job_ended (br_outcome businessResult), jr_operation := operation,
            jr_result := Some normalized, jr_businessResult := Some validated,
            jr_terminalAt := Some (toISOString now), jr_updatedAt := toISOString now\<rparr>))))))"

definition settled :: "job_host \<Rightarrow> job_run \<Rightarrow> job_result \<Rightarrow> time \<Rightarrow> job_run" where
  "settled h j result now = j\<lparr>jr_status := Job_ended (res_outcome result), jr_result := Some result,
     jr_businessResult := Some (processBusinessResult h j result), jr_terminalAt := Some (toISOString now),
     jr_updatedAt := toISOString now\<rparr>"

definition rejectQueuedDurableJob :: "job_host \<Rightarrow> job_run \<Rightarrow> string \<Rightarrow> time \<Rightarrow> job_error + job_run" where
  "rejectQueuedDurableJob h j reason now =
     bind_result (validateDurableJob j) (\<lambda>_.
     if jr_status j \<noteq> Job_queued \<or> op_effect (jr_operation j) \<noteq> Effect_none then Inl Not_unattempted
     else bind_result (map_error (Job_field ''rejectionReason'') (requireText reason)) (\<lambda>text.
          validateDurableJob (settled h j \<lparr>res_outcome = Out_failed, res_exitCode = None, res_signal = None,
            res_failedStep = None, res_unknownReason = Some text, res_evidenceSource = None, res_steps = []\<rparr> now)))"

definition markDurableJobUnknown ::
  "job_host \<Rightarrow> job_run \<Rightarrow> string \<Rightarrow> step_result list \<Rightarrow> time \<Rightarrow> job_error + job_run" where
  "markDurableJobUnknown h j unknownReason completedSteps now =
     bind_result (validateDurableJob j) (\<lambda>_.
     if jr_status j \<noteq> Job_running \<and> \<not> (jr_status j = Job_queued \<and> op_effect (jr_operation j) \<noteq> Effect_none) then Inl Not_attempted
     else bind_result (map_error (Job_field ''unknownReason'') (requireText unknownReason)) (\<lambda>text.
          bind_result (record_evidence (jr_operation j) \<lparr>ev_effect = None, ev_receiptRefs = None,
            ev_partialResultRefs = Some (map sr_logPath completedSteps)\<rparr>) (\<lambda>operation.
          validateDurableJob (settled h (j\<lparr>jr_operation := operation\<rparr>) \<lparr>res_outcome = Out_unknown, res_exitCode = None, res_signal = None,
            res_failedStep = None, res_unknownReason = Some text, res_evidenceSource = None, res_steps = completedSteps\<rparr> now))))"

definition requestDurableJobCancel :: "job_run \<Rightarrow> time \<Rightarrow> job_error + job_run" where
  "requestDurableJobCancel j now =
     bind_result (validateDurableJob j) (\<lambda>_.
     if isDurableJobTerminal (jr_status j) then Inr j
     else if jr_cancelRequestedAt j \<noteq> None then Inr j
     else validateDurableJob (j\<lparr>jr_cancelRequestedAt := Some (toISOString now), jr_updatedAt := toISOString now\<rparr>))"

definition cancelled_result :: job_result where
  "cancelled_result = \<lparr>res_outcome = Out_cancelled, res_exitCode = None, res_signal = None, res_failedStep = None,
     res_unknownReason = None, res_evidenceSource = None, res_steps = []\<rparr>"

definition cancelQueuedDurableJob :: "job_host \<Rightarrow> job_run \<Rightarrow> time \<Rightarrow> job_error + job_run" where
  "cancelQueuedDurableJob h j now =
     bind_result (validateDurableJob j) (\<lambda>_.
     if jr_status j \<noteq> Job_queued then Inl Not_queued
     else validateDurableJob (settled h j cancelled_result now))"

definition markDurableJobWakeupNotified :: "job_run \<Rightarrow> time \<Rightarrow> job_error + job_run" where
  "markDurableJobWakeupNotified j now =
     bind_result (validateDurableJob j) (\<lambda>_.
     if \<not> isDurableJobTerminal (jr_status j) then Inl Not_terminal
     else if jr_wakeupNotified j = Some True then Inr j
     else validateDurableJob (j\<lparr>jr_wakeupNotified := Some True, jr_updatedAt := toISOString now\<rparr>))"

definition acknowledgeUnknownDurableJob :: "job_run \<Rightarrow> time \<Rightarrow> job_error + job_run" where
  "acknowledgeUnknownDurableJob j now =
     bind_result (validateDurableJob j) (\<lambda>_.
     if jr_status j \<noteq> Job_ended Out_unknown then Inl Not_unknown
     else if jr_acknowledgedAt j \<noteq> None then Inr j
     else validateDurableJob (j\<lparr>jr_acknowledgedAt := Some (toISOString now), jr_updatedAt := toISOString now\<rparr>))"

subsection \<open>Keys of specifications\<close>

text \<open>
  The canonical JSON text has sorted keys; the order of the entries of an environment (\<open>localeCompare\<close>)
  is the argument \<open>collate\<close>.
\<close>

definition json_env :: "(env_map \<Rightarrow> env_map) \<Rightarrow> env_map \<Rightarrow> string" where
  "json_env collate env = json_object (map (\<lambda>(k, v). (k, json_string v)) (collate env))"

definition json_member :: "string \<Rightarrow> ('a \<Rightarrow> string) \<Rightarrow> 'a option \<Rightarrow> (string \<times> string) list" where
  "json_member k f v = (case v of None \<Rightarrow> [] | Some x \<Rightarrow> [(k, f x)])"

definition json_step :: "(env_map \<Rightarrow> env_map) \<Rightarrow> job_step \<Rightarrow> string" where
  "json_step collate s = json_object
     (json_member ''argv'' (\<lambda>a. json_array (map json_string a)) (js_argv s) @ [(''command'', json_string (js_command s))] @
      json_member ''cwd'' json_string (js_cwd s) @ json_member ''env'' (json_env collate) (js_env s) @
      [(''name'', json_string (js_name s))] @ json_member ''timeoutMs'' show_int (js_timeoutMs s))"

fun json_owner :: "job_owner \<Rightarrow> string" where
  "json_owner (Owner_integration i) = json_object [(''integrationAttemptId'', json_string i), (''kind'', json_string ''integration-attempt'')]"
| "json_owner (Owner_work_item w) = json_object [(''kind'', json_string ''work-item''), (''workItemId'', json_string w)]"
| "json_owner Owner_task = json_object [(''kind'', json_string ''task'')]"

definition durableJobIdempotencyKey ::
  "job_host \<Rightarrow> (env_map \<Rightarrow> env_map) \<Rightarrow> job_owner \<Rightarrow> string \<Rightarrow> string \<Rightarrow> job_step list \<Rightarrow> string \<Rightarrow> env_map \<Rightarrow> string" where
  "durableJobIdempotencyKey h collate owner projectId head steps workspace env = jh_sha256 h (json_object
     [(''env'', json_env collate env), (''head'', json_string head), (''owner'', json_owner owner),
      (''projectId'', json_string projectId), (''steps'', json_array (map (json_step collate) steps)),
      (''workspace'', json_string workspace)])"

definition retryDurableJobIdempotencyKey :: "job_host \<Rightarrow> string \<Rightarrow> string \<Rightarrow> string" where
  "retryDurableJobIdempotencyKey h previousKey previousJobId = jh_sha256 h (previousKey @ ''|retry-of|'' @ previousJobId)"

subsection \<open>The guard of the store\<close>

definition same_env :: "env_map option \<Rightarrow> env_map option \<Rightarrow> bool" where
  "same_env a b =
     (case (a, b) of
        (None, None) \<Rightarrow> True
      | (Some e, Some f) \<Rightarrow> list_all (\<lambda>k. map_of e k = map_of f k) (map fst e @ map fst f)
      | _ \<Rightarrow> False)"

definition same_step :: "job_step \<Rightarrow> job_step \<Rightarrow> bool" where
  "same_step s t = (s\<lparr>js_env := None\<rparr> = t\<lparr>js_env := None\<rparr> \<and> same_env (js_env s) (js_env t))"

definition same_steps :: "job_step list option \<Rightarrow> job_step list option \<Rightarrow> bool" where
  "same_steps a b =
     (case (a, b) of
        (None, None) \<Rightarrow> True
      | (Some xs, Some ys) \<Rightarrow> length xs = length ys \<and> list_all (\<lambda>(x, y). same_step x y) (zip xs ys)
      | _ \<Rightarrow> False)"

text \<open>Inside an array an absent value and the JSON value null have the same text.\<close>

definition null_text :: "string option \<Rightarrow> string" where
  "null_text v = (case v of None \<Rightarrow> ''null'' | Some t \<Rightarrow> t)"

definition same_subject :: "run_subject \<Rightarrow> run_subject \<Rightarrow> bool" where
  "same_subject s t =
     (case (s, t) of
        (Task_run _ o1, Task_run _ o2) \<Rightarrow> o1 = o2
      | (Global_run a i v, Global_run b k w) \<Rightarrow> a = b \<and> null_text i = null_text k \<and> v = w
      | _ \<Rightarrow> False)"

definition evidence_of :: "operation_facts \<Rightarrow> operation_evidence" where
  "evidence_of f = \<lparr>ev_effect = Some (op_effect f), ev_receiptRefs = Some (op_receiptRefs f),
     ev_partialResultRefs = Some (op_partialResultRefs f)\<rparr>"

definition same_request :: "job_run \<Rightarrow> job_run \<Rightarrow> bool" where
  "same_request before after \<longleftrightarrow>
     jr_delegation before = jr_delegation after \<and>
     artifactsAppendOnly (jr_artifacts before) (jr_artifacts after) \<and>
     jr_id before = jr_id after \<and> jr_definitionId before = jr_definitionId after \<and>
     jr_definitionRevision before = jr_definitionRevision after \<and> jr_trigger before = jr_trigger after \<and>
     jr_retryOf before = jr_retryOf after \<and> executionNamespace before = executionNamespace after \<and>
     jr_projectId before = jr_projectId after \<and> jr_head before = jr_head after \<and>
     jr_workspace before = jr_workspace after \<and> jr_idempotencyKey before = jr_idempotencyKey after \<and>
     jr_artifactsLocator before = jr_artifactsLocator after \<and> jr_createdAt before = jr_createdAt after \<and>
     same_subject (jr_subject before) (jr_subject after) \<and>
     same_env (jr_env before) (jr_env after) \<and> same_steps (jr_steps before) (jr_steps after)"

definition same_operation :: "operation_facts \<Rightarrow> operation_facts \<Rightarrow> bool" where
  "same_operation before after \<longleftrightarrow>
     op_requestId before = op_requestId after \<and> op_inputDigest before = op_inputDigest after \<and>
     op_actorId before = op_actorId after \<and> op_authorityRef before = op_authorityRef after \<and>
     op_targetId before = op_targetId after \<and> op_capability before = op_capability after \<and>
     op_implementation before = op_implementation after"

text \<open>The remaining fields, with those removed that the guard removes and those cleared that
  \<open>same_request\<close> already compares as maps.\<close>

definition terminal_facts :: "job_run \<Rightarrow> job_run" where
  "terminal_facts j = j\<lparr>jr_artifacts := None, jr_wakeupNotified := None, jr_acknowledgedAt := None, jr_updatedAt := [],
     jr_env := None, jr_steps := None\<rparr>"

definition terminal_transition :: "job_run \<Rightarrow> job_run \<Rightarrow> bool" where
  "terminal_transition before after \<longleftrightarrow>
     terminal_facts before = terminal_facts after \<and>
     (jr_wakeupNotified before = jr_wakeupNotified after \<or>
      jr_wakeupNotified before \<noteq> Some True \<and> jr_wakeupNotified after = Some True) \<and>
     (jr_acknowledgedAt before = jr_acknowledgedAt after \<or> jr_acknowledgedAt before = None \<and> jr_acknowledgedAt after \<noteq> None)"

definition allowed_status :: "job_run \<Rightarrow> job_run \<Rightarrow> bool" where
  "allowed_status before after =
     (case jr_status before of
        Job_queued \<Rightarrow> jr_status after \<in> set ([Job_queued, Job_running, Job_ended Out_cancelled, Job_ended Out_unknown] @
          (if op_effect (jr_operation before) = Effect_none \<and> op_effect (jr_operation after) = Effect_none
           then [Job_ended Out_failed] else []))
      | Job_running \<Rightarrow> jr_status after \<in> set [Job_running, Job_ended Out_succeeded, Job_ended Out_failed, Job_ended Out_timed_out,
          Job_ended Out_cancelled, Job_ended Out_unknown]
      | Job_ended _ \<Rightarrow> False)"

text \<open>Recording the evidence of the new facts may throw; the guard then throws instead of answering.\<close>

definition validDurableJobTransition :: "job_run \<Rightarrow> job_run \<Rightarrow> job_error + bool" where
  "validDurableJobTransition before after =
     (if \<not> same_request before after \<or> \<not> same_operation (jr_operation before) (jr_operation after) then Inr False
      else bind_result (record_evidence (jr_operation before) (evidence_of (jr_operation after))) (\<lambda>recorded.
        Inr (recorded = jr_operation after \<and>
          (if isDurableJobTerminal (jr_status before) then terminal_transition before after else allowed_status before after))))"

subsection \<open>Every operation passes the guard\<close>

definition job_valid :: "job_run \<Rightarrow> bool" where
  "job_valid j \<longleftrightarrow> validateDurableJob j = Inr j"

lemma validateDurableJob_Inr [transition]: "validateDurableJob j = Inr k \<longleftrightarrow> k = j \<and> job_valid j"
  by (auto simp: validateDurableJob_def job_valid_def check_Inr)

lemma job_valid_iff:
  "job_valid j \<longleftrightarrow> delegation_error j = None \<and> first_error (identity_errors j) = None \<and> subject_error j = None \<and>
     spec_error j = None \<and> first_error (fixed_errors j) = None \<and> first_error (progress_errors j) = None \<and>
     first_error (closing_errors j) = None"
  by (simp add: job_valid_def validateDurableJob_def check_Inr)

definition refs_distinct :: "operation_facts \<Rightarrow> bool" where
  "refs_distinct f \<longleftrightarrow> distinct (op_receiptRefs f) \<and> distinct (op_partialResultRefs f)"

definition job_inv :: "job_run \<Rightarrow> bool" where
  "job_inv j \<longleftrightarrow> job_valid j \<and> refs_distinct (jr_operation j)"

lemma job_valid_operation: "job_valid j \<Longrightarrow> operation_valid (jr_operation j)"
  by (auto simp: job_valid_iff identity_errors_def failure_None validateOperationFacts_Inr)

lemma js_unique_grow:
  assumes "distinct xs"
  shows "js_unique (xs @ js_unique (xs @ ys)) = js_unique (xs @ ys)"
proof -
  let ?r = "js_unique_from (rev xs) ys"
  have z: "js_unique (xs @ ys) = xs @ ?r"
    using assms by (simp add: js_unique_def js_unique_from_append js_unique_from_distinct)
  have "set (js_unique_from (rev xs) xs) = {}" by (simp add: set_js_unique_from)
  then have "js_unique_from (rev xs) xs = []" by simp
  moreover have "js_unique_from (rev xs @ rev xs) ?r = ?r"
    by (rule js_unique_from_distinct) (auto simp: distinct_js_unique_from set_js_unique_from)
  ultimately have "js_unique (xs @ xs @ ?r) = xs @ ?r"
    using assms by (simp add: js_unique_def js_unique_from_append js_unique_from_distinct)
  then show ?thesis by (simp add: z)
qed

lemma record_evidence_of:
  assumes "record_evidence f e = Inr g" "refs_distinct f"
  shows "record_evidence f (evidence_of g) = Inr g \<and> refs_distinct g \<and> same_operation f g \<and> evidence_below f g"
proof -
  from assms(1) have r: "recordOperationEvidence f e = Inr g" by (simp add: record_evidence_def map_error_Inr)
  then have g: "g = f\<lparr>op_effect := raise_effect (op_effect f) (ev_effect e),
      op_receiptRefs := add_refs (op_receiptRefs f) (ev_receiptRefs e),
      op_partialResultRefs := add_refs (op_partialResultRefs f) (ev_partialResultRefs e)\<rparr>" and v: "operation_valid g"
    by (simp_all add: recordOperationEvidence_def validateOperationFacts_Inr)
  have "raise_effect (op_effect f) (Some (raise_effect (op_effect f) x)) = raise_effect (op_effect f) x" for x
    by (auto simp: raise_effect_def split: option.splits)
  moreover have "add_refs xs (Some (add_refs xs r)) = add_refs xs r" if "distinct xs" for xs r
    using js_unique_grow [OF that] by (simp add: add_refs_def)
  ultimately have "recordOperationEvidence f (evidence_of g) = Inr g"
    using assms(2) v by (simp add: recordOperationEvidence_def validateOperationFacts_Inr evidence_of_def refs_distinct_def g)
  moreover have "refs_distinct g" by (simp add: g refs_distinct_def add_refs_def)
  moreover have "same_operation f g" by (simp add: g same_operation_def)
  ultimately show ?thesis using recordOperationEvidence_Inr [OF r] by (simp add: record_evidence_def)
qed

lemma record_evidence_self:
  assumes "operation_valid f" "refs_distinct f"
  shows "record_evidence f (evidence_of f) = Inr f"
proof -
  have "add_refs xs (Some xs) = xs" if "distinct xs" for xs
    using that js_unique_append_absorb [of xs xs] by (simp add: add_refs_def js_unique_distinct)
  then show ?thesis
    using assms by (simp add: record_evidence_def recordOperationEvidence_def operation_valid_def evidence_of_def
        refs_distinct_def raise_effect_def)
qed

lemma same_refl [simp]: "same_env e e" "same_step s s" "same_steps t t" "same_subject u u" "same_operation f f"
  "artifactsAppendOnly a a"
  by (auto simp: same_env_def same_step_def same_steps_def same_subject_def same_operation_def artifactsAppendOnly_prefix
      list_all_iff in_set_zip split: option.splits run_subject.splits)

lemma transition_iff:
  "validDurableJobTransition a b = Inr True \<longleftrightarrow>
     same_request a b \<and> same_operation (jr_operation a) (jr_operation b) \<and>
     record_evidence (jr_operation a) (evidence_of (jr_operation b)) = Inr (jr_operation b) \<and>
     (if isDurableJobTerminal (jr_status a) then terminal_transition a b else allowed_status a b)"
  by (auto simp: validDurableJobTransition_def bind_result_Inr)

lemma allowed_refl: "\<not> isDurableJobTerminal (jr_status j) \<Longrightarrow> jr_status k = jr_status j \<Longrightarrow> allowed_status j k"
  by (simp add: allowed_status_def isDurableJobTerminal_def split: job_status.splits)

lemma transition_same_operation:
  assumes "job_inv j" "same_request j k" "jr_operation k = jr_operation j"
    "if isDurableJobTerminal (jr_status j) then terminal_transition j k else allowed_status j k"
  shows "validDurableJobTransition j k = Inr True"
  using assms record_evidence_self [of "jr_operation j"] job_valid_operation [of j] by (simp add: transition_iff job_inv_def)

lemma transition_refl: "job_inv j \<Longrightarrow> validDurableJobTransition j j = Inr True"
  by (rule transition_same_operation) (simp_all add: same_request_def terminal_transition_def allowed_refl)

datatype job_command =
    Start_job job_process
  | Heartbeat_job
  | Complete_job job_result "job_business_result option"
  | Reject_job string
  | Unknown_job string "step_result list"
  | Request_cancel
  | Cancel_queued
  | Notify_wakeup
  | Acknowledge_job

fun job_command_step :: "job_host \<Rightarrow> time \<times> job_command \<Rightarrow> job_run \<Rightarrow> job_error + job_run" where
  "job_command_step h (now, Start_job p) j = startDurableJob j p now"
| "job_command_step h (now, Heartbeat_job) j = touchDurableJobHeartbeat j now"
| "job_command_step h (now, Complete_job r b) j = completeDurableJob h j r now b"
| "job_command_step h (now, Reject_job reason) j = rejectQueuedDurableJob h j reason now"
| "job_command_step h (now, Unknown_job reason steps) j = markDurableJobUnknown h j reason steps now"
| "job_command_step h (now, Request_cancel) j = requestDurableJobCancel j now"
| "job_command_step h (now, Cancel_queued) j = cancelQueuedDurableJob h j now"
| "job_command_step h (now, Notify_wakeup) j = markDurableJobWakeupNotified j now"
| "job_command_step h (now, Acknowledge_job) j = acknowledgeUnknownDurableJob j now"

lemmas job_ops = startDurableJob_def touchDurableJobHeartbeat_def completeDurableJob_def rejectQueuedDurableJob_def
  markDurableJobUnknown_def requestDurableJobCancel_def cancelQueuedDurableJob_def markDurableJobWakeupNotified_def
  acknowledgeUnknownDurableJob_def

lemma terminal_simps [simp]: "isDurableJobTerminal (Job_ended x)" "\<not> isDurableJobTerminal Job_queued" "\<not> isDurableJobTerminal Job_running"
  by (simp_all add: isDurableJobTerminal_def)

definition op_changed :: "job_run \<Rightarrow> job_run \<Rightarrow> bool" where
  "op_changed j k \<longleftrightarrow> job_valid k \<and> same_request j k \<and>
     (if isDurableJobTerminal (jr_status j) then terminal_transition j k else allowed_status j k) \<and>
     (jr_operation k = jr_operation j \<or> (\<exists>e. record_evidence (jr_operation j) e = Inr (jr_operation k)))"

lemma op_changed_transition:
  assumes "job_inv j" "op_changed j k"
  shows "job_inv k \<and> validDurableJobTransition j k = Inr True"
proof (cases "jr_operation k = jr_operation j")
  case True
  then show ?thesis using assms transition_same_operation [OF assms(1), of k] by (simp add: op_changed_def job_inv_def)
next
  case False
  with assms(2) obtain e where "record_evidence (jr_operation j) e = Inr (jr_operation k)" by (auto simp: op_changed_def)
  from record_evidence_of [OF this] show ?thesis using assms by (simp add: op_changed_def job_inv_def transition_iff)
qed

lemma start_changed: "startDurableJob j p now = Inr k \<Longrightarrow> op_changed j k"
  by (auto simp: startDurableJob_def bind_result_Inr validateDurableJob_Inr op_changed_def same_request_def executionNamespace_def
      allowed_status_def split: if_splits)

lemma heartbeat_changed: "touchDurableJobHeartbeat j now = Inr k \<Longrightarrow> op_changed j k"
  by (auto simp: touchDurableJobHeartbeat_def bind_result_Inr validateDurableJob_Inr op_changed_def same_request_def executionNamespace_def
      allowed_status_def split: if_splits)

lemma complete_changed: "completeDurableJob h j r now b = Inr k \<Longrightarrow> op_changed j k"
  by (cases "br_outcome (case b of None \<Rightarrow> processBusinessResult h j r | Some b \<Rightarrow> b)")
    (auto simp: completeDurableJob_def Let_def bind_result_Inr validateDurableJob_Inr op_changed_def same_request_def executionNamespace_def
      allowed_status_def split: if_splits)

lemma reject_changed: "rejectQueuedDurableJob h j reason now = Inr k \<Longrightarrow> op_changed j k"
  by (auto simp: rejectQueuedDurableJob_def settled_def bind_result_Inr validateDurableJob_Inr op_changed_def same_request_def
      executionNamespace_def allowed_status_def split: if_splits)

lemma unknown_changed: "markDurableJobUnknown h j reason steps now = Inr k \<Longrightarrow> op_changed j k"
  by (auto simp: markDurableJobUnknown_def settled_def bind_result_Inr validateDurableJob_Inr op_changed_def same_request_def
      executionNamespace_def allowed_status_def split: if_splits)

lemma op_changed_refl: "job_valid j \<Longrightarrow> op_changed j j"
  by (simp add: op_changed_def same_request_def terminal_transition_def allowed_refl)

lemma request_cancel_changed: "requestDurableJobCancel j now = Inr k \<Longrightarrow> op_changed j k"
  by (cases "jr_status j")
    (auto simp: requestDurableJobCancel_def bind_result_Inr validateDurableJob_Inr op_changed_def same_request_def
      executionNamespace_def allowed_status_def terminal_transition_def split: if_splits)

lemma cancel_changed: "cancelQueuedDurableJob h j now = Inr k \<Longrightarrow> op_changed j k"
  by (auto simp: cancelQueuedDurableJob_def settled_def cancelled_result_def bind_result_Inr validateDurableJob_Inr op_changed_def
      same_request_def executionNamespace_def allowed_status_def split: if_splits)

lemma terminal_changed:
  assumes "job_valid j" "isDurableJobTerminal (jr_status j)"
  shows "job_valid (j\<lparr>jr_wakeupNotified := Some True, jr_updatedAt := t\<rparr>) \<Longrightarrow>
      op_changed j (j\<lparr>jr_wakeupNotified := Some True, jr_updatedAt := t\<rparr>)"
    "jr_acknowledgedAt j = None \<Longrightarrow> job_valid (j\<lparr>jr_acknowledgedAt := Some a, jr_updatedAt := t\<rparr>) \<Longrightarrow>
      op_changed j (j\<lparr>jr_acknowledgedAt := Some a, jr_updatedAt := t\<rparr>)"
  using assms by (auto simp: op_changed_def same_request_def executionNamespace_def terminal_transition_def terminal_facts_def)

lemma wakeup_changed: "markDurableJobWakeupNotified j now = Inr k \<Longrightarrow> op_changed j k"
  by (auto simp: markDurableJobWakeupNotified_def bind_result_Inr validateDurableJob_Inr op_changed_refl terminal_changed
      split: if_splits)

lemma acknowledge_changed: "acknowledgeUnknownDurableJob j now = Inr k \<Longrightarrow> op_changed j k"
  by (auto simp: acknowledgeUnknownDurableJob_def bind_result_Inr validateDurableJob_Inr op_changed_refl terminal_changed
      split: if_splits)

lemma job_command_changed: "job_command_step h (now, c) j = Inr k \<Longrightarrow> op_changed j k"
  by (cases c) (simp_all add: start_changed heartbeat_changed complete_changed reject_changed unknown_changed
      request_cancel_changed cancel_changed wakeup_changed acknowledge_changed)

interpretation jobs: command_system job_inv "job_command_step h" "\<lambda>_. True"
proof
  fix j c k
  assume "job_inv j" "job_command_step h c j = Inr k"
  then show "job_inv k" using op_changed_transition job_command_changed by (cases c) blast
qed

lemma createDurableJob_inv:
  assumes "createDurableJob h input now = Inr j"
  shows "job_inv j" "jr_status j = Job_queued"
proof -
  have "j = (case createDurableJob h input now of Inr k \<Rightarrow> k)" using assms by simp
  then show "jr_status j = Job_queued" "job_inv j"
    using assms by (auto simp: createDurableJob_def validateDurableJob_Inr job_inv_def refs_distinct_def)
qed

subsection \<open>What the guard protects\<close>

lemma same_env_trans: "same_env a b \<Longrightarrow> same_env b c \<Longrightarrow> same_env a c"
proof -
  have iff: "list_all (\<lambda>k. map_of e k = map_of f k) (map fst e @ map fst f) \<longleftrightarrow> map_of e = map_of f" for e f :: env_map
  proof
    assume l: "list_all (\<lambda>k. map_of e k = map_of f k) (map fst e @ map fst f)"
    show "map_of e = map_of f"
    proof
      fix k
      show "map_of e k = map_of f k"
        using l by (cases "k \<in> fst ` set e \<union> fst ` set f") (auto simp: list_all_iff map_of_eq_None_iff [THEN iffD2])
    qed
  qed (simp add: list_all_iff)
  show "same_env a b \<Longrightarrow> same_env b c \<Longrightarrow> same_env a c"
    unfolding same_env_def iff by (cases a; cases b; cases c) simp_all
qed

lemma same_step_trans: "same_step a b \<Longrightarrow> same_step b c \<Longrightarrow> same_step a c"
  by (auto simp: same_step_def intro: same_env_trans)

lemma same_steps_trans: "same_steps a b \<Longrightarrow> same_steps b c \<Longrightarrow> same_steps a c"
proof -
  have eq: "same_steps (Some xs) (Some ys) \<longleftrightarrow> list_all2 same_step xs ys" for xs ys
    by (simp add: same_steps_def list_all2_iff list_all_iff)
  show "same_steps a b \<Longrightarrow> same_steps b c \<Longrightarrow> same_steps a c"
    by (cases a; cases b; cases c) (auto simp: eq same_steps_def [of None] same_steps_def [of _ None] intro: list_all2_trans [OF same_step_trans])
qed

lemma same_subject_trans: "same_subject a b \<Longrightarrow> same_subject b c \<Longrightarrow> same_subject a c"
  by (cases a; cases b; cases c) (simp_all add: same_subject_def)

lemma same_request_trans: "same_request a b \<Longrightarrow> same_request b c \<Longrightarrow> same_request a c"
  unfolding same_request_def artifactsAppendOnly_prefix
  by (elim conjE) (intro conjI; (metis prefix_order.trans same_subject_trans same_env_trans same_steps_trans)?)

text \<open>What a replacement that passes the guard keeps.\<close>

definition job_below :: "job_run \<Rightarrow> job_run \<Rightarrow> bool" where
  "job_below a b \<longleftrightarrow> same_request a b \<and> evidence_below (jr_operation a) (jr_operation b) \<and>
     (jr_status b = Job_queued \<longrightarrow> jr_status a = Job_queued) \<and>
     (isDurableJobTerminal (jr_status a) \<longrightarrow> terminal_facts b = terminal_facts a \<and>
        (jr_wakeupNotified a = Some True \<longrightarrow> jr_wakeupNotified b = Some True) \<and>
        (jr_acknowledgedAt a \<noteq> None \<longrightarrow> jr_acknowledgedAt b = jr_acknowledgedAt a))"

lemma job_below_refl: "job_below j j"
  by (simp add: job_below_def same_request_def)

lemma terminal_facts_status: "terminal_facts a = terminal_facts b \<Longrightarrow> jr_status a = jr_status b"
  by (drule arg_cong [of _ _ jr_status]) (simp add: terminal_facts_def)

lemma job_below_trans:
  assumes "job_below a b" "job_below b c"
  shows "job_below a c"
proof -
  have "same_request a c" "evidence_below (jr_operation a) (jr_operation c)"
    using assms by (auto simp: job_below_def intro: same_request_trans evidence_below_trans)
  moreover have "isDurableJobTerminal (jr_status b)" if "isDurableJobTerminal (jr_status a)"
    using that assms(1) terminal_facts_status [of b a] by (simp add: job_below_def)
  ultimately show ?thesis using assms unfolding job_below_def by metis
qed

lemma allowed_not_queued: "allowed_status a b \<Longrightarrow> jr_status b = Job_queued \<Longrightarrow> jr_status a = Job_queued"
  by (auto simp: allowed_status_def split: job_status.splits if_splits)

lemma transition_below:
  assumes "validDurableJobTransition a b = Inr True"
  shows "job_below a b"
proof -
  note t = assms [unfolded transition_iff]
  have "recordOperationEvidence (jr_operation a) (evidence_of (jr_operation b)) = Inr (jr_operation b)"
    using t by (simp add: record_evidence_def map_error_Inr)
  then have e: "evidence_below (jr_operation a) (jr_operation b)" using recordOperationEvidence_Inr by blast
  show ?thesis
  proof (cases "isDurableJobTerminal (jr_status a)")
    case True
    then have tt: "terminal_transition a b" using t by simp
    then have f: "terminal_facts a = terminal_facts b" by (simp add: terminal_transition_def)
    have "jr_status a = jr_status b" by (rule terminal_facts_status [OF f])
    moreover have "same_request a b" using t by blast
    ultimately show ?thesis using tt e f by (auto simp: job_below_def terminal_transition_def)
  next
    case False
    then show ?thesis using t e allowed_not_queued [of a b] by (simp add: job_below_def)
  qed
qed

subsection \<open>A queued job can be cancelled\<close>

lemma dropWhile_keeps: "c \<in> set s \<Longrightarrow> \<not> P c \<Longrightarrow> c \<in> set (dropWhile P s)"
  by (induction s) auto

lemma trim_keeps: "c \<in> set s \<Longrightarrow> \<not> is_space c \<Longrightarrow> c \<in> set (trim s)"
  by (simp add: trim_def dropWhile_keeps)

lemma identity_segment:
  assumes "failure (requireIdentity v) = None"
  shows "\<not> has_nul v" "CHR ''/'' \<notin> set v" "v \<noteq> ''..''"
proof -
  from assms obtain t where "requireIdentity v = Inr t" by (auto simp: failure_None)
  then have t: "\<not> has_nul v" "t = trim v" "\<not> reserved_identity t" "\<not> has_separator t"
    by (auto simp: requireIdentity_Inr requireText_Inr)
  show "\<not> has_nul v" by (rule t(1))
  have "\<not> is_space CHR ''/''" by code_simp
  then show "CHR ''/'' \<notin> set v" using t trim_keeps [of "CHR ''/''" v] by (auto simp: has_separator_def)
  have "trim ''..'' = ''..''" by code_simp
  then show "v \<noteq> ''..''" using t by (auto simp: reserved_identity_def)
qed

lemma length_json_char: "length (json_char c) \<le> 6"
  by (auto simp: json_char_def json_escape_def split: option.splits)

lemma length_json_string: "length (json_string s) \<le> 6 * length s + 2"
proof -
  have "length (concat (map json_char s)) \<le> 6 * length s"
    by (induction s) (use length_json_char in \<open>auto intro: add_mono\<close>)
  then show ?thesis by (simp add: json_string_def)
qed

lemma byteLength_le: "byteLength s \<le> 2 * length s"
  by (induction s) (auto simp: byteLength_def)

lemma json_literals:
  "length (json_string ''kind'') = 6" "length (json_string ''taskId'') = 8" "length (json_string ''scope'') = 7"
  "length (json_string ''runId'') = 7" "length (json_string ''task'') = 6" "length (json_string ''global'') = 8"
  "length (json_string ''schemaVersion'') = 15" "length (json_string ''sourceRun'') = 11" "length (json_string ''outcome'') = 9"
  "length (json_string ''summary'') = 9" "length (json_string ''evidence'') = 10" "length (json_string ''owner'') = 7"
  "length (json_string ''version'') = 9" "length (json_string ''locator'') = 9" "length (json_string ''run-record'') = 12"
  "length (json_string ''cancelled'') = 11"
  by code_simp+

lemma length_json_run:
  "length (json_run (runReference j)) \<le> 6 * length (executionNamespace j) + 6 * length (jr_id j) + 60"
proof -
  have "length (json_scope (jref_scope (runReference j))) \<le> 6 * length (executionNamespace j) + 30"
    using length_json_string [of "executionNamespace j"]
    by (cases "jr_subject j") (simp_all add: runReference_def executionNamespace_def json_object_def json_literals)
  then show ?thesis
    using length_json_string [of "jr_id j"] by (simp add: json_run_def json_object_def json_literals runReference_def)
qed

lemma cancelled_summary: "br_summary (processBusinessResult h j cancelled_result) = ''Execution cancelled.''"
  by (simp add: processBusinessResult_def cancelled_result_def Let_def)

lemma cancelled_result_size:
  assumes "length (jh_resultDigest h cancelled_result) = 64" "length (executionNamespace j) + length (jr_id j) \<le> 4000"
  shows "byteLength (json_result (processBusinessResult h j cancelled_result)) \<le> 256 * 1024"
proof -
  let ?r = "processBusinessResult h j cancelled_result"
  let ?n = "6 * length (executionNamespace j) + 6 * length (jr_id j)"
  let ?l = "''job-runs/'' @ executionNamespace j @ ''/'' @ jr_id j @ ''/result''"
  let ?e = "\<lparr>rref_kind = Run_record, rref_owner = Owned_by_run (runReference j), rref_sourceRun = runReference j,
      rref_version = jh_resultDigest h cancelled_result, rref_locator = ?l\<rparr>"
  have e: "br_evidence ?r = [?e]" by (simp add: processBusinessResult_def Let_def)
  have "length (json_evidence ?e) \<le> 3 * ?n + 800"
    using length_json_run [of j] length_json_string [of ?l] length_json_string [of "jh_resultDigest h cancelled_result"] assms(1)
    by (simp add: json_evidence_def json_object_def json_literals)
  moreover have "length (json_string ''Execution cancelled.'') = 22" by code_simp
  moreover have "br_sourceRun ?r = runReference j" "br_outcome ?r = Out_cancelled" "br_data ?r = None"
    by (simp_all add: processBusinessResult_def cancelled_result_def Let_def)
  ultimately have "length (json_result ?r) \<le> 4 * ?n + 1100"
    using length_json_run [of j]
    by (simp add: json_result_def json_object_def json_array_def json_literals e cancelled_summary)
  then show ?thesis using byteLength_le [of "json_result ?r"] assms(2) by simp
qed

lemma run_segments:
  assumes "job_valid j"
  shows "failure (requireIdentity (executionNamespace j)) = None" "failure (requireIdentity (jr_id j)) = None"
proof -
  have global: "failure (requireIdentity ''global'') = None" by code_simp
  have "subject_error j = None" using assms by (simp add: job_valid_iff)
  then show "failure (requireIdentity (executionNamespace j)) = None" "failure (requireIdentity (jr_id j)) = None"
    using global
    by (cases "jr_subject j"; simp add: subject_error_def executionNamespace_def failure_None validateTaskRecordReference_def
        bind_result_Inr map_error_Inr; blast)+
qed

lemma run_locator:
  assumes "job_valid j"
  shows "failure (requireText (''job-runs/'' @ executionNamespace j @ ''/'' @ jr_id j @ ''/result'')) = None"
    "\<not> unsafe_locator (''job-runs/'' @ executionNamespace j @ ''/'' @ jr_id j @ ''/result'')"
proof -
  let ?l = "''job-runs/'' @ executionNamespace j @ ''/'' @ jr_id j @ ''/result''"
  note n = identity_segment [OF run_segments(1) [OF assms]] and i = identity_segment [OF run_segments(2) [OF assms]]
  have "\<not> is_space CHR ''j''" by code_simp
  then have "trim ?l \<noteq> []" using trim_keeps [of "CHR ''j''" ?l] by auto
  moreover have "\<not> has_nul ?l" using n(1) i(1) by (simp add: has_nul_def)
  ultimately show "failure (requireText ?l) = None" by (auto simp: failure_None requireText_Inr)
  have "split_on CHR ''/'' ?l = [''job-runs'', executionNamespace j, jr_id j, ''result'']"
    using split_join [of "[''job-runs'', executionNamespace j, jr_id j, ''result'']" "CHR ''/''"] n(2) i(2) by simp
  then show "\<not> unsafe_locator ?l" using n(3) i(3) by (auto simp: unsafe_locator_def)
qed

lemma timestamp_now: "valid_time now \<Longrightarrow> failure (requireTimestamp (toISOString now)) = None"
  by (auto simp: failure_None requireTimestamp_Inr)

lemma cancelled_business_valid:
  assumes "job_valid j" "is_digest (jh_resultDigest h cancelled_result)" "length (executionNamespace j) + length (jr_id j) \<le> 4000"
  shows "validateBusinessResult (processBusinessResult h j cancelled_result) (runReference j) = Inr (processBusinessResult h j cancelled_result)"
proof -
  let ?r = "processBusinessResult h j cancelled_result"
  have "length (jh_resultDigest h cancelled_result) = 64" using assms(2) by (simp add: is_digest_def)
  note size = cancelled_result_size [OF this assms(3)]
  have "br_sourceRun ?r = runReference j" by (simp add: processBusinessResult_def Let_def)
  moreover have "failure (requireText (br_summary ?r)) = None" unfolding cancelled_summary by code_simp
  moreover have "map (evidence_error (runReference j)) (br_evidence ?r) = [None]"
    using run_locator [OF assms(1)] assms(2) by (simp add: processBusinessResult_def Let_def evidence_error_def)
  ultimately show ?thesis using size by (simp add: validateBusinessResult_def check_Inr)
qed

lemma subject_error_cong:
  "jr_subject k = jr_subject j \<Longrightarrow> jr_id k = jr_id j \<Longrightarrow> jr_delegation k = jr_delegation j \<Longrightarrow> jr_projectId k = jr_projectId j \<Longrightarrow>
    subject_error k = subject_error j"
  by (cases "jr_subject j") (simp_all add: subject_error_def)

lemma cancelled_valid:
  assumes "job_valid j" "jr_status j = Job_queued" "valid_time now" "is_digest (jh_resultDigest h cancelled_result)"
    "length (executionNamespace j) + length (jr_id j) \<le> 4000"
  shows "job_valid (settled h j cancelled_result now)"
proof -
  let ?k = "settled h j cancelled_result now"
  note v = assms(1) [unfolded job_valid_iff] and now = timestamp_now [OF assms(3)]
  have d: "jr_delegation j = None" using v assms(2) by (cases "jr_delegation j") (auto simp: delegation_error_def)
  have r: "runReference ?k = runReference j" by (simp add: settled_def runReference_def)
  have b: "validateBusinessResult (processBusinessResult h j cancelled_result) (runReference j) =
      Inr (processBusinessResult h j cancelled_result)" by (rule cancelled_business_valid [OF assms(1,4,5)])
  have n: "normalizeDurableJobResult cancelled_result = Inr cancelled_result" by code_simp
  have o: "br_outcome (processBusinessResult h j cancelled_result) = Out_cancelled" "res_outcome cancelled_result = Out_cancelled"
    by (simp_all add: processBusinessResult_def cancelled_result_def Let_def)
  have "delegation_error ?k = None" using d by (simp add: delegation_error_def settled_def)
  moreover have "first_error (identity_errors ?k) = None"
    using v r by (simp add: identity_errors_def settled_def)
  moreover have "subject_error ?k = subject_error j" by (rule subject_error_cong) (simp_all add: settled_def)
  moreover have "spec_error ?k = spec_error j" "fixed_errors ?k = fixed_errors j"
    by (simp_all add: spec_error_def fixed_errors_def settled_def)
  moreover have "first_error (progress_errors ?k) = None"
    using v now b n o r by (simp add: progress_errors_def settled_def)
  moreover have "first_error (closing_errors ?k) = None"
    using v now by (simp add: closing_errors_def settled_def)
  ultimately show ?thesis using v by (simp add: job_valid_iff)
qed

lemma request_cancel_valid:
  assumes "job_valid j" "valid_time now"
  shows "job_valid (j\<lparr>jr_cancelRequestedAt := Some (toISOString now), jr_updatedAt := toISOString now\<rparr>)" (is "job_valid ?k")
proof -
  note v = assms(1) [unfolded job_valid_iff] and now = timestamp_now [OF assms(2)]
  have r: "runReference ?k = runReference j" by (simp add: runReference_def)
  have "subject_error ?k = subject_error j" by (rule subject_error_cong) simp_all
  moreover have "delegation_error ?k = delegation_error j" "identity_errors ?k = identity_errors j"
    "spec_error ?k = spec_error j" "fixed_errors ?k = fixed_errors j"
    by (simp_all add: delegation_error_def identity_errors_def spec_error_def fixed_errors_def r)
  moreover have "first_error (progress_errors ?k) = None" using v now by (simp add: progress_errors_def r)
  moreover have "first_error (closing_errors ?k) = None" using v now by (auto simp: closing_errors_def split: if_splits)
  ultimately show ?thesis using v by (simp add: job_valid_iff)
qed

subsection \<open>Properties\<close>

text \<open>
  C27. Cancellation cannot get stuck. Asking a valid run to stop always succeeds and leaves its status; a
  terminal run or a run already asked is returned unchanged. A queued run can always be brought to
  cancelled without starting it, with its evidence unchanged, given that the digest function
  returns SHA-256 digests and the run's identity is not absurdly long; any other run is refused.
\<close>

theorem job_cancellable:
  assumes "validateDurableJob j = Inr j" "valid_time now" "is_digest (jh_resultDigest h cancelled_result)"
    "length (executionNamespace j) + length (jr_id j) \<le> 4000"
  shows "(\<exists>k. requestDurableJobCancel j now = Inr k \<and> jr_status k = jr_status j \<and>
      (if isDurableJobTerminal (jr_status j) \<or> jr_cancelRequestedAt j \<noteq> None then k = j
       else jr_cancelRequestedAt k = Some (toISOString now))) \<and>
    (if jr_status j = Job_queued
     then \<exists>k. cancelQueuedDurableJob h j now = Inr k \<and> jr_status k = Job_ended Out_cancelled \<and>
       jr_result k = Some cancelled_result \<and> jr_terminalAt k = Some (toISOString now) \<and> jr_operation k = jr_operation j
     else cancelQueuedDurableJob h j now = Inl Not_queued)"
proof -
  have v: "job_valid j" using assms(1) by (simp add: job_valid_def)
  have "cancelQueuedDurableJob h j now = Inr (settled h j cancelled_result now)" if "jr_status j = Job_queued"
    using cancelled_valid [OF v that assms(2,3,4)] that assms(1) by (simp add: cancelQueuedDurableJob_def job_valid_def)
  moreover have "res_outcome cancelled_result = Out_cancelled" by (simp add: cancelled_result_def)
  ultimately have "if jr_status j = Job_queued
     then \<exists>k. cancelQueuedDurableJob h j now = Inr k \<and> jr_status k = Job_ended Out_cancelled \<and>
       jr_result k = Some cancelled_result \<and> jr_terminalAt k = Some (toISOString now) \<and> jr_operation k = jr_operation j
     else cancelQueuedDurableJob h j now = Inl Not_queued"
    using assms(1) by (auto simp: settled_def cancelQueuedDurableJob_def)
  moreover have "\<exists>k. requestDurableJobCancel j now = Inr k \<and> jr_status k = jr_status j \<and>
      (if isDurableJobTerminal (jr_status j) \<or> jr_cancelRequestedAt j \<noteq> None then k = j
       else jr_cancelRequestedAt k = Some (toISOString now))"
    using request_cancel_valid [OF v assms(2)] assms(1) by (auto simp: requestDurableJobCancel_def job_valid_def)
  ultimately show ?thesis by blast
qed

definition demo_hex :: string where
  "demo_hex = replicate 64 CHR ''a''"

definition demo_host :: job_host where
  "demo_host = \<lparr>jh_sha256 = \<lambda>_. demo_hex, jh_resultDigest = \<lambda>_. demo_hex, jh_ellipsis = ''...''\<rparr>"

definition demo_job_input :: job_input where
  "demo_job_input = \<lparr>ji_id = ''job-1'', ji_definitionId = None, ji_definitionRevision = None, ji_trigger = None,
     ji_taskId = ''task-1'', ji_owner = Owner_task, ji_projectId = ''p'', ji_head = replicate 40 CHR ''b'', ji_workspace = ''/w'',
     ji_env = [(''A'', ''1'')], ji_steps = [\<lparr>js_name = ''t'', js_command = ''make'', js_argv = None, js_cwd = None, js_env = None,
       js_timeoutMs = None\<rparr>],
     ji_artifactsLocator = ''jobs/job-1'', ji_retryOf = None, ji_requestId = ''r'', ji_actorId = ''u'', ji_authorityRef = ''a'',
     ji_inputDigest = demo_hex\<rparr>"

definition demo_time :: string where
  "demo_time = ''1970-01-01T00:00:00.000Z''"

definition demo_job :: job_run where
  "demo_job = \<lparr>jr_delegation = None, jr_id = ''job-1'', jr_definitionId = ''job-1'', jr_definitionRevision = 1,
     jr_trigger = \<lparr>jt_source = Trigger_manual, jt_key = ''r''\<rparr>, jr_subject = Task_run ''task-1'' Owner_task, jr_projectId = Some ''p'',
     jr_head = Some (replicate 40 CHR ''b''), jr_workspace = Some ''/w'', jr_env = Some [(''A'', ''1'')],
     jr_steps = Some [\<lparr>js_name = ''t'', js_command = ''make'', js_argv = None, js_cwd = None, js_env = None, js_timeoutMs = None\<rparr>],
     jr_idempotencyKey = demo_hex,
     jr_operation = \<lparr>op_requestId = ''r'', op_inputDigest = demo_hex, op_actorId = ''u'', op_authorityRef = ''a'', op_targetId = ''/w'',
       op_capability = ''job.start'', op_implementation = job_runner_implementation, op_effect = Effect_none, op_receiptRefs = [],
       op_partialResultRefs = []\<rparr>,
     jr_status = Job_queued, jr_artifactsLocator = ''jobs/job-1'', jr_createdAt = demo_time, jr_startedAt = None, jr_heartbeatAt = None,
     jr_terminalAt = None, jr_process = None, jr_checkpoint = None, jr_result = None, jr_businessResult = None, jr_artifacts = None,
     jr_retryOf = None, jr_cancelRequestedAt = None, jr_wakeupNotified = None, jr_acknowledgedAt = None, jr_updatedAt = demo_time\<rparr>"

lemma demo_time: "toISOString 0 = demo_time" "valid_time 0"
  by code_simp+

lemma demo_job_valid: "job_valid demo_job"
proof -
  have h: "is_digest demo_hex" by code_simp
  have t: "failure (requireTimestamp demo_time) = None" using timestamp_now [OF demo_time(2)] by (simp add: demo_time)
  have "failure (validateTaskRecordReference (task_reference ''task-1'' ''job-1'') K_durableJob) = None" by code_simp
  moreover have "failure (requireIdentity ''p'') = None" "failure (requireIdentity ''job-1'') = None" by code_simp+
  ultimately have subj: "subject_error demo_job = None" by (simp add: subject_error_def demo_job_def validateDurableJobOwner_def)
  have "failure (requireText ''r'') = None" "failure (requirePositiveInteger 1) = None" by code_simp+
  moreover have "failure (validateOperationFacts (jr_operation demo_job)) = None"
  proof -
    have "\<not> blank ''r''" "\<not> blank ''u''" "\<not> blank ''a''" "\<not> blank ''/w''" "\<not> blank ''job.start''" "\<not> blank ''yui:job-runner''" "\<not> blank ''1''"
      by code_simp+
    then show ?thesis
      using h by (simp add: demo_job_def validateOperationFacts_def check_def job_runner_implementation_def has_nul_def)
  qed
  ultimately have idn: "first_error (identity_errors demo_job) = None"
    using \<open>failure (requireIdentity ''job-1'') = None\<close> by (simp add: identity_errors_def demo_job_def validateRunArtifacts_def)
  have "failure (requireCommit (replicate 40 CHR ''b'')) = None" "failure (requireText ''/w'') = None"
    "validateEnvMap [(''A'', ''1'')] = None" "requireText ''t'' = Inr ''t''" "failure (requireText ''make'') = None" by code_simp+
  then have spec: "spec_error demo_job = None"
    by (simp add: spec_error_def demo_job_def validateJobExecutionConfiguration_def step_field_errors_def)
  have "failure (requireText demo_hex) = None" "failure (requireText ''jobs/job-1'') = None"
    "\<not> includes_text ''jobs/job-1'' ''..''" by code_simp+
  then have fixed: "first_error (fixed_errors demo_job) = None" using h t by (simp add: fixed_errors_def demo_job_def)
  have "delegation_error demo_job = None" "first_error (progress_errors demo_job) = None"
    "first_error (closing_errors demo_job) = None"
    using t by (simp_all add: delegation_error_def progress_errors_def closing_errors_def demo_job_def)
  with subj idn spec fixed show ?thesis by (simp add: job_valid_iff)
qed

lemma demo_job_created: "createDurableJob demo_host demo_job_input 0 = Inr demo_job"
  using demo_job_valid
  by (simp add: createDurableJob_def validateDurableJob_Inr demo_job_input_def demo_host_def demo_time demo_job_def)

lemma job_cancellable_witness:
  "\<exists>k. cancelQueuedDurableJob demo_host demo_job 0 = Inr k \<and> jr_status k = Job_ended Out_cancelled"
proof -
  have "is_digest (jh_resultDigest demo_host cancelled_result)" by code_simp
  moreover have "length (executionNamespace demo_job) + length (jr_id demo_job) \<le> 4000" "jr_status demo_job = Job_queued"
    by (simp_all add: demo_job_def executionNamespace_def)
  ultimately show ?thesis
    using job_cancellable [of demo_job 0 demo_host] demo_job_valid demo_time(2) by (auto simp: job_valid_def)
qed

end
