(* ===== verification/Durable_Job_Store.thy ===== *)
theory Durable_Job_Store
  imports Durable_Job Task_Activation
begin

text \<open>
  The table of durable jobs of the store (\<open>saveDurableJob\<close> and \<open>getDurableJob\<close> of
  \<open>src/src/storage/sqliteStore.ts\<close>, with the two unique indexes of the table) and the
  event it appends for every semantic change. The number of an event and the notices derived from
  it are left out.
\<close>

record job_event =
  je_taskId :: string
  je_jobId :: string
  je_status :: job_status
  je_previousStatus :: "job_status option"
  je_cancelRequestedAt :: "string option"
  je_acknowledgedAt :: "string option"
  je_at :: string

record job_store =
  jst_jobs :: "job_run list"
  jst_events :: "job_event list"

datatype job_store_error =
  Job_of_other_task | Job_invalid job_error | Job_without_task | Job_updated_backwards | Job_transition_invalid | Job_not_unique

definition job_key :: "job_run \<Rightarrow> string \<times> string" where
  "job_key j = (executionNamespace j, jr_id j)"

definition getDurableJob :: "job_store \<Rightarrow> string \<Rightarrow> string \<Rightarrow> job_run option" where
  "getDurableJob s taskId jobId = find (\<lambda>j. job_key j = (taskId, jobId)) (jst_jobs s)"

definition same_unique_key :: "job_run \<Rightarrow> job_run \<Rightarrow> bool" where
  "same_unique_key j k \<longleftrightarrow> executionNamespace j = executionNamespace k \<and>
     (jr_idempotencyKey j = jr_idempotencyKey k \<or>
      op_actorId (jr_operation j) = op_actorId (jr_operation k) \<and> op_requestId (jr_operation j) = op_requestId (jr_operation k))"

definition put_job :: "job_run \<Rightarrow> job_run list \<Rightarrow> job_run list" where
  "put_job j js = (if list_ex (\<lambda>k. job_key k = job_key j) js
     then map (\<lambda>k. if job_key k = job_key j then j else k) js else js @ [j])"

definition semantic_change :: "job_run option \<Rightarrow> job_run \<Rightarrow> bool" where
  "semantic_change existing j =
     (case existing of None \<Rightarrow> True
      | Some e \<Rightarrow> jr_status e \<noteq> jr_status j \<or> jr_result e \<noteq> jr_result j \<or> jr_cancelRequestedAt e \<noteq> jr_cancelRequestedAt j
          \<or> jr_acknowledgedAt e \<noteq> jr_acknowledgedAt j)"

definition state_changed_event :: "string \<Rightarrow> job_run option \<Rightarrow> job_run \<Rightarrow> job_event" where
  "state_changed_event taskId existing j =
     \<lparr>je_taskId = taskId, je_jobId = jr_id j, je_status = jr_status j, je_previousStatus = map_option jr_status existing,
      je_cancelRequestedAt = jr_cancelRequestedAt j, je_acknowledgedAt = jr_acknowledgedAt j, je_at = jr_updatedAt j\<rparr>"

definition replacement_error :: "job_run \<Rightarrow> job_run \<Rightarrow> job_store_error option" where
  "replacement_error existing j =
     (if date_less (jr_updatedAt j) (jr_updatedAt existing) then Some Job_updated_backwards
      else case validDurableJobTransition existing j of
        Inl e \<Rightarrow> Some (Job_invalid e)
      | Inr ok \<Rightarrow> reject (\<not> ok) Job_transition_invalid)"

definition saveDurableJob :: "(string \<Rightarrow> bool) \<Rightarrow> string \<Rightarrow> job_run \<Rightarrow> job_store \<Rightarrow> job_store_error + job_store" where
  "saveDurableJob hasTask taskId j s =
     (if \<not> (case jr_subject j of Task_run t _ \<Rightarrow> t = taskId | Global_run _ _ _ \<Rightarrow> False) then Inl Job_of_other_task
      else bind_result (map_error Job_invalid (validateDurableJob j)) (\<lambda>_.
      if \<not> hasTask taskId then Inl Job_without_task
      else let existing = getDurableJob s taskId (jr_id j) in
        check
          [when_some existing (\<lambda>e. replacement_error e j),
           reject (\<exists>k \<in> set (jst_jobs s). job_key k \<noteq> job_key j \<and> same_unique_key k j) Job_not_unique]
          \<lparr>jst_jobs = put_job j (jst_jobs s),
           jst_events = jst_events s @ (if semantic_change existing j then [state_changed_event taskId existing j] else [])\<rparr>))"

subsection \<open>Lookup after a save\<close>

lemma key_fst: "fst (job_key j) = executionNamespace j" "snd (job_key j) = jr_id j"
  by (simp_all add: job_key_def)

lemma keys_put: "map job_key (put_job j js) =
    (if list_ex (\<lambda>k. job_key k = job_key j) js then map job_key js else map job_key js @ [job_key j])"
  by (auto simp: put_job_def)

lemma distinct_put: "distinct (map job_key js) \<Longrightarrow> distinct (map job_key (put_job j js))"
  by (auto simp: keys_put list_ex_iff)

lemma set_put: "set (put_job j js) = insert j {k \<in> set js. job_key k \<noteq> job_key j}"
  by (auto simp: put_job_def list_ex_iff)

lemma find_put: "find (\<lambda>k. job_key k = q) (put_job j js) = (if q = job_key j then Some j else find (\<lambda>k. job_key k = q) js)"
proof -
  have snoc: "find P (js @ [j]) = (case find P js of None \<Rightarrow> (if P j then Some j else None) | Some x \<Rightarrow> Some x)" for P
    by (induction js) auto
  have mapped: "find (\<lambda>k. job_key k = q) (map (\<lambda>k. if job_key k = job_key j then j else k) js) =
      (if q = job_key j then Some j else find (\<lambda>k. job_key k = q) js)" if "list_ex (\<lambda>k. job_key k = job_key j) js"
    using that
  proof (induction js)
    case (Cons x xs)
    have other: "find (\<lambda>k. job_key k = q) (map (\<lambda>k. if job_key k = job_key j then j else k) ys) = find (\<lambda>k. job_key k = q) ys"
      if "q \<noteq> job_key j" for ys
      using that by (induction ys) auto
    show ?case using Cons other by auto
  qed simp
  have none: "find (\<lambda>k. job_key k = q) js = None" if "\<not> list_ex (\<lambda>k. job_key k = job_key j) js" "q = job_key j"
    using that by (auto simp: find_None_iff list_ex_iff)
  show ?thesis
    using mapped none by (auto simp: put_job_def snoc split: option.split)
qed

lemma get_put: "jst_jobs u = put_job j (jst_jobs s) \<Longrightarrow>
    getDurableJob u t i = (if (t, i) = job_key j then Some j else getDurableJob s t i)"
  by (simp add: getDurableJob_def find_put)

lemma get_mem: "getDurableJob s t i = Some j \<Longrightarrow> j \<in> set (jst_jobs s) \<and> job_key j = (t, i)"
  by (auto simp: getDurableJob_def find_Some_iff)

lemma mem_get: "distinct (map job_key (jst_jobs s)) \<Longrightarrow> j \<in> set (jst_jobs s) \<Longrightarrow> getDurableJob s (executionNamespace j) (jr_id j) = Some j"
proof -
  have "find (\<lambda>k. job_key k = job_key j) js = Some j" if "distinct (map job_key js)" "j \<in> set js" for js
    using that by (induction js) (auto simp: rev_image_eqI)
  then show "distinct (map job_key (jst_jobs s)) \<Longrightarrow> j \<in> set (jst_jobs s) \<Longrightarrow> ?thesis"
    by (simp add: getDurableJob_def job_key_def)
qed

lemma same_unique_key_sym: "same_unique_key j k \<Longrightarrow> same_unique_key k j"
  by (auto simp: same_unique_key_def)

subsection \<open>The journal of a job\<close>

fun status_edge :: "job_status option \<Rightarrow> job_status \<Rightarrow> bool" where
  "status_edge None s = True"
| "status_edge (Some Job_queued) s = (s \<in> {Job_queued, Job_running, Job_ended Out_cancelled, Job_ended Out_unknown, Job_ended Out_failed})"
| "status_edge (Some Job_running) s = (s \<noteq> Job_queued)"
| "status_edge (Some (Job_ended x)) s = (s = Job_ended x)"

fun journal :: "job_status option \<Rightarrow> job_event list \<Rightarrow> job_status option \<Rightarrow> bool" where
  "journal p [] q \<longleftrightarrow> p = q"
| "journal p (e # es) q \<longleftrightarrow> je_previousStatus e = p \<and> status_edge p (je_status e) \<and> journal (Some (je_status e)) es q"

definition job_events :: "job_store \<Rightarrow> string \<Rightarrow> string \<Rightarrow> job_event list" where
  "job_events s taskId jobId = filter (\<lambda>e. je_taskId e = taskId \<and> je_jobId e = jobId) (jst_events s)"

lemma journal_snoc:
  "journal p es q \<Longrightarrow> je_previousStatus e = q \<Longrightarrow> status_edge q (je_status e) \<Longrightarrow> journal p (es @ [e]) (Some (je_status e))"
  by (induction p es q rule: journal.induct) auto

lemma status_edge_refl [simp]: "status_edge (Some s) s"
  by (cases s) simp_all

lemma transition_edge: "validDurableJobTransition a b = Inr True \<Longrightarrow> status_edge (Some (jr_status a)) (jr_status b)"
  using terminal_facts_status [of a b]
  by (cases "jr_status a")
    (auto simp: transition_iff terminal_transition_def allowed_status_def split: if_splits)

definition unique_requests :: "job_store \<Rightarrow> bool" where
  "unique_requests s \<longleftrightarrow> (\<forall>j \<in> set (jst_jobs s). \<forall>k \<in> set (jst_jobs s). same_unique_key j k \<longrightarrow> j = k)"

definition journaled :: "job_store \<Rightarrow> bool" where
  "journaled s \<longleftrightarrow> (\<forall>t i. journal None (job_events s t i) (map_option jr_status (getDurableJob s t i)))"

definition job_store_inv :: "job_store \<Rightarrow> bool" where
  "job_store_inv s \<longleftrightarrow> distinct (map job_key (jst_jobs s)) \<and> (\<forall>j \<in> set (jst_jobs s). job_valid j) \<and> unique_requests s \<and> journaled s"

definition store_below :: "job_store \<Rightarrow> job_store \<Rightarrow> bool" where
  "store_below s u \<longleftrightarrow> prefix (jst_events s) (jst_events u) \<and>
     (\<forall>j \<in> set (jst_jobs s). \<exists>k \<in> set (jst_jobs u). job_key k = job_key j \<and> job_below j k)"

lemma save_Inr:
  assumes "saveDurableJob hasTask taskId j s = Inr u"
  shows "job_valid j" "job_key j = (taskId, jr_id j)" "jst_jobs u = put_job j (jst_jobs s)"
    "jst_events u = jst_events s @ (if semantic_change (getDurableJob s taskId (jr_id j)) j
       then [state_changed_event taskId (getDurableJob s taskId (jr_id j)) j] else [])"
    "\<And>e. getDurableJob s taskId (jr_id j) = Some e \<Longrightarrow> validDurableJobTransition e j = Inr True"
    "\<And>k. k \<in> set (jst_jobs s) \<Longrightarrow> job_key k \<noteq> job_key j \<Longrightarrow> \<not> same_unique_key k j"
proof -
  show "job_key j = (taskId, jr_id j)"
    using assms by (cases "jr_subject j") (auto simp: saveDurableJob_def job_key_def executionNamespace_def split: if_splits)
  have all: "job_valid j \<and> first_error [when_some (getDurableJob s taskId (jr_id j)) (\<lambda>e. replacement_error e j),
        reject (\<exists>k \<in> set (jst_jobs s). job_key k \<noteq> job_key j \<and> same_unique_key k j) Job_not_unique] = None \<and>
      u = \<lparr>jst_jobs = put_job j (jst_jobs s), jst_events = jst_events s @ (if semantic_change (getDurableJob s taskId (jr_id j)) j
       then [state_changed_event taskId (getDurableJob s taskId (jr_id j)) j] else [])\<rparr>"
    using assms
    by (auto simp: saveDurableJob_def Let_def bind_result_Inr map_error_Inr validateDurableJob_Inr check_Inr
        simp del: first_error.simps split: if_splits)
  then show "job_valid j" "jst_jobs u = put_job j (jst_jobs s)"
    "jst_events u = jst_events s @ (if semantic_change (getDurableJob s taskId (jr_id j)) j
       then [state_changed_event taskId (getDurableJob s taskId (jr_id j)) j] else [])" by simp_all
  show "validDurableJobTransition e j = Inr True" if "getDurableJob s taskId (jr_id j) = Some e" for e
    using all that by (auto simp: replacement_error_def split: if_splits sum.splits)
  show "\<not> same_unique_key k j" if "k \<in> set (jst_jobs s)" "job_key k \<noteq> job_key j" for k
    using all that by auto
qed

lemma save_journaled:
  assumes "saveDurableJob hasTask taskId j s = Inr u" "journaled s"
  shows "journaled u"
  unfolding journaled_def
proof (intro allI)
  fix t i
  note sv = save_Inr [OF assms(1)]
  let ?old = "getDurableJob s taskId (jr_id j)"
  have get: "getDurableJob u t i = (if (t, i) = (taskId, jr_id j) then Some j else getDurableJob s t i)"
    using get_put [OF sv(3)] sv(2) by simp
  have J: "journal None (job_events s t i) (map_option jr_status (getDurableJob s t i))"
    using assms(2) by (simp add: journaled_def)
  show "journal None (job_events u t i) (map_option jr_status (getDurableJob u t i))"
  proof (cases "(t, i) = (taskId, jr_id j)")
    case False
    then have "job_events u t i = job_events s t i"
      by (auto simp: job_events_def sv(4) state_changed_event_def)
    moreover have "getDurableJob u t i = getDurableJob s t i" using False by (auto simp: get)
    ultimately show ?thesis using J by simp
  next
    case True
    have edge: "status_edge (map_option jr_status ?old) (jr_status j)"
      using transition_edge sv(5) by (cases ?old) auto
    show ?thesis
    proof (cases "semantic_change ?old j")
      case sc: True
      then have "job_events u t i = job_events s t i @ [state_changed_event taskId ?old j]"
        using True by (simp add: job_events_def sv(4) state_changed_event_def)
      moreover have "journal None (job_events s t i @ [state_changed_event taskId ?old j]) (Some (je_status (state_changed_event taskId ?old j)))"
        using J True edge by (intro journal_snoc [where q = "map_option jr_status ?old"]) (simp_all add: state_changed_event_def)
      ultimately show ?thesis using True get by (simp add: state_changed_event_def)
    next
      case False
      then obtain e where e: "?old = Some e" "jr_status e = jr_status j" by (auto simp: semantic_change_def split: option.splits)
      moreover have "job_events u t i = job_events s t i" using False by (simp add: job_events_def sv(4))
      ultimately show ?thesis using J True get by simp
    qed
  qed
qed

lemma save_unique:
  assumes "saveDurableJob hasTask taskId j s = Inr u" "unique_requests s"
  shows "unique_requests u"
  unfolding unique_requests_def
proof (intro ballI impI)
  fix a b
  note sv = save_Inr [OF assms(1)]
  assume ab: "a \<in> set (jst_jobs u)" "b \<in> set (jst_jobs u)" and same: "same_unique_key a b"
  have kept: "x \<in> set (jst_jobs s)" "\<not> same_unique_key x j" "\<not> same_unique_key j x" if "x \<in> set (jst_jobs u)" "x \<noteq> j" for x
    using that sv(6) [of x] same_unique_key_sym [of j x] by (auto simp: sv(3) set_put)
  show "a = b"
  proof (cases "a = j \<or> b = j")
    case True
    then show ?thesis using kept ab same by blast
  next
    case False
    then show ?thesis using kept(1) ab same assms(2) unfolding unique_requests_def by blast
  qed
qed

lemma save_job_inv: "saveDurableJob hasTask taskId j s = Inr u \<Longrightarrow> job_store_inv s \<Longrightarrow> job_store_inv u"
  using save_Inr [of hasTask taskId j s u] distinct_put [of "jst_jobs s" j]
  by (auto simp: job_store_inv_def set_put save_journaled save_unique)

lemma store_below_refl: "store_below s s"
  by (auto simp: store_below_def intro: job_below_refl)

lemma store_below_trans: "store_below s t \<Longrightarrow> store_below t u \<Longrightarrow> store_below s u"
  unfolding store_below_def by (metis job_below_trans prefix_order.trans)

lemma save_below:
  assumes "saveDurableJob hasTask taskId j s = Inr u" "job_store_inv s"
  shows "store_below s u"
proof -
  note sv = save_Inr [OF assms(1)]
  have "\<exists>k \<in> set (jst_jobs u). job_key k = job_key a \<and> job_below a k" if a: "a \<in> set (jst_jobs s)" for a
  proof (cases "job_key a = job_key j")
    case True
    then have "getDurableJob s taskId (jr_id j) = Some a"
      using mem_get [of s a] a assms(2) sv(2) by (simp add: job_store_inv_def job_key_def)
    then have "job_below a j" using sv(5) transition_below by blast
    then show ?thesis using True by (auto simp: sv(3) set_put)
  next
    case False
    then show ?thesis using a job_below_refl by (auto simp: sv(3) set_put)
  qed
  then show ?thesis by (simp add: store_below_def sv(4))
qed

definition save_job_step :: "(string \<Rightarrow> bool) \<Rightarrow> string \<times> job_run \<Rightarrow> job_store \<Rightarrow> job_store_error + job_store" where
  "save_job_step hasTask c s = saveDurableJob hasTask (fst c) (snd c) s"

interpretation job_table: ratchet_system job_store_inv "save_job_step hasTask" "\<lambda>_. True" store_below
  by unfold_locales (auto simp: save_job_step_def intro: save_job_inv save_below store_below_refl store_below_trans)

definition empty_job_store :: job_store where
  "empty_job_store = \<lparr>jst_jobs = [], jst_events = []\<rparr>"

lemma empty_inv: "job_store_inv empty_job_store"
  by (simp add: job_store_inv_def empty_job_store_def unique_requests_def journaled_def job_events_def getDurableJob_def)

subsection \<open>Results of operations can be stored\<close>

lemma same_request_keys:
  "same_request j k \<Longrightarrow> same_operation (jr_operation j) (jr_operation k) \<Longrightarrow> same_unique_key x k \<longleftrightarrow> same_unique_key x j"
  "same_request j k \<Longrightarrow> job_key k = job_key j"
  by (simp_all add: same_request_def same_operation_def same_unique_key_def job_key_def)

lemma same_request_task: "same_request j k \<Longrightarrow> jr_subject j = Task_run t x \<Longrightarrow> \<exists>y. jr_subject k = Task_run t y"
  by (cases "jr_subject k") (auto simp: same_request_def executionNamespace_def same_subject_def)

lemma job_run_task:
  assumes "createDurableJob h input now = Inr a" "run_commands (job_command_step h) cs a = Inr j"
  shows "\<exists>t x. jr_subject j = Task_run t x"
proof -
  have a: "\<exists>t x. jr_subject a = Task_run t x" using assms(1) by (auto simp: createDurableJob_def validateDurableJob_Inr)
  have "\<exists>t x. jr_subject k = Task_run t x" if "run_commands (job_command_step h) cs b = Inr k" "\<exists>t x. jr_subject b = Task_run t x" for b k
    using that
  proof (induction cs arbitrary: b)
    case (Cons c cs)
    from Cons.prems(1) obtain d where d: "job_command_step h c b = Inr d" "run_commands (job_command_step h) cs d = Inr k"
      by (auto simp: bind_result_Inr)
    have "same_request b d" using job_command_changed [of h "fst c" "snd c" b d] d(1) by (simp add: op_changed_def)
    then have "\<exists>t x. jr_subject d = Task_run t x" using same_request_task Cons.prems(2) by blast
    from Cons.IH [OF d(2) this] show ?case .
  qed simp
  from this [OF assms(2) a] show ?thesis .
qed

lemma admitted_saved:
  assumes "job_store_inv s" "getDurableJob s t i = Some j" "jr_subject j = Task_run t x" "job_valid k"
    "validDurableJobTransition j k = Inr True" "hasTask t" "\<not> date_less (jr_updatedAt k) (jr_updatedAt j)"
  shows "\<exists>u. saveDurableJob hasTask t k s = Inr u \<and> getDurableJob u t i = Some k"
proof -
  have r: "same_request j k" "same_operation (jr_operation j) (jr_operation k)" using assms(5) by (simp_all add: transition_iff)
  obtain y where y: "jr_subject k = Task_run t y" using same_request_task [OF r(1) assms(3)] by blast
  have key: "job_key k = (t, i)" using same_request_keys(2) [OF r(1)] get_mem [OF assms(2)] by simp
  then have i: "jr_id k = i" by (simp add: job_key_def)
  have "\<not> same_unique_key x k" if "x \<in> set (jst_jobs s)" "job_key x \<noteq> job_key k" for x
    using that assms(1) get_mem [OF assms(2)] same_request_keys [OF r(1)] r(2)
    unfolding job_store_inv_def unique_requests_def by metis
  then have ok: "\<not> (\<exists>x \<in> set (jst_jobs s). job_key x \<noteq> job_key k \<and> same_unique_key x k)" by blast
  have "replacement_error j k = None" using assms(5,7) by (simp add: replacement_error_def)
  moreover have "reject (\<exists>x \<in> set (jst_jobs s). job_key x \<noteq> job_key k \<and> same_unique_key x k) Job_not_unique = None"
    by (subst reject_None) (rule ok)
  ultimately have errs: "first_error [replacement_error j k,
      reject (\<exists>x \<in> set (jst_jobs s). job_key x \<noteq> job_key k \<and> same_unique_key x k) Job_not_unique] = None"
    by (simp del: reject_simps)
  let ?u = "\<lparr>jst_jobs = put_job k (jst_jobs s), jst_events = jst_events s @
      (if semantic_change (Some j) k then [state_changed_event t (Some j) k] else [])\<rparr>"
  have "saveDurableJob hasTask t k s = Inr ?u"
    using assms(4,6) by (simp add: saveDurableJob_def y i assms(2) job_valid_def Let_def check_def errs del: first_error.simps)
  moreover have "getDurableJob ?u t i = Some k" using get_put [of ?u k s t i] key by simp
  ultimately show ?thesis by blast
qed

subsection \<open>Properties\<close>

text \<open>
  C25. The table of durable jobs over every sequence of successful saves, whoever makes them. Every stored
  job keeps its request: identity, trigger, specification, idempotency key; published artifacts and
  evidence only accumulate; once a job is terminal its outcome, result and end time never change
  and its two flags are never withdrawn. At most one job serves a request of an actor and at most
  one carries an idempotency key. The events of a job are a complete journal: the first reports no
  previous status, each further one starts from the status the preceding one reported along an edge
  of the lifecycle graph, and the last one reports the stored status.
\<close>

theorem durable_job_history:
  assumes "run_commands (save_job_step hasTask) cs empty_job_store = Inr s"
    "run_commands (save_job_step hasTask) ds s = Inr u"
  shows "(\<forall>j \<in> set (jst_jobs s). \<exists>k \<in> set (jst_jobs u). job_key k = job_key j \<and> job_below j k) \<and>
    (\<forall>k \<in> set (jst_jobs u). validateDurableJob k = Inr k) \<and> distinct (map job_key (jst_jobs u)) \<and> unique_requests u \<and>
    prefix (jst_events s) (jst_events u) \<and>
    (\<forall>t i. journal None (job_events u t i) (map_option jr_status (getDurableJob u t i)))"
proof -
  have adm: "list_all (\<lambda>_. True) xs" for xs :: "'x list" by (simp add: list_all_iff)
  have s: "job_store_inv s" by (rule job_table.run_valid [OF empty_inv adm assms(1)])
  have "job_store_inv u" by (rule job_table.run_valid [OF s adm assms(2)])
  moreover have "store_below s u" by (rule job_table.run_below [OF s adm assms(2)])
  ultimately show ?thesis by (simp add: job_store_inv_def store_below_def journaled_def job_valid_def)
qed

definition demo_job_store :: job_store where
  "demo_job_store = \<lparr>jst_jobs = [demo_job], jst_events = [state_changed_event ''task-1'' None demo_job]\<rparr>"

lemma demo_job_saved: "run_commands (save_job_step (\<lambda>_. True)) [(''task-1'', demo_job)] empty_job_store = Inr demo_job_store"
proof -
  have "jr_subject demo_job = Task_run ''task-1'' Owner_task" by (simp add: demo_job_def)
  moreover have "validateDurableJob demo_job = Inr demo_job" using demo_job_valid by (simp add: job_valid_def)
  ultimately show ?thesis
    by (simp add: save_job_step_def saveDurableJob_def empty_job_store_def getDurableJob_def semantic_change_def put_job_def
        check_def demo_job_store_def)
qed

lemma demo_job_stored: "getDurableJob demo_job_store ''task-1'' ''job-1'' = Some demo_job"
  by (simp add: getDurableJob_def demo_job_store_def job_key_def executionNamespace_def demo_job_def)

lemma durable_job_history_witness:
  "journal None (job_events demo_job_store ''task-1'' ''job-1'') (Some Job_queued)"
proof -
  have "journal None (job_events demo_job_store ''task-1'' ''job-1'') (map_option jr_status (getDurableJob demo_job_store ''task-1'' ''job-1''))"
    using durable_job_history [OF demo_job_saved, of "[]" demo_job_store] by simp
  moreover have "jr_status demo_job = Job_queued" by (simp add: demo_job_def)
  ultimately show ?thesis by (simp add: demo_job_stored)
qed

text \<open>
  C26. The operations never ask for a replacement the store refuses. A job that was created and brought into its present state by operations
  passes the validator; the result of one more operation passes the guard of the store; and, if the
  present state is stored and the clock has not moved backwards, saving the result succeeds and the
  result is what the store then holds.
\<close>

theorem job_operations_stored:
  assumes "createDurableJob h input now = Inr a" "run_commands (job_command_step h) cs a = Inr j"
    "job_command_step h (time, c) j = Inr k"
    "run_commands (save_job_step hasTask) ds empty_job_store = Inr s" "getDurableJob s t i = Some j"
    "hasTask t" "\<not> date_less (jr_updatedAt k) (jr_updatedAt j)"
  shows "validDurableJobTransition j k = Inr True \<and>
    (\<exists>u. saveDurableJob hasTask t k s = Inr u \<and> getDurableJob u t i = Some k)"
proof -
  have adm: "list_all (\<lambda>_. True) xs" for xs :: "'x list" by (simp add: list_all_iff)
  note a = createDurableJob_inv(1) [OF assms(1)]
  have j: "job_inv j" by (rule jobs.run_valid [OF a adm assms(2)])
  have jk: "job_inv k \<and> validDurableJobTransition j k = Inr True"
    by (rule op_changed_transition [OF j job_command_changed [OF assms(3)]])
  have s: "job_store_inv s" by (rule job_table.run_valid [OF empty_inv adm assms(4)])
  obtain x where x: "jr_subject j = Task_run t x"
    using job_run_task [OF assms(1,2)] get_mem [OF assms(5)] by (auto simp: job_key_def executionNamespace_def)
  have "\<exists>u. saveDurableJob hasTask t k s = Inr u \<and> getDurableJob u t i = Some k"
    by (rule admitted_saved [OF s assms(5) x]) (use jk assms(6,7) in \<open>simp_all add: job_inv_def\<close>)
  then show ?thesis using jk by blast
qed

lemma job_operations_stored_witness:
  "\<exists>k u. requestDurableJobCancel demo_job 0 = Inr k \<and> saveDurableJob (\<lambda>_. True) ''task-1'' k demo_job_store = Inr u \<and>
    getDurableJob u ''task-1'' ''job-1'' = Some k"
proof -
  have q: "\<not> isDurableJobTerminal (jr_status demo_job)" "jr_cancelRequestedAt demo_job = None" "jr_updatedAt demo_job = demo_time"
    by (simp_all add: demo_job_def)
  let ?k = "demo_job\<lparr>jr_cancelRequestedAt := Some demo_time, jr_updatedAt := demo_time\<rparr>"
  have "requestDurableJobCancel demo_job 0 = Inr ?k"
    using request_cancel_valid [OF demo_job_valid demo_time(2)] demo_job_valid q
    by (simp add: requestDurableJobCancel_def job_valid_def demo_time)
  moreover then have "job_command_step demo_host (0, Request_cancel) demo_job = Inr ?k" by simp
  moreover have "\<not> date_less demo_time demo_time" by code_simp
  ultimately show ?thesis
    using job_operations_stored [OF demo_job_created, of "[]" demo_job 0 Request_cancel ?k, OF _ _ demo_job_saved demo_job_stored] q
    by auto
qed

end
