(* ===== verification/Schedule.thy ===== *)
theory Schedule
  imports Job_Records Task "HOL-Library.AList"
begin

text \<open>
  Schedules of jobs: the record, its rules and the computation of the next occurrence
  (\<open>src/src/schedule/schedule.ts\<close>), the control operations and the pass that admits due runs
  (\<open>src/src/controller/scheduleControl.ts\<close>) and the overrides of a built-in schedule
  (\<open>updateProjectSync\<close> of \<open>src/src/job/projectSync.ts\<close>).

  The third-party cron parser and the time zone database are arguments, and so is what the
  operations ask of the rest of the store: authorization of the caller, the definition of the job, service
  bindings, and the admission of a run. Every command of a run carries its own environment, so nothing is
  assumed about how these answers change between commands; the only law used is that the cron parser
  returns an instant after the one it was given. Instants are integers; the source computes in doubles, which agree
  as long as the fence and the anchor of an interval are less than \<open>2 ^ 53\<close> milliseconds apart. The notices that accompany
  a schedule that needs attention are not modelled.
\<close>

subsection \<open>The record\<close>

datatype schedule_rule =
    Once (once_at: string)
  | Interval (interval_anchor: string) (interval_everyMs: int)
  | Cron (cron_expression: string) (cron_timezone: string)

datatype schedule_target = Existing_job | New_job int

datatype caller_scope = Caller_user | Caller_global | Caller_task

record job_caller =
  cl_scope :: caller_scope
  cl_taskId :: "string option"
  cl_role :: "string option"
  cl_agentId :: "string option"
  cl_adapterId :: "string option"
  cl_nativeSessionId :: "string option"
  cl_runId :: "string option"

datatype grant_issuer = Issued_by job_caller | Issued_by_project_sync

datatype schedule_authorization =
    Session_auth (auth_caller: job_caller) (auth_binding: string) (auth_jobRevision: int)
  | Service_auth (auth_grantId: string) (auth_revoked: bool) (auth_binding: string) (auth_jobRevision: int)
      (auth_grantedBy: grant_issuer) (auth_grantedAt: string)

datatype schedule_state = Sch_enabled | Sch_disabled | Sch_completed | Sch_needs_attention | Sch_retired

record builtin_plan =
  bp_projectId :: string
  bp_enabled :: bool

datatype attempt_outcome = Attempt_admitted | Attempt_overlap | Attempt_blocked

record schedule_attempt =
  sa_at :: string
  sa_dueAt :: string
  sa_outcome :: attempt_outcome
  sa_runId :: "string option"
  sa_jobId :: "string option"
  sa_generation :: "int option"
  sa_reason :: "string option"

record job_schedule =
  sch_id :: string
  sch_scope :: job_scope
  sch_jobId :: string
  sch_target :: schedule_target
  sch_rule :: schedule_rule
  sch_revision :: int
  sch_generation :: int
  sch_state :: schedule_state
  sch_nextDue :: "string option"
  sch_processedThrough :: "string option"
  sch_authorization :: schedule_authorization
  sch_builtin :: "builtin_plan option"
  sch_lastAttempt :: "schedule_attempt option"
  sch_reason :: "string option"
  sch_createdAt :: string
  sch_updatedAt :: string

datatype schedule_error =
    Schedule_field string field_error
  | Schedule_job job_error
  | Schedule_id_unsafe | Instant_without_offset | Interval_too_short | Timezone_missing | Timezone_unknown
  | Cron_fields | Cron_unparsable | Rule_unknown | Date_out_of_range
  | Builtin_invalid | Enabled_without_due | Completed_not_once | Binding_invalid | Service_scope_invalid
  | Issuer_invalid | Caller_invalid | Caller_incomplete | Caller_not_operator | Caller_outside_scope
  | Control_refused string

record job_view =
  jv_revision :: int
  jv_builtin :: bool

record admission =
  ad_overlap :: bool
  ad_jobId :: string
  ad_runId :: string

type_synonym schedule_plan = "string \<times> job_scope \<times> string \<times> schedule_target"

record schedule_host =
  sh_zoneKnown :: "string \<Rightarrow> bool"
  sh_cronParses :: "string \<Rightarrow> string \<Rightarrow> bool"
  sh_cronNext :: "string \<Rightarrow> string \<Rightarrow> time \<Rightarrow> time option"
  sh_definition :: "job_scope \<Rightarrow> string \<Rightarrow> job_view option"
  sh_authorize :: "job_scope \<Rightarrow> string \<Rightarrow> job_caller \<Rightarrow> bool \<Rightarrow> schedule_error option"
  sh_serviceBinding :: "schedule_plan \<Rightarrow> string \<Rightarrow> schedule_error + string"
  sh_sessionBinding :: "job_caller \<Rightarrow> job_scope \<Rightarrow> string"
  sh_syncTarget :: "string \<Rightarrow> schedule_error option"
  sh_task :: "string \<Rightarrow> task option"
  sh_admit :: "job_schedule \<Rightarrow> string \<Rightarrow> time \<Rightarrow> schedule_error + admission"
  sh_message :: "schedule_error \<Rightarrow> string"
  sh_redact :: "string \<Rightarrow> string"
  sh_authorizeScope :: "job_scope \<Rightarrow> job_caller \<Rightarrow> schedule_error option"

subsection \<open>Rules and the next occurrence\<close>

abbreviation sch_check :: "string \<Rightarrow> field_error + 'a \<Rightarrow> schedule_error option" where
  "sch_check l r \<equiv> map_option (Schedule_field l) (failure r)"

definition scheduleId :: "string \<Rightarrow> schedule_error option" where
  "scheduleId i = reject (\<not> plain_identity i) Schedule_id_unsafe"

text \<open>The pattern \<open>(?:Z|[+-]\d{2}:\d{2})$\<close>.\<close>

definition has_offset :: "string \<Rightarrow> bool" where
  "has_offset s = ((s \<noteq> [] \<and> last s = CHR ''Z'') \<or>
     (case last_n 6 s of [a, b, c, d, e, f] \<Rightarrow> a \<in> set ''+-'' \<and> is_digit b \<and> is_digit c \<and> d = CHR '':'' \<and> is_digit e \<and> is_digit f
      | _ \<Rightarrow> False))"

definition instant :: "string \<Rightarrow> schedule_error option" where
  "instant value = first_error
     [sch_check ''instant'' (requireTimestamp value), reject (\<not> has_offset value) Instant_without_offset]"

fun word_count :: "bool \<Rightarrow> string \<Rightarrow> nat" where
  "word_count inside [] = 0"
| "word_count inside (c # s) =
     (if is_space c then word_count False s else (if inside then 0 else 1) + word_count True s)"

definition is_word_char :: "char \<Rightarrow> bool" where
  "is_word_char c = (is_alnum c \<or> c = CHR ''_'')"

text \<open>The pattern \<open>\bH\b\<close> without regard to case.\<close>

fun lone_h :: "bool \<Rightarrow> string \<Rightarrow> bool" where
  "lone_h after_word [] = False"
| "lone_h after_word (c # s) =
     (\<not> after_word \<and> c \<in> set ''Hh'' \<and> (s = [] \<or> \<not> is_word_char (hd s)) \<or> lone_h (is_word_char c) s)"

definition validateScheduleRule :: "schedule_host \<Rightarrow> schedule_rule \<Rightarrow> schedule_error option" where
  "validateScheduleRule h rule =
     (case rule of
        Once at \<Rightarrow> instant at
      | Interval anchor everyMs \<Rightarrow> first_error
          [instant anchor, reject (\<not> isSafeInteger everyMs \<or> everyMs < 1000) Interval_too_short]
      | Cron expression timezone \<Rightarrow> first_error
          [reject (trim timezone = []) Timezone_missing,
           reject (\<not> sh_zoneKnown h timezone) Timezone_unknown,
           reject (word_count False (trim expression) \<noteq> 5 \<or> lone_h False expression) Cron_fields,
           reject (\<not> sh_cronParses h expression timezone) Cron_unparsable])"

definition date_text :: "time \<Rightarrow> schedule_error + string" where
  "date_text t = (if valid_time t then Inr (toISOString t) else Inl Date_out_of_range)"

definition date_of :: "string \<Rightarrow> time" where
  "date_of s = (case Date_parse s of None \<Rightarrow> 0 | Some t \<Rightarrow> t)"

definition nextScheduleDue :: "schedule_host \<Rightarrow> schedule_rule \<Rightarrow> time \<Rightarrow> schedule_error + string option" where
  "nextScheduleDue h rule after =
     (case validateScheduleRule h rule of Some e \<Rightarrow> Inl e | None \<Rightarrow>
     (case rule of
        Once at \<Rightarrow> if date_of at > after then bind_result (date_text (date_of at)) (\<lambda>d. Inr (Some d)) else Inr None
      | Interval anchor everyMs \<Rightarrow>
          bind_result (date_text (date_of anchor + max 0 ((after - date_of anchor) div everyMs + 1) * everyMs)) (\<lambda>d. Inr (Some d))
      | Cron expression timezone \<Rightarrow>
          (case sh_cronNext h expression timezone after of
             None \<Rightarrow> Inl Cron_unparsable
           | Some t \<Rightarrow> bind_result (date_text t) (\<lambda>d. Inr (Some d)))))"

subsection \<open>Validation\<close>

definition validateScheduleTarget :: "schedule_target \<Rightarrow> schedule_error option" where
  "validateScheduleTarget target =
     (case target of Existing_job \<Rightarrow> None | New_job n \<Rightarrow> sch_check ''definitionRevision'' (requirePositiveInteger n))"

definition parseDurableJobCaller :: "job_caller \<Rightarrow> schedule_error option" where
  "parseDurableJobCaller c =
     reject (\<exists>v \<in> set [cl_taskId c, cl_role c, cl_agentId c, cl_adapterId c, cl_nativeSessionId c, cl_runId c]. v = Some [])
       Caller_invalid"

definition issuer_error :: "job_schedule \<Rightarrow> grant_issuer \<Rightarrow> schedule_error option" where
  "issuer_error s issuer =
     (case issuer of
        Issued_by_project_sync \<Rightarrow> reject (sch_builtin s = None) Issuer_invalid
      | Issued_by c \<Rightarrow> first_error
          [parseDurableJobCaller c,
           reject ((cl_scope c = Caller_user \<and>
               (\<exists>v \<in> set [cl_taskId c, cl_role c, cl_agentId c, cl_adapterId c, cl_nativeSessionId c, cl_runId c]. v \<noteq> None)) \<or>
             (cl_scope c \<noteq> Caller_user \<and>
               (cl_scope c \<noteq> Caller_global \<or> cl_role c \<noteq> Some ''operator'' \<or> cl_nativeSessionId c = None))) Issuer_invalid])"

definition authorization_error :: "job_schedule \<Rightarrow> schedule_error option" where
  "authorization_error s =
     (case sch_authorization s of
        Service_auth grantId revoked binding revision issuer grantedAt \<Rightarrow> first_error
          [reject (sch_scope s \<noteq> Scope_global) Service_scope_invalid, scheduleId grantId, instant grantedAt, issuer_error s issuer]
      | Session_auth c binding revision \<Rightarrow>
          (case (cl_role c, cl_nativeSessionId c) of
             (Some role, Some session) \<Rightarrow> first_error
               [sch_check ''callerRole'' (requireText role), sch_check ''callerSession'' (requireText session),
                (if cl_scope c = Caller_global then reject (role \<noteq> ''operator'') Caller_not_operator
                 else reject (cl_scope c \<noteq> Caller_task \<or>
                   \<not> (\<exists>t \<in> set_option (cl_taskId c). sch_scope s = Scope_task t)) Caller_outside_scope)]
           | _ \<Rightarrow> Some Caller_incomplete))"

definition builtin_error :: "job_schedule \<Rightarrow> schedule_error option" where
  "builtin_error s = when_some (sch_builtin s) (\<lambda>b.
     reject (\<not> numbered ''project-'' (bp_projectId b) \<or> sch_scope s \<noteq> Scope_global \<or>
       sch_id s \<noteq> ''project-sync-'' @ bp_projectId b \<or> sch_jobId s \<noteq> sch_id s \<or> sch_target s \<noteq> Existing_job \<or>
       (case sch_authorization s of Service_auth _ _ _ _ _ _ \<Rightarrow> False | Session_auth _ _ _ \<Rightarrow> True)) Builtin_invalid)"

definition attempt_error :: "schedule_attempt \<Rightarrow> schedule_error option" where
  "attempt_error a = first_error
     [instant (sa_at a), instant (sa_dueAt a),
      when_some (sa_runId a) (\<lambda>v. sch_check ''attemptRun'' (requireText v)),
      when_some (sa_jobId a) scheduleId,
      when_some (sa_generation a) (\<lambda>n. sch_check ''attemptGeneration'' (requirePositiveInteger n)),
      when_some (sa_reason a) (\<lambda>v. sch_check ''attemptReason'' (requireText v))]"

definition is_once :: "schedule_rule \<Rightarrow> bool" where
  "is_once r = (case r of Once _ \<Rightarrow> True | _ \<Rightarrow> False)"

definition validateSchedule :: "schedule_host \<Rightarrow> job_schedule \<Rightarrow> schedule_error + job_schedule" where
  "validateSchedule h s = check
     [scheduleId (sch_id s), scheduleId (sch_jobId s), validateScheduleTarget (sch_target s),
      map_option Schedule_job (failure (jobScopeKey (sch_scope s))),
      builtin_error s,
      validateScheduleRule h (sch_rule s),
      sch_check ''revision'' (requirePositiveInteger (sch_revision s)),
      sch_check ''generation'' (requirePositiveInteger (sch_generation s)),
      reject (sch_state s = Sch_enabled \<and> sch_nextDue s = None) Enabled_without_due,
      reject (sch_state s = Sch_completed \<and> (\<not> is_once (sch_rule s) \<or> sch_nextDue s \<noteq> None)) Completed_not_once,
      when_some (sch_nextDue s) instant, when_some (sch_processedThrough s) instant,
      instant (sch_createdAt s), instant (sch_updatedAt s),
      sch_check ''jobRevision'' (requirePositiveInteger (auth_jobRevision (sch_authorization s))),
      reject (\<not> is_digest (auth_binding (sch_authorization s))) Binding_invalid,
      authorization_error s,
      when_some (sch_reason s) (\<lambda>v. sch_check ''reason'' (requireText v)),
      when_some (sch_lastAttempt s) attempt_error] s"

subsection \<open>Control operations\<close>

datatype auth_choice = Choose_session | Choose_service

record schedule_request =
  rq_scope :: job_scope
  rq_caller :: job_caller
  rq_id :: string
  rq_jobId :: "string option"
  rq_target :: "schedule_target option"
  rq_authorization :: "auth_choice option"
  rq_rule :: "schedule_rule option"
  rq_expectedRevision :: "int option"
  rq_grantId :: string

definition fence :: "string option \<Rightarrow> time \<Rightarrow> time" where
  "fence processedThrough now = max now (case processedThrough of None \<Rightarrow> 0 | Some p \<Rightarrow> date_of p)"

definition given_or :: "'a option \<Rightarrow> 'a \<Rightarrow> 'a" where
  "given_or v d = (case v of None \<Rightarrow> d | Some x \<Rightarrow> x)"

definition authorizeSchedule :: "schedule_host \<Rightarrow> job_scope \<Rightarrow> string \<Rightarrow> job_caller \<Rightarrow> bool \<Rightarrow> schedule_error + job_view" where
  "authorizeSchedule h scope jobId caller write =
     (case sh_definition h scope jobId of
        None \<Rightarrow> Inl (Control_refused ''definition missing'')
      | Some job \<Rightarrow> (case sh_authorize h scope jobId caller write of Some e \<Rightarrow> Inl e | None \<Rightarrow> Inr job))"

definition authorization ::
  "schedule_host \<Rightarrow> schedule_plan \<Rightarrow> job_view \<Rightarrow> job_caller \<Rightarrow> time \<Rightarrow> auth_choice option \<Rightarrow> string \<Rightarrow>
   schedule_authorization option \<Rightarrow> schedule_error + schedule_authorization" where
  "authorization h plan job caller now requested grantId previous =
     (let (_, scope, _, target) = plan in
      if (case target of New_job n \<Rightarrow> n \<noteq> jv_revision job | Existing_job \<Rightarrow> False) then Inl (Control_refused ''source revision changed'')
      else if requested = Some Choose_service then
        bind_result (sh_serviceBinding h plan grantId) (\<lambda>binding.
          Inr (Service_auth grantId False binding (jv_revision job) (Issued_by caller) (toISOString now)))
      else case (requested, previous) of
        (None, Some (Service_auth g revoked binding revision issuer grantedAt)) \<Rightarrow>
          if revoked then Inl (Control_refused ''authority revoked'')
          else bind_result (sh_serviceBinding h plan g) (\<lambda>b.
            if binding \<noteq> b then Inl (Control_refused ''authority changed'')
            else Inr (Service_auth g revoked binding revision issuer grantedAt))
      | _ \<Rightarrow>
          if cl_scope caller = Caller_user then Inl (Control_refused ''explicit service required'')
          else Inr (Session_auth caller (sh_sessionBinding h caller scope) (jv_revision job)))"

text \<open>\<open>saveSchedule\<close> of the store validates and then replaces the record.\<close>

definition saveSchedule :: "schedule_host \<Rightarrow> job_schedule \<Rightarrow> schedule_error + job_schedule" where
  "saveSchedule h s = validateSchedule h s"

definition same_creation :: "job_schedule \<Rightarrow> schedule_request \<Rightarrow> bool" where
  "same_creation p rq \<longleftrightarrow> Some (sch_jobId p) = rq_jobId rq \<and> Some (sch_rule p) = rq_rule rq \<and>
     sch_target p = given_or (rq_target rq) Existing_job \<and>
     (case rq_authorization rq of None \<Rightarrow> True
      | Some Choose_service \<Rightarrow> (case sch_authorization p of Service_auth _ _ _ _ _ _ \<Rightarrow> True | _ \<Rightarrow> False)
      | Some Choose_session \<Rightarrow> (case sch_authorization p of Session_auth _ _ _ \<Rightarrow> True | _ \<Rightarrow> False))"

definition createSchedule :: "schedule_host \<Rightarrow> schedule_request \<Rightarrow> time \<Rightarrow> job_schedule option \<Rightarrow> schedule_error + job_schedule" where
  "createSchedule h rq now previous =
     (case scheduleId (rq_id rq) of Some e \<Rightarrow> Inl e | None \<Rightarrow>
      case rq_jobId rq of None \<Rightarrow> Inl Schedule_id_unsafe | Some jobId \<Rightarrow>
      case scheduleId jobId of Some e \<Rightarrow> Inl e | None \<Rightarrow>
      case sh_definition h (rq_scope rq) jobId of None \<Rightarrow> Inl (Control_refused ''definition missing'') | Some job \<Rightarrow>
      if jv_builtin job then Inl (Control_refused ''builtin job'')
      else case previous of
        Some p \<Rightarrow>
          bind_result (authorizeSchedule h (sch_scope p) (sch_jobId p) (rq_caller rq) False) (\<lambda>_.
            if \<not> same_creation p rq then Inl (Control_refused ''already exists'') else Inr p)
      | None \<Rightarrow>
          (case sh_authorize h (rq_scope rq) jobId (rq_caller rq) True of Some e \<Rightarrow> Inl e | None \<Rightarrow>
           case rq_rule rq of None \<Rightarrow> Inl Rule_unknown | Some rule \<Rightarrow>
           bind_result (nextScheduleDue h rule now) (\<lambda>due.
           if due = None then Inl (Control_refused ''not in the future'')
           else let target = given_or (rq_target rq) Existing_job in
             case validateScheduleTarget target of Some e \<Rightarrow> Inl e | None \<Rightarrow>
             bind_result (authorization h (rq_id rq, rq_scope rq, jobId, target) job (rq_caller rq) now (rq_authorization rq) (rq_grantId rq) None) (\<lambda>auth.
             bind_result (validateSchedule h \<lparr>sch_id = rq_id rq, sch_scope = rq_scope rq, sch_jobId = jobId, sch_target = target,
               sch_rule = rule, sch_revision = 1, sch_generation = 1, sch_state = Sch_enabled, sch_nextDue = due,
               sch_processedThrough = None, sch_authorization = auth, sch_builtin = None, sch_lastAttempt = None, sch_reason = None,
               sch_createdAt = toISOString now, sch_updatedAt = toISOString now\<rparr>) (\<lambda>s. saveSchedule h s)))))"

datatype schedule_op = Op_disable | Op_revoke | Op_enable | Op_update

definition grant_sync :: "schedule_host \<Rightarrow> job_schedule \<Rightarrow> job_view \<Rightarrow> string \<Rightarrow> time \<Rightarrow> schedule_error + schedule_authorization" where
  "grant_sync h plan job grantId now =
     (case sh_syncTarget h (sch_jobId plan) of Some e \<Rightarrow> Inl e | None \<Rightarrow>
      bind_result (sh_serviceBinding h (sch_id plan, sch_scope plan, sch_jobId plan, sch_target plan) grantId) (\<lambda>binding.
        Inr (Service_auth grantId False binding (jv_revision job) Issued_by_project_sync (toISOString now))))"

definition revoke_auth :: "schedule_authorization \<Rightarrow> schedule_authorization" where
  "revoke_auth a = (case a of Service_auth g _ b r i t \<Rightarrow> Service_auth g True b r i t | Session_auth c b r \<Rightarrow> Session_auth c b r)"

definition sync_next ::
  "job_schedule \<Rightarrow> builtin_plan \<Rightarrow> bool \<Rightarrow> schedule_op \<Rightarrow> schedule_rule \<Rightarrow> string option \<Rightarrow> time \<Rightarrow> time \<Rightarrow> job_schedule" where
  "sync_next previous builtin enabled op rule due after now =
     previous\<lparr>sch_reason := None, sch_builtin := Some (builtin\<lparr>bp_enabled := enabled\<rparr>), sch_rule := rule,
       sch_state := (if enabled then Sch_enabled else Sch_disabled), sch_revision := sch_revision previous + 1,
       sch_generation := sch_generation previous + (if op = Op_update then 1 else 0), sch_updatedAt := toISOString now,
       sch_nextDue := due, sch_processedThrough := Some (toISOString after)\<rparr>"

definition updateProjectSync ::
  "schedule_host \<Rightarrow> job_schedule \<Rightarrow> builtin_plan \<Rightarrow> schedule_op \<Rightarrow> schedule_rule option \<Rightarrow> string \<Rightarrow> time \<Rightarrow> schedule_error + job_schedule" where
  "updateProjectSync h previous builtin op rule grantId now =
     (case sch_authorization previous of Session_auth _ _ _ \<Rightarrow> Inl (Control_refused ''not a builtin schedule'')
      | Service_auth _ revoked _ _ _ _ \<Rightarrow>
     let nextRule = given_or rule (sch_rule previous) in
     case validateScheduleRule h nextRule of Some e \<Rightarrow> Inl e | None \<Rightarrow>
     if is_once nextRule \<or> (case nextRule of Interval _ e \<Rightarrow> e < 60000 | _ \<Rightarrow> False) then Inl (Control_refused ''recurring rule required'')
     else
       let enabled = (if op = Op_enable then True else if op = Op_disable \<or> op = Op_revoke then False else bp_enabled builtin);
           after = fence (sch_processedThrough previous) now in
       bind_result (nextScheduleDue h nextRule after) (\<lambda>due.
       let next = sync_next previous builtin enabled op nextRule due after now in
       if \<not> enabled then saveSchedule h (next\<lparr>sch_reason := Some ''Project sync disabled by user.'',
         sch_authorization := revoke_auth (sch_authorization previous)\<rparr>)
       else case sh_definition h Scope_global (sch_jobId previous) of None \<Rightarrow> Inl (Control_refused ''definition missing'')
       | Some job \<Rightarrow>
         (case sh_syncTarget h (sch_jobId previous) of Some e \<Rightarrow> Inl e | None \<Rightarrow>
          bind_result (if revoked \<or> op = Op_enable then grant_sync h next job grantId now else Inr (sch_authorization previous)) (\<lambda>auth.
          saveSchedule h (next\<lparr>sch_authorization := auth\<rparr>)))))"

definition replanned ::
  "job_schedule \<Rightarrow> schedule_op \<Rightarrow> string \<Rightarrow> schedule_target \<Rightarrow> schedule_rule \<Rightarrow> string option \<Rightarrow> time \<Rightarrow> schedule_authorization \<Rightarrow> job_schedule" where
  "replanned p op jobId target rule due after auth =
     p\<lparr>sch_jobId := jobId, sch_target := target, sch_rule := rule, sch_nextDue := due,
       sch_state := (if op = Op_enable \<or> sch_state p = Sch_enabled then Sch_enabled else Sch_disabled),
       sch_generation := sch_generation p + (if op = Op_update then 1 else 0),
       sch_processedThrough := Some (toISOString after), sch_authorization := auth, sch_reason := None\<rparr>"

definition replan ::
  "schedule_host \<Rightarrow> schedule_op \<Rightarrow> schedule_request \<Rightarrow> time \<Rightarrow> job_schedule \<Rightarrow> string \<Rightarrow> schedule_target \<Rightarrow> schedule_rule option \<Rightarrow>
   schedule_error + job_schedule" where
  "replan h op rq now p jobId target ruleInput =
     (case first_error [scheduleId jobId, validateScheduleTarget target] of Some e \<Rightarrow> Inl e | None \<Rightarrow>
      bind_result (authorizeSchedule h (sch_scope p) jobId (rq_caller rq) True) (\<lambda>job.
      if jv_builtin job then Inl (Control_refused ''builtin job'')
      else case ruleInput of None \<Rightarrow> Inl Rule_unknown | Some rule \<Rightarrow>
      let after = fence (sch_processedThrough p) now in
      bind_result (if op = Op_enable \<and> is_once rule then Inr (sch_nextDue p) else nextScheduleDue h rule after) (\<lambda>due.
      if due = None then Inl (Control_refused ''no future occurrence'')
      else bind_result (authorization h (sch_id p, sch_scope p, jobId, target) job (rq_caller rq) now (rq_authorization rq) (rq_grantId rq)
          (Some (sch_authorization p))) (\<lambda>auth.
        Inr (replanned p op jobId target rule due after auth)))))"

definition rescheduled :: "schedule_host \<Rightarrow> schedule_op \<Rightarrow> schedule_request \<Rightarrow> time \<Rightarrow> job_schedule \<Rightarrow> schedule_error + job_schedule" where
  "rescheduled h op rq now p =
     (if op = Op_enable \<and> sch_state p \<in> set [Sch_completed, Sch_retired] then Inl (Control_refused ''update required'')
      else if op = Op_update then
        replan h op rq now p (given_or (rq_jobId rq) (sch_jobId p)) (given_or (rq_target rq) (sch_target p)) (rq_rule rq)
      else replan h op rq now p (sch_jobId p) (sch_target p) (Some (sch_rule p)))"

definition modified :: "schedule_host \<Rightarrow> schedule_op \<Rightarrow> schedule_request \<Rightarrow> time \<Rightarrow> job_schedule \<Rightarrow> schedule_error + job_schedule" where
  "modified h op rq now p =
     (case op of
        Op_disable \<Rightarrow> Inr (p\<lparr>sch_state := Sch_disabled, sch_reason := Some ''Explicitly disabled; no future admission. Existing Runs are unchanged.''\<rparr>)
      | Op_revoke \<Rightarrow>
          (case sch_authorization p of Session_auth _ _ _ \<Rightarrow> Inl (Control_refused ''not a service grant'')
           | Service_auth _ _ _ _ _ _ \<Rightarrow> Inr (p\<lparr>sch_state := Sch_disabled, sch_authorization := revoke_auth (sch_authorization p),
               sch_reason := Some ''Service authorization explicitly revoked; future admission and not-yet-started service Runs are denied.''\<rparr>))
      | _ \<Rightarrow> rescheduled h op rq now p)"

definition modifySchedule :: "schedule_host \<Rightarrow> schedule_op \<Rightarrow> schedule_request \<Rightarrow> time \<Rightarrow> job_schedule option \<Rightarrow> schedule_error + job_schedule" where
  "modifySchedule h op rq now previous =
     (case scheduleId (rq_id rq) of Some e \<Rightarrow> Inl e | None \<Rightarrow>
      case previous of None \<Rightarrow> Inl (Control_refused ''not found'') | Some p \<Rightarrow>
      bind_result (authorizeSchedule h (sch_scope p) (sch_jobId p) (rq_caller rq) False) (\<lambda>_.
      if Some (sch_revision p) \<noteq> rq_expectedRevision rq then Inl (Control_refused ''revision changed'')
      else case sch_builtin p of
        Some b \<Rightarrow>
          if rq_jobId rq \<noteq> None \<or> rq_target rq \<noteq> None \<or> rq_authorization rq \<noteq> None then Inl (Control_refused ''builtin target fixed'')
          else updateProjectSync h p b op (rq_rule rq) (rq_grantId rq) now
      | None \<Rightarrow>
          bind_result (modified h op rq now p)
            (\<lambda>next. saveSchedule h (next\<lparr>sch_revision := sch_revision p + 1, sch_updatedAt := toISOString now\<rparr>))))"

text \<open>
  The schedule half of one iteration of \<open>reconcileProjectSync\<close>: the definition answered by the host is
  the one this iteration leaves in the store, and \<open>changed\<close> says that it was created or revised.
\<close>

definition sync_unavailable :: string where
  "sync_unavailable = ''Project sync unavailable: ''"

definition install_sync ::
  "schedule_host \<Rightarrow> string \<Rightarrow> job_view \<Rightarrow> string \<Rightarrow> string \<Rightarrow> string \<Rightarrow> string option \<Rightarrow> time \<Rightarrow> schedule_error + job_schedule" where
  "install_sync h projectId job zone grantId regrantId reason now =
     (let i = ''project-sync-'' @ projectId; rule = Cron ''0 */6 * * *'' zone in
      bind_result (nextScheduleDue h rule now) (\<lambda>due.
      bind_result (sh_serviceBinding h (i, Scope_global, i, Existing_job) grantId) (\<lambda>binding.
      let plan = \<lparr>sch_id = i, sch_scope = Scope_global, sch_jobId = i, sch_target = Existing_job, sch_rule = rule,
            sch_revision = 1, sch_generation = 1, sch_state = (if reason = None then Sch_enabled else Sch_needs_attention),
            sch_nextDue = due, sch_processedThrough = None,
            sch_authorization = Service_auth grantId True binding (jv_revision job) Issued_by_project_sync (toISOString now),
            sch_builtin = Some \<lparr>bp_projectId = projectId, bp_enabled = True\<rparr>, sch_lastAttempt = None, sch_reason = reason,
            sch_createdAt = toISOString now, sch_updatedAt = toISOString now\<rparr> in
      if reason \<noteq> None then saveSchedule h plan
      else bind_result (grant_sync h plan job regrantId now) (\<lambda>auth. saveSchedule h (plan\<lparr>sch_authorization := auth\<rparr>)))))"

definition resync :: "schedule_host \<Rightarrow> job_schedule \<Rightarrow> job_view \<Rightarrow> bool \<Rightarrow> string \<Rightarrow> string option \<Rightarrow> time \<Rightarrow> schedule_error + job_schedule" where
  "resync h plan job changed regrantId reason now =
     (let enabled = (case sch_builtin plan of None \<Rightarrow> False | Some b \<Rightarrow> bp_enabled b) in
      if reason \<noteq> None \<or> \<not> enabled then
        Inr (plan\<lparr>sch_state := (if enabled then Sch_needs_attention else Sch_disabled),
          sch_reason := (if reason = None then Some ''Project sync disabled by user.'' else reason),
          sch_authorization := revoke_auth (sch_authorization plan)\<rparr>)
      else if changed \<or> (\<exists>r \<in> set_option (sch_reason plan). prefix sync_unavailable r) then
        (let after = fence (sch_processedThrough plan) now in
         bind_result (nextScheduleDue h (sch_rule plan) after) (\<lambda>due.
         bind_result (grant_sync h plan job regrantId now) (\<lambda>auth.
         Inr (plan\<lparr>sch_reason := None, sch_state := Sch_enabled, sch_nextDue := due, sch_processedThrough := Some (toISOString after),
           sch_generation := sch_generation plan + 1, sch_authorization := auth\<rparr>))))
      else Inr plan)"

definition reconcileProjectSync ::
  "schedule_host \<Rightarrow> string \<Rightarrow> bool \<Rightarrow> string \<Rightarrow> string \<Rightarrow> string \<Rightarrow> time \<Rightarrow> job_schedule option \<Rightarrow> schedule_error + job_schedule option" where
  "reconcileProjectSync h projectId changed zone grantId regrantId now previous =
     (let i = ''project-sync-'' @ projectId in
      if (\<exists>job \<in> set_option (sh_definition h Scope_global i). \<not> jv_builtin job) \<or> (\<exists>p \<in> set_option previous. sch_builtin p = None)
      then Inl (Control_refused ''identity occupied'')
      else case sh_definition h Scope_global i of None \<Rightarrow> Inr previous
      | Some job \<Rightarrow>
          let reason = map_option (\<lambda>e. sync_unavailable @ sh_message h e) (sh_syncTarget h i) in
          case previous of
            None \<Rightarrow> bind_result (install_sync h projectId job zone grantId regrantId reason now) (\<lambda>s. Inr (Some s))
          | Some original \<Rightarrow>
              (case sch_authorization original of Session_auth _ _ _ \<Rightarrow> Inl (Control_refused ''service authority required'')
               | Service_auth _ _ _ _ _ _ \<Rightarrow>
                 bind_result (resync h original job changed regrantId reason now) (\<lambda>plan.
                   if plan = original then Inr previous
                   else bind_result (saveSchedule h (plan\<lparr>sch_revision := sch_revision original + 1, sch_updatedAt := toISOString now\<rparr>))
                     (\<lambda>s. Inr (Some s)))))"

subsection \<open>What saving a Task does to its schedules\<close>

definition task_over :: "task \<Rightarrow> bool" where
  "task_over t = (task_status t \<in> set [Completed, Cancelled, Archived])"

definition status_text :: "task_status \<Rightarrow> string" where
  "status_text st = (case st of Draft \<Rightarrow> ''draft'' | Active \<Rightarrow> ''active'' | Completed \<Rightarrow> ''completed'' | Cancelled \<Rightarrow> ''cancelled'' | Archived \<Rightarrow> ''archived'')"

definition schedule_after_task :: "schedule_host \<Rightarrow> task \<Rightarrow> job_schedule \<Rightarrow> schedule_error + job_schedule" where
  "schedule_after_task h t s =
     (if task_status t = Completed \<and> is_once (sch_rule s) \<and> sch_state s \<in> set [Sch_enabled, Sch_needs_attention]
      then Inl (Control_refused ''unfulfilled once schedule'')
      else if task_over t then
        (if sch_state s \<in> set [Sch_enabled, Sch_needs_attention] then
           saveSchedule h (s\<lparr>sch_state := Sch_retired, sch_revision := sch_revision s + 1,
             sch_reason := Some (''Task '' @ status_text (task_status t) @ ''; no future admission. Pending intent and Run history retained.''),
             sch_updatedAt := task_updatedAt t\<rparr>)
         else Inr s)
      else if task_executionGate t = Stopped \<and> sch_state s = Sch_enabled then
        saveSchedule h (s\<lparr>sch_state := Sch_needs_attention, sch_revision := sch_revision s + 1,
          sch_reason := Some ''Task execution stopped; inspect and explicitly enable after execution resumes.'',
          sch_updatedAt := task_updatedAt t\<rparr>)
      else Inr s)"

subsection \<open>The admission pass\<close>

definition requireScheduleService :: "schedule_host \<Rightarrow> job_schedule \<Rightarrow> schedule_error option" where
  "requireScheduleService h s =
     (case sch_authorization s of
        Session_auth _ _ _ \<Rightarrow> None
      | Service_auth grantId revoked binding revision _ _ \<Rightarrow>
          if revoked then Some (Control_refused ''authority revoked'')
          else case sh_definition h (sch_scope s) (sch_jobId s) of
            None \<Rightarrow> Some (Control_refused ''service target changed'')
          | Some source \<Rightarrow>
              if jv_revision source \<noteq> revision \<or>
                 sh_serviceBinding h (sch_id s, sch_scope s, sch_jobId s, sch_target s) grantId \<noteq> Inr binding
              then Some (Control_refused ''service target changed'')
              else when_some (sch_builtin s) (\<lambda>b.
                if \<not> bp_enabled b then Some (Control_refused ''sync disabled'') else sh_syncTarget h (sch_jobId s)))"

definition user_caller :: job_caller where
  "user_caller = \<lparr>cl_scope = Caller_user, cl_taskId = None, cl_role = None, cl_agentId = None, cl_adapterId = None,
     cl_nativeSessionId = None, cl_runId = None\<rparr>"

definition schedule_caller :: "job_schedule \<Rightarrow> job_caller" where
  "schedule_caller s = (case sch_authorization s of Session_auth c _ _ \<Rightarrow> c | Service_auth _ _ _ _ _ _ \<Rightarrow> user_caller)"

definition trigger_key :: "string \<Rightarrow> int \<Rightarrow> string \<Rightarrow> string" where
  "trigger_key i generation dueAt = i @ '':'' @ show_int generation @ '':'' @ dueAt"

definition task_unavailable :: "schedule_host \<Rightarrow> job_schedule \<Rightarrow> bool" where
  "task_unavailable h s =
     (case sch_scope s of Scope_global \<Rightarrow> False
      | Scope_task i \<Rightarrow> (case sh_task h i of None \<Rightarrow> True | Some t \<Rightarrow> task_status t \<noteq> Active \<or> task_executionGate t \<noteq> Enabled))"

definition binding_changed :: "schedule_host \<Rightarrow> job_schedule \<Rightarrow> bool" where
  "binding_changed h s =
     (case sch_authorization s of Session_auth c b _ \<Rightarrow> sh_sessionBinding h c (sch_scope s) \<noteq> b | Service_auth _ _ _ _ _ _ \<Rightarrow> False)"

definition advanced :: "job_schedule \<Rightarrow> string \<Rightarrow> time \<Rightarrow> time \<Rightarrow> admission \<Rightarrow> string option \<Rightarrow> job_schedule" where
  "advanced s dueAt after now a due =
     s\<lparr>sch_nextDue := due, sch_state := (if due = None then Sch_completed else Sch_enabled),
       sch_processedThrough := Some (toISOString after), sch_revision := sch_revision s + 1,
       sch_lastAttempt := Some \<lparr>sa_at = toISOString now, sa_dueAt = dueAt,
         sa_outcome = (if ad_overlap a then Attempt_overlap else Attempt_admitted), sa_runId = Some (ad_runId a),
         sa_jobId = Some (ad_jobId a), sa_generation = Some (sch_generation s), sa_reason = None\<rparr>,
       sch_updatedAt := toISOString now\<rparr>"

definition admitDue :: "schedule_host \<Rightarrow> time \<Rightarrow> string \<Rightarrow> job_schedule \<Rightarrow> schedule_error + job_schedule \<times> admission" where
  "admitDue h now dueAt s =
     (case requireScheduleService h s of Some e \<Rightarrow> Inl e | None \<Rightarrow>
      bind_result (authorizeSchedule h (sch_scope s) (sch_jobId s) (schedule_caller s) True) (\<lambda>job.
      if jv_revision job \<noteq> auth_jobRevision (sch_authorization s) \<or> binding_changed h s
      then Inl (Control_refused ''authority or revision changed'')
      else let after = fence (sch_processedThrough s) now in
        bind_result (sh_admit h s (trigger_key (sch_id s) (sch_generation s) dueAt) now) (\<lambda>a.
        bind_result (if ad_overlap a \<and> is_once (sch_rule s) then Inr (Some dueAt) else nextScheduleDue h (sch_rule s) after) (\<lambda>due.
        bind_result (saveSchedule h (advanced s dueAt after now a due)) (\<lambda>s'. Inr (s', a))))))"

definition due_at :: "job_schedule \<Rightarrow> time \<Rightarrow> string option" where
  "due_at s now =
     (case sch_nextDue s of None \<Rightarrow> None
      | Some d \<Rightarrow> if sch_state s = Sch_enabled \<and> date_of d \<le> now then Some d else None)"

text \<open>The first transaction of an iteration: nothing, needs-attention, or an admission.\<close>

definition admission_pass :: "schedule_host \<Rightarrow> time \<Rightarrow> job_schedule \<Rightarrow> schedule_error + job_schedule \<times> admission option" where
  "admission_pass h now s =
     (case due_at s now of None \<Rightarrow> Inr (s, None)
      | Some dueAt \<Rightarrow>
          if task_unavailable h s then
            bind_result (saveSchedule h (s\<lparr>sch_state := Sch_needs_attention, sch_revision := sch_revision s + 1,
              sch_reason := Some ''Task execution unavailable; pending intent retained.'', sch_updatedAt := toISOString now\<rparr>))
              (\<lambda>s'. Inr (s', None))
          else bind_result (admitDue h now dueAt s) (\<lambda>(s', a). Inr (s', Some a)))"

text \<open>The second transaction, which records an error of the first one on the unchanged schedule.\<close>

definition block_schedule :: "schedule_host \<Rightarrow> time \<Rightarrow> int \<Rightarrow> schedule_error \<Rightarrow> job_schedule \<Rightarrow> schedule_error + job_schedule" where
  "block_schedule h now candidate e s =
     (if sch_state s \<noteq> Sch_enabled \<or> sch_revision s \<noteq> candidate then Inr s
      else saveSchedule h (s\<lparr>sch_state := Sch_needs_attention, sch_reason := Some (sh_redact h (sh_message h e)), sch_revision := sch_revision s + 1,
        sch_lastAttempt := Some \<lparr>sa_at = toISOString now, sa_dueAt = (case sch_nextDue s of None \<Rightarrow> [] | Some d \<Rightarrow> d),
          sa_outcome = Attempt_blocked, sa_runId = None, sa_jobId = None, sa_generation = Some (sch_generation s),
          sa_reason = Some (sh_redact h (sh_message h e))\<rparr>, sch_updatedAt := toISOString now\<rparr>))"

definition reconcileSchedule :: "schedule_host \<Rightarrow> time \<Rightarrow> int \<Rightarrow> job_schedule \<Rightarrow> schedule_error + job_schedule \<times> admission option" where
  "reconcileSchedule h now candidate s =
     (case admission_pass h now s of
        Inr r \<Rightarrow> Inr r
      | Inl e \<Rightarrow> bind_result (block_schedule h now candidate e s) (\<lambda>s'. Inr (s', None)))"

subsection \<open>The table and its commands\<close>

text \<open>
  The table of the store by scope and id, and the log of the admissions that started a run. A command carries
  the environment and the clock it runs with. A refused command leaves the table as it was, so the runs below
  list the commands that were carried out.
\<close>

record firing =
  fr_scope :: job_scope
  fr_id :: string
  fr_generation :: int
  fr_dueAt :: string
  fr_at :: time

type_synonym schedule_rows = "((job_scope \<times> string) \<times> job_schedule) list"
type_synonym schedule_db = "schedule_rows \<times> firing list"

datatype schedule_command =
    Create schedule_request
  | Modify schedule_op schedule_request
  | Sync_project string bool string string string
  | Task_saved task
  | Reconcile "job_scope \<times> string" int

definition put_schedule :: "job_schedule \<Rightarrow> schedule_rows \<Rightarrow> schedule_rows" where
  "put_schedule s rows = AList.update (sch_scope s, sch_id s) s rows"

definition createScheduleControl ::
  "schedule_host \<Rightarrow> time \<Rightarrow> schedule_op option \<Rightarrow> schedule_request \<Rightarrow> schedule_rows \<Rightarrow> schedule_error + job_schedule" where
  "createScheduleControl h now op rq rows =
     (case sh_authorizeScope h (rq_scope rq) (rq_caller rq) of Some e \<Rightarrow> Inl e | None \<Rightarrow>
      let previous = map_of rows (rq_scope rq, rq_id rq) in
      case op of None \<Rightarrow> createSchedule h rq now previous | Some op' \<Rightarrow> modifySchedule h op' rq now previous)"

definition save_task_rows :: "schedule_host \<Rightarrow> task \<Rightarrow> schedule_rows \<Rightarrow> schedule_error + schedule_rows" where
  "save_task_rows h t = map_result (\<lambda>(k, s). if fst k = Scope_task (task_id t)
     then bind_result (schedule_after_task h t s) (\<lambda>s'. Inr (k, s')) else Inr (k, s))"

definition firing_of :: "job_schedule \<Rightarrow> time \<Rightarrow> firing" where
  "firing_of s now = \<lparr>fr_scope = sch_scope s, fr_id = sch_id s, fr_generation = sch_generation s,
     fr_dueAt = (case sch_nextDue s of None \<Rightarrow> [] | Some d \<Rightarrow> d), fr_at = now\<rparr>"

definition started :: "admission option \<Rightarrow> bool" where
  "started a = (\<exists>x \<in> set_option a. \<not> ad_overlap x)"

fun schedule_step :: "schedule_host \<times> time \<times> schedule_command \<Rightarrow> schedule_db \<Rightarrow> schedule_error + schedule_db" where
  "schedule_step (h, now, Create rq) (rows, log) =
     bind_result (createScheduleControl h now None rq rows) (\<lambda>s. Inr (put_schedule s rows, log))"
| "schedule_step (h, now, Modify op rq) (rows, log) =
     bind_result (createScheduleControl h now (Some op) rq rows) (\<lambda>s. Inr (put_schedule s rows, log))"
| "schedule_step (h, now, Sync_project projectId changed zone grantId regrantId) (rows, log) =
     bind_result (reconcileProjectSync h projectId changed zone grantId regrantId now
         (map_of rows (Scope_global, ''project-sync-'' @ projectId)))
       (\<lambda>s. Inr (case s of None \<Rightarrow> rows | Some s' \<Rightarrow> put_schedule s' rows, log))"
| "schedule_step (h, now, Task_saved t) (rows, log) =
     bind_result (save_task_rows h t rows) (\<lambda>rows'. Inr (rows', log))"
| "schedule_step (h, now, Reconcile k candidate) (rows, log) =
     (case map_of rows k of None \<Rightarrow> Inr (rows, log)
      | Some s \<Rightarrow> bind_result (reconcileSchedule h now candidate s)
          (\<lambda>(s', a). Inr (put_schedule s' rows, if started a then firing_of s now # log else log)))"

definition firing_key :: "firing \<Rightarrow> job_scope \<times> string" where
  "firing_key f = (fr_scope f, trigger_key (fr_id f) (fr_generation f) (fr_dueAt f))"

definition cron_forward :: "schedule_host \<Rightarrow> bool" where
  "cron_forward h \<longleftrightarrow> (\<forall>e z t u. sh_cronNext h e z t = Some u \<longrightarrow> t < u)"

definition schedule_admissible :: "schedule_host \<times> time \<times> schedule_command \<Rightarrow> bool" where
  "schedule_admissible c \<longleftrightarrow> cron_forward (fst c) \<and> valid_time (fst (snd c))"

subsection \<open>The next occurrence is after the fence\<close>

lemma date_of_toISOString [simp]: "valid_time t \<Longrightarrow> date_of (toISOString t) = t"
  by (simp add: date_of_def)

lemma valid_date_of [simp]: "valid_time (date_of s)"
  by (auto simp: date_of_def valid_time_def max_time_def dest!: Date_parse_valid split: option.splits)

lemma fence_bounds:
  "now \<le> fence p now" "p = Some q \<Longrightarrow> date_of q \<le> fence p now" "valid_time now \<Longrightarrow> valid_time (fence p now)"
  using valid_date_of by (auto simp: fence_def valid_time_def max_time_def split: option.splits)

lemma interval_after:
  fixes every :: int
  assumes "0 < every"
  shows "after < anchor + max 0 ((after - anchor) div every + 1) * every"
proof -
  have "after - anchor < ((after - anchor) div every + 1) * every"
    using assms pos_mod_bound [of every "after - anchor"] div_mult_mod_eq [of "after - anchor" every]
    unfolding distrib_right by linarith
  also have "\<dots> \<le> max 0 ((after - anchor) div every + 1) * every"
    using assms by (intro mult_right_mono) auto
  finally show ?thesis by linarith
qed

lemma next_due_after:
  assumes "nextScheduleDue h rule after = Inr (Some d)" "cron_forward h"
  shows "after < date_of d"
  using assms interval_after
  by (auto simp: nextScheduleDue_def bind_result_Inr date_text_def validateScheduleRule_def reject_def
      cron_forward_def split: option.splits schedule_rule.splits if_splits)

subsection \<open>Firings stay behind\<close>

definition passed :: "job_schedule \<Rightarrow> firing \<Rightarrow> bool" where
  "passed s f \<longleftrightarrow> fr_generation f \<le> sch_generation s \<and>
     (\<exists>p. sch_processedThrough s = Some p \<and> date_of (fr_dueAt f) \<le> date_of p) \<and>
     (fr_generation f = sch_generation s \<longrightarrow> (\<forall>d \<in> set_option (sch_nextDue s). date_of (fr_dueAt f) < date_of d))"

definition advances :: "job_schedule \<Rightarrow> job_schedule \<Rightarrow> bool" where
  "advances s t \<longleftrightarrow> sch_scope t = sch_scope s \<and> sch_id t = sch_id s \<and> (\<forall>f. passed s f \<longrightarrow> passed t f)"

lemma advances_same:
  assumes "sch_scope t = sch_scope s" "sch_id t = sch_id s" "sch_generation t = sch_generation s"
    "sch_nextDue t = sch_nextDue s" "sch_processedThrough t = sch_processedThrough s"
  shows "advances s t"
  using assms by (simp add: advances_def passed_def)

lemma advances_fence:
  assumes "sch_scope t = sch_scope s" "sch_id t = sch_id s" "sch_generation s \<le> sch_generation t"
    and t: "sch_processedThrough t = Some (toISOString (fence (sch_processedThrough s) now))" "valid_time now"
    and d: "sch_generation s < sch_generation t \<or> sch_nextDue t = sch_nextDue s \<or>
      (\<forall>d \<in> set_option (sch_nextDue t). fence (sch_processedThrough s) now < date_of d)"
  shows "advances s t"
proof -
  let ?a = "fence (sch_processedThrough s) now"
  have a: "date_of (toISOString ?a) = ?a" using t(2) fence_bounds(3) by simp
  have "passed t f" if f: "passed s f" for f
  proof -
    obtain p where p: "sch_processedThrough s = Some p" "date_of (fr_dueAt f) \<le> date_of p"
      using f by (auto simp: passed_def)
    then have le: "date_of (fr_dueAt f) \<le> ?a" using fence_bounds(2) [OF p(1), of now] by simp
    show ?thesis using f assms(3) t(1) d le a by (fastforce simp: passed_def)
  qed
  then show ?thesis using assms(1,2) by (simp add: advances_def)
qed

lemma saved: "saveSchedule h s = Inr t \<Longrightarrow> t = s \<and> plain_identity (sch_id s)"
  by (auto simp: saveSchedule_def validateSchedule_def check_def scheduleId_def reject_def split: option.splits if_splits)

lemma advances_trans: "advances s t \<Longrightarrow> advances t u \<Longrightarrow> advances s u"
  by (simp add: advances_def)

lemma advances_stamp: "advances s t \<Longrightarrow> advances s (t\<lparr>sch_revision := r, sch_updatedAt := u\<rparr>)"
  by (erule advances_trans) (rule advances_same, simp_all)

lemma resync_advances:
  assumes "resync h s job changed g reason now = Inr t" "valid_time now"
  shows "advances s t"
proof -
  have "sch_scope t = sch_scope s \<and> sch_id t = sch_id s \<and>
    (sch_generation t = sch_generation s \<and> sch_nextDue t = sch_nextDue s \<and> sch_processedThrough t = sch_processedThrough s \<or>
     sch_generation t = sch_generation s + 1 \<and>
       sch_processedThrough t = Some (toISOString (fence (sch_processedThrough s) now)))"
    using assms(1) by (auto simp: resync_def Let_def bind_result_Inr split: if_splits option.splits)
  then show ?thesis using assms(2) by (elim conjE disjE) (auto intro: advances_same advances_fence)
qed

lemma due_after:
  assumes "nextScheduleDue h rule after = Inr due" "cron_forward h"
  shows "\<forall>d \<in> set_option due. after < date_of d"
  using assms next_due_after by (cases due) auto

lemma advances_due:
  assumes "sch_scope t = sch_scope s" "sch_id t = sch_id s" "sch_generation s \<le> sch_generation t"
    and t: "sch_processedThrough t = Some (toISOString (fence (sch_processedThrough s) now))"
    and d: "sch_nextDue t = sch_nextDue s \<or> (\<exists>rule. nextScheduleDue h rule (fence (sch_processedThrough s) now) = Inr (sch_nextDue t))"
    and env: "cron_forward h" "valid_time now"
  shows "advances s t"
proof (rule advances_fence [OF assms(1-3) t env(2)])
  show "sch_generation s < sch_generation t \<or> sch_nextDue t = sch_nextDue s \<or>
    (\<forall>d \<in> set_option (sch_nextDue t). fence (sch_processedThrough s) now < date_of d)"
    using d due_after [OF _ env(1)] by blast
qed

lemma replanned_sel [simp]:
  "sch_scope (replanned s op j g r d a u) = sch_scope s" "sch_id (replanned s op j g r d a u) = sch_id s"
  "sch_generation (replanned s op j g r d a u) = sch_generation s + (if op = Op_update then 1 else 0)"
  "sch_nextDue (replanned s op j g r d a u) = d" "sch_processedThrough (replanned s op j g r d a u) = Some (toISOString a)"
  by (simp_all add: replanned_def)

lemma sync_next_sel [simp]:
  "sch_scope (sync_next s b e op r d a n) = sch_scope s" "sch_id (sync_next s b e op r d a n) = sch_id s"
  "sch_generation (sync_next s b e op r d a n) = sch_generation s + (if op = Op_update then 1 else 0)"
  "sch_nextDue (sync_next s b e op r d a n) = d" "sch_processedThrough (sync_next s b e op r d a n) = Some (toISOString a)"
  by (simp_all add: sync_next_def)

lemma advanced_sel [simp]:
  "sch_scope (advanced s d a n x e) = sch_scope s" "sch_id (advanced s d a n x e) = sch_id s"
  "sch_generation (advanced s d a n x e) = sch_generation s" "sch_nextDue (advanced s d a n x e) = e"
  "sch_processedThrough (advanced s d a n x e) = Some (toISOString a)"
  by (simp_all add: advanced_def)

lemma replan_shape:
  assumes "replan h op rq now s jobId target r = Inr t"
  shows "\<exists>rule due auth. t = replanned s op jobId target rule due (fence (sch_processedThrough s) now) auth \<and>
    (due = sch_nextDue s \<or> nextScheduleDue h rule (fence (sch_processedThrough s) now) = Inr due)"
  using assms unfolding replan_def Let_def
  by (simp split: if_split_asm option.split_asm add: bind_result_Inr) blast+

lemma rescheduled_shape:
  assumes "rescheduled h op rq now s = Inr t"
  shows "\<exists>jobId target rule due auth. t = replanned s op jobId target rule due (fence (sch_processedThrough s) now) auth \<and>
    (due = sch_nextDue s \<or> nextScheduleDue h rule (fence (sch_processedThrough s) now) = Inr due)"
proof -
  obtain jobId target r where "replan h op rq now s jobId target r = Inr t"
    using assms by (auto simp: rescheduled_def split: if_split_asm)
  from replan_shape [OF this] show ?thesis by blast
qed

lemma rescheduled_advances:
  assumes "rescheduled h op rq now s = Inr t" "cron_forward h" "valid_time now"
  shows "advances s t"
proof -
  obtain jobId target rule due auth where t: "t = replanned s op jobId target rule due (fence (sch_processedThrough s) now) auth"
    and due: "due = sch_nextDue s \<or> nextScheduleDue h rule (fence (sch_processedThrough s) now) = Inr due"
    using rescheduled_shape [OF assms(1)] by blast
  show ?thesis unfolding t using due by (intro advances_due [OF _ _ _ _ _ assms(2,3)]) auto
qed

lemma sync_update_shape:
  assumes "updateProjectSync h s b op rule g now = Inr t"
  shows "\<exists>enabled rule due auth reason. nextScheduleDue h rule (fence (sch_processedThrough s) now) = Inr due \<and>
    t = (sync_next s b enabled op rule due (fence (sch_processedThrough s) now) now)\<lparr>sch_reason := reason, sch_authorization := auth\<rparr>"
proof -
  have r: "sch_reason (sync_next s b e op r d a now) = None" for e r d a by (simp add: sync_next_def)
  have u: "u\<lparr>sch_authorization := a\<rparr> = u\<lparr>sch_reason := None, sch_authorization := a\<rparr>" if "sch_reason u = None" for u :: job_schedule and a
    using that by simp
  show ?thesis
    using assms unfolding updateProjectSync_def Let_def
    by (simp split: if_split_asm option.split_asm schedule_authorization.split_asm add: bind_result_Inr)
       (metis saved r u)+
qed

lemma sync_update_advances:
  assumes "updateProjectSync h s b op rule g now = Inr t" "cron_forward h" "valid_time now"
  shows "advances s t"
proof -
  obtain enabled rule due auth reason where due: "nextScheduleDue h rule (fence (sch_processedThrough s) now) = Inr due"
    and t: "t = (sync_next s b enabled op rule due (fence (sch_processedThrough s) now) now)\<lparr>sch_reason := reason, sch_authorization := auth\<rparr>"
    using sync_update_shape [OF assms(1)] by blast
  show ?thesis unfolding t using due by (intro advances_due [OF _ _ _ _ _ assms(2,3)]) auto
qed

lemma modified_advances:
  assumes "modified h op rq now s = Inr t" "cron_forward h" "valid_time now"
  shows "advances s t"
proof (cases "op \<in> {Op_enable, Op_update}")
  case True
  then show ?thesis using assms rescheduled_advances by (auto simp: modified_def)
next
  case False
  then show ?thesis using assms(1)
    by (cases op) (auto simp: modified_def intro!: advances_same split: schedule_authorization.splits)
qed

lemma modify_advances:
  assumes "modifySchedule h op rq now previous = Inr t" "cron_forward h" "valid_time now"
  shows "\<exists>s. previous = Some s \<and> advances s t"
proof -
  consider s b r g where "previous = Some s" "updateProjectSync h s b op r g now = Inr t"
    | s u where "previous = Some s" "modified h op rq now s = Inr u"
        "t = u\<lparr>sch_revision := sch_revision s + 1, sch_updatedAt := toISOString now\<rparr>"
    using assms(1) by (auto simp: modifySchedule_def bind_result_Inr dest!: saved split: if_split_asm option.split_asm)
  then show ?thesis
  proof cases
    case 1
    then show ?thesis using sync_update_advances assms(2,3) by blast
  next
    case 2
    then show ?thesis using modified_advances [OF 2(2) assms(2,3)] advances_stamp by blast
  qed
qed

lemma task_effect_advances: "schedule_after_task h task s = Inr t \<Longrightarrow> advances s t"
  by (auto simp: schedule_after_task_def dest!: saved intro!: advances_same split: if_splits)

lemma admission_advances:
  assumes "admitDue h now dueAt s = Inr (t, a)" "sch_nextDue s = Some dueAt" "date_of dueAt \<le> now" "cron_forward h" "valid_time now"
  shows "advances s t \<and> plain_identity (sch_id s) \<and> (\<not> ad_overlap a \<longrightarrow> passed t (firing_of s now))"
proof -
  let ?a = "fence (sch_processedThrough s) now"
  have "\<exists>due. t = advanced s dueAt ?a now a due \<and> plain_identity (sch_id s) \<and>
      (ad_overlap a \<and> due = sch_nextDue s \<or> nextScheduleDue h (sch_rule s) ?a = Inr due)"
    using assms(1,2) unfolding admitDue_def Let_def
    by (simp split: if_split_asm option.split_asm add: bind_result_Inr) (metis saved advanced_sel(2))+
  then obtain due where t: "t = advanced s dueAt ?a now a due" "plain_identity (sch_id s)"
    and due: "ad_overlap a \<and> due = sch_nextDue s \<or> nextScheduleDue h (sch_rule s) ?a = Inr due" by blast
  have "advances s t"
    unfolding t using due by (intro advances_due [OF _ _ _ _ _ assms(4,5)]) auto
  moreover have "passed t (firing_of s now)" if "\<not> ad_overlap a"
  proof -
    have "\<forall>d \<in> set_option due. ?a < date_of d" using that due due_after [OF _ assms(4)] by blast
    moreover have "now \<le> ?a" "date_of (toISOString ?a) = ?a" using fence_bounds assms(5) by simp_all
    ultimately show ?thesis using assms(2,3) by (auto simp: passed_def firing_of_def t)
  qed
  ultimately show ?thesis using t(2) by blast
qed

lemma block_advances: "block_schedule h now candidate e s = Inr t \<Longrightarrow> advances s t"
  by (auto simp: block_schedule_def dest!: saved intro!: advances_same split: if_split_asm)

lemma attention_advances: "advances s (s\<lparr>sch_state := v, sch_revision := n, sch_reason := r, sch_updatedAt := u\<rparr>)"
  by (rule advances_same) simp_all

lemma reconcile_cases:
  assumes "reconcileSchedule h now candidate s = Inr (t, a)"
  shows "(\<exists>d x. a = Some x \<and> admitDue h now d s = Inr (t, x) \<and> sch_nextDue s = Some d \<and> date_of d \<le> now) \<or>
    a = None \<and> advances s t"
proof (cases "admission_pass h now s")
  case (Inl e)
  then show ?thesis using assms block_advances by (auto simp: reconcileSchedule_def bind_result_Inr)
next
  case (Inr r)
  then have "admission_pass h now s = Inr (t, a)" using assms by (simp add: reconcileSchedule_def)
  then show ?thesis
    by (auto simp: admission_pass_def due_at_def bind_result_Inr attention_advances advances_same dest!: saved
        split: if_split_asm option.split_asm)
qed

lemma reconcile_advances:
  assumes "reconcileSchedule h now candidate s = Inr (t, a)" "cron_forward h" "valid_time now"
  shows "advances s t"
    and "started a \<Longrightarrow> plain_identity (sch_id s) \<and> passed t (firing_of s now) \<and>
      (\<exists>d. sch_nextDue s = Some d \<and> date_of d \<le> now)"
  using reconcile_cases [OF assms(1)] admission_advances [OF _ _ _ assms(2,3)] by (fastforce simp: started_def)+

subsection \<open>The table\<close>

lemma map_of_put: "map_of (put_schedule s rows) = (map_of rows)((sch_scope s, sch_id s) \<mapsto> s)"
  by (simp add: put_schedule_def AList.update_conv')

lemma map_of_save_task:
  assumes "save_task_rows h t rows = Inr rows'"
  shows "rel_option advances (map_of rows k) (map_of rows' k)"
  using assms
proof (induction rows arbitrary: rows')
  case Nil
  then show ?case by (simp add: save_task_rows_def)
next
  case (Cons r rows)
  then show ?case
    by (cases r) (auto simp: save_task_rows_def bind_result_Inr intro: task_effect_advances advances_same split: if_splits)
qed

lemma mark_chars: "\<not> is_alnum CHR '':''" "\<not> is_digit CHR '':''" "\<not> is_digit CHR ''-''"
  by code_simp+

lemma show_int_colon: "CHR '':'' \<notin> set (show_int n)"
  using show_nat_digits mark_chars(2) unfolding show_int_def by (auto split: if_splits)

lemma show_int_inject [simp]: "show_int m = show_int n \<longleftrightarrow> m = n"
proof -
  have "CHR ''-'' # s \<noteq> show_nat k" for s k
    using show_nat_digits [of k] mark_chars(3) by (metis list.set_intros(1))
  then have "m = n" if "show_int m = show_int n"
    using that by (cases "m < 0"; cases "n < 0") (simp_all add: show_int_def, metis)
  then show ?thesis by blast
qed

lemma split_colon:
  "CHR '':'' \<notin> set a \<Longrightarrow> CHR '':'' \<notin> set b \<Longrightarrow> a @ CHR '':'' # x = b @ CHR '':'' # y \<longleftrightarrow> a = b \<and> x = y"
proof (induction a arbitrary: b)
  case Nil
  then show ?case by (cases b) auto
next
  case (Cons c a)
  then show ?case by (cases b) auto
qed

lemma plain_identity_colon: "plain_identity i \<Longrightarrow> CHR '':'' \<notin> set i"
  using mark_chars(1) by (cases i) (auto simp: plain_identity_def list_all_iff)

lemma trigger_key_inject:
  assumes "plain_identity i" "plain_identity j" "trigger_key i m d = trigger_key j n e"
  shows "i = j \<and> m = n \<and> d = e"
  using assms plain_identity_colon by (auto simp: trigger_key_def split_colon show_int_colon)

definition schedule_inv :: "schedule_db \<Rightarrow> bool" where
  "schedule_inv db \<longleftrightarrow>
     (\<forall>k s. map_of (fst db) k = Some s \<longrightarrow> (sch_scope s, sch_id s) = k \<and>
        (\<forall>f \<in> set (snd db). (fr_scope f, fr_id f) = k \<longrightarrow> passed s f)) \<and>
     (\<forall>f \<in> set (snd db). plain_identity (fr_id f) \<and> map_of (fst db) (fr_scope f, fr_id f) \<noteq> None \<and> date_of (fr_dueAt f) \<le> fr_at f) \<and>
     distinct (map firing_key (snd db))"

lemma inv_key: "schedule_inv (rows, log) \<Longrightarrow> map_of rows k = Some s \<Longrightarrow> (sch_scope s, sch_id s) = k"
  by (cases k) (auto simp: schedule_inv_def)

lemma inv_rows:
  assumes inv: "schedule_inv (rows, log)"
    and rows: "\<And>k. (case map_of rows k of
        None \<Rightarrow> \<forall>s. map_of rows' k = Some s \<longrightarrow> (sch_scope s, sch_id s) = k
      | Some s \<Rightarrow> \<exists>t. map_of rows' k = Some t \<and> advances s t)"
  shows "schedule_inv (rows', log)"
proof -
  have log: "\<exists>s t. map_of rows (fr_scope f, fr_id f) = Some s \<and> map_of rows' (fr_scope f, fr_id f) = Some t \<and> advances s t \<and> passed s f"
    if "f \<in> set log" for f
    using inv that rows [of "(fr_scope f, fr_id f)"] by (force simp: schedule_inv_def split: option.splits)
  have key: "(sch_scope t, sch_id t) = k" if "map_of rows' k = Some t" for k t
    using inv_key [OF inv, of k] that rows [of k] by (cases "map_of rows k") (auto simp: advances_def)
  show ?thesis unfolding schedule_inv_def
  proof (intro conjI allI impI ballI)
    fix k s assume "map_of (fst (rows', log)) k = Some s"
    then show "(sch_scope s, sch_id s) = k" using key by simp
  next
    fix k s f assume "map_of (fst (rows', log)) k = Some s" "f \<in> set (snd (rows', log))" "(fr_scope f, fr_id f) = k"
    then show "passed s f" using log [of f] by (auto simp: advances_def)
  next
    fix f assume f: "f \<in> set (snd (rows', log))"
    then show "map_of (fst (rows', log)) (fr_scope f, fr_id f) \<noteq> None" using log by fastforce
    show "plain_identity (fr_id f)" "date_of (fr_dueAt f) \<le> fr_at f" using inv f by (auto simp: schedule_inv_def)
  next
    show "distinct (map firing_key (snd (rows', log)))" using inv by (simp add: schedule_inv_def)
  qed
qed

lemma inv_put:
  assumes "schedule_inv (rows, log)"
    and "\<And>s. map_of rows (sch_scope t, sch_id t) = Some s \<Longrightarrow> advances s t"
  shows "schedule_inv (put_schedule t rows, log)"
  using assms by (intro inv_rows [OF assms(1)]) (auto simp: map_of_put advances_same split: option.splits)

lemma inv_fire:
  assumes inv: "schedule_inv (rows, log)" and s: "map_of rows k = Some s" "advances s t"
    and f: "plain_identity (sch_id s)" "passed t (firing_of s now)" "sch_nextDue s = Some d" "date_of d \<le> now"
  shows "schedule_inv (put_schedule t rows, firing_of s now # log)"
proof -
  let ?f = "firing_of s now"
  have k: "(sch_scope s, sch_id s) = k" by (rule inv_key [OF inv s(1)])
  have put: "schedule_inv (put_schedule t rows, log)"
    by (rule inv_put [OF inv]) (use s k in \<open>auto simp: advances_def\<close>)
  have fresh: "firing_key g \<noteq> firing_key ?f" if g: "g \<in> set log" for g
  proof
    assume eq: "firing_key g = firing_key ?f"
    have "plain_identity (fr_id g)" using inv g by (auto simp: schedule_inv_def)
    then have same: "fr_scope g = sch_scope s \<and> fr_id g = sch_id s \<and> fr_generation g = sch_generation s \<and> fr_dueAt g = d"
      using eq f(1,3) trigger_key_inject [of "fr_id g" "sch_id s"] by (auto simp: firing_key_def firing_of_def)
    then have "passed s g" using inv s(1) k g by (auto simp: schedule_inv_def)
    then show False using same f(3) by (auto simp: passed_def)
  qed
  have "map_of (put_schedule t rows) (sch_scope s, sch_id s) = Some t" using s(2) by (auto simp: map_of_put advances_def)
  moreover have "fr_scope ?f = sch_scope s" "fr_id ?f = sch_id s" "fr_dueAt ?f = d" "fr_at ?f = now"
    using f(3) by (simp_all add: firing_of_def)
  ultimately show ?thesis using put fresh f(1,2,4) unfolding schedule_inv_def by (force simp: image_iff)
qed

definition written :: "job_scope \<times> string \<Rightarrow> job_schedule option \<Rightarrow> job_schedule \<Rightarrow> bool" where
  "written k previous t = (case previous of None \<Rightarrow> (sch_scope t, sch_id t) = k | Some s \<Rightarrow> advances s t)"

lemma inv_write:
  assumes inv: "schedule_inv (rows, log)" and t: "written k (map_of rows k) t"
  shows "schedule_inv (put_schedule t rows, log)"
proof (rule inv_put [OF inv])
  have "(sch_scope t, sch_id t) = k"
    using t inv_key [OF inv, of k] by (auto simp: written_def advances_def split: option.splits)
  then show "advances s t" if "map_of rows (sch_scope t, sch_id t) = Some s" for s
    using that t by (simp add: written_def)
qed

lemma create_written:
  assumes "createSchedule h rq now previous = Inr t"
  shows "written (rq_scope rq, rq_id rq) previous t"
proof (cases previous)
  case None
  then show ?thesis using assms
    by (auto simp: createSchedule_def Let_def bind_result_Inr written_def validateSchedule_def check_def
        dest!: saved split: if_split_asm option.split_asm)
next
  case (Some p)
  then have "t = p" using assms
    by (auto simp: createSchedule_def bind_result_Inr split: if_split_asm option.split_asm)
  then show ?thesis using Some by (simp add: written_def advances_same)
qed

lemma control_written:
  assumes "createScheduleControl h now op rq rows = Inr t" "cron_forward h" "valid_time now"
  shows "written (rq_scope rq, rq_id rq) (map_of rows (rq_scope rq, rq_id rq)) t"
proof (cases op)
  case None
  then show ?thesis using assms(1) by (auto simp: createScheduleControl_def Let_def intro: create_written split: option.split_asm)
next
  case (Some op')
  then have "modifySchedule h op' rq now (map_of rows (rq_scope rq, rq_id rq)) = Inr t"
    using assms(1) by (auto simp: createScheduleControl_def Let_def split: option.split_asm)
  from modify_advances [OF this assms(2,3)] show ?thesis by (auto simp: written_def)
qed

lemma install_written:
  "install_sync h projectId job zone g g' reason now = Inr t \<Longrightarrow> written (Scope_global, ''project-sync-'' @ projectId) None t"
  by (auto simp: install_sync_def Let_def bind_result_Inr written_def dest!: saved split: if_split_asm)

lemma sync_written:
  assumes "reconcileProjectSync h projectId changed zone g g' now previous = Inr (Some t)" "valid_time now"
  shows "written (Scope_global, ''project-sync-'' @ projectId) previous t"
proof (cases previous)
  case None
  then show ?thesis using assms(1) install_written
    by (auto simp: reconcileProjectSync_def Let_def bind_result_Inr split: if_split_asm option.split_asm)
next
  case (Some s)
  have "t = s \<or> (\<exists>job reason u. resync h s job changed g' reason now = Inr u \<and>
      saveSchedule h (u\<lparr>sch_revision := sch_revision s + 1, sch_updatedAt := toISOString now\<rparr>) = Inr t)"
    using assms(1) unfolding Some reconcileProjectSync_def Let_def
    by (simp add: bind_result_Inr split: if_split_asm option.split_asm schedule_authorization.split_asm) blast+
  then show ?thesis
    by (auto simp: Some written_def dest!: saved resync_advances [OF _ assms(2)] intro: advances_stamp advances_same)
qed

lemma schedule_step_inv:
  assumes "schedule_inv db" "schedule_admissible c" "schedule_step c db = Inr db'"
  shows "schedule_inv db'"
proof -
  obtain h now cmd where c: "c = (h, now, cmd)" by (cases c)
  obtain rows log where db: "db = (rows, log)" by (cases db)
  have env: "cron_forward h" "valid_time now" and inv: "schedule_inv (rows, log)"
    using assms(1,2) by (auto simp: schedule_admissible_def c db)
  show ?thesis
  proof (cases cmd)
    case (Create rq)
    then show ?thesis using assms(3) by (auto simp: c db bind_result_Inr intro!: inv_write [OF inv control_written [OF _ env]])
  next
    case (Modify op rq)
    then show ?thesis using assms(3) by (auto simp: c db bind_result_Inr intro!: inv_write [OF inv control_written [OF _ env]])
  next
    case (Sync_project projectId changed zone g g')
    then show ?thesis using assms(3) inv
      by (auto simp: c db bind_result_Inr intro!: inv_write [OF inv sync_written [OF _ env(2)]] split: option.splits)
  next
    case (Task_saved t)
    then obtain rows' where r: "save_task_rows h t rows = Inr rows'" "db' = (rows', log)"
      using assms(3) by (auto simp: c db bind_result_Inr)
    show ?thesis unfolding r(2)
    proof (rule inv_rows [OF inv])
      fix k show "case map_of rows k of None \<Rightarrow> \<forall>s. map_of rows' k = Some s \<longrightarrow> (sch_scope s, sch_id s) = k
        | Some s \<Rightarrow> \<exists>t. map_of rows' k = Some t \<and> advances s t"
        using map_of_save_task [OF r(1), of k] by (cases "map_of rows k"; cases "map_of rows' k") auto
    qed
  next
    case (Reconcile k candidate)
    show ?thesis
    proof (cases "map_of rows k")
      case None
      then show ?thesis using assms(3) inv Reconcile by (simp add: c db)
    next
      case (Some s)
      then obtain t a where r: "reconcileSchedule h now candidate s = Inr (t, a)"
        "db' = (put_schedule t rows, if started a then firing_of s now # log else log)"
        using assms(3) Reconcile by (auto simp: c db bind_result_Inr)
      note adv = reconcile_advances [OF r(1) env]
      show ?thesis
        using inv_fire [OF inv Some adv(1)] adv(2) inv_write [OF inv, of k t] adv(1) Some r(2)
        by (auto simp: written_def)
    qed
  qed
qed

interpretation schedules: command_system schedule_inv schedule_step schedule_admissible
  by unfold_locales (rule schedule_step_inv)

lemma empty_schedules_inv: "schedule_inv ([], [])"
  by (simp add: schedule_inv_def)

subsection \<open>What is proved\<close>

text \<open>
  C33. No trigger of a schedule is admitted twice: over every sequence of control operations, built-in sync
  passes, saved Tasks and admission passes, in whatever order and with whatever clock readings (a clock that
  runs backwards included), the admissions that started a run have pairwise different trigger keys within a
  scope, and none happens before its due instant.\<close>

theorem schedule_fires_once:
  assumes "list_all schedule_admissible cs" "run_commands schedule_step cs ([], []) = Inr (rows, log)"
  shows "distinct (map firing_key log) \<and> (\<forall>f \<in> set log. date_of (fr_dueAt f) \<le> fr_at f)"
  using schedules.run_valid [OF empty_schedules_inv assms] by (auto simp: schedule_inv_def)

lemma least_multiple:
  fixes every :: int
  assumes "0 < every" "0 \<le> j" "after < anchor + j * every"
  shows "max 0 ((after - anchor) div every + 1) \<le> j"
proof -
  have "(after - anchor) div every < j"
  proof (rule ccontr)
    assume "\<not> (after - anchor) div every < j"
    then have "j * every \<le> (after - anchor) div every * every" using assms(1) by (intro mult_right_mono) auto
    also have "\<dots> \<le> after - anchor"
      using pos_mod_sign [OF assms(1), of "after - anchor"] div_mult_mod_eq [of "after - anchor" every] by linarith
    finally show False using assms(3) by linarith
  qed
  then show ?thesis using assms(2) by simp
qed

lemma interval_due:
  assumes v: "validateScheduleRule h (Interval anchor every) = None"
  shows "\<exists>k \<ge> 0. after < date_of anchor + k * every \<and> (\<forall>j \<ge> 0. after < date_of anchor + j * every \<longrightarrow> k \<le> j) \<and>
       nextScheduleDue h (Interval anchor every) after =
         (if valid_time (date_of anchor + k * every) then Inr (Some (toISOString (date_of anchor + k * every))) else Inl Date_out_of_range)"
proof (intro exI conjI)
  have pos: "0 < every" using v by (auto simp: validateScheduleRule_def reject_def split: if_splits)
  let ?k = "max 0 ((after - date_of anchor) div every + 1)"
  show "0 \<le> ?k" by simp
  show "after < date_of anchor + ?k * every" by (rule interval_after [OF pos])
  show "\<forall>j \<ge> 0. after < date_of anchor + j * every \<longrightarrow> ?k \<le> j" using least_multiple [OF pos] by blast
  show "nextScheduleDue h (Interval anchor every) after =
    (if valid_time (date_of anchor + ?k * every) then Inr (Some (toISOString (date_of anchor + ?k * every))) else Inl Date_out_of_range)"
    using v by (simp add: nextScheduleDue_def date_text_def)
qed

text \<open>
  C35. The next occurrence of an interval rule is the least instant \<open>anchor + k * everyMs\<close> with
  \<open>k \<ge> 0\<close> strictly after the fence, and the only error is that this instant has no date; a one-time
  rule has its own instant as next occurrence before it and none from it on; a cron rule has the answer of the
  cron parser.\<close>

theorem next_due_exact:
  assumes "validateScheduleRule h rule = None"
  shows "case rule of
      Interval anchor every \<Rightarrow>
        \<exists>k \<ge> 0. after < date_of anchor + k * every \<and> (\<forall>j \<ge> 0. after < date_of anchor + j * every \<longrightarrow> k \<le> j) \<and>
          nextScheduleDue h rule after =
            (if valid_time (date_of anchor + k * every) then Inr (Some (toISOString (date_of anchor + k * every))) else Inl Date_out_of_range)
    | Once at \<Rightarrow> nextScheduleDue h rule after = Inr (if after < date_of at then Some (toISOString (date_of at)) else None)
    | Cron expression timezone \<Rightarrow>
        nextScheduleDue h rule after = (case sh_cronNext h expression timezone after of
            None \<Rightarrow> Inl Cron_unparsable
          | Some t \<Rightarrow> if valid_time t then Inr (Some (toISOString t)) else Inl Date_out_of_range)"
  using assms interval_due [of h] 
  by (cases rule) (auto simp: nextScheduleDue_def date_text_def split: option.splits)

lemma admitted_moves_on:
  assumes "admitDue h now d s = Inr (t, a)" "cron_forward h" "valid_time now"
  shows "sch_revision t = sch_revision s + 1 \<and> (ad_overlap a \<and> is_once (sch_rule s) \<or> due_at t now = None)"
proof -
  let ?a = "fence (sch_processedThrough s) now"
  have "\<exists>due. t = advanced s d ?a now a due \<and> (ad_overlap a \<and> is_once (sch_rule s) \<or> nextScheduleDue h (sch_rule s) ?a = Inr due)"
    using assms(1) unfolding admitDue_def Let_def
    by (simp split: if_split_asm option.split_asm add: bind_result_Inr) (metis saved)+
  then obtain due where t: "t = advanced s d ?a now a due"
    and due: "ad_overlap a \<and> is_once (sch_rule s) \<or> nextScheduleDue h (sch_rule s) ?a = Inr due" by blast
  have "\<not> date_of e \<le> now" if "due = Some e" "nextScheduleDue h (sch_rule s) ?a = Inr due" for e
    using that next_due_after [OF _ assms(2), of "sch_rule s" ?a e] fence_bounds(1) [of now "sch_processedThrough s"] by simp
  then show ?thesis using due by (auto simp: t due_at_def advanced_def split: option.splits)
qed

lemma offset_now: "has_offset (toISOString t)"
proof -
  have "toISOString t \<noteq> [] \<and> last (toISOString t) = CHR ''Z''"
    by (simp add: toISOString_def Let_def split: prod.split)
  then show ?thesis by (simp add: has_offset_def)
qed

lemma instant_now: "valid_time t \<Longrightarrow> instant (toISOString t) = None"
  by (simp add: instant_def failure_def reject_def offset_now)

text \<open>The second transaction succeeds exactly if the text of the error can be stored.\<close>

abbreviation storable_text :: "schedule_host \<Rightarrow> schedule_error \<Rightarrow> bool" where
  "storable_text h e \<equiv> failure (requireText (sh_redact h (sh_message h e))) = None"

lemma block_recorded:
  assumes v: "validateSchedule h s = Inr s" and s: "sch_state s = Sch_enabled" "sch_nextDue s = Some d"
    and r: "sch_revision s < max_safe_integer" and now: "valid_time now"
  shows "(\<exists>t. block_schedule h now (sch_revision s) e s = Inr t) \<longleftrightarrow> storable_text h e"
proof -
  let ?m = "sh_redact h (sh_message h e)"
  let ?t = "s\<lparr>sch_state := Sch_needs_attention, sch_reason := Some ?m, sch_revision := sch_revision s + 1,
    sch_lastAttempt := Some \<lparr>sa_at = toISOString now, sa_dueAt = d, sa_outcome = Attempt_blocked, sa_runId = None, sa_jobId = None,
      sa_generation = Some (sch_generation s), sa_reason = Some ?m\<rparr>, sch_updatedAt := toISOString now\<rparr>"
  have parts: "builtin_error ?t = builtin_error s" "authorization_error ?t = authorization_error s"
    by (cases "sch_authorization s"; simp add: builtin_error_def authorization_error_def issuer_error_def split: grant_issuer.split option.split)+
  have rev: "sch_check ''revision'' (requirePositiveInteger (sch_revision s + 1)) = None"
    using v r by (auto simp: validateSchedule_def check_Inr failure_None requirePositiveInteger_Inr)
  have "(\<exists>t. validateSchedule h ?t = Inr t) \<longleftrightarrow> storable_text h e"
    using v s rev instant_now [OF now] unfolding validateSchedule_def check_Inr parts
    by (auto simp: attempt_error_def reject_def)
  then show ?thesis using s by (simp add: block_schedule_def saveSchedule_def)
qed

text \<open>
  C34. An admission pass over a stored schedule that is due either cannot record its failure, which happens exactly if
  the admission failed with an error whose redacted text is blank or has a NUL character, or it settles the
  schedule: the revision goes up by one, and afterwards the
  schedule is either waiting for attention with nothing started, or its next occurrence is after the clock
  reading of the pass; only a one-time schedule whose run overlapped a live one stays due. The revision must not
  be the largest safe integer.\<close>

theorem due_settled:
  assumes "validateSchedule h s = Inr s" "due_at s now = Some d" "cron_forward h" "valid_time now" "sch_revision s < max_safe_integer"
  shows "if \<exists>e. admission_pass h now s = Inl e \<and> \<not> storable_text h e
    then \<exists>e. reconcileSchedule h now (sch_revision s) s = Inl e
    else \<exists>t a. reconcileSchedule h now (sch_revision s) s = Inr (t, a) \<and> sch_revision t = sch_revision s + 1 \<and>
      (a = None \<and> sch_state t = Sch_needs_attention \<and> sch_reason t \<noteq> None \<and> sch_nextDue t = sch_nextDue s \<or>
       (\<exists>x. a = Some x \<and> (ad_overlap x \<and> is_once (sch_rule s) \<or> due_at t now = None)))"
proof (cases "admission_pass h now s")
  case (Inl e)
  have en: "sch_state s = Sch_enabled" "sch_nextDue s = Some d" using assms(2) by (auto simp: due_at_def split: option.splits if_splits)
  note rec = block_recorded [OF assms(1) en assms(5,4), of e]
  have eq: "reconcileSchedule h now (sch_revision s) s = bind_result (block_schedule h now (sch_revision s) e s) (\<lambda>s'. Inr (s', None))"
    using Inl by (simp add: reconcileSchedule_def)
  show ?thesis
  proof (cases "storable_text h e")
    case True
    then obtain t where t: "block_schedule h now (sch_revision s) e s = Inr t" using rec by blast
    then have "sch_revision t = sch_revision s + 1 \<and> sch_state t = Sch_needs_attention \<and> sch_reason t \<noteq> None \<and> sch_nextDue t = sch_nextDue s"
      using en by (auto simp: block_schedule_def dest!: saved)
    then show ?thesis using True Inl t eq by simp
  next
    case False
    then obtain f where "block_schedule h now (sch_revision s) e s = Inl f" using rec by (cases "block_schedule h now (sch_revision s) e s") auto
    then show ?thesis using False Inl eq by simp
  qed
next
  case (Inr r)
  obtain t a where r: "r = (t, a)" by fastforce
  have "sch_revision t = sch_revision s + 1 \<and>
     (a = None \<and> sch_state t = Sch_needs_attention \<and> sch_reason t \<noteq> None \<and> sch_nextDue t = sch_nextDue s \<or>
      (\<exists>x. a = Some x \<and> (ad_overlap x \<and> is_once (sch_rule s) \<or> due_at t now = None)))"
    using Inr admitted_moves_on [OF _ assms(3,4), of d s t]
    by (auto simp: r admission_pass_def assms(2) bind_result_Inr dest!: saved split: if_split_asm)
  then show ?thesis using Inr r by (simp add: reconcileSchedule_def)
qed

subsection \<open>A schedule of the Operator\<close>

definition demo_binding :: string where
  "demo_binding = replicate 64 CHR ''a''"

definition demo_caller :: job_caller where
  "demo_caller = \<lparr>cl_scope = Caller_global, cl_taskId = None, cl_role = Some ''operator'', cl_agentId = None, cl_adapterId = None,
     cl_nativeSessionId = Some ''s1'', cl_runId = None\<rparr>"

definition demo_host :: schedule_host where
  "demo_host = \<lparr>sh_zoneKnown = (\<lambda>z. z = ''UTC''), sh_cronParses = (\<lambda>e z. True), sh_cronNext = (\<lambda>e z t. Some (t + 60000)),
     sh_definition = (\<lambda>sc j. if j = ''refresh'' then Some \<lparr>jv_revision = 1, jv_builtin = False\<rparr> else None),
     sh_authorize = (\<lambda>sc j c w. None), sh_serviceBinding = (\<lambda>plan g. Inr demo_binding),
     sh_sessionBinding = (\<lambda>c sc. demo_binding), sh_syncTarget = (\<lambda>j. None), sh_task = (\<lambda>i. None),
     sh_admit = (\<lambda>s k now. Inr \<lparr>ad_overlap = False, ad_jobId = ''refresh'', ad_runId = ''run-1''\<rparr>),
     sh_message = (\<lambda>e. ''refused''), sh_redact = (\<lambda>m. m), sh_authorizeScope = (\<lambda>sc c. None)\<rparr>"

definition demo_rule :: schedule_rule where
  "demo_rule = Interval (toISOString 0) 1000"

definition demo_rq :: schedule_request where
  "demo_rq = \<lparr>rq_scope = Scope_global, rq_caller = demo_caller, rq_id = ''nightly'', rq_jobId = Some ''refresh'', rq_target = None,
     rq_authorization = None, rq_rule = Some demo_rule, rq_expectedRevision = None, rq_grantId = ''g''\<rparr>"

definition demo_plan :: "int \<Rightarrow> time \<Rightarrow> string option \<Rightarrow> schedule_attempt option \<Rightarrow> time \<Rightarrow> job_schedule" where
  "demo_plan n due processed prev now =
     \<lparr>sch_id = ''nightly'', sch_scope = Scope_global, sch_jobId = ''refresh'', sch_target = Existing_job, sch_rule = demo_rule,
      sch_revision = n, sch_generation = 1, sch_state = Sch_enabled, sch_nextDue = Some (toISOString due),
      sch_processedThrough = processed, sch_authorization = Session_auth demo_caller demo_binding 1, sch_builtin = None,
      sch_lastAttempt = prev, sch_reason = None, sch_createdAt = toISOString 0, sch_updatedAt = toISOString now\<rparr>"

lemma plan_texts:
  "scheduleId ''nightly'' = None" "scheduleId ''refresh'' = None" "is_digest demo_binding"
  "failure (requireText ''operator'') = None" "failure (requireText ''s1'') = None" "failure (requireText ''run-1'') = None"
  "failure (requirePositiveInteger 1) = None" "failure (requirePositiveInteger 2) = None" "failure (requirePositiveInteger 3) = None"
  "isSafeInteger 1000" "valid_time 0" "valid_time 1000" "valid_time 2000" "valid_time 3000"
  by code_simp+

lemma demo_rule_ok: "validateScheduleRule h demo_rule = None"
  by (simp add: validateScheduleRule_def demo_rule_def instant_now plan_texts reject_def)

lemma demo_due: "valid_time (1000 * k + 1000) \<Longrightarrow> 0 \<le> k \<Longrightarrow> nextScheduleDue h demo_rule (1000 * k) = Inr (Some (toISOString (1000 * k + 1000)))"
  using demo_rule_ok [of h] by (simp add: nextScheduleDue_def demo_rule_def date_text_def plan_texts algebra_simps)

definition demo_attempt_ok :: "schedule_attempt option \<Rightarrow> bool" where
  "demo_attempt_ok prev \<longleftrightarrow> (\<forall>a \<in> set_option prev. attempt_error a = None)"

lemma demo_plan_saved:
  assumes "n \<in> {1, 2, 3}" "valid_time due" "valid_time now" "\<forall>p \<in> set_option processed. instant p = None" "demo_attempt_ok prev"
  shows "saveSchedule h (demo_plan n due processed prev now) = Inr (demo_plan n due processed prev now)"
proof -
  have w: "when_some processed instant = None" "when_some prev attempt_error = None"
    using assms(4,5) by (cases processed; cases prev; simp add: when_some_def demo_attempt_ok_def)+
  show ?thesis
    using assms(1-3) demo_rule_ok [of h]
    by (auto simp: w saveSchedule_def validateSchedule_def check_def demo_plan_def plan_texts validateScheduleTarget_def jobScopeKey_def
        failure_def [of "Inr _"] builtin_error_def when_some_def [of None] reject_def instant_now authorization_error_def demo_caller_def)
qed

lemma plan_created:
  "createScheduleControl demo_host 0 None demo_rq [] = Inr (demo_plan 1 1000 None None 0)"
proof -
  have "validateSchedule demo_host (demo_plan 1 1000 None None 0) = Inr (demo_plan 1 1000 None None 0)"
    using demo_plan_saved [of 1 1000 0 None None demo_host] by (simp add: plan_texts demo_attempt_ok_def saveSchedule_def)
  then show ?thesis using demo_due [of 0 demo_host]
    by (simp add: createScheduleControl_def createSchedule_def demo_rq_def plan_texts demo_host_def Let_def given_or_def
        validateScheduleTarget_def authorization_def demo_caller_def demo_plan_def saveSchedule_def)
qed

definition demo_attempt :: "time \<Rightarrow> schedule_attempt" where
  "demo_attempt t = \<lparr>sa_at = toISOString t, sa_dueAt = toISOString t, sa_outcome = Attempt_admitted, sa_runId = Some ''run-1'',
     sa_jobId = Some ''refresh'', sa_generation = Some 1, sa_reason = None\<rparr>"

lemma demo_fire:
  assumes "n \<in> {1, 2}" "t \<in> {1000, 2000}" "\<forall>p \<in> set_option processed. date_of p \<le> t" "demo_attempt_ok prev"
  shows "reconcileSchedule demo_host t c (demo_plan n t processed prev u) =
    Inr (demo_plan (n + 1) (t + 1000) (Some (toISOString t)) (Some (demo_attempt t)) t,
      Some \<lparr>ad_overlap = False, ad_jobId = ''refresh'', ad_runId = ''run-1''\<rparr>)"
proof -
  let ?s = "demo_plan n t processed prev u" and ?a = "\<lparr>ad_overlap = False, ad_jobId = ''refresh'', ad_runId = ''run-1''\<rparr>"
  have v: "valid_time t" "valid_time (t + 1000)" using assms(2) plan_texts by auto
  have f: "fence (sch_processedThrough ?s) t = t"
    using assms(2,3) by (auto simp: fence_def demo_plan_def split: option.splits)
  have n: "nextScheduleDue demo_host demo_rule t = Inr (Some (toISOString (t + 1000)))"
    using assms(2) demo_due [of 1 demo_host] demo_due [of 2 demo_host] plan_texts by auto
  have adv: "advanced ?s (toISOString t) t t ?a (Some (toISOString (t + 1000))) =
      demo_plan (n + 1) (t + 1000) (Some (toISOString t)) (Some (demo_attempt t)) t"
    by (simp add: advanced_def demo_plan_def demo_attempt_def)
  have ok: "demo_attempt_ok (Some (demo_attempt t))"
    using v by (simp add: demo_attempt_ok_def attempt_error_def demo_attempt_def instant_now plan_texts)
  have sav: "saveSchedule demo_host (demo_plan (n + 1) (t + 1000) (Some (toISOString t)) (Some (demo_attempt t)) t) =
      Inr (demo_plan (n + 1) (t + 1000) (Some (toISOString t)) (Some (demo_attempt t)) t)"
    using assms(1) v ok by (intro demo_plan_saved) (auto simp: instant_now)
  have sel: "sch_authorization ?s = Session_auth demo_caller demo_binding 1" "sch_rule ?s = demo_rule" "sch_scope ?s = Scope_global"
    "sch_jobId ?s = ''refresh''" "sch_nextDue ?s = Some (toISOString t)" "sch_state ?s = Sch_enabled"
    by (simp_all add: demo_plan_def)
  have host: "sh_definition demo_host Scope_global ''refresh'' = Some \<lparr>jv_revision = 1, jv_builtin = False\<rparr>"
    "sh_authorize demo_host = (\<lambda>sc j c w. None)" "sh_sessionBinding demo_host = (\<lambda>c sc. demo_binding)"
    "sh_admit demo_host = (\<lambda>s k now. Inr ?a)" by (simp_all add: demo_host_def)
  have "admitDue demo_host t (toISOString t) ?s =
      Inr (demo_plan (n + 1) (t + 1000) (Some (toISOString t)) (Some (demo_attempt t)) t, ?a)"
    by (simp add: admitDue_def requireScheduleService_def authorizeSchedule_def binding_changed_def sel host f n adv sav)
  then show ?thesis using v
    by (simp add: reconcileSchedule_def admission_pass_def due_at_def task_unavailable_def sel)
qed

text \<open>Created for every second, the schedule fires once for each of the first two seconds.\<close>

theorem schedule_fires_once_witness:
  "\<exists>rows log. run_commands schedule_step
      [(demo_host, 0, Create demo_rq), (demo_host, 1000, Reconcile (Scope_global, ''nightly'') 1),
       (demo_host, 2000, Reconcile (Scope_global, ''nightly'') 2)] ([], []) = Inr (rows, log) \<and>
     length log = 2 \<and> distinct (map firing_key log) \<and> list_all (\<lambda>f. date_of (fr_dueAt f) \<le> fr_at f) log"
proof -
  let ?cs = "[(demo_host, 0, Create demo_rq), (demo_host, 1000, Reconcile (Scope_global, ''nightly'') 1),
       (demo_host, 2000, Reconcile (Scope_global, ''nightly'') 2)]"
  let ?p = "demo_plan 1 1000 None None 0" and ?q = "demo_plan 2 2000 (Some (toISOString 1000)) (Some (demo_attempt 1000)) 1000"
  have ok: "demo_attempt_ok None" "demo_attempt_ok (Some (demo_attempt 1000))"
    by (simp_all add: demo_attempt_ok_def attempt_error_def demo_attempt_def instant_now plan_texts)
  have put: "put_schedule (demo_plan n d x y z) [((Scope_global, ''nightly''), s)] = [((Scope_global, ''nightly''), demo_plan n d x y z)]"
    "put_schedule (demo_plan n d x y z) [] = [((Scope_global, ''nightly''), demo_plan n d x y z)]" for n d x y z s
    by (simp_all add: put_schedule_def demo_plan_def)
  have fires: "reconcileSchedule demo_host 1000 1 ?p = Inr (?q, Some \<lparr>ad_overlap = False, ad_jobId = ''refresh'', ad_runId = ''run-1''\<rparr>)"
    "\<exists>t. reconcileSchedule demo_host 2000 2 ?q = Inr (t, Some \<lparr>ad_overlap = False, ad_jobId = ''refresh'', ad_runId = ''run-1''\<rparr>)"
    using demo_fire [of 1 1000 None None 1 0] demo_fire [of 2 2000 "Some (toISOString 1000)" "Some (demo_attempt 1000)" 2 1000] ok plan_texts
    by auto
  then have run: "\<exists>rows. run_commands schedule_step ?cs ([], []) = Inr (rows, [firing_of ?q 2000, firing_of ?p 1000])"
    using plan_created by (auto simp: put started_def)
  moreover have "list_all schedule_admissible ?cs"
    by (simp add: schedule_admissible_def cron_forward_def demo_host_def plan_texts)
  ultimately show ?thesis using schedule_fires_once [of ?cs] by (fastforce simp: list_all_iff)
qed

theorem next_due_exact_witness:
  "nextScheduleDue demo_host demo_rule 2500 = Inr (Some (toISOString 3000))"
proof -
  obtain k where k: "0 \<le> k" "2500 < k * 1000" "\<forall>j \<ge> 0. 2500 < j * 1000 \<longrightarrow> k \<le> j"
    and n: "nextScheduleDue demo_host demo_rule 2500 =
      (if valid_time (k * 1000) then Inr (Some (toISOString (k * 1000))) else Inl Date_out_of_range)"
    using next_due_exact [OF demo_rule_ok, of demo_host 2500] by (auto simp: demo_rule_def plan_texts)
  have "k = 3" using k(2) k(3) [rule_format, of 3] by simp
  then show ?thesis using n plan_texts by simp
qed

theorem due_settled_witness:
  "\<exists>t. sch_revision t = 2 \<and> due_at t 1000 = None \<and>
     reconcileSchedule demo_host 1000 1 (demo_plan 1 1000 None None 0) = Inr (t, Some \<lparr>ad_overlap = False, ad_jobId = ''refresh'', ad_runId = ''run-1''\<rparr>)"
proof -
  let ?p = "demo_plan 1 1000 None None 0" and ?x = "\<lparr>ad_overlap = False, ad_jobId = ''refresh'', ad_runId = ''run-1''\<rparr>"
  have p: "validateSchedule demo_host ?p = Inr ?p"
    using demo_plan_saved [of 1 1000 0 None None demo_host] by (simp add: plan_texts demo_attempt_ok_def saveSchedule_def)
  obtain t where t: "reconcileSchedule demo_host 1000 1 ?p = Inr (t, Some ?x)"
    using demo_fire [of 1 1000 None None 1 0] by (simp add: demo_attempt_ok_def)
  have sel: "sch_revision ?p = 1" "due_at ?p 1000 = Some (toISOString 1000)" by (simp_all add: demo_plan_def due_at_def plan_texts)
  have "cron_forward demo_host" by (simp add: cron_forward_def demo_host_def)
  from due_settled [OF p sel(2) this] have "sch_revision t = 2 \<and> due_at t 1000 = None"
    using t sel plan_texts by (auto simp: max_safe_integer_def demo_plan_def demo_rule_def split: if_split_asm)
  then show ?thesis using t by blast
qed

end
