(* ===== verification/Agent_Run.thy ===== *)
theory Agent_Run
  imports Work_Item_Execution Managed_Workspace Task
begin

text \<open>
  Agent Runs (\<open>src/src/agentRun/agentRun.ts\<close>) with the inputs they carry
  (\<open>src/src/context/runInputContract.ts\<close>) and the transport of an agent's result
  (\<open>src/src/domain/agentResultTransport.ts\<close>).

  Results and diagnostics are arbitrary Unicode texts whose size in UTF-8 is bounded, so they are lists of
  code points here. The launch snapshot is a parameter as in \<open>Work_Item_Execution\<close>: its type is \<open>'l\<close>, and
  \<open>run_port\<close> gives its validator and the facts a run compares with its own.
\<close>

subsection \<open>Transport of results\<close>

type_synonym unicode = "nat list"

definition utf8_size :: "nat \<Rightarrow> nat" where
  "utf8_size c = (if c < 128 then 1 else if c < 2048 then 2 else if c < 65536 then 3 else 4)"

definition utf8_bytes :: "unicode \<Rightarrow> nat" where
  "utf8_bytes cs = sum_list (map utf8_size cs)"

text \<open>The white space and line terminators that \<open>trim\<close> removes.\<close>

definition white :: "nat \<Rightarrow> bool" where
  "white c = ((9 \<le> c \<and> c \<le> 13) \<or> (8192 \<le> c \<and> c \<le> 8202) \<or> c \<in> set [32, 160, 5760, 8232, 8233, 8239, 8287, 12288, 65279])"

definition blank_text :: "unicode \<Rightarrow> bool" where
  "blank_text cs = list_all white cs"

definition codes :: "string \<Rightarrow> unicode" where
  "codes s = map unit_of s"

definition MAX_RUN_RESULT_OUTPUT_BYTES :: nat where
  "MAX_RUN_RESULT_OUTPUT_BYTES = 524288"

definition MAX_RUN_FAILURE_DIAGNOSTIC_BYTES :: nat where
  "MAX_RUN_FAILURE_DIAGNOSTIC_BYTES = 16384"

datatype run_failure =
    Startup_failed | Runtime_failed | Delivery_unknown | Missing_result | Workspace_unavailable | Workspace_dirty
  | Workspace_branch_mismatch | Run_cancelled

datatype transported_result = Transported unicode | Not_transported unicode run_failure

definition transportAgentResult :: "unicode option \<Rightarrow> transported_result" where
  "transportAgentResult input =
     (case input of
        None \<Rightarrow> Not_transported (codes ''Provider terminal event did not include an Agent result.'') Missing_result
      | Some text \<Rightarrow>
          if 0 \<in> set text then Not_transported (codes ''Provider terminal event included an Agent result with an invalid NUL byte.'') Runtime_failed
          else if blank_text text then Not_transported (codes ''Provider terminal event included an empty Agent result.'') Missing_result
          else if utf8_bytes text > MAX_RUN_RESULT_OUTPUT_BYTES then Not_transported
            (codes (''Provider Agent result is '' @ show_nat (utf8_bytes text) @ '' bytes and exceeds the ''
               @ show_nat MAX_RUN_RESULT_OUTPUT_BYTES @ ''-byte durable result limit; the result was not stored.'')) Runtime_failed
          else Transported text)"

definition replacement_character :: nat where
  "replacement_character = 65533"

text \<open>
  The text decoded from the first \<open>n\<close> bytes of the encoding: whole characters, and one replacement character
  for an incomplete one at the end.
\<close>

fun decoded_prefix :: "nat \<Rightarrow> unicode \<Rightarrow> unicode" where
  "decoded_prefix n [] = []"
| "decoded_prefix n (c # cs) =
     (if utf8_size c \<le> n then c # decoded_prefix (n - utf8_size c) cs
      else if n = 0 then [] else [replacement_character])"

definition safe_text :: "unicode \<Rightarrow> unicode" where
  "safe_text cs = map (\<lambda>c. if c = 0 then replacement_character else c) cs"

definition boundedRunFailureDiagnostic :: "unicode \<Rightarrow> unicode" where
  "boundedRunFailureDiagnostic diagnostic =
     (let safe = safe_text (if \<not> blank_text diagnostic then diagnostic else codes ''Provider reported a failed Agent AgentRun.'') in
      if utf8_bytes safe \<le> MAX_RUN_FAILURE_DIAGNOSTIC_BYTES then safe
      else let p = decoded_prefix MAX_RUN_FAILURE_DIAGNOSTIC_BYTES safe in
        if p \<noteq> [] \<and> last p = replacement_character then butlast p else p)"

subsection \<open>Inputs\<close>

datatype yui_channel =
    User_message | Input_response | Task_dispatch | Workitem_dispatch | Message_continuation | Leader_wakeup | Leader_forced_wakeup

datatype input_source = From_yui yui_channel | From_user_direct | From_goal_continuation | From_visible_input

record run_input =
  ri_source :: input_source
  ri_directive :: "string option"
  ri_contextSnapshotRef :: "context_ref option"
  ri_deltaRefIds :: "string list"

datatype envelope_purpose = For_execution | For_review | For_global | For_planning

record input_subject =
  rs_taskId :: "string option"
  rs_workItemId :: "string option"
  rs_reviewRoundId :: "string option"
  rs_executionGroupId :: "string option"
  rs_executionLaneId :: "string option"
  rs_sourceExecutionGroupId :: "string option"

record envelope_context =
  ec_runId :: string
  ec_roleName :: string
  ec_purpose :: envelope_purpose
  ec_subject :: input_subject

record run_envelope = envelope_context +
  en_source :: input_source
  en_contextSnapshotRef :: "context_ref option"
  en_deltaRefIds :: "string list"

datatype run_error =
    Run_field string field_error
  | Run_reference reference_error
  | Run_workspace workspace_error
  | Run_snapshot execution_error
  | Run_refused string

abbreviation run_field :: "string \<Rightarrow> field_error + 'a \<Rightarrow> run_error + 'a" where
  "run_field l \<equiv> map_error (Run_field l)"

definition RUN_INPUT_MAX_DELTAS :: nat where
  "RUN_INPUT_MAX_DELTAS = 16"

definition normalizeInput :: "context_ref option \<Rightarrow> string list \<Rightarrow> run_error + string list" where
  "normalizeInput snapshot deltas =
     (case when_some snapshot (\<lambda>r. map_option Run_snapshot (validateContextSnapshotRef r)) of Some e \<Rightarrow> Inl e | None \<Rightarrow>
      bind_result (run_field ''deltaRefIds'' (normalizedUniqueText deltas)) (\<lambda>deltaRefIds.
      if length deltaRefIds > RUN_INPUT_MAX_DELTAS then Inl (Run_refused ''too many deltas'') else Inr deltaRefIds))"

definition createRunInput :: "run_input \<Rightarrow> run_error + run_input" where
  "createRunInput input =
     bind_result (normalizeInput (ri_contextSnapshotRef input) (ri_deltaRefIds input)) (\<lambda>deltaRefIds.
     bind_result (optional_value (\<lambda>d. run_field ''directive'' (requireText d)) (ri_directive input)) (\<lambda>directive.
     Inr (input\<lparr>ri_deltaRefIds := deltaRefIds, ri_directive := directive\<rparr>)))"

definition validateRunInput :: "run_input \<Rightarrow> run_error + run_input" where
  "validateRunInput input =
     bind_result (createRunInput input) (\<lambda>normalized.
     if normalized \<noteq> input then Inl (Run_refused ''not canonical'') else Inr input)"

definition requireRunContextSnapshotRef :: "run_input \<Rightarrow> run_error + context_ref" where
  "requireRunContextSnapshotRef input =
     (case ri_contextSnapshotRef input of
        None \<Rightarrow> Inl (Run_refused ''snapshot required'')
      | Some r \<Rightarrow> (case validateContextSnapshotRef r of Some e \<Rightarrow> Inl (Run_snapshot e) | None \<Rightarrow> Inr r))"

abbreviation subject_id :: "string \<Rightarrow> string option \<Rightarrow> run_error + string option" where
  "subject_id l \<equiv> optional_value (\<lambda>i. run_field l (requireIdentity i))"

definition normalizeSubject :: "input_subject \<Rightarrow> run_error + input_subject" where
  "normalizeSubject s =
     bind_result (subject_id ''taskId'' (rs_taskId s)) (\<lambda>task.
     bind_result (subject_id ''workItemId'' (rs_workItemId s)) (\<lambda>item.
     bind_result (subject_id ''reviewRoundId'' (rs_reviewRoundId s)) (\<lambda>round.
     bind_result (subject_id ''executionGroupId'' (rs_executionGroupId s)) (\<lambda>group.
     bind_result (subject_id ''executionLaneId'' (rs_executionLaneId s)) (\<lambda>lane.
     bind_result (subject_id ''sourceExecutionGroupId'' (rs_sourceExecutionGroupId s)) (\<lambda>source.
     if (group = None) \<noteq> (lane = None) then Inl (Run_refused ''lineage incomplete'')
     else if source \<noteq> None \<and> ((item = None \<and> round = None) \<or> group \<noteq> None) then Inl (Run_refused ''source group subject'')
     else if task = None \<and> (item \<noteq> None \<or> round \<noteq> None \<or> group \<noteq> None \<or> source \<noteq> None) then Inl (Run_refused ''child without task'')
     else Inr \<lparr>rs_taskId = task, rs_workItemId = item, rs_reviewRoundId = round, rs_executionGroupId = group,
       rs_executionLaneId = lane, rs_sourceExecutionGroupId = source\<rparr>))))))"

definition normalizeEnvelope :: "run_envelope \<Rightarrow> run_error + run_envelope" where
  "normalizeEnvelope e =
     bind_result (normalizeInput (en_contextSnapshotRef e) (en_deltaRefIds e)) (\<lambda>deltaRefIds.
     bind_result (normalizeSubject (ec_subject e)) (\<lambda>subject.
     if (\<exists>r \<in> set_option (en_contextSnapshotRef e). Some (cx_taskId r) \<noteq> rs_taskId subject) then Inl (Run_refused ''snapshot of another task'')
     else if ec_purpose e \<noteq> For_global \<and> rs_taskId subject = None then Inl (Run_refused ''task subject required'')
     else if ec_purpose e = For_review \<and> rs_reviewRoundId subject = None then Inl (Run_refused ''round subject required'')
     else if ec_purpose e = For_planning \<and> (rs_workItemId subject \<noteq> None \<or> rs_reviewRoundId subject \<noteq> None \<or>
         rs_executionGroupId subject \<noteq> None \<or> rs_sourceExecutionGroupId subject \<noteq> None)
       then Inl (Run_refused ''planning subject'')
     else
     bind_result (run_field ''runId'' (requireIdentity (ec_runId e))) (\<lambda>runId.
     bind_result (run_field ''roleName'' (requireIdentity (ec_roleName e))) (\<lambda>roleName.
     Inr (e\<lparr>ec_runId := runId, ec_roleName := roleName, ec_subject := subject, en_deltaRefIds := deltaRefIds\<rparr>)))))"

definition createRunInputEnvelope :: "envelope_context \<Rightarrow> run_input \<Rightarrow> run_error + run_envelope" where
  "createRunInputEnvelope c input =
     bind_result (validateRunInput input) (\<lambda>_.
     bind_result (normalizeEnvelope \<lparr>ec_runId = ec_runId c, ec_roleName = ec_roleName c, ec_purpose = ec_purpose c, ec_subject = ec_subject c,
         en_source = ri_source input, en_contextSnapshotRef = ri_contextSnapshotRef input, en_deltaRefIds = ri_deltaRefIds input\<rparr>) (\<lambda>n.
     Inr \<lparr>ec_runId = ec_runId n, ec_roleName = ec_roleName n, ec_purpose = ec_purpose n, ec_subject = ec_subject n,
       en_source = ri_source input, en_contextSnapshotRef = ri_contextSnapshotRef input, en_deltaRefIds = ri_deltaRefIds input\<rparr>))"

subsection \<open>The record\<close>

datatype dispatch_mode = Mode_new | Mode_resume

datatype run_status = Run_active | Run_completed | Run_failed

datatype run_purpose = Run_execution | Run_review | Run_planning

datatype provider_status = Provider_completed | Provider_failed | Provider_cancelled

record provider_result =
  pv_providerNamespace :: string
  pv_accountScope :: string
  pv_conversationId :: string
  pv_nativeTurnId :: "string option"
  pv_attemptId :: "string option"
  pv_status :: provider_status

record workspace_head =
  sp_projectId :: string
  sp_headCommit :: string
  sp_branch :: string

record system_evidence =
  ev_workspaceSnapshot :: "workspace_head list option"

record run_result =
  rr_output :: "unicode option"
  rr_diagnostic :: "unicode option"
  rr_completedAt :: string
  rr_provider :: "provider_result option"
  rr_systemEvidence :: "system_evidence option"
  rr_failureReason :: "run_failure option"

record input_record =
  ir_sequence :: int
  ir_submittedAt :: string
  ir_input :: run_input

record 'l agent_run =
  ar_id :: string
  ar_taskId :: string
  ar_roleName :: string
  ar_mode :: dispatch_mode
  ar_inputs :: "input_record list"
  ar_purpose :: run_purpose
  ar_workItemId :: "string option"
  ar_reviewRoundId :: "string option"
  ar_executionGroupId :: "string option"
  ar_executionLaneId :: "string option"
  ar_sourceExecutionGroupId :: "string option"
  ar_workspace :: "managed_workspace option"
  ar_effective :: 'l
  ar_status :: run_status
  ar_result :: "run_result option"
  ar_createdAt :: string
  ar_updatedAt :: string

record 'l run_port =
  rp_valid :: "'l \<Rightarrow> bool"
  rp_planning :: "'l \<Rightarrow> bool"
  rp_reviewRoundId :: "'l \<Rightarrow> string option"
  rp_reviewBaseCommit :: "'l \<Rightarrow> string option"
  rp_root :: "'l \<Rightarrow> string"
  rp_entries :: "'l \<Rightarrow> project_entry list"
  rp_cwd :: string

record 'l run_context =
  rc_workItemId :: "string option"
  rc_purpose :: "run_purpose option"
  rc_reviewRoundId :: "string option"
  rc_executionGroupId :: "string option"
  rc_executionLaneId :: "string option"
  rc_sourceExecutionGroupId :: "string option"
  rc_workspace :: "managed_workspace option"
  rc_effective :: 'l

definition isActiveRun :: "'l agent_run \<Rightarrow> bool" where
  "isActiveRun r = (ar_status r = Run_active)"

definition runPurposeAdmitsTaskState :: "run_purpose \<Rightarrow> task \<Rightarrow> bool" where
  "runPurposeAdmitsTaskState purpose t =
     (if task_executionGate t \<noteq> Enabled then False
      else if purpose = Run_planning then task_status t = Draft \<or> task_status t = Active
      else task_status t = Active)"

definition runInputRecord :: "run_input \<Rightarrow> int \<Rightarrow> string \<Rightarrow> run_error + input_record" where
  "runInputRecord input sequence submittedAt =
     bind_result (validateRunInput input) (\<lambda>normalized.
     Inr \<lparr>ir_sequence = sequence, ir_submittedAt = submittedAt, ir_input = normalized\<rparr>)"

definition createRun ::
  "'l run_port \<Rightarrow> string \<Rightarrow> string \<Rightarrow> string \<Rightarrow> dispatch_mode \<Rightarrow> run_input \<Rightarrow> time \<Rightarrow> 'l run_context \<Rightarrow> run_error + 'l agent_run" where
  "createRun port i taskId roleName mode input now c =
     bind_result (validateRunInput input) (\<lambda>normalizedInput.
     bind_result (requireRunContextSnapshotRef normalizedInput) (\<lambda>snapshot.
     if cx_taskId snapshot \<noteq> taskId then Inl (Run_refused ''snapshot of another task'')
     else
     bind_result (run_field ''id'' (requireIdentity i)) (\<lambda>runId.
     bind_result (run_field ''taskId'' (requireIdentity taskId)) (\<lambda>task.
     bind_result (run_field ''roleName'' (requireIdentity roleName)) (\<lambda>role.
     bind_result (runInputRecord normalizedInput 1 (toISOString now)) (\<lambda>record.
     bind_result (subject_id ''workItemId'' (rc_workItemId c)) (\<lambda>item.
     bind_result (subject_id ''reviewRoundId'' (rc_reviewRoundId c)) (\<lambda>round.
     bind_result (subject_id ''executionGroupId'' (rc_executionGroupId c)) (\<lambda>group.
     bind_result (subject_id ''executionLaneId'' (rc_executionLaneId c)) (\<lambda>lane.
     bind_result (subject_id ''sourceExecutionGroupId'' (rc_sourceExecutionGroupId c)) (\<lambda>source.
     bind_result (optional_value (\<lambda>w. map_error Run_workspace (validateManagedWorkspace (rp_cwd port) w)) (rc_workspace c)) (\<lambda>workspace.
     if \<not> rp_valid port (rc_effective c) then Inl (Run_refused ''launch invalid'')
     else Inr \<lparr>ar_id = runId, ar_taskId = task, ar_roleName = role, ar_mode = mode, ar_inputs = [record],
       ar_purpose = (case rc_purpose c of None \<Rightarrow> Run_execution | Some p \<Rightarrow> p), ar_workItemId = item, ar_reviewRoundId = round,
       ar_executionGroupId = group, ar_executionLaneId = lane, ar_sourceExecutionGroupId = source, ar_workspace = workspace,
       ar_effective = rc_effective c, ar_status = Run_active, ar_result = None,
       ar_createdAt = toISOString now, ar_updatedAt = toISOString now\<rparr>))))))))))))"

subsection \<open>Validation\<close>

definition resultText_error :: "nat \<Rightarrow> string \<Rightarrow> unicode \<Rightarrow> run_error option" where
  "resultText_error limit l text = first_error
     [reject (0 \<in> set text) (Run_field l Invalid), reject (blank_text text) (Run_field l Required),
      reject (utf8_bytes text > limit) (Run_refused ''too long'')]"

abbreviation requireResultText :: "unicode \<Rightarrow> run_error option" where
  "requireResultText \<equiv> resultText_error MAX_RUN_RESULT_OUTPUT_BYTES ''output''"

abbreviation requireDiagnosticText :: "unicode \<Rightarrow> run_error option" where
  "requireDiagnosticText \<equiv> resultText_error MAX_RUN_FAILURE_DIAGNOSTIC_BYTES ''diagnostic''"

abbreviation run_check :: "string \<Rightarrow> field_error + 'a \<Rightarrow> run_error option" where
  "run_check l r \<equiv> map_option (Run_field l) (failure r)"

definition validateRunProviderResult :: "provider_result \<Rightarrow> run_error option" where
  "validateRunProviderResult p = first_error
     [run_check ''namespace'' (requireText (pv_providerNamespace p)), run_check ''account'' (requireText (pv_accountScope p)),
      run_check ''conversation'' (requireText (pv_conversationId p)),
      when_some (pv_nativeTurnId p) (\<lambda>t. run_check ''turn'' (requireText t)),
      when_some (pv_attemptId p) (\<lambda>t. run_check ''attempt'' (requireText t)),
      reject (pv_nativeTurnId p = None \<and> pv_attemptId p = None) (Run_refused ''no turn identity'')]"

fun snapshot_error :: "string list \<Rightarrow> workspace_head list \<Rightarrow> run_error option" where
  "snapshot_error seen [] = None"
| "snapshot_error seen (p # ps) =
     (case first_error
        [run_check ''snapshotProject'' (requireIdentity (sp_projectId p)),
         reject (sp_projectId p \<in> set seen) (Run_refused ''duplicate project''),
         reject (\<not> (all_hex (sp_headCommit p) \<and> length (sp_headCommit p) = 40)) (Run_refused ''commit invalid''),
         run_check ''branch'' (requireText (sp_branch p))] of
        Some e \<Rightarrow> Some e | None \<Rightarrow> snapshot_error (sp_projectId p # seen) ps)"

definition validateRunSystemEvidence :: "system_evidence \<Rightarrow> run_error option" where
  "validateRunSystemEvidence e = when_some (ev_workspaceSnapshot e) (snapshot_error [])"

definition validateRunResult :: "run_result \<Rightarrow> run_error option" where
  "validateRunResult r = first_error
     [when_some (rr_output r) requireResultText, when_some (rr_diagnostic r) requireDiagnosticText,
      run_check ''completedAt'' (requireTimestamp (rr_completedAt r)),
      when_some (rr_provider r) validateRunProviderResult, when_some (rr_systemEvidence r) validateRunSystemEvidence]"

fun inputs_error :: "int \<Rightarrow> string option \<Rightarrow> input_record list \<Rightarrow> run_error option" where
  "inputs_error i previous [] = None"
| "inputs_error i previous (r # rs) =
     (case first_error
        [reject (ir_sequence r \<noteq> i) (Run_refused ''sequence invalid''),
         run_check ''submittedAt'' (requireTimestamp (ir_submittedAt r)),
         failure (validateRunInput (ir_input r)),
         when_some previous (\<lambda>p. reject (date_less (ir_submittedAt r) p) (Run_refused ''input moved backwards''))] of
        Some e \<Rightarrow> Some e | None \<Rightarrow> inputs_error (i + 1) (Some (ir_submittedAt r)) rs)"

definition run_ref_error :: "string \<Rightarrow> task_record_kind \<Rightarrow> string \<Rightarrow> run_error option" where
  "run_ref_error taskId kind i = map_option Run_reference (failure (validateTaskRecordReference (task_reference taskId i) kind))"

definition lineage_error :: "'l agent_run \<Rightarrow> run_error option" where
  "lineage_error r = first_error
     [reject ((ar_executionGroupId r = None) \<noteq> (ar_executionLaneId r = None)) (Run_refused ''lineage incomplete''),
      when_some (ar_executionGroupId r) (\<lambda>g. first_error
        [run_check ''groupId'' (requireIdentity g),
         when_some (ar_executionLaneId r) (\<lambda>l. run_check ''laneId'' (requireIdentity l))]),
      when_some (ar_sourceExecutionGroupId r) (\<lambda>g. first_error
        [run_check ''sourceGroup'' (requireIdentity g),
         reject (ar_purpose r = Run_planning) (Run_refused ''planning aggregates''),
         reject ((ar_purpose r = Run_execution \<and> ar_workItemId r = None) \<or> (ar_purpose r = Run_review \<and> ar_reviewRoundId r = None))
           (Run_refused ''source group without main run''),
         reject (ar_executionGroupId r \<noteq> None \<or> ar_executionLaneId r \<noteq> None) (Run_refused ''main run is a lane'')])]"

definition planning_error :: "'l run_port \<Rightarrow> 'l agent_run \<Rightarrow> run_error option" where
  "planning_error port r =
     (if ar_purpose r \<noteq> Run_planning then None
      else first_error
        [reject (\<not> rp_planning port (ar_effective r)) (Run_refused ''planning with delivery authority''),
         reject (ar_workItemId r \<noteq> None) (Run_refused ''planning with work item''),
         reject (ar_reviewRoundId r \<noteq> None) (Run_refused ''planning with round''),
         reject (ar_executionGroupId r \<noteq> None \<or> ar_executionLaneId r \<noteq> None) (Run_refused ''planning lane''),
         reject (ar_workspace r \<noteq> None) (Run_refused ''planning with workspace'')])"

fun owner_task :: "workspace_owner \<Rightarrow> string" where
  "owner_task (Owner_task t) = t"
| "owner_task (Owner_work_item t _) = t"
| "owner_task (Owner_review_round t _) = t"
| "owner_task (Owner_integration t _) = t"
| "owner_task (Owner_lane t _ _ _ _ _) = t"

definition owner_error :: "'l agent_run \<Rightarrow> workspace_owner \<Rightarrow> run_error option" where
  "owner_error r w = first_error
     [reject (owner_task w \<noteq> ar_taskId r) (Run_refused ''workspace of another task''),
      (case w of
         Owner_task _ \<Rightarrow> None
       | Owner_work_item _ i \<Rightarrow> reject (Some i \<noteq> ar_workItemId r) (Run_refused ''workspace of another work item'')
       | Owner_review_round _ i \<Rightarrow> first_error
           [reject (ar_purpose r \<noteq> Run_review) (Run_refused ''round workspace without review''),
            reject (Some i \<noteq> ar_reviewRoundId r) (Run_refused ''workspace of another round'')]
       | Owner_integration _ _ \<Rightarrow> Some (Run_refused ''integration workspace'')
       | Owner_lane _ g l purpose item round \<Rightarrow> first_error
           [reject (Some g \<noteq> ar_executionGroupId r \<or> Some l \<noteq> ar_executionLaneId r) (Run_refused ''lane lineage differs''),
            reject (purpose = Purpose_execution \<and> item \<noteq> ar_workItemId r) (Run_refused ''lane work item differs''),
            reject (purpose = Purpose_review \<and> round \<noteq> ar_reviewRoundId r) (Run_refused ''lane round differs'')])]"

definition review_owner :: "'l agent_run \<Rightarrow> workspace_owner \<Rightarrow> bool" where
  "review_owner r w =
     (case w of
        Owner_review_round _ i \<Rightarrow> Some i = ar_reviewRoundId r
      | Owner_lane _ _ _ purpose _ round \<Rightarrow> purpose = Purpose_review \<and> round = ar_reviewRoundId r
      | _ \<Rightarrow> False)"

definition purpose_error :: "'l agent_run \<Rightarrow> run_error option" where
  "purpose_error r =
     (if ar_purpose r = Run_review then first_error
        [reject (ar_reviewRoundId r = None) (Run_refused ''review without round''),
         reject (\<not> (\<exists>w \<in> set_option (ar_workspace r). review_owner r (mw_owner w))) (Run_refused ''review without its workspace''),
         reject (\<not> (\<exists>w \<in> set_option (ar_workspace r). mw_entries w \<noteq> [] \<and> list_all (\<lambda>e. we_access e = Access_write) (mw_entries w)))
           (Run_refused ''review workspace not writable'')]
      else first_error
        [reject (ar_reviewRoundId r \<noteq> None) (Run_refused ''execution with round''),
         when_some (ar_workspace r) (\<lambda>w. reject (case mw_owner w of Owner_review_round _ _ \<Rightarrow> True
           | Owner_lane _ _ _ purpose _ _ \<Rightarrow> purpose \<noteq> Purpose_execution | _ \<Rightarrow> False) (Run_refused ''execution in a review workspace''))])"

definition effective_error :: "'l run_port \<Rightarrow> 'l agent_run \<Rightarrow> run_error option" where
  "effective_error port r = first_error
     [reject (\<not> rp_valid port (ar_effective r)) (Run_refused ''launch invalid''),
      when_some (ar_workspace r) (\<lambda>w. reject (rp_root port (ar_effective r) \<noteq> mw_root w \<or> rp_entries port (ar_effective r) \<noteq> mw_entries w)
        (Run_refused ''launch workspace differs'')),
      (if ar_purpose r = Run_review then first_error
         [reject (rp_reviewRoundId port (ar_effective r) \<noteq> ar_reviewRoundId r) (Run_refused ''launch round differs''),
          reject (\<not> (\<exists>w \<in> set_option (ar_workspace r). \<exists>e \<in> set (mw_entries w).
            rp_reviewBaseCommit port (ar_effective r) = Some (we_baseCommit e))) (Run_refused ''launch base differs'')]
       else reject (rp_reviewRoundId port (ar_effective r) \<noteq> None) (Run_refused ''execution with review launch''))]"

definition envelope_purpose_of :: "run_purpose \<Rightarrow> envelope_purpose" where
  "envelope_purpose_of p = (case p of Run_execution \<Rightarrow> For_execution | Run_review \<Rightarrow> For_review | Run_planning \<Rightarrow> For_planning)"

definition runEnvelopeContext :: "'l agent_run \<Rightarrow> envelope_context" where
  "runEnvelopeContext r = \<lparr>ec_runId = ar_id r, ec_roleName = ar_roleName r, ec_purpose = envelope_purpose_of (ar_purpose r),
     ec_subject = \<lparr>rs_taskId = Some (ar_taskId r), rs_workItemId = ar_workItemId r, rs_reviewRoundId = ar_reviewRoundId r,
       rs_executionGroupId = ar_executionGroupId r,
       rs_executionLaneId = (if ar_executionGroupId r = None then None else ar_executionLaneId r),
       rs_sourceExecutionGroupId = ar_sourceExecutionGroupId r\<rparr>\<rparr>"

definition outcome_error :: "'l agent_run \<Rightarrow> run_error option" where
  "outcome_error r =
     (case ar_result r of
        None \<Rightarrow> reject (ar_status r \<noteq> Run_active) (Run_refused ''terminal without result'')
      | Some result \<Rightarrow>
          if ar_status r = Run_active then Some (Run_refused ''active with result'')
          else first_error
            [validateRunResult result,
             (if ar_status r = Run_failed then first_error
                [reject (rr_failureReason result = None) (Run_refused ''failure reason''),
                 reject (rr_diagnostic result = None) (Run_refused ''failure diagnostic''),
                 reject (rr_systemEvidence result \<noteq> None) (Run_refused ''failure with evidence'')]
              else first_error
                [reject (rr_output result = None) (Run_refused ''completed without output''),
                 reject (rr_failureReason result \<noteq> None \<or> rr_diagnostic result \<noteq> None) (Run_refused ''completed with failure'')])])"

definition validateRun :: "'l run_port \<Rightarrow> 'l agent_run \<Rightarrow> run_error + 'l agent_run" where
  "validateRun port r = check
     [run_ref_error (ar_taskId r) K_run (ar_id r),
      run_check ''roleName'' (requireIdentity (ar_roleName r)),
      reject (ar_inputs r = []) (Run_refused ''no input''),
      inputs_error 1 None (ar_inputs r),
      when_some (ar_workItemId r) (run_ref_error (ar_taskId r) K_workItem),
      when_some (ar_reviewRoundId r) (run_ref_error (ar_taskId r) K_reviewRound),
      lineage_error r,
      planning_error port r,
      when_some (ar_workspace r) (\<lambda>w. first_error
        [map_option Run_workspace (failure (validateManagedWorkspace (rp_cwd port) w)), owner_error r (mw_owner w)]),
      purpose_error r,
      effective_error port r,
      first_error (map (\<lambda>i. failure (createRunInputEnvelope (runEnvelopeContext r) (ir_input i))) (ar_inputs r)),
      run_check ''createdAt'' (requireTimestamp (ar_createdAt r)),
      run_check ''updatedAt'' (requireTimestamp (ar_updatedAt r)),
      outcome_error r] r"

subsection \<open>Operations\<close>

definition appendRunInput :: "'l run_port \<Rightarrow> 'l agent_run \<Rightarrow> run_input \<Rightarrow> time \<Rightarrow> run_error + 'l agent_run" where
  "appendRunInput port r input now =
     bind_result (validateRun port r) (\<lambda>_.
     if ar_status r \<noteq> Run_active then Inl (Run_refused ''terminal'')
     else if date_less (toISOString now) (ar_updatedAt r) then Inl (Run_refused ''input moved backwards'')
     else bind_result (runInputRecord input (int (length (ar_inputs r)) + 1) (toISOString now)) (\<lambda>record.
       validateRun port (r\<lparr>ar_inputs := ar_inputs r @ [record], ar_updatedAt := toISOString now\<rparr>)))"

definition runInputEnvelope :: "'l run_port \<Rightarrow> 'l agent_run \<Rightarrow> nat \<Rightarrow> run_error + run_envelope" where
  "runInputEnvelope port r sequence =
     bind_result (validateRun port r) (\<lambda>_.
     bind_result (requireRunContextSnapshotRef (ir_input (hd (ar_inputs r)))) (\<lambda>_.
     if sequence = 0 \<or> length (ar_inputs r) < sequence then Inl (Run_refused ''input does not exist'')
     else createRunInputEnvelope (runEnvelopeContext r) (ir_input (ar_inputs r ! (sequence - 1)))))"

definition finishRun ::
  "'l run_port \<Rightarrow> 'l agent_run \<Rightarrow> run_status \<Rightarrow> unicode option \<Rightarrow> time \<Rightarrow> run_failure option \<Rightarrow> provider_result option \<Rightarrow>
   system_evidence option \<Rightarrow> unicode option \<Rightarrow> run_error + 'l agent_run" where
  "finishRun port r status output now failureReason provider systemEvidence diagnostic =
     (if ar_status r \<noteq> Run_active then Inl (Run_refused ''already terminal'')
      else case first_error
          [when_some output requireResultText, when_some diagnostic requireDiagnosticText,
           when_some provider validateRunProviderResult, when_some systemEvidence validateRunSystemEvidence] of
        Some e \<Rightarrow> Inl e
      | None \<Rightarrow> validateRun port (r\<lparr>ar_status := status,
          ar_result := Some \<lparr>rr_output = output, rr_diagnostic = diagnostic, rr_completedAt = toISOString now, rr_provider = provider,
            rr_systemEvidence = systemEvidence, rr_failureReason = failureReason\<rparr>,
          ar_updatedAt := toISOString now\<rparr>))"

definition completeRun ::
  "'l run_port \<Rightarrow> 'l agent_run \<Rightarrow> unicode \<Rightarrow> time \<Rightarrow> provider_result option \<Rightarrow> system_evidence option \<Rightarrow> run_error + 'l agent_run" where
  "completeRun port r output now provider systemEvidence =
     finishRun port r Run_completed (Some output) now None provider systemEvidence None"

definition failRun ::
  "'l run_port \<Rightarrow> 'l agent_run \<Rightarrow> run_failure \<Rightarrow> unicode \<Rightarrow> time \<Rightarrow> provider_result option \<Rightarrow> unicode option \<Rightarrow> run_error + 'l agent_run" where
  "failRun port r reason diagnostic now provider output =
     finishRun port r Run_failed output now (Some reason) provider None (Some (boundedRunFailureDiagnostic diagnostic))"

subsection \<open>Bounded diagnostics\<close>

lemma utf8_size_pos: "0 < utf8_size c"
  by (simp add: utf8_size_def)

lemma utf8_bytes_simps [simp]:
  "utf8_bytes [] = 0" "utf8_bytes (c # cs) = utf8_size c + utf8_bytes cs" "utf8_bytes (cs @ ds) = utf8_bytes cs + utf8_bytes ds"
  by (simp_all add: utf8_bytes_def)

lemma decoded_prefix_cases:
  "(prefix (decoded_prefix n cs) cs \<and> utf8_bytes (decoded_prefix n cs) \<le> n) \<or>
   (\<exists>p. decoded_prefix n cs = p @ [replacement_character] \<and> prefix p cs \<and> utf8_bytes p \<le> n)"
proof (induction n cs rule: decoded_prefix.induct)
  case (2 n c cs)
  show ?case
  proof (cases "utf8_size c \<le> n")
    case True
    from "2.IH" [OF this] show ?thesis
    proof
      assume "prefix (decoded_prefix (n - utf8_size c) cs) cs \<and> utf8_bytes (decoded_prefix (n - utf8_size c) cs) \<le> n - utf8_size c"
      then show ?thesis using True by auto
    next
      assume "\<exists>p. decoded_prefix (n - utf8_size c) cs = p @ [replacement_character] \<and> prefix p cs \<and> utf8_bytes p \<le> n - utf8_size c"
      then obtain p where "decoded_prefix (n - utf8_size c) cs = p @ [replacement_character]" "prefix p cs" "utf8_bytes p \<le> n - utf8_size c"
        by blast
      then show ?thesis using True by (intro disjI2 exI [of _ "c # p"]) auto
    qed
  next
    case False
    then show ?thesis by (cases "n = 0") auto
  qed
qed simp

definition diagnostic_source :: "unicode \<Rightarrow> unicode" where
  "diagnostic_source d = safe_text (if \<not> blank_text d then d else codes ''Provider reported a failed Agent AgentRun.'')"

lemma bounded_prefix:
  "prefix (boundedRunFailureDiagnostic d) (diagnostic_source d) \<and> utf8_bytes (boundedRunFailureDiagnostic d) \<le> MAX_RUN_FAILURE_DIAGNOSTIC_BYTES"
proof -
  let ?s = "diagnostic_source d" and ?p = "decoded_prefix MAX_RUN_FAILURE_DIAGNOSTIC_BYTES (diagnostic_source d)"
  have b: "boundedRunFailureDiagnostic d = (if utf8_bytes ?s \<le> MAX_RUN_FAILURE_DIAGNOSTIC_BYTES then ?s
      else if ?p \<noteq> [] \<and> last ?p = replacement_character then butlast ?p else ?p)"
    by (simp add: boundedRunFailureDiagnostic_def Let_def diagnostic_source_def)
  have "prefix (butlast q) r \<and> utf8_bytes (butlast q) \<le> n" if "prefix q r" "utf8_bytes q \<le> n" for q r n
    using that by (cases q rule: rev_cases) (auto dest: append_prefixD)
  then show ?thesis using decoded_prefix_cases [of MAX_RUN_FAILURE_DIAGNOSTIC_BYTES ?s] unfolding b by auto
qed

lemma safe_text_nul: "0 \<notin> set (safe_text cs)"
  by (auto simp: safe_text_def replacement_character_def)

lemma bounded_nul: "0 \<notin> set (boundedRunFailureDiagnostic d)"
  using bounded_prefix [of d] safe_text_nul by (auto simp: diagnostic_source_def dest!: set_mono_prefix)

lemma bounded_first:
  assumes "d = c # cs" "\<not> white c" "c \<noteq> 0" "c \<noteq> replacement_character"
  shows "\<not> blank_text (boundedRunFailureDiagnostic d)"
proof -
  have src: "diagnostic_source d = c # safe_text cs"
    using assms by (simp add: diagnostic_source_def blank_text_def safe_text_def)
  have "utf8_size c \<le> 4" by (simp add: utf8_size_def)
  then have "decoded_prefix MAX_RUN_FAILURE_DIAGNOSTIC_BYTES (c # safe_text cs) =
      c # decoded_prefix (MAX_RUN_FAILURE_DIAGNOSTIC_BYTES - utf8_size c) (safe_text cs)"
    by (simp add: MAX_RUN_FAILURE_DIAGNOSTIC_BYTES_def)
  then show ?thesis
    using assms src by (auto simp: boundedRunFailureDiagnostic_def Let_def diagnostic_source_def blank_text_def split: if_splits)
qed

lemma requireDiagnostic_bounded:
  "requireDiagnosticText (boundedRunFailureDiagnostic d) = None \<longleftrightarrow> \<not> blank_text (boundedRunFailureDiagnostic d)"
  using bounded_prefix [of d] bounded_nul [of d] by (auto simp: resultText_error_def reject_def)

lemma spaces_decoded: "decoded_prefix n (replicate n 32 @ [c]) = replicate n 32"
  by (induction n) (auto simp: utf8_size_def)

lemma spaces_bounded: "boundedRunFailureDiagnostic (replicate MAX_RUN_FAILURE_DIAGNOSTIC_BYTES 32 @ [120]) = replicate MAX_RUN_FAILURE_DIAGNOSTIC_BYTES 32"
proof -
  let ?n = "MAX_RUN_FAILURE_DIAGNOSTIC_BYTES"
  have s: "safe_text (replicate ?n 32 @ [120]) = replicate ?n 32 @ [120]" by (simp add: safe_text_def)
  have b: "\<not> blank_text (replicate ?n 32 @ [120])" by (simp add: blank_text_def white_def)
  have u: "utf8_bytes (replicate m 32 @ [120]) = m + 1" for m by (induction m) (simp_all add: utf8_size_def)
  have "last (replicate m 32) \<noteq> replacement_character" if "replicate m 32 \<noteq> []" for m
    using that by (simp add: replacement_character_def)
  then show ?thesis using s b u [of ?n] spaces_decoded [of ?n 120] by (auto simp: boundedRunFailureDiagnostic_def Let_def)
qed

subsection \<open>Runs of operations\<close>

datatype run_command =
    Append_input run_input
  | Complete_run unicode "provider_result option" "system_evidence option"
  | Fail_run run_failure unicode "provider_result option" "unicode option"

fun agent_run_step :: "'l run_port \<Rightarrow> time \<times> run_command \<Rightarrow> 'l agent_run \<Rightarrow> run_error + 'l agent_run" where
  "agent_run_step port (now, Append_input input) r = appendRunInput port r input now"
| "agent_run_step port (now, Complete_run output provider evidence) r = completeRun port r output now provider evidence"
| "agent_run_step port (now, Fail_run reason diagnostic provider output) r = failRun port r reason diagnostic now provider output"

definition run_valid :: "'l run_port \<Rightarrow> 'l agent_run \<Rightarrow> bool" where
  "run_valid port r \<longleftrightarrow> validateRun port r = Inr r"

definition run_below :: "'l agent_run \<Rightarrow> 'l agent_run \<Rightarrow> bool" where
  "run_below r t \<longleftrightarrow> t\<lparr>ar_inputs := ar_inputs r, ar_status := ar_status r, ar_result := ar_result r, ar_updatedAt := ar_updatedAt r\<rparr> = r \<and>
     prefix (ar_inputs r) (ar_inputs t) \<and> (ar_status r \<noteq> Run_active \<longrightarrow> t = r)"

lemma validateRun_Inr: "validateRun port r = Inr t \<Longrightarrow> t = r \<and> run_valid port r"
  by (auto simp: run_valid_def validateRun_def check_def split: option.splits)

lemma append_result:
  assumes "appendRunInput port r input now = Inr t"
  shows "\<exists>i. t = r\<lparr>ar_inputs := ar_inputs r @ [i], ar_updatedAt := toISOString now\<rparr> \<and> ar_status r = Run_active \<and> run_valid port t"
  using assms by (auto simp: appendRunInput_def bind_result_Inr dest!: validateRun_Inr split: if_split_asm)

lemma finish_result:
  assumes "finishRun port r status output now reason provider evidence diagnostic = Inr t"
  shows "\<exists>x. t = r\<lparr>ar_status := status, ar_result := Some x, ar_updatedAt := toISOString now\<rparr> \<and> ar_status r = Run_active \<and> run_valid port t"
  using assms by (auto simp: finishRun_def dest!: validateRun_Inr split: if_split_asm option.split_asm)

lemma agent_run_step_result:
  assumes "agent_run_step port c r = Inr t"
  shows "run_valid port t \<and> run_below r t"
proof -
  obtain now cmd where c: "c = (now, cmd)" by (cases c)
  show ?thesis using assms unfolding c
    by (cases cmd) (auto simp: completeRun_def failRun_def run_below_def dest!: append_result finish_result)
qed

lemma run_below_refl: "run_below r r"
  by (simp add: run_below_def)

lemma run_below_trans: "run_below r s \<Longrightarrow> run_below s t \<Longrightarrow> run_below r t"
proof -
  assume a: "run_below r s" and b: "run_below s t"
  have "t\<lparr>ar_inputs := ar_inputs r, ar_status := ar_status r, ar_result := ar_result r, ar_updatedAt := ar_updatedAt r\<rparr> =
      (t\<lparr>ar_inputs := ar_inputs s, ar_status := ar_status s, ar_result := ar_result s, ar_updatedAt := ar_updatedAt s\<rparr>)
        \<lparr>ar_inputs := ar_inputs r, ar_status := ar_status r, ar_result := ar_result r, ar_updatedAt := ar_updatedAt r\<rparr>" by simp
  also have "\<dots> = r" using a b by (simp add: run_below_def)
  finally show ?thesis using a b by (auto simp: run_below_def intro: prefix_order.trans)
qed

interpretation agent_runs: ratchet_system "\<lambda>_. True" "agent_run_step port" "\<lambda>_. True" run_below for port :: "'l run_port"
  by unfold_locales (auto simp: run_below_refl intro: run_below_trans dest: agent_run_step_result)

lemma run_last_valid:
  assumes "run_commands (agent_run_step port) cs r = Inr t" "cs \<noteq> []"
  shows "run_valid port t"
proof -
  obtain ds c where "cs = ds @ [c]" using assms(2) by (cases cs rule: rev_cases) auto
  then show ?thesis using assms(1) agent_run_step_result by (fastforce simp: run_commands_append bind_result_Inr)
qed

subsection \<open>What a valid run says\<close>

lemma run_valid_iff: "run_valid port r \<longleftrightarrow>
  (\<forall>e \<in> set [run_ref_error (ar_taskId r) K_run (ar_id r),
      run_check ''roleName'' (requireIdentity (ar_roleName r)),
      reject (ar_inputs r = []) (Run_refused ''no input''),
      inputs_error 1 None (ar_inputs r),
      when_some (ar_workItemId r) (run_ref_error (ar_taskId r) K_workItem),
      when_some (ar_reviewRoundId r) (run_ref_error (ar_taskId r) K_reviewRound),
      lineage_error r,
      planning_error port r,
      when_some (ar_workspace r) (\<lambda>w. first_error
        [map_option Run_workspace (failure (validateManagedWorkspace (rp_cwd port) w)), owner_error r (mw_owner w)]),
      purpose_error r,
      effective_error port r,
      first_error (map (\<lambda>i. failure (createRunInputEnvelope (runEnvelopeContext r) (ir_input i))) (ar_inputs r)),
      run_check ''createdAt'' (requireTimestamp (ar_createdAt r)),
      run_check ''updatedAt'' (requireTimestamp (ar_updatedAt r)),
      outcome_error r]. e = None)"
  unfolding run_valid_def validateRun_def first_error_None [symmetric] by (simp only: check_Inr simp_thms)

lemma inputs_ordered:
  assumes "inputs_error i previous rs = None" "j < length rs"
  shows "ir_sequence (rs ! j) = i + int j \<and> Date_parse (ir_submittedAt (rs ! j)) \<noteq> None \<and>
    (0 < j \<longrightarrow> \<not> date_less (ir_submittedAt (rs ! j)) (ir_submittedAt (rs ! (j - 1))))"
  using assms
proof (induction rs arbitrary: i previous j)
  case (Cons r rs)
  have r: "ir_sequence r = i" "Date_parse (ir_submittedAt r) \<noteq> None" "inputs_error (i + 1) (Some (ir_submittedAt r)) rs = None"
    using Cons.prems(1) by (auto simp: reject_def requireTimestamp_def failure_def split: option.splits if_splits)
  show ?case
  proof (cases j)
    case 0
    then show ?thesis using r by simp
  next
    case (Suc k)
    have "\<not> date_less (ir_submittedAt (rs ! 0)) (ir_submittedAt r)" if "rs \<noteq> []"
      using that r(3) by (cases rs) (auto simp: reject_def split: option.splits if_splits)
    then show ?thesis using Cons.IH [OF r(3), of k] Cons.prems(2) Suc by (cases k) auto
  qed
qed simp

lemma submitted_in_order:
  assumes "inputs_error i previous rs = None" "j < length rs" "k \<le> j"
  shows "\<not> date_less (ir_submittedAt (rs ! j)) (ir_submittedAt (rs ! k))"
  using assms(3,2)
proof (induction j rule: dec_induct)
  case base
  then show ?case by (auto simp: date_less_def split: option.splits)
next
  case (step j)
  have "\<not> date_less (ir_submittedAt (rs ! j)) (ir_submittedAt (rs ! k))" using step by simp
  moreover have "\<not> date_less (ir_submittedAt (rs ! Suc j)) (ir_submittedAt (rs ! j))" "Date_parse (ir_submittedAt (rs ! j)) \<noteq> None"
    using inputs_ordered [OF assms(1), of "Suc j"] inputs_ordered [OF assms(1), of j] step.prems by auto
  ultimately show ?case by (auto simp: date_less_def split: option.splits)
qed

definition outcome_recorded :: "'l agent_run \<Rightarrow> bool" where
  "outcome_recorded r =
     (case ar_result r of
        None \<Rightarrow> ar_status r = Run_active
      | Some x \<Rightarrow> ar_status r = Run_completed \<and> (\<exists>t. rr_output x = Some t \<and> \<not> blank_text t) \<and> rr_failureReason x = None \<and> rr_diagnostic x = None \<or>
          ar_status r = Run_failed \<and> rr_failureReason x \<noteq> None \<and> (\<exists>t. rr_diagnostic x = Some t \<and> \<not> blank_text t) \<and> rr_systemEvidence x = None)"

lemma valid_outcome: "run_valid port r \<Longrightarrow> outcome_recorded r"
  unfolding run_valid_iff
  by (cases "ar_status r"; cases "ar_result r")
     (auto simp: outcome_recorded_def outcome_error_def validateRunResult_def resultText_error_def reject_def split: if_splits)

definition delivery_free :: "'l agent_run \<Rightarrow> bool" where
  "delivery_free r \<longleftrightarrow> ar_workItemId r = None \<and> ar_reviewRoundId r = None \<and> ar_executionGroupId r = None \<and> ar_executionLaneId r = None \<and>
     ar_sourceExecutionGroupId r = None \<and> ar_workspace r = None"

lemma valid_planning: "run_valid port r \<Longrightarrow> ar_purpose r = Run_planning \<Longrightarrow> delivery_free r"
  unfolding run_valid_iff
  by (cases "ar_sourceExecutionGroupId r")
     (auto simp: planning_error_def lineage_error_def delivery_free_def reject_def split: if_splits)

definition review_isolated :: "'l agent_run \<Rightarrow> bool" where
  "review_isolated r \<longleftrightarrow> (\<exists>i w. ar_reviewRoundId r = Some i \<and> ar_workspace r = Some w \<and> review_owner r (mw_owner w) \<and> mw_entries w \<noteq> [] \<and>
     list_all (\<lambda>e. we_access e = Access_write) (mw_entries w))"

lemma valid_review: "run_valid port r \<Longrightarrow> ar_purpose r = Run_review \<Longrightarrow> review_isolated r"
  unfolding run_valid_iff
  by (cases "ar_workspace r"; cases "ar_reviewRoundId r") (auto simp: purpose_error_def review_isolated_def reject_def split: if_splits)

subsection \<open>Every provider event can be recorded\<close>

lemma finish_valid:
  assumes r: "run_valid port r" "ar_status r = Run_active" and now: "valid_time now"
    and x: "validateRunResult x = None" "rr_completedAt x = toISOString now"
    and st: "st = Run_completed \<and> rr_output x \<noteq> None \<and> rr_failureReason x = None \<and> rr_diagnostic x = None \<or>
      st = Run_failed \<and> rr_failureReason x \<noteq> None \<and> rr_diagnostic x \<noteq> None \<and> rr_systemEvidence x = None"
  shows "run_valid port (r\<lparr>ar_status := st, ar_result := Some x, ar_updatedAt := toISOString now\<rparr>)" (is "run_valid port ?t")
proof -
  have o: "owner_error ?t w = owner_error r w" "review_owner ?t w = review_owner r w" for w
    by (cases w; simp add: owner_error_def review_owner_def)+
  have "lineage_error ?t = lineage_error r" "planning_error port ?t = planning_error port r" "purpose_error ?t = purpose_error r"
    "effective_error port ?t = effective_error port r" "runEnvelopeContext ?t = runEnvelopeContext r"
    by (simp_all add: lineage_error_def planning_error_def purpose_error_def effective_error_def runEnvelopeContext_def o)
  moreover have "outcome_error ?t = None" using x(1) st by (auto simp: outcome_error_def reject_def)
  moreover have "run_check ''updatedAt'' (requireTimestamp (toISOString now)) = None" using now by (simp add: failure_def)
  ultimately show ?thesis using r(1) o(1) unfolding run_valid_iff by simp
qed

lemma complete_total:
  assumes "run_valid port r" "ar_status r = Run_active" "valid_time now" "requireResultText output = None"
  shows "completeRun port r output now None None = Inr (r\<lparr>ar_status := Run_completed,
    ar_result := Some \<lparr>rr_output = Some output, rr_diagnostic = None, rr_completedAt = toISOString now, rr_provider = None,
      rr_systemEvidence = None, rr_failureReason = None\<rparr>, ar_updatedAt := toISOString now\<rparr>)"
proof -
  let ?x = "\<lparr>rr_output = Some output, rr_diagnostic = None, rr_completedAt = toISOString now, rr_provider = None,
      rr_systemEvidence = None, rr_failureReason = None\<rparr>"
  have "validateRunResult ?x = None" using assms(3,4) by (simp add: validateRunResult_def failure_def)
  from finish_valid [OF assms(1-3) this, of Run_completed] show ?thesis
    using assms(2,4) by (simp add: completeRun_def finishRun_def run_valid_def)
qed

lemma fail_total:
  assumes "run_valid port r" "ar_status r = Run_active" "valid_time now" "\<not> blank_text (boundedRunFailureDiagnostic d)"
  shows "failRun port r reason d now None None = Inr (r\<lparr>ar_status := Run_failed,
    ar_result := Some \<lparr>rr_output = None, rr_diagnostic = Some (boundedRunFailureDiagnostic d), rr_completedAt = toISOString now, rr_provider = None,
      rr_systemEvidence = None, rr_failureReason = Some reason\<rparr>, ar_updatedAt := toISOString now\<rparr>)"
proof -
  let ?x = "\<lparr>rr_output = None, rr_diagnostic = Some (boundedRunFailureDiagnostic d), rr_completedAt = toISOString now, rr_provider = None,
      rr_systemEvidence = None, rr_failureReason = Some reason\<rparr>"
  have d: "requireDiagnosticText (boundedRunFailureDiagnostic d) = None" using assms(4) requireDiagnostic_bounded by blast
  then have "validateRunResult ?x = None" using assms(3) by (simp add: validateRunResult_def failure_def)
  from finish_valid [OF assms(1-3) this, of Run_failed] show ?thesis
    using assms(2) d by (simp add: failRun_def finishRun_def run_valid_def)
qed

lemma fail_blank: "blank_text (boundedRunFailureDiagnostic d) \<Longrightarrow> \<exists>e. failRun port r reason d now provider output = Inl e"
  using requireDiagnostic_bounded [of d]
  by (auto simp: failRun_def finishRun_def split: option.split)

lemma transport_diagnostic:
  assumes "transportAgentResult v = Not_transported d f"
  shows "\<not> blank_text (boundedRunFailureDiagnostic d)"
proof -
  have "\<exists>cs. d = codes (CHR ''P'' # cs)"
    using assms by (auto simp: transportAgentResult_def split: option.splits if_splits)
  then obtain cs where "d = unit_of CHR ''P'' # codes cs" by (auto simp: codes_def)
  moreover have "unit_of CHR ''P'' = 80" by code_simp
  ultimately show ?thesis by (intro bounded_first) (auto simp: white_def replacement_character_def)
qed

lemma transport_text: "transportAgentResult v = Transported t \<longleftrightarrow> v = Some t \<and> requireResultText t = None"
  by (auto simp: transportAgentResult_def resultText_error_def reject_def split: option.splits if_splits)

subsection \<open>A planning run\<close>

definition demo_run_port :: "unit run_port" where
  "demo_run_port = \<lparr>rp_valid = (\<lambda>_. True), rp_planning = (\<lambda>_. True), rp_reviewRoundId = (\<lambda>_. None), rp_reviewBaseCommit = (\<lambda>_. None),
     rp_root = (\<lambda>_. ''/''), rp_entries = (\<lambda>_. []), rp_cwd = ''/''\<rparr>"

definition demo_run_input :: run_input where
  "demo_run_input = \<lparr>ri_source = From_yui User_message, ri_directive = Some ''plan'', ri_contextSnapshotRef = None, ri_deltaRefIds = []\<rparr>"

definition demo_agent_run :: "unit agent_run" where
  "demo_agent_run = \<lparr>ar_id = ''run-1'', ar_taskId = ''task-1'', ar_roleName = ''leader'', ar_mode = Mode_new,
     ar_inputs = [\<lparr>ir_sequence = 1, ir_submittedAt = toISOString 0, ir_input = demo_run_input\<rparr>], ar_purpose = Run_planning,
     ar_workItemId = None, ar_reviewRoundId = None, ar_executionGroupId = None, ar_executionLaneId = None, ar_sourceExecutionGroupId = None,
     ar_workspace = None, ar_effective = (), ar_status = Run_active, ar_result = None,
     ar_createdAt = toISOString 0, ar_updatedAt = toISOString 0\<rparr>"

lemma demo_run_pieces:
  "run_ref_error ''task-1'' K_run ''run-1'' = None" "failure (requireIdentity ''leader'') = None" "validateRunInput demo_run_input = Inr demo_run_input"
  "valid_time 0"
  by code_simp+

lemma demo_output: "requireResultText [111, 107] = None" "\<not> blank_text (boundedRunFailureDiagnostic [120])"
  using bounded_first [of "[120]" 120 "[]"]
  by (simp_all add: resultText_error_def reject_def blank_text_def white_def utf8_size_def MAX_RUN_RESULT_OUTPUT_BYTES_def replacement_character_def)

lemma demo_envelope: "failure (createRunInputEnvelope (runEnvelopeContext demo_agent_run) demo_run_input) = None"
proof -
  have "runEnvelopeContext demo_agent_run = \<lparr>ec_runId = ''run-1'', ec_roleName = ''leader'', ec_purpose = For_planning,
     ec_subject = \<lparr>rs_taskId = Some ''task-1'', rs_workItemId = None, rs_reviewRoundId = None, rs_executionGroupId = None,
       rs_executionLaneId = None, rs_sourceExecutionGroupId = None\<rparr>\<rparr>"
    by (simp add: runEnvelopeContext_def demo_agent_run_def envelope_purpose_of_def)
  moreover have "failure (createRunInputEnvelope \<lparr>ec_runId = ''run-1'', ec_roleName = ''leader'', ec_purpose = For_planning,
     ec_subject = \<lparr>rs_taskId = Some ''task-1'', rs_workItemId = None, rs_reviewRoundId = None, rs_executionGroupId = None,
       rs_executionLaneId = None, rs_sourceExecutionGroupId = None\<rparr>\<rparr> demo_run_input) = None" by code_simp
  ultimately show ?thesis by simp
qed

lemma demo_agent_run_valid: "run_valid demo_run_port demo_agent_run" "ar_status demo_agent_run = Run_active"
proof -
  have i: "ar_inputs demo_agent_run = [\<lparr>ir_sequence = 1, ir_submittedAt = toISOString 0, ir_input = demo_run_input\<rparr>]"
    by (simp add: demo_agent_run_def)
  have "inputs_error 1 None (ar_inputs demo_agent_run) = None" by (simp add: i demo_run_pieces)
  moreover have "first_error (map (\<lambda>i. failure (createRunInputEnvelope (runEnvelopeContext demo_agent_run) (ir_input i))) (ar_inputs demo_agent_run)) = None"
    by (simp add: i demo_envelope)
  moreover have "lineage_error demo_agent_run = None" "planning_error demo_run_port demo_agent_run = None" "purpose_error demo_agent_run = None"
    "effective_error demo_run_port demo_agent_run = None" "outcome_error demo_agent_run = None"
    by (simp_all add: lineage_error_def planning_error_def purpose_error_def effective_error_def outcome_error_def demo_agent_run_def
        demo_run_port_def reject_def)
  moreover have "run_ref_error (ar_taskId demo_agent_run) K_run (ar_id demo_agent_run) = None" "failure (requireIdentity (ar_roleName demo_agent_run)) = None"
    "failure (requireTimestamp (ar_createdAt demo_agent_run)) = None" "failure (requireTimestamp (ar_updatedAt demo_agent_run)) = None"
    "ar_workItemId demo_agent_run = None" "ar_reviewRoundId demo_agent_run = None" "ar_workspace demo_agent_run = None" "ar_inputs demo_agent_run \<noteq> []"
    by (simp_all add: demo_agent_run_def demo_run_pieces)
  ultimately show "run_valid demo_run_port demo_agent_run" unfolding run_valid_iff by (simp add: reject_def)
qed (simp add: demo_agent_run_def)

subsection \<open>What is proved\<close>

text \<open>
  C28. Over every sequence of appended inputs and of completions and failures, the run that results is valid; everything
  the run was created with is unchanged, its inputs are only appended, numbered from one and in order of time, and a
  terminal run never changes. A completed run has an output and no failure, a failed one a reason and a diagnostic and no
  evidence; a planning run refers to no delivery and a review run works in its own writable workspace.\<close>

theorem agent_run_history:
  assumes "run_commands (agent_run_step port) cs r = Inr t" "cs \<noteq> []"
  shows "run_valid port t \<and> run_below r t \<and> outcome_recorded t \<and>
    (\<forall>j < length (ar_inputs t). ir_sequence (ar_inputs t ! j) = int j + 1 \<and>
      (\<forall>k \<le> j. \<not> date_less (ir_submittedAt (ar_inputs t ! j)) (ir_submittedAt (ar_inputs t ! k)))) \<and>
    (ar_purpose t = Run_planning \<longrightarrow> delivery_free t) \<and> (ar_purpose t = Run_review \<longrightarrow> review_isolated t)"
proof -
  have v: "run_valid port t" by (rule run_last_valid [OF assms])
  then have i: "inputs_error 1 None (ar_inputs t) = None" by (simp add: run_valid_iff)
  have "run_below r t" using agent_runs.run_below [OF TrueI _ assms(1)] by (simp add: list_all_iff)
  then show ?thesis
    using v valid_outcome [OF v] valid_planning [OF v] valid_review [OF v] inputs_ordered [OF i] submitted_in_order [OF i]
    by (auto simp: add.commute)
qed

theorem agent_run_history_witness:
  "\<exists>t. run_commands (agent_run_step demo_run_port) [(0, Complete_run [111, 107] None None)] demo_agent_run = Inr t \<and>
     ar_status t = Run_completed \<and> run_below demo_agent_run t \<and> outcome_recorded t \<and> delivery_free t"
proof -
  obtain t where t: "completeRun demo_run_port demo_agent_run [111, 107] 0 None None = Inr t" "ar_status t = Run_completed" "ar_purpose t = Run_planning"
    using complete_total [OF demo_agent_run_valid demo_run_pieces(4) demo_output(1)] by (simp add: demo_agent_run_def)
  then have "run_commands (agent_run_step demo_run_port) [(0, Complete_run [111, 107] None None)] demo_agent_run = Inr t" by simp
  with agent_run_history [OF this] t show ?thesis by blast
qed

lemma reported_recorded:
  assumes "run_valid port r" "ar_status r = Run_active" "valid_time now"
  shows "case transportAgentResult v of
      Transported s \<Rightarrow> v = Some s \<and> (\<exists>t. completeRun port r s now None None = Inr t \<and> ar_status t = Run_completed \<and>
        (\<exists>x. ar_result t = Some x \<and> rr_output x = Some s))
    | Not_transported d f \<Rightarrow> (v = None \<or> (\<exists>s. v = Some s \<and> requireResultText s \<noteq> None)) \<and>
        (\<exists>t. failRun port r f d now None None = Inr t \<and> ar_status t = Run_failed)"
proof (cases "transportAgentResult v")
  case (Transported s)
  then have "v = Some s" "requireResultText s = None" using transport_text by blast+
  then show ?thesis using complete_total [OF assms] Transported by simp
next
  case (Not_transported d f)
  have "v = None \<or> (\<exists>s. v = Some s \<and> requireResultText s \<noteq> None)"
    using Not_transported transport_text [of v] by (cases v) auto
  then show ?thesis using fail_total [OF assms transport_diagnostic [OF Not_transported]] Not_transported by simp
qed

lemma blank_prefix_rejected:
  "\<exists>diagnostic. \<not> blank_text diagnostic \<and> (\<forall>port (r :: 'l agent_run) reason now provider out.
     \<exists>e. failRun port r reason diagnostic now provider out = Inl e)"
proof -
  let ?d = "replicate MAX_RUN_FAILURE_DIAGNOSTIC_BYTES 32 @ [120] :: unicode"
  have "\<not> blank_text ?d" "blank_text (boundedRunFailureDiagnostic ?d)" by (simp_all add: spaces_bounded blank_text_def list_all_iff white_def)
  then show ?thesis using fail_blank by blast
qed

text \<open>
  C29. Whatever a provider reports at the end of a turn can be recorded: the text of an agent is stored unchanged
  exactly if it has no NUL, is not blank and fits the limit, and otherwise the run fails with a diagnostic; both
  always succeed on a valid active run. A failure with any other diagnostic is recorded exactly if what is left of it
  within the limit is not blank; the cut comes after the test for blank texts, so there are diagnostics that are not
  blank and still make the failure itself fail, although the comment of the bounding function says that it never rejects
  a terminal event.\<close>

theorem run_terminalizes:
  assumes "run_valid port r" "ar_status r = Run_active" "valid_time now"
  shows "(case transportAgentResult v of
      Transported s \<Rightarrow> v = Some s \<and> (\<exists>t. completeRun port r s now None None = Inr t \<and> ar_status t = Run_completed \<and>
        (\<exists>x. ar_result t = Some x \<and> rr_output x = Some s))
    | Not_transported d f \<Rightarrow> (v = None \<or> (\<exists>s. v = Some s \<and> requireResultText s \<noteq> None)) \<and>
        (\<exists>t. failRun port r f d now None None = Inr t \<and> ar_status t = Run_failed)) \<and>
    ((\<exists>t. failRun port r reason diagnostic now None None = Inr t) \<longleftrightarrow> \<not> blank_text (boundedRunFailureDiagnostic diagnostic)) \<and>
    (\<exists>d. \<not> blank_text d \<and> (\<forall>f. \<exists>e. failRun port r f d now None None = Inl e))"
proof (intro conjI)
  show "(\<exists>t. failRun port r reason diagnostic now None None = Inr t) \<longleftrightarrow> \<not> blank_text (boundedRunFailureDiagnostic diagnostic)"
    using fail_total [OF assms] fail_blank by (metis Inl_Inr_False)
  show "\<exists>d. \<not> blank_text d \<and> (\<forall>f. \<exists>e. failRun port r f d now None None = Inl e)"
    using blank_prefix_rejected by blast
qed (rule reported_recorded [OF assms])

theorem run_terminalizes_witness:
  "transportAgentResult (Some [111, 107]) = Transported [111, 107] \<and>
   (\<exists>t. completeRun demo_run_port demo_agent_run [111, 107] 0 None None = Inr t \<and> ar_status t = Run_completed) \<and>
   \<not> blank_text (boundedRunFailureDiagnostic [120]) \<and> (\<exists>t. failRun demo_run_port demo_agent_run Runtime_failed [120] 0 None None = Inr t)"
proof -
  have "transportAgentResult (Some [111, 107]) = Transported [111, 107]" using transport_text demo_output(1) by blast
  then show ?thesis
    using demo_output(2) run_terminalizes [OF demo_agent_run_valid demo_run_pieces(4), of "Some [111, 107]" Runtime_failed "[120]"] by auto
qed

end
