(* ===== verification/Message.thy ===== *)
theory Message
  imports Validation "HOL-Library.AList"
begin

text \<open>
  Messages (\<open>src/src/message/message.ts\<close>): the inputs that users, operators and agents send to a Task or
  to a global Role, the receipts of their handling (\<open>inboxReceipt.ts\<close>), and the claims that hand a saved global input
  over to the turn after an interrupted one (\<open>registerGlobalInterruptThen\<close> of
  \<open>src/src/commands/globalRoleCommands.ts\<close>, \<open>recordGlobalSteerResult\<close> of \<open>globalInterrupt.ts\<close>), over the table
  of global messages of \<open>src/src/storage/sqliteStore.ts\<close>. The receipt of a submission
  (\<open>src/src/task/taskSubmission.ts\<close>) is stored and never read here: it is a type parameter.
\<close>

subsection \<open>Inbox receipts\<close>

datatype actor_scope = Actor_global | Actor_task

record inbox_actor =
  ia_scope :: actor_scope
  ia_taskId :: "string option"
  ia_roleName :: string
  ia_agentId :: string
  ia_nativeSessionId :: string
  ia_runId :: "string option"
  ia_attemptId :: "string option"

record inbox_claim =
  ix_requestId :: string
  ix_actor :: inbox_actor
  ix_at :: string

record inbox_disposition = inbox_claim +
  ix_reason :: string

record inbox_receipt =
  ib_claim :: inbox_claim
  ib_ack :: "inbox_disposition option"
  ib_retirement :: "inbox_disposition option"

datatype message_error =
    Msg_field string field_error
  | Msg_reference reference_error
  | Msg_refused string

abbreviation msg_check :: "string \<Rightarrow> field_error + 'a \<Rightarrow> message_error option" where
  "msg_check l r \<equiv> map_option (Msg_field l) (failure r)"

abbreviation msg_field :: "string \<Rightarrow> field_error + 'a \<Rightarrow> message_error + 'a" where
  "msg_field l \<equiv> map_error (Msg_field l)"

datatype handling_state = Unclaimed | Claimed_unacknowledged | Handled | Retired

definition inboxHandlingState :: "inbox_receipt option \<Rightarrow> handling_state" where
  "inboxHandlingState receipt =
     (case receipt of None \<Rightarrow> Unclaimed
      | Some r \<Rightarrow> if ib_retirement r \<noteq> None then Retired else if ib_ack r \<noteq> None then Handled else Claimed_unacknowledged)"

definition actor_error :: "inbox_actor \<Rightarrow> message_error option" where
  "actor_error a = first_error
     [reject ((ia_scope a = Actor_task) \<noteq> (ia_taskId a \<noteq> None)) (Msg_refused ''actor scope''),
      when_some (ia_taskId a) (\<lambda>v. msg_check ''actor'' (requireText v)),
      msg_check ''actor'' (requireText (ia_roleName a)), msg_check ''actor'' (requireText (ia_agentId a)),
      msg_check ''actor'' (requireText (ia_nativeSessionId a)),
      when_some (ia_runId a) (\<lambda>v. msg_check ''actor'' (requireText v)),
      when_some (ia_attemptId a) (\<lambda>v. msg_check ''actor'' (requireText v))]"

definition claim_entry_error :: "'a inbox_claim_scheme \<Rightarrow> message_error option" where
  "claim_entry_error c = first_error
     [msg_check ''inboxRequest'' (requireText (ix_requestId c)), msg_check ''inboxAt'' (requireTimestamp (ix_at c)), actor_error (ix_actor c)]"

definition disposition_error :: "inbox_disposition \<Rightarrow> message_error option" where
  "disposition_error d = first_error [claim_entry_error d, msg_check ''disposition'' (requireText (ix_reason d))]"

definition validateInboxReceipt :: "inbox_receipt option \<Rightarrow> message_error option" where
  "validateInboxReceipt receipt = when_some receipt (\<lambda>r. first_error
     [reject (ib_ack r \<noteq> None \<and> ib_retirement r \<noteq> None) (Msg_refused ''acknowledged and retired''),
      claim_entry_error (ib_claim r), when_some (ib_ack r) disposition_error, when_some (ib_retirement r) disposition_error])"

definition receipt_preserved :: "inbox_receipt option \<Rightarrow> inbox_receipt option \<Rightarrow> bool" where
  "receipt_preserved before after =
     (case before of None \<Rightarrow> True
      | Some p \<Rightarrow> (case after of None \<Rightarrow> False
          | Some n \<Rightarrow> ib_claim p = ib_claim n \<and> (ib_ack p \<noteq> None \<longrightarrow> ib_ack p = ib_ack n) \<and>
              (ib_retirement p \<noteq> None \<longrightarrow> ib_retirement p = ib_retirement n)))"

definition assertInboxReceiptPreserved :: "inbox_receipt option \<Rightarrow> inbox_receipt option \<Rightarrow> message_error option" where
  "assertInboxReceiptPreserved before after = reject (\<not> receipt_preserved before after) (Msg_refused ''handling ownership changed'')"

subsection \<open>Input controls\<close>

datatype input_action = Act_queue | Act_steer

record input_control =
  ic_action :: input_action
  ic_requestId :: string
  ic_expectedSessionId :: "string option"
  ic_expectedTarget :: "string option"

datatype control_state = Ctl_pending | Ctl_accepted | Ctl_rejected | Ctl_unknown

record control_target =
  ct_agentId :: string
  ct_nativeSessionId :: string
  ct_attemptId :: string

record control_outcome =
  co_requestId :: string
  co_receiptId :: string
  co_outcome :: control_state
  co_observedAt :: string
  co_target :: "control_target option"

definition validateControlTarget :: "control_outcome \<Rightarrow> message_error option" where
  "validateControlTarget c = when_some (co_target c) (\<lambda>t. first_error
     [msg_check ''targetAgent'' (requireText (ct_agentId t)), msg_check ''targetSession'' (requireText (ct_nativeSessionId t)),
      msg_check ''targetAttempt'' (requireText (ct_attemptId t))])"

definition control_error :: "control_outcome \<Rightarrow> message_error option" where
  "control_error c = first_error
     [validateControlTarget c, msg_check ''controlRequest'' (requireIdentity (co_requestId c)),
      msg_check ''controlReceipt'' (requireText (co_receiptId c)), msg_check ''observedAt'' (requireTimestamp (co_observedAt c))]"

definition input_control_error :: "input_control \<Rightarrow> message_error option" where
  "input_control_error c = first_error
     [msg_check ''inputRequest'' (requireIdentity (ic_requestId c)),
      when_some (ic_expectedSessionId c) (\<lambda>v. msg_check ''session'' (requireText v)),
      when_some (ic_expectedTarget c) (\<lambda>v. first_error
        [msg_check ''expectedTarget'' (requireText v), reject (ic_action c \<noteq> Act_steer) (Msg_refused ''only steer has a target'')])]"

definition normalized_input :: "input_control \<Rightarrow> message_error + input_control" where
  "normalized_input c =
     bind_result (msg_field ''inputRequest'' (requireIdentity (ic_requestId c))) (\<lambda>requestId.
     bind_result (optional_value (\<lambda>v. msg_field ''session'' (requireText v)) (ic_expectedSessionId c)) (\<lambda>session.
     bind_result (optional_value (\<lambda>v. msg_field ''expectedTarget'' (requireText v)) (ic_expectedTarget c)) (\<lambda>target.
     Inr \<lparr>ic_action = ic_action c, ic_requestId = requestId, ic_expectedSessionId = session, ic_expectedTarget = target\<rparr>)))"

definition requireBody :: "string \<Rightarrow> message_error + string" where
  "requireBody value = (if has_nul value then Inl (Msg_field ''body'' Invalid)
     else if trim value = [] then Inl (Msg_field ''body'' Required) else Inr value)"

subsection \<open>Messages of a Task\<close>

datatype message_kind = Kind_user | Kind_operator | Kind_role_result | Kind_system

datatype message_author = By_user | By_operator | By_role string | By_system

datatype submission_intent = Intent_record | Intent_discuss | Intent_develop

record interrupt_then =
  it_requestId :: string
  it_targetAttemptId :: string
  it_targetRoleName :: string
  it_targetAgentId :: string
  it_targetAdapterId :: string
  it_targetNativeSessionId :: string
  it_targetAuthorityEpoch :: int
  it_targetAuthorityHolderId :: string
  it_targetNativeTurnId :: "string option"
  it_notDeliveredReason :: "string option"
  it_targetRunId :: "string option"
  it_reusedInput :: "input_control option"

record message_recipient =
  mr_roleName :: string
  mr_ownerRunId :: "string option"
  mr_workItemId :: "string option"
  mr_reviewRoundId :: "string option"

record message_continuation =
  mc_runId :: "string option"
  mc_notDeliveredReason :: "string option"

record message_handover =
  mh_from :: message_recipient
  mh_at :: string

record 'r task_message =
  tm_inbox :: "inbox_receipt option"
  tm_id :: string
  tm_taskId :: string
  tm_kind :: message_kind
  tm_author :: message_author
  tm_body :: string
  tm_intent :: "submission_intent option"
  tm_submissionKey :: "string option"
  tm_submissionReceipt :: "'r option"
  tm_inputControl :: "input_control option"
  tm_interruptThen :: "interrupt_then option"
  tm_control :: "control_outcome option"
  tm_runId :: "string option"
  tm_resultRef :: "string option"
  tm_workItemId :: "string option"
  tm_recipient :: "message_recipient option"
  tm_continuation :: "message_continuation option"
  tm_handovers :: "message_handover list"
  tm_createdAt :: string

record message_context =
  mx_runId :: "string option"
  mx_resultRef :: "string option"
  mx_workItemId :: "string option"
  mx_intent :: "submission_intent option"
  mx_submissionKey :: "string option"
  mx_recipient :: "message_recipient option"
  mx_inputControl :: "input_control option"
  mx_interruptThen :: "interrupt_then option"

definition validateKindAndAuthor :: "message_kind \<Rightarrow> message_author \<Rightarrow> message_error option" where
  "validateKindAndAuthor kind author = reject
     (\<not> (case author of By_user \<Rightarrow> kind = Kind_user | By_operator \<Rightarrow> kind = Kind_operator | By_role _ \<Rightarrow> kind = Kind_role_result
         | By_system \<Rightarrow> kind = Kind_system)) (Msg_refused ''kind and author'')"

definition normalizeAuthor :: "message_author \<Rightarrow> message_error + message_author" where
  "normalizeAuthor author =
     (case author of By_role n \<Rightarrow> bind_result (msg_field ''authorRole'' (requireIdentity n)) (\<lambda>n. Inr (By_role n)) | a \<Rightarrow> Inr a)"

definition submitted :: "message_kind \<Rightarrow> bool" where
  "submitted kind = (kind = Kind_user \<or> kind = Kind_operator)"

definition msg_ref_error :: "string \<Rightarrow> task_record_kind \<Rightarrow> string \<Rightarrow> message_error option" where
  "msg_ref_error taskId kind i = map_option Msg_reference (failure (validateTaskRecordReference (task_reference taskId i) kind))"

definition reused_action :: "'r task_message \<Rightarrow> input_control option" where
  "reused_action m = (case tm_interruptThen m of None \<Rightarrow> None | Some t \<Rightarrow> it_reusedInput t)"

definition input_requestId :: "'r task_message \<Rightarrow> string option" where
  "input_requestId m = (case tm_inputControl m of Some c \<Rightarrow> Some (ic_requestId c) | None \<Rightarrow> map_option ic_requestId (reused_action m))"

definition was_steer :: "'r task_message \<Rightarrow> bool" where
  "was_steer m = ((\<exists>c \<in> set_option (tm_inputControl m). ic_action c = Act_steer) \<or> (\<exists>c \<in> set_option (reused_action m). ic_action c = Act_steer))"

definition interrupt_error :: "string \<Rightarrow> input_control option \<Rightarrow> interrupt_then \<Rightarrow> message_error option" where
  "interrupt_error taskId input t = first_error
     [msg_check ''interruptRequest'' (requireIdentity (it_requestId t)), msg_check ''targetAttempt'' (requireText (it_targetAttemptId t)),
      msg_check ''targetRole'' (requireIdentity (it_targetRoleName t)), msg_check ''targetAgent'' (requireIdentity (it_targetAgentId t)),
      msg_check ''targetAdapter'' (requireIdentity (it_targetAdapterId t)), msg_check ''targetSession'' (requireText (it_targetNativeSessionId t)),
      msg_check ''targetHolder'' (requireText (it_targetAuthorityHolderId t)),
      when_some (it_notDeliveredReason t) (\<lambda>v. msg_check ''nondelivery'' (requireText v)),
      reject (\<not> isSafeInteger (it_targetAuthorityEpoch t) \<or> it_targetAuthorityEpoch t < 1) (Msg_refused ''epoch''),
      when_some (it_targetRunId t) (msg_ref_error taskId K_run),
      when_some (it_reusedInput t) (\<lambda>c. msg_check ''reusedRequest'' (requireIdentity (ic_requestId c))),
      reject (\<exists>c \<in> set_option input. ic_action c = Act_steer) (Msg_refused ''handoff is a steer'')]"

definition recipient_error :: "string \<Rightarrow> message_recipient \<Rightarrow> message_error option" where
  "recipient_error taskId r = first_error
     [msg_check ''recipientRole'' (requireIdentity (mr_roleName r)),
      (case mr_ownerRunId r of Some i \<Rightarrow> msg_ref_error taskId K_run i | None \<Rightarrow> reject (mr_roleName r \<noteq> ''leader'') (Msg_refused ''no owner'')),
      when_some (mr_workItemId r) (msg_ref_error taskId K_workItem),
      when_some (mr_reviewRoundId r) (\<lambda>i. msg_check ''recipientRound'' (requireIdentity i)),
      reject (mr_workItemId r = None \<and> mr_reviewRoundId r = None) (Msg_refused ''no exact scope'')]"

definition owner_run :: "'r task_message \<Rightarrow> string option" where
  "owner_run m = (case tm_recipient m of None \<Rightarrow> None | Some r \<Rightarrow> mr_ownerRunId r)"

definition continuation_error :: "'r task_message \<Rightarrow> message_continuation \<Rightarrow> message_error option" where
  "continuation_error m c =
     (let selected = ((\<exists>i \<in> set_option (tm_inputControl m). ic_action i = Act_queue \<and> ic_expectedSessionId i \<noteq> None) \<and>
        mc_runId c = None \<and> mc_notDeliveredReason c \<noteq> None) in
      first_error
        [reject (owner_run m = None \<and> \<not> selected) (Msg_refused ''continuation without owner''),
         when_some (mc_runId c) (msg_ref_error (tm_taskId m) K_run),
         when_some (mc_notDeliveredReason c) (\<lambda>v. first_error
           [msg_check ''nondelivery'' (requireText v), reject (mc_runId c \<noteq> None) (Msg_refused ''delivered and not'')])])"

definition handover_error :: "message_handover \<Rightarrow> message_error option" where
  "handover_error h = first_error
     [msg_check ''previousRole'' (requireIdentity (mr_roleName (mh_from h))),
      (case mr_ownerRunId (mh_from h) of None \<Rightarrow> Some (Msg_field ''previousRun'' Invalid) | Some i \<Rightarrow> msg_check ''previousRun'' (requireIdentity i)),
      msg_check ''handoverAt'' (requireTimestamp (mh_at h))]"

definition task_control_error :: "'r task_message \<Rightarrow> control_outcome \<Rightarrow> message_error option" where
  "task_control_error m c = first_error
     [control_error c, reject (\<not> was_steer m \<or> input_requestId m = None) (Msg_refused ''no steer''),
      reject (Some (co_requestId c) \<noteq> input_requestId m) (Msg_refused ''another steer'')]"

definition validateTaskMessage :: "'r task_message \<Rightarrow> message_error option" where
  "validateTaskMessage m = first_error
     [validateInboxReceipt (tm_inbox m),
      msg_ref_error (tm_taskId m) K_message (tm_id m),
      msg_check ''body'' (requireText (tm_body m)),
      validateKindAndAuthor (tm_kind m) (tm_author m),
      failure (normalizeAuthor (tm_author m)),
      reject (submitted (tm_kind m) \<and> tm_intent m = None) (Msg_refused ''intent required''),
      reject (tm_intent m \<noteq> None \<and> \<not> submitted (tm_kind m)) (Msg_refused ''intent of a report''),
      when_some (tm_submissionKey m) (\<lambda>k. first_error
        [msg_check ''submissionKey'' (requireText k), reject (\<not> submitted (tm_kind m)) (Msg_refused ''key of a report'')]),
      reject (tm_submissionReceipt m \<noteq> None \<and> tm_submissionKey m = None) (Msg_refused ''receipt without key''),
      when_some (tm_inputControl m) input_control_error,
      when_some (tm_interruptThen m) (interrupt_error (tm_taskId m) (tm_inputControl m)),
      when_some (tm_control m) (task_control_error m),
      when_some (tm_runId m) (\<lambda>i. msg_check ''run'' (requireIdentity i)),
      when_some (tm_recipient m) (recipient_error (tm_taskId m)),
      when_some (tm_continuation m) (continuation_error m),
      first_error (map handover_error (tm_handovers m)),
      when_some (tm_resultRef m) (\<lambda>i. first_error
        [reject (tm_kind m \<noteq> Kind_role_result) (Msg_refused ''result of no role''), msg_ref_error (tm_taskId m) K_run i]),
      when_some (tm_workItemId m) (msg_ref_error (tm_taskId m) K_workItem),
      when_some (tm_runId m) (msg_ref_error (tm_taskId m) K_run),
      msg_check ''createdAt'' (requireTimestamp (tm_createdAt m))]"

definition save_message :: "'r task_message \<Rightarrow> message_error + 'r task_message" where
  "save_message m = (case validateTaskMessage m of None \<Rightarrow> Inr m | Some e \<Rightarrow> Inl e)"

definition normalized_interrupt :: "interrupt_then \<Rightarrow> message_error + interrupt_then" where
  "normalized_interrupt t =
     bind_result (msg_field ''interruptRequest'' (requireIdentity (it_requestId t))) (\<lambda>requestId.
     bind_result (msg_field ''targetAttempt'' (requireText (it_targetAttemptId t))) (\<lambda>attempt.
     bind_result (optional_value (\<lambda>c. bind_result (msg_field ''reusedRequest'' (requireIdentity (ic_requestId c))) (\<lambda>r.
         Inr \<lparr>ic_action = ic_action c, ic_requestId = r, ic_expectedSessionId = None, ic_expectedTarget = None\<rparr>)) (it_reusedInput t)) (\<lambda>reused.
     Inr (t\<lparr>it_requestId := requestId, it_targetAttemptId := attempt, it_reusedInput := reused\<rparr>))))"

definition createTaskMessage ::
  "string \<Rightarrow> string \<Rightarrow> string \<Rightarrow> message_kind \<Rightarrow> message_author \<Rightarrow> time \<Rightarrow> message_context \<Rightarrow> message_error + 'r task_message" where
  "createTaskMessage i taskId body kind author now x =
     (case validateKindAndAuthor kind author of Some e \<Rightarrow> Inl e | None \<Rightarrow>
      bind_result (msg_field ''id'' (requireIdentity i)) (\<lambda>messageId.
      bind_result (msg_field ''taskId'' (requireIdentity taskId)) (\<lambda>task.
      bind_result (normalizeAuthor author) (\<lambda>normalizedAuthor.
      bind_result (requireBody body) (\<lambda>text.
      bind_result (optional_value (\<lambda>k. msg_field ''submissionKey'' (requireText k)) (mx_submissionKey x)) (\<lambda>key.
      bind_result (optional_value normalized_input (mx_inputControl x)) (\<lambda>input.
      bind_result (optional_value normalized_interrupt (mx_interruptThen x)) (\<lambda>interrupt.
      bind_result (optional_value (\<lambda>r. msg_field ''run'' (requireIdentity r)) (mx_runId x)) (\<lambda>run.
      bind_result (optional_value (\<lambda>r. msg_field ''workItem'' (requireIdentity r)) (mx_workItemId x)) (\<lambda>item.
      save_message \<lparr>tm_inbox = None, tm_id = messageId, tm_taskId = task, tm_kind = kind, tm_author = normalizedAuthor, tm_body = text,
        tm_intent = (if submitted kind \<and> mx_intent x = None then Some Intent_discuss else mx_intent x), tm_submissionKey = key,
        tm_submissionReceipt = None, tm_inputControl = input, tm_interruptThen = interrupt, tm_control = None, tm_runId = run,
        tm_resultRef = mx_resultRef x, tm_workItemId = item, tm_recipient = mx_recipient x,
        tm_continuation = (if \<exists>r \<in> set_option (mx_recipient x). mr_ownerRunId r \<noteq> None then Some \<lparr>mc_runId = None, mc_notDeliveredReason = None\<rparr> else None),
        tm_handovers = [], tm_createdAt = toISOString now\<rparr>))))))))))"

definition taskMessageInputControlState :: "'r task_message \<Rightarrow> control_state option option" where
  "taskMessageInputControlState m = (if \<not> was_steer m then None else Some (map_option co_outcome (tm_control m)))"

record control_record =
  cr_requestId :: string
  cr_receiptId :: string
  cr_outcome :: control_state
  cr_observedAt :: time
  cr_target :: "control_target option"

definition absorbed :: "control_outcome \<Rightarrow> control_record \<Rightarrow> bool" where
  "absorbed existing r =
     (co_outcome existing = Ctl_accepted \<or> co_outcome existing = Ctl_rejected \<or> cr_outcome r = Ctl_pending \<or> cr_outcome r = co_outcome existing)"

definition recordTaskMessageControlOutcome :: "'r task_message \<Rightarrow> control_record \<Rightarrow> message_error + 'r task_message" where
  "recordTaskMessageControlOutcome m r =
     (if \<not> was_steer m \<or> input_requestId m = None then Inl (Msg_refused ''no steer'')
      else if Some (cr_requestId r) \<noteq> input_requestId m then Inl (Msg_refused ''another steer'')
      else if (\<exists>e \<in> set_option (tm_control m). co_receiptId e \<noteq> cr_receiptId r) then Inl (Msg_refused ''another receipt'')
      else if (\<exists>e \<in> set_option (tm_control m). absorbed e r) then Inr m
      else
        bind_result (msg_field ''controlRequest'' (requireIdentity (cr_requestId r))) (\<lambda>requestId.
        bind_result (msg_field ''controlReceipt'' (requireText (cr_receiptId r))) (\<lambda>receiptId.
        save_message (m\<lparr>tm_control := Some \<lparr>co_requestId = requestId, co_receiptId = receiptId, co_outcome = cr_outcome r,
          co_observedAt = toISOString (cr_observedAt r),
          co_target = (case tm_control m of Some e \<Rightarrow> (if co_target e \<noteq> None then co_target e else cr_target r) | None \<Rightarrow> cr_target r)\<rparr>\<rparr>))))"

definition has_request_identity :: "'r task_message \<Rightarrow> bool" where
  "has_request_identity m = (tm_submissionKey m \<noteq> None \<or> tm_inputControl m \<noteq> None \<or> tm_interruptThen m \<noteq> None)"

definition updateDraftTaskMessage :: "'r task_message \<Rightarrow> string \<Rightarrow> message_error + 'r task_message" where
  "updateDraftTaskMessage m newBody =
     (case validateTaskMessage m of Some e \<Rightarrow> Inl e | None \<Rightarrow>
      if \<not> submitted (tm_kind m) then Inl (Msg_refused ''not a submission'')
      else bind_result (requireBody newBody) (\<lambda>body.
        if body = tm_body m then Inr m
        else if has_request_identity m then Inl (Msg_refused ''has a request identity'')
        else save_message (m\<lparr>tm_body := body\<rparr>)))"

definition withSubmissionReceipt :: "'r task_message \<Rightarrow> 'r \<Rightarrow> message_error + 'r task_message" where
  "withSubmissionReceipt m receipt =
     (case validateTaskMessage m of Some e \<Rightarrow> Inl e | None \<Rightarrow>
      if tm_submissionKey m = None then Inl (Msg_refused ''receipt without key'')
      else if tm_submissionReceipt m \<noteq> None then Inl (Msg_refused ''receipt recorded'')
      else save_message (m\<lparr>tm_submissionReceipt := Some receipt\<rparr>))"

subsection \<open>Messages to a global Role\<close>

datatype global_kind = Global_user | Global_operator | Global_system | Global_agent

datatype delivery_via = Via_provider | Via_transport

record global_interrupt =
  gi_requestId :: string
  gi_targetAttemptId :: string
  gi_targetNativeSessionId :: string
  gi_targetAgentId :: string
  gi_targetAuthorityEpoch :: int
  gi_targetAuthorityHolderId :: string
  gi_targetNativeTurnId :: "string option"
  gi_reusedInput :: "input_control option"

record delivery_target =
  dt_agentId :: string
  dt_nativeSessionId :: string

record global_delivery =
  gd_deliveredAt :: string
  gd_via :: delivery_via

record global_nondelivery =
  gn_reason :: string
  gn_at :: string

record global_message =
  gm_inbox :: "inbox_receipt option"
  gm_id :: string
  gm_roleName :: string
  gm_kind :: global_kind
  gm_author :: global_kind
  gm_body :: string
  gm_control :: "control_outcome option"
  gm_deliveryTarget :: "delivery_target option"
  gm_inputControl :: "input_control option"
  gm_delivery :: "global_delivery option"
  gm_interruptThen :: "global_interrupt option"
  gm_notDelivered :: "global_nondelivery option"
  gm_createdAt :: string

definition validateGlobalRoleMessageId :: "string \<Rightarrow> message_error + string" where
  "validateGlobalRoleMessageId i =
     bind_result (msg_field ''globalId'' (requireIdentity i)) (\<lambda>normalized.
     if record_number ''global-message'' normalized = None then Inl (Msg_refused ''global id'') else Inr normalized)"

definition global_interrupt_error :: "global_interrupt \<Rightarrow> message_error option" where
  "global_interrupt_error t = first_error
     [msg_check ''interruptRequest'' (requireIdentity (gi_requestId t)), msg_check ''targetAttempt'' (requireText (gi_targetAttemptId t)),
      msg_check ''targetSession'' (requireText (gi_targetNativeSessionId t)), msg_check ''targetAgent'' (requireText (gi_targetAgentId t)),
      msg_check ''targetHolder'' (requireText (gi_targetAuthorityHolderId t)),
      reject (\<not> isSafeInteger (gi_targetAuthorityEpoch t) \<or> gi_targetAuthorityEpoch t < 1) (Msg_refused ''epoch''),
      when_some (gi_targetNativeTurnId t) (\<lambda>v. msg_check ''targetTurn'' (requireText v)),
      when_some (gi_reusedInput t) (\<lambda>c. msg_check ''reusedRequest'' (requireIdentity (ic_requestId c)))]"

definition queued :: "global_message \<Rightarrow> bool" where
  "queued m = (\<exists>c \<in> set_option (gm_inputControl m). ic_action c = Act_queue)"

definition validateGlobalRoleMessage :: "global_message \<Rightarrow> message_error option" where
  "validateGlobalRoleMessage m = first_error
     [validateInboxReceipt (gm_inbox m),
      failure (validateGlobalRoleMessageId (gm_id m)),
      msg_check ''role'' (requireIdentity (gm_roleName m)),
      failure (requireBody (gm_body m)),
      reject (gm_author m \<noteq> gm_kind m) (Msg_refused ''kind and author''),
      when_some (gm_deliveryTarget m) (\<lambda>t. first_error
        [msg_check ''agent'' (requireText (dt_agentId t)), msg_check ''session'' (requireText (dt_nativeSessionId t))]),
      when_some (gm_control m) control_error,
      when_some (gm_inputControl m) input_control_error,
      when_some (gm_delivery m) (\<lambda>d. first_error
        [msg_check ''deliveredAt'' (requireTimestamp (gd_deliveredAt d)),
         reject (gm_inputControl m = None \<and> gm_interruptThen m = None) (Msg_refused ''no durable input'')]),
      when_some (gm_interruptThen m) global_interrupt_error,
      when_some (gm_notDelivered m) (\<lambda>n. first_error
        [msg_check ''nondelivery'' (requireText (gn_reason n)), msg_check ''nondeliveryAt'' (requireTimestamp (gn_at n)),
         reject (gm_delivery m \<noteq> None) (Msg_refused ''delivered and not''),
         reject (\<not> queued m \<and> gm_interruptThen m = None) (Msg_refused ''nondelivery of no queue'')]),
      msg_check ''createdAt'' (requireTimestamp (gm_createdAt m))]"

definition checked_global :: "global_message \<Rightarrow> message_error + global_message" where
  "checked_global m = (case validateGlobalRoleMessage m of None \<Rightarrow> Inr m | Some e \<Rightarrow> Inl e)"

definition createGlobalRoleMessage ::
  "string \<Rightarrow> string \<Rightarrow> string \<Rightarrow> global_kind \<Rightarrow> global_kind \<Rightarrow> time \<Rightarrow> input_control option \<Rightarrow> message_error + global_message" where
  "createGlobalRoleMessage i roleName body kind author now input =
     (if author \<noteq> kind then Inl (Msg_refused ''kind and author'')
      else
      bind_result (validateGlobalRoleMessageId i) (\<lambda>messageId.
      bind_result (msg_field ''role'' (requireIdentity roleName)) (\<lambda>role.
      bind_result (requireBody body) (\<lambda>text.
      bind_result (optional_value normalized_input input) (\<lambda>control.
      checked_global \<lparr>gm_inbox = None, gm_id = messageId, gm_roleName = role, gm_kind = kind, gm_author = author, gm_body = text, gm_control = None,
        gm_deliveryTarget = None, gm_inputControl = control, gm_delivery = None, gm_interruptThen = None, gm_notDelivered = None,
        gm_createdAt = toISOString now\<rparr>)))))"

definition markGlobalRoleMessageDelivered :: "global_message \<Rightarrow> time \<Rightarrow> delivery_via \<Rightarrow> message_error + global_message" where
  "markGlobalRoleMessageDelivered m now via =
     (if gm_inputControl m = None \<and> gm_interruptThen m = None then Inl (Msg_refused ''no durable input'')
      else if (\<exists>d \<in> set_option (gm_delivery m). gd_via d = Via_provider \<or> gd_via d = via) then Inr m
      else checked_global (m\<lparr>gm_control := map_option (\<lambda>c. c\<lparr>co_outcome := (if via = Via_provider then Ctl_accepted else Ctl_pending),
          co_observedAt := toISOString now\<rparr>) (gm_control m),
        gm_delivery := Some \<lparr>gd_deliveredAt = toISOString now, gd_via = via\<rparr>\<rparr>))"

definition claimGlobalRoleMessageInterruptThen :: "global_message \<Rightarrow> global_interrupt \<Rightarrow> message_error + global_message" where
  "claimGlobalRoleMessageInterruptThen m claim =
     (if gm_inbox m \<noteq> None then Inl (Msg_refused ''owned by inbox handling'')
      else
      bind_result (msg_field ''interruptRequest'' (requireIdentity (gi_requestId claim))) (\<lambda>requestId.
      bind_result (msg_field ''targetAttempt'' (requireText (gi_targetAttemptId claim))) (\<lambda>attempt.
      bind_result (optional_value (\<lambda>t. msg_field ''targetTurn'' (requireText t)) (gi_targetNativeTurnId claim)) (\<lambda>turn.
      checked_global (m\<lparr>gm_inputControl := None, gm_notDelivered := None,
        gm_interruptThen := Some (claim\<lparr>gi_requestId := requestId, gi_targetAttemptId := attempt, gi_targetNativeTurnId := turn,
          gi_reusedInput := gm_inputControl m\<rparr>)\<rparr>)))))"

definition markGlobalRoleMessageNotDelivered :: "global_message \<Rightarrow> string \<Rightarrow> time \<Rightarrow> message_error + global_message" where
  "markGlobalRoleMessageNotDelivered m reason now =
     (if gm_delivery m \<noteq> None then Inl (Msg_refused ''already delivered'')
      else if (\<exists>n \<in> set_option (gm_notDelivered m). gn_reason n = reason) then Inr m
      else bind_result (msg_field ''nondelivery'' (requireText reason)) (\<lambda>text.
        checked_global (m\<lparr>gm_notDelivered := Some \<lparr>gn_reason = text, gn_at = toISOString now\<rparr>\<rparr>)))"

definition isGlobalInboxMessage :: "global_message \<Rightarrow> bool" where
  "isGlobalInboxMessage m = (gm_inputControl m \<noteq> None \<or> gm_interruptThen m \<noteq> None)"

definition pendingGlobalInboxMessages :: "global_message list \<Rightarrow> global_message list" where
  "pendingGlobalInboxMessages ms =
     filter (\<lambda>m. isGlobalInboxMessage m \<and> inboxHandlingState (gm_inbox m) \<notin> set [Handled, Retired]) ms"

subsection \<open>The table of a Role\<close>

definition assertInboxOriginalPreserved :: "global_message \<Rightarrow> global_message \<Rightarrow> message_error option" where
  "assertInboxOriginalPreserved before after = first_error
     [assertInboxReceiptPreserved (gm_inbox before) (gm_inbox after),
      reject (\<exists>c \<in> set_option (gm_control before). co_target c \<noteq> None \<and>
        (case gm_control after of None \<Rightarrow> True | Some d \<Rightarrow> co_target d \<noteq> co_target c)) (Msg_refused ''admitted target changed''),
      reject (gm_inbox before \<noteq> None \<and> (gm_body before \<noteq> gm_body after \<or> gm_kind before \<noteq> gm_kind after \<or> gm_author before \<noteq> gm_author after \<or>
        gm_inputControl before \<noteq> gm_inputControl after)) (Msg_refused ''original changed'')]"

text \<open>
  The rows of one registered Role, in the order of their insertion. A message of another Role is refused, as
  \<open>#requireGlobalRole\<close> refuses one of an unknown Role.
\<close>

type_synonym global_table = "global_message list"

definition find_message :: "string \<Rightarrow> global_table \<Rightarrow> global_message option" where
  "find_message i ms = find (\<lambda>m. gm_id m = i) ms"

definition saveGlobalRoleMessage :: "string \<Rightarrow> global_message \<Rightarrow> global_table \<Rightarrow> message_error + global_table" where
  "saveGlobalRoleMessage role m ms =
     (case validateGlobalRoleMessage m of Some e \<Rightarrow> Inl e | None \<Rightarrow>
      if gm_roleName m \<noteq> role then Inl (Msg_refused ''Role not found'')
      else if find_message (gm_id m) ms \<noteq> None then Inl (Msg_refused ''id exists'') else Inr (ms @ [m]))"

definition updateGlobalRoleMessage :: "string \<Rightarrow> global_message \<Rightarrow> global_table \<Rightarrow> message_error + global_table" where
  "updateGlobalRoleMessage role m ms =
     (case validateGlobalRoleMessage m of Some e \<Rightarrow> Inl e | None \<Rightarrow>
      if gm_roleName m \<noteq> role then Inl (Msg_refused ''Role not found'')
      else case find_message (gm_id m) ms of None \<Rightarrow> Inl (Msg_refused ''not found'')
      | Some before \<Rightarrow> (case assertInboxOriginalPreserved before m of Some e \<Rightarrow> Inl e
          | None \<Rightarrow> Inr (map (\<lambda>x. if gm_id x = gm_id m then m else x) ms)))"

text \<open>
  The claim of a continuation: \<open>priorRejected\<close> says that the interrupt which owns the present claim was rejected, and the
  request id of the claim is the given one or the one made from Role and attempt.
\<close>

record interrupt_request =
  iq_messageId :: string
  iq_claim :: global_interrupt
  iq_priorRejected :: bool

definition same_claim :: "global_interrupt \<Rightarrow> interrupt_request \<Rightarrow> bool" where
  "same_claim claim q \<longleftrightarrow> (gi_requestId claim = gi_requestId (iq_claim q) \<or> iq_priorRejected q) \<and>
     gi_targetAttemptId claim = gi_targetAttemptId (iq_claim q) \<and> gi_targetAgentId claim = gi_targetAgentId (iq_claim q) \<and>
     gi_targetNativeSessionId claim = gi_targetNativeSessionId (iq_claim q) \<and>
     gi_targetAuthorityEpoch claim = gi_targetAuthorityEpoch (iq_claim q) \<and>
     gi_targetAuthorityHolderId claim = gi_targetAuthorityHolderId (iq_claim q)"

definition claims_attempt :: "string \<Rightarrow> global_message \<Rightarrow> bool" where
  "claims_attempt a m = (\<exists>t \<in> set_option (gm_interruptThen m). gi_targetAttemptId t = a)"

definition registerGlobalInterruptThen :: "string \<Rightarrow> interrupt_request \<Rightarrow> global_table \<Rightarrow> message_error + global_table" where
  "registerGlobalInterruptThen role q ms =
     (case find_message (iq_messageId q) ms of None \<Rightarrow> Inl (Msg_refused ''not found'')
      | Some m \<Rightarrow>
        if gm_notDelivered m \<noteq> None then Inl (Msg_refused ''settled not delivered'')
        else if (\<exists>c \<in> set_option (gm_control m). co_outcome c \<noteq> Ctl_rejected) then Inl (Msg_refused ''accepted or unconfirmed'')
        else if (\<exists>t \<in> set_option (gm_deliveryTarget m). dt_nativeSessionId t \<noteq> gi_targetNativeSessionId (iq_claim q) \<or>
            dt_agentId t \<noteq> gi_targetAgentId (iq_claim q)) then Inl (Msg_refused ''another session'')
        else case gm_interruptThen m of
          Some claim \<Rightarrow> if same_claim claim q \<and> gm_delivery m = None then Inr ms else Inl (Msg_refused ''already claims'')
        | None \<Rightarrow>
            if gm_delivery m \<noteq> None then Inl (Msg_refused ''already delivered'')
            else if (\<exists>x \<in> set ms. claims_attempt (gi_targetAttemptId (iq_claim q)) x \<and> gm_id x \<noteq> gm_id m)
              then Inl (Msg_refused ''turn already claimed'')
            else bind_result (claimGlobalRoleMessageInterruptThen m (iq_claim q)) (\<lambda>claimed. updateGlobalRoleMessage role claimed ms))"

datatype steer_receipt = Steered | Steer_unknown | Steer_refused

definition recordGlobalSteerResult :: "string \<Rightarrow> string \<Rightarrow> steer_receipt \<Rightarrow> time \<Rightarrow> global_table \<Rightarrow> message_error + global_table" where
  "recordGlobalSteerResult roleName messageId receipt now ms =
     (case find_message messageId ms of None \<Rightarrow> Inl (Msg_refused ''no original message'')
      | Some m \<Rightarrow>
        (case (case gm_inputControl m of Some c \<Rightarrow> Some c | None \<Rightarrow> (case gm_interruptThen m of None \<Rightarrow> None | Some t \<Rightarrow> gi_reusedInput t)) of
           None \<Rightarrow> Inl (Msg_refused ''no original message'')
         | Some source \<Rightarrow>
             if ic_action source \<noteq> Act_steer then Inl (Msg_refused ''no original message'')
             else if (\<exists>c \<in> set_option (gm_control m). co_outcome c = Ctl_accepted \<or> co_outcome c = Ctl_rejected) then Inr ms
             else
               let outcome = (case receipt of Steered \<Rightarrow> Ctl_accepted | Steer_unknown \<Rightarrow> Ctl_unknown | Steer_refused \<Rightarrow> Ctl_rejected);
                   updated = m\<lparr>gm_control := Some \<lparr>co_requestId = ic_requestId source, co_receiptId = ''steer:'' @ roleName @ ''/'' @ messageId,
                     co_outcome = outcome, co_observedAt = toISOString now,
                     co_target = (case gm_control m of None \<Rightarrow> None | Some c \<Rightarrow> co_target c)\<rparr>\<rparr> in
               bind_result (if outcome = Ctl_accepted then markGlobalRoleMessageDelivered updated now Via_provider else Inr updated)
                 (\<lambda>u. updateGlobalRoleMessage roleName u ms)))"

subsection \<open>A Task message never forgets\<close>

datatype 'r task_message_command = Record_outcome control_record | Redraft string | Attach_receipt 'r

fun task_message_step :: "'r task_message_command \<Rightarrow> 'r task_message \<Rightarrow> message_error + 'r task_message" where
  "task_message_step (Record_outcome r) m = recordTaskMessageControlOutcome m r"
| "task_message_step (Redraft body) m = updateDraftTaskMessage m body"
| "task_message_step (Attach_receipt r) m = withSubmissionReceipt m r"

definition message_inv :: "'r task_message \<Rightarrow> bool" where
  "message_inv m \<longleftrightarrow> validateTaskMessage m = None \<and> (\<forall>c \<in> set_option (tm_control m). trim (co_receiptId c) = co_receiptId c)"

definition settled_outcome :: "control_state \<Rightarrow> bool" where
  "settled_outcome c = (c = Ctl_accepted \<or> c = Ctl_rejected)"

definition outcome_below :: "control_outcome \<Rightarrow> control_outcome \<Rightarrow> bool" where
  "outcome_below c d \<longleftrightarrow> co_receiptId d = co_receiptId c \<and> (settled_outcome (co_outcome c) \<longrightarrow> d = c) \<and>
     (co_outcome d = Ctl_pending \<longrightarrow> co_outcome c = Ctl_pending) \<and> (co_target c \<noteq> None \<longrightarrow> co_target d = co_target c)"

definition control_below :: "control_outcome option \<Rightarrow> control_outcome option \<Rightarrow> bool" where
  "control_below before after \<longleftrightarrow> (\<forall>c \<in> set_option before. \<exists>d \<in> set_option after. outcome_below c d)"

definition message_below :: "'r task_message \<Rightarrow> 'r task_message \<Rightarrow> bool" where
  "message_below m t \<longleftrightarrow> t\<lparr>tm_body := tm_body m, tm_submissionReceipt := tm_submissionReceipt m, tm_control := tm_control m\<rparr> = m \<and>
     (has_request_identity m \<longrightarrow> tm_body t = tm_body m) \<and> (tm_submissionReceipt m \<noteq> None \<longrightarrow> tm_submissionReceipt t = tm_submissionReceipt m) \<and>
     control_below (tm_control m) (tm_control t)"

lemma save_message_Inr: "save_message m = Inr t \<longleftrightarrow> t = m \<and> validateTaskMessage m = None"
  by (auto simp: save_message_def split: option.splits)

lemma outcome_below_refl: "outcome_below c c"
  by (simp add: outcome_below_def)

lemma outcome_below_trans: "outcome_below c d \<Longrightarrow> outcome_below d e \<Longrightarrow> outcome_below c e"
  unfolding outcome_below_def by metis

lemma control_below_refl [simp]: "control_below c c"
  using outcome_below_refl by (cases c) (auto simp: control_below_def)

lemma control_below_trans: "control_below a b \<Longrightarrow> control_below b c \<Longrightarrow> control_below a c"
  unfolding control_below_def using outcome_below_trans by meson

lemma message_below_refl: "message_below m m"
  by (simp add: message_below_def)

lemma message_below_frozen:
  assumes "message_below m t"
  shows "has_request_identity t = has_request_identity m"
proof -
  let ?u = "t\<lparr>tm_body := tm_body m, tm_submissionReceipt := tm_submissionReceipt m, tm_control := tm_control m\<rparr>"
  have "has_request_identity t = has_request_identity ?u" by (simp add: has_request_identity_def)
  also have "?u = m" using assms by (simp add: message_below_def)
  finally show ?thesis .
qed

lemma message_below_trans:
  assumes "message_below l m" "message_below m t"
  shows "message_below l t"
proof -
  have "t\<lparr>tm_body := tm_body l, tm_submissionReceipt := tm_submissionReceipt l, tm_control := tm_control l\<rparr> =
    (t\<lparr>tm_body := tm_body m, tm_submissionReceipt := tm_submissionReceipt m, tm_control := tm_control m\<rparr>)
      \<lparr>tm_body := tm_body l, tm_submissionReceipt := tm_submissionReceipt l, tm_control := tm_control l\<rparr>" by simp
  also have "\<dots> = l" using assms by (simp add: message_below_def)
  finally show ?thesis using assms message_below_frozen [OF assms(1)]
    by (auto simp: message_below_def intro: control_below_trans)
qed

lemma record_step:
  assumes inv: "message_inv m" and step: "recordTaskMessageControlOutcome m r = Inr t"
  shows "message_inv t \<and> message_below m t"
proof (cases "t = m")
  case True
  then show ?thesis using inv message_below_refl by simp
next
  case False
  let ?T = "case tm_control m of Some e \<Rightarrow> (if co_target e \<noteq> None then co_target e else cr_target r) | None \<Rightarrow> cr_target r"
  obtain q where t: "t = m\<lparr>tm_control := Some \<lparr>co_requestId = q, co_receiptId = trim (cr_receiptId r), co_outcome = cr_outcome r,
      co_observedAt = toISOString (cr_observedAt r), co_target = ?T\<rparr>\<rparr>" and v: "validateTaskMessage t = None"
    and e: "\<forall>e \<in> set_option (tm_control m). co_receiptId e = cr_receiptId r \<and> \<not> absorbed e r"
    using step False
    by (auto simp: recordTaskMessageControlOutcome_def bind_result_Inr save_message_Inr map_error_Inr requireText_def split: if_split_asm)
  have "control_below (tm_control m) (tm_control t)"
    using e inv by (cases "tm_control m") (auto simp: control_below_def outcome_below_def t absorbed_def settled_outcome_def message_inv_def)
  then show ?thesis using v by (simp add: message_inv_def message_below_def t)
qed

lemma task_message_step_below:
  assumes inv: "message_inv m" and step: "task_message_step c m = Inr t"
  shows "message_inv t \<and> message_below m t"
proof (cases c)
  case (Record_outcome r)
  then show ?thesis using record_step [OF inv] step by simp
next
  case (Redraft body)
  then show ?thesis using step inv
    by (auto simp: updateDraftTaskMessage_def bind_result_Inr save_message_Inr message_inv_def message_below_def split: if_split_asm option.split_asm)
next
  case (Attach_receipt r)
  then show ?thesis using step inv
    by (auto simp: withSubmissionReceipt_def save_message_Inr message_inv_def message_below_def split: if_split_asm option.split_asm)
qed

interpretation task_messages: ratchet_system message_inv task_message_step "\<lambda>_. True" message_below
  by unfold_locales (auto simp: message_below_refl dest: task_message_step_below intro: message_below_trans)

lemma created_message: "createTaskMessage i taskId body kind author now x = Inr m \<Longrightarrow> message_inv m"
  by (auto simp: createTaskMessage_def bind_result_Inr save_message_Inr message_inv_def split: option.split_asm)

subsection \<open>Global inputs are settled once\<close>

datatype global_command =
    Save_new string string string global_kind global_kind time "input_control option"
  | Deliver string time delivery_via
  | Give_up string string time
  | Register interrupt_request
  | Steer_result string steer_receipt time

definition change_message ::
  "string \<Rightarrow> string \<Rightarrow> (global_message \<Rightarrow> message_error + global_message) \<Rightarrow> global_table \<Rightarrow> message_error + global_table" where
  "change_message role i f ms =
     (case find_message i ms of None \<Rightarrow> Inl (Msg_refused ''not found'') | Some m \<Rightarrow> bind_result (f m) (\<lambda>t. updateGlobalRoleMessage role t ms))"

fun global_step :: "string \<Rightarrow> global_command \<Rightarrow> global_table \<Rightarrow> message_error + global_table" where
  "global_step role (Save_new i roleName body kind author now input) ms =
     bind_result (createGlobalRoleMessage i roleName body kind author now input) (\<lambda>m. saveGlobalRoleMessage role m ms)"
| "global_step role (Deliver i now via) ms = change_message role i (\<lambda>m. markGlobalRoleMessageDelivered m now via) ms"
| "global_step role (Give_up i reason now) ms = change_message role i (\<lambda>m. markGlobalRoleMessageNotDelivered m reason now) ms"
| "global_step role (Register q) ms = registerGlobalInterruptThen role q ms"
| "global_step role (Steer_result i receipt now) ms = recordGlobalSteerResult role i receipt now ms"

fun global_admissible :: "global_command \<Rightarrow> bool" where
  "global_admissible (Register q) = (trim (gi_targetAttemptId (iq_claim q)) = gi_targetAttemptId (iq_claim q))"
| "global_admissible _ = True"

definition claimed_once :: "global_table \<Rightarrow> bool" where
  "claimed_once ms \<longleftrightarrow> (\<forall>x \<in> set ms. \<forall>y \<in> set ms. \<forall>a. claims_attempt a x \<and> claims_attempt a y \<longrightarrow> gm_id x = gm_id y)"

definition global_inv :: "global_table \<Rightarrow> bool" where
  "global_inv ms \<longleftrightarrow> distinct (map gm_id ms) \<and> (\<forall>m \<in> set ms. validateGlobalRoleMessage m = None) \<and> claimed_once ms"

definition origin_request :: "global_message \<Rightarrow> string option" where
  "origin_request m = (case gm_inputControl m of Some c \<Rightarrow> Some (ic_requestId c)
     | None \<Rightarrow> (case gm_interruptThen m of None \<Rightarrow> None | Some t \<Rightarrow> map_option ic_requestId (gi_reusedInput t)))"

definition gm_below :: "global_message \<Rightarrow> global_message \<Rightarrow> bool" where
  "gm_below m t \<longleftrightarrow> gm_id t = gm_id m \<and> gm_roleName t = gm_roleName m \<and> gm_kind t = gm_kind m \<and> gm_author t = gm_author m \<and> gm_body t = gm_body m \<and>
     gm_createdAt t = gm_createdAt m \<and> gm_inbox t = gm_inbox m \<and> origin_request t = origin_request m \<and>
     (gm_delivery m \<noteq> None \<longrightarrow> gm_delivery t \<noteq> None) \<and> (\<forall>d \<in> set_option (gm_delivery m). gd_via d = Via_provider \<longrightarrow> gm_delivery t = gm_delivery m) \<and>
     (gm_notDelivered m \<noteq> None \<longrightarrow> gm_notDelivered t \<noteq> None) \<and> (gm_interruptThen m \<noteq> None \<longrightarrow> gm_interruptThen t = gm_interruptThen m)"

definition table_below :: "global_table \<Rightarrow> global_table \<Rightarrow> bool" where
  "table_below ms ts \<longleftrightarrow> (\<forall>m \<in> set ms. \<exists>t \<in> set ts. gm_below m t)"

lemma gm_below_refl: "gm_below m m"
  by (simp add: gm_below_def)

lemma gm_below_trans: "gm_below l m \<Longrightarrow> gm_below m t \<Longrightarrow> gm_below l t"
  unfolding gm_below_def by (metis option.set_sel)

lemma table_below_refl: "table_below ms ms"
  using gm_below_refl by (auto simp: table_below_def)

lemma table_below_trans: "table_below ls ms \<Longrightarrow> table_below ms ts \<Longrightarrow> table_below ls ts"
  unfolding table_below_def using gm_below_trans by meson

lemma find_message_Some: "find_message i ms = Some m \<Longrightarrow> m \<in> set ms \<and> gm_id m = i"
  by (auto simp: find_message_def find_Some_iff)

lemma find_message_None: "find_message i ms = None \<longleftrightarrow> i \<notin> gm_id ` set ms"
  by (auto simp: find_message_def find_None_iff)

lemma find_message_unique: "distinct (map gm_id ms) \<Longrightarrow> m \<in> set ms \<Longrightarrow> find_message (gm_id m) ms = Some m"
  unfolding find_message_def by (induction ms) auto

lemma checked_global_Inr: "checked_global m = Inr t \<longleftrightarrow> t = m \<and> validateGlobalRoleMessage m = None"
  by (auto simp: checked_global_def split: option.splits)

lemma valid_exclusive:
  "validateGlobalRoleMessage m = None \<Longrightarrow> gm_notDelivered m \<noteq> None \<Longrightarrow> gm_delivery m = None"
  by (cases "gm_notDelivered m"; cases "gm_delivery m") (auto simp: validateGlobalRoleMessage_def reject_def)

lemma update_effect:
  assumes inv: "global_inv ms" and m: "m \<in> set ms" "gm_below m t"
    and claims: "\<And>a x. claims_attempt a t \<Longrightarrow> x \<in> set ms \<Longrightarrow> claims_attempt a x \<Longrightarrow> gm_id x = gm_id m"
    and up: "updateGlobalRoleMessage role t ms = Inr ts"
  shows "global_inv ts \<and> table_below ms ts"
proof -
  have i: "gm_id t = gm_id m" using m(2) by (simp add: gm_below_def)
  have ts: "ts = map (\<lambda>x. if gm_id x = gm_id m then t else x) ms" and v: "validateGlobalRoleMessage t = None"
    using up i by (auto simp: updateGlobalRoleMessage_def split: if_split_asm option.split_asm)
  have ids: "map gm_id ts = map gm_id ms" using i by (simp add: ts)
  have u: "x = m" if "x \<in> set ms" "gm_id x = gm_id m" for x
    using that m(1) inv by (auto simp: global_inv_def distinct_map inj_on_def)
  have "claimed_once ts" unfolding claimed_once_def
  proof (intro ballI allI impI)
    fix x y a assume xy: "x \<in> set ts" "y \<in> set ts" and a: "claims_attempt a x \<and> claims_attempt a y"
    have in_ts: "z = t \<or> (z \<in> set ms \<and> gm_id z \<noteq> gm_id m)" if "z \<in> set ts" for z using that by (auto simp: ts split: if_splits)
    show "gm_id x = gm_id y"
      using in_ts [OF xy(1)] in_ts [OF xy(2)] a claims [of a] i inv unfolding global_inv_def claimed_once_def by metis
  qed
  moreover have "table_below ms ts" unfolding table_below_def
  proof
    fix x assume x: "x \<in> set ms"
    show "\<exists>t' \<in> set ts. gm_below x t'"
      using x u [OF x] m(2) gm_below_refl by (cases "gm_id x = gm_id m") (auto simp: ts)
  qed
  moreover have "distinct (map gm_id ts)" using inv unfolding ids by (simp add: global_inv_def)
  moreover have "\<forall>x \<in> set ts. validateGlobalRoleMessage x = None" using inv v by (auto simp: global_inv_def ts)
  ultimately show ?thesis by (simp add: global_inv_def)
qed

lemma origin_simps [simp]:
  "origin_request (m\<lparr>gm_control := c\<rparr>) = origin_request m" "origin_request (m\<lparr>gm_delivery := d\<rparr>) = origin_request m"
  "origin_request (m\<lparr>gm_notDelivered := n\<rparr>) = origin_request m" "origin_request (m\<lparr>gm_control := c, gm_delivery := d\<rparr>) = origin_request m"
  by (cases "gm_inputControl m"; simp add: origin_request_def)+

lemma delivered_below:
  assumes "markGlobalRoleMessageDelivered m now via = Inr t"
  shows "gm_below m t \<and> gm_interruptThen t = gm_interruptThen m"
proof (cases "t = m")
  case False
  then have t: "t = m\<lparr>gm_control := map_option (\<lambda>c. c\<lparr>co_outcome := (if via = Via_provider then Ctl_accepted else Ctl_pending),
          co_observedAt := toISOString now\<rparr>) (gm_control m), gm_delivery := Some \<lparr>gd_deliveredAt = toISOString now, gd_via = via\<rparr>\<rparr>"
    and v: "validateGlobalRoleMessage t = None" and d: "\<forall>d \<in> set_option (gm_delivery m). gd_via d \<noteq> Via_provider"
    using assms by (auto simp: markGlobalRoleMessageDelivered_def checked_global_Inr split: if_split_asm)
  have "gm_notDelivered m = None" using valid_exclusive [OF v] by (cases "gm_notDelivered m") (auto simp: t)
  then show ?thesis using d by (simp add: gm_below_def t)
qed (simp add: gm_below_refl)

lemma given_up_below:
  assumes "markGlobalRoleMessageNotDelivered m reason now = Inr t"
  shows "gm_below m t \<and> gm_interruptThen t = gm_interruptThen m"
  using assms by (auto simp: markGlobalRoleMessageNotDelivered_def bind_result_Inr checked_global_Inr gm_below_def split: if_split_asm)

lemma steered_below: "gm_below m (m\<lparr>gm_control := c\<rparr>)"
  by (simp add: gm_below_def)

lemma claimed_below:
  assumes "claimGlobalRoleMessageInterruptThen m claim = Inr t" "gm_interruptThen m = None" "gm_notDelivered m = None"
    "trim (gi_targetAttemptId claim) = gi_targetAttemptId claim"
  shows "gm_below m t \<and> (\<forall>a. claims_attempt a t \<longrightarrow> a = gi_targetAttemptId claim)"
  using assms
  by (auto simp: claimGlobalRoleMessageInterruptThen_def bind_result_Inr checked_global_Inr gm_below_def origin_request_def claims_attempt_def
      map_error_Inr requireText_def split: if_split_asm option.splits)

lemma same_claim_kept:
  assumes "global_inv ms" "m \<in> set ms" "gm_interruptThen t = gm_interruptThen m" "claims_attempt a t" "x \<in> set ms" "claims_attempt a x"
  shows "gm_id x = gm_id m"
  using assms unfolding global_inv_def claimed_once_def claims_attempt_def by metis

lemma change_effect:
  assumes "global_inv ms" "change_message role i f ms = Inr ts"
    and "\<And>m t. m \<in> set ms \<Longrightarrow> f m = Inr t \<Longrightarrow> gm_below m t \<and> gm_interruptThen t = gm_interruptThen m"
  shows "global_inv ts \<and> table_below ms ts"
proof -
  obtain m t where m: "find_message i ms = Some m" "f m = Inr t" "updateGlobalRoleMessage role t ms = Inr ts"
    using assms(2) by (auto simp: change_message_def bind_result_Inr split: option.split_asm)
  have "m \<in> set ms" using find_message_Some [OF m(1)] by blast
  then show ?thesis using update_effect [OF assms(1) _ _ _ m(3)] assms(3) [OF _ m(2)] same_claim_kept [OF assms(1)] by blast
qed

lemma register_effect:
  assumes inv: "global_inv ms" and q: "trim (gi_targetAttemptId (iq_claim q)) = gi_targetAttemptId (iq_claim q)"
    and step: "registerGlobalInterruptThen role q ms = Inr ts"
  shows "global_inv ts \<and> table_below ms ts"
proof (cases "ts = ms")
  case False
  then obtain m t where m: "find_message (iq_messageId q) ms = Some m" "gm_notDelivered m = None" "gm_interruptThen m = None"
      "\<forall>x \<in> set ms. claims_attempt (gi_targetAttemptId (iq_claim q)) x \<longrightarrow> gm_id x = gm_id m"
    and t: "claimGlobalRoleMessageInterruptThen m (iq_claim q) = Inr t" "updateGlobalRoleMessage role t ms = Inr ts"
    using step by (auto simp: registerGlobalInterruptThen_def bind_result_Inr split: if_split_asm option.split_asm)
  have "m \<in> set ms" using find_message_Some [OF m(1)] by blast
  moreover note c = claimed_below [OF t(1) m(3,2) q]
  ultimately show ?thesis using update_effect [OF inv _ _ _ t(2), of m] m(4) by blast
qed (use inv table_below_refl in simp)

lemma steer_effect:
  assumes inv: "global_inv ms" and step: "recordGlobalSteerResult role i receipt now ms = Inr ts"
  shows "global_inv ts \<and> table_below ms ts"
proof (cases "ts = ms")
  case False
  then obtain m c u where m: "find_message i ms = Some m" and up: "updateGlobalRoleMessage role u ms = Inr ts"
    and u: "u = m\<lparr>gm_control := Some c\<rparr> \<or> markGlobalRoleMessageDelivered (m\<lparr>gm_control := Some c\<rparr>) now Via_provider = Inr u"
    using step by (auto simp: recordGlobalSteerResult_def Let_def bind_result_Inr split: if_split_asm option.split_asm)
  have mem: "m \<in> set ms" using find_message_Some [OF m] by blast
  have "gm_below m u \<and> gm_interruptThen u = gm_interruptThen m"
    using u
  proof
    assume "markGlobalRoleMessageDelivered (m\<lparr>gm_control := Some c\<rparr>) now Via_provider = Inr u"
    from delivered_below [OF this] show ?thesis using gm_below_trans [OF steered_below] by auto
  qed (simp add: steered_below)
  then show ?thesis using update_effect [OF inv mem _ _ up] same_claim_kept [OF inv mem] by blast
qed (use inv table_below_refl in simp)

lemma created_global:
  "createGlobalRoleMessage i role body kind author now input = Inr m \<Longrightarrow> validateGlobalRoleMessage m = None \<and> gm_interruptThen m = None"
  by (auto simp: createGlobalRoleMessage_def bind_result_Inr checked_global_Inr split: if_split_asm)

lemma save_effect:
  assumes inv: "global_inv ms" and m: "validateGlobalRoleMessage m = None" "gm_interruptThen m = None" and step: "saveGlobalRoleMessage role m ms = Inr ts"
  shows "global_inv ts \<and> table_below ms ts"
proof -
  have ts: "ts = ms @ [m]" "gm_id m \<notin> gm_id ` set ms"
    using step by (auto simp: saveGlobalRoleMessage_def find_message_None split: if_split_asm option.split_asm)
  have "\<not> claims_attempt a m" for a using m(2) by (simp add: claims_attempt_def)
  then have "claimed_once ts" using inv by (auto simp: global_inv_def claimed_once_def ts)
  then show ?thesis using inv m(1) ts gm_below_refl by (auto simp: global_inv_def table_below_def)
qed

lemma global_step_effect:
  assumes inv: "global_inv ms" and c: "global_admissible c" and step: "global_step role c ms = Inr ts"
  shows "global_inv ts \<and> table_below ms ts"
proof (cases c)
  case (Save_new i roleName body kind author now input)
  then show ?thesis using step created_global save_effect [OF inv] by (fastforce simp: bind_result_Inr)
next
  case (Deliver i now via)
  then show ?thesis using step delivered_below by (intro change_effect [OF inv, of role i "\<lambda>m. markGlobalRoleMessageDelivered m now via"]) auto
next
  case (Give_up i reason now)
  then show ?thesis using step given_up_below by (intro change_effect [OF inv, of role i "\<lambda>m. markGlobalRoleMessageNotDelivered m reason now"]) auto
next
  case (Register q)
  then show ?thesis using step c register_effect [OF inv] by simp
next
  case (Steer_result i receipt now)
  then show ?thesis using step steer_effect [OF inv] by simp
qed

interpretation global_inputs: ratchet_system global_inv "global_step role" global_admissible table_below
  for role
  by unfold_locales (auto simp: table_below_refl dest: global_step_effect intro: table_below_trans)

subsection \<open>A steer\<close>

definition demo_steer :: input_control where
  "demo_steer = \<lparr>ic_action = Act_steer, ic_requestId = ''r1'', ic_expectedSessionId = None, ic_expectedTarget = None\<rparr>"

definition demo_context :: message_context where
  "demo_context = \<lparr>mx_runId = None, mx_resultRef = None, mx_workItemId = None, mx_intent = None, mx_submissionKey = None, mx_recipient = None,
     mx_inputControl = Some demo_steer, mx_interruptThen = None\<rparr>"

definition demo_message :: "control_outcome option \<Rightarrow> unit task_message" where
  "demo_message c = \<lparr>tm_inbox = None, tm_id = ''message-1'', tm_taskId = ''task-1'', tm_kind = Kind_user, tm_author = By_user, tm_body = ''go'',
     tm_intent = Some Intent_discuss, tm_submissionKey = None, tm_submissionReceipt = None, tm_inputControl = Some demo_steer,
     tm_interruptThen = None, tm_control = c, tm_runId = None, tm_resultRef = None, tm_workItemId = None, tm_recipient = None,
     tm_continuation = None, tm_handovers = [], tm_createdAt = toISOString 0\<rparr>"

definition demo_record :: "control_state \<Rightarrow> control_record" where
  "demo_record c = \<lparr>cr_requestId = ''r1'', cr_receiptId = ''s1'', cr_outcome = c, cr_observedAt = 0, cr_target = None\<rparr>"

definition demo_outcome :: "control_state \<Rightarrow> control_outcome" where
  "demo_outcome c = \<lparr>co_requestId = ''r1'', co_receiptId = ''s1'', co_outcome = c, co_observedAt = toISOString 0, co_target = None\<rparr>"

lemma steer_texts:
  "msg_ref_error ''task-1'' K_message ''message-1'' = None" "requireIdentity ''message-1'' = Inr ''message-1''" "requireIdentity ''task-1'' = Inr ''task-1''"
  "requireText ''go'' = Inr ''go''" "requireBody ''go'' = Inr ''go''" "requireIdentity ''r1'' = Inr ''r1''" "requireText ''s1'' = Inr ''s1''"
  "valid_time 0"
  by code_simp+

lemma demo_message_valid:
  assumes "\<forall>x \<in> set_option c. \<exists>k. x = demo_outcome k"
  shows "validateTaskMessage (demo_message c) = None"
proof -
  have c: "when_some c (task_control_error (demo_message c)) = None"
    using assms by (cases c) (auto simp: task_control_error_def control_error_def validateControlTarget_def demo_outcome_def steer_texts reject_def
        was_steer_def input_requestId_def demo_message_def demo_steer_def)
  have "input_control_error demo_steer = None" by (simp add: input_control_error_def demo_steer_def steer_texts)
  then show ?thesis using c
    by (simp add: validateTaskMessage_def validateInboxReceipt_def demo_message_def steer_texts validateKindAndAuthor_def normalizeAuthor_def
        submitted_def reject_def)
qed

lemma demo_message_created: "createTaskMessage ''message-1'' ''task-1'' ''go'' Kind_user By_user 0 demo_context = Inr (demo_message None)"
proof -
  have "save_message (demo_message None) = Inr (demo_message None)" using demo_message_valid [of None] by (simp add: save_message_def)
  moreover have "normalized_input demo_steer = Inr demo_steer" by (simp add: normalized_input_def demo_steer_def steer_texts optional_value_def)
  ultimately show ?thesis
    by (simp add: createTaskMessage_def demo_context_def validateKindAndAuthor_def reject_def normalizeAuthor_def steer_texts optional_value_def
        submitted_def demo_message_def)
qed

lemma demo_recorded:
  assumes "\<forall>x \<in> set_option c. \<exists>k. x = demo_outcome k \<and> k \<noteq> s \<and> \<not> settled_outcome k" "s \<noteq> Ctl_pending"
  shows "recordTaskMessageControlOutcome (demo_message c) (demo_record s) = Inr (demo_message (Some (demo_outcome s)))"
proof -
  have "(demo_message c)\<lparr>tm_control := Some (demo_outcome s)\<rparr> = demo_message (Some (demo_outcome s))" by (simp add: demo_message_def)
  moreover have "save_message (demo_message (Some (demo_outcome s))) = Inr (demo_message (Some (demo_outcome s)))"
    unfolding save_message_def by (subst demo_message_valid) auto
  moreover have "was_steer (demo_message c)" "input_requestId (demo_message c) = Some ''r1''" "tm_control (demo_message c) = c"
    by (simp_all add: was_steer_def input_requestId_def demo_message_def demo_steer_def)
  ultimately show ?thesis using assms
    by (cases c) (auto simp: recordTaskMessageControlOutcome_def demo_record_def steer_texts absorbed_def demo_outcome_def settled_outcome_def)
qed

subsection \<open>A refused steer is handed over\<close>

definition demo_handoff :: global_interrupt where
  "demo_handoff = \<lparr>gi_requestId = ''r2'', gi_targetAttemptId = ''a1'', gi_targetNativeSessionId = ''n1'', gi_targetAgentId = ''b1'',
     gi_targetAuthorityEpoch = 1, gi_targetAuthorityHolderId = ''h1'', gi_targetNativeTurnId = None, gi_reusedInput = Some demo_steer\<rparr>"

definition handoff_request :: interrupt_request where
  "handoff_request = \<lparr>iq_messageId = ''global-message-1'', iq_claim = demo_handoff\<lparr>gi_reusedInput := None\<rparr>, iq_priorRejected = False\<rparr>"

definition steer_input :: "control_state option \<Rightarrow> bool \<Rightarrow> bool \<Rightarrow> global_message" where
  "steer_input c claimed delivered = \<lparr>gm_inbox = None, gm_id = ''global-message-1'', gm_roleName = ''operator'', gm_kind = Global_user,
     gm_author = Global_user, gm_body = ''go'',
     gm_control = map_option (\<lambda>k. \<lparr>co_requestId = ''r1'', co_receiptId = ''steer:operator/global-message-1'', co_outcome = k,
       co_observedAt = toISOString 0, co_target = None\<rparr>) c,
     gm_deliveryTarget = None, gm_inputControl = (if claimed then None else Some demo_steer),
     gm_delivery = (if delivered then Some \<lparr>gd_deliveredAt = toISOString 0, gd_via = Via_transport\<rparr> else None),
     gm_interruptThen = (if claimed then Some demo_handoff else None), gm_notDelivered = None, gm_createdAt = toISOString 0\<rparr>"

lemma input_texts:
  "validateGlobalRoleMessageId ''global-message-1'' = Inr ''global-message-1''" "requireIdentity ''operator'' = Inr ''operator''"
  "requireText ''steer:operator/global-message-1'' = Inr ''steer:operator/global-message-1''" "requireIdentity ''r2'' = Inr ''r2''"
  "requireText ''a1'' = Inr ''a1''" "requireText ''n1'' = Inr ''n1''" "requireText ''b1'' = Inr ''b1''" "requireText ''h1'' = Inr ''h1''"
  "isSafeInteger 1"
  by code_simp+

lemma steer_input_valid: "validateGlobalRoleMessage (steer_input c claimed delivered) = None"
proof -
  have "input_control_error demo_steer = None" by (simp add: input_control_error_def demo_steer_def steer_texts)
  moreover have "global_interrupt_error demo_handoff = None"
    by (simp add: global_interrupt_error_def demo_handoff_def demo_steer_def steer_texts input_texts reject_def)
  ultimately show ?thesis
    by (cases c) (simp_all add: validateGlobalRoleMessage_def validateInboxReceipt_def steer_input_def control_error_def validateControlTarget_def
        steer_texts input_texts reject_def)
qed

lemma steer_input_updated:
  "updateGlobalRoleMessage ''operator'' (steer_input c claimed delivered) [steer_input d k e] = Inr [steer_input c claimed delivered]"
  unfolding updateGlobalRoleMessage_def steer_input_valid
  by (cases d) (simp_all add: find_message_def assertInboxOriginalPreserved_def assertInboxReceiptPreserved_def receipt_preserved_def reject_def steer_input_def)

lemma steer_input_saved:
  "global_step ''operator'' (Save_new ''global-message-1'' ''operator'' ''go'' Global_user Global_user 0 (Some demo_steer)) [] = Inr [steer_input None False False]"
proof -
  have "normalized_input demo_steer = Inr demo_steer" by (simp add: normalized_input_def demo_steer_def steer_texts optional_value_def)
  moreover have "checked_global (steer_input None False False) = Inr (steer_input None False False)"
    by (simp add: checked_global_def steer_input_valid)
  ultimately have "createGlobalRoleMessage ''global-message-1'' ''operator'' ''go'' Global_user Global_user 0 (Some demo_steer) = Inr (steer_input None False False)"
    by (simp add: createGlobalRoleMessage_def steer_texts input_texts optional_value_def steer_input_def)
  moreover have "gm_roleName (steer_input None False False) = ''operator''" by (simp add: steer_input_def)
  ultimately show ?thesis by (simp add: saveGlobalRoleMessage_def steer_input_valid find_message_def)
qed

lemma steer_input_refused:
  "global_step ''operator'' (Steer_result ''global-message-1'' Steer_refused 0) [steer_input None False False] = Inr [steer_input (Some Ctl_rejected) False False]"
proof -
  have "(steer_input None False False)\<lparr>gm_control := gm_control (steer_input (Some Ctl_rejected) False False)\<rparr> = steer_input (Some Ctl_rejected) False False"
    by (simp add: steer_input_def)
  then show ?thesis using steer_input_updated [of "Some Ctl_rejected" False False None False False]
    by (simp add: recordGlobalSteerResult_def find_message_def steer_input_def demo_steer_def)
qed

lemma steer_input_claimed:
  "global_step ''operator'' (Register handoff_request) [steer_input (Some Ctl_rejected) False False] = Inr [steer_input (Some Ctl_rejected) True False]"
proof -
  have "checked_global (steer_input (Some Ctl_rejected) True False) = Inr (steer_input (Some Ctl_rejected) True False)"
    by (simp add: checked_global_def steer_input_valid)
  then have "claimGlobalRoleMessageInterruptThen (steer_input (Some Ctl_rejected) False False) (iq_claim handoff_request) = Inr (steer_input (Some Ctl_rejected) True False)"
    by (simp add: claimGlobalRoleMessageInterruptThen_def handoff_request_def demo_handoff_def input_texts optional_value_def steer_input_def)
  then show ?thesis using steer_input_updated [of "Some Ctl_rejected" True False "Some Ctl_rejected" False False]
    by (simp add: registerGlobalInterruptThen_def find_message_def) (simp add: steer_input_def handoff_request_def)
qed

lemma steer_input_delivered:
  "global_step ''operator'' (Deliver ''global-message-1'' 0 Via_transport) [steer_input (Some Ctl_rejected) True False] = Inr [steer_input (Some Ctl_pending) True True]"
proof -
  have "checked_global (steer_input (Some Ctl_pending) True True) = Inr (steer_input (Some Ctl_pending) True True)"
    by (simp add: checked_global_def steer_input_valid)
  then have "markGlobalRoleMessageDelivered (steer_input (Some Ctl_rejected) True False) 0 Via_transport = Inr (steer_input (Some Ctl_pending) True True)"
    by (simp add: markGlobalRoleMessageDelivered_def steer_input_def)
  then show ?thesis using steer_input_updated [of "Some Ctl_pending" True True "Some Ctl_rejected" True False]
    by (simp add: change_message_def find_message_def) (simp add: steer_input_def)
qed

subsection \<open>What is proved\<close>

text \<open>
  C30. After a Task message is created, recorded outcomes, edits and receipts only add to it: at every point of every
  sequence of operations it is valid; author, intent, request identities and everything else stay as created; its body is
  frozen once it has a request identity; a submission receipt is written once; an outcome names one control attempt, is final
  once accepted or rejected, never returns to pending and keeps the exact target it was admitted to.\<close>

theorem task_message_history:
  assumes "createTaskMessage i taskId body kind author now x = Inr m" "run_commands task_message_step (cs @ ds) m = Inr t"
  shows "\<exists>u. run_commands task_message_step cs m = Inr u \<and> validateTaskMessage u = None \<and> validateTaskMessage t = None \<and> message_below m u \<and> message_below u t"
proof -
  have m: "message_inv m" by (rule created_message [OF assms(1)])
  obtain u where u: "run_commands task_message_step cs m = Inr u" "message_inv u" "run_commands task_message_step ds u = Inr t"
    using task_messages.run_prefix_valid [OF m _ assms(2)] by (auto simp: list_all_iff)
  have "message_inv t" "message_below u t" "message_below m u"
    using task_messages.run_valid [OF u(2) _ u(3)] task_messages.run_below [OF u(2) _ u(3)] task_messages.run_below [OF m _ u(1)]
    by (auto simp: list_all_iff)
  then show ?thesis using u by (auto simp: message_inv_def)
qed

theorem task_message_history_witness:
  "\<exists>u t. run_commands task_message_step [Record_outcome (demo_record Ctl_unknown)] (demo_message None) = Inr u \<and>
     run_commands task_message_step [Record_outcome (demo_record Ctl_unknown), Record_outcome (demo_record Ctl_accepted)] (demo_message None) = Inr t \<and>
     tm_control t = Some (demo_outcome Ctl_accepted) \<and> message_below (demo_message None) u \<and> message_below u t"
proof -
  have a: "recordTaskMessageControlOutcome (demo_message None) (demo_record Ctl_unknown) = Inr (demo_message (Some (demo_outcome Ctl_unknown)))"
    "recordTaskMessageControlOutcome (demo_message (Some (demo_outcome Ctl_unknown))) (demo_record Ctl_accepted) =
      Inr (demo_message (Some (demo_outcome Ctl_accepted)))"
    using demo_recorded [of None Ctl_unknown] demo_recorded [of "Some (demo_outcome Ctl_unknown)" Ctl_accepted] by (auto simp: settled_outcome_def)
  then have "run_commands task_message_step ([Record_outcome (demo_record Ctl_unknown)] @ [Record_outcome (demo_record Ctl_accepted)]) (demo_message None) =
      Inr (demo_message (Some (demo_outcome Ctl_accepted)))" by simp
  from task_message_history [OF demo_message_created this] show ?thesis using a by (auto simp: demo_message_def)
qed

text \<open>
  C31. Over every sequence of operations on the inputs of a global Role, ids are unique, at most one saved input claims
  the continuation of a given interrupted turn, and no input is both delivered and not delivered. From every point on, an
  input keeps its text, author and original request id, also when a claim reuses it; a delivery stays, one confirmed by the
  provider unchanged, and so do a nondelivery and a claim.\<close>

theorem global_inputs_history:
  assumes "list_all global_admissible (cs @ ds)" "run_commands (global_step role) (cs @ ds) [] = Inr ts"
  shows "\<exists>ms. run_commands (global_step role) cs [] = Inr ms \<and> table_below ms ts \<and> distinct (map gm_id ts) \<and> claimed_once ts \<and>
    (\<forall>m \<in> set ts. gm_delivery m = None \<or> gm_notDelivered m = None)"
proof -
  have e: "global_inv []" by (simp add: global_inv_def claimed_once_def)
  obtain ms where ms: "run_commands (global_step role) cs [] = Inr ms" "global_inv ms" "run_commands (global_step role) ds ms = Inr ts"
    using global_inputs.run_prefix_valid [OF e assms] by blast
  have ds: "list_all global_admissible ds" using assms(1) by simp
  have "global_inv ts" "table_below ms ts"
    using global_inputs.run_valid [OF ms(2) ds ms(3)] global_inputs.run_below [OF ms(2) ds ms(3)] by auto
  then show ?thesis using ms(1) valid_exclusive by (auto simp: global_inv_def)
qed

theorem global_inputs_history_witness:
  "\<exists>ms ts. run_commands (global_step ''operator'') [Save_new ''global-message-1'' ''operator'' ''go'' Global_user Global_user 0 (Some demo_steer),
       Steer_result ''global-message-1'' Steer_refused 0] [] = Inr ms \<and>
     run_commands (global_step ''operator'') ([Save_new ''global-message-1'' ''operator'' ''go'' Global_user Global_user 0 (Some demo_steer),
       Steer_result ''global-message-1'' Steer_refused 0] @ [Register handoff_request, Deliver ''global-message-1'' 0 Via_transport]) [] = Inr ts \<and>
     ts = [steer_input (Some Ctl_pending) True True] \<and> table_below ms ts \<and> claimed_once ts"
proof -
  let ?cs = "[Save_new ''global-message-1'' ''operator'' ''go'' Global_user Global_user 0 (Some demo_steer),
    Steer_result ''global-message-1'' Steer_refused 0]"
  let ?ds = "[Register handoff_request, Deliver ''global-message-1'' 0 Via_transport]"
  have t: "trim ''a1'' = ''a1''" by code_simp
  have "list_all global_admissible (?cs @ ?ds)" by (simp add: handoff_request_def demo_handoff_def t)
  moreover have "run_commands (global_step ''operator'') (?cs @ ?ds) [] = Inr [steer_input (Some Ctl_pending) True True]"
    using steer_input_saved steer_input_refused steer_input_claimed steer_input_delivered by (simp del: global_step.simps)
  ultimately show ?thesis using global_inputs_history [of ?cs ?ds] by blast
qed

text \<open>
  C32. The outcome of a steer is not final in the table of a Role: a steer which the provider refused, whose
  input then continues an interrupted turn, is pending again once the transport delivers that input.\<close>

theorem refused_steer_pending_again:
  "\<exists>ms ts. run_commands (global_step ''operator'') [Save_new ''global-message-1'' ''operator'' ''go'' Global_user Global_user 0 (Some demo_steer),
       Steer_result ''global-message-1'' Steer_refused 0] [] = Inr ms \<and>
     run_commands (global_step ''operator'') [Register handoff_request, Deliver ''global-message-1'' 0 Via_transport] ms = Inr ts \<and>
     map (\<lambda>m. map_option co_outcome (gm_control m)) ms = [Some Ctl_rejected] \<and>
     map (\<lambda>m. map_option co_outcome (gm_control m)) ts = [Some Ctl_pending]"
proof -
  have "map_option co_outcome (gm_control (steer_input (Some k) claimed delivered)) = Some k" for k claimed delivered by (simp add: steer_input_def)
  then show ?thesis
    using steer_input_saved steer_input_refused steer_input_claimed steer_input_delivered by (simp del: global_step.simps)
qed

end
