(* ===== verification/File_Patterns.thy ===== *)
theory File_Patterns
  imports Posix_Path
begin

text \<open>
  The pattern matcher of the built-in agent's repository tools (\<open>src/src/nativeAgent/filePatterns.ts\<close>):
  globs over paths and single-line regular expressions, compiled to sequences of atoms and run by a
  simulation of the automaton that charges every step to a work budget, so that no pattern can make
  the matcher backtrack.

  An array of state flags is a list of booleans; the loops over its index are recursions over the
  list, the flag already written for the current index is passed on as \<open>carry\<close>. The index into a
  pattern is the suffix of the pattern that starts there. Every character of the modelled strings is
  one code point. The mutable budget is passed along; an exhausted budget throws. After the theory of
  languages of atom sequences, the properties compare the simulation with that reference.
\<close>

subsection \<open>Patterns and their compilation\<close>

datatype file_fault = Pattern_limit | Unsupported_pattern

record atom =
  at_test :: "char \<Rightarrow> bool"
  at_repeat :: bool
  at_optional :: bool

definition tick :: "int \<Rightarrow> file_fault + int" where
  "tick b = (if b - 1 < 0 then Inl Pattern_limit else Inr (b - 1))"

function class_ranges :: "string \<Rightarrow> file_fault + (nat \<times> nat) list \<times> string" where
  "class_ranges [] = Inl Unsupported_pattern"
| "class_ranges (c # rest) =
     (if c = CHR '']'' then Inr ([], rest)
      else if c = CHR 0x5C \<or> c = CHR ''['' then Inl Unsupported_pattern
      else if take 1 rest = ''-'' \<and> take 1 (drop 1 rest) \<noteq> '']'' then
        (case drop 1 rest of
           [] \<Rightarrow> Inl Unsupported_pattern
         | d # others \<Rightarrow>
             if unit_of d < unit_of c then Inl Unsupported_pattern
             else bind_result (class_ranges others) (\<lambda>(rs, tail). Inr ((unit_of c, unit_of d) # rs, tail)))
      else bind_result (class_ranges rest) (\<lambda>(rs, tail). Inr ((unit_of c, unit_of c) # rs, tail)))"
  by pat_completeness auto
termination
  by (relation "measure length") (auto simp: drop_Cons' dest!: arg_cong [of _ "_ # _" length] split: if_splits)

definition in_ranges :: "(nat \<times> nat) list \<Rightarrow> char \<Rightarrow> bool" where
  "in_ranges rs ch = (\<exists>r \<in> set rs. fst r \<le> unit_of ch \<and> unit_of ch \<le> snd r)"

definition characterClass :: "string \<Rightarrow> bool \<Rightarrow> file_fault + (char \<Rightarrow> bool) \<times> string" where
  "characterClass pattern globClass =
     (let negative = (take 1 pattern = ''^'' \<or> globClass \<and> take 1 pattern = ''!'') in
      bind_result (class_ranges (if negative then drop 1 pattern else pattern)) (\<lambda>(ranges, tail).
        if ranges = [] then Inl Unsupported_pattern
        else Inr (\<lambda>ch. negative \<noteq> in_ranges ranges ch, tail)))"

definition boundedPattern :: "string \<Rightarrow> file_fault option" where
  "boundedPattern pattern =
     reject (pattern = [] \<or> 256 < length pattern \<or> (\<exists>c \<in> set pattern. c \<in> {CHR 0x00, CHR 0x0D, CHR 0x0A})) Unsupported_pattern"

definition any_star :: atom where
  "any_star = \<lparr>at_test = (\<lambda>_. True), at_repeat = True, at_optional = True\<rparr>"

definition once :: "(char \<Rightarrow> bool) \<Rightarrow> atom" where
  "once f = \<lparr>at_test = f, at_repeat = False, at_optional = False\<rparr>"

lemma class_ranges_shorter: "class_ranges p = Inr (rs, tail) \<Longrightarrow> length tail < length p"
proof (induction p arbitrary: rs rule: class_ranges.induct)
  case 1
  then show ?case by simp
next
  case (2 c rest)
  show ?case
  proof (cases "take 1 rest = ''-'' \<and> take 1 (drop 1 rest) \<noteq> '']''")
    case True
    show ?thesis
    proof (cases "drop 1 rest")
      case (Cons d others)
      then have "length others < length rest" by (cases rest) auto
      with 2 True Cons show ?thesis by (fastforce simp: bind_result_Inr split: if_splits)
    qed (use 2 True in \<open>auto split: if_splits\<close>)
  next
    case False
    with 2 show ?thesis by (fastforce simp: bind_result_Inr split: if_splits)
  qed
qed

lemma characterClass_shorter: "characterClass p g = Inr (f, tail) \<Longrightarrow> length tail \<le> length p"
  by (force simp: characterClass_def Let_def bind_result_Inr split: if_splits dest: class_ranges_shorter)

function glob_atoms :: "string \<Rightarrow> file_fault + atom list" where
  "glob_atoms [] = Inr []"
| "glob_atoms (c # rest) =
     (if c \<in> set ''@+?!*'' \<and> take 1 rest = ''('' then Inl Unsupported_pattern
      else if c = CHR ''*'' \<and> take 1 rest = ''*'' then Inl Unsupported_pattern
      else if c = CHR ''*'' then bind_result (glob_atoms rest) (\<lambda>as. Inr (any_star # as))
      else if c = CHR ''?'' then bind_result (glob_atoms rest) (\<lambda>as. Inr (once (\<lambda>_. True) # as))
      else if c = CHR ''['' then
        (case characterClass rest True of
           Inl e \<Rightarrow> Inl e
         | Inr (f, tail) \<Rightarrow> bind_result (glob_atoms tail) (\<lambda>as. Inr (once f # as)))
      else if c = CHR 0x5C then
        (case rest of
           [] \<Rightarrow> Inl Unsupported_pattern
         | d # tail \<Rightarrow> bind_result (glob_atoms tail) (\<lambda>as. Inr (once (\<lambda>v. v = d) # as)))
      else if c \<in> set ''{}]'' then Inl Unsupported_pattern
      else bind_result (glob_atoms rest) (\<lambda>as. Inr (once (\<lambda>v. v = c) # as)))"
  by pat_completeness auto
termination
  by (relation "measure length") (auto dest: characterClass_shorter)

definition glob_segment :: "string \<Rightarrow> file_fault + atom list option" where
  "glob_segment segment = (if segment = ''**'' then Inr None else bind_result (glob_atoms segment) (\<lambda>as. Inr (Some as)))"

definition glob :: "string \<Rightarrow> file_fault + atom list option list" where
  "glob pattern =
     (case boundedPattern pattern of
        Some e \<Rightarrow> Inl e
      | None \<Rightarrow> map_result glob_segment (split_on CHR ''/'' pattern))"

definition is_word :: "char \<Rightarrow> bool" where
  "is_word c = (is_digit c \<or> 65 \<le> unit_of c \<and> unit_of c \<le> 90 \<or> 97 \<le> unit_of c \<and> unit_of c \<le> 122 \<or> c = CHR ''_'')"

definition escape_test :: "char \<Rightarrow> file_fault + (char \<Rightarrow> bool)" where
  "escape_test c =
     (if is_digit c then Inl Unsupported_pattern
      else if c = CHR ''d'' then Inr is_digit
      else if c = CHR ''w'' then Inr is_word
      else if c = CHR ''s'' then Inr is_space
      else if c \<in> set (CHR 0x5C # ''.^$*+?[](){}|'') then Inr (\<lambda>v. v = c)
      else Inl Unsupported_pattern)"

definition regex_item :: "char \<Rightarrow> string \<Rightarrow> file_fault + (char \<Rightarrow> bool) \<times> string" where
  "regex_item c rest =
     (if c = CHR ''.'' then Inr (\<lambda>_. True, rest)
      else if c = CHR ''['' then characterClass rest False
      else if c = CHR 0x5C then
        (case rest of
           [] \<Rightarrow> Inl Unsupported_pattern
         | d # tail \<Rightarrow> bind_result (escape_test d) (\<lambda>f. Inr (f, tail)))
      else if c \<in> set ''^$*+?(){}|]'' then Inl Unsupported_pattern
      else Inr (\<lambda>v. v = c, rest))"

lemma regex_item_shorter: "regex_item c rest = Inr (f, tail) \<Longrightarrow> length tail \<le> length rest"
  by (auto simp: regex_item_def bind_result_Inr split: if_splits list.splits dest: characterClass_shorter)

definition quantified :: "(char \<Rightarrow> bool) \<Rightarrow> string \<Rightarrow> atom \<times> string" where
  "quantified f tail =
     (case tail of
        q # others \<Rightarrow>
          if q \<in> set ''*+?''
          then (\<lparr>at_test = f, at_repeat = (q = CHR ''*'' \<or> q = CHR ''+''), at_optional = (q = CHR ''*'' \<or> q = CHR ''?'')\<rparr>, others)
          else (once f, tail)
      | [] \<Rightarrow> (once f, tail))"

lemma quantified_shorter: "length (snd (quantified f tail)) \<le> length tail"
  by (simp add: quantified_def split: list.split)

function regex_atoms :: "string \<Rightarrow> file_fault + atom list \<times> bool" where
  "regex_atoms [] = Inr ([], False)"
| "regex_atoms (c # rest) =
     (if c = CHR ''$'' \<and> rest = [] then Inr ([], True)
      else case regex_item c rest of
        Inl e \<Rightarrow> Inl e
      | Inr (f, tail) \<Rightarrow>
          bind_result (regex_atoms (snd (quantified f tail))) (\<lambda>(as, anchored). Inr (fst (quantified f tail) # as, anchored)))"
  by pat_completeness auto
termination
  by (relation "measure length") (auto dest!: regex_item_shorter intro: le_less_trans [OF quantified_shorter])

definition regex :: "string \<Rightarrow> file_fault + atom list \<times> bool \<times> bool" where
  "regex pattern =
     (case boundedPattern pattern of
        Some e \<Rightarrow> Inl e
      | None \<Rightarrow>
          let startAnchor = (take 1 pattern = ''^'') in
          bind_result (regex_atoms (if startAnchor then drop 1 pattern else pattern)) (\<lambda>(as, endAnchor).
            Inr (as, startAnchor, endAnchor)))"

subsection \<open>The simulation\<close>

fun closure :: "atom list \<Rightarrow> bool list \<Rightarrow> int \<Rightarrow> file_fault + bool list \<times> int" where
  "closure (a # as) (s # t # ss) b =
     bind_result (tick b) (\<lambda>b.
     bind_result (closure as ((t \<or> s \<and> at_optional a) # ss) b) (\<lambda>(r, b). Inr (s # r, b)))"
| "closure _ ss b = Inr (ss, b)"

fun advance :: "char \<Rightarrow> atom list \<Rightarrow> bool list \<Rightarrow> bool \<Rightarrow> int \<Rightarrow> file_fault + bool list \<times> int" where
  "advance c (a # as) (s # ss) carry b =
     bind_result (tick b) (\<lambda>b.
     let hit = (s \<and> at_test a c) in
     bind_result (advance c as ss hit b) (\<lambda>(r, b). Inr ((carry \<or> hit \<and> at_repeat a) # r, b)))"
| "advance c _ _ carry b = Inr ([carry], b)"

text \<open>The test for an early result stands at the head of the loop, where the one before the loop and
  the one at the end of its body meet.\<close>

fun sequence_loop :: "atom list \<Rightarrow> bool \<Rightarrow> bool \<Rightarrow> bool list \<Rightarrow> string \<Rightarrow> int \<Rightarrow> file_fault + bool \<times> int" where
  "sequence_loop atoms startAnchor endAnchor active text b =
     (if \<not> endAnchor \<and> last active then Inr (True, b)
      else case text of
        [] \<Rightarrow> Inr (last active, b)
      | ch # others \<Rightarrow>
          bind_result (advance ch atoms active (\<not> startAnchor) b) (\<lambda>(next, b).
          bind_result (closure atoms next b) (\<lambda>(next, b).
            sequence_loop atoms startAnchor endAnchor next others b)))"

declare sequence_loop.simps [simp del]

definition sequence :: "atom list \<Rightarrow> string \<Rightarrow> int \<Rightarrow> bool \<Rightarrow> bool \<Rightarrow> file_fault + bool \<times> int" where
  "sequence atoms text b startAnchor endAnchor =
     bind_result (closure atoms (True # replicate (length atoms) False) b) (\<lambda>(active, b).
       sequence_loop atoms startAnchor endAnchor active text b)"

fun glob_row :: "atom list option \<Rightarrow> string list \<Rightarrow> bool list \<Rightarrow> bool \<Rightarrow> int \<Rightarrow> file_fault + bool list \<times> int" where
  "glob_row None parts (x # xs) carry b =
     bind_result (tick b) (\<lambda>b.
     let n = (x \<or> carry) in
     bind_result (glob_row None parts xs n b) (\<lambda>(r, b). Inr (n # r, b)))"
| "glob_row (Some as) (p # parts) (x # xs) carry b =
     bind_result (tick b) (\<lambda>b.
     bind_result (if x then sequence as p b True True else Inr (False, b)) (\<lambda>(hit, b).
     bind_result (glob_row (Some as) parts xs hit b) (\<lambda>(r, b). Inr (carry # r, b))))"
| "glob_row (Some as) [] (x # xs) carry b = bind_result (tick b) (\<lambda>b. Inr ([carry], b))"
| "glob_row _ _ [] carry b = Inr ([], b)"

fun glob_loop :: "atom list option list \<Rightarrow> string list \<Rightarrow> bool list \<Rightarrow> int \<Rightarrow> file_fault + bool \<times> int" where
  "glob_loop [] parts active b = Inr (last active, b)"
| "glob_loop (segment # segments) parts active b =
     bind_result (glob_row segment parts active False b) (\<lambda>(next, b). glob_loop segments parts next b)"

definition glob_test :: "atom list option list \<Rightarrow> string \<Rightarrow> int \<Rightarrow> file_fault + bool \<times> int" where
  "glob_test segments text b =
     (let parts = split_on CHR ''/'' text in
      glob_loop segments parts (True # replicate (length parts) False) b)"

definition regex_test :: "atom list \<times> bool \<times> bool \<Rightarrow> string \<Rightarrow> int \<Rightarrow> file_fault + bool \<times> int" where
  "regex_test compiled text b = (case compiled of (as, startAnchor, endAnchor) \<Rightarrow> sequence as text b startAnchor endAnchor)"

subsection \<open>The reference: languages of atom sequences\<close>

definition atom_word :: "atom \<Rightarrow> string \<Rightarrow> bool" where
  "atom_word a u \<longleftrightarrow> (if u = [] then at_optional a else list_all (at_test a) u \<and> (length u = 1 \<or> at_repeat a))"

fun matches :: "atom list \<Rightarrow> string \<Rightarrow> bool" where
  "matches [] w = (w = [])"
| "matches (a # as) w = (\<exists>k \<in> set [0..<Suc (length w)]. atom_word a (take k w) \<and> matches as (drop k w))"

declare matches.simps(2) [simp del]

lemma matches_Cons: "matches (a # as) w \<longleftrightarrow> (\<exists>u v. w = u @ v \<and> atom_word a u \<and> matches as v)"
proof
  assume "\<exists>u v. w = u @ v \<and> atom_word a u \<and> matches as v"
  then obtain u v where "w = u @ v" "atom_word a u" "matches as v" by blast
  then show "matches (a # as) w" unfolding matches.simps(2) by (intro bexI [of _ "length u"]) auto
qed (metis append_take_drop_id matches.simps(2))

lemma matches_intro: "w = u @ v \<Longrightarrow> atom_word a u \<Longrightarrow> matches as v \<Longrightarrow> matches (a # as) w"
  by (auto simp: matches_Cons)

lemma matches_Nil: "matches (a # as) [] \<longleftrightarrow> at_optional a \<and> matches as []"
  by (auto simp: matches_Cons atom_word_def)

lemma atom_word_Cons: "atom_word a (c # u) \<longleftrightarrow> at_test a c \<and> (u = [] \<or> at_repeat a \<and> u \<noteq> [] \<and> atom_word a u)"
  by (auto simp: atom_word_def)

lemma matches_step:
  "matches (a # as) (c # w) \<longleftrightarrow>
     at_optional a \<and> matches as (c # w) \<or> at_test a c \<and> (matches as w \<or> at_repeat a \<and> matches (a # as) w)"
proof
  assume "matches (a # as) (c # w)"
  then obtain u v where uv: "c # w = u @ v" "atom_word a u" "matches as v" by (auto simp: matches_Cons)
  show "at_optional a \<and> matches as (c # w) \<or> at_test a c \<and> (matches as w \<or> at_repeat a \<and> matches (a # as) w)"
  proof (cases u)
    case Nil
    with uv show ?thesis by (simp add: atom_word_def)
  next
    case (Cons d x)
    with uv show ?thesis by (auto simp: atom_word_Cons matches_Cons)
  qed
next
  assume r: "at_optional a \<and> matches as (c # w) \<or> at_test a c \<and> (matches as w \<or> at_repeat a \<and> matches (a # as) w)"
  then consider "at_optional a" "matches as (c # w)" | "at_test a c" "matches as w" | "at_test a c" "at_repeat a" "matches (a # as) w"
    by blast
  then show "matches (a # as) (c # w)"
  proof cases
    case 1
    then show ?thesis by (intro matches_intro [of _ "[]" "c # w"]) (simp_all add: atom_word_def)
  next
    case 2
    then show ?thesis by (intro matches_intro [of _ "[c]" w]) (simp_all add: atom_word_def)
  next
    case 3
    then obtain u v where uv: "w = u @ v" "atom_word a u" "matches as v" by (auto simp: matches_Cons)
    with 3 have "atom_word a (c # u)" by (cases "u = []") (auto simp: atom_word_Cons)
    with uv show ?thesis by (intro matches_intro [of _ "c # u" v]) simp_all
  qed
qed

text \<open>The rest of a text that a vector of state flags accepts, and vectors closed under skipping optional atoms.\<close>

fun alive :: "atom list \<Rightarrow> bool list \<Rightarrow> string \<Rightarrow> bool" where
  "alive (a # as) (s # ss) w = (s \<and> matches (a # as) w \<or> alive as ss w)"
| "alive [] (s # ss) w = (s \<and> w = [])"
| "alive _ [] w = False"

fun closed :: "atom list \<Rightarrow> bool list \<Rightarrow> bool" where
  "closed (a # as) (s # t # ss) = ((s \<and> at_optional a \<longrightarrow> t) \<and> closed as (t # ss))"
| "closed _ _ = True"

lemma tick_Inr [simp]: "tick b = Inr c \<longleftrightarrow> c = b - 1 \<and> 0 < b"
  by (auto simp: tick_def)

lemma tick_ok: "0 < b \<Longrightarrow> tick b = Inr (b - 1)"
  by simp

text \<open>A computation that charges at most \<open>n\<close> steps: with that budget it returns, and it fails only by exhausting it.\<close>

definition charged :: "nat \<Rightarrow> (int \<Rightarrow> file_fault + 'a \<times> int) \<Rightarrow> 'a \<Rightarrow> bool" where
  "charged n f x \<longleftrightarrow> (\<forall>b. 0 \<le> b \<longrightarrow>
     f b = Inl Pattern_limit \<and> b < int n \<or> (\<exists>c. f b = Inr (x, c) \<and> b - int n \<le> c \<and> 0 \<le> c \<and> c \<le> b))"

lemma charged_return: "charged n (\<lambda>b. Inr (x, b)) x"
  by (auto simp: charged_def)

lemma charged_tick: "charged n f x \<Longrightarrow> charged (Suc n) (\<lambda>b. bind_result (tick b) f) x"
  unfolding charged_def
proof (intro allI impI)
  fix b :: int
  assume f: "\<forall>b. 0 \<le> b \<longrightarrow> f b = Inl Pattern_limit \<and> b < int n \<or> (\<exists>c. f b = Inr (x, c) \<and> b - int n \<le> c \<and> 0 \<le> c \<and> c \<le> b)"
    and b: "0 \<le> b"
  show "bind_result (tick b) f = Inl Pattern_limit \<and> b < int (Suc n) \<or>
      (\<exists>c. bind_result (tick b) f = Inr (x, c) \<and> b - int (Suc n) \<le> c \<and> 0 \<le> c \<and> c \<le> b)"
  proof (cases "0 < b")
    case True
    with f [rule_format, of "b - 1"] show ?thesis by (auto simp: tick_ok)
  next
    case False
    with b show ?thesis by (simp add: tick_def)
  qed
qed

lemma charged_bind:
  assumes "charged m f x" "charged n (\<lambda>b. g (x, b)) y"
  shows "charged (m + n) (\<lambda>b. bind_result (f b) g) y"
  unfolding charged_def
proof (intro allI impI)
  fix b :: int
  assume b: "0 \<le> b"
  from assms(1) b have "f b = Inl Pattern_limit \<and> b < int m \<or> (\<exists>c. f b = Inr (x, c) \<and> b - int m \<le> c \<and> 0 \<le> c \<and> c \<le> b)"
    by (simp add: charged_def)
  then show "bind_result (f b) g = Inl Pattern_limit \<and> b < int (m + n) \<or>
      (\<exists>c. bind_result (f b) g = Inr (y, c) \<and> b - int (m + n) \<le> c \<and> 0 \<le> c \<and> c \<le> b)"
  proof (elim disjE exE conjE)
    fix c
    assume c: "f b = Inr (x, c)" "b - int m \<le> c" "0 \<le> c" "c \<le> b"
    from assms(2) c(3) have "g (x, c) = Inl Pattern_limit \<and> c < int n \<or>
        (\<exists>d. g (x, c) = Inr (y, d) \<and> c - int n \<le> d \<and> 0 \<le> d \<and> d \<le> c)" by (simp add: charged_def)
    with c show ?thesis by auto
  qed simp
qed

lemma charged_mono: "charged m f x \<Longrightarrow> m \<le> n \<Longrightarrow> charged n f x"
  unfolding charged_def by (smt (verit) of_nat_mono)

lemma charged_cong: "charged n f x \<Longrightarrow> f = g \<Longrightarrow> x = y \<Longrightarrow> charged n g y"
  by simp

subsection \<open>The simulation agrees with the reference\<close>

fun closed_flags :: "atom list \<Rightarrow> bool list \<Rightarrow> bool list" where
  "closed_flags (a # as) (s # t # ss) = s # closed_flags as ((t \<or> s \<and> at_optional a) # ss)"
| "closed_flags _ ss = ss"

fun advanced_flags :: "char \<Rightarrow> atom list \<Rightarrow> bool list \<Rightarrow> bool \<Rightarrow> bool list" where
  "advanced_flags c (a # as) (s # ss) carry =
     (carry \<or> s \<and> at_test a c \<and> at_repeat a) # advanced_flags c as ss (s \<and> at_test a c)"
| "advanced_flags c _ _ carry = [carry]"

lemma charged_closure: "charged (length as) (closure as ss) (closed_flags as ss)"
proof (induction as ss rule: closed_flags.induct)
  case (1 a as s t ss)
  have "charged (length as + 0) (\<lambda>b. bind_result (closure as ((t \<or> s \<and> at_optional a) # ss) b) (\<lambda>(r, b). Inr (s # r, b)))
      (closed_flags (a # as) (s # t # ss))"
    by (rule charged_bind [OF 1]) (simp add: charged_return)
  then show ?case using charged_tick by fastforce
qed (auto simp: charged_return)

lemma charged_advance: "charged (length as) (advance c as ss carry) (advanced_flags c as ss carry)"
proof (induction c as ss carry rule: advanced_flags.induct)
  case (1 c a as s ss carry)
  have "charged (length as + 0) (\<lambda>b. bind_result (advance c as ss (s \<and> at_test a c) b)
      (\<lambda>(r, b). Inr ((carry \<or> (s \<and> at_test a c) \<and> at_repeat a) # r, b))) (advanced_flags c (a # as) (s # ss) carry)"
    by (rule charged_bind [OF 1]) (simp add: charged_return)
  then show ?case using charged_tick by (fastforce simp: Let_def)
qed (auto simp: charged_return)

lemma length_closed_flags [simp]: "length (closed_flags as ss) = length ss"
  by (induction as ss rule: closed_flags.induct) auto

lemma length_advanced_flags: "length ss = Suc (length as) \<Longrightarrow> length (advanced_flags c as ss carry) = Suc (length as)"
  by (induction c as ss carry rule: advanced_flags.induct) auto

lemma closed_flags_Cons: "\<exists>r. closed_flags as (s # ss) = s # r"
  by (cases "(as, s # ss)" rule: closed_flags.cases) auto

lemma closed_closed_flags: "closed as (closed_flags as ss)"
proof (induction as ss rule: closed_flags.induct)
  case (1 a as s t ss)
  let ?u = "t \<or> s \<and> at_optional a"
  obtain r where r: "closed_flags as (?u # ss) = ?u # r"
    using closed_flags_Cons by blast
  with 1 show ?case by simp
qed auto

lemma alive_closed_flags: "length ss = Suc (length as) \<Longrightarrow> alive as (closed_flags as ss) w \<longleftrightarrow> alive as ss w"
proof (induction as ss rule: closed_flags.induct)
  case (1 a as s t ss)
  have "at_optional a \<Longrightarrow> matches as w \<Longrightarrow> matches (a # as) w"
    by (intro matches_intro [of _ "[]" w]) (simp_all add: atom_word_def)
  with 1 show ?case by (cases as) auto
qed auto

lemma last_alive: "length ss = Suc (length as) \<Longrightarrow> closed as ss \<Longrightarrow> alive as ss [] \<longleftrightarrow> last ss"
proof (induction as ss rule: closed.induct)
  case (1 a as s t ss)
  then have "alive as (t # ss) [] \<longleftrightarrow> last (t # ss)" by simp
  moreover have "s \<and> matches (a # as) [] \<Longrightarrow> alive as (t # ss) []"
    using 1(3) by (cases as) (auto simp: matches_Nil)
  ultimately show ?case by auto
qed (auto simp: length_Suc_conv)

lemma alive_advanced:
  "length ss = Suc (length as) \<Longrightarrow> closed as ss \<Longrightarrow>
    alive as (advanced_flags c as ss carry) w \<longleftrightarrow> carry \<and> matches as w \<or> alive as ss (c # w)"
proof (induction as arbitrary: ss carry)
  case Nil
  then show ?case by (cases ss) auto
next
  case (Cons a as)
  then obtain s t r where ss: "ss = s # t # r" "length r = length as" by (auto simp: length_Suc_conv)
  with Cons have "alive as (advanced_flags c as (t # r) (s \<and> at_test a c)) w \<longleftrightarrow>
      (s \<and> at_test a c) \<and> matches as w \<or> alive as (t # r) (c # w)" by simp
  moreover have "s \<Longrightarrow> at_optional a \<Longrightarrow> matches as (c # w) \<Longrightarrow> alive as (t # r) (c # w)"
    using Cons.prems(2) ss by (cases as) auto
  ultimately show ?case by (auto simp: ss matches_step)
qed

lemma alive_initial: "alive as (True # replicate (length as) False) w \<longleftrightarrow> matches as w"
proof -
  have "\<not> alive bs (replicate n False) w" for bs n
  proof (induction n arbitrary: bs)
    case (Suc n)
    then show ?case by (cases bs) simp_all
  qed (cases bs; simp)
  then show ?thesis by (cases as) (auto simp del: replicate_Suc)
qed

text \<open>What the loop looks for: a match that begins at the current vector, or later when the pattern is not anchored.\<close>

definition found :: "atom list \<Rightarrow> bool \<Rightarrow> bool \<Rightarrow> bool list \<Rightarrow> string \<Rightarrow> bool" where
  "found as sa ea ss text \<longleftrightarrow>
     (\<exists>u v. text = u @ v \<and> (ea \<longrightarrow> v = []) \<and> alive as ss u) \<or>
     \<not> sa \<and> (\<exists>p u v. p \<noteq> [] \<and> text = p @ u @ v \<and> (ea \<longrightarrow> v = []) \<and> matches as u)"

lemma found_Nil: "length ss = Suc (length as) \<Longrightarrow> closed as ss \<Longrightarrow> found as sa ea ss [] \<longleftrightarrow> last ss"
  by (simp add: found_def last_alive)

lemma ex_split_Cons: "(\<exists>u v. c # w = u @ v \<and> P u v) \<longleftrightarrow> P [] (c # w) \<or> (\<exists>u v. w = u @ v \<and> P (c # u) v)"
proof
  assume "\<exists>u v. c # w = u @ v \<and> P u v"
  then obtain u v where "c # w = u @ v" "P u v" by blast
  then show "P [] (c # w) \<or> (\<exists>u v. w = u @ v \<and> P (c # u) v)" by (cases u) auto
next
  assume "P [] (c # w) \<or> (\<exists>u v. w = u @ v \<and> P (c # u) v)"
  then show "\<exists>u v. c # w = u @ v \<and> P u v" by (metis append_Cons append_Nil)
qed

lemma ex_split_later:
  "(\<exists>p u v. p \<noteq> [] \<and> c # w = p @ u @ v \<and> P u v) \<longleftrightarrow>
    (\<exists>u v. w = u @ v \<and> P u v) \<or> (\<exists>p u v. p \<noteq> [] \<and> w = p @ u @ v \<and> P u v)"
proof
  assume "\<exists>p u v. p \<noteq> [] \<and> c # w = p @ u @ v \<and> P u v"
  then obtain d p u v where "c # w = (d # p) @ u @ v" "P u v" by (metis neq_Nil_conv)
  then have "w = p @ u @ v" "P u v" by auto
  then show "(\<exists>u v. w = u @ v \<and> P u v) \<or> (\<exists>p u v. p \<noteq> [] \<and> w = p @ u @ v \<and> P u v)"
    by (metis append_Nil)
next
  assume "(\<exists>u v. w = u @ v \<and> P u v) \<or> (\<exists>p u v. p \<noteq> [] \<and> w = p @ u @ v \<and> P u v)"
  then obtain p u v where "c # w = (c # p) @ u @ v \<and> P u v" by (metis append_Cons append_Nil)
  then show "\<exists>p u v. p \<noteq> [] \<and> c # w = p @ u @ v \<and> P u v" by blast
qed

lemma found_Cons:
  assumes "length ss = Suc (length as)" "closed as ss"
  shows "found as sa ea ss (c # w) \<longleftrightarrow>
    \<not> ea \<and> last ss \<or> found as sa ea (closed_flags as (advanced_flags c as ss (\<not> sa))) w"
proof -
  have a: "alive as (closed_flags as (advanced_flags c as ss (\<not> sa))) u \<longleftrightarrow> \<not> sa \<and> matches as u \<or> alive as ss (c # u)" for u
    by (simp add: alive_closed_flags length_advanced_flags alive_advanced assms)
  show ?thesis
    unfolding found_def a ex_split_Cons ex_split_later using last_alive [OF assms] by auto blast+
qed

lemma found_now: "length ss = Suc (length as) \<Longrightarrow> closed as ss \<Longrightarrow> last ss \<Longrightarrow> found as sa False ss w"
  by (cases w) (auto simp: found_Nil found_Cons)

lemma loop_early: "\<not> ea \<Longrightarrow> last ss \<Longrightarrow> sequence_loop as sa ea ss w = (\<lambda>b. Inr (True, b))"
  by (rule ext) (simp add: sequence_loop.simps)

lemma loop_Nil: "sequence_loop as sa ea ss [] = (\<lambda>b. Inr (last ss, b))"
  by (rule ext) (simp add: sequence_loop.simps)

lemma loop_Cons:
  "\<not> (\<not> ea \<and> last ss) \<Longrightarrow> sequence_loop as sa ea ss (c # w) =
     (\<lambda>b. bind_result (advance c as ss (\<not> sa) b) (\<lambda>(next, b).
        bind_result (closure as next b) (\<lambda>(next, b). sequence_loop as sa ea next w b)))"
  by (rule ext) (simp only: sequence_loop.simps [of _ _ _ _ "c # w"] list.case if_False)

lemma charged_loop:
  assumes "length ss = Suc (length as)" "closed as ss"
  shows "charged (2 * length as * length w) (sequence_loop as sa ea ss w) (found as sa ea ss w)"
  using assms
proof (induction w arbitrary: ss)
  case Nil
  then show ?case by (simp add: loop_Nil found_Nil charged_return)
next
  case (Cons c w)
  show ?case
  proof (cases "\<not> ea \<and> last ss")
    case True
    with Cons.prems show ?thesis by (simp add: loop_early found_now charged_return)
  next
    case False
    let ?n = "advanced_flags c as ss (\<not> sa)" and ?m = "closed_flags as (advanced_flags c as ss (\<not> sa))"
    have "charged (2 * length as * length w) (sequence_loop as sa ea ?m w) (found as sa ea ?m w)"
      using Cons by (simp add: length_advanced_flags closed_closed_flags)
    then have "charged (length as + (2 * length as * length w))
        (\<lambda>b. bind_result (closure as ?n b) (\<lambda>(next, b). sequence_loop as sa ea next w b)) (found as sa ea ?m w)"
      by (intro charged_bind [OF charged_closure]) simp
    then have "charged (length as + (length as + (2 * length as * length w)))
        (\<lambda>b. bind_result (advance c as ss (\<not> sa) b) (\<lambda>(next, b).
           bind_result (closure as next b) (\<lambda>(next, b). sequence_loop as sa ea next w b))) (found as sa ea ?m w)"
      by (intro charged_bind [OF charged_advance]) simp
    moreover have "found as sa ea ss (c # w) = found as sa ea ?m w" using False Cons.prems by (auto simp: found_Cons)
    ultimately show ?thesis by (simp add: loop_Cons [OF False] algebra_simps)
  qed
qed

definition matched :: "atom list \<Rightarrow> bool \<Rightarrow> bool \<Rightarrow> string \<Rightarrow> bool" where
  "matched as startAnchor endAnchor w \<longleftrightarrow>
     (\<exists>p u v. w = p @ u @ v \<and> (startAnchor \<longrightarrow> p = []) \<and> (endAnchor \<longrightarrow> v = []) \<and> matches as u)"

lemma found_initial: "found as sa ea (closed_flags as (True # replicate (length as) False)) w \<longleftrightarrow> matched as sa ea w"
proof -
  have "found as sa ea (closed_flags as (True # replicate (length as) False)) w \<longleftrightarrow>
      (\<exists>u v. w = [] @ u @ v \<and> (ea \<longrightarrow> v = []) \<and> matches as u) \<or>
      \<not> sa \<and> (\<exists>p u v. p \<noteq> [] \<and> w = p @ u @ v \<and> (ea \<longrightarrow> v = []) \<and> matches as u)"
    by (simp add: found_def alive_closed_flags alive_initial)
  also have "\<dots> \<longleftrightarrow> matched as sa ea w" unfolding matched_def by blast
  finally show ?thesis .
qed

lemma matched_anchored [simp]: "matched as True True w \<longleftrightarrow> matches as w"
  by (simp add: matched_def)

lemma charged_sequence: "charged (length as * (2 * length w + 1)) (\<lambda>b. sequence as w b sa ea) (matched as sa ea w)"
proof -
  let ?i = "True # replicate (length as) False"
  have "charged (2 * length as * length w) (sequence_loop as sa ea (closed_flags as ?i) w) (matched as sa ea w)"
    using charged_loop [of "closed_flags as ?i" as w sa ea] by (simp add: closed_closed_flags found_initial)
  then have "charged (length as + 2 * length as * length w) (\<lambda>b. sequence as w b sa ea) (matched as sa ea w)"
    unfolding sequence_def by (intro charged_bind [OF charged_closure]) simp
  then show ?thesis by (simp add: algebra_simps)
qed

subsection \<open>Paths against globs\<close>

fun glob_matches :: "atom list option list \<Rightarrow> string list \<Rightarrow> bool" where
  "glob_matches [] parts = (parts = [])"
| "glob_matches (None # segments) parts = (\<exists>k \<in> set [0..<Suc (length parts)]. glob_matches segments (drop k parts))"
| "glob_matches (Some as # segments) parts =
     (case parts of [] \<Rightarrow> False | p # ps \<Rightarrow> matches as p \<and> glob_matches segments ps)"

declare glob_matches.simps(2) [simp del]

lemma glob_matches_deep:
  "glob_matches (None # segments) [] \<longleftrightarrow> glob_matches segments []"
  "glob_matches (None # segments) (p # ps) \<longleftrightarrow> glob_matches segments (p # ps) \<or> glob_matches (None # segments) ps"
proof -
  have d: "glob_matches (None # segments) parts \<longleftrightarrow> (\<exists>k \<le> length parts. glob_matches segments (drop k parts))" for parts
    unfolding glob_matches.simps(2) by (auto simp: less_Suc_eq_le simp del: upt_Suc)
  show "glob_matches (None # segments) [] \<longleftrightarrow> glob_matches segments []" by (simp add: d)
  have "(\<exists>k \<le> Suc n. P k) \<longleftrightarrow> P 0 \<or> (\<exists>k \<le> n. P (Suc k))" for n P
    by (metis Suc_le_mono le0 not0_implies_Suc)
  then show "glob_matches (None # segments) (p # ps) \<longleftrightarrow> glob_matches segments (p # ps) \<or> glob_matches (None # segments) ps"
    by (simp add: d)
qed

fun glob_alive :: "atom list option list \<Rightarrow> bool list \<Rightarrow> string list \<Rightarrow> bool" where
  "glob_alive segments (x # xs) parts =
     (x \<and> glob_matches segments parts \<or> (case parts of [] \<Rightarrow> False | p # ps \<Rightarrow> glob_alive segments xs ps))"
| "glob_alive segments [] parts = False"

fun glob_flags :: "atom list option \<Rightarrow> string list \<Rightarrow> bool list \<Rightarrow> bool \<Rightarrow> bool list" where
  "glob_flags None parts (x # xs) carry = (x \<or> carry) # glob_flags None parts xs (x \<or> carry)"
| "glob_flags (Some as) (p # parts) (x # xs) carry = carry # glob_flags (Some as) parts xs (x \<and> matches as p)"
| "glob_flags (Some as) [] (x # xs) carry = [carry]"
| "glob_flags _ _ [] carry = []"

definition row_cost :: "atom list option \<Rightarrow> string list \<Rightarrow> nat" where
  "row_cost segment parts =
     Suc (length parts) + (case segment of None \<Rightarrow> 0 | Some as \<Rightarrow> sum_list (map (\<lambda>p. length as * (2 * length p + 1)) parts))"

lemma charged_row:
  "length xs = Suc (length parts) \<Longrightarrow> charged (row_cost segment parts) (glob_row segment parts xs carry) (glob_flags segment parts xs carry)"
proof (cases segment)
  case None
  have "charged (length xs) (glob_row None parts xs carry) (glob_flags None parts xs carry)" for xs
  proof (induction xs arbitrary: carry)
    case (Cons x xs)
    have "charged (length xs + 0) (\<lambda>b. bind_result (glob_row None parts xs (x \<or> carry) b) (\<lambda>(r, b). Inr ((x \<or> carry) # r, b)))
        (glob_flags None parts (x # xs) carry)"
      by (rule charged_bind [OF Cons.IH]) (simp add: charged_return)
    from charged_tick [OF this] show ?case by (simp add: Let_def)
  qed (simp add: charged_def)
  moreover assume "length xs = Suc (length parts)"
  moreover have "row_cost None parts = Suc (length parts)" by (simp add: row_cost_def)
  ultimately show ?thesis using None by metis
next
  case (Some as)
  moreover assume "length xs = Suc (length parts)"
  then have "charged (row_cost (Some as) parts) (glob_row (Some as) parts xs carry) (glob_flags (Some as) parts xs carry)"
  proof (induction parts arbitrary: xs carry)
    case Nil
    then show ?case
      using charged_tick [OF charged_return, of 0 "[carry]"] by (auto simp: row_cost_def length_Suc_conv)
  next
    case (Cons p parts)
    then obtain x ys where xs: "xs = x # ys" "length ys = Suc (length parts)" by (auto simp: length_Suc_conv)
    let ?h = "x \<and> matches as p"
    have "charged (row_cost (Some as) parts + 0)
        (\<lambda>b. bind_result (glob_row (Some as) parts ys ?h b) (\<lambda>(r, b). Inr (carry # r, b))) (glob_flags (Some as) (p # parts) xs carry)"
      using charged_bind [OF Cons.IH [OF xs(2), of ?h], of 0 "\<lambda>(r, b). Inr (carry # r, b)"] xs(1) by (simp add: charged_return)
    moreover have "charged (length as * (2 * length p + 1)) (\<lambda>b. if x then sequence as p b True True else Inr (False, b)) ?h"
      using charged_sequence [of as p True True] charged_return by (cases x) auto
    ultimately have "charged (length as * (2 * length p + 1) + row_cost (Some as) parts)
        (\<lambda>b. bind_result (if x then sequence as p b True True else Inr (False, b)) (\<lambda>(hit, b).
           bind_result (glob_row (Some as) parts ys hit b) (\<lambda>(r, b). Inr (carry # r, b)))) (glob_flags (Some as) (p # parts) xs carry)"
      by (intro charged_bind) (simp_all add: xs(1))
    from charged_tick [OF this] show ?case
      by (simp add: xs(1) row_cost_def algebra_simps)
  qed
  ultimately show ?thesis by simp
qed

lemma length_glob_flags: "length xs = Suc (length parts) \<Longrightarrow> length (glob_flags segment parts xs carry) = Suc (length parts)"
proof (cases segment)
  case None
  have "length (glob_flags None parts xs carry) = length xs" for xs by (induction xs arbitrary: carry) auto
  then show "length xs = Suc (length parts) \<Longrightarrow> ?thesis" using None by simp
next
  case (Some as)
  then show "length xs = Suc (length parts) \<Longrightarrow> ?thesis"
    by (induction segment parts xs carry rule: glob_flags.induct) auto
qed

lemma glob_alive_flags:
  "length xs = Suc (length parts) \<Longrightarrow>
    glob_alive segments (glob_flags (Some as) parts xs carry) parts \<longleftrightarrow>
      carry \<and> glob_matches segments parts \<or> glob_alive (Some as # segments) xs parts"
  "length xs = Suc (length parts) \<Longrightarrow>
    glob_alive segments (glob_flags None qs xs carry) parts \<longleftrightarrow>
      carry \<and> glob_matches (None # segments) parts \<or> glob_alive (None # segments) xs parts"
proof (induction parts arbitrary: xs carry)
  case Nil
  {
    case 1
    then show ?case by (auto simp: length_Suc_conv)
  next
    case 2
    then show ?case by (auto simp: length_Suc_conv glob_matches_deep)
  }
next
  case (Cons p parts)
  {
    case 1
    then obtain x ys where xs: "xs = x # ys" "length ys = Suc (length parts)" by (auto simp: length_Suc_conv)
    with Cons.IH(1) [of ys "x \<and> matches as p"] show ?case by auto
  next
    case 2
    then obtain x ys where xs: "xs = x # ys" "length ys = Suc (length parts)" by (auto simp: length_Suc_conv)
    with Cons.IH(2) [of ys "x \<or> carry"] show ?case by (auto simp: glob_matches_deep)
  }
qed

lemma last_glob_alive: "length xs = Suc (length parts) \<Longrightarrow> glob_alive [] xs parts \<longleftrightarrow> last xs"
proof (induction parts arbitrary: xs)
  case (Cons p parts)
  then obtain x ys where "xs = x # ys" "length ys = Suc (length parts)" by (auto simp: length_Suc_conv)
  with Cons.IH [of ys] show ?case by auto
qed (auto simp: length_Suc_conv)

lemma glob_alive_initial: "glob_alive segments (True # replicate (length parts) False) parts \<longleftrightarrow> glob_matches segments parts"
proof -
  have "\<not> glob_alive segments (replicate n False) ps" for n ps
    by (induction n arbitrary: ps) (auto split: list.split)
  then show ?thesis by (cases parts) (auto simp del: replicate_Suc)
qed

lemma charged_glob_loop:
  "length xs = Suc (length parts) \<Longrightarrow>
    charged (sum_list (map (\<lambda>s. row_cost s parts) segments)) (glob_loop segments parts xs) (glob_alive segments xs parts)"
proof (induction segments arbitrary: xs)
  case Nil
  then show ?case by (simp add: last_glob_alive charged_return)
next
  case (Cons s segments)
  let ?f = "glob_flags s parts xs False"
  have "glob_alive (s # segments) xs parts = glob_alive segments ?f parts"
    using Cons.prems by (cases s) (simp_all add: glob_alive_flags)
  moreover have "charged (sum_list (map (\<lambda>s. row_cost s parts) segments)) (glob_loop segments parts ?f) (glob_alive segments ?f parts)"
    using Cons by (simp add: length_glob_flags)
  ultimately show ?case
    using charged_bind [OF charged_row [OF Cons.prems], of _ "\<lambda>(next, b). glob_loop segments parts next b"] by simp
qed

lemma charged_glob_test:
  "charged (sum_list (map (\<lambda>s. row_cost s (split_on CHR ''/'' w)) segments)) (glob_test segments w)
     (glob_matches segments (split_on CHR ''/'' w))"
  using charged_glob_loop [of "True # replicate (length (split_on CHR ''/'' w)) False" "split_on CHR ''/'' w" segments]
  by (simp add: glob_test_def [abs_def] Let_def glob_alive_initial del: glob_alive.simps)

subsection \<open>The size of compiled patterns\<close>

lemma glob_atoms_Cons:
  assumes "glob_atoms (c # rest) = Inr as"
  obtains a tail bs where "as = a # bs" "glob_atoms tail = Inr bs" "length tail \<le> length rest"
proof (cases "c = CHR ''[''")
  case True
  with assms obtain f tail where f: "characterClass rest True = Inr (f, tail)"
    by (cases "characterClass rest True") auto
  with True assms obtain bs where "glob_atoms tail = Inr bs" "as = once f # bs" by (auto simp: bind_result_Inr)
  with that characterClass_shorter [OF f] show ?thesis by blast
next
  case False
  show ?thesis
  proof (cases "c = CHR 0x5C")
    case True
    with assms obtain d tail bs where "rest = d # tail" "glob_atoms tail = Inr bs" "as = once (\<lambda>v. v = d) # bs"
      by (cases rest) (auto simp: bind_result_Inr)
    with that [of _ bs tail] show ?thesis by simp
  next
    case f: False
    have "\<exists>a bs. as = a # bs \<and> glob_atoms rest = Inr bs"
      using assms unfolding glob_atoms.simps(2) if_not_P [OF False] if_not_P [OF f] 
      by (simp only: bind_result_Inr sum.simps split: if_split_asm) blast+
    with that show ?thesis by blast
  qed
qed

lemma length_glob_atoms: "glob_atoms s = Inr as \<Longrightarrow> length as \<le> length s"
proof (induction "length s" arbitrary: s as rule: less_induct)
  case less
  show ?case
  proof (cases s)
    case Nil
    with less.prems show ?thesis by simp
  next
    case (Cons c rest)
    with less.prems obtain a tail bs where e: "as = a # bs" "glob_atoms tail = Inr bs" "length tail \<le> length rest"
      by (auto elim: glob_atoms_Cons simp del: glob_atoms.simps)
    with less.hyps [of tail bs] Cons show ?thesis by simp
  qed
qed

lemma length_regex_atoms: "regex_atoms s = Inr (as, ea) \<Longrightarrow> length as \<le> length s"
proof (induction s arbitrary: as ea rule: regex_atoms.induct)
  case 1
  then show ?case by simp
next
  case (2 c rest)
  show ?case
  proof (cases "c = CHR ''$'' \<and> rest = []")
    case True
    with 2(2) show ?thesis by simp
  next
    case False
    with 2(2) obtain f tail bs where e: "regex_item c rest = Inr (f, tail)" "regex_atoms (snd (quantified f tail)) = Inr (bs, ea)"
      "as = fst (quantified f tail) # bs"
      by (auto simp: bind_result_Inr simp del: de_Morgan_conj split: sum.splits prod.splits)
    then have "length bs \<le> length (snd (quantified f tail))" using 2(1) False by blast
    with e regex_item_shorter [OF e(1)] quantified_shorter [of f tail] show ?thesis by simp
  qed
qed

definition segment_size :: "atom list option \<Rightarrow> nat" where
  "segment_size s = (case s of None \<Rightarrow> 1 | Some as \<Rightarrow> Suc (length as))"

lemma sum_split_on: "sum_list (map (\<lambda>p. Suc (length p)) (split_on d s)) = Suc (length s)"
  by (induction s) (auto split: list.split)

lemma sum_split_on_double: "sum_list (map (\<lambda>p. 2 * length p + 1) (split_on d s)) \<le> 2 * length s + 1"
proof -
  have "sum_list (map (\<lambda>p. 2 * length p + 1) ps) + length ps = 2 * sum_list (map (\<lambda>p. Suc (length p)) ps)" for ps :: "string list"
    by (induction ps) simp_all
  note sum = this [of "split_on d s", unfolded sum_split_on]
  define n where "n = sum_list (map (\<lambda>p. 2 * length p + 1) (split_on d s))"
  obtain k where "length (split_on d s) = Suc k" by (cases "split_on d s") auto
  with sum have "n \<le> 2 * length s + 1" unfolding n_def [symmetric] by simp
  then show ?thesis by (simp only: n_def)
qed

lemma length_split_on: "length (split_on d s) \<le> Suc (length s)"
  by (induction s) (auto split: list.split)

lemma row_cost_bound: "row_cost s (split_on d w) \<le> segment_size s * (2 * (length w + 1))"
proof (cases s)
  case None
  then show ?thesis using length_split_on [of d w] by (simp add: row_cost_def segment_size_def)
next
  case (Some as)
  have "sum_list (map (\<lambda>p. length as * (2 * length p + 1)) (split_on d w)) =
      length as * sum_list (map (\<lambda>p. 2 * length p + 1) (split_on d w))" by (simp only: sum_list_const_mult)
  also have "\<dots> \<le> length as * (2 * length w + 1)" by (intro mult_le_mono2 sum_split_on_double)
  finally show ?thesis
    using Some length_split_on [of d w] by (simp add: row_cost_def segment_size_def algebra_simps)
qed

lemma glob_size:
  assumes "glob pattern = Inr segments"
  shows "sum_list (map segment_size segments) \<le> Suc (length pattern)" "length pattern \<le> 256"
proof -
  from assms have m: "map_result glob_segment (split_on CHR ''/'' pattern) = Inr segments" and b: "boundedPattern pattern = None"
    by (auto simp: glob_def split: option.splits)
  have "list_all2 (\<lambda>x y. glob_segment x = Inr y) ss ts \<Longrightarrow>
      sum_list (map segment_size ts) \<le> sum_list (map (\<lambda>p. Suc (length p)) ss)" for ss ts
  proof (induction rule: list_all2_induct)
    case (Cons x xs y ys)
    then have "segment_size y \<le> Suc (length x)"
      by (auto simp: glob_segment_def segment_size_def bind_result_Inr dest: length_glob_atoms split: if_splits)
    with Cons show ?case by simp
  qed simp
  with m show "sum_list (map segment_size segments) \<le> Suc (length pattern)"
    by (metis map_result_Inr sum_split_on)
  from b show "length pattern \<le> 256" by (simp add: boundedPattern_def)
qed

lemma glob_cost:
  assumes "glob pattern = Inr segments"
  shows "sum_list (map (\<lambda>s. row_cost s (split_on CHR ''/'' w)) segments) \<le> Suc (length pattern) * (2 * (length w + 1))"
proof -
  have "sum_list (map (\<lambda>s. row_cost s (split_on CHR ''/'' w)) ss) \<le> sum_list (map segment_size ss) * (2 * (length w + 1))" for ss
  proof (induction ss)
    case (Cons s ss)
    then show ?case
      using add_mono [OF row_cost_bound [of s "CHR ''/''" w] Cons] by (simp only: list.map sum_list.Cons add_mult_distrib)
  qed simp
  from this [of segments] show ?thesis using mult_le_mono1 [OF glob_size(1) [OF assms]] by (rule le_trans)
qed

lemma regex_size:
  assumes "regex pattern = Inr (as, sa, ea)"
  shows "length as \<le> length pattern" "length pattern \<le> 256"
proof -
  let ?p = "if take 1 pattern = ''^'' then drop 1 pattern else pattern"
  from assms have "regex_atoms ?p = Inr (as, ea)" and b: "boundedPattern pattern = None"
    by (auto simp: regex_def Let_def bind_result_Inr split: option.splits)
  from length_regex_atoms [OF this(1)] show "length as \<le> length pattern" by (simp split: if_splits)
  from b show "length pattern \<le> 256" by (simp add: boundedPattern_def)
qed

lemma charged_result:
  assumes "charged n f x" "n \<le> m" "0 \<le> b"
  shows "(int m \<le> b \<longrightarrow> (\<exists>c. f b = Inr (x, c) \<and> b - int m \<le> c)) \<and>
    (\<forall>y c. f b = Inr (y, c) \<longrightarrow> y = x \<and> 0 \<le> c \<and> c \<le> b) \<and>
    (\<forall>e. f b = Inl e \<longrightarrow> e = Pattern_limit)"
proof -
  have "charged m f x" by (rule charged_mono [OF assms(1,2)])
  with assms(3) have "f b = Inl Pattern_limit \<and> b < int m \<or> (\<exists>c. f b = Inr (x, c) \<and> b - int m \<le> c \<and> 0 \<le> c \<and> c \<le> b)"
    by (simp add: charged_def)
  then show ?thesis by auto
qed

subsection \<open>Plain patterns\<close>

definition plain_char :: "char \<Rightarrow> bool" where
  "plain_char c = (c \<notin> set (CHR 0x5C # ''@!*?[]{}.^$+()|'') \<and> c \<notin> {CHR 0x00, CHR 0x0A, CHR 0x0D})"

definition literals :: "string \<Rightarrow> atom list" where
  "literals s = map (\<lambda>c. once (\<lambda>v. v = c)) s"

lemma plain_glob_atoms: "list_all plain_char s \<Longrightarrow> glob_atoms s = Inr (literals s)"
proof (induction s)
  case (Cons c s)
  then have "c \<notin> set ''@+?!*''" "c \<noteq> CHR ''*''" "c \<noteq> CHR ''?''" "c \<noteq> CHR ''[''" "c \<noteq> CHR 0x5C" "c \<notin> set ''{}]''"
    by (auto simp: plain_char_def)
  with Cons show ?case by (simp only: glob_atoms.simps if_False simp_thms) (simp add: literals_def)
qed (simp add: literals_def)

lemma plain_regex_atoms: "list_all plain_char s \<Longrightarrow> regex_atoms s = Inr (literals s, False)"
proof (induction s)
  case (Cons c s)
  then have c: "c \<noteq> CHR ''$''" "c \<noteq> CHR ''.''" "c \<noteq> CHR ''[''" "c \<noteq> CHR 0x5C" "c \<notin> set ''^$*+?(){}|]''"
    by (auto simp: plain_char_def)
  then have "regex_item c s = Inr (\<lambda>v. v = c, s)" by (simp only: regex_item_def if_False simp_thms)
  moreover have "quantified f s = (once f, s)" for f
    using Cons.prems by (cases s) (auto simp: quantified_def plain_char_def)
  ultimately show ?case using Cons c(1) by (simp add: literals_def)
qed (simp add: literals_def)

lemma matches_literals: "matches (literals s) w \<longleftrightarrow> w = s"
proof (induction s arbitrary: w)
  case (Cons c s)
  show ?case
  proof (cases w)
    case Nil
    with Cons show ?thesis by (simp add: literals_def matches_Nil once_def)
  next
    case (Cons d v)
    with Cons.IH show ?thesis by (auto simp: literals_def matches_step once_def)
  qed
qed (simp add: literals_def)

lemma glob_matches_literals: "glob_matches (map (\<lambda>s. Some (literals s)) segs) parts \<longleftrightarrow> parts = segs"
  by (induction segs arbitrary: parts) (auto simp: matches_literals split: list.split)

lemma split_on_inject: "split_on d s = split_on d t \<longleftrightarrow> s = t"
  by (metis join_split)

lemma plain_segment: "list_all plain_char s \<Longrightarrow> glob_segment s = Inr (Some (literals s))"
  by (cases "s = ''**''") (auto simp: glob_segment_def plain_glob_atoms plain_char_def simp del: glob_atoms.simps)

lemma plain_glob:
  assumes "list_all plain_char pattern" "pattern \<noteq> []" "length pattern \<le> 256"
  shows "glob pattern = Inr (map (\<lambda>s. Some (literals s)) (split_on CHR ''/'' pattern))"
proof -
  have "set s \<subseteq> set pattern" if "s \<in> set (split_on CHR ''/'' pattern)" for s
    using that by (induction pattern arbitrary: s) (fastforce split: if_splits list.splits)+
  then have "list_all plain_char s" if "s \<in> set (split_on CHR ''/'' pattern)" for s
    using that assms(1) unfolding list_all_iff by blast
  then have "glob_segment s = Inr (Some (literals s))" if "s \<in> set (split_on CHR ''/'' pattern)" for s
    using that by (intro plain_segment)
  then have "map_result glob_segment (split_on CHR ''/'' pattern) = Inr (map (\<lambda>s. Some (literals s)) (split_on CHR ''/'' pattern))"
    by (simp add: map_result_Inr list_all2_conv_all_nth)
  moreover have "boundedPattern pattern = None" using assms by (auto simp: boundedPattern_def list_all_iff plain_char_def)
  ultimately show ?thesis by (simp add: glob_def)
qed

lemma plain_regex:
  assumes "list_all plain_char pattern" "pattern \<noteq> []" "length pattern \<le> 256"
  shows "regex pattern = Inr (literals pattern, False, False)"
proof -
  have "boundedPattern pattern = None" using assms by (auto simp: boundedPattern_def list_all_iff plain_char_def)
  moreover have "take 1 pattern \<noteq> ''^''" using assms by (cases pattern) (auto simp: plain_char_def)
  ultimately show ?thesis using plain_regex_atoms [OF assms(1)] by (simp add: regex_def)
qed

subsection \<open>Properties\<close>

text \<open>
  C37. A compiled regular expression against a text, for every budget that is not negative: with a budget of
  \<open>length pattern * (2 * length text + 1)\<close> steps the test returns and leaves the rest of the
  budget; whenever it returns, its answer is exactly whether some part of the text, at the
  anchors if the pattern has them, belongs to the language of the pattern; it fails only by
  exhausting the budget.
\<close>

theorem regex_exact:
  assumes "regex pattern = Inr (as, startAnchor, endAnchor)" "0 \<le> b"
  shows "(int (length pattern * (2 * length w + 1)) \<le> b \<longrightarrow>
      (\<exists>c. regex_test (as, startAnchor, endAnchor) w b = Inr (matched as startAnchor endAnchor w, c) \<and>
           b - int (length pattern * (2 * length w + 1)) \<le> c)) \<and>
    (\<forall>y c. regex_test (as, startAnchor, endAnchor) w b = Inr (y, c) \<longrightarrow>
       (y \<longleftrightarrow> (\<exists>p u v. w = p @ u @ v \<and> (startAnchor \<longrightarrow> p = []) \<and> (endAnchor \<longrightarrow> v = []) \<and> matches as u)) \<and> 0 \<le> c \<and> c \<le> b) \<and>
    (\<forall>e. regex_test (as, startAnchor, endAnchor) w b = Inl e \<longrightarrow> e = Pattern_limit)"
proof -
  have "length as * (2 * length w + 1) \<le> length pattern * (2 * length w + 1)"
    using regex_size [OF assms(1)] by (intro mult_le_mono1)
  from charged_result [OF charged_sequence [of as w startAnchor endAnchor] this assms(2)] show ?thesis
    unfolding regex_test_def prod.case matched_def [symmetric] by blast
qed

lemma regex_exact_witness:
  "\<exists>c. regex_test (literals ''ab'', False, False) ''xaby'' 100 = Inr (matched (literals ''ab'') False False ''xaby'', c)"
proof -
  have "regex ''ab'' = Inr (literals ''ab'', False, False)" by (rule plain_regex) code_simp+
  from regex_exact [OF this, of 100 "''xaby''"] show ?thesis by auto
qed

text \<open>
  C38. A compiled glob against a path, for every budget that is not negative: with a budget of
  \<open>(length pattern + 1) * 2 * (length path + 1)\<close> steps, hence at most 514 per character and one
  more, the test returns; whenever it returns, its answer is exactly whether the segments of the path can be
  divided among the segments of the glob, a double star taking any number of them and every
  other segment one that belongs to its language; it fails only by exhausting the budget.
\<close>

theorem glob_exact:
  assumes "glob pattern = Inr segments" "0 \<le> b"
  shows "(int (Suc (length pattern) * (2 * (length path + 1))) \<le> b \<longrightarrow>
      (\<exists>c. glob_test segments path b = Inr (glob_matches segments (split_on CHR ''/'' path), c) \<and>
           b - int (Suc (length pattern) * (2 * (length path + 1))) \<le> c)) \<and>
    (\<forall>y c. glob_test segments path b = Inr (y, c) \<longrightarrow>
       y = glob_matches segments (split_on CHR ''/'' path) \<and> 0 \<le> c \<and> c \<le> b) \<and>
    (\<forall>e. glob_test segments path b = Inl e \<longrightarrow> e = Pattern_limit) \<and>
    Suc (length pattern) * (2 * (length path + 1)) \<le> 514 * (length path + 1)"
proof -
  have "Suc (length pattern) * (2 * (length path + 1)) \<le> 257 * (2 * (length path + 1))"
    using glob_size(2) [OF assms(1)] by (intro mult_le_mono1) simp
  then show ?thesis
    using charged_result [OF charged_glob_test glob_cost [OF assms(1)] assms(2)] by (intro conjI) (blast | simp)+
qed

lemma glob_exact_witness:
  "\<exists>c. glob_test [None, Some (literals ''a'')] ''x/y/a'' 1000 = Inr (glob_matches [None, Some (literals ''a'')] (split_on CHR ''/'' ''x/y/a''), c)"
proof -
  have "glob ''**/a'' = Inr [None, Some (literals ''a'')]"
    using plain_glob_atoms [of "''a''"] by (simp add: glob_def boundedPattern_def glob_segment_def plain_char_def)
  from glob_exact [OF this, of 1000 "''x/y/a''"] show ?thesis by auto
qed

text \<open>
  A pattern of at most 256 ordinary characters compiles both ways; as a glob it accepts exactly the path
  equal to it, as a regular expression exactly the texts that contain it.
\<close>

theorem plain_pattern_exact:
  assumes "list_all plain_char pattern" "pattern \<noteq> []" "length pattern \<le> 256" "514 * (int (length w) + 1) \<le> b"
  shows "\<exists>segments compiled c d. glob pattern = Inr segments \<and> regex pattern = Inr compiled \<and>
    glob_test segments w b = Inr (w = pattern, c) \<and> regex_test compiled w b = Inr (sublist pattern w, d)"
proof -
  let ?s = "map (\<lambda>s. Some (literals s)) (split_on CHR ''/'' pattern)"
  note g = plain_glob [OF assms(1-3)] and r = plain_regex [OF assms(1-3)]
  have "0 \<le> 514 * (int (length w) + 1)" by simp
  then have b: "0 \<le> b" using assms(4) by (rule order_trans)
  have enough: "int n \<le> b" if "n \<le> 514 * (length w + 1)" for n
  proof -
    from that have "int n \<le> int (514 * (length w + 1))" by (simp only: of_nat_le_iff)
    then show ?thesis using assms(4) by simp
  qed
  have "Suc (length pattern) * (2 * (length w + 1)) \<le> 514 * (length w + 1)"
    using mult_le_mono1 [of "Suc (length pattern)" 257 "2 * (length w + 1)"] assms(3) by simp
  from enough [OF this] obtain c where c: "glob_test ?s w b = Inr (glob_matches ?s (split_on CHR ''/'' w), c)"
    using charged_result [OF charged_glob_test glob_cost [OF g] b] by blast
  have "length (literals pattern) * (2 * length w + 1) \<le> 514 * (length w + 1)"
    using mult_le_mono [of "length (literals pattern)" 257 "2 * length w + 1" "2 * (length w + 1)"] assms(3) by (simp add: literals_def)
  from enough [OF this] obtain d where d: "sequence (literals pattern) w b False False = Inr (matched (literals pattern) False False w, d)"
    using charged_result [OF charged_sequence order_refl b] by blast
  have "matched (literals pattern) False False w \<longleftrightarrow> sublist pattern w"
    by (auto simp: matched_def matches_literals sublist_def)
  with g r c d show ?thesis
    by (simp add: regex_test_def glob_matches_literals split_on_inject)
qed

lemma plain_pattern_exact_witness:
  "\<exists>segments c. glob ''a/b'' = Inr segments \<and> glob_test segments ''a/b'' 3000 = Inr (True, c)"
  using plain_pattern_exact [of "''a/b''" "''a/b''" 3000] by (auto simp: plain_char_def)

end
