(* ===== verification/File_Edits.thy ===== *)
theory File_Edits
  imports Js_Text "HOL-Library.Multiset"
begin

text \<open>
  Text edits of the built-in agent's file tools (\<open>src/src/nativeAgent/fileToolsSupport.ts\<close> and the resolution
  of edits in \<open>textTools.ts\<close>): an edit names a text that must occur exactly once; the resolved
  edits are sorted, checked for overlap and applied to the original text from the end; the receipt carries a
  unified diff that is derived from the edits rather than from comparing the two files.

  The reference is the usual meaning of a unified diff: \<open>apply_hunks\<close> checks every position, context
  and removed line while it rebuilds the new file. The indices of the loops of the code are natural
  numbers; \<open>starts[k]\<close>, the sum of the lengths of the first \<open>k\<close> lines, is \<open>line_start\<close>.
\<close>

subsection \<open>Edits\<close>

record replacement =
  rp_start :: nat
  rp_end :: nat
  rp_text :: string

datatype edit_fault = Old_text_not_unique | Edits_overlap

fun lines :: "string \<Rightarrow> string list" where
  "lines [] = []"
| "lines (c # cs) =
     (if c = CHR 0x0A then [c] # lines cs
      else case lines cs of [] \<Rightarrow> [[c]] | l # ls \<Rightarrow> (c # l) # ls)"

definition replace_one :: "replacement \<Rightarrow> string \<Rightarrow> string" where
  "replace_one e r = take (rp_start e) r @ rp_text e @ drop (rp_end e) r"

definition replace :: "string \<Rightarrow> replacement list \<Rightarrow> string" where
  "replace t edits = foldl (\<lambda>r e. replace_one e r) t (rev edits)"

text \<open>\<open>String.indexOf\<close> with a start position, for a nonempty needle.\<close>

fun indexOf_at :: "nat \<Rightarrow> string \<Rightarrow> string \<Rightarrow> nat option" where
  "indexOf_at i p [] = (if p = [] then Some i else None)"
| "indexOf_at i p (c # cs) = (if startsWith (c # cs) p then Some i else indexOf_at (Suc i) p cs)"

definition indexOf :: "string \<Rightarrow> string \<Rightarrow> nat \<Rightarrow> nat option" where
  "indexOf t p from = indexOf_at from p (drop from t)"

definition resolve_edit :: "string \<Rightarrow> string \<times> string \<Rightarrow> edit_fault + replacement" where
  "resolve_edit t edit =
     (case indexOf t (fst edit) 0 of
        None \<Rightarrow> Inl Old_text_not_unique
      | Some start \<Rightarrow>
          if indexOf t (fst edit) (start + 1) \<noteq> None then Inl Old_text_not_unique
          else Inr \<lparr>rp_start = start, rp_end = start + length (fst edit), rp_text = snd edit\<rparr>)"

fun overlapping :: "replacement list \<Rightarrow> bool" where
  "overlapping (e # f # es) = (rp_start f < rp_end e \<or> overlapping (f # es))"
| "overlapping _ = False"

definition resolve_edits :: "string \<Rightarrow> (string \<times> string) list \<Rightarrow> edit_fault + replacement list" where
  "resolve_edits t edits =
     bind_result (map_result (resolve_edit t) edits) (\<lambda>rs.
       let sorted = sort_key rp_start rs in
       if overlapping sorted then Inl Edits_overlap else Inr sorted)"

subsection \<open>The diff\<close>

definition octal3 :: "nat \<Rightarrow> string" where
  "octal3 n = [digit_char (n div 64), digit_char (n div 8 mod 8), digit_char (n mod 8)]"

definition quote_char :: "char \<Rightarrow> string" where
  "quote_char c =
     (if c = CHR 0x22 \<or> c = CHR 0x5C then [CHR 0x5C, c]
      else if unit_of c < 32 \<or> unit_of c = 127 then CHR 0x5C # octal3 (unit_of c)
      else [c])"

definition quoteDiffPath :: "string \<Rightarrow> string" where
  "quoteDiffPath value = [CHR 0x22] @ concat (map quote_char value) @ [CHR 0x22]"

definition line_start :: "string list \<Rightarrow> nat \<Rightarrow> nat" where
  "line_start ls k = length (concat (take k ls))"

fun first_line :: "string list \<Rightarrow> nat \<Rightarrow> nat \<Rightarrow> nat" where
  "first_line [] offset start = 0"
| "first_line (l # ls) offset start =
     (if offset + length l \<le> start then Suc (first_line ls (offset + length l) start) else 0)"

fun touched_lines :: "string list \<Rightarrow> nat \<Rightarrow> nat \<Rightarrow> nat" where
  "touched_lines [] offset stop = 0"
| "touched_lines (l # ls) offset stop = (if offset < stop then Suc (touched_lines ls (offset + length l) stop) else 0)"

definition edit_group :: "string list \<Rightarrow> replacement \<Rightarrow> nat \<times> nat" where
  "edit_group ls e =
     (let first = first_line ls 0 (rp_start e);
          last = first + touched_lines (drop first ls) (line_start ls first) (rp_end e)
      in (first - 3, min (length ls) (max (first + 1) last + 3)))"

definition add_group :: "(nat \<times> nat) list \<Rightarrow> nat \<times> nat \<Rightarrow> (nat \<times> nat) list" where
  "add_group groups g =
     (if groups \<noteq> [] \<and> fst g \<le> snd (last groups)
      then butlast groups @ [(fst (last groups), max (snd (last groups)) (snd g))]
      else groups @ [g])"

definition edit_groups :: "string list \<Rightarrow> replacement list \<Rightarrow> (nat \<times> nat) list" where
  "edit_groups ls edits = foldl (\<lambda>gs e. add_group gs (edit_group ls e)) [] edits"

datatype diff_line = Context string | Removed string | Added string

record hunk =
  hk_oldStart :: nat
  hk_oldCount :: nat
  hk_newStart :: int
  hk_newCount :: nat
  hk_body :: "diff_line list"

fun common_prefix :: "string list \<Rightarrow> string list \<Rightarrow> nat" where
  "common_prefix (x # xs) (y # ys) = (if x = y then Suc (common_prefix xs ys) else 0)"
| "common_prefix _ _ = 0"

definition common_suffix :: "nat \<Rightarrow> string list \<Rightarrow> string list \<Rightarrow> nat" where
  "common_suffix pre old updated = common_prefix (rev (drop pre old)) (rev (drop pre updated))"

definition hunk_body :: "string list \<Rightarrow> string list \<Rightarrow> diff_line list" where
  "hunk_body old updated =
     (let pre = common_prefix old updated; suf = common_suffix pre old updated in
      map Context (take pre old) @
      map Removed (drop pre (take (length old - suf) old)) @
      map Added (drop pre (take (length updated - suf) updated)) @
      map Context (drop (length old - suf) old))"

definition local_edits :: "nat \<Rightarrow> nat \<Rightarrow> replacement list \<Rightarrow> replacement list" where
  "local_edits s e edits =
     map (\<lambda>x. x\<lparr>rp_start := rp_start x - s, rp_end := rp_end x - s\<rparr>) (filter (\<lambda>x. s \<le> rp_start x \<and> rp_end x \<le> e) edits)"

definition updated_lines :: "string \<Rightarrow> string list \<Rightarrow> replacement list \<Rightarrow> nat \<times> nat \<Rightarrow> string list" where
  "updated_lines before ls edits g =
     (let s = line_start ls (fst g); e = line_start ls (snd g) in
      lines (replace (drop s (take e before)) (local_edits s e edits)))"

fun diff_hunks :: "string \<Rightarrow> string list \<Rightarrow> replacement list \<Rightarrow> int \<Rightarrow> (nat \<times> nat) list \<Rightarrow> hunk list" where
  "diff_hunks before ls edits lineDelta [] = []"
| "diff_hunks before ls edits lineDelta (g # gs) =
     (let old = drop (fst g) (take (snd g) ls);
          updated = updated_lines before ls edits g
      in \<lparr>hk_oldStart = (if old \<noteq> [] then fst g + 1 else fst g), hk_oldCount = length old,
          hk_newStart = (if updated \<noteq> [] then int (fst g) + lineDelta + 1 else int (fst g) + lineDelta),
          hk_newCount = length updated, hk_body = hunk_body old updated\<rparr> #
         diff_hunks before ls edits (lineDelta + int (length updated) - int (length old)) gs)"

definition print_line :: "char \<Rightarrow> string \<Rightarrow> string" where
  "print_line p l = p # l @ (if l \<noteq> [] \<and> last l = CHR 0x0A then [] else [CHR 0x0A, CHR 0x5C] @ '' No newline at end of file'' @ [CHR 0x0A])"

fun show_diff_line :: "diff_line \<Rightarrow> string" where
  "show_diff_line (Context l) = print_line CHR '' '' l"
| "show_diff_line (Removed l) = print_line CHR ''-'' l"
| "show_diff_line (Added l) = print_line CHR ''+'' l"

definition show_hunk :: "hunk \<Rightarrow> string" where
  "show_hunk h = ''@@ -'' @ show_nat (hk_oldStart h) @ '','' @ show_nat (hk_oldCount h) @ '' +'' @ show_int (hk_newStart h) @ '',''
     @ show_nat (hk_newCount h) @ '' @@'' @ [CHR 0x0A] @ concat (map show_diff_line (hk_body h))"

definition diff_header :: "string \<Rightarrow> bool \<Rightarrow> string" where
  "diff_header relative creating =
     ''--- '' @ (if creating then ''/dev/null'' else quoteDiffPath (''a/'' @ relative)) @ [CHR 0x0A] @
     ''+++ '' @ quoteDiffPath (''b/'' @ relative) @ [CHR 0x0A]"

definition diff :: "string \<Rightarrow> string \<Rightarrow> replacement list \<Rightarrow> string \<Rightarrow> bool \<Rightarrow> string" where
  "diff relative before edits next creating =
     (if before = next \<and> \<not> creating then []
      else if creating \<and> next = [] then
        ''diff --git '' @ quoteDiffPath (''a/'' @ relative) @ '' '' @ quoteDiffPath (''b/'' @ relative) @ [CHR 0x0A] @
        ''new file mode 100600'' @ [CHR 0x0A]
      else
        diff_header relative creating @
        concat (map show_hunk (diff_hunks before (lines before) edits 0 (edit_groups (lines before) edits))))"

subsection \<open>The reference: applying a unified diff\<close>

fun apply_body :: "diff_line list \<Rightarrow> string list \<Rightarrow> (string list \<times> string list) option" where
  "apply_body [] ls = Some ([], ls)"
| "apply_body (Context l # ds) ls =
     (case ls of [] \<Rightarrow> None | x # xs \<Rightarrow> if x = l then map_option (\<lambda>(r, t). (l # r, t)) (apply_body ds xs) else None)"
| "apply_body (Removed l # ds) ls =
     (case ls of [] \<Rightarrow> None | x # xs \<Rightarrow> if x = l then apply_body ds xs else None)"
| "apply_body (Added l # ds) ls = map_option (\<lambda>(r, t). (l # r, t)) (apply_body ds ls)"

definition position :: "int \<Rightarrow> nat \<Rightarrow> int" where
  "position start number = (if number = 0 then start else start - 1)"

text \<open>\<open>i\<close> and \<open>j\<close> are the numbers of lines of the old and of the new file dealt with so far, \<open>ls\<close> the rest of the old file.\<close>

fun apply_hunks :: "nat \<Rightarrow> nat \<Rightarrow> hunk list \<Rightarrow> string list \<Rightarrow> string list option" where
  "apply_hunks i j [] ls = Some ls"
| "apply_hunks i j (h # hs) ls =
     (let p = nat (position (int (hk_oldStart h)) (hk_oldCount h)); k = p - i in
      if p < i \<or> length ls < k \<or> position (hk_newStart h) (hk_newCount h) \<noteq> int (j + k) then None
      else case apply_body (hk_body h) (drop k ls) of
          None \<Rightarrow> None
        | Some (out, rest) \<Rightarrow>
            if length out \<noteq> hk_newCount h \<or> length rest + hk_oldCount h \<noteq> length ls - k then None
            else map_option (\<lambda>r. take k ls @ out @ r) (apply_hunks (p + hk_oldCount h) (j + k + length out) hs rest))"

subsection \<open>Lines\<close>

definition complete_line :: "string \<Rightarrow> bool" where
  "complete_line l \<longleftrightarrow> (\<exists>m. l = m @ [CHR 0x0A] \<and> CHR 0x0A \<notin> set m)"

lemma concat_lines [simp]: "concat (lines t) = t"
  by (induction t) (auto split: list.split)

lemma lines_nonempty: "l \<in> set (lines t) \<Longrightarrow> l \<noteq> []"
  by (induction t arbitrary: l) (auto split: if_splits list.splits)

lemma lines_Nil [simp]: "lines t = [] \<longleftrightarrow> t = []"
  by (cases t) (auto split: list.split)

lemma lines_complete: "complete_line l \<Longrightarrow> lines (l @ t) = l # lines t"
proof -
  have "CHR 0x0A \<notin> set m \<Longrightarrow> lines ((m @ [CHR 0x0A]) @ t) = (m @ [CHR 0x0A]) # lines t" for m
    by (induction m) auto
  then show "complete_line l \<Longrightarrow> ?thesis" by (auto simp: complete_line_def)
qed

lemma lines_concat_complete: "\<forall>l \<in> set ls. complete_line l \<Longrightarrow> lines (concat ls @ t) = ls @ lines t"
  by (induction ls) (auto simp: lines_complete)

lemma lines_hd_complete: "lines t = l # m # ls \<Longrightarrow> complete_line l"
proof (induction t arbitrary: l m ls)
  case (Cons c t)
  show ?case
  proof (cases "c = CHR 0x0A")
    case True
    with Cons.prems show ?thesis by (auto simp: complete_line_def)
  next
    case False
    with Cons.prems obtain k where k: "lines t = k # m # ls" "l = c # k" by (auto split: list.splits)
    from Cons.IH [OF k(1)] obtain x where "k = x @ [CHR 0x0A]" "CHR 0x0A \<notin> set x" by (auto simp: complete_line_def)
    with k False show ?thesis unfolding complete_line_def by (intro exI [of _ "c # x"]) auto
  qed
qed simp

lemma lines_prefix_complete: "lines t = xs @ ys \<Longrightarrow> ys \<noteq> [] \<Longrightarrow> \<forall>l \<in> set xs. complete_line l"
proof (induction xs arbitrary: t)
  case (Cons x xs)
  obtain m ms where "xs @ ys = m # ms" using Cons.prems(2) by (cases "xs @ ys") auto
  with Cons.prems have x: "complete_line x" using lines_hd_complete by auto
  have "t = x @ concat (xs @ ys)" using arg_cong [OF Cons.prems(1), of concat] by simp
  with Cons.prems(1) have "lines (concat (xs @ ys)) = xs @ ys" by (simp add: lines_complete [OF x])
  with Cons.IH Cons.prems(2) x show ?case by auto
qed simp

lemma lines_suffix: "lines t = xs @ ys \<Longrightarrow> lines (concat ys) = ys"
proof (cases "ys = []")
  case False
  assume e: "lines t = xs @ ys"
  have "t = concat xs @ concat ys" using arg_cong [OF e, of concat] by simp
  then have "xs @ ys = xs @ lines (concat ys)"
    using lines_concat_complete [OF lines_prefix_complete [OF e False]] e by simp
  then show ?thesis by simp
qed simp

lemma lines_last_newline: "u = v @ l \<Longrightarrow> complete_line l \<Longrightarrow> lines (u @ r) = lines u @ lines r"
proof -
  have "lines (x @ [CHR 0x0A] @ r) = lines (x @ [CHR 0x0A]) @ lines r" for x
  proof (induction x)
    case (Cons c x)
    have "lines (x @ [CHR 0x0A]) \<noteq> []" by simp
    with Cons show ?case by (auto split: list.split)
  qed simp
  from this [of "v @ m" for m] show "u = v @ l \<Longrightarrow> complete_line l \<Longrightarrow> ?thesis" by (auto simp: complete_line_def)
qed

subsection \<open>Positions of lines\<close>

lemma line_start_0 [simp]: "line_start ls 0 = 0"
  by (simp add: line_start_def)

lemma line_start_all: "length ls \<le> k \<Longrightarrow> line_start ls k = length (concat ls)"
  by (simp add: line_start_def)

lemma line_start_mono: "j \<le> k \<Longrightarrow> line_start ls j \<le> line_start ls k"
proof -
  assume "j \<le> k"
  then have "take k ls = take j ls @ take (k - j) (drop j ls)" by (metis le_add_diff_inverse take_add)
  then show ?thesis by (simp add: line_start_def)
qed

lemma line_start_less:
  assumes "\<forall>l \<in> set ls. l \<noteq> []" "j < k" "k \<le> length ls"
  shows "line_start ls j < line_start ls k"
proof -
  have "line_start ls (Suc j) = line_start ls j + length (ls ! j)"
    using assms by (simp add: line_start_def take_Suc_conv_app_nth)
  moreover have "ls ! j \<noteq> []" using assms by auto
  moreover have "line_start ls (Suc j) \<le> line_start ls k" using assms by (intro line_start_mono) simp
  ultimately show ?thesis by (metis add.right_neutral add_less_cancel_left length_greater_0_conv less_le_trans)
qed

lemma text_slice:
  assumes "i \<le> k"
  shows "drop (line_start (lines t) i) (take (line_start (lines t) k) t) = concat (drop i (take k (lines t)))"
proof -
  let ?ls = "lines t"
  have t: "t = concat (take k ?ls) @ concat (drop k ?ls)" by (metis append_take_drop_id concat_append concat_lines)
  then have "take (line_start ?ls k) t = concat (take k ?ls)" by (metis append_eq_conv_conj line_start_def)
  also have "\<dots> = concat (take i ?ls) @ concat (drop i (take k ?ls))"
    using assms by (metis append_take_drop_id concat_append min.absorb1 take_take)
  finally show ?thesis by (simp add: line_start_def)
qed

lemma text_rest: "drop (line_start (lines t) i) t = concat (drop i (lines t))"
  using text_slice [of i "length (lines t) + i" t] by (simp add: line_start_all)

subsection \<open>Replacing from the end is splicing\<close>

definition edits_ok :: "nat \<Rightarrow> nat \<Rightarrow> replacement list \<Rightarrow> bool" where
  "edits_ok lo hi es \<longleftrightarrow> lo \<le> hi \<and> sorted_wrt (\<lambda>x y. rp_end x \<le> rp_start y) es \<and>
     (\<forall>x \<in> set es. lo \<le> rp_start x \<and> rp_start x \<le> rp_end x \<and> rp_end x \<le> hi)"

fun spliced :: "string \<Rightarrow> nat \<Rightarrow> nat \<Rightarrow> replacement list \<Rightarrow> string" where
  "spliced t lo hi [] = drop lo (take hi t)"
| "spliced t lo hi (e # es) = drop lo (take (rp_start e) t) @ rp_text e @ spliced t (rp_end e) hi es"

lemma edits_ok_Cons: "edits_ok lo hi (e # es) \<longleftrightarrow> lo \<le> rp_start e \<and> rp_start e \<le> rp_end e \<and> edits_ok (rp_end e) hi es"
  by (auto simp: edits_ok_def)

lemma edits_ok_append:
  "edits_ok lo hi (es @ fs) \<longleftrightarrow> edits_ok lo hi es \<and> edits_ok lo hi fs \<and> (\<forall>x \<in> set es. \<forall>y \<in> set fs. rp_end x \<le> rp_start y)"
  by (auto simp: edits_ok_def sorted_wrt_append)

lemma edits_ok_widen: "edits_ok lo hi es \<Longrightarrow> lo' \<le> lo \<Longrightarrow> hi \<le> hi' \<Longrightarrow> edits_ok lo' hi' es"
  by (force simp: edits_ok_def)

lemma replace_Nil [simp]: "replace t [] = t"
  by (simp add: replace_def)

lemma replace_Cons [simp]: "replace t (e # es) = replace_one e (replace t es)"
  by (simp add: replace_def)

lemma take_split: "i \<le> j \<Longrightarrow> take j t = take i t @ drop i (take j t)"
  by (metis append_take_drop_id min.absorb1 take_take)

lemma replace_spliced_from: "edits_ok lo (length t) es \<Longrightarrow> replace t es = take lo t @ spliced t lo (length t) es"
proof (induction es arbitrary: lo)
  case (Cons e es)
  then have o: "lo \<le> rp_start e" "rp_start e \<le> rp_end e" "edits_ok (rp_end e) (length t) es" by (simp_all add: edits_ok_Cons)
  then have l: "rp_end e \<le> length t" by (simp add: edits_ok_def)
  have "replace t (e # es) = take (rp_start e) t @ rp_text e @ spliced t (rp_end e) (length t) es"
    using Cons.IH [OF o(3)] o l by (simp add: replace_one_def min_def)
  then show ?case using take_split [OF o(1)] by simp
qed simp

lemma replace_spliced: "edits_ok 0 (length t) es \<Longrightarrow> replace t es = spliced t 0 (length t) es"
  using replace_spliced_from [of 0] by simp

lemma spliced_append:
  "edits_ok lo m es \<Longrightarrow> edits_ok m hi fs \<Longrightarrow> hi \<le> length t \<Longrightarrow> spliced t lo hi (es @ fs) = spliced t lo m es @ spliced t m hi fs"
proof (induction es arbitrary: lo)
  case Nil
  then have "lo \<le> m" "m \<le> hi" by (simp_all add: edits_ok_def)
  show ?case
  proof (cases fs)
    case Nil
    have "drop lo (take hi t) = drop lo (take m t @ drop m (take hi t))" using take_split [OF \<open>m \<le> hi\<close>, of t] by simp
    then show ?thesis using Nil \<open>lo \<le> m\<close> \<open>m \<le> hi\<close> \<open>hi \<le> length t\<close> by simp
  next
    case (Cons f gs)
    with Nil.prems have "m \<le> rp_start f" by (simp add: edits_ok_Cons)
    then have "drop lo (take (rp_start f) t) = drop lo (take m t @ drop m (take (rp_start f) t))" using take_split by metis
    then show ?thesis using Cons \<open>lo \<le> m\<close> \<open>m \<le> hi\<close> \<open>hi \<le> length t\<close> by simp
  qed
qed (simp add: edits_ok_Cons)

definition shifted :: "nat \<Rightarrow> replacement \<Rightarrow> replacement" where
  "shifted s x = x\<lparr>rp_start := rp_start x - s, rp_end := rp_end x - s\<rparr>"

lemma spliced_shift:
  "edits_ok lo e es \<Longrightarrow> s \<le> lo \<Longrightarrow> e \<le> length t \<Longrightarrow>
    spliced (drop s (take e t)) (lo - s) (e - s) (map (shifted s) es) = spliced t lo e es"
proof (induction es arbitrary: lo)
  case Nil
  then show ?case by (simp add: take_drop edits_ok_def)
next
  case (Cons x es)
  then have o: "lo \<le> rp_start x" "rp_start x \<le> rp_end x" "edits_ok (rp_end x) e es" by (simp_all add: edits_ok_Cons)
  then have "rp_end x \<le> e" by (simp add: edits_ok_def)
  with Cons.IH [OF o(3)] Cons.prems o show ?case by (simp add: shifted_def take_drop min_def)
qed

lemma replace_slice:
  assumes "edits_ok s e es" "e \<le> length t"
  shows "replace (drop s (take e t)) (map (shifted s) es) = spliced t s e es"
proof -
  have "edits_ok 0 (e - s) (map (shifted s) es)"
    unfolding edits_ok_def
  proof (intro conjI ballI)
    have "sorted_wrt (\<lambda>x y. rp_end x \<le> rp_start y) es" using assms(1) by (simp add: edits_ok_def)
    then show "sorted_wrt (\<lambda>x y. rp_end x \<le> rp_start y) (map (shifted s) es)"
      unfolding sorted_wrt_map by (rule sorted_wrt_mono_rel [rotated]) (simp add: shifted_def diff_le_mono)
  qed (use assms(1) in \<open>auto simp: edits_ok_def shifted_def diff_le_mono\<close>)
  moreover have "length (drop s (take e t)) = e - s" using assms by simp
  ultimately have "replace (drop s (take e t)) (map (shifted s) es) = spliced (drop s (take e t)) 0 (e - s) (map (shifted s) es)"
    using replace_spliced by metis
  then show ?thesis using spliced_shift [OF assms(1) order_refl assms(2)] by simp
qed

subsection \<open>One hunk\<close>

lemma common_prefix_take: "take (common_prefix xs ys) xs = take (common_prefix xs ys) ys"
  by (induction xs ys rule: common_prefix.induct) auto

lemma common_prefix_le: "common_prefix xs ys \<le> length xs" "common_prefix xs ys \<le> length ys"
  by (induction xs ys rule: common_prefix.induct) auto

lemma apply_body_append:
  "apply_body (map Context xs @ ds) (xs @ ls) = map_option (\<lambda>(r, t). (xs @ r, t)) (apply_body ds ls)"
  "apply_body (map Removed xs @ ds) (xs @ ls) = apply_body ds ls"
  "apply_body (map Added xs @ ds) ls = map_option (\<lambda>(r, t). (xs @ r, t)) (apply_body ds ls)"
  by (induction xs) (auto simp: option.map_comp case_prod_unfold comp_def option.map_ident)

lemma apply_body_Context: "apply_body (map Context xs) (xs @ ls) = Some (xs, ls)"
  using apply_body_append(1) [of xs "[]" ls] by simp

lemma common_suffix_split:
  fixes old updated :: "string list"
  defines "p \<equiv> common_prefix old updated"
  defines "q \<equiv> common_suffix p old updated"
  shows "take p updated = take p old" "drop (length updated - q) updated = drop (length old - q) old"
    "p + q \<le> length old" "p + q \<le> length updated"
proof -
  show "take p updated = take p old" unfolding p_def by (rule common_prefix_take [symmetric])
  have le: "q \<le> length old - p" "q \<le> length updated - p" "p \<le> length old" "p \<le> length updated"
    using common_prefix_le [of "rev (drop p old)" "rev (drop p updated)"] common_prefix_le [of old updated]
    by (simp_all add: q_def common_suffix_def p_def)
  then show "p + q \<le> length old" "p + q \<le> length updated" by simp_all
  have "take q (rev (drop p old)) = take q (rev (drop p updated))"
    unfolding q_def common_suffix_def by (rule common_prefix_take)
  then have "rev (take q (rev (drop p old))) = rev (take q (rev (drop p updated)))" by simp
  then have "drop (length old - p - q) (drop p old) = drop (length updated - p - q) (drop p updated)"
    by (simp add: rev_take)
  with le show "drop (length updated - q) updated = drop (length old - q) old" by simp
qed

lemma apply_hunk_body: "apply_body (hunk_body old updated) (old @ ls) = Some (updated, ls)"
proof -
  define p where "p = common_prefix old updated"
  define q where "q = common_suffix p old updated"
  note s = common_suffix_split [where old = old and updated = updated, folded p_def, folded q_def]
  define mid where "mid = drop p (take (length old - q) old)"
  define new where "new = drop p (take (length updated - q) updated)"
  define tail where "tail = drop (length old - q) old"
  have "old = take (length old - q) old @ tail" by (simp add: tail_def)
  also have "take (length old - q) old = take p old @ mid" using s(3) unfolding mid_def by (intro take_split) simp
  finally have old: "old = take p old @ mid @ tail" by simp
  have "updated = take (length updated - q) updated @ tail" using s(2) by (metis append_take_drop_id tail_def)
  also have "take (length updated - q) updated = take p updated @ new" using s(4) unfolding new_def by (intro take_split) simp
  finally have updated: "updated = take p old @ new @ tail" using s(1) by simp
  have "apply_body (hunk_body old updated) (take p old @ mid @ tail @ ls) = Some (take p old @ new @ tail, ls)"
    unfolding hunk_body_def Let_def p_def [symmetric] q_def [symmetric] mid_def [symmetric] new_def [symmetric] tail_def [symmetric]
    by (simp add: apply_body_append apply_body_Context)
  then show ?thesis using old updated by (metis append_assoc)
qed

subsection \<open>Groups of edits\<close>

type_synonym part = "(nat \<times> nat) \<times> replacement list"

text \<open>A group of lines with the edits it covers: they lie inside, and inside all but the last line when the file goes on.\<close>

definition good_part :: "string list \<Rightarrow> part \<Rightarrow> bool" where
  "good_part ls p \<longleftrightarrow> (case p of ((a, b), es) \<Rightarrow>
     es \<noteq> [] \<and> b \<le> length ls \<and> (a < b \<or> ls = []) \<and> a \<le> b \<and> edits_ok (line_start ls a) (line_start ls b) es \<and>
     (b < length ls \<longrightarrow> edits_ok (line_start ls a) (line_start ls (b - 1)) es))"

definition apart :: "part list \<Rightarrow> bool" where
  "apart ps \<longleftrightarrow> sorted_wrt (\<lambda>p q. snd (fst p) < fst (fst q)) ps"

lemma line_start_Cons [simp]: "line_start (l # ls) (Suc k) = length l + line_start ls k"
  by (simp add: line_start_def)

lemma first_line_bounds:
  "offset \<le> start \<Longrightarrow> first_line ls offset start \<le> length ls \<and> offset + line_start ls (first_line ls offset start) \<le> start"
proof (induction ls arbitrary: offset)
  case (Cons l ls)
  show ?case using Cons.IH [of "offset + length l"] Cons.prems by (simp add: add.assoc)
qed simp

lemma touched_lines_bounds:
  "touched_lines ls offset stop \<le> length ls \<and>
    (stop \<le> offset + line_start ls (touched_lines ls offset stop) \<or> touched_lines ls offset stop = length ls)"
proof (induction ls arbitrary: offset)
  case (Cons l ls)
  show ?case using Cons.IH [of "offset + length l"] by (simp add: add.assoc)
qed simp

lemma line_start_drop: "line_start ls k + line_start (drop k ls) m = line_start ls (k + m)"
  by (simp add: line_start_def take_add)

lemma edit_group_good:
  assumes "rp_start e \<le> rp_end e" "rp_end e \<le> length (concat ls)"
  shows "good_part ls (edit_group ls e, [e])"
proof -
  define first where "first = first_line ls 0 (rp_start e)"
  define final where "final = first + touched_lines (drop first ls) (line_start ls first) (rp_end e)"
  have f: "first \<le> length ls" "line_start ls first \<le> rp_start e"
    using first_line_bounds [of 0 "rp_start e" ls] by (simp_all add: first_def)
  have l: "final \<le> length ls" "rp_end e \<le> line_start ls final"
    using touched_lines_bounds [of "drop first ls" "line_start ls first" "rp_end e"] f assms(2)
    by (auto simp: final_def line_start_drop line_start_all)
  define a where "a = first - 3"
  define b where "b = min (length ls) (max (first + 1) final + 3)"
  have g: "edit_group ls e = (a, b)" by (simp add: edit_group_def Let_def first_def final_def a_def b_def)
  have ab: "a \<le> b" "b \<le> length ls" "a < b \<or> ls = []" "final \<le> b"
    by (cases ls; use f l in \<open>auto simp: a_def b_def\<close>)+
  have s: "line_start ls a \<le> rp_start e" using f(2) line_start_mono [of a first ls] by (simp add: a_def)
  have t: "rp_end e \<le> line_start ls b" using l(2) line_start_mono [OF ab(4), of ls] by simp
  have u: "rp_end e \<le> line_start ls (b - 1)" if "b < length ls"
  proof -
    have "final \<le> b - 1" using that by (auto simp: b_def)
    then show ?thesis using l(2) line_start_mono [of final "b - 1" ls] by simp
  qed
  show ?thesis using s t u ab assms(1) by (auto simp: good_part_def g edits_ok_def)
qed

lemma add_group_parts:
  assumes "list_all (good_part ls) ps" "apart ps" "good_part ls (g, [e])" "\<forall>x \<in> set (concat (map snd ps)). rp_end x \<le> rp_start e"
  shows "\<exists>qs. map fst qs = add_group (map fst ps) g \<and> concat (map snd qs) = concat (map snd ps) @ [e] \<and>
    list_all (good_part ls) qs \<and> apart qs"
proof (cases "ps \<noteq> [] \<and> fst g \<le> snd (fst (last ps))")
  case True
  then obtain rs a b es where ps: "ps = rs @ [((a, b), es)]" by (metis append_butlast_last_id prod.exhaust)
  obtain c d where g: "g = (c, d)" by (cases g)
  let ?q = "((a, max b d), es @ [e])"
  have o: "\<forall>x \<in> set es. rp_end x \<le> rp_start e" using assms(4) ps by auto
  have es: "es \<noteq> []" "edits_ok (line_start ls a) (line_start ls b) es" "b \<le> length ls" "a < b \<or> ls = []" "a \<le> b"
    "b < length ls \<longrightarrow> edits_ok (line_start ls a) (line_start ls (b - 1)) es"
    using assms(1) ps by (auto simp: good_part_def)
  have e: "edits_ok (line_start ls c) (line_start ls d) [e]" "d \<le> length ls"
    "d < length ls \<longrightarrow> edits_ok (line_start ls c) (line_start ls (d - 1)) [e]" "c < d \<or> ls = []"
    using assms(3) g by (auto simp: good_part_def)
  have lo: "line_start ls a \<le> rp_start e"
    using es(1,2) o by (cases es) (auto simp: edits_ok_def)
  have ok: "edits_ok (line_start ls a) hi (es @ [e])"
    if "edits_ok (line_start ls a) hi es" "rp_end e \<le> hi" for hi
    using that lo o e(1) unfolding edits_ok_append by (auto simp: edits_ok_def)
  have m: "line_start ls b \<le> line_start ls (max b d)" "line_start ls d \<le> line_start ls (max b d)" by (simp_all add: line_start_mono)
  have q: "edits_ok (line_start ls a) (line_start ls (max b d)) (es @ [e])"
    by (rule ok [OF edits_ok_widen [OF es(2) order_refl m(1)]]) (use e(1) m(2) in \<open>simp add: edits_ok_def\<close>)
  moreover have "edits_ok (line_start ls a) (line_start ls (max b d - 1)) (es @ [e])" if l: "max b d < length ls"
  proof (rule ok)
    have n: "line_start ls (b - 1) \<le> line_start ls (max b d - 1)" "line_start ls (d - 1) \<le> line_start ls (max b d - 1)"
      by (simp_all add: line_start_mono diff_le_mono)
    show "edits_ok (line_start ls a) (line_start ls (max b d - 1)) es"
      using es(6) l n(1) by (auto intro: edits_ok_widen)
    show "rp_end e \<le> line_start ls (max b d - 1)" using e(3) l n(2) by (auto simp: edits_ok_def)
  qed
  ultimately have "good_part ls ?q" using es e by (auto simp: good_part_def)
  moreover have "apart (rs @ [?q])" using assms(2) ps by (auto simp: apart_def sorted_wrt_append)
  ultimately show ?thesis
    using True ps assms(1) g by (intro exI [of _ "rs @ [?q]"]) (auto simp: add_group_def butlast_append)
next
  case False
  have "snd (fst p) < fst g" if "p \<in> set ps" for p
  proof -
    from that have ne: "ps \<noteq> []" by auto
    then obtain rs where rs: "ps = rs @ [last ps]" by (metis append_butlast_last_id)
    with that consider "p = last ps" | "p \<in> set rs" by (metis in_set_conv_decomp_last set_ConsD set_append Un_iff list.set(1,2) emptyE insertE)
    then have "snd (fst p) \<le> snd (fst (last ps))"
    proof cases
      case 2
      then have "snd (fst p) < fst (fst (last ps))" using assms(2) rs by (metis apart_def sorted_wrt_append list.set_intros(1))
      moreover have "good_part ls (last ps)" using assms(1) ne by (simp add: list_all_iff)
      ultimately show ?thesis by (auto simp: good_part_def split: prod.splits)
    qed simp
    with False ne show ?thesis by simp
  qed
  then have "apart (ps @ [(g, [e])])" using assms(2) by (auto simp: apart_def sorted_wrt_append)
  moreover have "add_group (map fst ps) g = map fst ps @ [g]" using False by (auto simp: add_group_def last_map)
  ultimately show ?thesis using assms(1,3) by (intro exI [of _ "ps @ [(g, [e])]"]) simp
qed

lemma edit_groups_parts:
  "edits_ok 0 (length (concat ls)) es \<Longrightarrow>
    \<exists>ps. map fst ps = edit_groups ls es \<and> concat (map snd ps) = es \<and> list_all (good_part ls) ps \<and> apart ps"
proof (induction es rule: rev_induct)
  case Nil
  then show ?case by (intro exI [of _ "[]"]) (simp add: edit_groups_def apart_def)
next
  case (snoc e es)
  from snoc.prems have o: "edits_ok 0 (length (concat ls)) es" "\<forall>x \<in> set es. rp_end x \<le> rp_start e" "rp_start e \<le> rp_end e"
    "rp_end e \<le> length (concat ls)"
    unfolding edits_ok_append by (auto simp: edits_ok_def)
  from snoc.IH [OF o(1)] obtain ps where ps: "map fst ps = edit_groups ls es" "concat (map snd ps) = es"
    "list_all (good_part ls) ps" "apart ps" by blast
  with add_group_parts [OF ps(3,4) edit_group_good [OF o(3,4)]] o(2) show ?case by (simp add: edit_groups_def)
qed

lemma local_edits_part:
  assumes "list_all (good_part ls) (ps @ ((a, b), es) # qs)" "apart (ps @ ((a, b), es) # qs)" "\<forall>l \<in> set ls. l \<noteq> []"
  shows "local_edits (line_start ls a) (line_start ls b) (concat (map snd (ps @ ((a, b), es) # qs))) = map (shifted (line_start ls a)) es"
proof -
  let ?in = "\<lambda>x. line_start ls a \<le> rp_start x \<and> rp_end x \<le> line_start ls b"
  have "\<not> ?in x" if "p \<in> set ps" "x \<in> set (snd p)" for p x
  proof -
    obtain c d fs where p: "p = ((c, d), fs)" by (metis prod.exhaust)
    with assms(2) that(1) have "d < a" by (auto simp: apart_def sorted_wrt_append)
    moreover have "a \<le> length ls" using assms(1) by (auto simp: good_part_def)
    ultimately have "line_start ls d < line_start ls a" using assms(3) by (intro line_start_less)
    moreover have "good_part ls p" using assms(1) that(1) by (simp add: list_all_iff)
    then have "rp_start x \<le> rp_end x \<and> rp_end x \<le> line_start ls d" using that(2) p by (simp add: good_part_def edits_ok_def)
    ultimately show ?thesis by simp
  qed
  moreover have "\<not> ?in x" if "p \<in> set qs" "x \<in> set (snd p)" for p x
  proof -
    obtain c d fs where p: "p = ((c, d), fs)" by (metis prod.exhaust)
    with assms(2) that(1) have "b < c" by (auto simp: apart_def sorted_wrt_append)
    moreover have g: "good_part ls p" using assms(1) that(1) by (simp add: list_all_iff)
    then have "c \<le> length ls" using p by (auto simp: good_part_def)
    ultimately have "line_start ls b < line_start ls c" using assms(3) by (intro line_start_less)
    moreover have "rp_start x \<le> rp_end x \<and> line_start ls c \<le> rp_start x" using g that(2) p by (simp add: good_part_def edits_ok_def)
    ultimately show ?thesis by simp
  qed
  moreover have "\<forall>x \<in> set es. ?in x" using assms(1) by (auto simp: good_part_def edits_ok_def)
  ultimately have "filter ?in (concat (map snd ps)) = []" "filter ?in (concat (map snd qs)) = []" "filter ?in es = es"
    by (auto simp: filter_empty_conv filter_id_conv)
  then have "filter ?in (concat (map snd (ps @ ((a, b), es) # qs))) = es" by simp
  then show ?thesis by (simp add: local_edits_def shifted_def [abs_def])
qed

subsection \<open>The whole diff\<close>

lemma part_ends_complete:
  assumes "good_part (lines t) ((a, b), es)" "b < length (lines t)"
  shows "\<exists>v l. spliced t (line_start (lines t) a) (line_start (lines t) b) es = v @ l \<and> complete_line l"
proof -
  let ?ls = "lines t"
  from assms have o: "edits_ok (line_start ?ls a) (line_start ?ls (b - 1)) es" "a < b" by (auto simp: good_part_def)
  have n: "edits_ok (line_start ?ls (b - 1)) (line_start ?ls b) []" by (simp add: edits_ok_def line_start_mono)
  have le: "line_start ?ls b \<le> length t" using line_start_mono [of b "length ?ls" ?ls] assms(2) by (simp add: line_start_all)
  have "drop (b - 1) (take b ?ls) = [?ls ! (b - 1)]"
    using o(2) assms(2) by (cases b) (simp_all add: take_Suc_conv_app_nth)
  then have "spliced t (line_start ?ls (b - 1)) (line_start ?ls b) [] = ?ls ! (b - 1)"
    using text_slice [of "b - 1" b t] by simp
  with spliced_append [OF o(1) n le] have "spliced t (line_start ?ls a) (line_start ?ls b) es =
      spliced t (line_start ?ls a) (line_start ?ls (b - 1)) es @ ?ls ! (b - 1)" by simp
  moreover have "complete_line (?ls ! (b - 1))"
  proof -
    have "\<forall>l \<in> set (take b ?ls). complete_line l"
      using assms(2) by (intro lines_prefix_complete [of t _ "drop b ?ls"]) simp_all
    moreover have "?ls ! (b - 1) \<in> set (take b ?ls)" using o(2) assms(2) by (auto simp: in_set_conv_nth intro!: exI [of _ "b - 1"])
    ultimately show ?thesis by blast
  qed
  ultimately show ?thesis by blast
qed

lemma parts_ok:
  assumes "list_all (good_part ls) ps" "apart ps" "\<forall>p \<in> set ps. i \<le> fst (fst p)" "i \<le> length ls"
  shows "edits_ok (line_start ls i) (length (concat ls)) (concat (map snd ps))"
  using assms
proof (induction ps arbitrary: i)
  case Nil
  then show ?case using line_start_mono [of i "length ls" ls] by (simp add: edits_ok_def line_start_all)
next
  case (Cons p ps)
  obtain a b es where p: "p = ((a, b), es)" by (metis prod.exhaust)
  with Cons.prems have g: "a \<le> b" "b \<le> length ls" "edits_ok (line_start ls a) (line_start ls b) es" "i \<le> a"
    by (auto simp: good_part_def)
  have "edits_ok (line_start ls b) (length (concat ls)) (concat (map snd ps))"
    using Cons p g by (intro Cons.IH) (auto simp: apart_def)
  moreover have "edits_ok (line_start ls i) (line_start ls b) es"
    by (rule edits_ok_widen [OF g(3) line_start_mono [OF g(4)] order_refl])
  moreover have "line_start ls b \<le> length (concat ls)" "line_start ls i \<le> line_start ls b"
    using line_start_mono [of b "length ls" ls] line_start_mono [of i b ls] g by (simp_all add: line_start_all)
  ultimately show ?case
    unfolding p list.map concat.simps snd_conv edits_ok_append by (auto simp: edits_ok_def; force)
qed

lemma spliced_part:
  assumes "list_all (good_part (lines t)) (((a, b), es) # ps)" "apart (((a, b), es) # ps)" "i \<le> a"
  shows "spliced t (line_start (lines t) i) (length t) (es @ concat (map snd ps)) =
    concat (drop i (take a (lines t))) @ spliced t (line_start (lines t) a) (line_start (lines t) b) es @
    spliced t (line_start (lines t) b) (length t) (concat (map snd ps))"
proof -
  let ?ls = "lines t"
  have g: "a \<le> b" "b \<le> length ?ls" "edits_ok (line_start ?ls a) (line_start ?ls b) es"
    using assms(1) by (auto simp: good_part_def)
  have "edits_ok (line_start ?ls b) (length (concat ?ls)) (concat (map snd ps))"
    using assms by (intro parts_ok) (auto simp: good_part_def apart_def)
  then have r: "edits_ok (line_start ?ls b) (length t) (concat (map snd ps))" by simp
  have n: "edits_ok (line_start ?ls i) (line_start ?ls a) []" by (simp add: edits_ok_def line_start_mono assms(3))
  have w: "edits_ok (line_start ?ls a) (length t) (es @ concat (map snd ps))"
    using g(3) r unfolding edits_ok_append by (auto simp: edits_ok_def; force)
  have "spliced t (line_start ?ls i) (length t) ([] @ es @ concat (map snd ps)) =
      spliced t (line_start ?ls i) (line_start ?ls a) [] @ spliced t (line_start ?ls a) (length t) (es @ concat (map snd ps))"
    by (rule spliced_append [OF n w]) simp
  then show ?thesis using spliced_append [OF g(3) r] text_slice [OF assms(3), of t] by simp
qed

lemma lines_part:
  assumes "list_all (good_part (lines t)) (((a, b), es) # ps)" "apart (((a, b), es) # ps)" "i \<le> a"
  defines "U \<equiv> spliced t (line_start (lines t) a) (line_start (lines t) b) es"
  shows "lines (spliced t (line_start (lines t) i) (length t) (es @ concat (map snd ps))) =
    drop i (take a (lines t)) @ lines U @ lines (spliced t (line_start (lines t) b) (length t) (concat (map snd ps)))"
proof -
  let ?ls = "lines t"
  have g: "a < b \<or> ?ls = []" "a \<le> b" "b \<le> length ?ls" using assms(1) by (auto simp: good_part_def)
  have gap: "\<forall>l \<in> set (drop i (take a ?ls)). complete_line l"
  proof (cases "?ls = []")
    case False
    with g have "drop a ?ls \<noteq> []" by auto
    then have "\<forall>l \<in> set (take a ?ls). complete_line l" by (intro lines_prefix_complete [of t _ "drop a ?ls"]) simp_all
    then show ?thesis by (meson in_set_dropD)
  qed simp
  have "lines (U @ r) = lines U @ lines r" if "r = spliced t (line_start ?ls b) (length t) (concat (map snd ps))" for r
  proof (cases "b < length ?ls")
    case True
    moreover have "good_part ?ls ((a, b), es)" using assms(1) by simp
    ultimately obtain v l where "U = v @ l" "complete_line l" using part_ends_complete unfolding U_def by blast
    then show ?thesis by (rule lines_last_newline)
  next
    case False
    with g have b: "b = length ?ls" by simp
    have "ps = []"
    proof (cases ps)
      case (Cons q qs)
      obtain c d fs where "q = ((c, d), fs)" by (metis prod.exhaust)
      with Cons assms(1,2) b show ?thesis by (auto simp: good_part_def apart_def)
    qed simp
    with that b show ?thesis by (simp add: line_start_all)
  qed
  then show ?thesis
    unfolding spliced_part [OF assms(1-3)] U_def [symmetric] lines_concat_complete [OF gap] by simp
qed

lemma apply_hunks_step:
  assumes "nat (position (int (hk_oldStart h)) (hk_oldCount h)) = p" "i \<le> p" "p - i \<le> length ls"
    "position (hk_newStart h) (hk_newCount h) = int (j + (p - i))"
    "apply_body (hk_body h) (drop (p - i) ls) = Some (out, rest)"
    "length out = hk_newCount h" "length rest + hk_oldCount h = length ls - (p - i)"
  shows "apply_hunks i j (h # hs) ls =
    map_option (\<lambda>r. take (p - i) ls @ out @ r) (apply_hunks (p + hk_oldCount h) (j + (p - i) + length out) hs rest)"
  using assms by (simp add: Let_def)

lemma apply_diff_hunks:
  assumes "list_all (good_part (lines t)) (ds @ ps)" "apart (ds @ ps)" "edits = concat (map snd (ds @ ps))"
    "\<forall>p \<in> set ps. i \<le> fst (fst p)" "i \<le> length (lines t)"
  shows "apply_hunks i j (diff_hunks t (lines t) edits (int j - int i) (map fst ps)) (drop i (lines t)) =
    Some (lines (spliced t (line_start (lines t) i) (length t) (concat (map snd ps))))"
  using assms
proof (induction ps arbitrary: ds i j)
  case Nil
  then show ?case
    using lines_suffix [of t "take i (lines t)" "drop i (lines t)"] by (simp add: text_rest)
next
  case (Cons p ps)
  let ?ls = "lines t"
  obtain a b es where p: "p = ((a, b), es)" by (metis prod.exhaust)
  note q = Cons.prems [unfolded p]
  have part: "list_all (good_part ?ls) (((a, b), es) # ps)" "apart (((a, b), es) # ps)" "i \<le> a"
    using q by (auto simp: apart_def sorted_wrt_append)
  have g: "a \<le> b" "b \<le> length ?ls" "edits_ok (line_start ?ls a) (line_start ?ls b) es" using part(1) by (auto simp: good_part_def)
  have le: "line_start ?ls b \<le> length t" using line_start_mono [OF g(2), of ?ls] by (simp add: line_start_all)
  define old where "old = drop a (take b ?ls)"
  define U where "U = lines (spliced t (line_start ?ls a) (line_start ?ls b) es)"
  have ne: "\<forall>l \<in> set ?ls. l \<noteq> []" using lines_nonempty by blast
  have "local_edits (line_start ?ls a) (line_start ?ls b) edits = map (shifted (line_start ?ls a)) es"
    unfolding q(3) by (rule local_edits_part [OF q(1,2) ne])
  then have updated: "updated_lines t ?ls edits (a, b) = U"
    unfolding updated_lines_def Let_def fst_conv snd_conv by (simp add: U_def replace_slice [OF g(3) le])
  have len: "length old = b - a" using g by (simp add: old_def)
  have tail: "drop (a - i) (drop i ?ls) = old @ drop b ?ls"
    using part(3) g by (simp add: old_def) (metis append_take_drop_id drop_take le_add_diff_inverse drop_drop add.commute)
  have IH: "apply_hunks b (j + (a - i) + length U) (diff_hunks t ?ls edits (int (j + (a - i) + length U) - int b) (map fst ps)) (drop b ?ls) =
      Some (lines (spliced t (line_start ?ls b) (length t) (concat (map snd ps))))"
    by (rule Cons.IH [of "ds @ [((a, b), es)]"]) (use q part g in \<open>auto simp: apart_def less_imp_le\<close>)
  have delta: "int j - int i + int (length U) - int (length old) = int (j + (a - i) + length U) - int b"
    using part(3) g(1) len by simp
  have pos: "nat (position (int (if old \<noteq> [] then a + 1 else a)) (length old)) = a" by (simp add: position_def)
  have new: "position (if U \<noteq> [] then int a + (int j - int i) + 1 else int a + (int j - int i)) (length U) = int (j + (a - i))"
    using part(3) by (simp add: position_def)
  define h where "h = \<lparr>hk_oldStart = (if old \<noteq> [] then a + 1 else a), hk_oldCount = length old,
      hk_newStart = (if U \<noteq> [] then int a + (int j - int i) + 1 else int a + (int j - int i)),
      hk_newCount = length U, hk_body = hunk_body old U\<rparr>"
  let ?hs = "diff_hunks t ?ls edits (int (j + (a - i) + length U) - int b) (map fst ps)"
  have "diff_hunks t ?ls edits (int j - int i) (map fst (((a, b), es) # ps)) = h # ?hs"
    by (simp only: list.map fst_conv snd_conv diff_hunks.simps Let_def updated old_def [symmetric] h_def delta)
  moreover have "apply_hunks i j (h # ?hs) (drop i ?ls) =
      map_option (\<lambda>r. take (a - i) (drop i ?ls) @ U @ r) (apply_hunks (a + hk_oldCount h) (j + (a - i) + length U) ?hs (drop b ?ls))"
  proof (rule apply_hunks_step)
    show "nat (position (int (hk_oldStart h)) (hk_oldCount h)) = a" using pos by (simp only: h_def hunk.simps)
    show "position (hk_newStart h) (hk_newCount h) = int (j + (a - i))" using new by (simp only: h_def hunk.simps)
    show "apply_body (hk_body h) (drop (a - i) (drop i ?ls)) = Some (U, drop b ?ls)"
      using apply_hunk_body by (simp only: h_def hunk.simps tail)
    show "length (drop b ?ls) + hk_oldCount h = length (drop i ?ls) - (a - i)" using part(3) g len by (simp add: h_def)
  qed (use part(3) g in \<open>simp_all add: h_def\<close>)
  moreover have "a + hk_oldCount h = b" using len g by (simp add: h_def)
  moreover have "take (a - i) (drop i ?ls) = drop i (take a ?ls)" using part(3) by (simp add: take_drop)
  ultimately have "apply_hunks i j (diff_hunks t ?ls edits (int j - int i) (map fst (((a, b), es) # ps))) (drop i ?ls) =
      Some (drop i (take a ?ls) @ U @ lines (spliced t (line_start ?ls b) (length t) (concat (map snd ps))))"
    using IH by simp
  then show ?case using lines_part [OF part] by (simp add: p U_def)
qed

subsection \<open>Resolution of edits\<close>

definition occurs_at :: "string \<Rightarrow> string \<Rightarrow> nat \<Rightarrow> bool" where
  "occurs_at t p k \<longleftrightarrow> k + length p \<le> length t \<and> take (length p) (drop k t) = p"

definition occurrences :: "string \<Rightarrow> string \<Rightarrow> nat set" where
  "occurrences t p = {k. occurs_at t p k}"

lemma occurs_iff: "occurs_at t p k \<longleftrightarrow> k \<in> occurrences t p"
  by (simp add: occurrences_def)

lemma startsWith_drop:
  assumes "p \<noteq> []"
  shows "startsWith (drop k t) p \<longleftrightarrow> occurs_at t p k"
proof
  assume "startsWith (drop k t) p"
  then obtain r where r: "drop k t = p @ r" by (auto simp: startsWith_iff prefix_def)
  from arg_cong [OF r, of length] assms have "k + length p \<le> length t" by (cases "k \<le> length t") auto
  with r show "occurs_at t p k" by (simp add: occurs_at_def)
next
  assume "occurs_at t p k"
  then have "drop k t = p @ drop (length p) (drop k t)" by (metis append_take_drop_id occurs_at_def)
  then show "startsWith (drop k t) p" unfolding startsWith_iff by (rule prefixI)
qed

lemma indexOf_at_cases:
  "p \<noteq> [] \<Longrightarrow> i \<le> length t \<Longrightarrow>
    (case indexOf_at i p (drop i t) of
       None \<Rightarrow> \<forall>k. i \<le> k \<longrightarrow> \<not> occurs_at t p k
     | Some k \<Rightarrow> i \<le> k \<and> occurs_at t p k \<and> (\<forall>j. i \<le> j \<and> j < k \<longrightarrow> \<not> occurs_at t p j))"
proof (induction "length t - i" arbitrary: i)
  case 0
  then have "\<not> occurs_at t p k" if "i \<le> k" for k using that by (auto simp: occurs_at_def)
  with 0 show ?case by simp
next
  case (Suc n)
  then have lt: "i < length t" by simp
  then have d: "drop i t = t ! i # drop (Suc i) t" by (simp add: Cons_nth_drop_Suc)
  show ?case
  proof (cases "occurs_at t p i")
    case True
    then have "startsWith (drop i t) p" using startsWith_drop [OF Suc.prems(1)] by blast
    with True show ?thesis by (auto simp: d)
  next
    case False
    then have f: "\<not> startsWith (drop i t) p" using startsWith_drop [OF Suc.prems(1)] by blast
    have step: "i \<le> j \<longleftrightarrow> j = i \<or> Suc i \<le> j" for j by auto
    have "indexOf_at i p (drop i t) = indexOf_at (Suc i) p (drop (Suc i) t)" using f by (simp add: d)
    with Suc.hyps(1) [of "Suc i"] Suc.hyps(2) Suc.prems lt False show ?thesis
      by (cases "indexOf_at (Suc i) p (drop (Suc i) t)") (auto simp: step)
  qed
qed

lemma resolve_edit_Inr:
  assumes "fst edit \<noteq> []"
  shows "resolve_edit t edit = Inr r \<longleftrightarrow>
    (\<exists>k. occurrences t (fst edit) = {k} \<and> r = \<lparr>rp_start = k, rp_end = k + length (fst edit), rp_text = snd edit\<rparr>)"
proof (cases "indexOf t (fst edit) 0")
  case None
  then have "\<forall>k. \<not> occurs_at t (fst edit) k" using indexOf_at_cases [OF assms, of 0 t] by (simp add: indexOf_def)
  with None show ?thesis by (auto simp: resolve_edit_def occurrences_def)
next
  case (Some k)
  then have k: "occurs_at t (fst edit) k" "\<forall>j < k. \<not> occurs_at t (fst edit) j"
    using indexOf_at_cases [OF assms, of 0 t] by (simp_all add: indexOf_def)
  have le: "k + 1 \<le> length t" using k(1) assms by (cases "fst edit") (auto simp: occurs_at_def)
  have sole: "indexOf t (fst edit) (k + 1) = None \<longleftrightarrow> occurrences t (fst edit) = {k}"
  proof (cases "indexOf t (fst edit) (k + 1)")
    case None
    then have "\<forall>j. k + 1 \<le> j \<longrightarrow> \<not> occurs_at t (fst edit) j" using indexOf_at_cases [OF assms le] by (simp add: indexOf_def)
    then have later: "\<not> occurs_at t (fst edit) j" if "k < j" for j using that by simp
    have "j = k" if "occurs_at t (fst edit) j" for j using k(2) later that by (cases j k rule: linorder_cases) blast+
    with k(1) have "occurrences t (fst edit) = {k}" unfolding occurrences_def by blast
    with None show ?thesis by simp
  next
    case (Some l)
    then have "k + 1 \<le> l" "occurs_at t (fst edit) l" using indexOf_at_cases [OF assms le] by (simp_all add: indexOf_def)
    then have "l \<in> occurrences t (fst edit)" "l \<noteq> k" by (auto simp: occurrences_def)
    then have "occurrences t (fst edit) \<noteq> {k}" by blast
    with Some show ?thesis by simp
  qed
  have same: "j = k" if "occurrences t (fst edit) = {j}" for j using that k(1) occurs_iff by (metis singletonD)
  show ?thesis
  proof (cases "indexOf t (fst edit) (k + 1) = None")
    case True
    then have "resolve_edit t edit = Inr r \<longleftrightarrow> r = \<lparr>rp_start = k, rp_end = k + length (fst edit), rp_text = snd edit\<rparr>"
      using Some by (auto simp: resolve_edit_def)
    moreover have "occurrences t (fst edit) = {j} \<longleftrightarrow> j = k" for j using True sole by auto
    ultimately show ?thesis by simp
  next
    case False
    then have "resolve_edit t edit = Inl Old_text_not_unique" using Some by (simp add: resolve_edit_def)
    moreover have "occurrences t (fst edit) \<noteq> {j}" for j
    proof
      assume e: "occurrences t (fst edit) = {j}"
      with same [OF e] sole False show False by simp
    qed
    ultimately show ?thesis by simp
  qed
qed

lemma not_overlapping_sorted:
  "\<not> overlapping es \<Longrightarrow> \<forall>x \<in> set es. rp_start x \<le> rp_end x \<Longrightarrow> sorted_wrt (\<lambda>x y. rp_end x \<le> rp_start y) es"
proof (induction es rule: overlapping.induct)
  case (1 e f es)
  then have "sorted_wrt (\<lambda>x y. rp_end x \<le> rp_start y) (f # es)" "rp_end e \<le> rp_start f" "rp_start f \<le> rp_end f" by auto
  then show ?case by force
qed auto

lemma sorted_not_overlapping: "sorted_wrt (\<lambda>x y. rp_end x \<le> rp_start y) es \<Longrightarrow> \<not> overlapping es"
  by (induction es rule: overlapping.induct) (auto simp: not_less)

lemma resolve_edits_Inr:
  assumes "\<forall>e \<in> set edits. fst e \<noteq> []" "resolve_edits t edits = Inr es"
  shows "\<exists>ks. length ks = length edits \<and> (\<forall>i < length edits. occurrences t (fst (edits ! i)) = {ks ! i}) \<and>
      mset es = mset (map2 (\<lambda>k e. \<lparr>rp_start = k, rp_end = k + length (fst e), rp_text = snd e\<rparr>) ks edits)"
    "edits_ok 0 (length t) es"
proof -
  from assms(2) obtain rs where rs: "map_result (resolve_edit t) edits = Inr rs" "es = sort_key rp_start rs" "\<not> overlapping es"
    by (auto simp: resolve_edits_def bind_result_Inr Let_def split: if_splits)
  then have all: "list_all2 (\<lambda>e r. resolve_edit t e = Inr r) edits rs" by (simp add: map_result_Inr)
  have one: "\<exists>k. occurrences t (fst (edits ! i)) = {k} \<and>
      rs ! i = \<lparr>rp_start = k, rp_end = k + length (fst (edits ! i)), rp_text = snd (edits ! i)\<rparr>" if "i < length edits" for i
    using that all assms(1) resolve_edit_Inr [of "edits ! i" t "rs ! i"] by (auto simp: list_all2_conv_all_nth)
  define ks where "ks = map rp_start rs"
  have len: "length rs = length edits" using all by (simp add: list_all2_lengthD)
  have "occurrences t (fst (edits ! i)) = {ks ! i}" if "i < length edits" for i
  proof -
    from one [OF that] obtain k where "occurrences t (fst (edits ! i)) = {k}" "rp_start (rs ! i) = k" by auto
    with that len show ?thesis by (simp add: ks_def)
  qed
  moreover have "map2 (\<lambda>k e. \<lparr>rp_start = k, rp_end = k + length (fst e), rp_text = snd e\<rparr>) ks edits = rs"
  proof (rule nth_equalityI)
    fix i
    assume "i < length (map2 (\<lambda>k e. \<lparr>rp_start = k, rp_end = k + length (fst e), rp_text = snd e\<rparr>) ks edits)"
    then have i: "i < length edits" by simp
    from one [OF i] obtain k where "rs ! i = \<lparr>rp_start = k, rp_end = k + length (fst (edits ! i)), rp_text = snd (edits ! i)\<rparr>" by blast
    with i len show "map2 (\<lambda>k e. \<lparr>rp_start = k, rp_end = k + length (fst e), rp_text = snd e\<rparr>) ks edits ! i = rs ! i"
      by (simp add: ks_def)
  qed (simp add: ks_def len)
  ultimately show "\<exists>ks. length ks = length edits \<and> (\<forall>i < length edits. occurrences t (fst (edits ! i)) = {ks ! i}) \<and>
      mset es = mset (map2 (\<lambda>k e. \<lparr>rp_start = k, rp_end = k + length (fst e), rp_text = snd e\<rparr>) ks edits)"
    using len rs(2) by (intro exI [of _ ks]) (simp add: ks_def)
  have "rp_start r \<le> rp_end r \<and> rp_end r \<le> length t" if "r \<in> set es" for r
  proof -
    from that rs(2) have "r \<in> set rs" by simp
    then obtain i where "i < length edits" "r = rs ! i" using len by (metis in_set_conv_nth)
    moreover from this(1) one [of i] obtain k where "occurs_at t (fst (edits ! i)) k" "rp_start (rs ! i) = k"
      "rp_end (rs ! i) = k + length (fst (edits ! i))" by (auto simp: occurs_iff)
    ultimately show ?thesis by (simp add: occurs_at_def)
  qed
  then show "edits_ok 0 (length t) es" using not_overlapping_sorted [OF rs(3)] by (auto simp: edits_ok_def)
qed

subsection \<open>Properties\<close>

text \<open>
  C36. The receipt of a change is exact. For sorted edits inside the text that do not overlap, the reported diff
  is its file header followed by hunks which, applied as a unified diff to the lines of the original
  (every position, count, context line and removed line checked), rebuild exactly the lines of the edited text.
\<close>

theorem diff_exact:
  assumes "edits_ok 0 (length before) edits" "n = replace before edits" "before \<noteq> n \<or> creating" "\<not> (creating \<and> n = [])"
  shows "\<exists>hs. diff relative before edits n creating = diff_header relative creating @ concat (map show_hunk hs) \<and>
    apply_hunks 0 0 hs (lines before) = Some (lines n) \<and> concat (lines n) = n"
proof -
  let ?ls = "lines before"
  let ?hs = "diff_hunks before ?ls edits 0 (edit_groups ?ls edits)"
  from edit_groups_parts [of ?ls edits] assms(1) obtain ps where ps: "map fst ps = edit_groups ?ls edits"
    "concat (map snd ps) = edits" "list_all (good_part ?ls) ps" "apart ps" by auto
  have "apply_hunks 0 0 (diff_hunks before ?ls edits (int 0 - int 0) (map fst ps)) (drop 0 ?ls) =
      Some (lines (spliced before (line_start ?ls 0) (length before) (concat (map snd ps))))"
    by (rule apply_diff_hunks [of before "[]"]) (use ps in simp_all)
  then have "apply_hunks 0 0 ?hs ?ls = Some (lines n)" using ps(1,2) replace_spliced [OF assms(1)] assms(2) by simp
  moreover have "diff relative before edits n creating = diff_header relative creating @ concat (map show_hunk ?hs)"
    using assms(3,4) by (auto simp: diff_def)
  ultimately show ?thesis by auto
qed

definition demo_text :: string where
  "demo_text = ''one'' @ [CHR 0x0A] @ ''two'' @ [CHR 0x0A]"

definition demo_edits :: "replacement list" where
  "demo_edits = [\<lparr>rp_start = 4, rp_end = 7, rp_text = ''2''\<rparr>]"

lemma demo_edits_resolved: "resolve_edits demo_text [(''two'', ''2'')] = Inr demo_edits"
  by code_simp

lemma diff_exact_witness:
  "\<exists>hs. diff ''f'' demo_text demo_edits (replace demo_text demo_edits) False = diff_header ''f'' False @ concat (map show_hunk hs)"
proof -
  have "edits_ok 0 (length demo_text) demo_edits" by (simp add: edits_ok_def demo_edits_def demo_text_def)
  moreover have "demo_text \<noteq> replace demo_text demo_edits" by code_simp
  ultimately show ?thesis using diff_exact [OF _ refl, of demo_text demo_edits False "''f''"] by auto
qed

text \<open>
  Edits that resolve change exactly what they name: every old text occurs at exactly one position of the original;
  the resolved edits are these occurrences, in order and disjoint; applying them from the end equals
  splicing the new texts in at once. Conversely, edits fail to resolve only if some old text does not
  occur exactly once or two occurrences overlap.
\<close>

theorem edits_resolved_exact:
  assumes "\<forall>e \<in> set edits. fst e \<noteq> []"
  shows "case resolve_edits t edits of
      Inr es \<Rightarrow> sorted_wrt (\<lambda>x y. rp_end x \<le> rp_start y) es \<and> replace t es = spliced t 0 (length t) es \<and>
        (\<exists>ks. length ks = length edits \<and> (\<forall>i < length edits. occurrences t (fst (edits ! i)) = {ks ! i}) \<and>
          mset es = mset (map2 (\<lambda>k e. \<lparr>rp_start = k, rp_end = k + length (fst e), rp_text = snd e\<rparr>) ks edits))
    | Inl Old_text_not_unique \<Rightarrow> \<exists>e \<in> set edits. \<nexists>k. occurrences t (fst e) = {k}
    | Inl Edits_overlap \<Rightarrow> \<forall>es. map_result (resolve_edit t) edits = Inr es \<longrightarrow>
        \<not> sorted_wrt (\<lambda>x y. rp_end x \<le> rp_start y) (sort_key rp_start es)"
proof (cases "resolve_edits t edits")
  case (Inr es)
  with resolve_edits_Inr [OF assms Inr] replace_spliced show ?thesis by (simp add: edits_ok_def)
next
  case (Inl x)
  show ?thesis
  proof (cases "map_result (resolve_edit t) edits")
    case e: (Inl y)
    have "\<exists>e \<in> set edits. \<forall>r. resolve_edit t e \<noteq> Inr r"
      using e map_result_ok_iff [of "resolve_edit t" edits] by (metis Inl_Inr_False)
    then obtain e where e1: "e \<in> set edits" "\<forall>r. resolve_edit t e \<noteq> Inr r" by blast
    then have "\<nexists>k. occurrences t (fst e) = {k}" using resolve_edit_Inr [of e t] assms by blast
    moreover have "y = Old_text_not_unique"
    proof -
      have "resolve_edit t f = Inl z \<Longrightarrow> z = Old_text_not_unique" for f z
        by (auto simp: resolve_edit_def split: option.splits if_splits)
      then have "map_result (resolve_edit t) fs = Inl z \<Longrightarrow> z = Old_text_not_unique" for fs z
        by (induction fs) (auto simp: bind_result_Inl)
      with e show ?thesis by blast
    qed
    ultimately show ?thesis using Inl e e1(1) by (auto simp: resolve_edits_def)
  next
    case (Inr rs)
    with Inl have "x = Edits_overlap" "overlapping (sort_key rp_start rs)" by (auto simp: resolve_edits_def Let_def split: if_splits)
    with Inl Inr sorted_not_overlapping show ?thesis by auto
  qed
qed

lemma edits_resolved_exact_witness: "replace demo_text demo_edits = spliced demo_text 0 8 demo_edits"
proof -
  have "length demo_text = 8" by code_simp
  then show ?thesis using edits_resolved_exact [of "[(''two'', ''2'')]" demo_text] demo_edits_resolved by simp
qed

end
