(* ===== verification/Mailbox_Ledger.thy ===== *)
theory Mailbox_Ledger
  imports Work_Mailbox "HOL-Library.Multiset"
begin

text \<open>
  What a work mailbox promises, as an abstract ledger of wake-up keys: keys that were accepted, keys
  that wait, keys held by a worker, keys that are settled. The ledger keeps its whole history; the
  mailbox of \<open>Work_Mailbox\<close> keeps sequence numbers, envelopes, texts and only the last 256 settled keys.
  The simulation shows that every operation of the mailbox is one event of the ledger, so that the
  ledger's laws (no accepted key is lost or doubled) hold of the mailbox.
\<close>

subsection \<open>The ledger\<close>

record ledger =
  lg_accepted :: "string list"
  lg_held :: "string list option"
  lg_waiting :: "string list option"
  lg_settled :: "string list"

definition empty_ledger :: ledger where
  "empty_ledger = \<lparr>lg_accepted = [], lg_held = None, lg_waiting = None, lg_settled = []\<rparr>"

definition keys_of :: "string list option \<Rightarrow> string list" where
  "keys_of ks = (case ks of None \<Rightarrow> [] | Some xs \<Rightarrow> xs)"

datatype ledger_event = Offer string | Hold | Idle | Settle_held | Return_held | Settle_prefix nat

definition known :: "ledger \<Rightarrow> string \<Rightarrow> bool" where
  "known l k \<longleftrightarrow> k \<in> set (keys_of (lg_held l)) \<union> set (keys_of (lg_waiting l)) \<union> set (last_n recent_dedupe_key_limit (lg_settled l))"

inductive ledger_step :: "ledger \<Rightarrow> ledger_event \<Rightarrow> ledger \<Rightarrow> bool" where
  offer_new: "\<not> known l k \<Longrightarrow>
    ledger_step l (Offer k) (l\<lparr>lg_accepted := lg_accepted l @ [k], lg_waiting := Some (keys_of (lg_waiting l) @ [k])\<rparr>)"
| offer_known: "known l k \<Longrightarrow> ledger_step l (Offer k) l"
| hold: "lg_held l = None \<Longrightarrow> lg_waiting l = Some ks \<Longrightarrow>
    ledger_step l Hold (l\<lparr>lg_held := Some ks, lg_waiting := None\<rparr>)"
| idle: "lg_held l = Some ks \<Longrightarrow> ledger_step l Idle l"
| settle_held: "lg_held l = Some ks \<Longrightarrow>
    ledger_step l Settle_held (l\<lparr>lg_held := None, lg_settled := lg_settled l @ ks\<rparr>)"
| return_held: "lg_held l = Some ks \<Longrightarrow>
    ledger_step l Return_held (l\<lparr>lg_held := None, lg_waiting := Some (ks @ keys_of (lg_waiting l))\<rparr>)"
| settle_all: "lg_waiting l = Some ks \<Longrightarrow> n = length ks \<Longrightarrow>
    ledger_step l (Settle_prefix n) (l\<lparr>lg_waiting := None, lg_settled := lg_settled l @ ks\<rparr>)"
| settle_prefix: "lg_waiting l = Some (ks @ rest) \<Longrightarrow> n = length ks \<Longrightarrow>
    ledger_step l (Settle_prefix n) (l\<lparr>lg_waiting := Some rest, lg_settled := lg_settled l @ ks\<rparr>)"

inductive_cases offerE: "ledger_step l (Offer k) l'"
inductive_cases holdE: "ledger_step l Hold l'"
inductive_cases settle_prefixE: "ledger_step l (Settle_prefix n) l'"

inductive ledger_trace :: "ledger \<Rightarrow> ledger_event list \<Rightarrow> ledger \<Rightarrow> bool" where
  trace_nil: "ledger_trace l [] l"
| trace_step: "ledger_step l e u \<Longrightarrow> ledger_trace u es l' \<Longrightarrow> ledger_trace l (e # es) l'"

text \<open>Nothing accepted is lost or doubled, and the active keys are distinct from each other and from the recent settled ones.\<close>

definition ledger_inv :: "ledger \<Rightarrow> bool" where
  "ledger_inv l \<longleftrightarrow>
     mset (lg_accepted l) = mset (lg_settled l) + mset (keys_of (lg_held l)) + mset (keys_of (lg_waiting l)) \<and>
     distinct (keys_of (lg_held l) @ keys_of (lg_waiting l))"

lemma ledger_step_inv: "ledger_step l e l' \<Longrightarrow> ledger_inv l \<Longrightarrow> ledger_inv l'"
  by (induction rule: ledger_step.induct) (auto simp: ledger_inv_def keys_of_def known_def split: option.splits)

lemma ledger_trace_inv: "ledger_trace l es l' \<Longrightarrow> ledger_inv l \<Longrightarrow> ledger_inv l'"
  by (induction rule: ledger_trace.induct) (auto intro: ledger_step_inv)

lemma ledger_step_log: "ledger_step l e l' \<Longrightarrow> prefix (lg_accepted l) (lg_accepted l') \<and> prefix (lg_settled l) (lg_settled l')"
  by (induction rule: ledger_step.induct) auto

lemma ledger_trace_log: "ledger_trace l es l' \<Longrightarrow> prefix (lg_accepted l) (lg_accepted l') \<and> prefix (lg_settled l) (lg_settled l')"
  by (induction rule: ledger_trace.induct) (auto dest!: ledger_step_log intro: prefix_order.trans)

subsection \<open>The mailbox represents a ledger\<close>

definition represents :: "work_mailbox \<Rightarrow> ledger \<Rightarrow> bool" where
  "represents m l \<longleftrightarrow>
     lg_held l = map_option (\<lambda>p. dedupeKeys (proc_batch p)) (processing m) \<and>
     lg_waiting l = map_option dedupeKeys (pending m) \<and>
     recentDedupeKeys m = last_n recent_dedupe_key_limit (lg_settled l)"

fun event_for :: "mailbox_command \<Rightarrow> ledger_event \<Rightarrow> bool" where
  "event_for (Enqueue s) e = (\<exists>k. e = Offer k \<and> (\<forall>d. sig_dedupeKey s = Some d \<longrightarrow> k = trim d))"
| "event_for (Claim _) e = (e = Hold)"
| "event_for (Bind _ _) e = (e = Idle)"
| "event_for (Complete _) e = (e = Settle_held)"
| "event_for (Release _) e = (e = Return_held)"
| "event_for (Consume _) e = (\<exists>n. e = Settle_prefix n)"

lemma represents_known: "represents m l \<Longrightarrow> mailboxContainsDedupeKey m k \<longleftrightarrow> known l k"
  by (auto simp: mailboxContainsDedupeKey_def known_def represents_def keys_of_def split: option.splits)

lemma last_n_last_n: "last_n n (last_n n xs @ ys) = last_n n (xs @ ys)"
proof -
  have "drop (length (drop (length xs - n) xs @ ys) - n) (drop (length xs - n) xs @ ys) = drop (length (xs @ ys) - n) (xs @ ys)"
    by (cases "length xs \<le> n") (simp_all add: drop_drop add.commute le_diff_conv)
  then show ?thesis by (simp add: last_n_def)
qed

lemma remember_last_n:
  assumes "set ks \<inter> set (last_n recent_dedupe_key_limit xs) = {}" "distinct ks"
  shows "rememberDedupeKeys (last_n recent_dedupe_key_limit xs) ks = last_n recent_dedupe_key_limit (xs @ ks)"
proof -
  have "appendUnique (\<lambda>v. v) (last_n recent_dedupe_key_limit xs) ks = last_n recent_dedupe_key_limit xs @ ks"
    using assms by (intro appendUnique_disjoint) auto
  then show ?thesis by (simp add: rememberDedupeKeys_def last_n_last_n)
qed

lemma batch_keys:
  assumes "mailbox_inv m"
  shows "pending m = Some b \<Longrightarrow> distinct (dedupeKeys b) \<and> set (dedupeKeys b) \<inter> set (recentDedupeKeys m) = {}"
    "processing m = Some p \<Longrightarrow> distinct (dedupeKeys (proc_batch p)) \<and> set (dedupeKeys (proc_batch p)) \<inter> set (recentDedupeKeys m) = {}"
  using assms by (auto simp: mailbox_inv_def mailbox_ok_def active_keys_def mailboxBatches_def split: option.splits)

lemma simulate_enqueue:
  assumes inv: "mailbox_inv m" and rep: "represents m l" and run: "enqueueSignal m s = Inr m'"
  shows "\<exists>e l'. event_for (Enqueue s) e \<and> ledger_step l e l' \<and> represents m' l'"
proof -
  have ev: "event_for (Enqueue s) (Offer k)" if "signal_key (nextSequence m) s = Inr k" for k
    using that by (auto simp: signal_key_def mailbox_text_Inr requireText_def split: option.splits if_splits)
  show ?thesis
  proof (cases rule: enqueueSignal_result [OF inv run])
    case (1 k)
    then show ?thesis using ev rep represents_known [OF rep] offer_known by blast
  next
    case (2 k inc)
    have single: "dedupeKeys inc = [k]" using 2(3) by (simp add: single_batch_def)
    have "keys_of (lg_waiting l) @ [k] = dedupeKeys (merge_pending (pending m) inc)"
    proof (cases "pending m")
      case (Some b)
      have "k \<notin> set (dedupeKeys b)" using 2(2) Some by (simp add: mailboxContainsDedupeKey_def)
      then show ?thesis
        using rep Some single by (simp add: represents_def keys_of_def merge_pending_def mergeBatches_def appendUnique_def)
    qed (use rep single in \<open>simp add: represents_def keys_of_def merge_pending_def\<close>)
    then have "represents m' (l\<lparr>lg_accepted := lg_accepted l @ [k], lg_waiting := Some (keys_of (lg_waiting l) @ [k])\<rparr>)"
      using rep by (simp add: represents_def 2(4) queue_incoming_def)
    moreover have "\<not> known l k" using represents_known [OF rep] 2(2) by blast
    ultimately show ?thesis using ev [OF 2(1)] offer_new by blast
  qed
qed

lemma simulate_settle:
  assumes inv: "mailbox_inv m" and rep: "represents m l" and p: "processing m = Some p" and i: "requireText i = Inr (batchId p)"
  shows "completeProcessing m i = Inr m' \<Longrightarrow> \<exists>l'. ledger_step l Settle_held l' \<and> represents m' l'"
    "releaseProcessing m i = Inr m' \<Longrightarrow> \<exists>l'. ledger_step l Return_held l' \<and> represents m' l'"
proof -
  let ?ks = "dedupeKeys (proc_batch p)"
  have held: "lg_held l = Some ?ks" using rep p by (simp add: represents_def)
  have rec: "recentDedupeKeys m = last_n recent_dedupe_key_limit (lg_settled l)" using rep by (simp add: represents_def)
  {
    assume "completeProcessing m i = Inr m'"
    then have m': "m' = m\<lparr>processing := None, recentDedupeKeys := rememberDedupeKeys (recentDedupeKeys m) ?ks\<rparr>"
      using completeProcessing_result(1) [OF inv p i] by simp
    then have "represents m' (l\<lparr>lg_held := None, lg_settled := lg_settled l @ ?ks\<rparr>)"
      using rep batch_keys(2) [OF inv p] remember_last_n [of ?ks "lg_settled l"] rec by (simp add: represents_def)
    with settle_held [OF held] show "\<exists>l'. ledger_step l Settle_held l' \<and> represents m' l'" by blast
  next
    assume "releaseProcessing m i = Inr m'"
    then have m': "m' = m\<lparr>processing := None, pending := Some (case pending m of None \<Rightarrow> proc_batch p | Some b \<Rightarrow> mergeBatches (proc_batch p) b)\<rparr>"
      using releaseProcessing_result(1) [OF inv p i] by simp
    have "dedupeKeys (mergeBatches (proc_batch p) b) = ?ks @ dedupeKeys b" if "pending m = Some b" for b
      using mergeBatches_fields(4) [OF _ mailbox_inv_parts(1) [OF inv that] mailbox_inv_parts(3) [OF inv p that]
          mailbox_inv_parts(4) [OF inv p that]] mailbox_inv_parts(2) [OF inv p] by (simp add: processing_ok_def)
    then have "represents m' (l\<lparr>lg_held := None, lg_waiting := Some (?ks @ keys_of (lg_waiting l))\<rparr>)"
      using rep by (cases "pending m") (simp_all add: m' represents_def keys_of_def)
    with return_held [OF held] show "\<exists>l'. ledger_step l Return_held l' \<and> represents m' l'" by blast
  }
qed

lemma simulate_consume:
  assumes inv: "mailbox_inv m" and rep: "represents m l" and run: "consumePendingBatch m t = Inr m'"
  shows "\<exists>n l'. ledger_step l (Settle_prefix n) l' \<and> represents m' l'"
proof -
  have rec: "recentDedupeKeys m = last_n recent_dedupe_key_limit (lg_settled l)" using rep by (simp add: represents_def)
  show ?thesis
  proof (cases rule: consumePendingBatch_result [OF inv run])
    case (1 b)
    have w: "lg_waiting l = Some (dedupeKeys b)" using rep 1 by (simp add: represents_def)
    have "represents m' (l\<lparr>lg_waiting := None, lg_settled := lg_settled l @ dedupeKeys b\<rparr>)"
      using rep batch_keys(1) [OF inv 1(1)] remember_last_n [of "dedupeKeys b" "lg_settled l"] rec
      by (simp add: represents_def 1(2) consume_all_def)
    with settle_all [OF w refl] show ?thesis by blast
  next
    case (2 b u)
    define n where "n = (if keys_aligned b then nat (u - fromSequence b + 1) else 0)"
    have w: "lg_waiting l = Some (take n (dedupeKeys b) @ drop n (dedupeKeys b))" using rep 2 by (simp add: represents_def)
    have ks: "distinct (take n (dedupeKeys b))" "set (take n (dedupeKeys b)) \<inter> set (last_n recent_dedupe_key_limit (lg_settled l)) = {}"
      using batch_keys(1) [OF inv 2(1)] rec set_take_subset [of n "dedupeKeys b"] by auto
    have "m' = m\<lparr>pending := Some (b\<lparr>fromSequence := u + 1, requestCount := toSequence b - u, dedupeKeys := drop n (dedupeKeys b)\<rparr>),
        recentDedupeKeys := rememberDedupeKeys (recentDedupeKeys m) (take n (dedupeKeys b))\<rparr>"
      by (simp add: 2(2) consume_prefix_def n_def Let_def)
    then have "represents m' (l\<lparr>lg_waiting := Some (drop n (dedupeKeys b)), lg_settled := lg_settled l @ take n (dedupeKeys b)\<rparr>)"
      using rep rec remember_last_n [OF ks(2,1)] by (simp add: represents_def)
    with settle_prefix [OF w refl] show ?thesis by blast
  qed
qed

lemma simulate_step:
  assumes inv: "mailbox_inv m" and rep: "represents m l" and run: "mailbox_step c m = Inr m'"
  shows "\<exists>e l'. event_for c e \<and> ledger_step l e l' \<and> represents m' l'"
proof (cases c)
  case (Enqueue s)
  then show ?thesis using simulate_enqueue [OF inv rep] run by simp
next
  case (Claim opts)
  then obtain b i w st where b: "processing m = None" "pending m = Some b"
    "m' = m\<lparr>processing := Some \<lparr>batchId = i, proc_batch = b, owner = w, startedAt = st, executionRef = None\<rparr>, pending := None\<rparr>"
    using run by (auto simp: claimPending_Inr [OF inv])
  with rep have "lg_held l = None" "lg_waiting l = Some (dedupeKeys b)"
    "represents m' (l\<lparr>lg_held := Some (dedupeKeys b), lg_waiting := None\<rparr>)" by (simp_all add: represents_def)
  then show ?thesis using hold Claim by fastforce
next
  case (Bind i r)
  then have "bindExecution m i r = Inr m'" using run by simp
  then obtain p r' where "processing m = Some p" "m' = m\<lparr>processing := Some (p\<lparr>executionRef := Some r'\<rparr>)\<rparr>"
    by (rule bindExecution_ok [OF inv])
  with rep have "lg_held l = Some (dedupeKeys (proc_batch p))" "represents m' l" by (simp_all add: represents_def)
  then show ?thesis using idle Bind by fastforce
next
  case (Complete i)
  with run complete_release_processing(1) [OF inv, of i m'] obtain p where
    "processing m = Some p" "requireText i = Inr (batchId p)" by auto
  from simulate_settle(1) [OF inv rep this] run Complete show ?thesis by fastforce
next
  case (Release i)
  with run complete_release_processing(2) [OF inv, of i m'] obtain p where
    "processing m = Some p" "requireText i = Inr (batchId p)" by auto
  from simulate_settle(2) [OF inv rep this] run Release show ?thesis by fastforce
next
  case (Consume t)
  with run simulate_consume [OF inv rep] show ?thesis by fastforce
qed

lemma simulate_run:
  "mailbox_inv m \<Longrightarrow> represents m l \<Longrightarrow> run_commands mailbox_step cs m = Inr n \<Longrightarrow>
    \<exists>es l'. list_all2 event_for cs es \<and> ledger_trace l es l' \<and> represents n l'"
proof (induction cs arbitrary: m l)
  case Nil
  then show ?case by (auto intro: trace_nil)
next
  case (Cons c cs)
  from Cons.prems(3) obtain u where u: "mailbox_step c m = Inr u" "run_commands mailbox_step cs u = Inr n"
    by (auto simp: bind_result_Inr)
  from simulate_step [OF Cons.prems(1,2) u(1)] obtain e v where e: "event_for c e" "ledger_step l e v" "represents u v" by blast
  have "mailbox_inv u" using mailbox_step_inv [OF Cons.prems(1) u(1)] by simp
  from Cons.IH [OF this e(3) u(2)] obtain es l' where "list_all2 event_for cs es" "ledger_trace v es l'" "represents n l'" by blast
  with e trace_step show ?case by (intro exI [of _ "e # es"] exI [of _ l']) auto
qed

subsection \<open>Properties\<close>

text \<open>
  C7. A work mailbox refines the ledger. Whatever sequence of operations succeeds on a new mailbox, there is a
  run of the ledger with one matching event per operation (an enqueued signal offers its key, a
  claim holds the waiting keys, completion and consumption settle keys, a release returns them)
  that ends in a ledger the mailbox represents; hence the accepted keys are exactly the settled,
  the held and the waiting ones, each as often as it was accepted, and no key is active twice.
\<close>

theorem mailbox_refines_ledger:
  assumes "createWorkMailbox t = Inr m" "run_commands mailbox_step cs m = Inr n"
  shows "\<exists>es l. list_all2 event_for cs es \<and> ledger_trace empty_ledger es l \<and> represents n l \<and>
    mset (lg_accepted l) = mset (lg_settled l) + mset (active_keys n) \<and> distinct (active_keys n)"
proof -
  have inv: "mailbox_inv m" by (rule createWorkMailbox_inv [OF assms(1)])
  have "represents m empty_ledger"
    using assms(1) by (auto simp: createWorkMailbox_def bind_result_Inr represents_def empty_ledger_def last_n_def)
  from simulate_run [OF inv this assms(2)] obtain es l where r: "list_all2 event_for cs es" "ledger_trace empty_ledger es l" "represents n l"
    by blast
  have "ledger_inv empty_ledger" by (simp add: ledger_inv_def empty_ledger_def keys_of_def)
  from ledger_trace_inv [OF r(2) this] have "ledger_inv l" .
  moreover have "active_keys n = keys_of (lg_held l) @ keys_of (lg_waiting l)"
    using r(3) by (auto simp: represents_def active_keys_def mailboxBatches_def keys_of_def split: option.splits)
  ultimately show ?thesis using r by (auto simp: ledger_inv_def add.assoc)
qed

lemma mailbox_refines_ledger_witness:
  "\<exists>es l. ledger_trace empty_ledger es l \<and> represents demo_claimed l"
proof -
  have "createWorkMailbox (mailbox_target demo_mailbox) =
      Inr \<lparr>mailbox_target = mailbox_target demo_mailbox, nextSequence = 1, processing = None, pending = None, recentDedupeKeys = []\<rparr>"
    (is "_ = Inr ?m") by code_simp
  moreover have "enqueueSignal ?m (demo_signal ''a'') = Inr demo_mailbox" by code_simp
  then have "run_commands mailbox_step [Enqueue (demo_signal ''a''), Claim demo_claim] ?m = Inr demo_claimed"
    by (simp add: demo_claim_run)
  ultimately show ?thesis using mailbox_refines_ledger by blast
qed

end
