(* ===== verification/Spec2Isabelle.thy ===== *)
theory Spec2Isabelle
  imports Keyed_Work_Queue Work_Mailbox_Queue Mailbox_Scheduler Task Capability_Grant Integration_Attempt Input_Request Work_Item Review_Round Publication Durable_Job_Store Schedule Agent_Run Message File_Patterns File_Edits Mailbox_Ledger
begin

text \<open>
  A verification library for the core of Yui, a control plane that runs coding agents on Tasks. Paths
  below are relative to \<open>src/src\<close> of the repository.

  \<^bold>\<open>The program.\<close> A Task (\<open>task/task.ts\<close>) is the unit of delivery: it is created as a draft, activated
  by an activation request (\<open>task/taskActivation.ts\<close>), bound to Projects and a workspace identity,
  completed, reopened, retired or archived. Its work is split into Work Items
  (\<open>workItem/workItem.ts\<close>), which collect candidates for acceptance, may run replicated executions
  (\<open>execution/workItemExecution.ts\<close>) and are integrated by integration attempts
  (\<open>integration/integrationAttempt.ts\<close>). Effects outside the Task need a capability grant
  (\<open>grant/capabilityGrant.ts\<close>), candidates and the heads of a Task are judged in review rounds
  (\<open>review/reviewRound.ts\<close>), questions to the user are input requests (\<open>input/inputRequest.ts\<close>), long
  commands run as durable jobs (\<open>job/durableJob.ts\<close>), started by hand or by schedules (\<open>schedule/schedule.ts\<close>).
  The controller is driven by mailboxes (\<open>coordination\<close>): signals are deduplicated and batched in a
  durable mailbox, mailboxes are scheduled by key, and a keyed queue hands each key to one
  worker at a time. The built-in agent searches and edits files with its own pattern matcher and
  diffs (\<open>nativeAgent\<close>).

  \<^bold>\<open>Modelling.\<close> Records of the code are records, tagged unions are datatypes, a thrown error is the
  left value of a sum whose constructors name the throw statements in their order, optional fields
  are \<open>option\<close>. Operations that replace a record are functions from the record to a result; objects
  with mutable state are state-passing functions. Integers are \<open>int\<close> with the test for safe
  integers where the code has it. Strings are lists of code units 0 to 255,
  results of agents lists of code points. Time is the
  number of milliseconds, printed and parsed as ISO 8601. Objects parsed from JSON are taken
  with the declared types: tests for unknown keys, wrong types and schema versions have no counterpart.
  Code outside the repository is an argument: SHA-256, the launch snapshot of an executor, the
  file system and the current directory, the cron parser. Where an operation asks a part of the
  program that is not modelled, its answer is an argument too.

  \<^bold>\<open>Theories.\<close>
  \<^item> \<open>Prelude\<close>: results, first failing check, lists without duplicates, and the locales
    \<open>command_system\<close>, \<open>identified_system\<close> and \<open>ratchet_system\<close> that every aggregate interprets.
  \<^item> \<open>Js_Text\<close>, \<open>Js_Date\<close>, \<open>Js_Json\<close>, \<open>Posix_Path\<close>: the parts of the language and of \<open>node:path\<close> that the code uses.
  \<^item> \<open>Validation\<close>: \<open>domain/validation.ts\<close> and \<open>task/taskRecordReference.ts\<close>.
  \<^item> \<open>Keyed_Work_Queue\<close>: \<open>coordination/keyedWorkQueue.ts\<close>; \<open>Mailbox_Scheduler\<close>: \<open>coordination/mailboxScheduler.ts\<close>
    and \<open>deadlineScheduler.ts\<close>; \<open>Work_Mailbox\<close>: \<open>coordination/workMailbox.ts\<close>; \<open>Work_Mailbox_Queue\<close>:
    \<open>coordination/workMailboxQueue.ts\<close> over the mailbox table of \<open>storage/sqliteStore.ts\<close>.
  \<^item> \<open>Operation_Facts\<close>, \<open>Task_Activation\<close>, \<open>Workspace_Identity\<close>, \<open>Task\<close>: \<open>kernel/operationFacts.ts\<close>,
    \<open>task/taskActivation.ts\<close>, \<open>repository/taskWorkspaceIdentity.ts\<close> and \<open>task/task.ts\<close>.
  \<^item> \<open>Capability_Grant\<close>, \<open>Integration_Attempt\<close>, \<open>Input_Request\<close>: the files of the same name.
  \<^item> \<open>Work_Item_Execution\<close>, \<open>Managed_Workspace\<close>, \<open>Artifact_Reference\<close>, \<open>Work_Candidate\<close>, \<open>Work_Item\<close>:
    \<open>execution/workItemExecution.ts\<close>, \<open>worktree/managedWorkspace.ts\<close>, \<open>artifacts/artifactPaths.ts\<close> and
    \<open>gitArtifactRef.ts\<close>, \<open>review/reviewConfig.ts\<close> and \<open>taskFinalReviewContract.ts\<close>, \<open>workItem/workItem.ts\<close>
    and \<open>dependencyGate.ts\<close>.
  \<^item> \<open>Review_Round\<close>: \<open>review/reviewRound.ts\<close>.
  \<^item> \<open>Publication\<close>: \<open>task/publicationReference.ts\<close>, the table of publications of \<open>storage/sqliteStore.ts\<close>
    and the freshness bound of \<open>task/publicationToolObservation.ts\<close>.
  \<^item> \<open>Job_Records\<close>, \<open>Durable_Job\<close>, \<open>Durable_Job_Store\<close>: \<open>job/durableJob.ts\<close> with the parts of
    \<open>jobBusinessResult.ts\<close>, \<open>jobDefinition.ts\<close>, \<open>taskDelegation.ts\<close> and \<open>artifacts/jobArtifact.ts\<close> that a run
    carries, and the table of jobs of \<open>storage/sqliteStore.ts\<close>.
  \<^item> \<open>Schedule\<close>: \<open>schedule/schedule.ts\<close>, \<open>controller/scheduleControl.ts\<close>, the built-in schedules of
    \<open>job/projectSync.ts\<close> and \<open>scheduleService.ts\<close>, and what saving a Task does to its schedules.
  \<^item> \<open>Agent_Run\<close>: \<open>agentRun/agentRun.ts\<close>, \<open>context/runInputContract.ts\<close> and \<open>domain/agentResultTransport.ts\<close>.
  \<^item> \<open>Message\<close>: \<open>message/message.ts\<close>, \<open>message/inboxReceipt.ts\<close>, the result of a steer
    (\<open>message/globalInterrupt.ts\<close>) and the claim of a continuation (\<open>registerGlobalInterruptThen\<close> of
    \<open>commands/globalRoleCommands.ts\<close>) over the table of global messages.
  \<^item> \<open>Mailbox_Ledger\<close>: an abstract ledger of deduplication keys and the simulation showing that
    \<open>Work_Mailbox\<close> implements it.
  \<^item> \<open>File_Patterns\<close>, \<open>File_Edits\<close>: \<open>nativeAgent/filePatterns.ts\<close>, the edits and diffs of
    \<open>nativeAgent/fileToolsSupport.ts\<close> and \<open>textTools.ts\<close>.

  \<^bold>\<open>What is shown.\<close> For the queue: mutual exclusion, order, no lost signal, no starved consumer. For
  mailboxes: a signal is recorded once on every mailbox that operations reach, settlement of
  exactly the captured prefix while the numbering has no gap, refinement of a ledger in which every accepted key is waiting, held
  or settled. Publications of one external object form one chain. Every operation
  on a job asks for a replacement the store admits, and the events of a job are its complete journal. No
  trigger of a schedule starts two runs, whatever the clock does, and a due schedule is settled by one pass unless its error
  cannot be recorded. Whatever a provider reports
  at the end of a turn can be recorded in its run. Messages only
  accumulate facts, and no two inputs continue the same interrupted turn. For each record: the operations keep it valid and keep its identity
  over every run, its status follows its lifecycle graph, histories only grow, decisions are
  final; decisions are characterised exactly (grants, answers, the launch fence, the dependency gate);
  the automaton of the pattern matcher decides
  the declarative language within its work bound, reported diffs apply to the change they
  report; texts that are parsed back round-trip, and keys that are compared are injective. Six theorems show
  where the code departs from its own comments.

  \<^bold>\<open>Bounds.\<close> No definition uses fuel. The dispatch loop of the keyed queue terminates because each round
  removes a waiter. Counters are bounded by the largest safe integer, and theorems that claim an
  operation succeeds assume that the counter is not exhausted.

  \<^bold>\<open>Not modelled.\<close> Processes, terminals, HTTP and the web client; SQL text, migrations and
  transactions; running git; prompt and context assembly; the command-line layer and the
  controller, which load records, call the operations modelled here and store the results.
\<close>

end
